(* ===== verification/Prelude.thy ===== *)
theory Prelude
  imports Main "HOL-Library.Word"
begin

text \<open>
  What the component theories share: the model of Rust's byte slices and strings, the
  standard-library operations the code calls on them, and the lemma collections that the
  component proofs use.

  A byte slice (\<open>&[u8]\<close>) and a Rust string (\<open>&str\<close>, \<open>String\<close>) are both a HOL
  \<^typ>\<open>string\<close>, a list of octets; a Rust string is one for which \<open>utf8_valid\<close> holds.
  \<open>chars\<close> cuts a string into its characters, each kept as its own UTF-8 octets, so that
  code which works on \<open>char\<close> values is modelled on characters and not on octets.
\<close>

named_theorems str_simps \<open>rewrite rules for the string operations\<close>

type_synonym rchar = string \<comment> \<open>one character, as its UTF-8 octets\<close>

subsection \<open>Octets\<close>

abbreviation octet :: "char \<Rightarrow> nat" where
  "octet c \<equiv> of_char c"

definition CR :: char where "CR = CHR 0x0D"
definition LF :: char where "LF = CHR 0x0A"
definition NUL :: char where "NUL = CHR 0x00"
definition SP :: char where "SP = CHR 0x20"
definition BS :: char where "BS = CHR 0x5C" \<comment> \<open>backslash\<close>

lemmas ctl_defs = CR_def LF_def NUL_def SP_def BS_def

definition is_ascii :: "char \<Rightarrow> bool" where
  "is_ascii c \<longleftrightarrow> octet c < 0x80"

definition is_ascii_digit :: "char \<Rightarrow> bool" where
  "is_ascii_digit c \<longleftrightarrow> 0x30 \<le> octet c \<and> octet c \<le> 0x39"

definition is_ascii_upper :: "char \<Rightarrow> bool" where
  "is_ascii_upper c \<longleftrightarrow> 0x41 \<le> octet c \<and> octet c \<le> 0x5A"

definition is_ascii_lower :: "char \<Rightarrow> bool" where
  "is_ascii_lower c \<longleftrightarrow> 0x61 \<le> octet c \<and> octet c \<le> 0x7A"

definition is_ascii_alphabetic :: "char \<Rightarrow> bool" where
  "is_ascii_alphabetic c \<longleftrightarrow> is_ascii_upper c \<or> is_ascii_lower c"

definition is_ascii_alphanumeric :: "char \<Rightarrow> bool" where
  "is_ascii_alphanumeric c \<longleftrightarrow> is_ascii_alphabetic c \<or> is_ascii_digit c"

definition to_ascii_lowercase :: "char \<Rightarrow> char" where
  "to_ascii_lowercase c = (if is_ascii_upper c then char_of (octet c + 32) else c)"

definition to_ascii_uppercase :: "char \<Rightarrow> char" where
  "to_ascii_uppercase c = (if is_ascii_lower c then char_of (octet c - 32) else c)"

definition eq_ignore_ascii_case :: "string \<Rightarrow> string \<Rightarrow> bool" where
  "eq_ignore_ascii_case a b \<longleftrightarrow> map to_ascii_lowercase a = map to_ascii_lowercase b"

lemmas ascii_class_defs =
  is_ascii_def is_ascii_digit_def is_ascii_upper_def is_ascii_lower_def
  is_ascii_alphabetic_def is_ascii_alphanumeric_def

lemma octet_bound [simp]: "octet c < 256"
  by (rule nat_of_char_less_256)

lemma octet_inject: "octet c = octet d \<longleftrightarrow> c = d"
  by simp

lemma octet_char_of [simp]: "n < 256 \<Longrightarrow> octet (char_of n) = (n::nat)"
  by simp

lemma octet_lowercase:
  "octet (to_ascii_lowercase c) = (if is_ascii_upper c then octet c + 32 else octet c)"
  by (auto simp: to_ascii_lowercase_def is_ascii_upper_def)

lemma lowercase_idem [simp]: "to_ascii_lowercase (to_ascii_lowercase c) = to_ascii_lowercase c"
proof -
  have "\<not> is_ascii_upper (to_ascii_lowercase c)"
    by (auto simp: is_ascii_upper_def octet_lowercase)
  then show ?thesis by (simp add: to_ascii_lowercase_def)
qed

lemma eq_ignore_ascii_case_refl [simp]: "eq_ignore_ascii_case a a"
  by (simp add: eq_ignore_ascii_case_def)

lemma eq_ignore_ascii_case_sym: "eq_ignore_ascii_case a b \<longleftrightarrow> eq_ignore_ascii_case b a"
  by (auto simp: eq_ignore_ascii_case_def)

lemma eq_ignore_ascii_case_trans:
  "eq_ignore_ascii_case a b \<Longrightarrow> eq_ignore_ascii_case b c \<Longrightarrow> eq_ignore_ascii_case a c"
  by (simp add: eq_ignore_ascii_case_def)

subsection \<open>Characters of a string\<close>

definition is_cont :: "char \<Rightarrow> bool" where
  "is_cont c \<longleftrightarrow> 0x80 \<le> octet c \<and> octet c < 0xC0" \<comment> \<open>a UTF-8 continuation octet\<close>

text \<open>\<open>str::chars\<close>, with every character kept as its octets.\<close>

function chars :: "string \<Rightarrow> rchar list" where
  "chars [] = []"
| "chars (b # s) =
     (if is_ascii b then [b] # chars s
      else (b # takeWhile is_cont s) # chars (dropWhile is_cont s))"
  by pat_completeness auto
termination
  by (relation "measure length") (auto simp: le_imp_less_Suc length_dropWhile_le)

lemma concat_chars [simp]: "concat (chars s) = s"
  by (induction s rule: chars.induct) auto

lemma chars_nonempty: "c \<in> set (chars s) \<Longrightarrow> c \<noteq> []"
  by (induction s rule: chars.induct) (auto split: if_splits)

lemma chars_eq_Nil [simp]: "chars s = [] \<longleftrightarrow> s = []"
  by (cases s) auto

lemma chars_ascii: "list_all is_ascii s \<Longrightarrow> chars s = map (\<lambda>b. [b]) s"
  by (induction s) auto

lemma length_chars_le: "length (chars s) \<le> length s"
proof (induction s rule: chars.induct)
  case (2 b s)
  then show ?case using length_dropWhile_le [of is_cont s] by auto
qed simp

text \<open>
  An operation that rewrites every ASCII character and keeps the others is an operation on
  octets: this carries the character-wise code to list induction.
\<close>

lemma takeWhile_cont_not_ascii: "c \<in> set (takeWhile is_cont s) \<Longrightarrow> \<not> is_ascii c"
  by (auto dest!: set_takeWhileD simp: is_cont_def is_ascii_def)

lemma concat_map_chars:
  assumes "\<And>b. is_ascii b \<Longrightarrow> f [b] = g b"
    and "\<And>b. \<not> is_ascii b \<Longrightarrow> g b = [b]"
    and "\<And>b c. \<not> is_ascii b \<Longrightarrow> f (b # c) = b # c"
  shows "concat (map f (chars s)) = concat (map g s)"
proof (induction s rule: chars.induct)
  case (2 b s)
  show ?case
  proof (cases "is_ascii b")
    case True
    with 2 show ?thesis by (simp add: assms(1))
  next
    case False
    have g_id: "concat (map g xs) = xs" if "\<And>c. c \<in> set xs \<Longrightarrow> \<not> is_ascii c" for xs
      using that by (induction xs) (auto simp: assms(2))
    have "concat (map g s) = concat (map g (takeWhile is_cont s)) @ concat (map g (dropWhile is_cont s))"
      by (metis concat_append map_append takeWhile_dropWhile_id)
    also have "concat (map g (takeWhile is_cont s)) = takeWhile is_cont s"
      by (rule g_id) (rule takeWhile_cont_not_ascii)
    finally show ?thesis using 2 False by (simp add: assms(2,3))
  qed
qed simp

text \<open>\<open>char::is_whitespace\<close> (Unicode White\_Space) and \<open>char::is_control\<close> (category Cc).\<close>

definition is_whitespace :: "rchar \<Rightarrow> bool" where
  "is_whitespace c \<longleftrightarrow>
     c \<in> {[CHR 0x09], [CHR 0x0A], [CHR 0x0B], [CHR 0x0C], [CHR 0x0D], [CHR 0x20],
          [CHR 0xC2, CHR 0x85], [CHR 0xC2, CHR 0xA0], [CHR 0xE1, CHR 0x9A, CHR 0x80],
          [CHR 0xE2, CHR 0x80, CHR 0xA8], [CHR 0xE2, CHR 0x80, CHR 0xA9],
          [CHR 0xE2, CHR 0x80, CHR 0xAF], [CHR 0xE2, CHR 0x81, CHR 0x9F],
          [CHR 0xE3, CHR 0x80, CHR 0x80]}
     \<or> (\<exists>b \<in> set (drop 2 c). length c = 3 \<and> take 2 c = [CHR 0xE2, CHR 0x80]
           \<and> 0x80 \<le> octet b \<and> octet b \<le> 0x8A)"

definition is_control :: "rchar \<Rightarrow> bool" where
  "is_control c \<longleftrightarrow>
     (case c of [a] \<Rightarrow> octet a < 0x20 \<or> octet a = 0x7F
      | [a, b] \<Rightarrow> octet a = 0xC2 \<and> 0x80 \<le> octet b \<and> octet b \<le> 0x9F
      | _ \<Rightarrow> False)"

text \<open>
  \<open>str::from_utf8\<close>: the well-formed octet sequences of the Unicode standard (no overlong
  form, no surrogate, nothing above U+10FFFF).
\<close>

definition in_range :: "nat \<Rightarrow> char \<Rightarrow> nat \<Rightarrow> bool" where
  "in_range lo c hi \<longleftrightarrow> lo \<le> octet c \<and> octet c \<le> hi"

fun utf8_valid :: "string \<Rightarrow> bool" where
  "utf8_valid [] = True"
| "utf8_valid (a # s) =
     (if octet a < 0x80 then utf8_valid s
      else if in_range 0xC2 a 0xDF then
        (case s of b # t \<Rightarrow> is_cont b \<and> utf8_valid t | _ \<Rightarrow> False)
      else if in_range 0xE0 a 0xEF then
        (case s of b # c # t \<Rightarrow>
           in_range (if octet a = 0xE0 then 0xA0 else 0x80) b (if octet a = 0xED then 0x9F else 0xBF)
           \<and> is_cont c \<and> utf8_valid t
         | _ \<Rightarrow> False)
      else if in_range 0xF0 a 0xF4 then
        (case s of b # c # d # t \<Rightarrow>
           in_range (if octet a = 0xF0 then 0x90 else 0x80) b (if octet a = 0xF4 then 0x8F else 0xBF)
           \<and> is_cont c \<and> is_cont d \<and> utf8_valid t
         | _ \<Rightarrow> False)
      else False)"

lemma utf8_valid_ascii: "list_all is_ascii s \<Longrightarrow> utf8_valid s"
  by (induction s) (auto simp: is_ascii_def)

text \<open>A well-formed string is a sequence of ASCII octets and of complete multi-octet characters.\<close>

definition utf8_unit :: "string \<Rightarrow> bool" where
  "utf8_unit u \<longleftrightarrow> u \<noteq> [] \<and> list_all (\<lambda>c. \<not> is_ascii c) u \<and> (\<forall>r. utf8_valid (u @ r) = utf8_valid r)"

lemma utf8_valid_Cons_ascii [simp]: "is_ascii a \<Longrightarrow> utf8_valid (a # s) = utf8_valid s"
  by (simp add: is_ascii_def)

lemma utf8_valid_split:
  assumes "utf8_valid s" "s \<noteq> []"
  obtains (ascii) a t where "s = a # t" "is_ascii a" "utf8_valid t"
    | (multi) u t where "s = u @ t" "utf8_unit u" "utf8_valid t"
proof (cases s rule: utf8_valid.cases)
  case (2 a r)
  show thesis
  proof (cases "octet a < 0x80")
    case True
    with 2 assms show thesis by (intro ascii [of a r]) (auto simp: is_ascii_def)
  next
    case False
    note defs = utf8_unit_def is_ascii_def is_cont_def in_range_def
    from False consider "in_range 0xC2 a 0xDF" | "in_range 0xE0 a 0xEF" | "in_range 0xF0 a 0xF4"
      using 2 assms by (auto split: if_splits)
    then show thesis
    proof cases
      case 1
      then obtain b t where "r = b # t" "is_cont b" "utf8_valid t"
        using 2 assms False by (auto split: list.splits)
      with 1 2 False show thesis by (intro multi [of "[a, b]" t]) (auto simp: defs)
    next
      case b: 2
      then obtain b c t where "r = b # c # t" "is_cont c" "utf8_valid t"
        "in_range (if octet a = 0xE0 then 0xA0 else 0x80) b (if octet a = 0xED then 0x9F else 0xBF)"
        using 2 assms False by (auto simp: in_range_def split: list.splits)
      with b 2 False show thesis
        by (intro multi [of "[a, b, c]" t]) (auto simp: defs split: if_splits)
    next
      case 3
      then obtain b c d t where "r = b # c # d # t" "is_cont c" "is_cont d" "utf8_valid t"
        "in_range (if octet a = 0xF0 then 0x90 else 0x80) b (if octet a = 0xF4 then 0x8F else 0xBF)"
        using 2 assms False by (auto simp: in_range_def split: list.splits)
      with 3 2 False show thesis
        by (intro multi [of "[a, b, c, d]" t]) (auto simp: defs split: if_splits)
    qed
  qed
qed (use assms in simp)

declare utf8_valid.simps(2) [simp del]

lemma utf8_induct [consumes 1, case_names Nil ascii multi]:
  assumes "utf8_valid s"
    and "P []"
    and "\<And>a t. is_ascii a \<Longrightarrow> utf8_valid t \<Longrightarrow> P t \<Longrightarrow> P (a # t)"
    and "\<And>u t. utf8_unit u \<Longrightarrow> utf8_valid t \<Longrightarrow> P t \<Longrightarrow> P (u @ t)"
  shows "P s"
  using assms(1)
proof (induction "length s" arbitrary: s rule: less_induct)
  case less
  show ?case
  proof (cases "s = []")
    case False
    from less.prems False show ?thesis
    proof (cases rule: utf8_valid_split)
      case (ascii a t)
      then show ?thesis using less.hyps [of t] assms(3) by simp
    next
      case (multi u t)
      then have "length t < length s" by (auto simp: utf8_unit_def)
      with multi show ?thesis using less.hyps [of t] assms(4) by simp
    qed
  qed (simp add: assms(2))
qed

text \<open>\<open>str::get(a..b)\<close>: \<open>None\<close> out of range or inside a character.\<close>

definition char_boundary :: "string \<Rightarrow> nat \<Rightarrow> bool" where
  "char_boundary s i \<longleftrightarrow> i = 0 \<or> i = length s \<or> (i < length s \<and> \<not> is_cont (s ! i))"

definition str_get :: "string \<Rightarrow> nat \<Rightarrow> nat \<Rightarrow> string option" where
  "str_get s a b =
     (if a \<le> b \<and> b \<le> length s \<and> char_boundary s a \<and> char_boundary s b
      then Some (take (b - a) (drop a s)) else None)"

subsection \<open>Searching, splitting and joining\<close>

definition memchr :: "char \<Rightarrow> string \<Rightarrow> nat option" where
  "memchr c s = (let i = length (takeWhile (\<lambda>x. x \<noteq> c) s) in if i < length s then Some i else None)"

lemma takeWhile_length_less:
  "length (takeWhile P s) < length s \<longleftrightarrow> (\<exists>x \<in> set s. \<not> P x)"
  by (induction s) auto

lemma memchr_None [simp]: "memchr c s = None \<longleftrightarrow> c \<notin> set s"
  by (auto simp: memchr_def Let_def takeWhile_length_less)

lemma memchr_free [str_simps]: "c \<notin> set s \<Longrightarrow> memchr c s = None"
  by simp

lemma memchr_SomeD:
  assumes "memchr c s = Some i"
  shows "s = take i s @ c # drop (Suc i) s" "c \<notin> set (take i s)" "i < length s"
proof -
  from assms have i: "i = length (takeWhile (\<lambda>x. x \<noteq> c) s)" and l: "i < length s"
    by (auto simp: memchr_def Let_def split: if_splits)
  have tk: "take i s = takeWhile (\<lambda>x. x \<noteq> c) s"
    by (simp add: i takeWhile_eq_take [symmetric])
  have "s ! i = c" using i l nth_length_takeWhile by blast
  then show "s = take i s @ c # drop (Suc i) s"
    using l by (metis id_take_nth_drop)
  show "c \<notin> set (take i s)" unfolding tk using set_takeWhileD by fastforce
  show "i < length s" by (fact l)
qed

lemma memchr_append [str_simps]: "c \<notin> set p \<Longrightarrow> memchr c (p @ c # q) = Some (length p)"
proof -
  assume c: "c \<notin> set p"
  then have "takeWhile (\<lambda>x. x \<noteq> c) (p @ c # q) = p"
    by (metis (mono_tags, lifting) takeWhile.simps(2) takeWhile_append2 append_Nil2)
  then show ?thesis by (simp add: memchr_def)
qed

text \<open>\<open>split\<close> on one octet: always at least one piece.\<close>

fun split_on :: "char \<Rightarrow> string \<Rightarrow> string list" where
  "split_on c [] = [[]]"
| "split_on c (x # xs) =
     (if x = c then [] # split_on c xs
      else case split_on c xs of p # ps \<Rightarrow> (x # p) # ps | [] \<Rightarrow> [[x]])"

fun join :: "string \<Rightarrow> string list \<Rightarrow> string" where
  "join sep [] = []"
| "join sep [x] = x"
| "join sep (x # y # zs) = x @ sep @ join sep (y # zs)"

lemma split_on_nonempty [simp]: "split_on c s \<noteq> []"
  by (induction s) (auto split: list.splits)

lemma split_on_free: "c \<notin> set s \<Longrightarrow> split_on c s = [s]"
  by (induction s) auto

lemma split_on_append [str_simps]:
  "c \<notin> set p \<Longrightarrow> split_on c (p @ c # q) = p # split_on c q"
  by (induction p) auto

lemma split_on_pieces: "p \<in> set (split_on c s) \<Longrightarrow> c \<notin> set p \<and> set p \<subseteq> set s"
proof (induction s arbitrary: p)
  case (Cons x xs)
  then show ?case by (cases "split_on c xs") (fastforce split: if_splits)+
qed simp

lemma split_on_join:
  "ps \<noteq> [] \<Longrightarrow> (\<And>p. p \<in> set ps \<Longrightarrow> c \<notin> set p) \<Longrightarrow> split_on c (join [c] ps) = ps"
  by (induction "[c]" ps rule: join.induct) (auto simp: split_on_free str_simps)

lemma join_split_on [simp]: "join [c] (split_on c s) = s"
proof (induction s)
  case (Cons x xs)
  then show ?case
    by (cases "split_on c xs"; cases "tl (split_on c xs)") auto
qed simp

lemma join_length_le:
  "length (join [c] ps) \<le> (\<Sum>p \<leftarrow> ps. Suc (length p))"
  by (induction "[c]" ps rule: join.induct) auto

definition strip_prefix :: "string \<Rightarrow> string \<Rightarrow> string option" where
  "strip_prefix p s = (if take (length p) s = p then Some (drop (length p) s) else None)"

lemma strip_prefix_append [simp]: "strip_prefix p (p @ s) = Some s"
  by (simp add: strip_prefix_def)

lemma strip_prefix_Some: "strip_prefix p s = Some r \<longleftrightarrow> s = p @ r"
  by (auto simp: strip_prefix_def) (metis append_take_drop_id)

subsection \<open>Numbers as text\<close>

fun dec :: "nat \<Rightarrow> string" where
  "dec n = (if n < 10 then [char_of (48 + n)] else dec (n div 10) @ [char_of (48 + n mod 10)])"

declare dec.simps [simp del]

definition hexdigit :: "nat \<Rightarrow> char" where
  "hexdigit d = (if d < 10 then char_of (48 + d) else char_of (87 + d))"

fun hex :: "nat \<Rightarrow> string" where
  "hex n = (if n < 16 then [hexdigit n] else hex (n div 16) @ [hexdigit (n mod 16)])"

declare hex.simps [simp del]

definition pad0 :: "nat \<Rightarrow> string \<Rightarrow> string" where
  "pad0 w s = replicate (w - length s) (CHR ''0'') @ s"

definition dec_value :: "string \<Rightarrow> nat" where
  "dec_value s = foldl (\<lambda>a c. 10 * a + (octet c - 48)) 0 s"

text \<open>\<open>str::parse\<close> for \<open>usize\<close>/\<open>u64\<close> and for \<open>i64\<close>: an optional sign, at least one digit, in range.\<close>

definition all_digits :: "string \<Rightarrow> bool" where
  "all_digits s \<longleftrightarrow> s \<noteq> [] \<and> list_all is_ascii_digit s"

definition parse_u64 :: "string \<Rightarrow> nat option" where
  "parse_u64 s =
     (let t = (case s of c # r \<Rightarrow> if c = CHR ''+'' then r else s | [] \<Rightarrow> s)
      in if all_digits t \<and> dec_value t < 2 ^ 64 then Some (dec_value t) else None)"

definition parse_i64 :: "string \<Rightarrow> int option" where
  "parse_i64 s =
     (case s of
        [] \<Rightarrow> None
      | c # r \<Rightarrow>
          if c = CHR ''-'' then
            (if all_digits r \<and> dec_value r \<le> 2 ^ 63 then Some (- int (dec_value r)) else None)
          else
            (let t = (if c = CHR ''+'' then r else s)
             in if all_digits t \<and> dec_value t < 2 ^ 63 then Some (int (dec_value t)) else None))"

lemma dec_value_append [str_simps]:
  "dec_value (s @ [c]) = 10 * dec_value s + (octet c - 48)"
  by (simp add: dec_value_def)

lemma dec_digits: "all_digits (dec n)"
proof (induction n rule: dec.induct)
  case (1 n)
  then show ?case
    by (subst dec.simps) (auto simp: all_digits_def is_ascii_digit_def)
qed

lemma dec_value_dec [simp]: "dec_value (dec n) = n"
proof (induction n rule: dec.induct)
  case (1 n)
  show ?case
  proof (cases "n < 10")
    case True
    then show ?thesis by (subst dec.simps) (simp add: dec_value_def)
  next
    case False
    with 1 show ?thesis by (subst dec.simps) (simp add: str_simps)
  qed
qed

lemma dec_inject [simp]: "dec m = dec n \<longleftrightarrow> m = n"
  by (metis dec_value_dec)

lemma dec_value_pad0 [simp]: "dec_value (pad0 w s) = dec_value s"
proof -
  have "foldl (\<lambda>a c. 10 * a + (octet c - 48)) 0 (replicate k (CHR ''0'')) = 0" for k
    by (induction k) auto
  then show ?thesis by (simp add: pad0_def dec_value_def)
qed

lemma all_digits_pad0: "all_digits s \<Longrightarrow> all_digits (pad0 w s)"
  by (auto simp: all_digits_def pad0_def list_all_iff is_ascii_digit_def)

lemma dec_nth_digit: "c \<in> set (dec n) \<Longrightarrow> is_ascii_digit c"
  using dec_digits [of n] by (auto simp: all_digits_def list_all_iff)

lemma length_dec_le: "n < 10 ^ k \<Longrightarrow> 0 < k \<Longrightarrow> length (dec n) \<le> k"
proof (induction n arbitrary: k rule: dec.induct)
  case (1 n)
  show ?case
  proof (cases "n < 10")
    case True
    then show ?thesis using 1 by (subst dec.simps) simp
  next
    case False
    then obtain j where j: "k = Suc j" "0 < j"
      using "1.prems" by (cases k; cases "k - 1") auto
    have "n div 10 < 10 ^ j" using "1.prems" j by (simp add: less_mult_imp_div_less mult.commute)
    then show ?thesis using 1 False j by (subst dec.simps) simp
  qed
qed

lemma length_pad0: "length (pad0 w s) = max w (length s)"
  by (simp add: pad0_def)

lemma parse_u64_dec: "n < 2 ^ 64 \<Longrightarrow> parse_u64 (dec n) = Some n"
proof -
  assume n: "n < 2 ^ 64"
  have "(case dec n of c # r \<Rightarrow> if c = CHR ''+'' then r else dec n | [] \<Rightarrow> dec n) = dec n"
    using dec_nth_digit [of "CHR ''+''" n] by (auto simp: is_ascii_digit_def split: list.splits)
  then show ?thesis using n by (simp add: parse_u64_def dec_digits)
qed

lemma parse_i64_digits:
  "all_digits s \<Longrightarrow> dec_value s < 2 ^ 63 \<Longrightarrow> parse_i64 s = Some (int (dec_value s))"
  by (auto simp: parse_i64_def all_digits_def is_ascii_digit_def Let_def split: list.splits)

text \<open>Fixed-width decimal fields: printing the value of \<open>w\<close> digits at width \<open>w\<close> gives them back.\<close>

lemma digit_char: "is_ascii_digit c \<Longrightarrow> char_of (48 + (octet c - 48)) = c"
  by (simp add: is_ascii_digit_def)

lemma digit_chars:
  "char_of (48::nat) = CHR ''0''" "char_of (49::nat) = CHR ''1''" "char_of (50::nat) = CHR ''2''"
  "char_of (51::nat) = CHR ''3''" "char_of (52::nat) = CHR ''4''" "char_of (53::nat) = CHR ''5''"
  "char_of (54::nat) = CHR ''6''" "char_of (55::nat) = CHR ''7''" "char_of (56::nat) = CHR ''8''"
  "char_of (57::nat) = CHR ''9''"
  by (simp_all add: char_of_def bit_0)

lemma pad0_snoc: "length s \<le> w \<Longrightarrow> pad0 (Suc w) (s @ [c]) = pad0 w s @ [c]"
  by (simp add: pad0_def)

lemma pad0_dec_value: "all_digits s \<Longrightarrow> pad0 (length s) (dec (dec_value s)) = s"
proof (induction s rule: rev_induct)
  case (snoc c t)
  have c: "is_ascii_digit c" using snoc.prems by (simp add: all_digits_def)
  then have d: "octet c - 48 < 10" by (auto simp: is_ascii_digit_def)
  show ?case
  proof (cases "t = []")
    case True
    with c d show ?thesis by (subst dec.simps) (simp add: dec_value_def pad0_def digit_char)
  next
    case False
    then have t: "all_digits t" using snoc.prems by (simp add: all_digits_def)
    then have IH: "pad0 (length t) (dec (dec_value t)) = t" by (rule snoc.IH)
    then have len: "length (dec (dec_value t)) \<le> length t"
      using length_pad0 [of "length t" "dec (dec_value t)"] by simp
    show ?thesis
    proof (cases "dec_value t = 0")
      case True
      then have "t = replicate (length t) (CHR ''0'')"
        using IH False replicate_append_same [of "length t - 1" "CHR ''0''"]
        by (cases "length t") (simp_all add: pad0_def dec.simps digit_chars)
      then have "pad0 (Suc (length t)) [c] = t @ [c]" by (simp add: pad0_def)
      then show ?thesis using True c d by (simp add: str_simps dec.simps [of "octet c - 48"] digit_char)
    next
      case False
      then have "dec (10 * dec_value t + (octet c - 48)) = dec (dec_value t) @ [c]"
        using c d by (subst dec.simps) (simp add: digit_char)
      then show ?thesis using len IH by (simp add: str_simps pad0_snoc)
    qed
  qed
qed (simp add: all_digits_def)

end
