(* ===== verification/Message.thy ===== *)
theory Message
  imports Prelude
begin

text \<open>
  The message model of \<open>ferrix-protocol\<close>: the length budgets (\<open>limits.rs\<close>), the parsed
  message with its tags, source and command (\<open>message.rs\<close>), and the escaping of tag values
  (\<open>tags.rs\<close>) with its round trip. The source borrows every field from the input buffer; the
  model copies it, which no function can observe.
\<close>

subsection \<open>Length budgets\<close>

record limits =
  max_tag_bytes :: nat
  max_body_bytes :: nat

definition IRCV3_TAG_BYTES :: nat where "IRCV3_TAG_BYTES = 8191"
definition RFC1459_BODY_BYTES :: nat where "RFC1459_BODY_BYTES = 512"

definition ircv3 :: limits where
  "ircv3 = \<lparr>max_tag_bytes = IRCV3_TAG_BYTES, max_body_bytes = RFC1459_BODY_BYTES\<rparr>"

definition rfc1459 :: limits where
  "rfc1459 = \<lparr>max_tag_bytes = 0, max_body_bytes = RFC1459_BODY_BYTES\<rparr>"

definition default_limits :: limits where
  "default_limits = ircv3"

subsection \<open>Messages\<close>

record tag =
  tkey :: string
  tvalue :: "string option"

record source =
  sname :: string
  suser :: "string option"
  shost :: "string option"

datatype command = Named string | Numeric nat

record message =
  mtags :: "tag list"
  msource :: "source option"
  mcommand :: command
  mparams :: "string list"

definition is_server :: "source \<Rightarrow> bool" where
  "is_server s \<longleftrightarrow> suser s = None \<and> shost s = None \<and> CHR ''.'' \<in> set (sname s)"

definition eq_name :: "command \<Rightarrow> string \<Rightarrow> bool" where
  "eq_name c name = (case c of Named n \<Rightarrow> eq_ignore_ascii_case n name | Numeric _ \<Rightarrow> False)"

definition as_name :: "command \<Rightarrow> string option" where
  "as_name c = (case c of Named n \<Rightarrow> Some n | Numeric _ \<Rightarrow> None)"

text \<open>
  \<open>Message::tag\<close>: \<open>None\<close> when the key is absent, \<open>Some None\<close> for a tag without a value.
\<close>

definition message_tag :: "message \<Rightarrow> string \<Rightarrow> string option option" where
  "message_tag m key = map_option tvalue (find (\<lambda>t. tkey t = key) (mtags m))"

subsection \<open>Tag value escaping\<close>

definition unescape_char :: "rchar \<Rightarrow> string" where
  "unescape_char c =
     (if c = '':'' then '';''
      else if c = ''s'' then [SP]
      else if c = [BS] then [BS]
      else if c = ''r'' then [CR]
      else if c = ''n'' then [LF]
      else c)"

fun unescape_chars :: "rchar list \<Rightarrow> string" where
  "unescape_chars [] = []"
| "unescape_chars (c # cs) =
     (if c \<noteq> [BS] then c @ unescape_chars cs
      else case cs of [] \<Rightarrow> [] | d # ds \<Rightarrow> unescape_char d @ unescape_chars ds)"

definition unescape_value :: "string \<Rightarrow> string" where
  "unescape_value v = (if BS \<notin> set v then v else unescape_chars (chars v))"

definition needs_escape :: "char \<Rightarrow> bool" where
  "needs_escape b \<longleftrightarrow> b \<in> {CHR '';'', SP, BS, CR, LF}"

definition escape_char :: "rchar \<Rightarrow> string" where
  "escape_char c =
     (if c = '';'' then [BS, CHR '':'']
      else if c = [SP] then [BS, CHR ''s'']
      else if c = [BS] then [BS, BS]
      else if c = [CR] then [BS, CHR ''r'']
      else if c = [LF] then [BS, CHR ''n'']
      else c)"

definition escape_value :: "string \<Rightarrow> string" where
  "escape_value v =
     (if \<not> list_ex needs_escape v then v else concat (map escape_char (chars v)))"

text \<open>The same two functions octet by octet: only ASCII characters are ever touched.\<close>

fun unescape_octets :: "string \<Rightarrow> string" where
  "unescape_octets [] = []"
| "unescape_octets (c # cs) =
     (if c \<noteq> BS then c # unescape_octets cs
      else case cs of [] \<Rightarrow> [] | d # ds \<Rightarrow> unescape_char [d] @ unescape_octets ds)"

definition escape_octets :: "string \<Rightarrow> string" where
  "escape_octets s = concat (map (\<lambda>b. escape_char [b]) s)"

lemma unescape_octets_free: "BS \<notin> set p \<Longrightarrow> unescape_octets (p @ q) = p @ unescape_octets q"
  by (induction p) auto

lemma unescape_char_not_ascii: "\<not> is_ascii b \<Longrightarrow> unescape_char (b # c) = b # c"
  by (auto simp: unescape_char_def ctl_defs is_ascii_def)

lemma escape_char_not_ascii: "\<not> is_ascii b \<Longrightarrow> escape_char (b # c) = b # c"
  by (auto simp: escape_char_def ctl_defs is_ascii_def)

lemma takeWhile_cont_no_BS: "BS \<notin> set (takeWhile is_cont s)"
  using takeWhile_cont_not_ascii [of BS s] by (auto simp: is_ascii_def BS_def)

lemma unescape_octets_cont:
  "unescape_octets s = takeWhile is_cont s @ unescape_octets (dropWhile is_cont s)"
  by (metis takeWhile_dropWhile_id unescape_octets_free takeWhile_cont_no_BS)

lemma unescape_chars_octets: "unescape_chars (chars s) = unescape_octets s"
proof (induction "length s" arbitrary: s rule: less_induct)
  case less
  have BS_ascii: "is_ascii BS" by (simp add: is_ascii_def BS_def)
  show ?case
  proof (cases s)
    case (Cons b t)
    have drop: "unescape_chars (chars (dropWhile is_cont u)) = unescape_octets (dropWhile is_cont u)"
      if "length u < length s" for u
      using that length_dropWhile_le [of is_cont u] by (intro less) simp
    consider (esc) "b = BS" | (plain) "b \<noteq> BS" "is_ascii b" | (multi) "\<not> is_ascii b" by blast
    then show ?thesis
    proof cases
      case esc
      show ?thesis
      proof (cases t)
        case Nil
        with esc Cons BS_ascii show ?thesis by simp
      next
        case t: (Cons d u)
        have "unescape_chars (chars u) = unescape_octets u" using Cons t by (intro less) simp
        then show ?thesis using Cons t esc BS_ascii drop [of u] unescape_octets_cont [of u]
          by (cases "is_ascii d") (simp_all add: unescape_char_not_ascii)
      qed
    next
      case plain
      then show ?thesis using Cons less [of t] by simp
    next
      case multi
      then have "b \<noteq> BS" using BS_ascii by blast
      then show ?thesis using Cons multi drop [of t] unescape_octets_cont [of t]
        by (simp add: BS_def)
    qed
  qed simp
qed

lemma unescape_value_octets: "unescape_value v = unescape_octets v"
  using unescape_octets_free [of v "[]"] by (auto simp: unescape_value_def unescape_chars_octets)

lemma escape_octets_id: "\<not> list_ex needs_escape v \<Longrightarrow> escape_octets v = v"
  by (induction v) (auto simp: escape_octets_def escape_char_def needs_escape_def)

lemma escape_value_octets: "escape_value v = escape_octets v"
proof -
  have "concat (map escape_char (chars v)) = concat (map (\<lambda>b. escape_char [b]) v)"
    by (rule concat_map_chars) (simp_all add: escape_char_not_ascii)
  then show ?thesis
    using escape_octets_id [of v] by (auto simp: escape_value_def escape_octets_def)
qed

lemma unescape_escape_octet:
  "unescape_octets (escape_char [b] @ s) = b # unescape_octets s"
  by (simp add: escape_char_def unescape_char_def ctl_defs)

lemma unescape_escape_octets [simp]: "unescape_octets (escape_octets s) = s"
  by (induction s) (simp_all add: escape_octets_def unescape_escape_octet)

text \<open>What the wire form of a value can hold, and that escaping again never grows it.\<close>

lemma set_escape_char: "set (escape_char [b]) \<subseteq> {b, BS, CHR '':'', CHR ''s'', CHR ''r'', CHR ''n''}"
  by (simp add: escape_char_def)

lemma escape_char_clean: "needs_escape c \<Longrightarrow> c \<noteq> BS \<Longrightarrow> c \<notin> set (escape_char [b])"
  by (auto simp: needs_escape_def escape_char_def ctl_defs)

lemma set_escape_octets:
  "set (escape_octets s) \<subseteq> set s \<union> {BS, CHR '':'', CHR ''s'', CHR ''r'', CHR ''n''}"
  using set_escape_char by (fastforce simp: escape_octets_def)

lemma escape_octets_clean: "needs_escape c \<Longrightarrow> c \<noteq> BS \<Longrightarrow> c \<notin> set (escape_octets s)"
  by (simp add: escape_octets_def escape_char_clean)

lemma set_unescape_char: "set (unescape_char [d]) \<subseteq> {d, CHR '';'', SP, BS, CR, LF}"
  by (simp add: unescape_char_def)

lemma set_unescape_octets:
  "set (unescape_octets s) \<subseteq> set s \<union> {CHR '';'', SP, BS, CR, LF}"
proof (induction s rule: unescape_octets.induct)
  case (2 c cs)
  show ?case
  proof (cases "c = BS")
    case False
    with 2(1) show ?thesis by auto
  next
    case True
    with 2(2) set_unescape_char show ?thesis by (cases cs) fastforce+
  qed
qed simp

lemma length_escape_char_le: "length (escape_char [b]) \<le> 2"
  by (simp add: escape_char_def)

lemma escape_unescape_length:
  "(\<And>c. c \<in> set s \<Longrightarrow> needs_escape c \<Longrightarrow> c = BS) \<Longrightarrow>
   length (escape_octets (unescape_octets s)) \<le> length s"
proof (induction s rule: unescape_octets.induct)
  case (2 c cs)
  show ?case
  proof (cases "c = BS")
    case False
    then have "\<not> needs_escape c" using 2(3) by auto
    then have "escape_char [c] = [c]" by (simp add: needs_escape_def escape_char_def)
    then show ?thesis using 2 False by (simp add: escape_octets_def)
  next
    case True
    show ?thesis
    proof (cases cs)
      case Nil
      with True show ?thesis by (simp add: escape_octets_def)
    next
      case (Cons d ds)
      have one: "length (unescape_char [d]) = 1" by (simp add: unescape_char_def)
      then obtain e where e: "unescape_char [d] = [e]" by (auto simp: length_Suc_conv)
      have "length (escape_octets (unescape_octets ds)) \<le> length ds"
        using 2 True Cons by auto
      then show ?thesis
        using True Cons e length_escape_char_le [of e] by (simp add: escape_octets_def)
    qed
  qed
qed (simp add: escape_octets_def)

text \<open>Both directions keep a string well formed.\<close>

lemma unescape_char_ascii: "is_ascii a \<Longrightarrow> list_all is_ascii (unescape_char [a])"
  by (simp add: unescape_char_def ctl_defs is_ascii_def)

lemma escape_char_ascii: "is_ascii a \<Longrightarrow> list_all is_ascii (escape_char [a])"
  by (simp add: escape_char_def ctl_defs is_ascii_def)

lemma utf8_valid_ascii_append [simp]:
  "list_all is_ascii p \<Longrightarrow> utf8_valid (p @ s) = utf8_valid s"
  by (induction p) auto

lemma utf8_valid_unescape: "utf8_valid s \<Longrightarrow> utf8_valid (unescape_octets s)"
proof -
  assume "utf8_valid s"
  then have "utf8_valid (unescape_octets s) \<and> utf8_valid (unescape_octets (BS # s))"
  proof (induction s rule: utf8_induct)
    case (ascii a t)
    then show ?case by (cases "a = BS") (simp_all add: unescape_char_ascii)
  next
    case (multi u t)
    then obtain b v where u: "u = b # v" by (cases u) (auto simp: utf8_unit_def)
    have "BS \<notin> set u" "BS \<notin> set v" "\<not> is_ascii b"
      using multi(1) u by (auto simp: utf8_unit_def list_all_iff is_ascii_def BS_def)
    then have "unescape_octets (u @ t) = u @ unescape_octets t"
      and "unescape_octets (BS # u @ t) = u @ unescape_octets t"
      using u by (simp_all add: unescape_octets_free unescape_char_not_ascii)
    with multi show ?case by (simp add: utf8_unit_def)
  qed simp
  then show ?thesis by simp
qed

lemma utf8_valid_escape: "utf8_valid s \<Longrightarrow> utf8_valid (escape_octets s)"
proof (induction s rule: utf8_induct)
  case (ascii a t)
  then show ?case by (simp add: escape_octets_def escape_char_ascii)
next
  case (multi u t)
  have "concat (map (\<lambda>b. escape_char [b]) v) = v" if "list_all (\<lambda>c. \<not> is_ascii c) v" for v
    using that by (induction v) (simp_all add: escape_char_not_ascii)
  with multi show ?case by (simp add: escape_octets_def utf8_unit_def)
qed (simp add: escape_octets_def)

end
