(* ===== verification/Parser.thy ===== *)
theory Parser
  imports Message
begin

text \<open>
  The message parser of \<open>ferrix-protocol/src/parser.rs\<close>: one definition per function, and
  \<open>parse\<close> as the sequence of its sections (tags, body budget, source, command, parameters),
  each returning its error as \<open>Inl\<close>. Every read of \<open>buf[0]\<close> in the source follows a test that
  \<open>buf\<close> is not empty, and \<open>first_is\<close> stands for both.
\<close>

datatype parse_error =
    Empty
  | IllegalControlChar
  | TagsTooLong nat
  | BodyTooLong nat
  | MissingCommand
  | InvalidCommand
  | EmptyTagKey
  | InvalidTagKey
  | EmptySource
  | InvalidUtf8 string

definition first_is :: "char \<Rightarrow> string \<Rightarrow> bool" where
  "first_is c buf = (case buf of x # _ \<Rightarrow> x = c | [] \<Rightarrow> False)"

fun strip_rev :: "string \<Rightarrow> string" where
  "strip_rev [] = []"
| "strip_rev (l # rest) = (if l = CR \<or> l = LF then strip_rev rest else l # rest)"

definition strip_line_terminators :: "string \<Rightarrow> string" where
  "strip_line_terminators buf = rev (strip_rev (rev buf))"

fun skip_spaces :: "string \<Rightarrow> string" where
  "skip_spaces [] = []"
| "skip_spaces (c # rest) = (if c = SP then skip_spaces rest else c # rest)"

definition str_field :: "string \<Rightarrow> string \<Rightarrow> parse_error + string" where
  "str_field bytes field = (if utf8_valid bytes then Inr bytes else Inl (InvalidUtf8 field))"

definition parse_command :: "string \<Rightarrow> parse_error + command" where
  "parse_command bytes =
     (if bytes = [] then Inl MissingCommand
      else if length bytes = 3 \<and> list_all is_ascii_digit bytes then
        Inr (Numeric ((octet (bytes ! 0) - 48) * 100 + (octet (bytes ! 1) - 48) * 10
                      + (octet (bytes ! 2) - 48)))
      else if list_all is_ascii_alphabetic bytes then
        (if utf8_valid bytes then Inr (Named bytes) else Inl InvalidCommand)
      else Inl InvalidCommand)"

text \<open>\<open>u.map(|u| str_field(u, \<dots>)).transpose()?\<close>\<close>

definition opt_field :: "string option \<Rightarrow> string \<Rightarrow> parse_error + string option" where
  "opt_field x field =
     (case x of None \<Rightarrow> Inr None
      | Some b \<Rightarrow> (case str_field b field of Inl e \<Rightarrow> Inl e | Inr s \<Rightarrow> Inr (Some s)))"

definition split_first :: "char \<Rightarrow> string \<Rightarrow> string \<times> string option" where
  "split_first c bytes =
     (case memchr c bytes of
        Some i \<Rightarrow> (take i bytes, Some (drop (i + 1) bytes))
      | None \<Rightarrow> (bytes, None))"

definition parse_source :: "string \<Rightarrow> parse_error + source" where
  "parse_source bytes =
     (let (name_user, host) = split_first (CHR ''@'') bytes;
          (name, user) = split_first (CHR ''!'') name_user
      in if name = [] then Inl EmptySource
         else case str_field name ''source name'' of
           Inl e \<Rightarrow> Inl e
         | Inr n \<Rightarrow> (case opt_field user ''source user'' of
             Inl e \<Rightarrow> Inl e
           | Inr u \<Rightarrow> (case opt_field host ''source host'' of
               Inl e \<Rightarrow> Inl e
             | Inr h \<Rightarrow> Inr \<lparr>sname = n, suser = u, shost = h\<rparr>)))"

definition tag_key_char :: "char \<Rightarrow> bool" where
  "tag_key_char c \<longleftrightarrow> is_ascii_alphanumeric c \<or> c \<in> {CHR ''-'', CHR ''/'', CHR ''.''}"

definition parse_tag_key :: "string \<Rightarrow> parse_error + string" where
  "parse_tag_key bytes =
     (case bytes of
        [] \<Rightarrow> Inl EmptyTagKey
      | c # cs \<Rightarrow>
          if (tag_key_char c \<or> c = CHR ''+'') \<and> list_all tag_key_char cs
          then str_field bytes ''tag key'' else Inl InvalidTagKey)"

definition parse_tag :: "string \<Rightarrow> parse_error + tag" where
  "parse_tag raw =
     (let (key_bytes, value_bytes) = split_first (CHR ''='') raw
      in case parse_tag_key key_bytes of
           Inl e \<Rightarrow> Inl e
         | Inr key \<Rightarrow>
             (case value_bytes of
                None \<Rightarrow> Inr \<lparr>tkey = key, tvalue = None\<rparr>
              | Some v \<Rightarrow>
                  (case str_field v ''tag value'' of
                     Inl e \<Rightarrow> Inl e
                   | Inr s \<Rightarrow> Inr \<lparr>tkey = key, tvalue = Some (unescape_value s)\<rparr>)))"

fun parse_tag_list :: "string list \<Rightarrow> parse_error + tag list" where
  "parse_tag_list [] = Inr []"
| "parse_tag_list (raw # rest) =
     (if raw = [] then parse_tag_list rest
      else case parse_tag raw of
        Inl e \<Rightarrow> Inl e
      | Inr t \<Rightarrow> (case parse_tag_list rest of Inl e \<Rightarrow> Inl e | Inr ts \<Rightarrow> Inr (t # ts)))"

definition parse_tags :: "string \<Rightarrow> parse_error + tag list" where
  "parse_tags section =
     (if section = [] then Inr [] else parse_tag_list (split_on (CHR '';'') section))"

subsection \<open>The sections of a line\<close>

definition tags_section :: "limits \<Rightarrow> string \<Rightarrow> parse_error + tag list \<times> string" where
  "tags_section limits buf =
     (if first_is (CHR ''@'') buf then
        (case memchr SP buf of
           None \<Rightarrow> Inl MissingCommand
         | Some sp \<Rightarrow>
             (let section = take (sp - 1) (drop 1 buf)
              in if length section > max_tag_bytes limits
                 then Inl (TagsTooLong (max_tag_bytes limits))
                 else case parse_tags section of
                   Inl e \<Rightarrow> Inl e
                 | Inr tags \<Rightarrow>
                     (let buf' = skip_spaces (drop sp buf)
                      in if buf' = [] then Inl MissingCommand else Inr (tags, buf'))))
      else Inr ([], buf))"

definition source_section :: "string \<Rightarrow> parse_error + source option \<times> string" where
  "source_section buf =
     (if first_is (CHR '':'') buf then
        (case memchr SP buf of
           None \<Rightarrow> Inl MissingCommand
         | Some sp \<Rightarrow>
             (let raw = take (sp - 1) (drop 1 buf)
              in if raw = [] then Inl EmptySource
                 else case parse_source raw of
                   Inl e \<Rightarrow> Inl e
                 | Inr src \<Rightarrow>
                     (let buf' = skip_spaces (drop sp buf)
                      in if buf' = [] then Inl MissingCommand else Inr (Some src, buf'))))
      else Inr (None, buf))"

definition word_end :: "string \<Rightarrow> nat" where
  "word_end buf = (case memchr SP buf of Some i \<Rightarrow> i | None \<Rightarrow> length buf)"

lemma length_skip_spaces: "length (skip_spaces s) \<le> length s"
  by (induction s) auto

lemma skip_spaces_first: "skip_spaces s = c # r \<Longrightarrow> c \<noteq> SP"
  by (induction s) (auto split: if_splits)

lemma word_end_pos: "c \<noteq> SP \<Longrightarrow> 0 < word_end (c # r)"
proof -
  assume "c \<noteq> SP"
  then have "takeWhile (\<lambda>x. x \<noteq> SP) (c # r) \<noteq> []" by simp
  then show ?thesis by (auto simp: word_end_def memchr_def Let_def split: option.splits if_splits)
qed

function (sequential) parse_params :: "string \<Rightarrow> parse_error + string list" where
  "parse_params buf =
     (case skip_spaces buf of
        [] \<Rightarrow> Inr []
      | first # rest \<Rightarrow>
          if first = CHR '':'' then
            (case str_field rest ''trailing'' of Inl e \<Rightarrow> Inl e | Inr t \<Rightarrow> Inr [t])
          else
            (let end = word_end (first # rest)
             in case str_field (take end (first # rest)) ''param'' of
                  Inl e \<Rightarrow> Inl e
                | Inr p \<Rightarrow>
                    (case parse_params (drop end (first # rest)) of
                       Inl e \<Rightarrow> Inl e
                     | Inr ps \<Rightarrow> Inr (p # ps))))"
  by pat_completeness auto
termination
proof (relation "measure length", goal_cases)
  case (2 buf first rest)
  then show ?case
    using word_end_pos [of first rest] skip_spaces_first [of buf first rest]
      length_skip_spaces [of buf] by auto
qed simp

declare parse_params.simps [simp del]

definition parse :: "string \<Rightarrow> limits \<Rightarrow> parse_error + message" where
  "parse input limits =
     (let buf = strip_line_terminators input
      in if buf = [] then Inl Empty
         else if NUL \<in> set buf \<or> CR \<in> set buf \<or> LF \<in> set buf then Inl IllegalControlChar
         else case tags_section limits buf of
           Inl e \<Rightarrow> Inl e
         | Inr (tags, buf) \<Rightarrow>
             if length buf > max_body_bytes limits then Inl (BodyTooLong (max_body_bytes limits))
             else case source_section buf of
               Inl e \<Rightarrow> Inl e
             | Inr (src, buf) \<Rightarrow>
                 (let cmd_end = word_end buf
                  in case parse_command (take cmd_end buf) of
                       Inl e \<Rightarrow> Inl e
                     | Inr command \<Rightarrow>
                         (case parse_params (drop cmd_end buf) of
                            Inl e \<Rightarrow> Inl e
                          | Inr params \<Rightarrow>
                              Inr \<lparr>mtags = tags, msource = src, mcommand = command,
                                   mparams = params\<rparr>)))"

definition message_parse :: "string \<Rightarrow> parse_error + message" where
  "message_parse input = parse input default_limits"

end
