(* ===== verification/Encode.thy ===== *)
theory Encode
  imports Parser
begin

text \<open>
  Rendering a message to the wire (\<open>ferrix-protocol/src/encode.rs\<close>), what every parsed
  message satisfies, and the round trip: rendering a parsed message and parsing the result
  under the same budgets gives the message back.
\<close>

definition render_tag :: "tag \<Rightarrow> string" where
  "render_tag t =
     tkey t @ (case tvalue t of None \<Rightarrow> [] | Some v \<Rightarrow> CHR ''='' # escape_value v)"

definition render_tags :: "tag list \<Rightarrow> string" where
  "render_tags ts =
     (if ts = [] then [] else CHR ''@'' # join '';'' (map render_tag ts) @ [SP])"

definition source_text :: "source \<Rightarrow> string" where
  "source_text s =
     sname s @ (case suser s of None \<Rightarrow> [] | Some u \<Rightarrow> CHR ''!'' # u)
     @ (case shost s of None \<Rightarrow> [] | Some h \<Rightarrow> CHR ''@'' # h)"

definition render_source :: "source option \<Rightarrow> string" where
  "render_source so = (case so of None \<Rightarrow> [] | Some s \<Rightarrow> CHR '':'' # source_text s @ [SP])"

definition render_command :: "command \<Rightarrow> string" where
  "render_command c = (case c of Named name \<Rightarrow> name | Numeric n \<Rightarrow> pad0 3 (dec n))"

definition needs_colon :: "string \<Rightarrow> bool" where
  "needs_colon p \<longleftrightarrow> p = [] \<or> SP \<in> set p \<or> first_is (CHR '':'') p"

fun render_params :: "string list \<Rightarrow> string" where
  "render_params [] = []"
| "render_params [p] = SP # (if needs_colon p then CHR '':'' # p else p)"
| "render_params (p # q # ps) = SP # p @ render_params (q # ps)"

definition render_body :: "message \<Rightarrow> string" where
  "render_body m =
     render_source (msource m) @ render_command (mcommand m) @ render_params (mparams m)"

definition render :: "message \<Rightarrow> string" where
  "render m = render_tags (mtags m) @ render_body m @ [CR, LF]"

subsection \<open>Well-formed messages\<close>

definition ctl_free :: "string \<Rightarrow> bool" where
  "ctl_free s \<longleftrightarrow> NUL \<notin> set s \<and> CR \<notin> set s \<and> LF \<notin> set s"

definition wf_tag :: "tag \<Rightarrow> bool" where
  "wf_tag t \<longleftrightarrow> parse_tag_key (tkey t) = Inr (tkey t)
     \<and> (\<forall>v. tvalue t = Some v \<longrightarrow> utf8_valid v \<and> NUL \<notin> set v)"

definition wf_field :: "char set \<Rightarrow> string \<Rightarrow> bool" where
  "wf_field bad s \<longleftrightarrow> utf8_valid s \<and> ctl_free s \<and> set s \<inter> bad = {}"

definition wf_source :: "source \<Rightarrow> bool" where
  "wf_source s \<longleftrightarrow> sname s \<noteq> [] \<and> wf_field {SP, CHR ''@'', CHR ''!''} (sname s)
     \<and> (\<forall>u. suser s = Some u \<longrightarrow> wf_field {SP, CHR ''@''} u)
     \<and> (\<forall>h. shost s = Some h \<longrightarrow> wf_field {SP} h)"

definition wf_command :: "command \<Rightarrow> bool" where
  "wf_command c = (case c of Named n \<Rightarrow> n \<noteq> [] \<and> list_all is_ascii_alphabetic n | Numeric n \<Rightarrow> n < 1000)"

definition wf_middle :: "string \<Rightarrow> bool" where
  "wf_middle p \<longleftrightarrow> wf_field {} p \<and> \<not> needs_colon p"

definition wf_params :: "string list \<Rightarrow> bool" where
  "wf_params ps \<longleftrightarrow> list_all wf_middle (butlast ps) \<and> list_all (wf_field {}) ps"

definition wf_message :: "limits \<Rightarrow> message \<Rightarrow> bool" where
  "wf_message l m \<longleftrightarrow>
     list_all wf_tag (mtags m) \<and> (\<forall>s. msource m = Some s \<longrightarrow> wf_source s)
     \<and> wf_command (mcommand m) \<and> wf_params (mparams m)
     \<and> length (join '';'' (map render_tag (mtags m))) \<le> max_tag_bytes l
     \<and> length (render_body m) \<le> max_body_bytes l"

subsection \<open>Small facts on the parser's helpers\<close>

lemma first_is_Nil [simp]: "\<not> first_is c []"
  by (simp add: first_is_def)

lemma first_is_Cons [simp]: "first_is c (x # xs) \<longleftrightarrow> x = c"
  by (simp add: first_is_def)

lemma ctl_free_append [simp]: "ctl_free (a @ b) \<longleftrightarrow> ctl_free a \<and> ctl_free b"
  by (auto simp: ctl_free_def)

lemma ctl_free_Nil [simp]: "ctl_free []"
  by (simp add: ctl_free_def)

lemma ctl_free_subset: "ctl_free s \<Longrightarrow> set t \<subseteq> set s \<Longrightarrow> ctl_free t"
  by (auto simp: ctl_free_def)

lemma str_field_Inr [simp]: "str_field b f = Inr s \<longleftrightarrow> s = b \<and> utf8_valid b"
  by (auto simp: str_field_def)

lemma split_first_free: "c \<notin> set s \<Longrightarrow> split_first c s = (s, None)"
  by (simp add: split_first_def str_simps)

lemma split_first_append: "c \<notin> set p \<Longrightarrow> split_first c (p @ c # q) = (p, Some q)"
  by (simp add: split_first_def str_simps)

lemma split_firstD:
  assumes "split_first c s = (a, b)"
  shows "c \<notin> set a" "s = a @ (case b of None \<Rightarrow> [] | Some r \<Rightarrow> c # r)"
proof -
  show "c \<notin> set a"
    using assms memchr_SomeD(2) [of c s] memchr_None [of c s]
    by (auto simp: split_first_def simp del: memchr_None split: option.splits)
  show "s = a @ (case b of None \<Rightarrow> [] | Some r \<Rightarrow> c # r)"
    using assms memchr_SomeD(1) [of c s] by (auto simp: split_first_def split: option.splits)
qed

lemma opt_field_Inr: "opt_field x f = Inr y \<longleftrightarrow> y = x \<and> (\<forall>b. x = Some b \<longrightarrow> utf8_valid b)"
  by (cases x) (auto simp: opt_field_def str_field_def)

lemma skip_spaces_id: "\<not> first_is SP s \<Longrightarrow> skip_spaces s = s"
  by (cases s) (auto simp: first_is_def)

lemma set_skip_spaces: "set (skip_spaces s) \<subseteq> set s"
  by (induction s) auto

lemma strip_rev_set: "set (strip_rev s) \<subseteq> set s"
  by (induction s) auto

lemma strip_line_terminators_crlf:
  assumes "ctl_free s" "s \<noteq> []"
  shows "strip_line_terminators (s @ [CR, LF]) = s"
proof -
  obtain x xs where x: "rev s = x # xs" using assms(2) by (cases "rev s") auto
  then have "x \<in> set s" by (metis list.set_intros(1) set_rev)
  then have "x \<noteq> CR" "x \<noteq> LF" using assms(1) by (auto simp: ctl_free_def)
  then have "strip_rev (rev s) = rev s" using x by simp
  then show ?thesis by (simp add: strip_line_terminators_def)
qed

lemma word_end_append: "SP \<notin> set w \<Longrightarrow> word_end (w @ SP # r) = length w"
  by (simp add: word_end_def str_simps)

lemma word_end_free: "SP \<notin> set w \<Longrightarrow> word_end w = length w"
  by (simp add: word_end_def str_simps)

lemma word_endD:
  "SP \<notin> set (take (word_end s) s)" "drop (word_end s) s = [] \<or> first_is SP (drop (word_end s) s)"
  "word_end s \<le> length s"
proof -
  have c: "word_end s = length s \<and> SP \<notin> set s \<or> memchr SP s = Some (word_end s)"
    by (cases "memchr SP s") (auto simp: word_end_def simp flip: memchr_None)
  then show "SP \<notin> set (take (word_end s) s)" using memchr_SomeD(2) by fastforce
  show "word_end s \<le> length s" using c memchr_SomeD(3) by fastforce
  show "drop (word_end s) s = [] \<or> first_is SP (drop (word_end s) s)"
  proof (cases "memchr SP s = Some (word_end s)")
    case True
    have "drop (word_end s) s = SP # drop (Suc (word_end s)) s"
      using memchr_SomeD(1,3) [OF True]
      by (metis Cons_nth_drop_Suc append_eq_conv_conj length_take min.absorb4 nth_append_length)
    then show ?thesis by (simp add: first_is_def)
  qed (use c in auto)
qed

lemma length_join: "length (join [c] ps) = sum_list (map length ps) + (length ps - 1)"
  by (induction "[c]" ps rule: join.induct) auto

subsection \<open>Parsing gives a well-formed message\<close>

lemma parse_tag_key_Inr:
  assumes "parse_tag_key b = Inr k"
  shows "k = b" "b \<noteq> []" "\<And>c. c \<in> set b \<Longrightarrow> tag_key_char c \<or> c = CHR ''+''"
  using assms by (auto simp: parse_tag_key_def list_all_iff split: list.splits if_splits)

lemma tag_key_char_plain:
  "tag_key_char c \<or> c = CHR ''+'' \<Longrightarrow> c \<notin> {NUL, CR, LF, SP, CHR '';'', CHR ''=''}"
  by (auto simp: tag_key_char_def ascii_class_defs ctl_defs)

lemma parse_tag_wf:
  assumes "parse_tag raw = Inr t" "NUL \<notin> set raw" "SP \<notin> set raw" "CR \<notin> set raw"
    "LF \<notin> set raw" "CHR '';'' \<notin> set raw"
  shows "wf_tag t" "length (render_tag t) \<le> length raw"
proof -
  obtain kb vb where sp: "split_first (CHR ''='') raw = (kb, vb)" by fastforce
  note raw = split_firstD(2) [OF sp]
  have key: "parse_tag_key kb = Inr (tkey t)" and
    val: "(vb = None \<and> tvalue t = None) \<or>
      (\<exists>v. vb = Some v \<and> utf8_valid v \<and> tvalue t = Some (unescape_octets v))"
    using assms(1) sp
    by (auto simp: parse_tag_def unescape_value_octets split: sum.splits option.splits)
  have k: "kb = tkey t" using parse_tag_key_Inr(1) [OF key] by simp
  have clean: "c = BS" if "vb = Some v" "c \<in> set v" "needs_escape c" for v c
    using that assms raw by (auto simp: needs_escape_def)
  have "NUL \<notin> set (unescape_octets v)" if "vb = Some v" for v
    using that assms(2) raw set_unescape_octets [of v] by (auto simp: ctl_defs)
  then show "wf_tag t" using key val k by (auto simp: wf_tag_def utf8_valid_unescape)
  show "length (render_tag t) \<le> length raw"
    using val raw k clean escape_unescape_length
    by (fastforce simp: render_tag_def escape_value_octets)
qed

lemma parse_tag_list_wf:
  "parse_tag_list ps = Inr ts \<Longrightarrow>
   (\<And>p. p \<in> set ps \<Longrightarrow> set p \<inter> {NUL, SP, CR, LF, CHR '';''} = {}) \<Longrightarrow>
   list_all wf_tag ts \<and> length ts \<le> length ps
   \<and> sum_list (map (length \<circ> render_tag) ts) \<le> sum_list (map length ps)"
proof (induction ps arbitrary: ts rule: parse_tag_list.induct)
  case (2 raw rest)
  show ?case
  proof (cases "raw = []")
    case False
    then obtain t us where t: "parse_tag raw = Inr t" "parse_tag_list rest = Inr us" "ts = t # us"
      using "2.prems" by (auto split: sum.splits)
    have "set raw \<inter> {NUL, SP, CR, LF, CHR '';''} = {}" by (rule "2.prems"(2)) simp
    then have "wf_tag t" "length (render_tag t) \<le> length raw"
      using parse_tag_wf [OF t(1)] by auto
    then show ?thesis using 2(2) [OF False t(1) t(2)] "2.prems"(2) t(3) by auto
  qed (use 2 in auto)
qed simp

lemma parse_tags_wf:
  assumes "parse_tags sec = Inr ts" "ctl_free sec" "SP \<notin> set sec"
  shows "list_all wf_tag ts" "length (join '';'' (map render_tag ts)) \<le> length sec"
proof -
  have "list_all wf_tag ts \<and> length (join '';'' (map render_tag ts)) \<le> length sec"
  proof (cases "sec = []")
    case False
    have pieces: "set p \<inter> {NUL, SP, CR, LF, CHR '';''} = {}" if "p \<in> set (split_on (CHR '';'') sec)" for p
      using split_on_pieces [OF that] assms(2,3) by (auto simp: ctl_free_def)
    have "list_all wf_tag ts \<and> length ts \<le> length (split_on (CHR '';'') sec)
      \<and> sum_list (map (length \<circ> render_tag) ts) \<le> sum_list (map length (split_on (CHR '';'') sec))"
      using assms(1) False by (intro parse_tag_list_wf pieces) (simp_all add: parse_tags_def)
    moreover have "length sec = sum_list (map length (split_on (CHR '';'') sec))
        + (length (split_on (CHR '';'') sec) - 1)"
      using length_join [of "CHR '';''" "split_on (CHR '';'') sec"] by simp
    ultimately show ?thesis
      using add_le_mono diff_le_mono [of "length ts" "length (split_on (CHR '';'') sec)" 1]
      by (simp add: length_join)
  qed (use assms in \<open>simp add: parse_tags_def\<close>)
  then show "list_all wf_tag ts" "length (join '';'' (map render_tag ts)) \<le> length sec" by auto
qed

lemma parse_source_wf:
  assumes "parse_source raw = Inr s" "ctl_free raw" "SP \<notin> set raw"
  shows "wf_source s" "source_text s = raw"
proof -
  obtain nu h where h: "split_first (CHR ''@'') raw = (nu, h)" by fastforce
  obtain n u where u: "split_first (CHR ''!'') nu = (n, u)" by fastforce
  have s: "s = \<lparr>sname = n, suser = u, shost = h\<rparr>" "n \<noteq> []" "utf8_valid n"
    "\<And>b. u = Some b \<Longrightarrow> utf8_valid b" "\<And>b. h = Some b \<Longrightarrow> utf8_valid b"
    using assms(1) h u by (auto simp: parse_source_def opt_field_Inr split: if_splits sum.splits)
  note hh = split_firstD [OF h] and uu = split_firstD [OF u]
  show "source_text s = raw" using s(1) hh(2) uu(2) by (simp add: source_text_def)
  have "set n \<subseteq> set nu" "\<And>b. u = Some b \<Longrightarrow> set b \<subseteq> set nu" "set nu \<subseteq> set raw"
    "\<And>b. h = Some b \<Longrightarrow> set b \<subseteq> set raw"
    using hh(2) uu(2) by auto
  then show "wf_source s" using s hh(1) uu(1) assms(2,3)
    by (fastforce simp: wf_source_def wf_field_def ctl_free_def)
qed

lemma length3: "length b = 3 \<Longrightarrow> b = [b ! 0, b ! 1, b ! 2]"
  by (auto simp: numeral_3_eq_3 length_Suc_conv)

lemma parse_command_numeric:
  assumes "length b = 3" "list_all is_ascii_digit b"
  shows "parse_command b = Inr (Numeric (dec_value b))"
proof -
  have "dec_value b = dec_value [b ! 0, b ! 1, b ! 2]" using length3 [OF assms(1)] by simp
  then have "(octet (b ! 0) - 48) * 100 + (octet (b ! 1) - 48) * 10 + (octet (b ! 2) - 48) = dec_value b"
    by (simp add: dec_value_def algebra_simps)
  moreover have "b \<noteq> []" using assms(1) by auto
  ultimately show ?thesis using assms by (simp add: parse_command_def)
qed

lemma dec_value_bound: "list_all is_ascii_digit s \<Longrightarrow> dec_value s < 10 ^ length s"
proof (induction s rule: rev_induct)
  case (snoc c t)
  then have "octet c - 48 < 10" by (auto simp: is_ascii_digit_def)
  with snoc show ?case by (simp add: str_simps)
qed (simp add: dec_value_def)

lemma parse_command_Inr:
  assumes "parse_command b = Inr c"
  shows "(length b = 3 \<and> list_all is_ascii_digit b \<and> c = Numeric (dec_value b))
    \<or> (b \<noteq> [] \<and> list_all is_ascii_alphabetic b \<and> c = Named b)"
proof (cases "length b = 3 \<and> list_all is_ascii_digit b")
  case True
  with parse_command_numeric [of b] assms show ?thesis by simp
next
  case False
  with assms show ?thesis by (auto simp: parse_command_def split: if_splits)
qed

lemma parse_command_wf:
  assumes "parse_command b = Inr c"
  shows "wf_command c" "render_command c = b"
  using parse_command_Inr [OF assms] dec_value_bound [of b] pad0_dec_value [of b]
  by (cases "b = []"; auto simp: wf_command_def render_command_def all_digits_def)+

lemma wf_params_Cons: "wf_middle p \<Longrightarrow> wf_params ps \<Longrightarrow> wf_params (p # ps)"
  by (cases ps) (auto simp: wf_params_def wf_middle_def)

lemma take_drop_word: "first \<noteq> SP \<Longrightarrow> first \<noteq> CHR '':'' \<Longrightarrow>
  \<not> needs_colon (take (word_end (first # rest)) (first # rest))"
  using word_endD(1) [of "first # rest"] word_end_pos [of first rest]
  by (cases "word_end (first # rest)") (auto simp: needs_colon_def first_is_def)

lemma parse_params_Inr:
  assumes "parse_params buf = Inr ps"
  obtains (none) "skip_spaces buf = []" "ps = []"
    | (trailing) t where "skip_spaces buf = CHR '':'' # t" "ps = [t]" "utf8_valid t"
    | (middle) p rest qs where "skip_spaces buf = p @ rest" "ps = p # qs" "utf8_valid p"
        "\<not> needs_colon p" "rest = [] \<or> first_is SP rest" "parse_params rest = Inr qs"
        "length rest < length buf"
proof (cases "skip_spaces buf")
  case Nil
  with assms none show thesis by (subst (asm) parse_params.simps) auto
next
  case (Cons first rest)
  have f: "first \<noteq> SP" using Cons by (rule skip_spaces_first)
  show thesis
  proof (cases "first = CHR '':''")
    case True
    with assms Cons trailing show thesis
      by (subst (asm) parse_params.simps) (auto split: sum.splits)
  next
    case False
    define e where "e = word_end (first # rest)"
    have "utf8_valid (take e (first # rest))" and
      "\<exists>qs. parse_params (drop e (first # rest)) = Inr qs \<and> ps = take e (first # rest) # qs"
      using assms Cons False
      by (subst (asm) parse_params.simps; auto simp: Let_def e_def split: sum.splits)+
    moreover have "length (drop e (first # rest)) < length buf"
      using word_end_pos [OF f, of rest] length_skip_spaces [of buf] Cons by (auto simp: e_def)
    ultimately show thesis
      using middle [of "take e (first # rest)" "drop e (first # rest)"] Cons
        word_endD(2) [of "first # rest"] take_drop_word [OF f False]
      by (auto simp: e_def)
  qed
qed

lemma parse_params_wf:
  "parse_params buf = Inr ps \<Longrightarrow> ctl_free buf \<Longrightarrow> wf_params ps"
proof (induction "length buf" arbitrary: buf ps rule: less_induct)
  case less
  have sub: "ctl_free (skip_spaces buf)" using less.prems(2) set_skip_spaces by (rule ctl_free_subset)
  from less.prems(1) show ?case
  proof (cases rule: parse_params_Inr)
    case none
    then show ?thesis by (simp add: wf_params_def)
  next
    case (trailing t)
    with sub show ?thesis by (auto simp: wf_params_def wf_field_def ctl_free_def)
  next
    case (middle p rest qs)
    have "wf_params qs" using middle sub less.hyps [OF middle(7,6)] by simp
    moreover have "wf_middle p" using middle sub by (simp add: wf_middle_def wf_field_def)
    ultimately show ?thesis using middle(2) by (simp add: wf_params_Cons)
  qed
qed

lemma length_skip_spaces_first: "first_is SP s \<Longrightarrow> length (skip_spaces s) < length s"
  using length_skip_spaces [of "tl s"] by (cases s) (auto simp: first_is_def)

lemma render_params_Cons:
  "ps \<noteq> [] \<or> \<not> needs_colon p \<Longrightarrow> render_params (p # ps) = SP # p @ render_params ps"
  by (cases ps) auto

lemma length_render_params:
  "parse_params buf = Inr ps \<Longrightarrow> buf = [] \<or> first_is SP buf \<Longrightarrow> length (render_params ps) \<le> length buf"
proof (induction "length buf" arbitrary: buf ps rule: less_induct)
  case less
  have sp: "length (skip_spaces buf) < length buf" if "skip_spaces buf \<noteq> []"
    using that less.prems(2) length_skip_spaces_first by auto
  from less.prems(1) show ?case
  proof (cases rule: parse_params_Inr)
    case (trailing t)
    with sp show ?thesis by simp
  next
    case (middle p rest qs)
    have "length (render_params qs) \<le> length rest"
      using less.hyps [OF middle(7,6)] middle(5) by blast
    then show ?thesis using middle sp
      by (cases "p = []") (auto simp: render_params_Cons needs_colon_def)
  qed simp
qed

subsection \<open>Sections of a rendered line\<close>

lemma parse_tag_render: "wf_tag t \<Longrightarrow> parse_tag (render_tag t) = Inr t"
proof -
  assume wf: "wf_tag t"
  then have key: "parse_tag_key (tkey t) = Inr (tkey t)" by (simp add: wf_tag_def)
  have eq: "CHR ''='' \<notin> set (tkey t)"
    using parse_tag_key_Inr(3) [OF key] tag_key_char_plain by blast
  show ?thesis
  proof (cases "tvalue t")
    case None
    then show ?thesis using key eq
      by (auto simp: parse_tag_def render_tag_def split_first_free intro: tag.equality)
  next
    case (Some v)
    then have "utf8_valid (escape_octets v)" using wf by (simp add: wf_tag_def utf8_valid_escape)
    then show ?thesis using key eq Some
      by (auto simp: parse_tag_def render_tag_def split_first_append str_field_def
          escape_value_octets unescape_value_octets intro: tag.equality)
  qed
qed

lemma render_tag_clean:
  assumes "wf_tag t" "c \<in> {NUL, CR, LF, SP, CHR '';''}"
  shows "c \<notin> set (render_tag t)"
proof -
  have key: "parse_tag_key (tkey t) = Inr (tkey t)" using assms(1) by (simp add: wf_tag_def)
  have "c \<notin> set (tkey t)"
    using parse_tag_key_Inr(3) [OF key] tag_key_char_plain assms(2) by blast
  moreover have "c \<notin> set (escape_octets v)" if "tvalue t = Some v" for v
    using that assms escape_octets_clean [of c v] set_escape_octets [of v]
    by (auto simp: wf_tag_def needs_escape_def ctl_defs)
  ultimately show ?thesis using assms(2)
    by (auto simp: render_tag_def escape_value_octets ctl_defs split: option.splits)
qed

lemma render_tag_nonempty: "wf_tag t \<Longrightarrow> render_tag t \<noteq> []"
  by (auto simp: wf_tag_def render_tag_def parse_tag_key_def)

lemma parse_tag_list_render: "list_all wf_tag ts \<Longrightarrow> parse_tag_list (map render_tag ts) = Inr ts"
  by (induction ts) (auto simp: render_tag_nonempty parse_tag_render)

lemma set_join: "set (join [c] ps) \<subseteq> insert c (\<Union> (set ` set ps))"
  by (induction "[c]" ps rule: join.induct) auto

lemma parse_tags_render:
  assumes "list_all wf_tag ts" "ts \<noteq> []"
  shows "parse_tags (join '';'' (map render_tag ts)) = Inr ts"
proof -
  have "split_on (CHR '';'') (join '';'' (map render_tag ts)) = map render_tag ts"
    using assms by (intro split_on_join) (auto simp: list_all_iff render_tag_clean)
  moreover have "join '';'' (map render_tag ts) \<noteq> []"
    using assms render_tag_nonempty by (cases ts; cases "tl ts") (auto simp: neq_Nil_conv)
  ultimately show ?thesis using assms by (simp add: parse_tags_def parse_tag_list_render)
qed

lemma parse_source_text: "wf_source s \<Longrightarrow> parse_source (source_text s) = Inr s"
proof -
  assume wf: "wf_source s"
  define nu where "nu = sname s @ (case suser s of None \<Rightarrow> [] | Some u \<Rightarrow> CHR ''!'' # u)"
  have "CHR ''@'' \<notin> set nu" "CHR ''!'' \<notin> set (sname s)"
    using wf by (auto simp: nu_def wf_source_def wf_field_def split: option.splits)
  then have "split_first (CHR ''@'') (source_text s) = (nu, shost s)"
    and "split_first (CHR ''!'') nu = (sname s, suser s)"
    by (auto simp: source_text_def nu_def split_first_free split_first_append
        simp flip: append_assoc split: option.splits)
  then show ?thesis using wf
    by (auto simp: parse_source_def opt_field_def str_field_def wf_source_def wf_field_def
        split: option.splits intro: source.equality)
qed

lemma source_text_clean:
  "wf_source s \<Longrightarrow> ctl_free (source_text s) \<and> SP \<notin> set (source_text s) \<and> source_text s \<noteq> []"
  by (auto simp: wf_source_def wf_field_def source_text_def ctl_free_def ctl_defs split: option.splits)

lemma render_command_chars:
  "wf_command c \<Longrightarrow> render_command c \<noteq> [] \<and> list_all is_ascii_alphanumeric (render_command c)"
  using all_digits_pad0 [OF dec_digits, of 3]
  by (fastforce simp: wf_command_def render_command_def all_digits_def list_all_iff
      is_ascii_alphanumeric_def split: command.splits)

lemma alphanumeric_plain:
  "is_ascii_alphanumeric c \<Longrightarrow> c \<notin> {NUL, CR, LF, SP, CHR '':'', CHR ''@''}"
  by (auto simp: ascii_class_defs ctl_defs)

lemma alphabetic_not_digit: "is_ascii_alphabetic c \<Longrightarrow> \<not> is_ascii_digit c"
  by (auto simp: ascii_class_defs)

lemma parse_render_command: "wf_command c \<Longrightarrow> parse_command (render_command c) = Inr c"
proof (cases c)
  case (Named n)
  assume "wf_command c"
  then have n: "n \<noteq> []" "list_all is_ascii_alphabetic n"
    using Named by (simp_all add: wf_command_def)
  then have "\<not> list_all is_ascii_digit n"
    using alphabetic_not_digit by (cases n) auto
  moreover have "utf8_valid n"
    using n(2) by (intro utf8_valid_ascii) (auto simp: list_all_iff ascii_class_defs)
  ultimately show ?thesis using n Named by (simp add: parse_command_def render_command_def)
next
  case (Numeric k)
  assume "wf_command c"
  then have k: "k < 10 ^ 3" using Numeric by (simp add: wf_command_def)
  have "length (pad0 3 (dec k)) = 3"
    using length_dec_le [OF k] by (simp add: length_pad0)
  then show ?thesis
    using parse_command_numeric [of "pad0 3 (dec k)"] all_digits_pad0 [OF dec_digits, of 3 k] Numeric
    by (simp add: render_command_def all_digits_def)
qed

lemma parse_render_params: "wf_params ps \<Longrightarrow> parse_params (render_params ps) = Inr ps"
proof (induction ps rule: render_params.induct)
  case 1
  show ?case by (simp add: parse_params.simps)
next
  case (2 p)
  then have u: "utf8_valid p" by (simp add: wf_params_def wf_field_def)
  show ?case
  proof (cases "needs_colon p")
    case True
    moreover have "CHR '':'' \<noteq> SP" by (simp add: SP_def)
    ultimately show ?thesis using u by (simp add: parse_params.simps [of "SP # _"] str_field_def)
  next
    case False
    then obtain c r where p: "p = c # r" "c \<noteq> CHR '':''" "SP \<notin> set p" "c \<noteq> SP"
      by (cases p) (auto simp: needs_colon_def first_is_def)
    then show ?thesis using u False word_end_free [of p] parse_params.simps [of "[]"]
      by (simp add: parse_params.simps [of "SP # _"] str_field_def)
  qed
next
  case (3 p q ps)
  then have wf: "wf_middle p" "wf_params (q # ps)" by (auto simp: wf_params_def)
  then obtain c r where p: "p = c # r" "c \<noteq> CHR '':''" "SP \<notin> set p" "utf8_valid p" "c \<noteq> SP"
    by (cases p) (auto simp: wf_middle_def wf_field_def needs_colon_def first_is_def)
  obtain r' where r': "render_params (q # ps) = SP # r'" by (cases ps) auto
  have "word_end (p @ render_params (q # ps)) = length p"
    using p(3) r' by (simp add: word_end_append)
  then show ?case using p "3.IH" [OF wf(2)]
    by (simp add: parse_params.simps [of "SP # _"] str_field_def)
qed

lemma render_params_ctl_free: "wf_params ps \<Longrightarrow> ctl_free (render_params ps)"
proof (induction ps rule: render_params.induct)
  case (3 p q ps)
  then show ?case by (auto simp: wf_params_def wf_field_def ctl_free_def ctl_defs)
qed (auto simp: wf_params_def wf_field_def ctl_free_def ctl_defs)

lemma first_is_append: "s \<noteq> [] \<Longrightarrow> first_is c (s @ t) = first_is c s"
  by (cases s) (auto simp: first_is_def)

lemma render_command_first:
  "wf_command c \<Longrightarrow> d \<in> {NUL, CR, LF, SP, CHR '':'', CHR ''@''} \<Longrightarrow> d \<notin> set (render_command c)"
  using render_command_chars alphanumeric_plain by (fastforce simp: list_all_iff)

lemma not_first_is: "c \<notin> set s \<Longrightarrow> \<not> first_is c s"
  by (cases s) (auto simp: first_is_def)

lemma render_params_start: "render_params ps = [] \<or> (\<exists>r. render_params ps = SP # r)"
  by (cases ps rule: render_params.cases) auto

lemma source_section_render:
  assumes "\<forall>s. so = Some s \<longrightarrow> wf_source s" "wf_command c"
  shows "source_section (render_source so @ render_command c @ r) = Inr (so, render_command c @ r)"
proof -
  have c: "render_command c \<noteq> []" "\<And>d. d \<in> {SP, CHR '':''} \<Longrightarrow> \<not> first_is d (render_command c @ r)"
    using assms(2) render_command_chars render_command_first
    by (auto simp: first_is_append not_first_is)
  show ?thesis
  proof (cases so)
    case None
    then show ?thesis using c by (simp add: source_section_def render_source_def)
  next
    case (Some s)
    then have wf: "wf_source s" using assms(1) by simp
    note t = source_text_clean [OF wf]
    let ?b = "CHR '':'' # source_text s @ SP # render_command c @ r"
    have "memchr SP ?b = Some (Suc (length (source_text s)))"
      using t memchr_append [of SP "CHR '':'' # source_text s"] by (auto simp: ctl_defs)
    moreover have "skip_spaces (SP # render_command c @ r) = render_command c @ r"
      using c(2) by (simp add: skip_spaces_id)
    ultimately show ?thesis using t c Some parse_source_text [OF wf]
      by (simp add: source_section_def render_source_def first_is_def)
  qed
qed

lemma render_body_clean:
  assumes "wf_message l m"
  shows "ctl_free (render_body m)" "render_body m \<noteq> []" "\<not> first_is SP (render_body m)"
    "\<not> first_is (CHR ''@'') (render_body m)"
proof -
  let ?c = "render_command (mcommand m)"
  have wf: "wf_command (mcommand m)" "wf_params (mparams m)"
    "\<And>s. msource m = Some s \<Longrightarrow> wf_source s"
    using assms by (auto simp: wf_message_def)
  have c: "?c \<noteq> []" "\<And>d. d \<in> {NUL, CR, LF, SP, CHR '':'', CHR ''@''} \<Longrightarrow> d \<notin> set ?c"
    using render_command_chars [OF wf(1)] render_command_first [OF wf(1)] by auto
  show "ctl_free (render_body m)"
    using c(2) render_params_ctl_free [OF wf(2)] wf(3) source_text_clean
    by (auto simp: render_body_def render_source_def ctl_free_def ctl_defs split: option.splits)
  show "render_body m \<noteq> []" using c(1) by (simp add: render_body_def)
  have "first_is d (render_body m) = (case msource m of None \<Rightarrow> first_is d ?c | Some _ \<Rightarrow> d = CHR '':'')" for d
    using c(1) by (auto simp: render_body_def render_source_def first_is_append first_is_Cons
        split: option.splits)
  then show "\<not> first_is SP (render_body m)" "\<not> first_is (CHR ''@'') (render_body m)"
    using c(2) by (simp_all add: not_first_is SP_def split: option.splits)
qed

lemma tags_section_render:
  assumes "wf_message l m"
  shows "tags_section l (render_tags (mtags m) @ render_body m) = Inr (mtags m, render_body m)"
proof (cases "mtags m = []")
  case True
  then show ?thesis using render_body_clean(4) [OF assms]
    by (simp add: tags_section_def render_tags_def)
next
  case False
  let ?s = "join '';'' (map render_tag (mtags m))"
  have wf: "list_all wf_tag (mtags m)" "length ?s \<le> max_tag_bytes l"
    using assms by (auto simp: wf_message_def)
  have sp: "SP \<notin> set (CHR ''@'' # ?s)"
    using wf(1) render_tag_clean set_join [of "CHR '';''" "map render_tag (mtags m)"]
    by (fastforce simp: list_all_iff ctl_defs)
  have "memchr SP (CHR ''@'' # ?s @ SP # render_body m) = Some (Suc (length ?s))"
    using memchr_append [OF sp] by simp
  moreover have "skip_spaces (SP # render_body m) = render_body m"
    using render_body_clean(3) [OF assms] by (simp add: skip_spaces_id)
  ultimately show ?thesis
    using wf render_body_clean(2) [OF assms] False parse_tags_render [OF wf(1) False]
    by (simp add: tags_section_def render_tags_def first_is_def)
qed

lemma render_tags_ctl_free:
  "list_all wf_tag ts \<Longrightarrow> ctl_free (render_tags ts)"
  using set_join [of "CHR '';''" "map render_tag ts"] render_tag_clean
  by (fastforce simp: render_tags_def ctl_free_def list_all_iff ctl_defs)

lemma parse_render_wf_message:
  assumes "wf_message l m"
  shows "parse (render m) l = Inr m"
proof -
  let ?b = "render_tags (mtags m) @ render_body m"
  have wf: "wf_command (mcommand m)" "wf_params (mparams m)"
    "\<forall>s. msource m = Some s \<longrightarrow> wf_source s" "length (render_body m) \<le> max_body_bytes l"
    "list_all wf_tag (mtags m)"
    using assms by (auto simp: wf_message_def)
  have free: "ctl_free ?b" using render_body_clean(1) [OF assms] render_tags_ctl_free [OF wf(5)] by simp
  have b: "strip_line_terminators (render m) = ?b"
    using strip_line_terminators_crlf [OF free] render_body_clean(2) [OF assms]
    by (simp add: render_def)
  have sp: "SP \<notin> set (render_command (mcommand m))"
    using render_command_first [OF wf(1)] by blast
  have "word_end (render_command (mcommand m) @ render_params (mparams m))
      = length (render_command (mcommand m))"
    using render_params_start [of "mparams m"] sp word_end_append word_end_free by fastforce
  then show ?thesis
    using b free tags_section_render [OF assms] source_section_render [OF wf(3,1), of "render_params (mparams m)"]
      wf render_body_clean(2) [OF assms] parse_render_command [OF wf(1)] parse_render_params [OF wf(2)]
    by (simp add: parse_def Let_def ctl_free_def render_body_def)
qed

subsection \<open>The round trip\<close>

lemma memchr_drop: "memchr c s = Some i \<Longrightarrow> drop i s = c # drop (Suc i) s"
  using memchr_SomeD(1,3) [of c s i]
  by (metis Cons_nth_drop_Suc append_eq_conv_conj length_take min.absorb4 nth_append_length)

lemma marker_section:
  assumes "first_is c buf" "memchr SP buf = Some sp" "c \<noteq> SP"
  shows "buf = c # take (sp - 1) (drop 1 buf) @ drop sp buf" "SP \<notin> set (take (sp - 1) (drop 1 buf))"
    "length (skip_spaces (drop sp buf)) < length (drop sp buf)"
proof -
  obtain r where r: "buf = c # r" using assms(1) by (cases buf) auto
  have sp: "0 < sp" using assms r memchr_SomeD(1) [OF assms(2)] by (cases sp) auto
  then show "buf = c # take (sp - 1) (drop 1 buf) @ drop sp buf"
    using r by (simp add: drop_Cons')
  have "take sp buf = c # take (sp - 1) r" using r sp by (simp add: take_Cons')
  then show "SP \<notin> set (take (sp - 1) (drop 1 buf))"
    using memchr_SomeD(2) [OF assms(2)] r by simp
  show "length (skip_spaces (drop sp buf)) < length (drop sp buf)"
    using memchr_drop [OF assms(2)] by (intro length_skip_spaces_first) simp
qed

lemma tags_sectionD:
  assumes "tags_section l buf = Inr (ts, rest)" "ctl_free buf" "buf \<noteq> []"
  shows "list_all wf_tag ts" "length (join '';'' (map render_tag ts)) \<le> max_tag_bytes l"
    "ctl_free rest" "rest \<noteq> []"
proof -
  have "list_all wf_tag ts \<and> length (join '';'' (map render_tag ts)) \<le> max_tag_bytes l
    \<and> ctl_free rest \<and> rest \<noteq> []"
  proof (cases "first_is (CHR ''@'') buf")
    case True
    then obtain sp where sp: "memchr SP buf = Some sp"
      using assms(1) by (auto simp: tags_section_def simp del: memchr_None split: option.splits)
    let ?sec = "take (sp - 1) (drop 1 buf)"
    have p: "length ?sec \<le> max_tag_bytes l" "parse_tags ?sec = Inr ts"
      "rest = skip_spaces (drop sp buf)" "rest \<noteq> []"
      using assms(1) True sp by (auto simp: tags_section_def Let_def split: if_splits sum.splits)
    have "CHR ''@'' \<noteq> SP" by (simp add: SP_def)
    note m = marker_section [OF True sp this]
    have "ctl_free ?sec" "ctl_free (drop sp buf)"
      using assms(2) by (auto intro: ctl_free_subset dest: in_set_takeD in_set_dropD)
    then show ?thesis
      using p m(2) parse_tags_wf [OF p(2)] ctl_free_subset set_skip_spaces by fastforce
  qed (use assms in \<open>simp add: tags_section_def\<close>)
  then show "list_all wf_tag ts" "length (join '';'' (map render_tag ts)) \<le> max_tag_bytes l"
    "ctl_free rest" "rest \<noteq> []" by auto
qed

lemma source_sectionD:
  assumes "source_section buf = Inr (so, rest)" "ctl_free buf"
  shows "so = Some s \<Longrightarrow> wf_source s" "length (render_source so) + length rest \<le> length buf" "ctl_free rest"
proof -
  have "(\<forall>s. so = Some s \<longrightarrow> wf_source s) \<and> length (render_source so) + length rest \<le> length buf
    \<and> ctl_free rest"
  proof (cases "first_is (CHR '':'') buf")
    case True
    then obtain sp where sp: "memchr SP buf = Some sp"
      using assms(1) by (auto simp: source_section_def simp del: memchr_None split: option.splits)
    let ?raw = "take (sp - 1) (drop 1 buf)"
    obtain t where p: "parse_source ?raw = Inr t" "so = Some t" "rest = skip_spaces (drop sp buf)"
      using assms(1) True sp by (auto simp: source_section_def Let_def split: if_splits sum.splits)
    have "CHR '':'' \<noteq> SP" by (simp add: SP_def)
    note m = marker_section [OF True sp this]
    have free: "ctl_free ?raw" "ctl_free (drop sp buf)"
      using assms(2) by (auto intro: ctl_free_subset dest: in_set_takeD in_set_dropD)
    note wf = parse_source_wf [OF p(1) free(1) m(2)]
    have "length buf = Suc (length ?raw + length (drop sp buf))"
      using arg_cong [OF m(1), of length] by simp
    then show ?thesis using p wf free m(3) ctl_free_subset [OF free(2) set_skip_spaces]
      by (simp add: render_source_def)
  qed (use assms in \<open>simp add: source_section_def render_source_def\<close>)
  then show "so = Some s \<Longrightarrow> wf_source s" "length (render_source so) + length rest \<le> length buf"
    "ctl_free rest" by auto
qed

lemma parse_Inr:
  assumes "parse input l = Inr m"
  obtains buf rest rest' where
    "buf = strip_line_terminators input" "buf \<noteq> []" "ctl_free buf"
    "tags_section l buf = Inr (mtags m, rest)" "length rest \<le> max_body_bytes l"
    "source_section rest = Inr (msource m, rest')"
    "parse_command (take (word_end rest') rest') = Inr (mcommand m)"
    "parse_params (drop (word_end rest') rest') = Inr (mparams m)"
proof -
  let ?buf = "strip_line_terminators input"
  have b: "?buf \<noteq> []" "ctl_free ?buf"
    using assms by (auto simp: parse_def Let_def ctl_free_def split: if_splits)
  obtain ts rest where t: "tags_section l ?buf = Inr (ts, rest)"
    using assms b by (cases "tags_section l ?buf") (auto simp: parse_def Let_def ctl_free_def)
  have len: "length rest \<le> max_body_bytes l"
    using assms b t by (auto simp: parse_def Let_def ctl_free_def split: if_splits)
  obtain so rest' where s: "source_section rest = Inr (so, rest')"
    using assms b t len by (cases "source_section rest") (auto simp: parse_def Let_def ctl_free_def)
  show thesis
    using assms b t len s that [of ?buf rest rest']
    by (auto simp: parse_def Let_def ctl_free_def split: sum.splits)
qed

lemma parse_wf_message:
  assumes "parse input l = Inr m"
  shows "wf_message l m"
proof -
  from assms obtain buf rest rest' where b: "buf \<noteq> []" "ctl_free buf"
    and t: "tags_section l buf = Inr (mtags m, rest)" and len: "length rest \<le> max_body_bytes l"
    and s: "source_section rest = Inr (msource m, rest')"
    and c: "parse_command (take (word_end rest') rest') = Inr (mcommand m)"
    and p: "parse_params (drop (word_end rest') rest') = Inr (mparams m)"
    by (rule parse_Inr)
  note td = tags_sectionD [OF t b(2,1)]
  note sd = source_sectionD [OF s td(3)]
  note cd = parse_command_wf [OF c]
  have "ctl_free (drop (word_end rest') rest')"
    using sd(3) by (auto intro: ctl_free_subset dest: in_set_dropD)
  then have pw: "wf_params (mparams m)" by (rule parse_params_wf [OF p])
  have "length (render_params (mparams m)) \<le> length rest' - word_end rest'"
    using length_render_params [OF p word_endD(2)] by simp
  then have "length (render_body m) \<le> length rest"
    using sd(2) cd(2) word_endD(3) [of rest'] by (simp add: render_body_def)
  then show ?thesis using td(1,2) sd(1) cd(1) pw len by (simp add: wf_message_def)
qed

lemma parse_budget_cases:
  assumes "ctl_free sec" "ctl_free body" "SP \<notin> set sec" "body \<noteq> []" "\<not> first_is SP body"
  shows "length sec > max_tag_bytes l \<Longrightarrow>
      parse (CHR ''@'' # sec @ SP # body) l = Inl (TagsTooLong (max_tag_bytes l))"
    and "\<not> first_is (CHR ''@'') body \<Longrightarrow> length body > max_body_bytes l \<Longrightarrow>
      parse body l = Inl (BodyTooLong (max_body_bytes l))"
    and "length sec \<le> max_tag_bytes l \<Longrightarrow> parse_tags sec = Inr ts \<Longrightarrow>
      length body > max_body_bytes l \<Longrightarrow>
      parse (CHR ''@'' # sec @ SP # body) l = Inl (BodyTooLong (max_body_bytes l))"
proof -
  let ?b = "CHR ''@'' # sec @ SP # body"
  have strip: "strip_line_terminators s = s" if "ctl_free s" for s
  proof (cases "rev s")
    case (Cons x xs)
    then have "x \<in> set s" by (metis list.set_intros(1) set_rev)
    then have "strip_rev (rev s) = rev s" using that Cons by (auto simp: ctl_free_def)
    then show ?thesis by (simp add: strip_line_terminators_def)
  qed (simp add: strip_line_terminators_def)
  have free: "ctl_free ?b" using assms(1,2) by (auto simp: ctl_free_def ctl_defs)
  have mem: "memchr SP ?b = Some (Suc (length sec))"
    using memchr_append [of SP "CHR ''@'' # sec" body] assms(3) by (simp add: ctl_defs)
  show "parse ?b l = Inl (TagsTooLong (max_tag_bytes l))" if "length sec > max_tag_bytes l"
    using that strip [OF free] free mem
    by (simp add: parse_def Let_def ctl_free_def tags_section_def)
  show "parse body l = Inl (BodyTooLong (max_body_bytes l))"
    if "\<not> first_is (CHR ''@'') body" "length body > max_body_bytes l"
    using that strip [OF assms(2)] assms(2,4)
    by (simp add: parse_def Let_def ctl_free_def tags_section_def)
  show "parse ?b l = Inl (BodyTooLong (max_body_bytes l))"
    if "length sec \<le> max_tag_bytes l" "parse_tags sec = Inr ts" "length body > max_body_bytes l"
    using that strip [OF free] free mem assms(4,5)
    by (simp add: parse_def Let_def ctl_free_def tags_section_def skip_spaces_id)
qed

subsection \<open>Properties\<close>

text \<open>C28: rendering a parsed message and parsing the rendered line under the same budgets
  returns the very same message: \<open>render\<close> is a right inverse of \<open>parse\<close>, as the parser's comment
  on control characters promises, and no accepted line grows past its budgets when rendered.\<close>

theorem parse_render_roundtrip:
  assumes "parse input l = Inr m"
  shows "parse (render m) l = Inr m"
  using assms by (intro parse_render_wf_message parse_wf_message)

theorem parse_render_roundtrip_witness:
  "parse (render \<lparr>mtags = [\<lparr>tkey = ''a'', tvalue = Some ''1''\<rparr>],
      msource = Some \<lparr>sname = ''n'', suser = Some ''u'', shost = Some ''h''\<rparr>,
      mcommand = Named ''PRIVMSG'', mparams = [''#c'', ''hi there'']\<rparr>) ircv3
   = Inr \<lparr>mtags = [\<lparr>tkey = ''a'', tvalue = Some ''1''\<rparr>],
      msource = Some \<lparr>sname = ''n'', suser = Some ''u'', shost = Some ''h''\<rparr>,
      mcommand = Named ''PRIVMSG'', mparams = [''#c'', ''hi there'']\<rparr>"
proof (rule parse_render_roundtrip)
  show "parse ''@a=1; :n!u@h  PRIVMSG #c   :hi there'' ircv3
    = Inr \<lparr>mtags = [\<lparr>tkey = ''a'', tvalue = Some ''1''\<rparr>],
        msource = Some \<lparr>sname = ''n'', suser = Some ''u'', shost = Some ''h''\<rparr>,
        mcommand = Named ''PRIVMSG'', mparams = [''#c'', ''hi there'']\<rparr>"
    by code_simp
qed

text \<open>C29: what a handler may rely on in an accepted message. Every parameter is valid UTF-8 and free of NUL, CR and LF, and every
  parameter but the last is a non-empty word that neither holds a space nor starts with a colon. The command is a non-empty run
  of letters or a code below 1000. The name, user and host of a source are valid UTF-8 without NUL, CR, LF and spaces, and the
  name is not empty. A tag has a non-empty key without separators, and its value is valid UTF-8 without NUL; CR and LF can be
  in a value, since it is unescaped.\<close>

theorem parse_fields_safe:
  assumes "parse input l = Inr m"
  shows "(\<forall>p \<in> set (mparams m). utf8_valid p \<and> NUL \<notin> set p \<and> CR \<notin> set p \<and> LF \<notin> set p)
    \<and> (\<forall>p \<in> set (butlast (mparams m)). p \<noteq> [] \<and> SP \<notin> set p \<and> \<not> first_is (CHR '':'') p)
    \<and> (case mcommand m of Named n \<Rightarrow> n \<noteq> [] \<and> list_all is_ascii_alphabetic n | Numeric n \<Rightarrow> n < 1000)
    \<and> (\<forall>s. msource m = Some s \<longrightarrow> sname s \<noteq> []
         \<and> (\<forall>x \<in> {sname s} \<union> set_option (suser s) \<union> set_option (shost s).
              utf8_valid x \<and> NUL \<notin> set x \<and> CR \<notin> set x \<and> LF \<notin> set x \<and> SP \<notin> set x))
    \<and> (\<forall>t \<in> set (mtags m). tkey t \<noteq> [] \<and> set (tkey t) \<inter> {NUL, CR, LF, SP, CHR '';'', CHR ''=''} = {}
         \<and> (\<forall>v. tvalue t = Some v \<longrightarrow> utf8_valid v \<and> NUL \<notin> set v))"
proof -
  have wf: "wf_message l m" by (rule parse_wf_message [OF assms])
  have key: "k \<noteq> [] \<and> set k \<inter> {NUL, CR, LF, SP, CHR '';'', CHR ''=''} = {}" if "parse_tag_key k = Inr k" for k
    using that by (auto simp: parse_tag_key_def list_all_iff tag_key_char_def ascii_class_defs ctl_defs split: list.splits if_splits)
  have "\<forall>t \<in> set (mtags m). wf_tag t" using wf by (simp add: wf_message_def list_all_iff)
  then have "\<forall>t \<in> set (mtags m). tkey t \<noteq> [] \<and> set (tkey t) \<inter> {NUL, CR, LF, SP, CHR '';'', CHR ''=''} = {}
      \<and> (\<forall>v. tvalue t = Some v \<longrightarrow> utf8_valid v \<and> NUL \<notin> set v)"
    using key unfolding wf_tag_def by blast
  moreover have "\<forall>s. msource m = Some s \<longrightarrow> sname s \<noteq> []
      \<and> (\<forall>x \<in> {sname s} \<union> set_option (suser s) \<union> set_option (shost s).
           utf8_valid x \<and> NUL \<notin> set x \<and> CR \<notin> set x \<and> LF \<notin> set x \<and> SP \<notin> set x)"
    using wf by (auto simp: wf_message_def wf_source_def wf_field_def ctl_free_def)
  moreover have "(\<forall>p \<in> set (mparams m). utf8_valid p \<and> NUL \<notin> set p \<and> CR \<notin> set p \<and> LF \<notin> set p)
      \<and> (\<forall>p \<in> set (butlast (mparams m)). p \<noteq> [] \<and> SP \<notin> set p \<and> \<not> first_is (CHR '':'') p)
      \<and> (case mcommand m of Named n \<Rightarrow> n \<noteq> [] \<and> list_all is_ascii_alphabetic n | Numeric n \<Rightarrow> n < 1000)"
    using wf by (auto simp: wf_message_def wf_params_def wf_middle_def wf_field_def ctl_free_def wf_command_def
      needs_colon_def list_all_iff split: command.splits)
  ultimately show ?thesis by blast
qed

theorem parse_fields_safe_witness:
  "parse ''PRIVMSG #c :hi there'' ircv3
     = Inr \<lparr>mtags = [], msource = None, mcommand = Named ''PRIVMSG'', mparams = [''#c'', ''hi there'']\<rparr>
   \<and> SP \<notin> set ''#c'' \<and> \<not> first_is (CHR '':'') ''#c''"
proof -
  have h: "parse ''PRIVMSG #c :hi there'' ircv3
     = Inr \<lparr>mtags = [], msource = None, mcommand = Named ''PRIVMSG'', mparams = [''#c'', ''hi there'']\<rparr>"
    by code_simp
  show ?thesis using h parse_fields_safe [OF h] by simp
qed

text \<open>The two length budgets are enforced, and independently: a line whose tag section is too
  long is refused for its tags whatever its body, a line whose body is too long is refused for
  its body whatever its tags are, and the errors carry the budget that was exceeded.\<close>

theorem parse_budgets:
  assumes "ctl_free sec" "ctl_free body" "SP \<notin> set sec" "body \<noteq> []" "\<not> first_is SP body"
  shows "(length sec > max_tag_bytes l \<longrightarrow>
      parse (CHR ''@'' # sec @ SP # body) l = Inl (TagsTooLong (max_tag_bytes l)))
    \<and> (\<not> first_is (CHR ''@'') body \<and> length body > max_body_bytes l \<longrightarrow>
      parse body l = Inl (BodyTooLong (max_body_bytes l)))
    \<and> (length sec \<le> max_tag_bytes l \<and> parse_tags sec = Inr ts \<and> length body > max_body_bytes l \<longrightarrow>
      parse (CHR ''@'' # sec @ SP # body) l = Inl (BodyTooLong (max_body_bytes l)))"
  using parse_budget_cases [OF assms] by blast

theorem parse_budgets_witness:
  "parse ''@abcde PING'' \<lparr>max_tag_bytes = 4, max_body_bytes = 512\<rparr> = Inl (TagsTooLong 4)
   \<and> parse ''@a=1 PRIVMSG #channel :x'' \<lparr>max_tag_bytes = 4, max_body_bytes = 8\<rparr> = Inl (BodyTooLong 8)"
proof -
  have a: "parse_tags ''a=1'' = Inr [\<lparr>tkey = ''a'', tvalue = Some ''1''\<rparr>]" by code_simp
  show ?thesis
    using parse_budgets [of "''abcde''" "''PING''" "\<lparr>max_tag_bytes = 4, max_body_bytes = 512\<rparr>"]
      parse_budgets [of "''a=1''" "''PRIVMSG #channel :x''" "\<lparr>max_tag_bytes = 4, max_body_bytes = 8\<rparr>"] a
    by (simp add: ctl_free_def ctl_defs)
qed

text \<open>Escaping a tag value and unescaping it is the identity on every string, and the escaped
  form holds none of the octets that delimit tags or lines.\<close>

theorem escape_value_roundtrip:
  "unescape_value (escape_value v) = v
   \<and> set (escape_value v) \<inter> {CHR '';'', SP, CR, LF} = {}"
  using escape_octets_clean [of _ v]
  by (auto simp: unescape_value_octets escape_value_octets needs_escape_def ctl_defs)

end
