(* ===== verification/Wire.thy ===== *)
theory Wire
  imports Encode
begin

text \<open>
  Building outbound lines (\<open>ferrixd/src/wire.rs\<close>): a \<open>Line\<close> is the text accumulated so far. The
  theorem connects the builder with the protocol crate's parser: a line built from a source, a
  verb or code, middle parameters and a trailing text is read back as exactly that message.
\<close>

type_synonym line = string

definition line_server :: "string \<Rightarrow> line" where
  "line_server server = CHR '':'' # server @ [SP]"

definition line_user :: "string \<Rightarrow> string \<Rightarrow> string \<Rightarrow> line" where
  "line_user nick user host = CHR '':'' # nick @ CHR ''!'' # user @ CHR ''@'' # host @ [SP]"

definition line_bare :: line where
  "line_bare = []"

definition line_command :: "line \<Rightarrow> string \<Rightarrow> line" where
  "line_command buf command = buf @ command"

definition line_code :: "line \<Rightarrow> nat \<Rightarrow> line" where
  "line_code buf code = buf @ pad0 3 (dec code)"

definition line_param :: "line \<Rightarrow> string \<Rightarrow> line" where
  "line_param buf param = buf @ SP # param"

definition line_trailing :: "line \<Rightarrow> string \<Rightarrow> line" where
  "line_trailing buf trailing = buf @ SP # CHR '':'' # trailing"

definition line_build :: "line \<Rightarrow> string" where
  "line_build buf = buf @ [CR, LF]"

definition line_body :: "line \<Rightarrow> string" where
  "line_body buf = buf"

lemmas line_defs = line_server_def line_user_def line_bare_def line_command_def line_code_def
  line_param_def line_trailing_def line_build_def line_body_def

lemma foldl_line_param: "foldl line_param buf ps = buf @ concat (map (\<lambda>p. SP # p) ps)"
  by (induction ps arbitrary: buf) (simp_all add: line_param_def)

lemma parse_params_trailing:
  "list_all wf_middle ps \<Longrightarrow> utf8_valid t \<Longrightarrow>
   parse_params (concat (map (\<lambda>p. SP # p) ps) @ SP # CHR '':'' # t) = Inr (ps @ [t])"
proof (induction ps)
  case Nil
  moreover have "CHR '':'' \<noteq> SP" by (simp add: SP_def)
  ultimately show ?case by (simp add: parse_params.simps [of "SP # _"] str_field_def)
next
  case (Cons p ps)
  then obtain c r where p: "p = c # r" "c \<noteq> CHR '':''" "SP \<notin> set p" "utf8_valid p" "c \<noteq> SP"
    by (cases p) (auto simp: wf_middle_def wf_field_def needs_colon_def)
  define tail where "tail = concat (map (\<lambda>p. SP # p) ps) @ SP # CHR '':'' # t"
  obtain tl where tl: "tail = SP # tl" by (cases ps) (auto simp: tail_def)
  have "word_end (p @ tail) = length p" using p(3) tl by (simp add: word_end_append)
  moreover have "parse_params tail = Inr (ps @ [t])" using Cons by (simp add: tail_def)
  ultimately show ?case using p
    by (simp add: parse_params.simps [of "SP # c # _"] str_field_def flip: tail_def)
qed

text \<open>A body of a source, a command and any parameters parses section by section.\<close>

lemma parse_body:
  assumes "\<forall>s. so = Some s \<longrightarrow> wf_source s" "wf_command c" "ctl_free r"
    and "r = [] \<or> first_is SP r" "parse_params r = Inr ps"
    and "length (render_source so @ render_command c @ r) \<le> max_body_bytes l"
  shows "parse (render_source so @ render_command c @ r @ [CR, LF]) l
    = Inr \<lparr>mtags = [], msource = so, mcommand = c, mparams = ps\<rparr>"
proof -
  let ?b = "render_source so @ render_command c @ r"
  have c: "render_command c \<noteq> []" "\<And>d. d \<in> {NUL, CR, LF, SP, CHR '':'', CHR ''@''} \<Longrightarrow> d \<notin> set (render_command c)"
    using render_command_chars [OF assms(2)] render_command_first [OF assms(2)] by auto
  have free: "ctl_free ?b"
    using c(2) assms(1,3) source_text_clean
    by (auto simp: render_source_def ctl_free_def ctl_defs split: option.splits)
  have at: "\<not> first_is (CHR ''@'') ?b"
    using c by (cases so) (auto simp: render_source_def first_is_append not_first_is)
  have "word_end (render_command c @ r) = length (render_command c)"
    using assms(4) c(2) word_end_append [of "render_command c" "tl r"] word_end_free
    by (cases r) auto
  then show ?thesis
    using strip_line_terminators_crlf [OF free] c(1) free at source_section_render [OF assms(1,2), of r]
      assms(5,6) parse_render_command [OF assms(2)]
    by (simp add: parse_def Let_def ctl_free_def tags_section_def)
qed

subsection \<open>Properties\<close>

text \<open>C31: a numeric reply built with the line builder, with any middle parameters that are single
  words and any trailing text without control octets, is parsed by the protocol crate as exactly
  that reply: no parameter or text can change the code, the source or the number of parameters.\<close>

theorem built_reply_parses:
  assumes "wf_source \<lparr>sname = server, suser = None, shost = None\<rparr>" "code < 1000"
    and "list_all wf_middle ps" "utf8_valid text" "ctl_free text"
    and "length (line_trailing (foldl line_param (line_code (line_server server) code) ps) text)
           \<le> max_body_bytes l"
  shows "parse (line_build (line_trailing (foldl line_param (line_code (line_server server) code) ps) text)) l
    = Inr \<lparr>mtags = [], msource = Some \<lparr>sname = server, suser = None, shost = None\<rparr>,
           mcommand = Numeric code, mparams = ps @ [text]\<rparr>"
proof -
  let ?so = "Some \<lparr>sname = server, suser = None, shost = None\<rparr>"
  let ?r = "concat (map (\<lambda>p. SP # p) ps) @ SP # CHR '':'' # text"
  have eq: "line_trailing (foldl line_param (line_code (line_server server) code) ps) text
      = render_source ?so @ render_command (Numeric code) @ ?r"
    by (simp add: foldl_line_param line_trailing_def line_code_def line_server_def
        render_source_def render_command_def source_text_def)
  have "ctl_free ?r"
    using assms(3,5) by (auto simp: ctl_free_def list_all_iff wf_middle_def wf_field_def ctl_defs)
  moreover have "first_is SP ?r" by (cases ps) auto
  ultimately show ?thesis
    using assms eq parse_params_trailing [OF assms(3,4)]
      parse_body [of ?so "Numeric code" ?r "ps @ [text]" l]
    by (simp add: line_build_def wf_command_def)
qed

theorem built_reply_parses_witness:
  "parse (line_build (line_trailing (foldl line_param (line_code (line_server ''irc.test'') 1) [''nick'']) ''Welcome to it'')) ircv3
    = Inr \<lparr>mtags = [], msource = Some \<lparr>sname = ''irc.test'', suser = None, shost = None\<rparr>,
           mcommand = Numeric 1, mparams = [''nick''] @ [''Welcome to it'']\<rparr>"
proof (rule built_reply_parses)
  show "wf_source \<lparr>sname = ''irc.test'', suser = None, shost = None\<rparr>"
    by (simp add: wf_source_def wf_field_def ctl_free_def ctl_defs utf8_valid_ascii is_ascii_def)
  show "list_all wf_middle [''nick'']" by code_simp
  show "utf8_valid ''Welcome to it''" by code_simp
  show "ctl_free ''Welcome to it''" by code_simp
  show "length (line_trailing (foldl line_param (line_code (line_server ''irc.test'') 1) [''nick'']) ''Welcome to it'')
      \<le> max_body_bytes ircv3" by code_simp
qed simp

end
