(* ===== verification/Casemap.thy ===== *)
theory Casemap
  imports Prelude
begin

text \<open>
  Case mapping and name validation (\<open>ferrixd/src/casemap.rs\<close>). Every registry of the daemon is
  keyed by a folded name; the locale \<open>name_folding\<close> states what a registry relies on, and both
  case mappings provide it.
\<close>

datatype case_mapping = Ascii | Rfc1459

definition isupport_token :: "case_mapping \<Rightarrow> string" where
  "isupport_token m = (case m of Ascii \<Rightarrow> ''ascii'' | Rfc1459 \<Rightarrow> ''rfc1459'')"

definition char_to_ascii_lowercase :: "rchar \<Rightarrow> rchar" where
  "char_to_ascii_lowercase c = (case c of [b] \<Rightarrow> [to_ascii_lowercase b] | _ \<Rightarrow> c)"

definition fold_char :: "case_mapping \<Rightarrow> rchar \<Rightarrow> rchar" where
  "fold_char m c =
     (case m of
        Ascii \<Rightarrow> char_to_ascii_lowercase c
      | Rfc1459 \<Rightarrow>
          if list_all is_ascii_upper c \<and> length c = 1 then char_to_ascii_lowercase c
          else if c = ''['' then ''{''
          else if c = '']'' then ''}''
          else if c = [BS] then ''|''
          else if c = ''~'' then ''^''
          else c)"

definition fold_name :: "case_mapping \<Rightarrow> string \<Rightarrow> string" where
  "fold_name m s = concat (map (fold_char m) (chars s))"

definition MAX_NICK_LEN :: nat where "MAX_NICK_LEN = 30"
definition MAX_CHANNEL_LEN :: nat where "MAX_CHANNEL_LEN = 50"

definition is_nick_special :: "rchar \<Rightarrow> bool" where
  "is_nick_special c \<longleftrightarrow>
     c \<in> {''['', '']'', [BS], [CHR 0x60], ''_'', ''^'', ''{'', ''|'', ''}''}"

definition is_nick_start :: "rchar \<Rightarrow> bool" where
  "is_nick_start c \<longleftrightarrow> (length c = 1 \<and> list_all is_ascii_alphabetic c) \<or> is_nick_special c"

definition is_nick_rest :: "rchar \<Rightarrow> bool" where
  "is_nick_rest c \<longleftrightarrow>
     (length c = 1 \<and> list_all is_ascii_alphanumeric c) \<or> is_nick_special c \<or> c = ''-''"

definition is_valid_nick :: "string \<Rightarrow> bool" where
  "is_valid_nick nick =
     (case chars nick of
        [] \<Rightarrow> False
      | first # rest \<Rightarrow>
          if \<not> is_nick_start first then False
          else if length (chars nick) > MAX_NICK_LEN then False
          else list_all is_nick_rest rest)"

definition is_valid_channel :: "string \<Rightarrow> bool" where
  "is_valid_channel name =
     (case chars name of
        [] \<Rightarrow> False
      | first # rest \<Rightarrow>
          if first \<noteq> ''#'' then False
          else if length name < 2 \<or> length (chars name) > MAX_CHANNEL_LEN then False
          else list_all (\<lambda>c. c \<notin> {[SP], '','', [CHR 0x07]} \<and> \<not> is_control c) rest)"

subsection \<open>Folding, octet by octet\<close>

definition fold_octet :: "case_mapping \<Rightarrow> char \<Rightarrow> char" where
  "fold_octet m b =
     (case m of
        Ascii \<Rightarrow> to_ascii_lowercase b
      | Rfc1459 \<Rightarrow>
          if is_ascii_upper b then to_ascii_lowercase b
          else if b = CHR ''['' then CHR ''{''
          else if b = CHR '']'' then CHR ''}''
          else if b = BS then CHR ''|''
          else if b = CHR ''~'' then CHR ''^''
          else b)"

lemma fold_char_single: "fold_char m [b] = [fold_octet m b]"
  by (cases m) (auto simp: fold_char_def fold_octet_def char_to_ascii_lowercase_def)

lemma fold_char_not_ascii: "\<not> is_ascii b \<Longrightarrow> fold_char m (b # c) = b # c"
  by (cases m; cases c)
    (auto simp: fold_char_def char_to_ascii_lowercase_def to_ascii_lowercase_def ascii_class_defs ctl_defs)

lemma fold_octet_not_ascii: "\<not> is_ascii b \<Longrightarrow> fold_octet m b = b"
  using fold_char_not_ascii [of b m "[]"] by (simp add: fold_char_single)

lemma fold_name_map: "fold_name m s = map (fold_octet m) s"
proof -
  have "fold_name m s = concat (map (\<lambda>b. [fold_octet m b]) s)"
    unfolding fold_name_def
    by (rule concat_map_chars) (simp_all add: fold_char_single fold_char_not_ascii fold_octet_not_ascii)
  then show ?thesis by (simp add: concat_map_singleton)
qed

lemma octet_lit:
  "b = CHR ''['' \<longleftrightarrow> octet b = 91" "b = CHR '']'' \<longleftrightarrow> octet b = 93" "b = BS \<longleftrightarrow> octet b = 92"
  "b = CHR ''~'' \<longleftrightarrow> octet b = 126"
  using octet_inject [of b "CHR ''[''"] octet_inject [of b "CHR '']''"] octet_inject [of b BS]
    octet_inject [of b "CHR ''~''"] by (simp_all add: BS_def del: of_char_eq_iff)

lemma fold_octet_values: "octet (fold_octet m b) =
   (if 65 \<le> octet b \<and> octet b \<le> 90 then octet b + 32
    else if m = Rfc1459 \<and> 91 \<le> octet b \<and> octet b \<le> 93 then octet b + 32
    else if m = Rfc1459 \<and> octet b = 126 then 94 else octet b)"
  by (cases m) (auto simp: fold_octet_def octet_lowercase is_ascii_upper_def octet_lit)

lemma fold_octet_idem [simp]: "fold_octet m (fold_octet m b) = fold_octet m b"
proof -
  have "octet (fold_octet m (fold_octet m b)) = octet (fold_octet m b)"
    by (simp add: fold_octet_values)
  then show ?thesis by simp
qed

subsection \<open>The interface of a folded registry\<close>

locale name_folding =
  fixes fold :: "string \<Rightarrow> string"
  assumes fold_idem: "fold (fold s) = fold s"
    and fold_length: "length (fold s) = length s"
begin

definition same_name :: "string \<Rightarrow> string \<Rightarrow> bool" where
  "same_name a b \<longleftrightarrow> fold a = fold b"

lemma same_name_equiv: "equivp same_name"
  by (auto simp: same_name_def intro!: equivpI reflpI sympI transpI)

lemma same_name_fold: "same_name (fold a) a"
  by (simp add: same_name_def fold_idem)

lemma same_name_length: "same_name a b \<Longrightarrow> length a = length b"
  by (metis same_name_def fold_length)

end

interpretation casemap: name_folding "fold_name m" for m
  by unfold_locales (simp_all add: fold_name_map)

subsection \<open>Folding and validation\<close>

lemma is_ascii_fold [simp]: "is_ascii (fold_octet m b) = is_ascii b"
  by (auto simp: fold_octet_values is_ascii_def)

lemma fold_octet_cont [simp]: "is_cont (fold_octet m b) = is_cont b"
proof (cases "is_ascii b")
  case True
  then have "is_ascii (fold_octet m b)" by simp
  with True show ?thesis by (auto simp: is_ascii_def is_cont_def simp del: is_ascii_fold)
qed (simp add: fold_octet_not_ascii)

lemma chars_fold: "chars (map (fold_octet m) s) = map (fold_char m) (chars s)"
proof (induction s rule: chars.induct)
  case (2 b s)
  have "map (fold_octet m) (takeWhile is_cont s) = takeWhile is_cont s"
    using takeWhile_cont_not_ascii [of _ s] by (intro map_idI) (simp add: fold_octet_not_ascii)
  with 2 show ?case
    by (cases "is_ascii b")
      (simp_all add: fold_char_single fold_char_not_ascii fold_octet_not_ascii takeWhile_map
        dropWhile_map comp_def)
qed simp

lemma nick_special_octet: "is_nick_special [b] \<longleftrightarrow> 91 \<le> octet b \<and> octet b \<le> 96 \<or> 123 \<le> octet b \<and> octet b \<le> 125"
proof -
  let ?S = "{CHR ''['', CHR '']'', BS, CHR 0x60, CHR ''_'', CHR ''^'', CHR ''{'', CHR ''|'', CHR ''}''}"
  have "is_nick_special [b] \<longleftrightarrow> octet b \<in> octet ` ?S"
    by (simp only: is_nick_special_def insert_iff empty_iff list.inject simp_thms
        inj_image_mem_iff [OF inj_of_char])
  also have "octet ` ?S = {91, 92, 93, 94, 95, 96, 123, 124, 125}"
    by (simp add: BS_def insert_commute)
  finally show ?thesis by auto
qed

lemma nick_char_single: "is_nick_special c \<or> is_nick_start c \<or> is_nick_rest c \<Longrightarrow> \<exists>b. c = [b]"
  by (auto simp: is_nick_special_def is_nick_start_def is_nick_rest_def length_Suc_conv)

lemma nick_start_octet: "is_nick_start [b] \<longleftrightarrow> 65 \<le> octet b \<and> octet b \<le> 125"
  by (auto simp: is_nick_start_def nick_special_octet ascii_class_defs)

lemma nick_rest_octet:
  "is_nick_rest [b] \<longleftrightarrow> 65 \<le> octet b \<and> octet b \<le> 125 \<or> 48 \<le> octet b \<and> octet b \<le> 57 \<or> octet b = 45"
  using octet_inject [of b "CHR ''-''"]
  by (auto simp: is_nick_rest_def nick_special_octet ascii_class_defs)

lemma nick_start_fold: "is_nick_start c \<Longrightarrow> is_nick_start (fold_char m c)"
  using nick_char_single [of c]
  by (auto simp: fold_char_single nick_start_octet fold_octet_values)

lemma nick_rest_fold: "is_nick_rest c \<Longrightarrow> is_nick_rest (fold_char m c)"
  using nick_char_single [of c]
  by (auto simp: fold_char_single nick_rest_octet fold_octet_values)

lemma fold_char_fixed: "(fold_char m c = [b]) = (c = [b])"
  if "octet b < 65" "c \<noteq> []" for c b
proof (cases c)
  case (Cons x xs)
  show ?thesis
  proof (cases xs)
    case Nil
    have "(octet (fold_octet m x) = octet b) = (octet x = octet b)"
      using that(1) by (auto simp: fold_octet_values simp del: of_char_eq_iff)
    then have "(fold_octet m x = b) = (x = b)" by simp
    with Cons Nil show ?thesis by (simp add: fold_char_single)
  next
    case c: (Cons y ys)
    have "fold_char m (x # y # ys) = x # y # ys"
      by (cases m) (simp_all add: fold_char_def char_to_ascii_lowercase_def)
    with Cons c show ?thesis by simp
  qed
qed (use that in simp)

lemma control_fold: "c \<noteq> [] \<Longrightarrow> is_control (fold_char m c) = is_control c"
proof (cases c)
  case (Cons x xs)
  show ?thesis
  proof (cases xs)
    case Nil
    have "(octet (fold_octet m x) < 32) = (octet x < 32)" "(octet (fold_octet m x) = 127) = (octet x = 127)"
      by (auto simp: fold_octet_values)
    with Cons Nil show ?thesis by (simp add: fold_char_single is_control_def)
  next
    case c: (Cons y ys)
    have "fold_char m (x # y # ys) = x # y # ys"
      by (cases m) (simp_all add: fold_char_def char_to_ascii_lowercase_def)
    with Cons c show ?thesis by simp
  qed
qed simp

lemma valid_nick_fold: "is_valid_nick n \<Longrightarrow> is_valid_nick (fold_name m n)"
  by (auto simp: is_valid_nick_def fold_name_map chars_fold list_all_iff nick_start_fold nick_rest_fold
      split: list.splits if_splits)

lemma channel_char_fold:
  "c \<noteq> [] \<Longrightarrow> (fold_char m c \<notin> {[SP], '','', [CHR 0x07]} \<and> \<not> is_control (fold_char m c))
    = (c \<notin> {[SP], '','', [CHR 0x07]} \<and> \<not> is_control c)"
  by (simp add: fold_char_fixed control_fold SP_def)

lemma valid_channel_fold: "is_valid_channel (fold_name m n) = is_valid_channel n"
proof (cases "chars n")
  case (Cons c cs)
  have ne: "x \<noteq> []" if "x \<in> set (c # cs)" for x using that Cons chars_nonempty [of x n] by simp
  have "list_all (\<lambda>c. c \<notin> {[SP], '','', [CHR 0x07]} \<and> \<not> is_control c) (map (fold_char m) cs)
      = list_all (\<lambda>c. c \<notin> {[SP], '','', [CHR 0x07]} \<and> \<not> is_control c) cs"
    unfolding list.pred_map comp_def
  proof (rule list.pred_cong [OF refl])
    fix z assume "z \<in> set cs"
    then have "z \<noteq> []" by (intro ne) simp
    then show "(fold_char m z \<notin> {[SP], '','', [CHR 0x07]} \<and> \<not> is_control (fold_char m z))
      = (z \<notin> {[SP], '','', [CHR 0x07]} \<and> \<not> is_control z)"
      by (rule channel_char_fold)
  qed
  then show ?thesis using Cons ne [of c]
    by (simp add: is_valid_channel_def fold_name_map chars_fold fold_char_fixed)
qed (simp add: is_valid_channel_def fold_name_map)

subsection \<open>Properties\<close>

text \<open>Folding is a well-behaved registry key: it is idempotent, keeps the length in octets and
  in characters, turns a valid nickname into a valid nickname and keeps the validity of a channel
  name in both directions, so two names that fold to the same key are valid channel names
  together.\<close>

theorem fold_name_registry_key:
  "fold_name m (fold_name m s) = fold_name m s
   \<and> length (fold_name m s) = length s \<and> length (chars (fold_name m s)) = length (chars s)
   \<and> is_valid_channel (fold_name m s) = is_valid_channel s
   \<and> (is_valid_nick s \<longrightarrow> is_valid_nick (fold_name m s))"
proof -
  have "length (chars (fold_name m s)) = length (chars s)" by (simp add: fold_name_map chars_fold)
  then show ?thesis
    using casemap.fold_idem casemap.fold_length valid_channel_fold valid_nick_fold by blast
qed

theorem fold_name_registry_key_witness:
  "is_valid_nick ''Foo[1]'' \<and> fold_name Rfc1459 ''Foo[1]'' = ''foo{1}'' \<and> is_valid_nick ''foo{1}''"
proof -
  have a: "is_valid_nick ''Foo[1]''" by code_simp
  have f: "fold_name Rfc1459 ''Foo[1]'' = ''foo{1}''" by code_simp
  show ?thesis using a f fold_name_registry_key [of Rfc1459 "''Foo[1]''"] by simp
qed

end
