(* ===== verification/Mask.thy ===== *)
theory Mask
  imports Casemap
begin

text \<open>
  Glob matching of ban masks (\<open>ferrixd/src/mask.rs\<close>): the backtracking loop of the source, its
  termination, and its relation to the meaning of a glob, \<open>glob\<close>. The loop tests a literal match
  before it looks for a star, so it is complete only for texts without the character \<open>*\<close>.
\<close>

definition eq_ci :: "rchar \<Rightarrow> rchar \<Rightarrow> bool" where
  "eq_ci a b \<longleftrightarrow> char_to_ascii_lowercase a = char_to_ascii_lowercase b"

definition star :: rchar where "star = ''*''"

text \<open>
  The \<open>while\<close> loop; \<open>None\<close> is the early \<open>return false\<close>, \<open>Some pi\<close> the pattern position at which
  the text was used up.
\<close>

function glob_loop ::
  "rchar list \<Rightarrow> rchar list \<Rightarrow> nat \<Rightarrow> nat \<Rightarrow> nat option \<Rightarrow> nat \<Rightarrow> nat option" where
  "glob_loop p t pi ti st star_ti =
     (if ti < length t then
        if pi < length p \<and> (p ! pi = ''?'' \<or> eq_ci (p ! pi) (t ! ti)) then
          glob_loop p t (pi + 1) (ti + 1) st star_ti
        else if pi < length p \<and> p ! pi = star then
          glob_loop p t (pi + 1) ti (Some pi) ti
        else (case st of
            Some sp \<Rightarrow> glob_loop p t (sp + 1) (star_ti + 1) st (star_ti + 1)
          | None \<Rightarrow> None)
      else Some pi)"
  by pat_completeness auto
termination
  by (relation "measures [\<lambda>(p, t, pi, ti, st, star_ti). length t - min star_ti ti,
        \<lambda>(p, t, pi, ti, st, star_ti). (length t - ti) + (length p - pi)]")
    (auto simp: min_def)

declare glob_loop.simps [simp del]

text \<open>The trailing \<open>while\<close> over the stars that are left, and the final comparison.\<close>

definition matches :: "string \<Rightarrow> string \<Rightarrow> bool" where
  "matches pattern text =
     (let p = chars pattern; t = chars text
      in case glob_loop p t 0 0 None 0 of
           None \<Rightarrow> False
         | Some pi \<Rightarrow> dropWhile (\<lambda>c. c = star) (drop pi p) = [])"

subsection \<open>The meaning of a glob\<close>

fun glob :: "rchar list \<Rightarrow> rchar list \<Rightarrow> bool" where
  "glob [] t = (t = [])"
| "glob (c # p) t =
     (if c = star then glob p t \<or> (case t of [] \<Rightarrow> False | x # xs \<Rightarrow> glob (c # p) xs)
      else case t of [] \<Rightarrow> False | x # xs \<Rightarrow> (c = ''?'' \<or> eq_ci c x) \<and> glob p xs)"

lemma glob_star: "glob (star # p) t \<longleftrightarrow> (\<exists>k \<le> length t. glob p (drop k t))"
proof (induction t)
  case Nil
  show ?case by simp
next
  case (Cons x xs)
  have "(\<exists>k \<le> length (x # xs). glob p (drop k (x # xs)))
      \<longleftrightarrow> glob p (x # xs) \<or> (\<exists>k \<le> length xs. glob p (drop k xs))" (is "?L \<longleftrightarrow> ?R")
  proof
    assume ?L
    then obtain k where "k \<le> Suc (length xs)" "glob p (drop k (x # xs))" by auto
    then show ?R by (cases k) auto
  next
    assume ?R
    then show ?L by (metis Suc_le_mono drop0 drop_Suc_Cons le0 length_Cons)
  qed
  with Cons show ?case by simp
qed

lemma glob_star_mono: "glob (star # p) (drop j t) \<Longrightarrow> i \<le> j \<Longrightarrow> glob (star # p) (drop i t)"
proof -
  assume g: "glob (star # p) (drop j t)" and ij: "i \<le> j"
  obtain k where k: "glob p (drop (k + j) t)" "k \<le> length t - j"
    using g unfolding glob_star by auto
  show ?thesis
  proof (cases "j \<le> length t")
    case True
    then show ?thesis unfolding glob_star using k ij
      by (intro exI [of _ "k + j - i"]) (auto simp: add.commute)
  next
    case False
    then have "drop (k + j) t = []" by simp
    then show ?thesis unfolding glob_star using k by (intro exI [of _ "length t - i"]) auto
  qed
qed

lemma glob_Nil: "glob p [] \<longleftrightarrow> dropWhile (\<lambda>c. c = star) p = []"
  by (induction p) auto

lemma eq_ci_star: "eq_ci star x \<longleftrightarrow> x = star"
proof
  assume h: "eq_ci star x"
  then obtain b where b: "x = [b]"
    by (cases x; cases "tl x") (auto simp: eq_ci_def star_def char_to_ascii_lowercase_def)
  have "octet (to_ascii_lowercase b) = 42"
    using h b by (auto simp: eq_ci_def star_def char_to_ascii_lowercase_def octet_lowercase
        is_ascii_upper_def simp del: of_char_eq_iff dest!: arg_cong [of _ _ octet])
  then have "octet b = octet (CHR ''*'')"
    by (auto simp: octet_lowercase is_ascii_upper_def split: if_splits simp del: of_char_eq_iff)
  then have "b = CHR ''*''" by (rule of_char_eqI)
  then show "x = star" using b by (simp add: star_def)
qed (simp add: eq_ci_def)

lemma drop_nth: "i < length xs \<Longrightarrow> drop i xs = xs ! i # drop (Suc i) xs"
  by (rule Cons_nth_drop_Suc [symmetric])

lemma glob_step:
  assumes "pi < length p" "p ! pi \<noteq> star"
  shows "glob (drop pi p) (drop ti t) \<longleftrightarrow>
    ti < length t \<and> (p ! pi = ''?'' \<or> eq_ci (p ! pi) (t ! ti)) \<and> glob (drop (Suc pi) p) (drop (Suc ti) t)"
  using assms by (cases "ti < length t") (simp_all add: drop_nth)

lemma glob_segment:
  "glob (drop a p) (drop j t) \<Longrightarrow> a \<le> b \<Longrightarrow> b \<le> length p \<Longrightarrow> j \<le> length t \<Longrightarrow>
   (\<And>i. a \<le> i \<Longrightarrow> i < b \<Longrightarrow> p ! i \<noteq> star) \<Longrightarrow>
   j + (b - a) \<le> length t \<and> glob (drop b p) (drop (j + (b - a)) t)"
proof (induction "b - a" arbitrary: a j)
  case (Suc n)
  then have a: "a < length p" "p ! a \<noteq> star" by simp_all
  then have "j < length t" "glob (drop (Suc a) p) (drop (Suc j) t)"
    using Suc.prems(1) glob_step [OF a] by simp_all
  then have "Suc j + (b - Suc a) \<le> length t \<and> glob (drop b p) (drop (Suc j + (b - Suc a)) t)"
    using Suc by (intro Suc.hyps(1)) auto
  then show ?case using Suc.hyps(2) by (simp add: Suc_diff_Suc)
qed simp

definition accepts :: "rchar list \<Rightarrow> nat option \<Rightarrow> bool" where
  "accepts p r = (case r of None \<Rightarrow> False | Some pi \<Rightarrow> glob (drop pi p) [])"

definition backtrack :: "rchar list \<Rightarrow> rchar list \<Rightarrow> nat option \<Rightarrow> nat \<Rightarrow> bool" where
  "backtrack p t st star_ti \<longleftrightarrow>
     (\<exists>sp j. st = Some sp \<and> star_ti < j \<and> j \<le> length t \<and> glob (drop (Suc sp) p) (drop j t))"

lemma matches_accepts: "matches pattern text = accepts (chars pattern) (glob_loop (chars pattern) (chars text) 0 0 None 0)"
  by (simp add: matches_def accepts_def glob_Nil Let_def cong: option.case_cong)

lemma backtrack_step:
  "st = Some sp \<Longrightarrow> star_ti < length t \<Longrightarrow>
   backtrack p t st star_ti \<longleftrightarrow>
     glob (drop (Suc sp) p) (drop (Suc star_ti) t) \<or> backtrack p t st (Suc star_ti)"
  unfolding backtrack_def
  by (rule iffI) (auto simp: Suc_lessI dest: Suc_lessD intro: Suc_leI, metis Suc_lessI)

subsection \<open>The steps of the loop\<close>

abbreviation literal :: "rchar list \<Rightarrow> rchar list \<Rightarrow> nat \<Rightarrow> nat \<Rightarrow> bool" where
  "literal p t pi ti \<equiv> pi < length p \<and> (p ! pi = ''?'' \<or> eq_ci (p ! pi) (t ! ti))"

lemma glob_loop_steps:
  "\<not> ti < length t \<Longrightarrow> glob_loop p t pi ti st star_ti = Some pi"
  "ti < length t \<Longrightarrow> literal p t pi ti \<Longrightarrow>
     glob_loop p t pi ti st star_ti = glob_loop p t (Suc pi) (Suc ti) st star_ti"
  "ti < length t \<Longrightarrow> \<not> literal p t pi ti \<Longrightarrow> pi < length p \<and> p ! pi = star \<Longrightarrow>
     glob_loop p t pi ti st star_ti = glob_loop p t (Suc pi) ti (Some pi) ti"
  "ti < length t \<Longrightarrow> \<not> literal p t pi ti \<Longrightarrow> \<not> (pi < length p \<and> p ! pi = star) \<Longrightarrow>
     glob_loop p t pi ti (Some sp) star_ti = glob_loop p t (Suc sp) (Suc star_ti) (Some sp) (Suc star_ti)"
  "ti < length t \<Longrightarrow> \<not> literal p t pi ti \<Longrightarrow> \<not> (pi < length p \<and> p ! pi = star) \<Longrightarrow>
     glob_loop p t pi ti None star_ti = None"
  by (auto simp: glob_loop.simps [of p t pi ti])

lemma glob_loop_cases:
  obtains (fin) "\<not> ti < length t"
    | (lit) "ti < length t" "literal p t pi ti"
    | (star) "ti < length t" "\<not> literal p t pi ti" "pi < length p \<and> p ! pi = star"
    | (bt) sp where "ti < length t" "\<not> literal p t pi ti" "\<not> (pi < length p \<and> p ! pi = star)"
        "st = Some sp"
    | (fail) "ti < length t" "\<not> literal p t pi ti" "\<not> (pi < length p \<and> p ! pi = star)" "st = None"
  by (cases st) blast+

text \<open>Soundness, for every text: what the loop accepts is a match.\<close>

lemma glob_loop_sound:
  "accepts p (glob_loop p t pi ti st star_ti) \<Longrightarrow> ti \<le> length t \<Longrightarrow> star_ti \<le> ti \<Longrightarrow>
   glob (drop pi p) (drop ti t) \<or> backtrack p t st star_ti"
proof (induction p t pi ti st star_ti rule: glob_loop.induct)
  case (1 p t pi ti st star_ti)
  show ?case
  proof (cases rule: glob_loop_cases [where ti = ti and t = t and pi = pi and p = p and st = st])
    case fin
    then show ?thesis using 1(4,5) by (simp add: accepts_def glob_loop_steps)
  next
    case lit
    have "glob (drop (Suc pi) p) (drop (Suc ti) t) \<or> backtrack p t st star_ti"
      using 1(1) [OF lit] 1(4-6) lit glob_loop_steps(2) [OF lit] by simp
    moreover have "glob (drop pi p) (drop ti t)" if "glob (drop (Suc pi) p) (drop (Suc ti) t)"
    proof (cases "p ! pi = star")
      case True
      have "glob (star # drop (Suc pi) p) (drop (Suc ti) t)"
        unfolding glob_star using that by (intro exI [of _ 0]) simp
      then have "glob (star # drop (Suc pi) p) (drop ti t)" by (rule glob_star_mono) simp
      then show ?thesis using True lit drop_nth [of pi p] by simp
    qed (use that lit in \<open>simp add: glob_step\<close>)
    ultimately show ?thesis by blast
  next
    case star
    have "glob (drop (Suc pi) p) (drop ti t) \<or> backtrack p t (Some pi) ti"
      using 1(2) [OF star] 1(4-6) star glob_loop_steps(3) [OF star] by simp
    then obtain j where j: "ti \<le> j" "j \<le> length t" "glob (drop (Suc pi) p) (drop j t)"
      using star(1) by (auto simp: backtrack_def intro: less_imp_le)
    have "glob (star # drop (Suc pi) p) (drop ti t)"
      unfolding glob_star using j by (intro exI [of _ "j - ti"]) auto
    then show ?thesis using star drop_nth [of pi p] by simp
  next
    case (bt sp)
    have "glob (drop (Suc sp) p) (drop (Suc star_ti) t) \<or> backtrack p t st (Suc star_ti)"
      using 1(3) [OF bt] 1(4-6) bt glob_loop_steps(4) [OF bt(1-3)] by simp
    then show ?thesis using bt backtrack_step [OF bt(4), of star_ti t p] 1(6) by simp
  next
    case fail
    then show ?thesis using 1(4) glob_loop_steps(5) [OF fail(1-3)] by (simp add: accepts_def)
  qed
qed

text \<open>
  Completeness needs that no star of the pattern is taken as a literal, which is so when the
  text holds no star. \<open>segment\<close> is what the loop knows of the last star it saw: since then it
  has advanced in pattern and text together and over no other star.
\<close>

definition segment :: "rchar list \<Rightarrow> nat \<Rightarrow> nat \<Rightarrow> nat option \<Rightarrow> nat \<Rightarrow> bool" where
  "segment p pi ti st star_ti \<longleftrightarrow>
     (\<forall>sp. st = Some sp \<longrightarrow> sp < pi \<and> star_ti \<le> ti \<and> ti - star_ti = pi - Suc sp
        \<and> (\<forall>i. sp < i \<and> i < pi \<longrightarrow> p ! i \<noteq> star))"

lemma backtrack_segment:
  assumes "segment p pi ti st star_ti" "backtrack p t st star_ti" "pi \<le> length p"
  obtains j where "ti < j" "j \<le> length t" "glob (drop pi p) (drop j t)"
proof -
  obtain sp j where b: "st = Some sp" "star_ti < j" "j \<le> length t" "glob (drop (Suc sp) p) (drop j t)"
    using assms(2) by (auto simp: backtrack_def)
  have "j + (pi - Suc sp) \<le> length t \<and> glob (drop pi p) (drop (j + (pi - Suc sp)) t)"
    using b assms(1,3) by (intro glob_segment) (auto simp: segment_def)
  then show thesis using b assms(1) by (intro that [of "j + (pi - Suc sp)"]) (auto simp: segment_def)
qed

lemma glob_loop_complete:
  "glob (drop pi p) (drop ti t) \<or> backtrack p t st star_ti \<Longrightarrow> star \<notin> set t \<Longrightarrow>
   pi \<le> length p \<Longrightarrow> ti \<le> length t \<Longrightarrow> segment p pi ti st star_ti \<Longrightarrow>
   accepts p (glob_loop p t pi ti st star_ti)"
proof (induction p t pi ti st star_ti rule: glob_loop.induct)
  case (1 p t pi ti st star_ti)
  show ?case
  proof (cases rule: glob_loop_cases [where ti = ti and t = t and pi = pi and p = p and st = st])
    case fin
    then have "glob (drop pi p) (drop ti t)"
      using 1(4,6,7,8) backtrack_segment [of p pi ti st star_ti t] by fastforce
    then show ?thesis using fin 1(7) by (simp add: accepts_def glob_loop_steps)
  next
    case lit
    then have "t ! ti \<noteq> star" using 1(5) nth_mem [of ti t] by metis
    then have ns: "p ! pi \<noteq> star" using lit eq_ci_star [of "t ! ti"] by (auto simp: star_def)
    then have "glob (drop (Suc pi) p) (drop (Suc ti) t) \<or> backtrack p t st star_ti"
      using 1(4) lit glob_step [of pi p ti t] by blast
    moreover have "segment p (Suc pi) (Suc ti) st star_ti"
      using 1(8) ns by (auto simp: segment_def less_Suc_eq)
    ultimately show ?thesis using 1(1) [OF lit] 1(5-8) lit glob_loop_steps(2) [OF lit] by simp
  next
    case star
    have "glob (drop pi p) (drop ti t)"
    proof (cases "backtrack p t st star_ti")
      case True
      then obtain j where "ti < j" "glob (drop pi p) (drop j t)"
        using 1(6,8) backtrack_segment [of p pi ti st star_ti t] by blast
      then show ?thesis using star drop_nth [of pi p] glob_star_mono [of "drop (Suc pi) p" j t ti] by simp
    qed (use 1(4) in blast)
    then obtain k where k: "k \<le> length t - ti" "glob (drop (Suc pi) p) (drop (k + ti) t)"
      using star drop_nth [of pi p] glob_star [of "drop (Suc pi) p" "drop ti t"] by auto
    have "glob (drop (Suc pi) p) (drop ti t) \<or> backtrack p t (Some pi) ti"
    proof (cases k)
      case (Suc n)
      then have "ti < k + ti" "k + ti \<le> length t" using k(1) star(1) by auto
      then show ?thesis using k(2) by (auto simp: backtrack_def)
    qed (use k in simp)
    moreover have "segment p (Suc pi) ti (Some pi) ti" by (auto simp: segment_def)
    ultimately show ?thesis using 1(2) [OF star] 1(5-7) star glob_loop_steps(3) [OF star] by simp
  next
    case (bt sp)
    have "\<not> glob (drop pi p) (drop ti t)"
      using bt glob_step [of pi p ti t] drop_nth [of ti t] by (cases "pi < length p") auto
    then have b: "backtrack p t st star_ti" using 1(4) by blast
    then have lt: "star_ti < length t" by (auto simp: backtrack_def)
    have "glob (drop (Suc sp) p) (drop (Suc star_ti) t) \<or> backtrack p t st (Suc star_ti)"
      using b backtrack_step [OF bt(4) lt] by blast
    moreover have "segment p (Suc sp) (Suc star_ti) (Some sp) (Suc star_ti)"
      by (auto simp: segment_def)
    moreover have "Suc sp \<le> length p" using 1(6,8) bt(4) by (auto simp: segment_def)
    ultimately show ?thesis
      using 1(3) [OF bt] 1(5) bt lt glob_loop_steps(4) [OF bt(1-3)] by simp
  next
    case fail
    have "\<not> glob (drop pi p) (drop ti t)"
      using fail glob_step [of pi p ti t] drop_nth [of ti t] by (cases "pi < length p") auto
    then show ?thesis using 1(4) fail(4) by (simp add: backtrack_def)
  qed
qed

subsection \<open>Properties\<close>

text \<open>A mask match is never spurious: whatever the text, when \<open>matches\<close> accepts it the text
  is in the language of the glob (\<open>*\<close> any run, \<open>?\<close> one character, letters without case).\<close>

theorem matches_sound:
  "matches pattern text \<Longrightarrow> glob (chars pattern) (chars text)"
  using glob_loop_sound [of "chars pattern" "chars text" 0 0 None 0]
  by (simp add: matches_accepts backtrack_def)

theorem matches_sound_witness: "matches ''*!*@1.2.*'' ''nick!user@1.2.3.4'' \<and> glob (chars ''*!*@1.2.*'') (chars ''nick!user@1.2.3.4'')"
proof -
  have h: "matches ''*!*@1.2.*'' ''nick!user@1.2.3.4''" by code_simp
  show ?thesis using h matches_sound [OF h] by simp
qed

text \<open>C30: for a text without the character \<open>*\<close> the backtracking loop decides exactly the glob
  language: no match is missed either.\<close>

theorem matches_exact:
  assumes "CHR ''*'' \<notin> set text"
  shows "matches pattern text \<longleftrightarrow> glob (chars pattern) (chars text)"
proof
  have "star \<notin> set (chars text)"
  proof
    assume "star \<in> set (chars text)"
    then have "set star \<subseteq> set (concat (chars text))" unfolding set_concat by blast
    then show False using assms by (simp add: star_def)
  qed
  then show "glob (chars pattern) (chars text) \<Longrightarrow> matches pattern text"
    using glob_loop_complete [of 0 "chars pattern" 0 "chars text" None 0]
    by (simp add: matches_accepts segment_def)
  show "matches pattern text \<Longrightarrow> glob (chars pattern) (chars text)"
    using glob_loop_sound [of "chars pattern" "chars text" 0 0 None 0]
    by (simp add: matches_accepts backtrack_def)
qed

theorem matches_exact_witness: "matches ''*a*b*c'' ''xxaxxbxx'' \<longleftrightarrow> glob (chars ''*a*b*c'') (chars ''xxaxxbxx'')"
  by (rule matches_exact) simp

text \<open>A text that holds a star can evade a mask that covers it: the loop takes the star of the
  pattern for the literal star of the text and never makes it a backtracking point. The user name
  below, which \<open>USER\<close> accepts, is not matched by \<open>*!~*@10.0.0.1\<close> although the glob covers it.\<close>

theorem matches_star_evasion:
  "glob (chars ''*!~*@10.0.0.1'') (chars ''eve!~*x@10.0.0.1'')
   \<and> \<not> matches ''*!~*@10.0.0.1'' ''eve!~*x@10.0.0.1''"
  by code_simp

end
