(* ===== verification/S2S.thy ===== *)
theory S2S
  imports Wire "HOL-Library.Monad_Syntax"
begin

text \<open>
  Server-to-server frames (\<open>ferrixd/src/s2s.rs\<close>): the message type, its wire form, the reader that
  takes a parsed line back to a message, the logical clock and the link handshake.
\<close>

subsection \<open>Messages\<close>

datatype link_message =
    Pass string
  | Server string string string
  | Sserver string string string string
  | Ping string
  | Pong string
  | Uid string string nat string string string string string
  | Nick string string
  | Quit string string
  | UserMessage string string bool "string option" "nat option" "string option" string
  | Sjoin string string bool bool nat
  | Spart string string string
  | ChanMessage string string bool "string option" "nat option" "string option" string
  | Sumode string string
  | Sknock string string string
  | TagMessage string string string
  | Sredact string string string string
  | Srename string string string string
  | Stopic string string string nat string
  | Smode string string nat string "string list"
  | Skick string string string string
  | Saway string "string option"
  | Saccount string string
  | Ssetname string string
  | Schghost string string
  | Swallops string string
  | Sinvite string string string
  | Sban bool string string string
  | Kill string string
  | Squit string string
  | Error string

definition prefix_flags :: "bool \<Rightarrow> bool \<Rightarrow> string" where
  "prefix_flags op voice =
     (let flags = (if op then ''o'' else []) @ (if voice then ''v'' else [])
      in if flags = [] then ''-'' else flags)"

definition unwrap_star :: "string option \<Rightarrow> string" where
  "unwrap_star v = (case v of Some s \<Rightarrow> s | None \<Rightarrow> ''*'')"

fun to_line :: "link_message \<Rightarrow> string" where
  "to_line (Pass token) =
     line_build (line_trailing (line_command line_bare ''PASS'') token)"
| "to_line (Server name sid description) =
     line_build (line_trailing (line_param (line_param (line_command line_bare ''SERVER'') name) sid) description)"
| "to_line (Sserver name sid uplink description) =
     line_build (line_trailing (line_param (line_param (line_param (line_command line_bare ''SSERVER'') name) sid) uplink) description)"
| "to_line (Ping token) =
     line_build (line_trailing (line_command line_bare ''PING'') token)"
| "to_line (Pong token) =
     line_build (line_trailing (line_command line_bare ''PONG'') token)"
| "to_line (Uid sid uid lamport nick user host account realname) =
     line_build (line_trailing (line_param (line_param (line_param (line_param (line_param (line_param (line_param (line_command line_bare ''UID'') sid) uid) (dec lamport)) nick) user) host) account) realname)"
| "to_line (Nick uid nick) =
     line_build (line_param (line_param (line_command line_bare ''NICK'') uid) nick)"
| "to_line (Quit uid reason) =
     line_build (line_trailing (line_param (line_command line_bare ''QUIT'') uid) reason)"
| "to_line (UserMessage source target notice msgid time_ms tags text) =
     line_build (line_trailing (line_param (line_param (line_param (line_param (line_param (line_param (line_command line_bare ''SMSG'') source) target) (if notice then ''N'' else ''P'')) (unwrap_star msgid)) (unwrap_star (map_option dec time_ms))) (unwrap_star tags)) text)"
| "to_line (Sjoin channel uid op voice ts) =
     line_build (line_param (line_param (line_param (line_param (line_command line_bare ''SJOIN'') channel) uid) (prefix_flags op voice)) (dec ts))"
| "to_line (Stopic channel source set_by set_at text) =
     line_build (line_trailing (line_param (line_param (line_param (line_param (line_command line_bare ''STOPIC'') channel) source) set_by) (dec set_at)) text)"
| "to_line (Smode channel source ts flags args) =
     line_build (foldl line_param
       (line_param (line_param (line_param (line_param (line_command line_bare ''SMODE'') channel) source) (dec ts)) flags)
       args)"
| "to_line (Skick channel source target reason) =
     line_build (line_trailing (line_param (line_param (line_param (line_command line_bare ''SKICK'') channel) source) target) reason)"
| "to_line (Saway uid reason) =
     (let line = line_param (line_command line_bare ''SAWAY'') uid
      in case reason of Some reason \<Rightarrow> line_build (line_trailing line reason) | None \<Rightarrow> line_build line)"
| "to_line (Saccount uid account) =
     line_build (line_param (line_param (line_command line_bare ''SACCOUNT'') uid) account)"
| "to_line (Spart channel uid reason) =
     line_build (line_trailing (line_param (line_param (line_command line_bare ''SPART'') channel) uid) reason)"
| "to_line (ChanMessage source channel notice msgid time_ms tags text) =
     line_build (line_trailing (line_param (line_param (line_param (line_param (line_param (line_param (line_command line_bare ''SCMSG'') source) channel) (if notice then ''N'' else ''P'')) (unwrap_star msgid)) (unwrap_star (map_option dec time_ms))) (unwrap_star tags)) text)"
| "to_line (Sumode uid flags) =
     line_build (line_param (line_param (line_command line_bare ''SUMODE'') uid) flags)"
| "to_line (Sknock source channel msk) =
     line_build (line_trailing (line_param (line_param (line_command line_bare ''SKNOCK'') source) channel) msk)"
| "to_line (TagMessage source target tags) =
     line_build (line_trailing (line_param (line_param (line_command line_bare ''STAGMSG'') source) target) tags)"
| "to_line (Sredact source target msgid reason) =
     line_build (line_trailing (line_param (line_param (line_param (line_command line_bare ''SREDACT'') source) target) msgid) reason)"
| "to_line (Srename source old new reason) =
     line_build (line_trailing (line_param (line_param (line_param (line_command line_bare ''SRENAME'') source) old) new) reason)"
| "to_line (Ssetname uid realname) =
     line_build (line_trailing (line_param (line_command line_bare ''SSETNAME'') uid) realname)"
| "to_line (Schghost uid host) =
     line_build (line_param (line_param (line_command line_bare ''SCHGHOST'') uid) host)"
| "to_line (Swallops source text) =
     line_build (line_trailing (line_param (line_command line_bare ''SWALLOPS'') source) text)"
| "to_line (Sinvite source target channel) =
     line_build (line_param (line_param (line_param (line_command line_bare ''SINVITE'') source) target) channel)"
| "to_line (Sban add msk set_by reason) =
     line_build (line_trailing (line_param (line_param (line_param (line_command line_bare ''SBAN'') (if add then ''+'' else ''-'')) msk) set_by) reason)"
| "to_line (Kill uid reason) =
     line_build (line_trailing (line_param (line_command line_bare ''KILL'') uid) reason)"
| "to_line (Squit sid reason) =
     line_build (line_trailing (line_param (line_command line_bare ''SQUIT'') sid) reason)"
| "to_line (Error reason) =
     line_build (line_trailing (line_command line_bare ''ERROR'') reason)"

subsection \<open>Reading messages\<close>

definition arg :: "string list \<Rightarrow> nat \<Rightarrow> string option" where
  "arg p i = (if i < length p then Some (p ! i) else None)"

definition unstar :: "string \<Rightarrow> string option" where
  "unstar v = (if v \<noteq> ''*'' then Some v else None)"

type_synonym message_tail = "string option \<times> nat option \<times> string option \<times> string"

definition parse_message_tail :: "string list \<Rightarrow> message_tail option" where
  "parse_message_tail p =
     (if length p \<le> 4 then do { text \<leftarrow> arg p 3; Some (None, None, None, text) }
      else if length p \<le> 6 then
        do { m \<leftarrow> arg p 3; t \<leftarrow> arg p 4; text \<leftarrow> arg p 5; Some (unstar m, parse_u64 t, None, text) }
      else
        do { m \<leftarrow> arg p 3; t \<leftarrow> arg p 4; g \<leftarrow> arg p 5; text \<leftarrow> arg p 6; Some (unstar m, parse_u64 t, unstar g, text) })"

definition is_notice :: "string list \<Rightarrow> bool" where
  "is_notice p = (case arg p 2 of Some f \<Rightarrow> eq_ignore_ascii_case f ''N'' | None \<Rightarrow> False)"

definition from_params :: "string \<Rightarrow> string list \<Rightarrow> link_message option" where
  "from_params name p =
     (let s = arg p in
      if name = ''PASS'' then
        do { x0 \<leftarrow> s 0; Some (Pass x0) }
      else if name = ''SERVER'' then
        do { x0 \<leftarrow> s 0; x1 \<leftarrow> s 1; x2 \<leftarrow> s 2; Some (Server x0 x1 x2) }
      else if name = ''SSERVER'' then
        do { x0 \<leftarrow> s 0; x1 \<leftarrow> s 1; x2 \<leftarrow> s 2; x3 \<leftarrow> s 3; Some (Sserver x0 x1 x2 x3) }
      else if name = ''PING'' then
        do { x0 \<leftarrow> s 0; Some (Ping x0) }
      else if name = ''PONG'' then
        do { x0 \<leftarrow> s 0; Some (Pong x0) }
      else if name = ''UID'' then
        do { sid \<leftarrow> s 0; uid \<leftarrow> s 1; l \<leftarrow> s 2; lamport \<leftarrow> parse_u64 l; nick \<leftarrow> s 3; user \<leftarrow> s 4;
           host \<leftarrow> s 5; account \<leftarrow> s 6; realname \<leftarrow> s 7;
           Some (Uid sid uid lamport nick user host account realname) }
      else if name = ''NICK'' then
        do { x0 \<leftarrow> s 0; x1 \<leftarrow> s 1; Some (Nick x0 x1) }
      else if name = ''QUIT'' then
        do { x0 \<leftarrow> s 0; x1 \<leftarrow> s 1; Some (Quit x0 x1) }
      else if name = ''SMSG'' then
        do { (msgid, time_ms, tags, text) \<leftarrow> parse_message_tail p; source \<leftarrow> s 0; target \<leftarrow> s 1;
           Some (UserMessage source target (is_notice p) msgid time_ms tags text) }
      else if name = ''SJOIN'' then
        (let flags = (case s 2 of Some f \<Rightarrow> f | None \<Rightarrow> ''-'');
            ts = (case Option.bind (s 3) parse_u64 of Some t \<Rightarrow> t | None \<Rightarrow> 0)
        in do { channel \<leftarrow> s 0; uid \<leftarrow> s 1;
             Some (Sjoin channel uid (CHR ''o'' \<in> set flags) (CHR ''v'' \<in> set flags) ts) })
      else if name = ''STOPIC'' then
        do { channel \<leftarrow> s 0; source \<leftarrow> s 1; set_by \<leftarrow> s 2; a \<leftarrow> s 3; set_at \<leftarrow> parse_u64 a; text \<leftarrow> s 4;
           Some (Stopic channel source set_by set_at text) }
      else if name = ''SMODE'' then
        (let (ts, flags_at) = (case Option.bind (s 2) parse_u64 of Some ts \<Rightarrow> (ts, 3) | None \<Rightarrow> (0, 2))
        in do { channel \<leftarrow> s 0; source \<leftarrow> s 1; flags \<leftarrow> s flags_at;
             Some (Smode channel source ts flags (drop (flags_at + 1) p)) })
      else if name = ''SKICK'' then
        do { x0 \<leftarrow> s 0; x1 \<leftarrow> s 1; x2 \<leftarrow> s 2; x3 \<leftarrow> s 3; Some (Skick x0 x1 x2 x3) }
      else if name = ''SAWAY'' then
        do { uid \<leftarrow> s 0; Some (Saway uid (s 1)) }
      else if name = ''SSETNAME'' then
        do { x0 \<leftarrow> s 0; x1 \<leftarrow> s 1; Some (Ssetname x0 x1) }
      else if name = ''SCHGHOST'' then
        do { x0 \<leftarrow> s 0; x1 \<leftarrow> s 1; Some (Schghost x0 x1) }
      else if name = ''SWALLOPS'' then
        do { x0 \<leftarrow> s 0; x1 \<leftarrow> s 1; Some (Swallops x0 x1) }
      else if name = ''SINVITE'' then
        do { x0 \<leftarrow> s 0; x1 \<leftarrow> s 1; x2 \<leftarrow> s 2; Some (Sinvite x0 x1 x2) }
      else if name = ''SBAN'' then
        do { a \<leftarrow> s 0; msk \<leftarrow> s 1; set_by \<leftarrow> s 2; reason \<leftarrow> s 3; Some (Sban (a = ''+'') msk set_by reason) }
      else if name = ''SACCOUNT'' then
        do { x0 \<leftarrow> s 0; x1 \<leftarrow> s 1; Some (Saccount x0 x1) }
      else if name = ''SPART'' then
        do { x0 \<leftarrow> s 0; x1 \<leftarrow> s 1; x2 \<leftarrow> s 2; Some (Spart x0 x1 x2) }
      else if name = ''SCMSG'' then
        do { (msgid, time_ms, tags, text) \<leftarrow> parse_message_tail p; source \<leftarrow> s 0; channel \<leftarrow> s 1;
           Some (ChanMessage source channel (is_notice p) msgid time_ms tags text) }
      else if name = ''SUMODE'' then
        do { x0 \<leftarrow> s 0; x1 \<leftarrow> s 1; Some (Sumode x0 x1) }
      else if name = ''SKNOCK'' then
        do { x0 \<leftarrow> s 0; x1 \<leftarrow> s 1; x2 \<leftarrow> s 2; Some (Sknock x0 x1 x2) }
      else if name = ''STAGMSG'' then
        do { x0 \<leftarrow> s 0; x1 \<leftarrow> s 1; x2 \<leftarrow> s 2; Some (TagMessage x0 x1 x2) }
      else if name = ''SREDACT'' then
        do { source \<leftarrow> s 0; target \<leftarrow> s 1; msgid \<leftarrow> s 2;
           Some (Sredact source target msgid (case s 3 of Some r \<Rightarrow> r | None \<Rightarrow> [])) }
      else if name = ''SRENAME'' then
        do { source \<leftarrow> s 0; old \<leftarrow> s 1; new \<leftarrow> s 2;
           Some (Srename source old new (case s 3 of Some r \<Rightarrow> r | None \<Rightarrow> [])) }
      else if name = ''KILL'' then
        do { x0 \<leftarrow> s 0; x1 \<leftarrow> s 1; Some (Kill x0 x1) }
      else if name = ''SQUIT'' then
        do { x0 \<leftarrow> s 0; x1 \<leftarrow> s 1; Some (Squit x0 x1) }
      else if name = ''ERROR'' then
        do { x0 \<leftarrow> s 0; Some (Error x0) }
      else None)"

definition from_message :: "message \<Rightarrow> link_message option" where
  "from_message msg =
     (case mcommand msg of
        Numeric _ \<Rightarrow> None
      | Named name \<Rightarrow> from_params (map to_ascii_uppercase name) (mparams msg))"

subsection \<open>Logical clock and handshake\<close>

text \<open>\<open>Lamport\<close>: a 64-bit counter. The compare-exchange loop of \<open>observe\<close> retries until no other
  thread has moved the clock in between, so its effect is one atomic update.\<close>

type_synonym lamport = "64 word"

definition lamport_tick :: "lamport \<Rightarrow> 64 word \<times> lamport" where
  "lamport_tick l = (l + 1, l + 1)"

definition lamport_observe :: "64 word \<Rightarrow> lamport \<Rightarrow> 64 word \<times> lamport" where
  "lamport_observe peer l = (let n = max l peer + 1 in (n, n))"

definition lamport_now :: "lamport \<Rightarrow> 64 word" where
  "lamport_now l = l"

text \<open>\<open>tokens_match\<close> compares octet by octet in constant time: equality of the two strings.\<close>

definition tokens_match :: "string \<Rightarrow> string \<Rightarrow> bool" where
  "tokens_match a b \<longleftrightarrow> a = b"

record link_peer =
  lp_name :: string
  lp_sid :: string
  lp_description :: string

datatype handshake_error = BadPassword | UnexpectedServer | Protocol

text \<open>The handshake: the two frames it sends, and its result on the stream of frames it reads.\<close>

definition handshake_sends :: "string \<Rightarrow> string \<Rightarrow> string \<Rightarrow> string \<Rightarrow> link_message list" where
  "handshake_sends local_name local_sid local_desc token =
     [Pass token, Server local_name local_sid local_desc]"

definition handshake :: "string \<Rightarrow> string \<Rightarrow> link_message list \<Rightarrow> handshake_error + link_peer" where
  "handshake token expected_peer input =
     (case input of
        [] \<Rightarrow> Inl Protocol
      | pass # rest \<Rightarrow>
          (case pass of
             Pass peer_token \<Rightarrow>
               if \<not> tokens_match peer_token token then Inl BadPassword
               else (case rest of
                       [] \<Rightarrow> Inl Protocol
                     | server # _ \<Rightarrow>
                         (case server of
                            Server name sid description \<Rightarrow>
                              if name \<noteq> expected_peer then Inl UnexpectedServer
                              else Inr \<lparr>lp_name = name, lp_sid = sid, lp_description = description\<rparr>
                          | _ \<Rightarrow> Inl Protocol))
           | _ \<Rightarrow> Inl Protocol))"

subsection \<open>The shape of a frame\<close>

text \<open>The verb, the middle parameters and the trailing text of a message.\<close>

fun link_shape :: "link_message \<Rightarrow> string \<times> string list \<times> string option" where
  "link_shape (Pass token) = (''PASS'', [], Some token)"
| "link_shape (Server name sid description) = (''SERVER'', [name, sid], Some description)"
| "link_shape (Sserver name sid uplink description) = (''SSERVER'', [name, sid, uplink], Some description)"
| "link_shape (Ping token) = (''PING'', [], Some token)"
| "link_shape (Pong token) = (''PONG'', [], Some token)"
| "link_shape (Uid sid uid lamport nick user host account realname) = (''UID'', [sid, uid, dec lamport, nick, user, host, account], Some realname)"
| "link_shape (Nick uid nick) = (''NICK'', [uid, nick], None)"
| "link_shape (Quit uid reason) = (''QUIT'', [uid], Some reason)"
| "link_shape (UserMessage source target notice msgid time_ms tags text) = (''SMSG'', [source, target, if notice then ''N'' else ''P'', unwrap_star msgid, unwrap_star (map_option dec time_ms), unwrap_star tags], Some text)"
| "link_shape (Sjoin channel uid op voice ts) = (''SJOIN'', [channel, uid, prefix_flags op voice, dec ts], None)"
| "link_shape (Stopic channel source set_by set_at text) = (''STOPIC'', [channel, source, set_by, dec set_at], Some text)"
| "link_shape (Smode channel source ts flags args) = (''SMODE'', channel # source # dec ts # flags # args, None)"
| "link_shape (Skick channel source target reason) = (''SKICK'', [channel, source, target], Some reason)"
| "link_shape (Saway uid reason) = (''SAWAY'', [uid], reason)"
| "link_shape (Saccount uid account) = (''SACCOUNT'', [uid, account], None)"
| "link_shape (Spart channel uid reason) = (''SPART'', [channel, uid], Some reason)"
| "link_shape (ChanMessage source channel notice msgid time_ms tags text) = (''SCMSG'', [source, channel, if notice then ''N'' else ''P'', unwrap_star msgid, unwrap_star (map_option dec time_ms), unwrap_star tags], Some text)"
| "link_shape (Sumode uid flags) = (''SUMODE'', [uid, flags], None)"
| "link_shape (Sknock source channel msk) = (''SKNOCK'', [source, channel], Some msk)"
| "link_shape (TagMessage source target tags) = (''STAGMSG'', [source, target], Some tags)"
| "link_shape (Sredact source target msgid reason) = (''SREDACT'', [source, target, msgid], Some reason)"
| "link_shape (Srename source old new reason) = (''SRENAME'', [source, old, new], Some reason)"
| "link_shape (Ssetname uid realname) = (''SSETNAME'', [uid], Some realname)"
| "link_shape (Schghost uid host) = (''SCHGHOST'', [uid, host], None)"
| "link_shape (Swallops source text) = (''SWALLOPS'', [source], Some text)"
| "link_shape (Sinvite source target channel) = (''SINVITE'', [source, target, channel], None)"
| "link_shape (Sban add msk set_by reason) = (''SBAN'', [if add then ''+'' else ''-'', msk, set_by], Some reason)"
| "link_shape (Kill uid reason) = (''KILL'', [uid], Some reason)"
| "link_shape (Squit sid reason) = (''SQUIT'', [sid], Some reason)"
| "link_shape (Error reason) = (''ERROR'', [], Some reason)"

definition frame_text :: "string \<Rightarrow> string list \<Rightarrow> string option \<Rightarrow> string" where
  "frame_text c ps t =
     (case t of Some t \<Rightarrow> line_trailing (foldl line_param (line_command line_bare c) ps) t
      | None \<Rightarrow> foldl line_param (line_command line_bare c) ps)"

lemma to_line_shape: "link_shape m = (c, ps, t) \<Longrightarrow> to_line m = line_build (frame_text c ps t)"
  by (cases m) (auto simp: frame_text_def split: option.splits)

fun link_values :: "link_message \<Rightarrow> bool" where
  "link_values (Uid _ _ lamport _ _ _ _ _) = (lamport < 2 ^ 64)"
| "link_values (UserMessage _ _ _ msgid time_ms tags _) =
     (msgid \<noteq> Some ''*'' \<and> tags \<noteq> Some ''*'' \<and> pred_option (\<lambda>t. t < 2 ^ 64) time_ms)"
| "link_values (ChanMessage _ _ _ msgid time_ms tags _) =
     (msgid \<noteq> Some ''*'' \<and> tags \<noteq> Some ''*'' \<and> pred_option (\<lambda>t. t < 2 ^ 64) time_ms)"
| "link_values (Sjoin _ _ _ _ ts) = (ts < 2 ^ 64)"
| "link_values (Stopic _ _ _ set_at _) = (set_at < 2 ^ 64)"
| "link_values (Smode _ _ ts _ _) = (ts < 2 ^ 64)"
| "link_values _ = True"

definition wf_link :: "limits \<Rightarrow> link_message \<Rightarrow> bool" where
  "wf_link l m \<longleftrightarrow>
     (case link_shape m of (c, ps, t) \<Rightarrow>
        list_all wf_middle ps \<and> pred_option (\<lambda>t. utf8_valid t \<and> ctl_free t) t
        \<and> length (frame_text c ps t) \<le> max_body_bytes l)
     \<and> link_values m"

lemma parse_params_middles: "list_all wf_middle ps \<Longrightarrow> parse_params (concat (map (\<lambda>p. SP # p) ps)) = Inr ps"
proof (induction ps)
  case Nil
  show ?case by (simp add: parse_params.simps)
next
  case (Cons p ps)
  then obtain c r where p: "p = c # r" "c \<noteq> CHR '':''" "SP \<notin> set p" "utf8_valid p" "c \<noteq> SP"
    by (cases p) (auto simp: wf_middle_def wf_field_def needs_colon_def)
  define rest where "rest = concat (map (\<lambda>p. SP # p) ps)"
  have "word_end (p @ rest) = length p"
    using p(3) by (cases ps) (simp_all add: rest_def word_end_append word_end_free)
  moreover have "parse_params rest = Inr ps" using Cons by (simp add: rest_def)
  ultimately show ?case using p
    by (simp add: parse_params.simps [of "SP # c # _"] str_field_def flip: rest_def)
qed

lemma verb_alphabetic: "link_shape m = (c, ps, t) \<Longrightarrow> c \<noteq> [] \<and> list_all is_ascii_alphabetic c \<and> map to_ascii_uppercase c = c"
  by (cases m) (auto simp: ascii_class_defs to_ascii_uppercase_def)

lemma parse_frame:
  assumes "wf_link l m" "link_shape m = (c, ps, t)"
  shows "parse (to_line m) l = Inr \<lparr>mtags = [], msource = None, mcommand = Named c, mparams = ps @ (case t of Some t \<Rightarrow> [t] | None \<Rightarrow> [])\<rparr>"
proof -
  define r where "r = concat (map (\<lambda>p. SP # p) ps) @ (case t of Some t \<Rightarrow> SP # CHR '':'' # t | None \<Rightarrow> [])"
  have w: "list_all wf_middle ps" "pred_option (\<lambda>t. utf8_valid t \<and> ctl_free t) t" "length (frame_text c ps t) \<le> max_body_bytes l"
    using assms by (auto simp: wf_link_def)
  have f: "frame_text c ps t = c @ r"
    by (simp add: frame_text_def foldl_line_param line_defs r_def split: option.splits)
  have "ctl_free r"
    using w(1,2) by (auto simp: r_def ctl_free_def list_all_iff wf_middle_def wf_field_def ctl_defs split: option.splits)
  moreover have "r = [] \<or> first_is SP r" by (cases ps; cases t) (simp_all add: r_def)
  moreover have "parse_params r = Inr (ps @ (case t of Some t \<Rightarrow> [t] | None \<Rightarrow> []))"
    using w(1,2) parse_params_trailing [OF w(1)] parse_params_middles [OF w(1)]
    by (cases t) (simp_all add: r_def)
  moreover have "wf_command (Named c)" using verb_alphabetic [OF assms(2)] by (simp add: wf_command_def)
  ultimately show ?thesis
    using parse_body [of None "Named c" r _ l] w(3)
    by (simp add: to_line_shape [OF assms(2)] f line_build_def render_source_def render_command_def)
qed

lemma unstar_unwrap: "v \<noteq> Some ''*'' \<Longrightarrow> unstar (unwrap_star v) = v"
  by (auto simp: unstar_def unwrap_star_def split: option.splits)

lemma star_no_number: "parse_u64 ''*'' = None"
  by (simp add: parse_u64_def all_digits_def is_ascii_digit_def)

lemma parse_u64_time: "pred_option (\<lambda>t. t < 2 ^ 64) v \<Longrightarrow> parse_u64 (unwrap_star (map_option dec v)) = v"
  by (cases v) (simp_all add: unwrap_star_def star_no_number parse_u64_dec)

lemma flags_read:
  "(CHR ''o'' \<in> set (prefix_flags op voice)) = op" "(CHR ''v'' \<in> set (prefix_flags op voice)) = voice"
  by (cases op; cases voice; simp add: prefix_flags_def)+

lemma notice_read: "eq_ignore_ascii_case (if n then ''N'' else ''P'') ''N'' = n"
  by (cases n) (simp_all add: eq_ignore_ascii_case_def to_ascii_lowercase_def is_ascii_upper_def)

lemma from_params_verb:
  "from_params ''PASS'' p =
        do { x0 \<leftarrow> arg p 0; Some (Pass x0) }"
  "from_params ''SERVER'' p =
        do { x0 \<leftarrow> arg p 0; x1 \<leftarrow> arg p 1; x2 \<leftarrow> arg p 2; Some (Server x0 x1 x2) }"
  "from_params ''SSERVER'' p =
        do { x0 \<leftarrow> arg p 0; x1 \<leftarrow> arg p 1; x2 \<leftarrow> arg p 2; x3 \<leftarrow> arg p 3; Some (Sserver x0 x1 x2 x3) }"
  "from_params ''PING'' p =
        do { x0 \<leftarrow> arg p 0; Some (Ping x0) }"
  "from_params ''PONG'' p =
        do { x0 \<leftarrow> arg p 0; Some (Pong x0) }"
  "from_params ''UID'' p =
        do { sid \<leftarrow> arg p 0; uid \<leftarrow> arg p 1; l \<leftarrow> arg p 2; lamport \<leftarrow> parse_u64 l; nick \<leftarrow> arg p 3; user \<leftarrow> arg p 4;
           host \<leftarrow> arg p 5; account \<leftarrow> arg p 6; realname \<leftarrow> arg p 7;
           Some (Uid sid uid lamport nick user host account realname) }"
  "from_params ''NICK'' p =
        do { x0 \<leftarrow> arg p 0; x1 \<leftarrow> arg p 1; Some (Nick x0 x1) }"
  "from_params ''QUIT'' p =
        do { x0 \<leftarrow> arg p 0; x1 \<leftarrow> arg p 1; Some (Quit x0 x1) }"
  "from_params ''SMSG'' p =
        do { (msgid, time_ms, tags, text) \<leftarrow> parse_message_tail p; source \<leftarrow> arg p 0; target \<leftarrow> arg p 1;
           Some (UserMessage source target (is_notice p) msgid time_ms tags text) }"
  "from_params ''SJOIN'' p =
        (let flags = (case arg p 2 of Some f \<Rightarrow> f | None \<Rightarrow> ''-'');
            ts = (case Option.bind (arg p 3) parse_u64 of Some t \<Rightarrow> t | None \<Rightarrow> 0)
        in do { channel \<leftarrow> arg p 0; uid \<leftarrow> arg p 1;
             Some (Sjoin channel uid (CHR ''o'' \<in> set flags) (CHR ''v'' \<in> set flags) ts) })"
  "from_params ''STOPIC'' p =
        do { channel \<leftarrow> arg p 0; source \<leftarrow> arg p 1; set_by \<leftarrow> arg p 2; a \<leftarrow> arg p 3; set_at \<leftarrow> parse_u64 a; text \<leftarrow> arg p 4;
           Some (Stopic channel source set_by set_at text) }"
  "from_params ''SMODE'' p =
        (let (ts, flags_at) = (case Option.bind (arg p 2) parse_u64 of Some ts \<Rightarrow> (ts, 3) | None \<Rightarrow> (0, 2))
        in do { channel \<leftarrow> arg p 0; source \<leftarrow> arg p 1; flags \<leftarrow> arg p flags_at;
             Some (Smode channel source ts flags (drop (flags_at + 1) p)) })"
  "from_params ''SKICK'' p =
        do { x0 \<leftarrow> arg p 0; x1 \<leftarrow> arg p 1; x2 \<leftarrow> arg p 2; x3 \<leftarrow> arg p 3; Some (Skick x0 x1 x2 x3) }"
  "from_params ''SAWAY'' p =
        do { uid \<leftarrow> arg p 0; Some (Saway uid (arg p 1)) }"
  "from_params ''SSETNAME'' p =
        do { x0 \<leftarrow> arg p 0; x1 \<leftarrow> arg p 1; Some (Ssetname x0 x1) }"
  "from_params ''SCHGHOST'' p =
        do { x0 \<leftarrow> arg p 0; x1 \<leftarrow> arg p 1; Some (Schghost x0 x1) }"
  "from_params ''SWALLOPS'' p =
        do { x0 \<leftarrow> arg p 0; x1 \<leftarrow> arg p 1; Some (Swallops x0 x1) }"
  "from_params ''SINVITE'' p =
        do { x0 \<leftarrow> arg p 0; x1 \<leftarrow> arg p 1; x2 \<leftarrow> arg p 2; Some (Sinvite x0 x1 x2) }"
  "from_params ''SBAN'' p =
        do { a \<leftarrow> arg p 0; msk \<leftarrow> arg p 1; set_by \<leftarrow> arg p 2; reason \<leftarrow> arg p 3; Some (Sban (a = ''+'') msk set_by reason) }"
  "from_params ''SACCOUNT'' p =
        do { x0 \<leftarrow> arg p 0; x1 \<leftarrow> arg p 1; Some (Saccount x0 x1) }"
  "from_params ''SPART'' p =
        do { x0 \<leftarrow> arg p 0; x1 \<leftarrow> arg p 1; x2 \<leftarrow> arg p 2; Some (Spart x0 x1 x2) }"
  "from_params ''SCMSG'' p =
        do { (msgid, time_ms, tags, text) \<leftarrow> parse_message_tail p; source \<leftarrow> arg p 0; channel \<leftarrow> arg p 1;
           Some (ChanMessage source channel (is_notice p) msgid time_ms tags text) }"
  "from_params ''SUMODE'' p =
        do { x0 \<leftarrow> arg p 0; x1 \<leftarrow> arg p 1; Some (Sumode x0 x1) }"
  "from_params ''SKNOCK'' p =
        do { x0 \<leftarrow> arg p 0; x1 \<leftarrow> arg p 1; x2 \<leftarrow> arg p 2; Some (Sknock x0 x1 x2) }"
  "from_params ''STAGMSG'' p =
        do { x0 \<leftarrow> arg p 0; x1 \<leftarrow> arg p 1; x2 \<leftarrow> arg p 2; Some (TagMessage x0 x1 x2) }"
  "from_params ''SREDACT'' p =
        do { source \<leftarrow> arg p 0; target \<leftarrow> arg p 1; msgid \<leftarrow> arg p 2;
           Some (Sredact source target msgid (case arg p 3 of Some r \<Rightarrow> r | None \<Rightarrow> [])) }"
  "from_params ''SRENAME'' p =
        do { source \<leftarrow> arg p 0; old \<leftarrow> arg p 1; new \<leftarrow> arg p 2;
           Some (Srename source old new (case arg p 3 of Some r \<Rightarrow> r | None \<Rightarrow> [])) }"
  "from_params ''KILL'' p =
        do { x0 \<leftarrow> arg p 0; x1 \<leftarrow> arg p 1; Some (Kill x0 x1) }"
  "from_params ''SQUIT'' p =
        do { x0 \<leftarrow> arg p 0; x1 \<leftarrow> arg p 1; Some (Squit x0 x1) }"
  "from_params ''ERROR'' p =
        do { x0 \<leftarrow> arg p 0; Some (Error x0) }"
  by (simp_all add: from_params_def Let_def)

lemma arg_Cons [simp]: "arg (x # xs) 0 = Some x" "arg (x # xs) (Suc i) = arg xs i" "arg [] i = None"
  by (simp_all add: arg_def)

lemma arg_Cons_numeral [simp]: "arg (x # xs) (numeral k) = arg xs (pred_numeral k)"
  by (simp add: numeral_eq_Suc)

lemma from_params_shape:
  assumes "link_shape m = (c, ps, t)" "link_values m"
  shows "from_params c (ps @ (case t of Some t \<Rightarrow> [t] | None \<Rightarrow> [])) = Some m"
  using assms
  by (cases m) (auto simp: from_params_verb parse_message_tail_def is_notice_def
      unstar_unwrap parse_u64_time parse_u64_dec flags_read notice_read split: option.splits)

subsection \<open>Properties\<close>

text \<open>C37: every link message survives the wire: a message whose fields are words, whose text has no
  control octets and whose numbers fit 64 bits is written to one line that the parser and the link
  reader take back to the same message, whatever its kind.\<close>

theorem link_message_roundtrip:
  assumes "wf_link l m"
  shows "(case parse (to_line m) l of Inl _ \<Rightarrow> None | Inr msg \<Rightarrow> from_message msg) = Some m"
proof -
  obtain c ps t where sh: "link_shape m = (c, ps, t)" by (metis prod_cases3)
  have "link_values m" using assms by (simp add: wf_link_def)
  then show ?thesis
    using parse_frame [OF assms sh] from_params_shape [OF sh] verb_alphabetic [OF sh]
    by (simp add: from_message_def)
qed

theorem link_message_roundtrip_witness:
  "(case parse (to_line (ChanMessage ''al!a@h'' ''#c'' True (Some ''1-f'') (Some 17) None ''hi all'')) default_limits of
      Inl _ \<Rightarrow> None | Inr msg \<Rightarrow> from_message msg)
   = Some (ChanMessage ''al!a@h'' ''#c'' True (Some ''1-f'') (Some 17) None ''hi all'')"
  by (rule link_message_roundtrip)
    (simp add: wf_link_def frame_text_def line_defs wf_middle_def wf_field_def needs_colon_def ctl_free_def
      ctl_defs utf8_valid_ascii is_ascii_def unwrap_star_def dec.simps digit_chars default_limits_def ircv3_def
      RFC1459_BODY_BYTES_def)

text \<open>C40: a link is authenticated before it is used: the handshake succeeds exactly on a peer that
  first presents the configured token and then announces the expected server name, and reports that
  announcement; a wrong token is refused before the announcement is looked at.\<close>

theorem handshake_authenticates:
  "(handshake token expected input = Inr p \<longleftrightarrow>
     (\<exists>rest. input = Pass token # Server expected (lp_sid p) (lp_description p) # rest) \<and> lp_name p = expected)
   \<and> (handshake token expected input = Inl BadPassword \<longleftrightarrow> (\<exists>t rest. input = Pass t # rest \<and> t \<noteq> token))"
  by (cases p) (auto simp: handshake_def tokens_match_def split: list.splits link_message.splits if_splits)

text \<open>Both ends of a link that share the token accept each other's opening frames.\<close>

theorem handshake_agreement:
  "handshake token name (handshake_sends name sid desc token @ rest)
   = Inr \<lparr>lp_name = name, lp_sid = sid, lp_description = desc\<rparr>"
  by (simp add: handshake_def handshake_sends_def tokens_match_def)

text \<open>The logical clock moves forward: as long as neither value is the last of the 64-bit range,
  observing a peer's time gives a time later than both.\<close>

theorem lamport_monotonic:
  assumes "l \<noteq> - 1" "peer \<noteq> - 1"
  shows "l < fst (lamport_observe peer l) \<and> peer < fst (lamport_observe peer l) \<and> l < fst (lamport_tick l)
    \<and> lamport_now (snd (lamport_observe peer l)) = fst (lamport_observe peer l)"
proof -
  have "x < x + 1" if "x \<noteq> - 1" for x :: "64 word"
    using that inc_less_eq_iff [of x] by (simp add: not_le [symmetric])
  then show ?thesis
    using assms
    by (auto simp: lamport_observe_def lamport_tick_def lamport_now_def Let_def max_def not_le
        intro: le_less_trans less_trans)
qed

theorem lamport_monotonic_witness: "fst (lamport_observe 9 (4 :: 64 word)) = 10 \<and> (9 :: 64 word) < fst (lamport_observe 9 4)"
  using lamport_monotonic [of 4 9] by (simp add: lamport_observe_def max_def)

text \<open>A relayed message can be longer than a link accepts: a channel message of 450 octets, which a
  client may send, becomes a frame whose body is over the budget under which the peer parses link
  lines, so the peer's parse fails and the frame is dropped.\<close>

theorem relayed_message_over_budget:
  "message_parse (to_line (ChanMessage ''alice!~alice@203.0.113.7'' ''#rust'' False (Some ''0AA-0000000000000001'')
      (Some 1700000000000) None (replicate 450 (CHR ''x'')))) = Inl (BodyTooLong 512)
   \<and> length (''PRIVMSG #rust :'' @ replicate 450 (CHR ''x'')) \<le> max_body_bytes default_limits"
proof -
  define f where "f = ''SCMSG alice!~alice@203.0.113.7 #rust P 0AA-0000000000000001 1700000000000 * :'' @ replicate 450 (CHR ''x'')"
  have "to_line (ChanMessage ''alice!~alice@203.0.113.7'' ''#rust'' False (Some ''0AA-0000000000000001'')
      (Some 1700000000000) None (replicate 450 (CHR ''x''))) = f @ [CR, LF]"
    by (simp add: f_def line_defs unwrap_star_def dec.simps digit_chars SP_def)
  moreover have "ctl_free f" by (auto simp: f_def ctl_free_def ctl_defs)
  moreover have "f \<noteq> []" "\<not> first_is (CHR ''@'') f" "length f = 527" by (simp_all add: f_def)
  ultimately show ?thesis
    using strip_line_terminators_crlf [of f]
    by (simp add: message_parse_def parse_def ctl_free_def tags_section_def default_limits_def ircv3_def
        RFC1459_BODY_BYTES_def)
qed

end
