(* ===== verification/Tables.thy ===== *)
theory Tables
  imports Prelude "HOL-Library.AList" "HOL-Library.List_Lexorder" "HOL-Library.Char_ord"
begin

text \<open>
  Hash tables and hash sets. A table (\<open>HashMap\<close>, \<open>DashMap\<close>) is an association list with distinct
  keys whose order is the order an iteration over the table meets the entries in; the source
  leaves that order open, so the theorems hold for every order. A hash set is a distinct list. The
  locale \<open>table\<close> is the contract the components rely on. Byte strings are ordered as the
  source orders \<open>str\<close>: lexicographically by octet.
\<close>

type_synonym ('k, 'v) table = "('k \<times> 'v) list"

abbreviation put :: "'k \<Rightarrow> 'v \<Rightarrow> ('k, 'v) table \<Rightarrow> ('k, 'v) table" where
  "put \<equiv> AList.update"

abbreviation del :: "'k \<Rightarrow> ('k, 'v) table \<Rightarrow> ('k, 'v) table" where
  "del \<equiv> AList.delete"

abbreviation get :: "('k, 'v) table \<Rightarrow> 'k \<Rightarrow> 'v option" where
  "get \<equiv> map_of"

definition keys_of :: "('k, 'v) table \<Rightarrow> 'k list" where
  "keys_of m = map fst m"

definition retain :: "('k \<Rightarrow> 'v \<Rightarrow> bool) \<Rightarrow> ('k, 'v) table \<Rightarrow> ('k, 'v) table" where
  "retain P m = filter (\<lambda>(k, v). P k v) m"

definition adjust :: "'k \<Rightarrow> ('v \<Rightarrow> 'v) \<Rightarrow> ('k, 'v) table \<Rightarrow> ('k, 'v) table" where
  "adjust k f m = map (\<lambda>(k', v). (k', if k' = k then f v else v)) m"

definition map_vals :: "('v \<Rightarrow> 'w) \<Rightarrow> ('k, 'v) table \<Rightarrow> ('k, 'w) table" where
  "map_vals f m = map (\<lambda>(k, v). (k, f v)) m"

definition table_ok :: "('k, 'v) table \<Rightarrow> bool" where
  "table_ok m \<longleftrightarrow> distinct (map fst m)"

named_theorems tbl \<open>lookups in updated tables\<close>

lemma get_put [tbl]: "get (put k v m) k' = (if k' = k then Some v else get m k')"
  by (simp add: update_conv')

lemma get_del [tbl]: "get (del k m) k' = (if k' = k then None else get m k')"
  by (simp add: delete_conv')

lemma get_retain [tbl]:
  "table_ok m \<Longrightarrow> get (retain P m) k = (case get m k of Some v \<Rightarrow> if P k v then Some v else None | None \<Rightarrow> None)"
proof (induction m)
  case (Cons p m)
  then have "get m (fst p) = None" "table_ok m" by (auto simp: table_ok_def map_of_eq_None_iff)
  with Cons show ?case by (cases p) (auto simp: retain_def split: option.splits)
qed (simp add: retain_def)

lemma get_adjust [tbl]: "get (adjust k f m) k' = (if k' = k then map_option f (get m k') else get m k')"
  by (induction m) (auto simp: adjust_def)

lemma get_map_vals [tbl]: "get (map_vals f m) k = map_option f (get m k)"
  by (induction m) (auto simp: map_vals_def)

lemma table_ok_Nil [simp]: "table_ok []"
  by (simp add: table_ok_def)

lemma table_ok_put [simp]: "table_ok m \<Longrightarrow> table_ok (put k v m)"
  by (simp add: table_ok_def distinct_update)

lemma table_ok_del [simp]: "table_ok m \<Longrightarrow> table_ok (del k m)"
  by (simp add: table_ok_def distinct_delete)

lemma table_ok_retain [simp]: "table_ok m \<Longrightarrow> table_ok (retain P m)"
  by (induction m) (auto simp: table_ok_def retain_def)

lemma map_fst_adjust [simp]: "map fst (adjust k f m) = map fst m"
  by (induction m) (auto simp: adjust_def)

lemma map_fst_map_vals [simp]: "map fst (map_vals f m) = map fst m"
  by (induction m) (auto simp: map_vals_def)

lemma table_ok_adjust [simp]: "table_ok (adjust k f m) = table_ok m"
  by (simp add: table_ok_def)

lemma table_ok_map_vals [simp]: "table_ok (map_vals f m) = table_ok m"
  by (simp add: table_ok_def)

lemma get_Some_in: "get m k = Some v \<Longrightarrow> (k, v) \<in> set m"
  by (rule map_of_SomeD)

lemma in_get_Some: "table_ok m \<Longrightarrow> (k, v) \<in> set m \<longleftrightarrow> get m k = Some v"
  by (auto simp: table_ok_def)

lemma length_put: "length (put k v m) = (if get m k = None then Suc (length m) else length m)"
  by (induction m) auto

lemma length_del: "get m k = None \<Longrightarrow> length (del k m) = length m"
  by (simp add: map_of_eq_None_iff)

lemma length_del_less: "get m k \<noteq> None \<Longrightarrow> length (del k m) < length m"
  by (induction m) (auto simp: less_Suc_eq_le length_delete_le)

lemma length_retain_le: "length (retain P m) \<le> length m"
  by (simp add: retain_def)

lemma length_adjust [simp]: "length (adjust k f m) = length m"
  by (simp add: adjust_def)

locale table =
  fixes lookup :: "'m \<Rightarrow> 'k \<Rightarrow> 'v option"
    and insert_kv :: "'k \<Rightarrow> 'v \<Rightarrow> 'm \<Rightarrow> 'm"
    and remove :: "'k \<Rightarrow> 'm \<Rightarrow> 'm"
    and count :: "'m \<Rightarrow> nat"
  assumes lookup_insert: "lookup (insert_kv k v m) k' = (if k' = k then Some v else lookup m k')"
    and lookup_remove: "lookup (remove k m) k' = (if k' = k then None else lookup m k')"
    and count_insert: "count (insert_kv k v m) = (if lookup m k = None then Suc (count m) else count m)"
    and count_remove: "count (remove k m) \<le> count m"
begin

text \<open>Moving an entry to another key (a rename) and removing a batch of keys.\<close>

definition move :: "'k \<Rightarrow> 'k \<Rightarrow> 'm \<Rightarrow> 'm" where
  "move old new m = (case lookup m old of Some v \<Rightarrow> insert_kv new v (remove old m) | None \<Rightarrow> m)"

lemma lookup_move:
  "lookup (move old new m) k =
     (if lookup m old = None then lookup m k
      else if k = new then lookup m old
      else if k = old then None else lookup m k)"
  by (auto simp: move_def lookup_insert lookup_remove split: option.splits)

lemma lookup_remove_all: "lookup (fold remove ks m) k = (if k \<in> set ks then None else lookup m k)"
  by (induction ks arbitrary: m) (auto simp: lookup_remove)

lemma count_remove_all: "count (fold remove ks m) \<le> count m"
  by (induction ks arbitrary: m) (auto intro: order_trans count_remove)

end

interpretation tab: table get put del length
  by unfold_locales (simp_all add: tbl length_put length_delete_le)

subsection \<open>Hash sets\<close>

definition hs_insert :: "'a \<Rightarrow> 'a list \<Rightarrow> 'a list" where
  "hs_insert x xs = (if x \<in> set xs then xs else xs @ [x])"

definition hs_remove :: "'a \<Rightarrow> 'a list \<Rightarrow> 'a list" where
  "hs_remove x xs = filter (\<lambda>y. y \<noteq> x) xs"

lemma set_hs_insert [simp]: "set (hs_insert x xs) = insert x (set xs)"
  by (auto simp: hs_insert_def)

lemma set_hs_remove [simp]: "set (hs_remove x xs) = set xs - {x}"
  by (auto simp: hs_remove_def)

lemma distinct_hs_insert [simp]: "distinct xs \<Longrightarrow> distinct (hs_insert x xs)"
  by (auto simp: hs_insert_def)

lemma distinct_hs_remove [simp]: "distinct xs \<Longrightarrow> distinct (hs_remove x xs)"
  by (auto simp: hs_remove_def)

subsection \<open>Slices\<close>

text \<open>\<open>&v[a..b]\<close>: out of range it panics, here \<open>None\<close>.\<close>

definition slice :: "'a list \<Rightarrow> nat \<Rightarrow> nat \<Rightarrow> 'a list option" where
  "slice xs a b = (if a \<le> b \<and> b \<le> length xs then Some (take (b - a) (drop a xs)) else None)"

definition position :: "('a \<Rightarrow> bool) \<Rightarrow> 'a list \<Rightarrow> nat option" where
  "position P xs = (let i = length (takeWhile (\<lambda>x. \<not> P x) xs) in if i < length xs then Some i else None)"

lemma position_Some: "position P xs = Some i \<Longrightarrow> i < length xs \<and> P (xs ! i) \<and> (\<forall>j < i. \<not> P (xs ! j))"
proof -
  assume "position P xs = Some i"
  then have i: "i = length (takeWhile (\<lambda>x. \<not> P x) xs)" "i < length xs"
    by (auto simp: position_def Let_def split: if_splits)
  have "\<not> P (xs ! j)" if "j < i" for j
    using that i(1) by (metis nth_mem set_takeWhileD takeWhile_nth)
  then show ?thesis using i nth_length_takeWhile [of "\<lambda>x. \<not> P x" xs] by simp
qed

lemma length_takeWhile_less: "length (takeWhile Q xs) < length xs \<longleftrightarrow> (\<exists>x \<in> set xs. \<not> Q x)"
  by (induction xs) auto

lemma position_None: "position P xs = None \<longleftrightarrow> (\<forall>x \<in> set xs. \<not> P x)"
  by (simp add: position_def Let_def length_takeWhile_less)

lemma takeWhile_position:
  "position P xs = Some i \<Longrightarrow> takeWhile (\<lambda>x. \<not> P x) xs = take i xs"
  by (metis position_def option.distinct(1) option.inject takeWhile_eq_take)

text \<open>\<open>partition_point\<close>: a binary search for the end of the prefix that satisfies the predicate.\<close>

function partition_from :: "('a \<Rightarrow> bool) \<Rightarrow> 'a list \<Rightarrow> nat \<Rightarrow> nat \<Rightarrow> nat" where
  "partition_from P xs left right =
     (if left < right then
        (let mid = left + (right - left) div 2
         in if P (xs ! mid) then partition_from P xs (mid + 1) right else partition_from P xs left mid)
      else left)"
  by pat_completeness auto
termination by (relation "measure (\<lambda>(P, xs, left, right). right - left)") auto

declare partition_from.simps [simp del]

definition partition_point :: "('a \<Rightarrow> bool) \<Rightarrow> 'a list \<Rightarrow> nat" where
  "partition_point P xs = partition_from P xs 0 (length xs)"

lemma partition_from_stop: "\<not> left < right \<Longrightarrow> partition_from P xs left right = left"
  by (simp add: partition_from.simps)

lemma partition_from_step:
  "left < right \<Longrightarrow> mid = left + (right - left) div 2 \<Longrightarrow>
   partition_from P xs left right =
     (if P (xs ! mid) then partition_from P xs (mid + 1) right else partition_from P xs left mid)"
  by (subst partition_from.simps) (simp add: Let_def)

lemma partition_from_bounds:
  "left \<le> right \<Longrightarrow> left \<le> partition_from P xs left right \<and> partition_from P xs left right \<le> right"
proof (induction P xs left right rule: partition_from.induct)
  case (1 P xs left right)
  define mid where "mid = left + (right - left) div 2"
  show ?case
  proof (cases "left < right")
    case True
    then have "left \<le> mid" "mid < right" by (auto simp: mid_def)
    then show ?thesis
      using 1(1) [OF True mid_def] 1(2) [OF True mid_def] partition_from_step [OF True mid_def, of P xs]
      by (cases "P (xs ! mid)") simp_all
  qed (use 1 in \<open>simp add: partition_from_stop\<close>)
qed

lemma partition_point_le: "partition_point P xs \<le> length xs"
  using partition_from_bounds [of 0 "length xs" P xs] by (simp add: partition_point_def)

lemma partition_from_correct:
  assumes "\<forall>j < length xs. \<forall>i \<le> j. P (xs ! j) \<longrightarrow> P (xs ! i)"
    and "left \<le> right" "right \<le> length xs"
    and "\<forall>i < left. P (xs ! i)" "\<forall>i. right \<le> i \<longrightarrow> i < length xs \<longrightarrow> \<not> P (xs ! i)"
  shows "(\<forall>i < partition_from P xs left right. P (xs ! i))
    \<and> (\<forall>i. partition_from P xs left right \<le> i \<longrightarrow> i < length xs \<longrightarrow> \<not> P (xs ! i))"
  using assms
proof (induction P xs left right rule: partition_from.induct)
  case (1 P xs left right)
  define mid where "mid = left + (right - left) div 2"
  show ?case
  proof (cases "left < right")
    case True
    then have m: "left \<le> mid" "mid < right" "mid < length xs" using 1(5) by (auto simp: mid_def)
    show ?thesis
    proof (cases "P (xs ! mid)")
      case yes: True
      have "\<forall>i < mid + 1. P (xs ! i)" using yes 1(3) m(3) by (simp add: less_Suc_eq_le)
      moreover have "partition_from P xs left right = partition_from P xs (mid + 1) right"
        using yes partition_from_step [OF True mid_def] by metis
      moreover have "mid + 1 \<le> right" using m by simp
      ultimately show ?thesis using 1(1) [OF True mid_def yes 1(3) _ 1(5) _ 1(7)] by metis
    next
      case no: False
      have "\<forall>i. mid \<le> i \<longrightarrow> i < length xs \<longrightarrow> \<not> P (xs ! i)" using no 1(3) by blast
      moreover have "partition_from P xs left right = partition_from P xs left mid"
        using no partition_from_step [OF True mid_def] by metis
      moreover have "mid \<le> length xs" using m by simp
      ultimately show ?thesis using 1(2) [OF True mid_def no 1(3) m(1) _ 1(6)] by metis
    qed
  next
    case False
    then show ?thesis using 1(4,6,7) by (simp add: partition_from_stop)
  qed
qed

end
