(* ===== verification/History.thy ===== *)
theory History
  imports Tables Casemap "HOL-Library.Sublist"
begin

text \<open>
  Message history (\<open>ferrixd/src/history.rs\<close>): a bounded ring per target, the message ids, the
  queries of \<open>CHATHISTORY\<close> and the queue of durable operations. The persistence sink is the list
  of operations handed to it (the writer behind it is a separate task). Queries that slice return
  \<open>None\<close> where the slice would panic.
\<close>

subsection \<open>Data\<close>

datatype message_kind = PrivMsg | Notice | Join | Part | Quit | Nick | Topic | Kick | Mode

fun kind_command :: "message_kind \<Rightarrow> string" where
  "kind_command PrivMsg = ''PRIVMSG''"
| "kind_command Notice = ''NOTICE''"
| "kind_command Join = ''JOIN''"
| "kind_command Part = ''PART''"
| "kind_command Quit = ''QUIT''"
| "kind_command Nick = ''NICK''"
| "kind_command Topic = ''TOPIC''"
| "kind_command Kick = ''KICK''"
| "kind_command Mode = ''MODE''"

definition is_message :: "message_kind \<Rightarrow> bool" where
  "is_message k \<longleftrightarrow> k = PrivMsg \<or> k = Notice"

record stored_message =
  sm_msgid :: string
  sm_time_ms :: nat
  sm_source :: string
  sm_account :: "string option"
  sm_kind :: message_kind
  sm_target :: string
  sm_text :: string

datatype persist_op =
    Store string stored_message
  | Delete string string
  | Rename string string

datatype selector = Latest | Timestamp nat | MsgId string

definition pair_key :: "string \<Rightarrow> string \<Rightarrow> string" where
  "pair_key a b = (let (lo, hi) = (if a \<le> b then (a, b) else (b, a)) in ''@dm'' @ NUL # lo @ NUL # hi)"

definition pair_parties :: "string \<Rightarrow> (string \<times> string) option" where
  "pair_parties folded_key =
     Option.bind (strip_prefix (''@dm'' @ [NUL]) folded_key) (\<lambda>rest.
       case memchr NUL rest of None \<Rightarrow> None | Some i \<Rightarrow> Some (take i rest, drop (Suc i) rest))"

record history =
  max_per_target :: nat
  max_targets :: nat
  hist_log :: "(string, stored_message list) table"
  hist_next_id :: nat
  msgid_prefix :: "string option"
  persist :: "persist_op list option"

subsection \<open>Operations\<close>

definition history_new :: "nat \<Rightarrow> nat \<Rightarrow> history" where
  "history_new per targets =
     \<lparr> max_per_target = max per 1, max_targets = max targets 1, hist_log = [], hist_next_id = 1,
       msgid_prefix = None, persist = None \<rparr>"

definition set_msgid_prefix :: "string \<Rightarrow> history \<Rightarrow> history" where
  "set_msgid_prefix sid h =
     (case msgid_prefix h of None \<Rightarrow> h\<lparr>msgid_prefix := Some (sid @ ''-'')\<rparr> | Some _ \<Rightarrow> h)"

definition attach_persistence :: "history \<Rightarrow> history" where
  "attach_persistence h = (case persist h of None \<Rightarrow> h\<lparr>persist := Some []\<rparr> | Some _ \<Rightarrow> h)"

definition sink_send :: "persist_op \<Rightarrow> history \<Rightarrow> history" where
  "sink_send p h = h\<lparr>persist := map_option (\<lambda>q. q @ [p]) (persist h)\<rparr>"

definition seed_next_id :: "nat \<Rightarrow> history \<Rightarrow> history" where
  "seed_next_id n h = h\<lparr>hist_next_id := max n 1\<rparr>"

definition next_msgid :: "history \<Rightarrow> string \<times> history" where
  "next_msgid h =
     ((case msgid_prefix h of None \<Rightarrow> [] | Some p \<Rightarrow> p) @ pad0 16 (hex (hist_next_id h)),
      h\<lparr>hist_next_id := (hist_next_id h + 1) mod 2 ^ 64\<rparr>)"

definition last_time :: "stored_message list \<Rightarrow> nat" where
  "last_time ring = (if ring = [] then 0 else sm_time_ms (last ring))"

definition evict_oldest :: "history \<Rightarrow> history" where
  "evict_oldest h =
     (let batch = max (max_targets h div 32) 1;
          by_age = sort_key snd (map (\<lambda>(k, ring). (k, last_time ring)) (hist_log h))
      in h\<lparr>hist_log := fold (\<lambda>(k, _). del k) (take batch by_age) (hist_log h)\<rparr>)"

fun trim_ring :: "nat \<Rightarrow> 'a list \<Rightarrow> 'a list" where
  "trim_ring cap [] = []"
| "trim_ring cap (m # ring) = (if cap < length (m # ring) then trim_ring cap ring else m # ring)"

definition hist_push :: "string \<Rightarrow> stored_message \<Rightarrow> history \<Rightarrow> history" where
  "hist_push folded_target message h0 =
     (let h = (if max_targets h0 \<le> length (hist_log h0) \<and> get (hist_log h0) folded_target = None
               then evict_oldest h0 else h0);
          ring = (case get (hist_log h) folded_target of Some r \<Rightarrow> r | None \<Rightarrow> [])
      in h\<lparr>hist_log := put folded_target (trim_ring (max_per_target h) (ring @ [message])) (hist_log h)\<rparr>)"

definition hist_load :: "string \<Rightarrow> stored_message \<Rightarrow> history \<Rightarrow> history" where
  "hist_load folded_target message h = hist_push folded_target message h"

definition hist_record :: "string \<Rightarrow> stored_message \<Rightarrow> history \<Rightarrow> history" where
  "hist_record folded_target message h =
     sink_send (Store folded_target message) (hist_push folded_target message h)"

definition hist_find :: "history \<Rightarrow> string \<Rightarrow> string \<Rightarrow> stored_message option" where
  "hist_find h folded_target msgid =
     Option.bind (get (hist_log h) folded_target) (find (\<lambda>m. sm_msgid m = msgid))"

definition redact :: "string \<Rightarrow> string \<Rightarrow> history \<Rightarrow> stored_message option \<times> history" where
  "redact folded_target msgid h =
     (case get (hist_log h) folded_target of
        None \<Rightarrow> (None, h)
      | Some ring \<Rightarrow>
          (case position (\<lambda>m. sm_msgid m = msgid) ring of
             None \<Rightarrow> (None, h)
           | Some i \<Rightarrow>
               (Some (ring ! i),
                sink_send (Delete folded_target msgid)
                  (h\<lparr>hist_log := put folded_target (take i ring @ drop (Suc i) ring) (hist_log h)\<rparr>))))"

definition rename_target :: "string \<Rightarrow> string \<Rightarrow> history \<Rightarrow> history" where
  "rename_target old_folded new_folded h =
     sink_send (Rename old_folded new_folded)
       (case get (hist_log h) old_folded of
          Some ring \<Rightarrow> h\<lparr>hist_log := put new_folded ring (del old_folded (hist_log h))\<rparr>
        | None \<Rightarrow> h)"

definition forget :: "string \<Rightarrow> history \<Rightarrow> history" where
  "forget folded_target h = h\<lparr>hist_log := del folded_target (hist_log h)\<rparr>"

definition target_count :: "history \<Rightarrow> nat" where
  "target_count h = length (hist_log h)"

subsection \<open>Queries\<close>

definition snapshot :: "history \<Rightarrow> string \<Rightarrow> bool \<Rightarrow> stored_message list" where
  "snapshot h folded_target include_events =
     (case get (hist_log h) folded_target of
        Some ring \<Rightarrow> filter (\<lambda>m. include_events \<or> is_message (sm_kind m)) ring
      | None \<Rightarrow> [])"

fun resolve_index :: "stored_message list \<Rightarrow> selector \<Rightarrow> nat option" where
  "resolve_index msgs Latest = Some (length msgs - 1)"
| "resolve_index msgs (Timestamp ts) = Some (partition_point (\<lambda>m. sm_time_ms m < ts) msgs)"
| "resolve_index msgs (MsgId i) = position (\<lambda>m. sm_msgid m = i) msgs"

fun selector_time :: "selector \<Rightarrow> nat option" where
  "selector_time (Timestamp ts) = Some ts"
| "selector_time _ = None"

fun filter_before :: "stored_message list \<Rightarrow> selector \<Rightarrow> stored_message list option" where
  "filter_before msgs Latest = Some msgs"
| "filter_before msgs (Timestamp ts) = Some (filter (\<lambda>m. sm_time_ms m < ts) msgs)"
| "filter_before msgs (MsgId i) =
     (case position (\<lambda>m. sm_msgid m = i) msgs of
        Some n \<Rightarrow> slice msgs 0 n | None \<Rightarrow> Some [])"

fun filter_after :: "stored_message list \<Rightarrow> selector \<Rightarrow> stored_message list option" where
  "filter_after msgs Latest = Some msgs"
| "filter_after msgs (Timestamp ts) = Some (filter (\<lambda>m. ts < sm_time_ms m) msgs)"
| "filter_after msgs (MsgId i) =
     (case position (\<lambda>m. sm_msgid m = i) msgs of
        Some n \<Rightarrow> slice msgs (n + 1) (length msgs) | None \<Rightarrow> Some [])"

definition take_last :: "'a list \<Rightarrow> nat \<Rightarrow> 'a list" where
  "take_last v limit = (if limit < length v then drop (length v - limit) v else v)"

definition take_first :: "'a list \<Rightarrow> nat \<Rightarrow> 'a list" where
  "take_first v limit = take limit v"

definition latest :: "history \<Rightarrow> string \<Rightarrow> selector \<Rightarrow> nat \<Rightarrow> bool \<Rightarrow> stored_message list option" where
  "latest h t after_sel limit ev =
     map_option (\<lambda>v. take_last v limit) (filter_after (snapshot h t ev) after_sel)"

definition before :: "history \<Rightarrow> string \<Rightarrow> selector \<Rightarrow> nat \<Rightarrow> bool \<Rightarrow> stored_message list option" where
  "before h t point limit ev =
     map_option (\<lambda>v. take_last v limit) (filter_before (snapshot h t ev) point)"

definition after :: "history \<Rightarrow> string \<Rightarrow> selector \<Rightarrow> nat \<Rightarrow> bool \<Rightarrow> stored_message list option" where
  "after h t point limit ev =
     map_option (\<lambda>v. take_first v limit) (filter_after (snapshot h t ev) point)"

definition around :: "history \<Rightarrow> string \<Rightarrow> selector \<Rightarrow> nat \<Rightarrow> bool \<Rightarrow> stored_message list option" where
  "around h t point limit ev =
     (let msgs = snapshot h t ev
      in case resolve_index msgs point of
           None \<Rightarrow> Some []
         | Some anchor \<Rightarrow>
             (let half = limit div 2; start = anchor - half; fin = min (anchor + (half + 1)) (length msgs)
              in map_option (\<lambda>v. take_first v limit) (slice msgs start fin)))"

definition between :: "history \<Rightarrow> string \<Rightarrow> selector \<Rightarrow> selector \<Rightarrow> nat \<Rightarrow> bool \<Rightarrow> stored_message list option" where
  "between h t a b limit ev =
     (let msgs = snapshot h t ev
      in case (resolve_index msgs a, resolve_index msgs b) of
           (Some ia, Some ib) \<Rightarrow>
             (let lo = min ia ib; hi = max ia ib;
                  start = min (lo + 1) (length msgs); fin = min hi (length msgs)
              in if fin \<le> start then Some []
                 else map_option (\<lambda>v. take_first v limit) (slice msgs start fin))
         | _ \<Rightarrow> Some [])"

definition targets :: "history \<Rightarrow> selector \<Rightarrow> selector \<Rightarrow> nat \<Rightarrow> (string \<times> nat) list" where
  "targets h after_sel before_sel limit =
     (let lo0 = (case selector_time after_sel of Some t \<Rightarrow> t | None \<Rightarrow> 0);
          hi0 = (case selector_time before_sel of Some t \<Rightarrow> t | None \<Rightarrow> 2 ^ 64 - 1);
          lo = min lo0 hi0; hi = max lo0 hi0;
          out = List.map_filter (\<lambda>(k, ring).
            map_option (\<lambda>m. (k, sm_time_ms m))
              (find (\<lambda>m. lo \<le> sm_time_ms m \<and> sm_time_ms m \<le> hi \<and> is_message (sm_kind m)) (rev ring)))
            (hist_log h)
      in take limit (rev (sort_key snd (rev out))))"

subsection \<open>Message ids\<close>

definition hex_digit_value :: "char \<Rightarrow> nat" where
  "hex_digit_value c = (if octet c < 58 then octet c - 48 else octet c - 87)"

definition hex_value :: "string \<Rightarrow> nat" where
  "hex_value s = foldl (\<lambda>a c. 16 * a + hex_digit_value c) 0 s"

lemma hex_digit_value: "d < 16 \<Longrightarrow> hex_digit_value (hexdigit d) = d"
  by (auto simp: hex_digit_value_def hexdigit_def)

lemma hex_value_hex [simp]: "hex_value (hex n) = n"
proof (induction n rule: hex.induct)
  case (1 n)
  then show ?case
    by (subst hex.simps) (auto simp: hex_value_def hex_digit_value)
qed

lemma hex_value_pad0 [simp]: "hex_value (pad0 w s) = hex_value s"
proof -
  have "foldl (\<lambda>a c. 16 * a + hex_digit_value c) 0 (replicate k (CHR ''0'')) = 0" for k
    by (induction k) (auto simp: hex_digit_value_def)
  then show ?thesis by (simp add: pad0_def hex_value_def)
qed

fun mint :: "nat \<Rightarrow> history \<Rightarrow> string list \<times> history" where
  "mint 0 h = ([], h)"
| "mint (Suc n) h = (let (i, h1) = next_msgid h; (is, h2) = mint n h1 in (i # is, h2))"

lemma mint_ids:
  "fst (mint n h) =
     map (\<lambda>k. (case msgid_prefix h of None \<Rightarrow> [] | Some p \<Rightarrow> p) @ pad0 16 (hex ((hist_next_id h + k) mod 2 ^ 64)))
       [0..<n]" if "hist_next_id h < 2 ^ 64"
  using that
proof (induction n arbitrary: h)
  case (Suc n)
  define h1 where "h1 = snd (next_msgid h)"
  have h1: "msgid_prefix h1 = msgid_prefix h" "hist_next_id h1 = (hist_next_id h + 1) mod 2 ^ 64"
    by (simp_all add: h1_def next_msgid_def)
  have "fst (mint (Suc n) h) = fst (next_msgid h) # fst (mint n h1)"
    by (simp add: h1_def Let_def split: prod.splits)
  also have "fst (mint n h1) =
      map (\<lambda>k. (case msgid_prefix h of None \<Rightarrow> [] | Some p \<Rightarrow> p) @ pad0 16 (hex ((hist_next_id h + Suc k) mod 2 ^ 64))) [0..<n]"
    using Suc.IH [of h1] by (simp add: h1 mod_simps)
  finally show ?case
    using Suc.prems by (simp add: next_msgid_def map_upt_Suc del: upt_Suc)
qed simp

lemma mod_add_inj_le: "i \<le> j \<Longrightarrow> j < M \<Longrightarrow> (a + i) mod M = (a + j) mod M \<Longrightarrow> i = (j::nat)"
  using mod_eq_dvd_iff_nat [of "a + i" "a + j" M] by (auto dest!: dvd_imp_le)

lemma mod_add_inj: "i < M \<Longrightarrow> j < M \<Longrightarrow> (a + i) mod M = (a + j) mod M \<Longrightarrow> i = (j::nat)"
  using mod_add_inj_le [of i j M a] mod_add_inj_le [of j i M a] by (metis nat_le_linear)

lemma mint_distinct:
  assumes "hist_next_id h < 2 ^ 64" "n \<le> 2 ^ 64"
  shows "distinct (fst (mint n h))"
proof -
  have "inj_on (\<lambda>k. (case msgid_prefix h of None \<Rightarrow> [] | Some p \<Rightarrow> p) @ pad0 16 (hex ((hist_next_id h + k) mod 2 ^ 64))) {0..<n}"
  proof (rule inj_onI)
    fix i j assume ij: "i \<in> {0..<n}" "j \<in> {0..<n}"
      and e: "(case msgid_prefix h of None \<Rightarrow> [] | Some p \<Rightarrow> p) @ pad0 16 (hex ((hist_next_id h + i) mod 2 ^ 64))
        = (case msgid_prefix h of None \<Rightarrow> [] | Some p \<Rightarrow> p) @ pad0 16 (hex ((hist_next_id h + j) mod 2 ^ 64))"
    then have "(hist_next_id h + i) mod 2 ^ 64 = (hist_next_id h + j) mod 2 ^ 64"
      by (metis same_append_eq hex_value_pad0 hex_value_hex)
    moreover have "i < 2 ^ 64" "j < 2 ^ 64" using ij assms(2) by (auto intro: less_le_trans)
    ultimately show "i = j" using mod_add_inj by blast
  qed
  then show ?thesis unfolding mint_ids [OF assms(1)] by (simp add: distinct_map)
qed

subsection \<open>Rings and their bounds\<close>

lemma trim_ring_drop: "trim_ring cap ring = drop (length ring - cap) ring"
proof (induction ring)
  case (Cons m ring)
  then show ?case by (cases "length ring - cap") (auto simp: Suc_diff_le not_less)
qed simp

definition hist_inv :: "nat \<Rightarrow> nat \<Rightarrow> history \<Rightarrow> bool" where
  "hist_inv per tgt h \<longleftrightarrow>
     max_per_target h = max per 1 \<and> max_targets h = max tgt 1 \<and> table_ok (hist_log h)
     \<and> length (hist_log h) \<le> max_targets h
     \<and> (\<forall>k ring. get (hist_log h) k = Some ring \<longrightarrow> length ring \<le> max_per_target h)"

lemma fold_del_keys: "fold (\<lambda>(k, _). del k) xs m = fold del (map fst xs) m"
  by (induction xs arbitrary: m) auto

lemma evict_fields [simp]:
  "max_per_target (evict_oldest h) = max_per_target h" "max_targets (evict_oldest h) = max_targets h"
  "persist (evict_oldest h) = persist h" "msgid_prefix (evict_oldest h) = msgid_prefix h"
  "hist_next_id (evict_oldest h) = hist_next_id h"
  by (simp_all add: evict_oldest_def Let_def)

lemma table_ok_fold_del: "table_ok m \<Longrightarrow> table_ok (fold del ks m)"
  by (induction ks arbitrary: m) auto

definition by_age :: "history \<Rightarrow> (string \<times> nat) list" where
  "by_age h = sort_key snd (map (\<lambda>(k, ring). (k, last_time ring)) (hist_log h))"

lemma hist_log_evict:
  "hist_log (evict_oldest h) = fold del (map fst (take (max (max_targets h div 32) 1) (by_age h))) (hist_log h)"
  by (simp add: evict_oldest_def by_age_def Let_def fold_del_keys)

lemma set_by_age: "set (by_age h) = (\<lambda>(k, ring). (k, last_time ring)) ` set (hist_log h)"
  by (simp add: by_age_def)

lemma evict_length: "hist_log h \<noteq> [] \<Longrightarrow> length (hist_log (evict_oldest h)) < length (hist_log h)"
proof -
  assume ne: "hist_log h \<noteq> []"
  then have "by_age h \<noteq> []" using set_by_age [of h] by (metis image_is_empty set_empty)
  then obtain p ps where p: "by_age h = p # ps" by (cases "by_age h") auto
  obtain b where b: "max (max_targets h div 32) 1 = Suc b" by (cases "max (max_targets h div 32) 1") auto
  have "get (hist_log h) (fst p) \<noteq> None"
  proof -
    have "p \<in> set (by_age h)" using p by simp
    then obtain k ring where "(k, ring) \<in> set (hist_log h)" "fst p = k" by (auto simp: set_by_age)
    then show ?thesis using weak_map_of_SomeI by fastforce
  qed
  then have "length (del (fst p) (hist_log h)) < length (hist_log h)" by (rule length_del_less)
  moreover have "length (fold del ks (del (fst p) (hist_log h))) \<le> length (del (fst p) (hist_log h))" for ks
    by (rule tab.count_remove_all)
  ultimately have "length (fold del (map fst (take b ps)) (del (fst p) (hist_log h))) < length (hist_log h)"
    using order.strict_trans1 by blast
  then show ?thesis unfolding hist_log_evict p b by simp
qed

lemma evict_inv: "hist_inv per tgt h \<Longrightarrow> hist_inv per tgt (evict_oldest h)"
  using tab.count_remove_all [of "map fst (take (max (max_targets h div 32) 1) (by_age h))" "hist_log h"]
  by (auto simp: hist_inv_def hist_log_evict table_ok_fold_del tab.lookup_remove_all split: if_splits)

lemma push_inv:
  assumes "hist_inv per tgt h"
  shows "hist_inv per tgt (hist_push t m h)"
proof -
  define h1 where "h1 = (if max_targets h \<le> length (hist_log h) \<and> get (hist_log h) t = None then evict_oldest h else h)"
  have i: "hist_inv per tgt h1" using assms by (simp add: h1_def evict_inv)
  have "length (hist_log h1) < max_targets h1 \<or> get (hist_log h1) t \<noteq> None"
  proof (cases "max_targets h \<le> length (hist_log h) \<and> get (hist_log h) t = None")
    case True
    have "0 < max_targets h" using assms by (simp add: hist_inv_def)
    then have "hist_log h \<noteq> []" using True by (metis le_zero_eq list.size(3) not_gr_zero)
    then show ?thesis using True assms evict_length [of h] by (auto simp: h1_def hist_inv_def)
  next
    case False
    then show ?thesis by (auto simp: h1_def)
  qed
  moreover have "hist_push t m h =
      h1\<lparr>hist_log := put t (trim_ring (max_per_target h1) ((case get (hist_log h1) t of Some r \<Rightarrow> r | None \<Rightarrow> []) @ [m])) (hist_log h1)\<rparr>"
    by (simp add: hist_push_def h1_def Let_def)
  ultimately show ?thesis
    using i by (auto simp: hist_inv_def tbl length_put trim_ring_drop)
qed

lemma sink_send_fields [simp]:
  "hist_log (sink_send p h) = hist_log h" "max_per_target (sink_send p h) = max_per_target h"
  "max_targets (sink_send p h) = max_targets h" "hist_next_id (sink_send p h) = hist_next_id h"
  "msgid_prefix (sink_send p h) = msgid_prefix h"
  by (simp_all add: sink_send_def)

lemma sink_send_inv [simp]: "hist_inv per tgt (sink_send p h) = hist_inv per tgt h"
  by (simp add: hist_inv_def)

lemma redact_inv: "hist_inv per tgt h \<Longrightarrow> hist_inv per tgt (snd (redact t i h))"
  by (auto simp: redact_def hist_inv_def tbl length_put split: option.splits)
    (fastforce dest!: position_Some)

lemma rename_target_log:
  "hist_log (rename_target old new h) = tab.move old new (hist_log h)"
  by (simp add: rename_target_def tab.move_def split: option.splits)

lemma rename_inv: "hist_inv per tgt h \<Longrightarrow> hist_inv per tgt (rename_target old new h)"
proof -
  assume i: "hist_inv per tgt h"
  have "length (tab.move old new (hist_log h)) \<le> length (hist_log h)"
    using length_del_less [of "hist_log h" old] length_delete_le [of old "hist_log h"]
    by (auto simp: tab.move_def length_put split: option.splits)
  moreover have "table_ok (tab.move old new (hist_log h))"
    using i by (simp add: hist_inv_def tab.move_def split: option.splits)
  moreover have "max_per_target (rename_target old new h) = max_per_target h"
    "max_targets (rename_target old new h) = max_targets h"
    by (simp_all add: rename_target_def split: option.splits)
  ultimately show ?thesis using i
    by (auto simp: hist_inv_def rename_target_log tab.lookup_move split: if_splits)
qed

inductive hist_reach :: "nat \<Rightarrow> nat \<Rightarrow> history \<Rightarrow> bool" for per tgt where
  new: "hist_reach per tgt (history_new per tgt)"
| prefix: "hist_reach per tgt h \<Longrightarrow> hist_reach per tgt (set_msgid_prefix sid h)"
| attach: "hist_reach per tgt h \<Longrightarrow> hist_reach per tgt (attach_persistence h)"
| seed: "hist_reach per tgt h \<Longrightarrow> hist_reach per tgt (seed_next_id n h)"
| mint: "hist_reach per tgt h \<Longrightarrow> hist_reach per tgt (snd (next_msgid h))"
| load: "hist_reach per tgt h \<Longrightarrow> hist_reach per tgt (hist_load t m h)"
| recorded: "hist_reach per tgt h \<Longrightarrow> hist_reach per tgt (hist_record t m h)"
| redact: "hist_reach per tgt h \<Longrightarrow> hist_reach per tgt (snd (redact t i h))"
| rename: "hist_reach per tgt h \<Longrightarrow> hist_reach per tgt (rename_target old new h)"
| forget: "hist_reach per tgt h \<Longrightarrow> hist_reach per tgt (forget t h)"

lemma inv_same_log:
  "hist_inv per tgt h \<Longrightarrow> hist_log h' = hist_log h \<Longrightarrow> max_per_target h' = max_per_target h \<Longrightarrow>
   max_targets h' = max_targets h \<Longrightarrow> hist_inv per tgt h'"
  unfolding hist_inv_def by metis

lemma hist_reach_inv: "hist_reach per tgt h \<Longrightarrow> hist_inv per tgt h"
proof (induction rule: hist_reach.induct)
  case new
  show ?case by (simp add: hist_inv_def history_new_def)
next
  case (forget h t)
  then show ?case using length_delete_le [of t "hist_log h"]
    by (auto simp: forget_def hist_inv_def tbl split: if_splits)
qed (auto simp: hist_load_def hist_record_def push_inv redact_inv rename_inv set_msgid_prefix_def
    attach_persistence_def seed_next_id_def next_msgid_def elim!: inv_same_log split: option.splits)

subsection \<open>Queries\<close>

lemma subseq_take_last: "subseq (take_last v n) v"
  by (simp add: take_last_def suffix_imp_subseq suffix_drop)

lemma subseq_take_first: "subseq (take_first v n) v"
  by (simp add: take_first_def prefix_imp_subseq take_is_prefix)

lemma length_take_last: "length (take_last v n) \<le> n"
  by (simp add: take_last_def)

lemma slice_Some: "a \<le> b \<Longrightarrow> b \<le> length xs \<Longrightarrow> \<exists>v. slice xs a b = Some v"
  by (simp add: slice_def)

lemma slice_subseq: "slice xs a b = Some v \<Longrightarrow> subseq v xs"
proof -
  assume "slice xs a b = Some v"
  then have "v = take (b - a) (drop a xs)" by (simp add: slice_def split: if_splits)
  moreover have "subseq (take (b - a) (drop a xs)) (drop a xs)" by (simp add: prefix_imp_subseq take_is_prefix)
  moreover have "subseq (drop a xs) xs" by (simp add: suffix_imp_subseq suffix_drop)
  ultimately show ?thesis using subseq_order.order_trans by blast
qed

lemma filter_after_ok: "\<exists>v. filter_after msgs p = Some v \<and> subseq v msgs"
proof (cases p)
  case (MsgId i)
  show ?thesis
  proof (cases "position (\<lambda>m. sm_msgid m = i) msgs")
    case (Some n)
    then have "n + 1 \<le> length msgs" using position_Some [OF Some] by simp
    then obtain v where "slice msgs (n + 1) (length msgs) = Some v" by (simp add: slice_def)
    then show ?thesis using Some MsgId slice_subseq by auto
  qed (simp add: MsgId)
qed auto

lemma filter_before_ok: "\<exists>v. filter_before msgs p = Some v \<and> subseq v msgs"
proof (cases p)
  case (MsgId i)
  show ?thesis
  proof (cases "position (\<lambda>m. sm_msgid m = i) msgs")
    case (Some n)
    then have "n \<le> length msgs" using position_Some [OF Some] by simp
    then obtain v where "slice msgs 0 n = Some v" by (simp add: slice_def)
    then show ?thesis using Some MsgId slice_subseq by auto
  qed (simp add: MsgId)
qed auto

lemma resolve_index_le: "resolve_index msgs p = Some n \<Longrightarrow> n \<le> length msgs"
  by (cases p) (auto simp: partition_point_le dest: position_Some)

definition bounded_answer :: "stored_message list \<Rightarrow> nat \<Rightarrow> stored_message list option \<Rightarrow> bool" where
  "bounded_answer msgs limit r = (case r of None \<Rightarrow> False | Some v \<Rightarrow> length v \<le> limit \<and> subseq v msgs)"

lemma bounded_take_first:
  "slice msgs a b = Some v \<Longrightarrow> bounded_answer msgs limit (Some (take_first v limit))"
  using slice_subseq [of msgs a b v] subseq_take_first [of v limit]
  by (auto simp: bounded_answer_def take_first_def intro: subseq_order.order_trans)

lemma around_ok: "bounded_answer (snapshot h t ev) limit (around h t p limit ev)"
proof (cases "resolve_index (snapshot h t ev) p")
  case (Some anchor)
  define msgs where "msgs = snapshot h t ev"
  have "anchor \<le> length msgs" using Some resolve_index_le by (simp add: msgs_def)
  then have "anchor - limit div 2 \<le> min (anchor + (limit div 2 + 1)) (length msgs)" by linarith
  then obtain v where "slice msgs (anchor - limit div 2) (min (anchor + (limit div 2 + 1)) (length msgs)) = Some v"
    using slice_Some [of "anchor - limit div 2" _ msgs] min.cobounded2 by blast
  then show ?thesis
    using Some bounded_take_first [of msgs] by (simp add: around_def Let_def flip: msgs_def)
qed (simp add: around_def bounded_answer_def)

lemma between_ok: "bounded_answer (snapshot h t ev) limit (between h t a b limit ev)"
proof -
  define msgs where "msgs = snapshot h t ev"
  show ?thesis
  proof (cases "resolve_index msgs a"; cases "resolve_index msgs b")
    fix ia ib assume r: "resolve_index msgs a = Some ia" "resolve_index msgs b = Some ib"
    define start fin where "start = min (min ia ib + 1) (length msgs)" and "fin = min (max ia ib) (length msgs)"
    have eq: "between h t a b limit ev =
        (if fin \<le> start then Some [] else map_option (\<lambda>v. take_first v limit) (slice msgs start fin))"
      using r unfolding between_def Let_def msgs_def [symmetric] start_def fin_def by simp
    show ?thesis
    proof (cases "fin \<le> start")
      case False
      moreover have "fin \<le> length msgs" by (simp add: fin_def)
      ultimately obtain v where "slice msgs start fin = Some v"
        using slice_Some [of start fin msgs] by (meson linear)
      then show ?thesis
        using False bounded_take_first [of msgs start fin v] by (simp add: eq msgs_def)
    qed (simp add: eq bounded_answer_def)
  qed (simp_all add: between_def Let_def bounded_answer_def flip: msgs_def)
qed

lemma push_ring:
  assumes "hist_inv per tgt h"
  shows "\<exists>old. get (hist_log (hist_push t m h)) t = Some (old @ [m])
    \<and> (\<exists>dropped. dropped @ old = (case get (hist_log h) t of Some r \<Rightarrow> r | None \<Rightarrow> []))"
proof -
  define h1 where "h1 = (if max_targets h \<le> length (hist_log h) \<and> get (hist_log h) t = None then evict_oldest h else h)"
  define r where "r = (case get (hist_log h) t of Some r \<Rightarrow> r | None \<Rightarrow> [])"
  have g: "get (hist_log h1) t = get (hist_log h) t"
    by (simp add: h1_def hist_log_evict tab.lookup_remove_all)
  have p: "0 < max_per_target h1" using assms by (auto simp: h1_def hist_inv_def less_max_iff_disj)
  have "get (hist_log (hist_push t m h)) t = Some (trim_ring (max_per_target h1) (r @ [m]))"
    by (simp add: hist_push_def Let_def tbl g r_def flip: h1_def)
  moreover have "trim_ring (max_per_target h1) (r @ [m]) = drop (Suc (length r) - max_per_target h1) r @ [m]"
    using p by (auto simp: trim_ring_drop not_less)
  ultimately show ?thesis
    by (metis append_take_drop_id r_def)
qed

subsection \<open>Properties\<close>

text \<open>C39: history is bounded in memory whatever is recorded, loaded, redacted, renamed or forgotten, one operation after
  the other: never more targets than configured and never more messages per target than configured (each at least one). The
  code lets recordings of new targets run side by side, which may overshoot the number of targets for a moment; that is not
  in the model, where an operation is one step.\<close>

theorem history_bounded:
  assumes "hist_reach per tgt h"
  shows "target_count h \<le> max tgt 1 \<and> list_all (\<lambda>(t, ring). length ring \<le> max per 1) (hist_log h)"
proof -
  have "hist_inv per tgt h" by (rule hist_reach_inv [OF assms])
  then have "length (hist_log h) \<le> max tgt 1" "table_ok (hist_log h)"
    "\<And>k ring. get (hist_log h) k = Some ring \<Longrightarrow> length ring \<le> max per 1"
    by (auto simp: hist_inv_def)
  then show ?thesis by (auto simp: target_count_def list_all_iff in_get_Some)
qed

definition sample_message :: "string \<Rightarrow> nat \<Rightarrow> stored_message" where
  "sample_message i t = \<lparr> sm_msgid = i, sm_time_ms = t, sm_source = ''a!b@c'', sm_account = None,
     sm_kind = PrivMsg, sm_target = ''#c'', sm_text = ''hi'' \<rparr>"

theorem history_bounded_witness:
  "target_count (hist_record ''#b'' (sample_message ''2'' 20) (hist_record ''#a'' (sample_message ''1'' 10) (history_new 1 1))) \<le> max 1 1"
  using history_bounded [OF hist_reach.recorded [OF hist_reach.recorded [OF hist_reach.new]],
      of "''#b''" "sample_message ''2'' 20" "''#a''" "sample_message ''1'' 10" 1 1] by simp

text \<open>Eviction drops the least recently active targets: no target that is kept was active
  before one that is dropped, and at least one target is dropped.\<close>

theorem evict_oldest_lru:
  assumes "table_ok (hist_log h)" "get (hist_log h) gone = Some r" "get (hist_log (evict_oldest h)) gone = None"
    "get (hist_log (evict_oldest h)) kept = Some r'"
  shows "last_time r \<le> last_time r' \<and> length (hist_log (evict_oldest h)) < length (hist_log h)"
proof -
  define b where "b = max (max_targets h div 32) 1"
  have "gone \<in> set (map fst (take b (by_age h)))"
    using assms(2,3) by (auto simp: hist_log_evict tab.lookup_remove_all b_def split: if_splits)
  then obtain tg where g: "(gone, tg) \<in> set (take b (by_age h))" by auto
  have k: "kept \<notin> set (map fst (take b (by_age h)))" "get (hist_log h) kept = Some r'"
    using assms(4) by (auto simp: hist_log_evict tab.lookup_remove_all b_def split: if_splits)
  have "(kept, last_time r') \<in> set (by_age h)" using k(2) get_Some_in by (force simp: set_by_age)
  then have kd: "(kept, last_time r') \<in> set (drop b (by_age h))"
    using k(1) by (metis Un_iff append_take_drop_id fst_conv image_eqI set_append set_map)
  have "(gone, tg) \<in> set (by_age h)" using g by (rule in_set_takeD)
  then have tg: "tg = last_time r" using assms(1,2) by (auto simp: set_by_age in_get_Some)
  have "sorted (map snd (take b (by_age h) @ drop b (by_age h)))" by (simp add: by_age_def)
  then have "tg \<le> last_time r'" using g kd by (force simp: sorted_append simp del: append_take_drop_id)
  moreover have "hist_log h \<noteq> []" using assms(2) by auto
  ultimately show ?thesis using tg evict_length by auto
qed

theorem evict_oldest_lru_witness:
  "last_time [sample_message ''1'' 10] \<le> last_time [sample_message ''2'' 20]"
proof -
  define h where "h = hist_load ''#b'' (sample_message ''2'' 20) (hist_load ''#a'' (sample_message ''1'' 10) (history_new 1 2))"
  have "hist_log h = [(''#a'', [sample_message ''1'' 10]), (''#b'', [sample_message ''2'' 20])]"
    by (simp add: h_def hist_load_def hist_push_def history_new_def)
  moreover from this have "hist_log (evict_oldest h) = [(''#b'', [sample_message ''2'' 20])]"
    by (simp add: evict_oldest_def h_def hist_load_def hist_push_def history_new_def last_time_def sample_message_def)
  ultimately show ?thesis
    using evict_oldest_lru [of h "''#a''" "[sample_message ''1'' 10]" "''#b''" "[sample_message ''2'' 20]"]
    by (simp add: table_ok_def)
qed

text \<open>Message ids do not repeat: any run of up to \<open>2 ^ 64\<close> ids minted by one history is free of
  duplicates, each with the server's prefix.\<close>

theorem msgids_unique:
  "hist_next_id h < 2 ^ 64 \<Longrightarrow> n \<le> 2 ^ 64 \<Longrightarrow> distinct (fst (mint n h))"
  by (rule mint_distinct)

theorem msgids_unique_witness: "distinct (fst (mint 1000 (history_new 1 1)))"
  by (rule msgids_unique) (simp_all add: history_new_def)

text \<open>The history key of a conversation is the same for both parties, gives both of them back,
  and is never a channel name.\<close>

theorem pair_key_roundtrip:
  assumes "NUL \<notin> set a" "NUL \<notin> set b"
  shows "pair_key a b = pair_key b a \<and> pair_parties (pair_key a b) = Some (min a b, max a b)
    \<and> \<not> is_valid_channel (pair_key a b)"
proof -
  have "pair_key a b = ''@dm'' @ NUL # min a b @ NUL # max a b"
    by (auto simp: pair_key_def min_def max_def)
  moreover have "NUL \<notin> set (min a b)" using assms by (simp add: min_def)
  then have "takeWhile (\<lambda>x. x \<noteq> NUL) (min a b @ NUL # max a b) = min a b"
    by (subst takeWhile_append2) auto
  then have "memchr NUL (min a b @ NUL # max a b) = Some (length (min a b))"
    by (simp add: memchr_def Let_def)
  ultimately show ?thesis
    by (auto simp: pair_parties_def strip_prefix_def is_valid_channel_def pair_key_def min_def max_def is_ascii_def)
qed

theorem pair_key_roundtrip_witness: "pair_parties (pair_key ''bob'' ''alice'') = Some (''alice'', ''bob'')"
  using pair_key_roundtrip [of "''bob''" "''alice''"] by (auto simp: NUL_def min_def max_def)

text \<open>History queries are total and bounded: no selector and no limit makes a query slice out of
  range, and every answer has at most \<open>limit\<close> messages, taken from the target's log in its order.\<close>

theorem history_queries_total:
  "bounded_answer (snapshot h t ev) limit (latest h t p limit ev)
   \<and> bounded_answer (snapshot h t ev) limit (before h t p limit ev)
   \<and> bounded_answer (snapshot h t ev) limit (after h t p limit ev)
   \<and> bounded_answer (snapshot h t ev) limit (around h t p limit ev)
   \<and> bounded_answer (snapshot h t ev) limit (between h t p q limit ev)"
proof -
  have "bounded_answer msgs limit (map_option (\<lambda>v. take_last v limit) (Some v))"
    "bounded_answer msgs limit (map_option (\<lambda>v. take_first v limit) (Some v))" if "subseq v msgs" for v msgs
    using that subseq_take_last [of v limit] subseq_take_first [of v limit] length_take_last [of v limit]
    by (auto simp: bounded_answer_def take_first_def intro: subseq_order.order_trans)
  then show ?thesis
    using filter_after_ok [of "snapshot h t ev" p] filter_before_ok [of "snapshot h t ev" p]
      around_ok between_ok
    by (auto simp: latest_def before_def after_def)
qed

text \<open>A recorded message is the newest one of its target: a query for the latest messages of a
  bounded history ends with it, and the durable queue ends with its store operation.\<close>

theorem record_then_latest:
  assumes "hist_reach per tgt h" "ev \<or> is_message (sm_kind m)" "0 < limit"
  shows "(case latest (hist_record t m h) t Latest limit ev of None \<Rightarrow> False | Some v \<Rightarrow> v \<noteq> [] \<and> last v = m)
    \<and> persist (hist_record t m h) = map_option (\<lambda>q. q @ [Store t m]) (persist h)"
proof -
  obtain old where "get (hist_log (hist_push t m h)) t = Some (old @ [m])"
    using push_ring [OF hist_reach_inv [OF assms(1)]] by blast
  then have s: "snapshot (hist_record t m h) t ev = filter (\<lambda>m. ev \<or> is_message (sm_kind m)) old @ [m]"
    using assms(2) by (simp add: snapshot_def hist_record_def)
  have "persist (hist_push t m h) = persist h" by (simp add: hist_push_def Let_def)
  then have "persist (hist_record t m h) = map_option (\<lambda>q. q @ [Store t m]) (persist h)"
    by (simp add: hist_record_def sink_send_def)
  moreover have "take_last (xs @ [m]) limit \<noteq> [] \<and> last (take_last (xs @ [m]) limit) = m" for xs
    using assms(3) by (auto simp: take_last_def last_drop)
  ultimately show ?thesis by (simp add: latest_def s)
qed

theorem record_then_latest_witness:
  "case latest (hist_record ''#a'' (sample_message ''1'' 10) (history_new 5 5)) ''#a'' Latest 1 False of
     None \<Rightarrow> False | Some v \<Rightarrow> v \<noteq> [] \<and> last v = sample_message ''1'' 10"
  using record_then_latest [OF hist_reach.new [of 5 5], where ev = False and m = "sample_message ''1'' 10" and limit = 1 and t = "''#a''"]
  by (simp add: sample_message_def is_message_def)

text \<open>A redaction removes exactly the named message: with distinct ids in the target's log, the
  message is gone from it, every other message keeps its place, other targets are untouched and
  the deletion is handed to durable storage.\<close>

theorem redact_exact:
  assumes "get (hist_log h) t = Some ring" "distinct (map sm_msgid ring)" "i \<in> sm_msgid ` set ring"
  shows "get (hist_log (snd (redact t i h))) t = Some (filter (\<lambda>m. sm_msgid m \<noteq> i) ring)
    \<and> hist_find (snd (redact t i h)) t i = None
    \<and> (t' = t \<or> get (hist_log (snd (redact t i h))) t' = get (hist_log h) t')
    \<and> persist (snd (redact t i h)) = map_option (\<lambda>q. q @ [Delete t i]) (persist h)"
proof -
  obtain n where n: "position (\<lambda>m. sm_msgid m = i) ring = Some n"
    using assms(3) position_None [of "\<lambda>m. sm_msgid m = i" ring] by (cases "position (\<lambda>m. sm_msgid m = i) ring") auto
  note p = position_Some [OF n]
  have ring: "ring = take n ring @ ring ! n # drop (Suc n) ring" using p by (simp add: id_take_nth_drop)
  have "\<forall>m \<in> set (take n ring). sm_msgid m \<noteq> i" using p by (auto simp: in_set_conv_nth)
  moreover have "\<forall>m \<in> set (drop (Suc n) ring). sm_msgid m \<noteq> i"
  proof -
    have "sm_msgid (ring ! n) \<notin> sm_msgid ` set (drop (Suc n) ring)"
      using assms(2) by (subst (asm) ring) simp
    then show ?thesis using p by (metis imageI)
  qed
  ultimately have f: "filter (\<lambda>m. sm_msgid m \<noteq> i) ring = take n ring @ drop (Suc n) ring"
    using p by (subst ring) simp
  have "find (\<lambda>m. sm_msgid m = i) (filter (\<lambda>m. sm_msgid m \<noteq> i) ring) = None"
    by (simp add: find_None_iff)
  then show ?thesis
    using assms(1) n by (simp add: redact_def tbl f hist_find_def) (simp add: sink_send_def)
qed

theorem redact_exact_witness:
  "hist_find (snd (redact ''#a'' ''1'' (hist_load ''#a'' (sample_message ''1'' 10) (history_new 5 5)))) ''#a'' ''1'' = None"
proof -
  have "get (hist_log (hist_load ''#a'' (sample_message ''1'' 10) (history_new 5 5))) ''#a'' = Some [sample_message ''1'' 10]"
    by (simp add: hist_load_def hist_push_def history_new_def)
  then show ?thesis using redact_exact [of _ "''#a''" "[sample_message ''1'' 10]" "''1''"] by (simp add: sample_message_def)
qed

text \<open>The query between two instants loses a message: with messages at 10, 20 and 30, the
  messages between the instants 5 and 25 are answered without the one at 10.\<close>

theorem between_drops_first:
  "map_option (map sm_time_ms)
     (between (hist_load ''#a'' (sample_message ''3'' 30) (hist_load ''#a'' (sample_message ''2'' 20)
        (hist_load ''#a'' (sample_message ''1'' 10) (history_new 9 9)))) ''#a'' (Timestamp 5) (Timestamp 25) 9 True)
   = Some [20]"
  by code_simp

end
