(* ===== verification/Cap.thy ===== *)
theory Cap
  imports Message
begin

unbundle bit_operations_syntax

text \<open>
  Capabilities and capability sets (\<open>ferrixd/src/cap.rs\<close>). A capability set is the 32-bit word of
  the source; the locale \<open>cap_set\<close> is its interface, a finite set of capabilities with
  membership, insertion and removal, and the bit operations provide it.
\<close>

definition SASL_MECHANISMS :: "string list" where
  "SASL_MECHANISMS = [''PLAIN'', ''EXTERNAL'', ''SCRAM-SHA-256'']"

definition MULTILINE_MAX_BYTES :: nat where "MULTILINE_MAX_BYTES = 4096"
definition MULTILINE_MAX_LINES :: nat where "MULTILINE_MAX_LINES = 100"

datatype cap =
    Sasl
  | MessageTags
  | ServerTime
  | EchoMessage
  | AccountTag
  | AwayNotify
  | ExtendedJoin
  | ChgHost
  | SetName
  | MultiPrefix
  | UserhostInNames
  | CapNotify
  | InviteNotify
  | Batch
  | ChatHistory
  | StandardReplies
  | Metadata
  | LabeledResponse
  | Multiline
  | AccountRegistration
  | AccountNotify
  | ExtendedMonitor
  | ReadMarker
  | EventPlayback
  | MessageRedaction
  | ChannelRename
  | NoImplicitNames
  | PreAway
  | ExtendedIsupport

text \<open>The discriminant: the position in the declaration.\<close>

fun cap_index :: "cap \<Rightarrow> nat" where
  "cap_index Sasl = 0"
| "cap_index MessageTags = 1"
| "cap_index ServerTime = 2"
| "cap_index EchoMessage = 3"
| "cap_index AccountTag = 4"
| "cap_index AwayNotify = 5"
| "cap_index ExtendedJoin = 6"
| "cap_index ChgHost = 7"
| "cap_index SetName = 8"
| "cap_index MultiPrefix = 9"
| "cap_index UserhostInNames = 10"
| "cap_index CapNotify = 11"
| "cap_index InviteNotify = 12"
| "cap_index Batch = 13"
| "cap_index ChatHistory = 14"
| "cap_index StandardReplies = 15"
| "cap_index Metadata = 16"
| "cap_index LabeledResponse = 17"
| "cap_index Multiline = 18"
| "cap_index AccountRegistration = 19"
| "cap_index AccountNotify = 20"
| "cap_index ExtendedMonitor = 21"
| "cap_index ReadMarker = 22"
| "cap_index EventPlayback = 23"
| "cap_index MessageRedaction = 24"
| "cap_index ChannelRename = 25"
| "cap_index NoImplicitNames = 26"
| "cap_index PreAway = 27"
| "cap_index ExtendedIsupport = 28"

definition ALL_CAPS :: "cap list" where
  "ALL_CAPS =
     [Sasl, MessageTags, ServerTime, EchoMessage, AccountTag, AwayNotify,
      ExtendedJoin, ChgHost, SetName, MultiPrefix, UserhostInNames, CapNotify,
      InviteNotify, Batch, ChatHistory, StandardReplies, Metadata, LabeledResponse,
      Multiline, AccountRegistration, AccountNotify, ExtendedMonitor, ReadMarker, EventPlayback,
      MessageRedaction, ChannelRename, NoImplicitNames, PreAway, ExtendedIsupport]"

type_synonym capset = "32 word"

definition cap_bit :: "cap \<Rightarrow> 32 word" where
  "cap_bit c = push_bit (cap_index c) 1"

fun cap_name :: "cap \<Rightarrow> string" where
  "cap_name Sasl = ''sasl''"
| "cap_name MessageTags = ''message-tags''"
| "cap_name ServerTime = ''server-time''"
| "cap_name EchoMessage = ''echo-message''"
| "cap_name AccountTag = ''account-tag''"
| "cap_name AwayNotify = ''away-notify''"
| "cap_name ExtendedJoin = ''extended-join''"
| "cap_name ChgHost = ''chghost''"
| "cap_name SetName = ''setname''"
| "cap_name MultiPrefix = ''multi-prefix''"
| "cap_name UserhostInNames = ''userhost-in-names''"
| "cap_name CapNotify = ''cap-notify''"
| "cap_name InviteNotify = ''invite-notify''"
| "cap_name Batch = ''batch''"
| "cap_name ChatHistory = ''draft/chathistory''"
| "cap_name StandardReplies = ''standard-replies''"
| "cap_name Metadata = ''draft/metadata-2''"
| "cap_name LabeledResponse = ''labeled-response''"
| "cap_name Multiline = ''draft/multiline''"
| "cap_name AccountRegistration = ''draft/account-registration''"
| "cap_name AccountNotify = ''account-notify''"
| "cap_name ExtendedMonitor = ''extended-monitor''"
| "cap_name ReadMarker = ''draft/read-marker''"
| "cap_name EventPlayback = ''draft/event-playback''"
| "cap_name MessageRedaction = ''draft/message-redaction''"
| "cap_name ChannelRename = ''draft/channel-rename''"
| "cap_name NoImplicitNames = ''no-implicit-names''"
| "cap_name PreAway = ''draft/pre-away''"
| "cap_name ExtendedIsupport = ''draft/extended-isupport''"

definition from_name :: "string \<Rightarrow> cap option" where
  "from_name name = find (\<lambda>c. cap_name c = name) ALL_CAPS"

definition ls_token :: "cap \<Rightarrow> string" where
  "ls_token c =
     (if c = Sasl then ''sasl='' @ join '','' SASL_MECHANISMS
      else if c = Multiline then
        ''draft/multiline=max-bytes='' @ dec MULTILINE_MAX_BYTES @ '',max-lines='' @ dec MULTILINE_MAX_LINES
      else if c = AccountRegistration then
        ''draft/account-registration=before-connect,custom-account-name''
      else cap_name c)"

subsection \<open>Capability sets\<close>

definition caps_empty :: capset where "caps_empty = 0"

definition from_bits :: "32 word \<Rightarrow> capset" where "from_bits b = b"

definition bits :: "capset \<Rightarrow> 32 word" where "bits s = s"

definition has :: "capset \<Rightarrow> cap \<Rightarrow> bool" where
  "has s c \<longleftrightarrow> s AND cap_bit c \<noteq> 0"

definition caps_insert :: "cap \<Rightarrow> capset \<Rightarrow> capset" where
  "caps_insert c s = s OR cap_bit c"

definition caps_remove :: "cap \<Rightarrow> capset \<Rightarrow> capset" where
  "caps_remove c s = s AND NOT (cap_bit c)"

definition masked :: "capset \<Rightarrow> 32 word \<Rightarrow> capset" where
  "masked s msk = s AND msk"

definition ls_line :: "string option \<Rightarrow> string" where
  "ls_line sts_token =
     join [SP] (map ls_token ALL_CAPS @ (case sts_token of None \<Rightarrow> [] | Some sts \<Rightarrow> [sts]))"

definition list_line :: "capset \<Rightarrow> string" where
  "list_line caps = join [SP] (map cap_name (filter (has caps) ALL_CAPS))"

subsection \<open>Requests\<close>

datatype req_parse = ReqOk "(cap \<times> bool) list" | Unknown

text \<open>\<open>str::split_whitespace\<close>: the maximal runs of characters that are not white space.\<close>

function ws_fields :: "rchar list \<Rightarrow> string list" where
  "ws_fields cs =
     (case dropWhile is_whitespace cs of
        [] \<Rightarrow> []
      | d # ds \<Rightarrow>
          concat (takeWhile (\<lambda>c. \<not> is_whitespace c) (d # ds))
          # ws_fields (dropWhile (\<lambda>c. \<not> is_whitespace c) (d # ds)))"
  by pat_completeness auto
termination
proof (relation "measure length", goal_cases)
  case (2 cs d ds)
  have "\<not> is_whitespace d" using 2 by (metis hd_dropWhile list.discI list.sel(1))
  then have "length (dropWhile (\<lambda>c. \<not> is_whitespace c) (d # ds)) \<le> length ds"
    by (simp add: length_dropWhile_le)
  also have "length ds < length cs"
    using 2 length_dropWhile_le [of is_whitespace cs] by simp
  finally show ?case by simp
qed simp

declare ws_fields.simps [simp del]

definition split_whitespace :: "string \<Rightarrow> string list" where
  "split_whitespace s = ws_fields (chars s)"

fun parse_req_tokens :: "string list \<Rightarrow> req_parse" where
  "parse_req_tokens [] = ReqOk []"
| "parse_req_tokens (token # rest) =
     (let (enable, name) =
        (case strip_prefix ''-'' token of Some r \<Rightarrow> (False, r) | None \<Rightarrow> (True, token))
      in case from_name name of
           None \<Rightarrow> Unknown
         | Some c \<Rightarrow>
             (case parse_req_tokens rest of
                Unknown \<Rightarrow> Unknown
              | ReqOk changes \<Rightarrow> ReqOk ((c, enable) # changes)))"

definition parse_req :: "string \<Rightarrow> req_parse" where
  "parse_req arg = parse_req_tokens (split_whitespace arg)"

text \<open>How \<open>CAP REQ\<close> applies an accepted request to the client's set.\<close>

definition apply_changes :: "(cap \<times> bool) list \<Rightarrow> capset \<Rightarrow> capset" where
  "apply_changes changes caps =
     fold (\<lambda>(c, enable) s. if enable then caps_insert c s else caps_remove c s) changes caps"

subsection \<open>Bits and membership\<close>

lemma ALL_CAPS_nth: "ALL_CAPS ! cap_index c = c"
  by (cases c) (simp_all add: ALL_CAPS_def)

lemma cap_index_less: "cap_index c < length ALL_CAPS"
  by (cases c) (simp_all add: ALL_CAPS_def)

lemma distinct_ALL_CAPS: "distinct ALL_CAPS"
  by (simp add: ALL_CAPS_def)

lemma cap_index_lt32 [simp]: "cap_index c < 32"
  using cap_index_less [of c] by (simp add: ALL_CAPS_def)

lemma cap_index_inject [simp]: "cap_index c = cap_index d \<longleftrightarrow> c = d"
  by (metis ALL_CAPS_nth)

lemma set_ALL_CAPS [simp]: "c \<in> set ALL_CAPS"
  by (metis ALL_CAPS_nth cap_index_less nth_mem)

lemma bit_cap_bit: "bit (cap_bit c) n \<longleftrightarrow> n = cap_index c"
  by (auto simp: cap_bit_def bit_simps)

lemma has_bit: "has s c \<longleftrightarrow> bit s (cap_index c)"
  by (auto simp: has_def bit_eq_iff [where 'a = "32 word"] bit_cap_bit bit_simps)

lemma from_name_cap_name: "from_name (cap_name c) = Some c"
  by (cases c) (simp_all add: from_name_def ALL_CAPS_def)

lemma from_name_Some: "from_name n = Some c \<longleftrightarrow> n = cap_name c"
  by (auto simp: from_name_cap_name) (auto simp: from_name_def find_Some_iff)

locale cap_set =
  fixes empty :: "'s" and ins :: "'c \<Rightarrow> 's \<Rightarrow> 's" and rem :: "'c \<Rightarrow> 's \<Rightarrow> 's"
    and mem :: "'s \<Rightarrow> 'c \<Rightarrow> bool"
  assumes mem_empty: "\<not> mem empty c"
    and mem_ins: "mem (ins d s) c \<longleftrightarrow> c = d \<or> mem s c"
    and mem_rem: "mem (rem d s) c \<longleftrightarrow> c \<noteq> d \<and> mem s c"
begin

definition upd :: "('c \<times> bool) list \<Rightarrow> 's \<Rightarrow> 's" where
  "upd changes s = fold (\<lambda>(c, e) s. if e then ins c s else rem c s) changes s"

lemma mem_upd: "mem (upd changes s) c \<longleftrightarrow>
    (case map_of (rev changes) c of Some e \<Rightarrow> e | None \<Rightarrow> mem s c)"
proof (induction changes arbitrary: s)
  case (Cons p changes)
  obtain d e where p: "p = (d, e)" by fastforce
  have "mem (upd (p # changes) s) c
      = (case map_of (rev changes) c of Some e \<Rightarrow> e | None \<Rightarrow> mem (if e then ins d s else rem d s) c)"
    using Cons.IH [of "if e then ins d s else rem d s"] p by (simp add: upd_def)
  then show ?case using p by (auto simp: map_add_def mem_ins mem_rem split: option.splits)
qed (simp add: upd_def)

end

interpretation caps: cap_set caps_empty caps_insert caps_remove has
  by unfold_locales
    (auto simp: has_bit caps_empty_def caps_insert_def caps_remove_def bit_simps bit_cap_bit)

lemma apply_changes_upd: "apply_changes changes s = caps.upd changes s"
  by (simp add: apply_changes_def caps.upd_def)

subsection \<open>Words of a capability list\<close>

definition plain_word :: "string \<Rightarrow> bool" where
  "plain_word w \<longleftrightarrow> w \<noteq> [] \<and> list_all (\<lambda>b. is_ascii b \<and> \<not> is_whitespace [b]) w"

lemma chars_ascii_append: "list_all is_ascii p \<Longrightarrow> chars (p @ s) = map (\<lambda>b. [b]) p @ chars s"
  by (induction p) auto

lemma is_whitespace_SP [simp]: "is_whitespace [SP]"
  by (simp add: is_whitespace_def SP_def)

lemma split_whitespace_word:
  assumes "plain_word w"
  shows "split_whitespace w = [w]" "split_whitespace (w @ SP # s) = w # split_whitespace s"
proof -
  have w: "list_all is_ascii w" "w \<noteq> []" "\<And>c. c \<in> set (map (\<lambda>b. [b]) w) \<Longrightarrow> \<not> is_whitespace c"
    using assms by (auto simp: plain_word_def list_all_iff)
  then obtain a as where as: "map (\<lambda>b. [b]) w = a # as" "\<not> is_whitespace a"
    by (cases w) auto
  have cw: "concat (map (\<lambda>b. [b]) w) = w" by (simp add: concat_map_singleton)
  have sp: "is_ascii SP" by (simp add: is_ascii_def SP_def)
  have tw: "takeWhile (\<lambda>c. \<not> is_whitespace c) (map (\<lambda>b. [b]) w @ r) = map (\<lambda>b. [b]) w @ takeWhile (\<lambda>c. \<not> is_whitespace c) r"
    "dropWhile (\<lambda>c. \<not> is_whitespace c) (map (\<lambda>b. [b]) w @ r) = dropWhile (\<lambda>c. \<not> is_whitespace c) r" for r
    using w(3) by (simp_all only: takeWhile_append2 dropWhile_append2 not_False_eq_True)
  have e: "ws_fields [] = []" "ws_fields ([SP] # cs) = ws_fields cs" for cs
    by (simp_all add: ws_fields.simps [of "[]"] ws_fields.simps [of "[SP] # cs"] ws_fields.simps [of cs])
  show "split_whitespace w = [w]"
    using w(1) as tw [of "[]"] cw e(1)
    by (simp add: split_whitespace_def chars_ascii ws_fields.simps [of "a # as"] takeWhile_eq_all_conv [THEN iffD2] dropWhile_eq_Nil_conv [THEN iffD2])
  have "chars (w @ SP # s) = map (\<lambda>b. [b]) w @ [SP] # chars s"
    using w(1) sp by (simp add: chars_ascii_append)
  then show "split_whitespace (w @ SP # s) = w # split_whitespace s"
    using as tw [of "[SP] # chars s"] cw e(2)
    by (simp add: split_whitespace_def ws_fields.simps [of "a # as @ [SP] # chars s"])
qed

lemma split_whitespace_join:
  "list_all plain_word ws \<Longrightarrow> split_whitespace (join [SP] ws) = ws"
proof (induction "[SP]" ws rule: join.induct)
  case 1
  show ?case by (simp add: split_whitespace_def ws_fields.simps)
qed (simp_all add: split_whitespace_word)

lemma plain_cap_name: "plain_word (cap_name c)"
  by (cases c) (simp_all add: plain_word_def is_ascii_def is_whitespace_def)

lemma cap_name_no_dash: "strip_prefix ''-'' (cap_name c) = None"
  by (cases c) (simp_all add: strip_prefix_def)

lemma parse_req_names:
  "parse_req_tokens (map cap_name cs) = ReqOk (map (\<lambda>c. (c, True)) cs)"
  by (induction cs) (simp_all add: cap_name_no_dash from_name_cap_name)

lemma parse_req_list_line:
  "parse_req (list_line s) = ReqOk (map (\<lambda>c. (c, True)) (filter (has s) ALL_CAPS))"
proof -
  have "split_whitespace (list_line s) = map cap_name (filter (has s) ALL_CAPS)"
    unfolding list_line_def by (rule split_whitespace_join) (simp add: list_all_iff plain_cap_name)
  then show ?thesis by (simp add: parse_req_def parse_req_names)
qed

text \<open>The capability a request token names, and whether it asks for it or drops it.\<close>

definition token_change :: "string \<Rightarrow> (cap \<times> bool) option" where
  "token_change token =
     (case strip_prefix ''-'' token of
        Some r \<Rightarrow> map_option (\<lambda>c. (c, False)) (from_name r)
      | None \<Rightarrow> map_option (\<lambda>c. (c, True)) (from_name token))"

lemma parse_req_tokens_change:
  "parse_req_tokens ts =
     (if \<exists>t \<in> set ts. token_change t = None then Unknown else ReqOk (map (the \<circ> token_change) ts))"
proof (induction ts)
  case (Cons t ts)
  have step: "parse_req_tokens (t # ts) =
      (case token_change t of None \<Rightarrow> Unknown
       | Some ce \<Rightarrow> (case parse_req_tokens ts of Unknown \<Rightarrow> Unknown | ReqOk cs \<Rightarrow> ReqOk (ce # cs)))"
    by (auto simp: token_change_def split: option.splits req_parse.splits)
  show ?case unfolding step Cons.IH by (cases "token_change t") (simp_all del: not_None_eq)
qed simp

subsection \<open>Properties\<close>

text \<open>A capability request is atomic. If any token names no capability, the whole request is
  refused; otherwise every capability the request mentions is set as its last mention says and
  every other capability of the client is left as it was.\<close>

theorem cap_request_atomic:
  "(parse_req arg = Unknown \<longleftrightarrow> None \<in> token_change ` set (split_whitespace arg))
   \<and> (case parse_req arg of Unknown \<Rightarrow> True
      | ReqOk changes \<Rightarrow> changes = map (the \<circ> token_change) (split_whitespace arg)
          \<and> has (apply_changes changes s) c
            = (case map_of (rev changes) c of Some e \<Rightarrow> e | None \<Rightarrow> has s c))"
  by (auto simp: parse_req_def parse_req_tokens_change apply_changes_upd caps.mem_upd image_iff eq_commute [of None])

text \<open>The list a client is shown is a request for the same set: requesting the names of
  \<open>CAP LIST\<close> from the empty set gives a set with the same members, and every name of the
  protocol resolves to its capability.\<close>

theorem cap_list_roundtrip:
  "(case parse_req (list_line s) of Unknown \<Rightarrow> False
    | ReqOk changes \<Rightarrow> has (apply_changes changes caps_empty) c = has s c)
   \<and> from_name (cap_name c) = Some c"
proof -
  have "map_of (map (\<lambda>c. (c, True)) cs) c = (if c \<in> set cs then Some True else None)" for cs
    by (induction cs) auto
  then have "map_of (rev (map (\<lambda>c. (c, True)) (filter (has s) ALL_CAPS))) c = (if has s c then Some True else None)"
    by (simp add: rev_map)
  then show ?thesis
    by (simp add: parse_req_list_line apply_changes_upd caps.mem_upd caps.mem_empty from_name_cap_name)
qed

text \<open>The capability advertisement does not fit the classic frame: the token list alone is
  536 octets, so the single \<open>CAP LS\<close> line that carries it is longer than the 512 octets the
  protocol crate itself accepts as a body, and it is never split into continuation lines.\<close>

theorem cap_ls_exceeds_frame:
  "length (ls_line None) = 536 \<and> RFC1459_BODY_BYTES < length (ls_line None)"
  by (simp add: ls_line_def ls_token_def ALL_CAPS_def SASL_MECHANISMS_def MULTILINE_MAX_BYTES_def
      MULTILINE_MAX_LINES_def RFC1459_BODY_BYTES_def dec.simps)

end
