(* ===== verification/Time.thy ===== *)
theory Time
  imports Prelude "HOL-Library.Signed_Division"
begin

text \<open>
  Civil dates and the \<open>server-time\<close> format (\<open>ferrixd/src/state.rs\<close>, \<open>civil_from_days\<close> to
  \<open>format_datetime\<close>). The 64-bit signed arithmetic of the source stays far from its bounds here
  (days are quotients of 64-bit milliseconds, years have four characters), so it is arithmetic on
  \<open>int\<close>; its truncating division is \<open>sdiv\<close>, \<open>div_euclid\<close> by a positive number is \<open>div\<close>.
\<close>

definition civil_from_days :: "int \<Rightarrow> int \<times> int \<times> int" where
  "civil_from_days days =
     (let z = days + 719468;
          era = z div 146097;
          doe = z - era * 146097;
          yoe = (doe - doe sdiv 1460 + doe sdiv 36524 - doe sdiv 146096) sdiv 365;
          doy = doe - (365 * yoe + yoe sdiv 4 - yoe sdiv 100);
          mp = (5 * doy + 2) sdiv 153;
          day = doy - (153 * mp + 2) sdiv 5 + 1;
          month = (if mp < 10 then mp + 3 else mp - 9);
          year = yoe + era * 400 + (if month \<le> 2 then 1 else 0)
      in (year, month, day))"

definition days_from_civil :: "int \<Rightarrow> int \<Rightarrow> int \<Rightarrow> int" where
  "days_from_civil y0 m d =
     (let y = (if m \<le> 2 then y0 - 1 else y0);
          era = (if y \<ge> 0 then y else y - 399) sdiv 400;
          yoe = y - era * 400;
          mp = (if m > 2 then m - 3 else m + 9);
          doy = (153 * mp + 2) sdiv 5 + d - 1;
          doe = yoe * 365 + yoe sdiv 4 - yoe sdiv 100 + doy
      in era * 146097 + doe - 719468)"

text \<open>The cast of a signed value to 64 unsigned bits.\<close>

definition as_u64 :: "int \<Rightarrow> nat" where
  "as_u64 i = nat (i mod 2 ^ 64)"

definition parse_field :: "string \<Rightarrow> nat \<Rightarrow> nat \<Rightarrow> int option" where
  "parse_field s a b = Option.bind (str_get s a b) parse_i64"

definition server_time_shape :: "string \<Rightarrow> bool" where
  "server_time_shape b \<longleftrightarrow>
     20 \<le> length b \<and> b ! 4 = CHR ''-'' \<and> b ! 7 = CHR ''-'' \<and> b ! 10 = CHR ''T''
     \<and> b ! 13 = CHR '':'' \<and> b ! 16 = CHR '':''"

definition parse_server_time :: "string \<Rightarrow> nat option" where
  "parse_server_time s =
     (if \<not> server_time_shape s then None
      else
        Option.bind (parse_field s 0 4) (\<lambda>year.
        Option.bind (parse_field s 5 7) (\<lambda>month.
        Option.bind (parse_field s 8 10) (\<lambda>day.
        Option.bind (parse_field s 11 13) (\<lambda>hour.
        Option.bind (parse_field s 14 16) (\<lambda>minute.
        Option.bind (parse_field s 17 19) (\<lambda>sec.
          if \<not> (1 \<le> month \<and> month \<le> 12) \<or> \<not> (1 \<le> day \<and> day \<le> 31) then None
          else
            (let ms = (if 19 < length s \<and> s ! 19 = CHR ''.''
                       then (case parse_field s 20 23 of Some v \<Rightarrow> v | None \<Rightarrow> 0) else 0);
                 total = days_from_civil year month day * 86400 + hour * 3600 + minute * 60 + sec
             in if total < 0 then None
                else Some ((as_u64 total * 1000 + as_u64 ms) mod 2 ^ 64)))))))))"

definition dec_i64 :: "int \<Rightarrow> string" where
  "dec_i64 i = (if i < 0 then CHR ''-'' # dec (nat (- i)) else dec (nat i))"

definition format_server_time :: "nat \<Rightarrow> string" where
  "format_server_time millis =
     (let secs = millis div 1000; ms = millis mod 1000; rem = secs mod 86400;
          (year, month, day) = civil_from_days (int (secs div 86400))
      in pad0 4 (dec_i64 year) @ ''-'' @ pad0 2 (dec_i64 month) @ ''-'' @ pad0 2 (dec_i64 day) @ ''T''
         @ pad0 2 (dec (rem div 3600)) @ '':'' @ pad0 2 (dec (rem mod 3600 div 60)) @ '':''
         @ pad0 2 (dec (rem mod 60)) @ ''.'' @ pad0 3 (dec ms) @ ''Z'')"

definition format_datetime :: "nat \<Rightarrow> string" where
  "format_datetime secs =
     (let rem = secs mod 86400;
          (year, month, day) = civil_from_days (int (secs div 86400))
      in pad0 4 (dec_i64 year) @ ''-'' @ pad0 2 (dec_i64 month) @ ''-'' @ pad0 2 (dec_i64 day) @ '' ''
         @ pad0 2 (dec (rem div 3600)) @ '':'' @ pad0 2 (dec (rem mod 3600 div 60)) @ '':''
         @ pad0 2 (dec (rem mod 60)) @ '' UTC'')"

subsection \<open>Civil dates\<close>

lemma sdiv_nonneg: "0 \<le> (a::int) \<Longrightarrow> 0 < b \<Longrightarrow> a sdiv b = a div b"
  by (auto simp: signed_divide_int_def sgn_if)

text \<open>The first day of year \<open>y\<close> of an era, and the value whose 365th part is the year.\<close>

definition year_start :: "int \<Rightarrow> int" where
  "year_start y = 365 * y + y div 4 - y div 100 + y div 400"

definition year_scaled :: "int \<Rightarrow> int" where
  "year_scaled doe = doe - doe div 1460 + doe div 36524 - doe div 146096"

lemma div_step: "0 < n \<Longrightarrow> (d + 1) div n \<le> d div n + (1::int)"
  using zdiv_mono1 [of "d + 1" "d + n" n] by (simp add: div_add_self2)

text \<open>Four steps of \<open>n\<close> make one of \<open>4 n\<close>: dropping the latter from the former is monotone.\<close>

lemma div_quarter_mono: "0 < n \<Longrightarrow> d div n - d div (n * 4) \<le> (d + 1) div n - (d + 1) div (n * (4::int))"
proof -
  assume n: "0 < n"
  have "p \<le> q \<Longrightarrow> p - p div 4 \<le> q - q div 4" for p q :: int by presburger
  then have "d div n - d div n div 4 \<le> (d + 1) div n - (d + 1) div n div 4"
    using n by (simp add: zdiv_mono1)
  then show ?thesis using n by (simp add: zdiv_zmult2_eq)
qed

lemma year_scaled_step: "0 \<le> d \<Longrightarrow> year_scaled d \<le> year_scaled (d + 1)"
  using div_step [of 1460 d] div_quarter_mono [of 36524 d] unfolding year_scaled_def by simp

lemma year_scaled_mono: "0 \<le> a \<Longrightarrow> a \<le> b \<Longrightarrow> year_scaled a \<le> year_scaled b"
proof (induction "nat (b - a)" arbitrary: b)
  case (Suc k)
  then have "year_scaled a \<le> year_scaled (b - 1)" by simp
  also have "\<dots> \<le> year_scaled b" using year_scaled_step [of "b - 1"] Suc by simp
  finally show ?case .
qed simp

lemma year_parts:
  assumes "0 \<le> y" "y < 400"
  obtains b k i where "0 \<le> b" "b \<le> 3" "0 \<le> k" "k \<le> 24" "0 \<le> i" "i \<le> 3" "y = 100 * b + 4 * k + i"
    "year_start y = 36524 * b + 1461 * k + 365 * i"
proof -
  define b j k i where "b = y div 100" and "j = y mod 100" and "k = j div 4" and "i = j mod 4"
  have y: "y = 100 * b + 4 * k + i"
    using mult_div_mod_eq [of 100 y] mult_div_mod_eq [of 4 j] by (simp add: b_def j_def k_def i_def)
  have j: "0 \<le> j" "j < 100" by (simp_all add: j_def)
  have i: "0 \<le> i" "i \<le> 3" using pos_mod_bound [of 4 j] by (simp_all add: i_def)
  have k: "0 \<le> k" "k \<le> 24" using j zdiv_mono1 [of j 99 4] by (simp_all add: k_def pos_imp_zdiv_nonneg_iff)
  have b: "0 \<le> b" "b \<le> 3" using assms zdiv_mono1 [of y 399 100] by (simp_all add: b_def pos_imp_zdiv_nonneg_iff)
  have "y div 4 = 25 * b + k" using y i by (intro int_div_pos_eq [where r = i]) simp_all
  note i k b y this
  moreover have "y div 400 = 0" using assms by simp
  ultimately show thesis using that [of b k i] by (simp add: year_start_def flip: b_def)
qed

lemma year_scaled_start:
  assumes "0 \<le> y" "y < 400"
  shows "year_scaled (year_start y) = 365 * y"
    and "0 < y \<Longrightarrow> year_scaled (year_start y - 1) < 365 * y"
proof -
  obtain b k i where p: "0 \<le> b" "b \<le> 3" "0 \<le> k" "k \<le> 24" "0 \<le> i" "i \<le> 3" "y = 100 * b + 4 * k + i"
    "year_start y = 36524 * b + 1461 * k + 365 * i"
    by (rule year_parts [OF assms])
  have q: "year_start y div 1460 = 25 * b + k" "year_start y div 36524 = b" "year_start y div 146096 = 0"
    using p by (auto intro: int_div_pos_eq [where r = "24 * b + k + 365 * i"]
        int_div_pos_eq [where r = "1461 * k + 365 * i"])
  then show "year_scaled (year_start y) = 365 * y" using p by (simp add: year_scaled_def)
  assume "0 < y"
  then have "(year_start y - 1) div 1460 = 25 * b + k"
    using p by (intro int_div_pos_eq [where r = "24 * b + k + 365 * i - 1"]) auto
  moreover have "(year_start y - 1) div 36524 \<le> b" using q(2) zdiv_mono1 [of "year_start y - 1" "year_start y" 36524] by simp
  moreover have "0 < year_start y" using p \<open>0 < y\<close> by auto
  then have "0 \<le> (year_start y - 1) div 146096" by (simp add: pos_imp_zdiv_nonneg_iff)
  ultimately show "year_scaled (year_start y - 1) < 365 * y" using p by (simp add: year_scaled_def)
qed

lemma year_table:
  assumes "0 \<le> y" "y \<le> 399"
  shows "365 * y \<le> year_scaled (year_start y)" "year_scaled (year_start (y + 1) - 1) < 365 * (y + 1)"
proof -
  show "365 * y \<le> year_scaled (year_start y)" using assms by (simp add: year_scaled_start)
  show "year_scaled (year_start (y + 1) - 1) < 365 * (y + 1)"
  proof (cases "y = 399")
    case True
    then show ?thesis by (simp add: year_scaled_def year_start_def)
  next
    case False
    then show ?thesis using assms by (intro year_scaled_start(2)) simp_all
  qed
qed

lemma year_of_doe:
  assumes "0 \<le> y" "y \<le> 399" "year_start y \<le> doe" "doe < year_start (y + 1)"
  shows "year_scaled doe div 365 = y"
proof -
  have s: "0 \<le> year_start y" using year_parts [of y] assms(1,2) by fastforce
  have "365 * y \<le> year_scaled doe"
    using year_table(1) [OF assms(1,2)] year_scaled_mono [OF s assms(3)] by simp
  moreover have "year_scaled doe < 365 * (y + 1)"
    using year_table(2) [OF assms(1,2)] assms s year_scaled_mono [of doe "year_start (y + 1) - 1"] by simp
  ultimately show ?thesis by simp
qed

lemma year_exists:
  "0 \<le> doe \<Longrightarrow> doe < year_start (int n) \<Longrightarrow>
   \<exists>y. 0 \<le> y \<and> y < int n \<and> year_start y \<le> doe \<and> doe < year_start (y + 1)"
proof (induction n)
  case (Suc n)
  then show ?case
  proof (cases "doe < year_start (int n)")
    case True
    then obtain y where "0 \<le> y" "y < int n" "year_start y \<le> doe" "doe < year_start (y + 1)"
      using Suc by blast
    then show ?thesis by (intro exI [of _ y]) simp
  next
    case False
    then show ?thesis using Suc.prems by (intro exI [of _ "int n"]) (simp add: add.commute)
  qed
qed (simp add: year_start_def)

lemma year_length: "0 \<le> y \<Longrightarrow> year_start (y + 1) - year_start y \<le> 366"
  using div_step [of 4 y] div_quarter_mono [of 100 y] unfolding year_start_def by simp

lemma civil_decompose:
  fixes days :: int
  defines "era \<equiv> (days + 719468) div 146097"
  obtains y doy where "0 \<le> y" "y \<le> 399" "0 \<le> doy" "doy \<le> 365"
    "days + 719468 = era * 146097 + year_start y + doy"
    "civil_from_days days =
       (let mp = (5 * doy + 2) div 153; month = (if mp < 10 then mp + 3 else mp - 9)
        in (y + era * 400 + (if month \<le> 2 then 1 else 0), month, doy - (153 * mp + 2) div 5 + 1))"
proof -
  define doe where "doe = days + 719468 - era * 146097"
  have doe: "0 \<le> doe" "doe < year_start (int 400)"
    by (simp_all add: doe_def era_def year_start_def minus_div_mult_eq_mod)
  obtain y where y: "0 \<le> y" "y < 400" "year_start y \<le> doe" "doe < year_start (y + 1)"
    using year_exists [OF doe] by auto
  define doy where "doy = doe - year_start y"
  have doy: "0 \<le> doy" "doy \<le> 365" using y year_length [of y] by (simp_all add: doy_def)
  have yoe: "year_scaled doe div 365 = y" using y by (intro year_of_doe) simp_all
  have sc: "0 \<le> year_scaled doe"
    using year_scaled_mono [of 0 doe] doe(1) by (simp add: year_scaled_def)
  have yoe': "(doe - doe sdiv 1460 + doe sdiv 36524 - doe sdiv 146096) sdiv 365 = y"
    using doe(1) sc yoe by (simp add: sdiv_nonneg flip: year_scaled_def)
  have doy': "doe - (365 * y + y sdiv 4 - y sdiv 100) = doy"
    using y by (simp add: sdiv_nonneg doy_def year_start_def)
  have "0 \<le> (5 * doy + 2) div 153" using doy(1) by (simp add: pos_imp_zdiv_nonneg_iff)
  then have mp: "(5 * doy + 2) sdiv 153 = (5 * doy + 2) div 153"
    "(153 * ((5 * doy + 2) div 153) + 2) sdiv 5 = (153 * ((5 * doy + 2) div 153) + 2) div 5"
    using doy(1) by (auto intro!: sdiv_nonneg)
  have "civil_from_days days =
      (let mp = (5 * doy + 2) div 153; month = (if mp < 10 then mp + 3 else mp - 9)
       in (y + era * 400 + (if month \<le> 2 then 1 else 0), month, doy - (153 * mp + 2) div 5 + 1))"
    unfolding civil_from_days_def Let_def era_def [symmetric] doe_def [symmetric] yoe' doy' mp ..
  moreover have "days + 719468 = era * 146097 + year_start y + doy" by (simp add: doy_def doe_def)
  ultimately show thesis using y doy that [of y doy] by simp
qed

lemma civil_day:
  assumes "0 \<le> doy" "doy \<le> (365::int)"
  defines "mp \<equiv> (5 * doy + 2) div 153"
  shows "0 \<le> mp" "mp \<le> 11" "1 \<le> doy - (153 * mp + 2) div 5 + 1" "doy - (153 * mp + 2) div 5 + 1 \<le> 31"
proof -
  show "0 \<le> mp" using assms by (simp add: mp_def pos_imp_zdiv_nonneg_iff)
  show "mp \<le> 11" using assms zdiv_mono1 [of "5 * doy + 2" 1827 153] by (simp add: mp_def)
  have m: "153 * mp \<le> 5 * doy + 2" "5 * doy + 2 < 153 * mp + 153"
    using pos_mod_sign [of 153 "5 * doy + 2"] pos_mod_bound [of 153 "5 * doy + 2"] mult_div_mod_eq [of 153 "5 * doy + 2"]
    unfolding mp_def by linarith+
  have d: "5 * ((153 * mp + 2) div 5) \<le> 153 * mp + 2" "153 * mp + 2 < 5 * ((153 * mp + 2) div 5) + 5"
    using pos_mod_sign [of 5 "153 * mp + 2"] pos_mod_bound [of 5 "153 * mp + 2"] mult_div_mod_eq [of 5 "153 * mp + 2"]
    by linarith+
  show "1 \<le> doy - (153 * mp + 2) div 5 + 1" "doy - (153 * mp + 2) div 5 + 1 \<le> 31"
    using m d by linarith+
qed

lemma days_from_civil_eq:
  assumes "0 \<le> y" "y \<le> 399" "0 \<le> mp" "mp \<le> 11"
  shows "days_from_civil (y + era * 400 + (if mp < 10 then 0 else 1)) (if mp < 10 then mp + 3 else mp - 9) d
    = era * 146097 + (365 * y + y div 4 - y div 100) + (153 * mp + 2) div 5 + d - 1 - 719468"
proof -
  have e: "(if 0 \<le> y + era * 400 then y + era * 400 else y + era * 400 - 399) sdiv 400 = era"
  proof (cases "0 \<le> y + era * 400")
    case True
    then show ?thesis using assms by (simp add: sdiv_nonneg)
  next
    case False
    then have n: "era < 0" using assms by (simp add: not_le)
    have "(399 - y - era * 400) div 400 = - era" using assms by (intro int_div_pos_eq [where r = "399 - y"]) simp_all
    then show ?thesis using False n assms by (simp add: signed_divide_int_def sgn_if abs_if algebra_simps)
  qed
  have y: "(if (if mp < 10 then mp + 3 else mp - 9) \<le> 2 then y + era * 400 + (if mp < 10 then 0 else 1) - 1
      else y + era * 400 + (if mp < 10 then 0 else 1)) = y + era * 400"
    and m: "(if 2 < (if mp < 10 then mp + 3 else mp - 9) then (if mp < 10 then mp + 3 else mp - 9) - 3
      else (if mp < 10 then mp + 3 else mp - 9) + 9) = mp"
    using assms by auto
  show ?thesis
    unfolding days_from_civil_def Let_def y m e using assms by (simp add: sdiv_nonneg)
qed

lemma civil_roundtrip_aux:
  "case civil_from_days days of
     (y, m, d) \<Rightarrow> days_from_civil y m d = days \<and> 1 \<le> m \<and> m \<le> 12 \<and> 1 \<le> d \<and> d \<le> 31"
proof -
  obtain y doy where c: "0 \<le> y" "y \<le> 399" "0 \<le> doy" "doy \<le> 365"
    "days + 719468 = (days + 719468) div 146097 * 146097 + year_start y + doy"
    "civil_from_days days =
       (let mp = (5 * doy + 2) div 153; month = (if mp < 10 then mp + 3 else mp - 9)
        in (y + (days + 719468) div 146097 * 400 + (if month \<le> 2 then 1 else 0), month,
            doy - (153 * mp + 2) div 5 + 1))"
    by (rule civil_decompose)
  define era mp where "era = (days + 719468) div 146097" and "mp = (5 * doy + 2) div 153"
  note mp = civil_day [OF c(3,4), folded mp_def]
  have "year_start y = 365 * y + y div 4 - y div 100" using c by (simp add: year_start_def)
  moreover have "(if (if mp < 10 then mp + 3 else mp - 9) \<le> 2 then 1 else 0) = (if mp < 10 then 0 else (1::int))"
    using mp by auto
  ultimately show ?thesis
    using c(5) mp days_from_civil_eq [OF c(1,2) mp(1,2), of era]
    unfolding c(6) Let_def mp_def [symmetric] era_def [symmetric] by auto
qed

lemma civil_year_bounds:
  assumes "0 \<le> days" "days < 2932897"
  shows "0 \<le> fst (civil_from_days days)" "fst (civil_from_days days) \<le> 9999"
proof -
  obtain y doy where c: "0 \<le> y" "y \<le> 399" "0 \<le> doy" "doy \<le> 365"
    "days + 719468 = (days + 719468) div 146097 * 146097 + year_start y + doy"
    "civil_from_days days =
       (let mp = (5 * doy + 2) div 153; month = (if mp < 10 then mp + 3 else mp - 9)
        in (y + (days + 719468) div 146097 * 400 + (if month \<le> 2 then 1 else 0), month,
            doy - (153 * mp + 2) div 5 + 1))"
    by (rule civil_decompose)
  define era mp where "era = (days + 719468) div 146097" and "mp = (5 * doy + 2) div 153"
  note mp = civil_day [OF c(3,4), folded mp_def]
  have e: "0 \<le> era" "era \<le> 24"
    using assms zdiv_mono1 [of "days + 719468" "3652364" 146097]
    by (simp_all add: era_def pos_imp_zdiv_nonneg_iff)
  have "mp < 10" if "y = 399" "era = 24"
  proof -
    have "doy \<le> 305" using that c(5) assms by (simp add: era_def year_start_def)
    then show ?thesis using zdiv_mono1 [of "5 * doy + 2" 1527 153] by (simp add: mp_def)
  qed
  moreover have m: "(if (if mp < 10 then mp + 3 else mp - 9) \<le> 2 then 1 else 0) = (if mp < 10 then 0 else (1::int))"
    using mp by simp
  ultimately have "y + era * 400 + (if mp < 10 then 0 else 1) \<le> 9999"
    using c(2) e(2) by (cases "mp < 10"; cases "y = 399"; cases "era = 24") simp_all
  then show "0 \<le> fst (civil_from_days days)" "fst (civil_from_days days) \<le> 9999"
    using c(1) e(1) unfolding c(6) Let_def mp_def [symmetric] era_def [symmetric] m by simp_all
qed

subsection \<open>Fields of a timestamp\<close>

lemma str_get_ascii:
  "list_all is_ascii s \<Longrightarrow> a \<le> b \<Longrightarrow> b \<le> length s \<Longrightarrow> str_get s a b = Some (take (b - a) (drop a s))"
proof -
  assume s: "list_all is_ascii s" "a \<le> b" "b \<le> length s"
  have "char_boundary s i" if "i \<le> length s" for i
    using s(1) that by (auto simp: char_boundary_def is_cont_def is_ascii_def list_all_length dest!: spec [of _ i])
  then show ?thesis using s(2,3) by (simp add: str_get_def)
qed

lemma field_value: "k < 2 ^ 63 \<Longrightarrow> parse_i64 (pad0 w (dec k)) = Some (int k)"
  by (simp add: parse_i64_digits all_digits_pad0 dec_digits)

lemma field_length: "k < 10 ^ w \<Longrightarrow> 0 < w \<Longrightarrow> length (pad0 w (dec k)) = w"
  using length_dec_le [of k w] by (simp add: length_pad0)

lemma field_ascii: "list_all is_ascii (pad0 w (dec k))"
  using all_digits_pad0 [OF dec_digits, of w k]
  by (auto simp: all_digits_def is_ascii_def is_ascii_digit_def list_all_iff)

lemma parse_server_time_fields:
  assumes len: "length Y = 4" "length Mo = 2" "length D = 2" "length H = 2" "length Mi = 2" "length S = 2" "length F = 3"
    and asc: "list_all is_ascii Y" "list_all is_ascii Mo" "list_all is_ascii D" "list_all is_ascii H"
      "list_all is_ascii Mi" "list_all is_ascii S" "list_all is_ascii F"
    and val: "parse_i64 Y = Some y" "parse_i64 Mo = Some mo" "parse_i64 D = Some d" "parse_i64 H = Some h"
      "parse_i64 Mi = Some mi" "parse_i64 S = Some sec" "parse_i64 F = Some ms"
    and "1 \<le> mo" "mo \<le> 12" "1 \<le> d" "d \<le> 31"
  shows "parse_server_time (Y @ ''-'' @ Mo @ ''-'' @ D @ ''T'' @ H @ '':'' @ Mi @ '':'' @ S @ ''.'' @ F @ ''Z'')
    = (let total = days_from_civil y mo d * 86400 + h * 3600 + mi * 60 + sec
       in if total < 0 then None else Some ((as_u64 total * 1000 + as_u64 ms) mod 2 ^ 64))"
proof -
  define s where "s = Y @ ''-'' @ Mo @ ''-'' @ D @ ''T'' @ H @ '':'' @ Mi @ '':'' @ S @ ''.'' @ F @ ''Z''"
  have l: "length s = 24" using len by (simp add: s_def)
  have a: "list_all is_ascii s" using asc by (simp add: s_def is_ascii_def)
  have sh: "server_time_shape s" using len by (simp add: server_time_shape_def s_def nth_append)
  have dot: "s ! 19 = CHR ''.''" using len by (simp add: s_def nth_append)
  have f: "parse_field s 0 4 = Some y" "parse_field s 5 7 = Some mo" "parse_field s 8 10 = Some d"
    "parse_field s 11 13 = Some h" "parse_field s 14 16 = Some mi" "parse_field s 17 19 = Some sec"
    "parse_field s 20 23 = Some ms"
    using len val a l by (simp_all add: parse_field_def str_get_ascii) (simp_all add: s_def)
  show ?thesis
    unfolding s_def [symmetric] using assms sh dot l by (simp add: parse_server_time_def f Let_def)
qed

subsection \<open>Properties\<close>

text \<open>Converting a day number to a civil date and back is the identity for every day, before
  the epoch as well, and the date is a calendar date: a month of 1 to 12 and a day of 1 to 31.\<close>

theorem civil_roundtrip:
  "case civil_from_days days of
     (y, m, d) \<Rightarrow> days_from_civil y m d = days \<and> 1 \<le> m \<and> m \<le> 12 \<and> 1 \<le> d \<and> d \<le> 31"
  by (rule civil_roundtrip_aux)

text \<open>A timestamp the server prints is read back as the same number of milliseconds, for every
  instant up to the end of the year 9999.\<close>

theorem server_time_roundtrip:
  assumes "millis < 253402300800000"
  shows "parse_server_time (format_server_time millis) = Some millis"
proof -
  define secs rem where "secs = millis div 1000" and "rem = secs mod 86400"
  obtain y m d where c: "civil_from_days (int (secs div 86400)) = (y, m, d)" by (metis prod_cases3)
  have days: "secs div 86400 < 2932897"
    using assms by (simp add: secs_def div_less_iff_less_mult flip: div_mult2_eq)
  have b: "days_from_civil y m d = int (secs div 86400)" "1 \<le> m" "m \<le> 12" "1 \<le> d" "d \<le> 31" "0 \<le> y" "y \<le> 9999"
    using civil_roundtrip_aux [of "int (secs div 86400)"] civil_year_bounds [of "int (secs div 86400)"] days c by simp_all
  have r: "rem < 86400" by (simp add: rem_def)
  have h: "rem div 3600 < 10 ^ 2" "rem mod 3600 div 60 < 10 ^ 2" "rem mod 60 < 10 ^ 2" "millis mod 1000 < 10 ^ 3"
    "nat y < 10 ^ 4" "nat m < 10 ^ 2" "nat d < 10 ^ 2"
    using r b by (simp_all add: div_less_iff_less_mult)
  have nn: "dec_i64 y = dec (nat y)" "dec_i64 m = dec (nat m)" "dec_i64 d = dec (nat d)"
    using b by (simp_all add: dec_i64_def)
  have len: "length (pad0 4 (dec (nat y))) = 4" "length (pad0 2 (dec (nat m))) = 2" "length (pad0 2 (dec (nat d))) = 2"
    "length (pad0 2 (dec (rem div 3600))) = 2" "length (pad0 2 (dec (rem mod 3600 div 60))) = 2"
    "length (pad0 2 (dec (rem mod 60))) = 2" "length (pad0 3 (dec (millis mod 1000))) = 3"
    by (rule field_length, rule h, simp)+
  have small: "k < 10 ^ 4 \<Longrightarrow> k < 2 ^ 63" "k < 10 ^ 2 \<Longrightarrow> k < 2 ^ 63" "k < 10 ^ 3 \<Longrightarrow> k < 2 ^ 63" for k :: nat by simp_all
  note val = field_value [OF small(1) [OF h(5)]] field_value [OF small(2) [OF h(6)]] field_value [OF small(2) [OF h(7)]]
    field_value [OF small(2) [OF h(1)]] field_value [OF small(2) [OF h(2)]] field_value [OF small(2) [OF h(3)]]
    field_value [OF small(3) [OF h(4)]]
  have b': "1 \<le> int (nat m)" "int (nat m) \<le> 12" "1 \<le> int (nat d)" "int (nat d) \<le> 31" using b by simp_all
  have total: "int (secs div 86400) * 86400 + int (rem div 3600) * 3600 + int (rem mod 3600 div 60) * 60 + int (rem mod 60) = int secs"
  proof -
    have "rem mod 3600 mod 60 = rem mod 60" by (simp add: mod_mod_cancel)
    then have "rem = rem div 3600 * 3600 + rem mod 3600 div 60 * 60 + rem mod 60"
      by (metis add.assoc div_mult_mod_eq)
    moreover have "secs = secs div 86400 * 86400 + rem" by (simp add: rem_def)
    ultimately have "secs = secs div 86400 * 86400 + rem div 3600 * 3600 + rem mod 3600 div 60 * 60 + rem mod 60" by linarith
    from arg_cong [OF this, of int, symmetric] show ?thesis
      by (simp only: of_nat_add of_nat_mult of_nat_numeral)
  qed
  have "parse_server_time (format_server_time millis) =
      (let total = days_from_civil (int (nat y)) (int (nat m)) (int (nat d)) * 86400 + int (rem div 3600) * 3600
         + int (rem mod 3600 div 60) * 60 + int (rem mod 60)
       in if total < 0 then None else Some ((as_u64 total * 1000 + as_u64 (int (millis mod 1000))) mod 2 ^ 64))"
    unfolding format_server_time_def Let_def secs_def [symmetric] rem_def [symmetric] c prod.case nn
    by (rule parse_server_time_fields [unfolded Let_def, OF len field_ascii field_ascii field_ascii field_ascii
          field_ascii field_ascii field_ascii val b'])
  also have "\<dots> = Some ((secs * 1000 + millis mod 1000) mod 2 ^ 64)"
  proof -
    have "secs \<le> millis" by (simp add: secs_def)
    then have "as_u64 (int secs) = secs" using assms by (simp add: as_u64_def flip: of_nat_mod)
    moreover have "as_u64 (int (millis mod 1000)) = millis mod 1000" by (simp add: as_u64_def)
    ultimately show ?thesis using b by (simp add: Let_def total)
  qed
  finally show ?thesis using assms by (simp add: secs_def)
qed

theorem server_time_roundtrip_witness:
  "parse_server_time (format_server_time 1700000000123) = Some 1700000000123"
  by (rule server_time_roundtrip) simp

text \<open>Impossible timestamps are accepted: the thirty-first of February at 99:99:99 is read as an
  instant.\<close>

theorem server_time_accepts_impossible:
  "parse_server_time (''2024'' @ ''-'' @ ''02'' @ ''-'' @ ''31'' @ ''T'' @ ''99'' @ '':'' @ ''99'' @ '':'' @ ''99'' @ ''.'' @ ''000'' @ ''Z'')
   \<noteq> None"
proof -
  have v: "parse_i64 ''2024'' = Some 2024" "parse_i64 ''02'' = Some 2" "parse_i64 ''31'' = Some 31"
    "parse_i64 ''99'' = Some 99" "parse_i64 ''000'' = Some 0"
    by (simp_all add: parse_i64_def all_digits_def is_ascii_digit_def dec_value_def)
  have "parse_server_time (''2024'' @ ''-'' @ ''02'' @ ''-'' @ ''31'' @ ''T'' @ ''99'' @ '':'' @ ''99'' @ '':'' @ ''99'' @ ''.'' @ ''000'' @ ''Z'')
    = (let total = days_from_civil 2024 2 31 * 86400 + 99 * 3600 + 99 * 60 + 99
       in if total < 0 then None else Some ((as_u64 total * 1000 + as_u64 0) mod 2 ^ 64))"
    by (rule parse_server_time_fields) (simp_all add: v is_ascii_def)
  then show ?thesis by (simp add: days_from_civil_def signed_divide_int_def Let_def)
qed

end
