(* ===== verification/State.thy ===== *)
theory State
  imports S2S History Cap Mask Time
begin

text \<open>
  The shared server state (\<open>ferrixd/src/state.rs\<close>) as one record. The source shares clients and
  channels through reference-counted pointers: here a client entry is a cell of the store
  \<open>entries\<close>, addressed by the client's unique id, and a channel entry a cell of the store \<open>chans\<close>,
  addressed by a handle; the registries \<open>clients\<close>, \<open>by_id\<close> and \<open>channels\<close> hold ids and handles, as
  those of the source hold pointers. Every operation is a function on the state, executed under
  the locks its source takes; the clock is a field of the state that only the environment moves.
  Client mailboxes and link queues are bounded queues; a writer task drains them.
\<close>

subsection \<open>Identity\<close>

record server_info =
  si_name :: string
  si_sid :: string
  si_network :: string
  si_icon :: "string option"
  si_version :: string
  si_created :: string
  si_casemapping :: case_mapping
  si_history_len :: nat
  si_history_max_targets :: nat
  si_max_channels :: nat
  si_cloak_key :: "string option"

subsection \<open>Clients\<close>

datatype outbound = Line string | Close string

record client_data =
  cd_nick :: string
  cd_user :: string
  cd_host :: string
  cd_real_ip :: string
  cd_realname :: string
  cd_registered :: bool
  cd_channels :: "string list"
  cd_away :: "string option"
  cd_account :: "string option"
  cd_oper :: bool
  cd_secure :: bool
  cd_invisible :: bool
  cd_wallops :: bool
  cd_bot :: bool
  cd_monitor :: "string list"
  cd_metadata :: "(string, string) table"
  cd_metadata_subs :: "string list"
  cd_silence :: "string list"
  cd_connected_at :: nat
  cd_last_active :: nat

record client_entry =
  ce_id :: nat
  ce_mailbox :: "outbound list"
  ce_sendq :: nat
  ce_closed :: bool
  ce_caps :: capset
  ce_overflow :: bool
  ce_kill :: bool
  ce_kill_reason :: "string option"
  ce_data :: client_data

definition client_data_new :: "nat \<Rightarrow> string \<Rightarrow> client_data" where
  "client_data_new now host =
     \<lparr> cd_nick = ''*'', cd_user = [], cd_host = host, cd_real_ip = host, cd_realname = [],
       cd_registered = False, cd_channels = [], cd_away = None, cd_account = None, cd_oper = False,
       cd_secure = False, cd_invisible = False, cd_wallops = False, cd_bot = False, cd_monitor = [],
       cd_metadata = [], cd_metadata_subs = [], cd_silence = [], cd_connected_at = now,
       cd_last_active = now \<rparr>"

definition client_entry_new :: "nat \<Rightarrow> nat \<Rightarrow> string \<Rightarrow> nat \<Rightarrow> client_entry" where
  "client_entry_new now i host sendq =
     \<lparr> ce_id = i, ce_mailbox = [], ce_sendq = max sendq 1, ce_closed = False, ce_caps = 0,
       ce_overflow = False, ce_kill = False, ce_kill_reason = None,
       ce_data = client_data_new now host \<rparr>"

definition signal_kill :: "string \<Rightarrow> client_entry \<Rightarrow> client_entry" where
  "signal_kill reason c =
     c\<lparr>ce_kill_reason := (case ce_kill_reason c of None \<Rightarrow> Some reason | Some r \<Rightarrow> Some r), ce_kill := True\<rparr>"

definition request_kill :: "string \<Rightarrow> client_entry \<Rightarrow> client_entry" where
  "request_kill reason c = signal_kill reason c"

definition take_kill_reason :: "client_entry \<Rightarrow> string option \<times> client_entry" where
  "take_kill_reason c = (ce_kill_reason c, c\<lparr>ce_kill_reason := None\<rparr>)"

definition entry_caps :: "client_entry \<Rightarrow> capset" where
  "entry_caps c = from_bits (ce_caps c)"

definition set_caps :: "capset \<Rightarrow> client_entry \<Rightarrow> client_entry" where
  "set_caps caps c = c\<lparr>ce_caps := bits caps\<rparr>"

text \<open>\<open>try_send\<close> on the bounded mailbox: a full queue refuses, a closed one drops.\<close>

definition entry_send :: "string \<Rightarrow> client_entry \<Rightarrow> client_entry" where
  "entry_send bytes c =
     (if ce_closed c then c
      else if length (ce_mailbox c) < ce_sendq c then c\<lparr>ce_mailbox := ce_mailbox c @ [Line bytes]\<rparr>
      else signal_kill ''SendQ exceeded'' (c\<lparr>ce_overflow := True\<rparr>))"

definition entry_send_line :: "line \<Rightarrow> client_entry \<Rightarrow> client_entry" where
  "entry_send_line l c = entry_send (line_build l) c"

definition entry_close :: "string \<Rightarrow> client_entry \<Rightarrow> client_entry" where
  "entry_close bytes c =
     (if \<not> ce_closed c \<and> length (ce_mailbox c) < ce_sendq c
      then c\<lparr>ce_mailbox := ce_mailbox c @ [Close bytes]\<rparr> else c)"

definition overflowed :: "client_entry \<Rightarrow> bool" where
  "overflowed c = ce_overflow c"

definition entry_nick :: "client_entry \<Rightarrow> string" where
  "entry_nick c = cd_nick (ce_data c)"

definition mask_of :: "string \<Rightarrow> string \<Rightarrow> string \<Rightarrow> string" where
  "mask_of nick user host = nick @ ''!'' @ user @ ''@'' @ host"

definition entry_hostmask :: "client_entry \<Rightarrow> string" where
  "entry_hostmask c = mask_of (cd_nick (ce_data c)) (cd_user (ce_data c)) (cd_host (ce_data c))"

definition real_hostmask :: "client_entry \<Rightarrow> string" where
  "real_hostmask c = mask_of (cd_nick (ce_data c)) (cd_user (ce_data c)) (cd_real_ip (ce_data c))"

definition silences :: "client_entry \<Rightarrow> string \<Rightarrow> bool" where
  "silences c source_mask = list_ex (\<lambda>m. matches m source_mask) (cd_silence (ce_data c))"

subsection \<open>Channels\<close>

record member_prefix =
  mp_op :: bool
  mp_voice :: bool

definition prefix_default :: member_prefix where
  "prefix_default = \<lparr>mp_op = False, mp_voice = False\<rparr>"

definition prefix_symbol :: "member_prefix \<Rightarrow> string" where
  "prefix_symbol p = (if mp_op p then ''@'' else if mp_voice p then ''+'' else [])"

definition prefix_render :: "member_prefix \<Rightarrow> bool \<Rightarrow> string" where
  "prefix_render p multi_prefix =
     (if \<not> multi_prefix then prefix_symbol p
      else (if mp_op p then ''@'' else []) @ (if mp_voice p then ''+'' else []))"

record ban =
  ban_mask :: string
  ban_set_by :: string
  ban_set_at :: nat

record topic =
  topic_text :: string
  topic_set_by :: string
  topic_set_at :: nat

record remote_member =
  rm_nick :: string
  rm_user :: string
  rm_host :: string
  rm_server_sid :: string
  rm_prefix :: member_prefix

record channel_modes =
  no_external :: bool
  topic_lock :: bool
  moderated :: bool
  invite_only :: bool
  secret :: bool
  chan_key :: "string option"
  chan_limit :: "nat option"

definition channel_modes_default :: channel_modes where
  "channel_modes_default =
     \<lparr> no_external = True, topic_lock = True, moderated = False, invite_only = False,
       secret = False, chan_key = None, chan_limit = None \<rparr>"

record channel_data =
  ch_name :: string
  ch_topic :: "topic option"
  ch_members :: "(nat, member_prefix) table"
  ch_remote_members :: "(string, remote_member) table"
  ch_modes :: channel_modes
  ch_bans :: "ban list"
  ch_exceptions :: "ban list"
  ch_invex :: "ban list"
  ch_invited :: "string list"
  ch_metadata :: "(string, string) table"
  ch_created_at :: nat

record channel_entry =
  chan_data :: channel_data
  chan_joining :: nat

definition channel_entry_new :: "nat \<Rightarrow> string \<Rightarrow> channel_entry" where
  "channel_entry_new now display_name =
     \<lparr> chan_data =
         \<lparr> ch_name = display_name, ch_topic = None, ch_members = [], ch_remote_members = [],
           ch_modes = channel_modes_default, ch_bans = [], ch_exceptions = [], ch_invex = [],
           ch_invited = [], ch_metadata = [], ch_created_at = now \<rparr>,
       chan_joining = 0 \<rparr>"

definition has_member :: "channel_data \<Rightarrow> nat \<Rightarrow> bool" where
  "has_member d i \<longleftrightarrow> get (ch_members d) i \<noteq> None"

definition ban_matches :: "string \<Rightarrow> string \<Rightarrow> string option \<Rightarrow> bool" where
  "ban_matches msk hostmask account =
     (case strip_prefix ''~a:'' msk of
        Some pattern \<Rightarrow> (case account of Some a \<Rightarrow> matches pattern a | None \<Rightarrow> False)
      | None \<Rightarrow> matches msk hostmask)"

definition is_banned :: "channel_data \<Rightarrow> string \<Rightarrow> string option \<Rightarrow> bool" where
  "is_banned d hostmask account = list_ex (\<lambda>b. ban_matches (ban_mask b) hostmask account) (ch_bans d)"

definition is_excepted :: "channel_data \<Rightarrow> string \<Rightarrow> string option \<Rightarrow> bool" where
  "is_excepted d hostmask account = list_ex (\<lambda>b. ban_matches (ban_mask b) hostmask account) (ch_exceptions d)"

definition matches_invex :: "channel_data \<Rightarrow> string \<Rightarrow> string option \<Rightarrow> bool" where
  "matches_invex d hostmask account = list_ex (\<lambda>b. ban_matches (ban_mask b) hostmask account) (ch_invex d)"

record registered_channel =
  rc_folded :: string
  rc_name :: string
  rc_founder :: string
  rc_topic_text :: "string option"
  rc_topic_setby :: string
  rc_topic_setat :: nat
  rc_mode_flags :: "8 word"
  rc_key :: "string option"
  rc_limit :: "nat option"

datatype store_op = Upsert registered_channel | DeleteRow string

subsection \<open>The network\<close>

record remote_user =
  ru_server_sid :: string
  ru_uid :: string
  ru_nick :: string
  ru_user :: string
  ru_host :: string
  ru_account :: "string option"
  ru_realname :: string
  ru_away :: "string option"
  ru_oper :: bool
  ru_invisible :: bool
  ru_bot :: bool

definition remote_hostmask :: "remote_user \<Rightarrow> string" where
  "remote_hostmask u = mask_of (ru_nick u) (ru_user u) (ru_host u)"

record link_handle =
  lh_sid :: string
  lh_name :: string
  lh_description :: string
  lh_queue :: "string list"
  lh_sendq :: nat
  lh_shutdown :: bool

definition link_send :: "string \<Rightarrow> link_handle \<Rightarrow> link_handle" where
  "link_send bytes l =
     (if length (lh_queue l) < lh_sendq l then l\<lparr>lh_queue := lh_queue l @ [bytes]\<rparr> else l)"

definition request_close :: "link_handle \<Rightarrow> link_handle" where
  "request_close l = l\<lparr>lh_shutdown := True\<rparr>"

record remote_server =
  rs_sid :: string
  rs_name :: string
  rs_uplink :: string
  rs_description :: string

record server_ban =
  sb_mask :: string
  sb_reason :: string
  sb_set_by :: string
  sb_set_at :: nat

record whowas_entry =
  ww_nick :: string
  ww_user :: string
  ww_host :: string
  ww_realname :: string
  ww_departed_at :: nat

datatype plugin_action =
    ActNotice string string
  | ActMessage string string
  | ActKick string string string
  | ActMode string string "string list"
  | ActTopic string string
  | ActKline string string string

datatype verdict = Allow | Block

record plugin_outcome =
  po_verdict :: verdict
  po_replacement :: "string option"
  po_reason :: "string option"
  po_actions :: "plugin_action list"

text \<open>The plugin host: what the loaded modules answer to the hooks of the daemon. The modules are not
  part of the repository, so their answers are a parameter.\<close>

record plugin_host =
  ph_on_channel_message :: "string \<Rightarrow> string \<Rightarrow> string \<Rightarrow> plugin_outcome"
  ph_on_private_message :: "string \<Rightarrow> string \<Rightarrow> string \<Rightarrow> plugin_outcome"
  ph_on_join :: "string \<Rightarrow> string \<Rightarrow> plugin_outcome"
  ph_on_part :: "string \<Rightarrow> string \<Rightarrow> string \<Rightarrow> plugin_outcome"
  ph_on_nick :: "string \<Rightarrow> string \<Rightarrow> plugin_outcome"
  ph_on_topic :: "string \<Rightarrow> string \<Rightarrow> string \<Rightarrow> plugin_outcome"
  ph_on_mode :: "string \<Rightarrow> string \<Rightarrow> string \<Rightarrow> plugin_outcome"
  ph_on_kick :: "string \<Rightarrow> string \<Rightarrow> string \<Rightarrow> string \<Rightarrow> plugin_outcome"
  ph_on_invite :: "string \<Rightarrow> string \<Rightarrow> string \<Rightarrow> plugin_outcome"
  ph_on_connect :: "string \<Rightarrow> string \<Rightarrow> string \<Rightarrow> string option \<Rightarrow> plugin_outcome"
  ph_on_quit :: "string \<Rightarrow> string \<Rightarrow> plugin_outcome"
  ph_on_away :: "string \<Rightarrow> string option \<Rightarrow> plugin_outcome"
  ph_on_account :: "string \<Rightarrow> string option \<Rightarrow> plugin_outcome"

subsection \<open>The server\<close>

record server =
  info :: server_info
  history_of :: history
  clock_ms :: nat
  entries :: "nat \<Rightarrow> client_entry"
  clients :: "(string, nat) table"
  by_id :: "nat list"
  chans :: "nat \<Rightarrow> channel_entry"
  next_chan :: nat
  channels :: "(string, nat) table"
  ip_conns :: "(string, nat) table"
  monitors :: "(string, nat list) table"
  server_bans :: "server_ban list"
  ip_bans :: "server_ban list"
  links :: "(string, link_handle) table"
  remote_routes :: "(string, string) table"
  remote_servers :: "(string, remote_server) table"
  remote_users :: "(string, remote_user) table"
  remote_by_uid :: "(string, string) table"
  remote_channels :: "(string, string list) table"
  registered_channels :: "(string, registered_channel) table"
  chanreg :: "store_op list option"
  plugins :: "plugin_host option"
  next_id :: nat
  whowas :: "whowas_entry list"
  read_markers :: "(string, nat) table"
  links_admin_down :: "string list"

definition now_millis :: "server \<Rightarrow> nat" where
  "now_millis s = clock_ms s"

definition now_unix :: "server \<Rightarrow> nat" where
  "now_unix s = clock_ms s div 1000"

definition server_new :: "nat \<Rightarrow> server_info \<Rightarrow> server" where
  "server_new now i =
     \<lparr> info = i,
       history_of = set_msgid_prefix (si_sid i) (history_new (si_history_len i) (si_history_max_targets i)),
       clock_ms = now, entries = (\<lambda>k. client_entry_new 0 k [] 1), clients = [], by_id = [],
       chans = (\<lambda>_. channel_entry_new 0 []), next_chan = 0, channels = [], ip_conns = [], monitors = [],
       server_bans = [], ip_bans = [], links = [], remote_routes = [], remote_servers = [],
       remote_users = [], remote_by_uid = [], remote_channels = [], registered_channels = [],
       chanreg = None, plugins = None, next_id = 1, whowas = [], read_markers = [],
       links_admin_down = [] \<rparr>"

definition alloc_id :: "server \<Rightarrow> nat \<times> server" where
  "alloc_id s = (next_id s, s\<lparr>next_id := (next_id s + 1) mod 2 ^ 64\<rparr>)"

definition fold_key :: "server \<Rightarrow> string \<Rightarrow> string" where
  "fold_key s name = fold_name (si_casemapping (info s)) name"

definition local_uid :: "server \<Rightarrow> nat \<Rightarrow> string" where
  "local_uid s client_id = si_sid (info s) @ dec client_id"

text \<open>Access to the two stores.\<close>

definition upd_client :: "nat \<Rightarrow> (client_entry \<Rightarrow> client_entry) \<Rightarrow> server \<Rightarrow> server" where
  "upd_client i f s = s\<lparr>entries := (entries s)(i := f (entries s i))\<rparr>"

definition upd_client_data :: "nat \<Rightarrow> (client_data \<Rightarrow> client_data) \<Rightarrow> server \<Rightarrow> server" where
  "upd_client_data i f s = upd_client i (\<lambda>c. c\<lparr>ce_data := f (ce_data c)\<rparr>) s"

definition upd_chan :: "nat \<Rightarrow> (channel_data \<Rightarrow> channel_data) \<Rightarrow> server \<Rightarrow> server" where
  "upd_chan h f s = s\<lparr>chans := (chans s)(h := (chans s h)\<lparr>chan_data := f (chan_data (chans s h))\<rparr>)\<rparr>"

definition cdata :: "server \<Rightarrow> nat \<Rightarrow> channel_data" where
  "cdata s h = chan_data (chans s h)"

definition send_client :: "string \<Rightarrow> nat \<Rightarrow> server \<Rightarrow> server" where
  "send_client bytes i s = upd_client i (entry_send bytes) s"

definition upd_history :: "(history \<Rightarrow> history) \<Rightarrow> server \<Rightarrow> server" where
  "upd_history f s = s\<lparr>history_of := f (history_of s)\<rparr>"

definition server_next_msgid :: "server \<Rightarrow> string \<times> server" where
  "server_next_msgid s = (let (i, h) = next_msgid (history_of s) in (i, s\<lparr>history_of := h\<rparr>))"

definition find_client :: "server \<Rightarrow> string \<Rightarrow> nat option" where
  "find_client s folded_nick = get (clients s) folded_nick"

definition find_channel :: "server \<Rightarrow> string \<Rightarrow> nat option" where
  "find_channel s folded_name = get (channels s) folded_name"

definition find_remote_user :: "server \<Rightarrow> string \<Rightarrow> remote_user option" where
  "find_remote_user s folded_nick = get (remote_users s) folded_nick"

definition remote_user_by_uid :: "server \<Rightarrow> string \<Rightarrow> remote_user option" where
  "remote_user_by_uid s uid = Option.bind (get (remote_by_uid s) uid) (get (remote_users s))"

definition by_id_get :: "server \<Rightarrow> nat \<Rightarrow> nat option" where
  "by_id_get s i = (if i \<in> set (by_id s) then Some i else None)"

definition local_id_of_uid :: "server \<Rightarrow> string \<Rightarrow> nat option" where
  "local_id_of_uid s uid = Option.bind (strip_prefix (si_sid (info s)) uid) parse_u64"

definition owns_local_uid :: "server \<Rightarrow> string \<Rightarrow> bool" where
  "owns_local_uid s uid \<longleftrightarrow> local_id_of_uid s uid \<noteq> None"

definition first_part :: "char \<Rightarrow> string \<Rightarrow> string" where
  "first_part c s = takeWhile (\<lambda>x. x \<noteq> c) s"

definition source_nick_of :: "string \<Rightarrow> string" where
  "source_nick_of source = first_part (CHR ''!'') source"

definition nick_of_uid :: "server \<Rightarrow> string \<Rightarrow> string option" where
  "nick_of_uid s uid =
     (case local_id_of_uid s uid of
        Some i \<Rightarrow> map_option (\<lambda>i. entry_nick (entries s i)) (by_id_get s i)
      | None \<Rightarrow> map_option ru_nick (remote_user_by_uid s uid))"

definition remote_source_mask :: "server \<Rightarrow> string \<Rightarrow> string" where
  "remote_source_mask s source =
     (if source = ''*'' then si_name (info s)
      else case Option.bind (local_id_of_uid s source) (by_id_get s) of
             Some i \<Rightarrow> entry_hostmask (entries s i)
           | None \<Rightarrow>
               (case remote_user_by_uid s source of
                  Some user \<Rightarrow> remote_hostmask user
                | None \<Rightarrow> source))"

definition remote_source_nick :: "server \<Rightarrow> string \<Rightarrow> string" where
  "remote_source_nick s source = source_nick_of (remote_source_mask s source)"

end
