(* ===== verification/Deliver.thy ===== *)
theory Deliver
  imports State
begin

unbundle bit_operations_syntax

text \<open>
  Per-recipient delivery (\<open>ferrixd/src/deliver.rs\<close>) and the raw broadcasts of a channel. An event
  is rendered according to the capabilities of the recipient; a delivery to a channel keeps the
  renderings in a small cache keyed by the capability bits that matter. The locale \<open>memo\<close> is the
  contract of such a cache.
\<close>

subsection \<open>Events\<close>

record event =
  ev_body :: string
  ev_time :: "string option"
  ev_account :: "string option"
  ev_msgid :: "string option"
  ev_client_tags :: "string option"
  ev_suffix :: "(cap \<times> string) option"
  ev_batch :: "(cap \<times> string) option"
  ev_bot :: bool

definition event_new :: "string \<Rightarrow> event" where
  "event_new body =
     \<lparr> ev_body = body, ev_time = None, ev_account = None, ev_msgid = None, ev_client_tags = None,
       ev_suffix = None, ev_batch = None, ev_bot = False \<rparr>"

definition with_bot :: "bool \<Rightarrow> event \<Rightarrow> event" where "with_bot b e = e\<lparr>ev_bot := b\<rparr>"
definition with_batch :: "cap \<Rightarrow> string \<Rightarrow> event \<Rightarrow> event" where
  "with_batch c reference e = e\<lparr>ev_batch := Some (c, reference)\<rparr>"
definition with_client_tags :: "string \<Rightarrow> event \<Rightarrow> event" where
  "with_client_tags tags e = e\<lparr>ev_client_tags := Some tags\<rparr>"
definition with_msgid :: "string \<Rightarrow> event \<Rightarrow> event" where "with_msgid m e = e\<lparr>ev_msgid := Some m\<rparr>"
definition with_time :: "string \<Rightarrow> event \<Rightarrow> event" where "with_time t e = e\<lparr>ev_time := Some t\<rparr>"
definition with_account :: "string option \<Rightarrow> event \<Rightarrow> event" where "with_account a e = e\<lparr>ev_account := a\<rparr>"
definition with_suffix :: "cap \<Rightarrow> string \<Rightarrow> event \<Rightarrow> event" where
  "with_suffix c sfx e = e\<lparr>ev_suffix := Some (c, sfx)\<rparr>"

lemmas with_defs = with_bot_def with_batch_def with_client_tags_def with_msgid_def with_time_def
  with_account_def with_suffix_def

definition variant_mask :: "event \<Rightarrow> 32 word" where
  "variant_mask e =
     (if ev_time e \<noteq> None then cap_bit ServerTime else 0)
     OR (if ev_account e \<noteq> None then cap_bit AccountTag else 0)
     OR (if ev_msgid e \<noteq> None \<or> ev_client_tags e \<noteq> None \<or> ev_bot e then cap_bit MessageTags else 0)
     OR (case ev_suffix e of Some (c, _) \<Rightarrow> cap_bit c | None \<Rightarrow> 0)
     OR (case ev_batch e of Some (c, _) \<Rightarrow> cap_bit c | None \<Rightarrow> 0)"

text \<open>\<open>sep\<close> and the text that follows it: the first tag starts with an at sign, the others with a
  semicolon.\<close>

definition push_tag :: "string \<Rightarrow> string \<Rightarrow> string" where
  "push_tag text out = out @ (if out = [] then ''@'' else '';'') @ text"

definition push_cond :: "capset \<Rightarrow> (cap \<times> string) option \<Rightarrow> string \<Rightarrow> string" where
  "push_cond caps t out =
     (case t of Some (c, text) \<Rightarrow> if has caps c then push_tag text out else out | None \<Rightarrow> out)"

definition render_tags_for :: "event \<Rightarrow> capset \<Rightarrow> string" where
  "render_tags_for e caps =
     (let o1 = push_cond caps (map_option (\<lambda>(c, r). (c, ''batch='' @ r)) (ev_batch e)) [];
          o2 = push_cond caps (map_option (\<lambda>t. (MessageTags, t)) (ev_client_tags e)) o1;
          o3 = push_cond caps (map_option (\<lambda>t. (ServerTime, ''time='' @ t)) (ev_time e)) o2;
          o4 = push_cond caps (map_option (\<lambda>m. (MessageTags, ''msgid='' @ m)) (ev_msgid e)) o3;
          o5 = push_cond caps (map_option (\<lambda>a. (AccountTag, ''account='' @ a)) (ev_account e)) o4
      in push_cond caps (if ev_bot e then Some (MessageTags, ''bot'') else None) o5)"

definition render_for :: "event \<Rightarrow> capset \<Rightarrow> string" where
  "render_for e caps =
     (let tags = render_tags_for e caps
      in tags @ (if tags \<noteq> [] then [SP] else []) @ ev_body e
         @ (case ev_suffix e of Some (c, sfx) \<Rightarrow> if has caps c then sfx else [] | None \<Rightarrow> [])
         @ [CR, LF])"

subsection \<open>Delivery\<close>

definition to_client :: "nat \<Rightarrow> event \<Rightarrow> server \<Rightarrow> server" where
  "to_client i e s = send_client (render_for e (entry_caps (entries s i))) i s"

text \<open>Who receives a channel delivery.\<close>

definition wants :: "server \<Rightarrow> nat option \<Rightarrow> cap option \<Rightarrow> bool option \<Rightarrow> nat \<times> member_prefix \<Rightarrow> bool" where
  "wants s except required status m =
     (case m of (i, p) \<Rightarrow>
        Some i \<noteq> except
        \<and> (case required of Some c \<Rightarrow> has (entry_caps (entries s i)) c | None \<Rightarrow> True)
        \<and> (case status of Some op_only \<Rightarrow> \<not> (\<not> mp_op p \<and> (op_only \<or> \<not> mp_voice p)) | None \<Rightarrow> True))"

type_synonym cache = "(32 word \<times> string) list"

definition cached_render :: "event \<Rightarrow> capset \<Rightarrow> cache \<Rightarrow> string \<times> cache" where
  "cached_render e caps cache =
     (let key = bits (masked caps (variant_mask e))
      in case find (\<lambda>(k, _). k = key) cache of
           Some (_, bytes) \<Rightarrow> (bytes, cache)
         | None \<Rightarrow> (let bytes = render_for e caps in (bytes, cache @ [(key, bytes)])))"

fun deliver_loop :: "event \<Rightarrow> nat option \<Rightarrow> cap option \<Rightarrow> bool option \<Rightarrow> (nat \<times> member_prefix) list
    \<Rightarrow> cache \<Rightarrow> server \<Rightarrow> server" where
  "deliver_loop e except required status [] cache s = s"
| "deliver_loop e except required status ((i, p) # ms) cache s =
     (if Some i = except then deliver_loop e except required status ms cache s
      else
        (let caps = entry_caps (entries s i)
         in if (case required of Some c \<Rightarrow> \<not> has caps c | None \<Rightarrow> False)
            then deliver_loop e except required status ms cache s
            else if (case status of Some op_only \<Rightarrow> \<not> mp_op p \<and> (op_only \<or> \<not> mp_voice p) | None \<Rightarrow> False)
            then deliver_loop e except required status ms cache s
            else
              (let (bytes, cache') = cached_render e caps cache
               in deliver_loop e except required status ms cache' (send_client bytes i s))))"

definition to_channel_filtered :: "nat \<Rightarrow> event \<Rightarrow> nat option \<Rightarrow> cap option \<Rightarrow> bool option \<Rightarrow> server \<Rightarrow> server" where
  "to_channel_filtered h e except required status s =
     deliver_loop e except required status (ch_members (cdata s h)) [] s"

definition to_channel :: "nat \<Rightarrow> event \<Rightarrow> nat option \<Rightarrow> server \<Rightarrow> server" where
  "to_channel h e except s = to_channel_filtered h e except None None s"

definition to_channel_capped :: "nat \<Rightarrow> event \<Rightarrow> cap \<Rightarrow> nat option \<Rightarrow> server \<Rightarrow> server" where
  "to_channel_capped h e required except s = to_channel_filtered h e except (Some required) None s"

definition to_channel_status :: "nat \<Rightarrow> event \<Rightarrow> bool \<Rightarrow> nat option \<Rightarrow> server \<Rightarrow> server" where
  "to_channel_status h e op_only except s = to_channel_filtered h e except None (Some op_only) s"

definition broadcast :: "nat \<Rightarrow> string \<Rightarrow> nat option \<Rightarrow> server \<Rightarrow> server" where
  "broadcast h bytes except s =
     fold (\<lambda>(i, _) s. if Some i = except then s else send_client bytes i s) (ch_members (cdata s h)) s"

text \<open>A line to every member of a list of channels that has not had it yet; the result also gives
  the ids that were reached.\<close>

definition notify_members :: "(nat \<Rightarrow> string) \<Rightarrow> nat list \<Rightarrow> nat list \<times> server \<Rightarrow> nat list \<times> server" where
  "notify_members mk ids st =
     fold (\<lambda>i (notified, s).
       if i \<in> set notified then (notified, s) else (hs_insert i notified, send_client (mk i) i s)) ids st"

definition member_snapshot :: "server \<Rightarrow> nat \<Rightarrow> (nat \<times> member_prefix) list" where
  "member_snapshot s h = ch_members (cdata s h)"

definition remote_member_snapshot :: "server \<Rightarrow> nat \<Rightarrow> remote_member list" where
  "remote_member_snapshot s h = map snd (ch_remote_members (cdata s h))"

subsection \<open>Sending\<close>

lemma send_client_entries: "entries (send_client b i s) = (entries s)(i := entry_send b (entries s i))"
  by (simp add: send_client_def upd_client_def)

lemma send_client_caps [simp]: "entry_caps (entries (send_client b i s) j) = entry_caps (entries s j)"
  by (simp add: send_client_entries entry_send_def signal_kill_def entry_caps_def)

text \<open>What a send leaves alone: everything but the mailboxes and the kill marks.\<close>

definition same_but_entries :: "server \<Rightarrow> server \<Rightarrow> bool" where
  "same_but_entries s t \<longleftrightarrow> t = s\<lparr>entries := entries t\<rparr>"

lemma same_but_entries_refl [simp]: "same_but_entries s s"
  by (simp add: same_but_entries_def)

lemma same_but_entries_send [simp]: "same_but_entries s (send_client b i s)"
  by (simp add: same_but_entries_def send_client_def upd_client_def)

lemma same_but_entries_trans: "same_but_entries a b \<Longrightarrow> same_but_entries b c \<Longrightarrow> same_but_entries a c"
  by (cases a; cases b; cases c) (simp add: same_but_entries_def)

lemma entry_send_fields [simp]:
  "ce_data (entry_send b c) = ce_data c" "ce_id (entry_send b c) = ce_id c"
  "ce_caps (entry_send b c) = ce_caps c" "ce_sendq (entry_send b c) = ce_sendq c"
  "ce_closed (entry_send b c) = ce_closed c"
  by (simp_all add: entry_send_def signal_kill_def)

subsection \<open>Memoisation\<close>

locale memo =
  fixes key :: "'x \<Rightarrow> 'k" and compute :: "'x \<Rightarrow> 'v"
  assumes key_determines: "key x = key y \<Longrightarrow> compute x = compute y"
begin

definition lookup_or :: "'x \<Rightarrow> ('k \<times> 'v) list \<Rightarrow> 'v \<times> ('k \<times> 'v) list" where
  "lookup_or x cache =
     (case find (\<lambda>(k, _). k = key x) cache of
        Some (_, v) \<Rightarrow> (v, cache)
      | None \<Rightarrow> (compute x, cache @ [(key x, compute x)]))"

definition cache_ok :: "('k \<times> 'v) list \<Rightarrow> bool" where
  "cache_ok cache \<longleftrightarrow> (\<forall>(k, v) \<in> set cache. \<exists>x. k = key x \<and> v = compute x)"

lemma cache_ok_Nil: "cache_ok []"
  by (simp add: cache_ok_def)

lemma lookup_or_correct:
  assumes "cache_ok cache"
  shows "fst (lookup_or x cache) = compute x" "cache_ok (snd (lookup_or x cache))"
proof -
  consider (hit) k v where "find (\<lambda>(k, _). k = key x) cache = Some (k, v)"
    | (miss) "find (\<lambda>(k, _). k = key x) cache = None"
    by (metis option.exhaust prod.exhaust)
  then have "fst (lookup_or x cache) = compute x \<and> cache_ok (snd (lookup_or x cache))"
  proof cases
    case hit
    then have "k = key x" "(k, v) \<in> set cache" by (auto simp: find_Some_iff dest: nth_mem)
    then obtain y where "key x = key y" "v = compute y" using assms by (auto simp: cache_ok_def)
    then have "v = compute x" using key_determines by metis
    then show ?thesis using hit assms by (simp add: lookup_or_def)
  next
    case miss
    then show ?thesis using assms by (auto simp: lookup_or_def cache_ok_def)
  qed
  then show "fst (lookup_or x cache) = compute x" "cache_ok (snd (lookup_or x cache))" by auto
qed

end

lemma bit_variant_mask:
  "bit (variant_mask e) n \<longleftrightarrow>
     (ev_time e \<noteq> None \<and> n = cap_index ServerTime)
     \<or> (ev_account e \<noteq> None \<and> n = cap_index AccountTag)
     \<or> ((ev_msgid e \<noteq> None \<or> ev_client_tags e \<noteq> None \<or> ev_bot e) \<and> n = cap_index MessageTags)
     \<or> (\<exists>c x. ev_suffix e = Some (c, x) \<and> n = cap_index c)
     \<or> (\<exists>c x. ev_batch e = Some (c, x) \<and> n = cap_index c)"
  by (auto simp: variant_mask_def bit_simps bit_cap_bit split: option.splits)

lemma masked_eq:
  "masked c m = masked d m \<Longrightarrow> bit m (cap_index k) \<Longrightarrow> has c k = has d k"
  by (metis bit_and_iff has_bit masked_def)

lemma render_for_cong:
  assumes "masked c (variant_mask e) = masked d (variant_mask e)"
  shows "render_for e c = render_for e d"
proof -
  have h: "has c k = has d k" if "bit (variant_mask e) (cap_index k)" for k
    using masked_eq [OF assms that] .
  have st: "ev_time e \<noteq> None \<Longrightarrow> has c ServerTime = has d ServerTime" by (rule h) (simp add: bit_variant_mask)
  have ac: "ev_account e \<noteq> None \<Longrightarrow> has c AccountTag = has d AccountTag" by (rule h) (simp add: bit_variant_mask)
  have mt: "ev_msgid e \<noteq> None \<or> ev_client_tags e \<noteq> None \<or> ev_bot e \<Longrightarrow> has c MessageTags = has d MessageTags"
    by (rule h) (simp only: bit_variant_mask, blast)
  have su: "ev_suffix e = Some (k, x) \<Longrightarrow> has c k = has d k" for k x
    by (rule h) (simp only: bit_variant_mask, blast)
  have ba: "ev_batch e = Some (k, x) \<Longrightarrow> has c k = has d k" for k x
    by (rule h) (simp only: bit_variant_mask, blast)
  have p: "push_cond c t out = push_cond d t out" if "\<And>k x. t = Some (k, x) \<Longrightarrow> has c k = has d k" for t out
    using that by (auto simp: push_cond_def split: option.splits)
  have p1: "push_cond c (map_option (\<lambda>(c, r). (c, ''batch='' @ r)) (ev_batch e)) out
      = push_cond d (map_option (\<lambda>(c, r). (c, ''batch='' @ r)) (ev_batch e)) out" for out
    using ba by (intro p) auto
  have p2: "push_cond c (map_option (\<lambda>t. (MessageTags, t)) (ev_client_tags e)) out
      = push_cond d (map_option (\<lambda>t. (MessageTags, t)) (ev_client_tags e)) out" for out
    using mt by (intro p) auto
  have p3: "push_cond c (map_option (\<lambda>t. (ServerTime, ''time='' @ t)) (ev_time e)) out
      = push_cond d (map_option (\<lambda>t. (ServerTime, ''time='' @ t)) (ev_time e)) out" for out
    using st by (intro p) auto
  have p4: "push_cond c (map_option (\<lambda>m. (MessageTags, ''msgid='' @ m)) (ev_msgid e)) out
      = push_cond d (map_option (\<lambda>m. (MessageTags, ''msgid='' @ m)) (ev_msgid e)) out" for out
    using mt by (intro p) auto
  have p5: "push_cond c (map_option (\<lambda>a. (AccountTag, ''account='' @ a)) (ev_account e)) out
      = push_cond d (map_option (\<lambda>a. (AccountTag, ''account='' @ a)) (ev_account e)) out" for out
    using ac by (intro p) auto
  have p6: "push_cond c (if ev_bot e then Some (MessageTags, ''bot'') else None) out
      = push_cond d (if ev_bot e then Some (MessageTags, ''bot'') else None) out" for out
    using mt by (intro p) (auto split: if_splits)
  have "render_tags_for e c = render_tags_for e d"
    unfolding render_tags_for_def Let_def p1 p2 p3 p4 p5 p6 ..
  moreover have "(case ev_suffix e of Some (k, x) \<Rightarrow> if has c k then x else [] | None \<Rightarrow> [])
      = (case ev_suffix e of Some (k, x) \<Rightarrow> if has d k then x else [] | None \<Rightarrow> [])"
    using su by (auto split: option.splits)
  ultimately show ?thesis by (simp add: render_for_def)
qed

interpretation delivery: memo "\<lambda>caps. bits (masked caps (variant_mask e))" "render_for e" for e
  by unfold_locales (rule render_for_cong, simp add: bits_def)

lemma cached_render_memo: "cached_render e caps cache = delivery.lookup_or e caps cache"
  unfolding cached_render_def delivery.lookup_or_def Let_def ..

subsection \<open>Delivery, recipient by recipient\<close>

lemma wants_send [simp]: "wants (send_client b i s) x r st m = wants s x r st m"
  by (cases r) (simp_all add: wants_def split: prod.splits)

definition deliver_each :: "event \<Rightarrow> nat option \<Rightarrow> cap option \<Rightarrow> bool option \<Rightarrow> (nat \<times> member_prefix) list \<Rightarrow> server \<Rightarrow> server" where
  "deliver_each e except required status ms s =
     fold (\<lambda>m s. if wants s except required status m then to_client (fst m) e s else s) ms s"

lemma deliver_loop_each:
  "delivery.cache_ok e cache \<Longrightarrow>
   deliver_loop e except required status ms cache s = deliver_each e except required status ms s"
proof (induction ms arbitrary: cache s)
  case (Cons m ms)
  obtain i p where m: "m = (i, p)" by fastforce
  define caps where "caps = entry_caps (entries s i)"
  obtain bytes cache' where c: "cached_render e caps cache = (bytes, cache')" by fastforce
  have ok: "bytes = render_for e caps" "delivery.cache_ok e cache'"
    using delivery.lookup_or_correct [OF Cons.prems, of caps] c by (simp_all add: cached_render_memo)
  have "deliver_loop e except required status (m # ms) cache s =
      (if wants s except required status m
       then deliver_loop e except required status ms cache' (send_client bytes i s)
       else deliver_loop e except required status ms cache s)"
    using c by (auto simp: m wants_def Let_def caps_def split: option.splits)
  also have "\<dots> = deliver_each e except required status (m # ms) s"
    using Cons.IH [OF ok(2)] Cons.IH [OF Cons.prems] ok(1)
    by (simp add: deliver_each_def to_client_def m caps_def)
  finally show ?case .
qed (simp add: deliver_each_def)

lemma to_channel_filtered_each:
  "to_channel_filtered h e except required status s
   = deliver_each e except required status (ch_members (cdata s h)) s"
  by (simp add: to_channel_filtered_def deliver_loop_each delivery.cache_ok_Nil)

lemma deliver_each_same: "same_but_entries s (deliver_each e except required status ms s)"
  by (induction ms arbitrary: s)
    (auto simp: deliver_each_def to_client_def intro: same_but_entries_trans [OF same_but_entries_send])

lemma deliver_each_entries:
  "distinct (map fst ms) \<Longrightarrow>
   entries (deliver_each e except required status ms s) i =
     (case map_of ms i of
        Some p \<Rightarrow> if wants s except required status (i, p)
                  then entry_send (render_for e (entry_caps (entries s i))) (entries s i) else entries s i
      | None \<Rightarrow> entries s i)"
proof (induction ms arbitrary: s)
  case (Cons m ms)
  obtain j p where m: "m = (j, p)" by fastforce
  define s' where "s' = (if wants s except required status m then to_client j e s else s)"
  have d: "deliver_each e except required status (m # ms) s = deliver_each e except required status ms s'"
    by (simp add: deliver_each_def s'_def m)
  have none: "map_of ms j = None" using Cons.prems by (auto simp: m map_of_eq_None_iff)
  have w: "wants s' except required status x = wants s except required status x" for x
    by (simp add: s'_def to_client_def)
  have "entries s' k = entries s k" if "k \<noteq> j" for k
    using that by (simp add: s'_def to_client_def send_client_entries)
  moreover have "entries s' j = (if wants s except required status m
      then entry_send (render_for e (entry_caps (entries s j))) (entries s j) else entries s j)"
    by (simp add: s'_def to_client_def send_client_entries)
  ultimately show ?case
    unfolding d using Cons.IH [of s'] Cons.prems none by (cases "i = j") (auto simp: m w split: option.splits)
qed (simp add: deliver_each_def)

subsection \<open>Properties\<close>

text \<open>The rendering cache is invisible: a delivery to a channel that caches renderings by the
  capability bits that matter is the same as rendering the event anew for every recipient, with
  the same recipients skipped.\<close>

theorem channel_delivery_cached:
  "to_channel_filtered h e except required status s =
     fold (\<lambda>m s. if wants s except required status m
        then send_client (render_for e (entry_caps (entries s (fst m)))) (fst m) s else s)
       (ch_members (cdata s h)) s"
  unfolding to_channel_filtered_each deliver_each_def to_client_def ..

text \<open>C36: a delivery reaches exactly the members that are wanted: every member that is not the
  excepted one, has the required capability and holds the required status is sent one line,
  rendered for its own capabilities; every other client's mailbox and everything else of the server
  is as before.\<close>

theorem channel_delivery_exact:
  assumes "table_ok (ch_members (cdata s h))"
  shows "entries (to_channel_filtered h e except required status s) i =
     (case get (ch_members (cdata s h)) i of
        Some p \<Rightarrow> if wants s except required status (i, p)
                  then entry_send (render_for e (entry_caps (entries s i))) (entries s i) else entries s i
      | None \<Rightarrow> entries s i)
   \<and> same_but_entries s (to_channel_filtered h e except required status s)"
  using assms deliver_each_entries [of "ch_members (cdata s h)" e except required status s i]
    deliver_each_same [of s e except required status]
  by (simp add: to_channel_filtered_each table_ok_def)

definition demo_info :: server_info where
  "demo_info =
     \<lparr> si_name = ''irc.a'', si_sid = ''0AA'', si_network = ''net'', si_icon = None, si_version = ''1'',
       si_created = ''now'', si_casemapping = Ascii, si_history_len = 10, si_history_max_targets = 10,
       si_max_channels = 10, si_cloak_key = None \<rparr>"

definition demo_server :: server where
  "demo_server = (server_new 5000 demo_info)\<lparr>channels := [(''#c'', 0)],
     chans := (\<lambda>_. \<lparr>chan_data = (chan_data (channel_entry_new 5 ''#c''))\<lparr>ch_members := [(1, prefix_default), (2, prefix_default)]\<rparr>,
       chan_joining = 0\<rparr>)\<rparr>"

theorem channel_delivery_exact_witness:
  "ce_mailbox (entries (to_channel_filtered 0 (with_time ''t'' (event_new ''hi'')) (Some 2) None None demo_server) 1)
     = [Line (''hi'' @ [CR, LF])]
   \<and> ce_mailbox (entries (to_channel_filtered 0 (with_time ''t'' (event_new ''hi'')) (Some 2) None None demo_server) 2) = []"
proof -
  have m: "ch_members (cdata demo_server 0) = [(1, prefix_default), (2, prefix_default)]"
    by (simp add: cdata_def demo_server_def)
  then have ok: "table_ok (ch_members (cdata demo_server 0))" by (simp add: table_ok_def)
  have e: "entries demo_server k = client_entry_new 0 k [] 1" for k by (simp add: demo_server_def server_new_def)
  have r: "render_for (with_time ''t'' (event_new ''hi'')) 0 = ''hi'' @ [CR, LF]"
    by (simp add: render_for_def render_tags_for_def with_time_def event_new_def push_cond_def has_def)
  show ?thesis
    using channel_delivery_exact [OF ok, of "with_time ''t'' (event_new ''hi'')" "Some 2" None None 1]
      channel_delivery_exact [OF ok, of "with_time ''t'' (event_new ''hi'')" "Some 2" None None 2]
    by (simp add: m wants_def e client_entry_new_def entry_caps_def from_bits_def r entry_send_def)
qed

text \<open>No recipient sees a tag it has not negotiated: the line starts with a tag section only when
  one of the tags of the event belongs to a capability of the recipient, and a recipient with none of
  the capabilities of the event gets exactly the body.\<close>

theorem render_without_caps:
  assumes "\<forall>c. bit (variant_mask e) (cap_index c) \<longrightarrow> \<not> has caps c"
  shows "render_for e caps = ev_body e @ [CR, LF]"
proof -
  have "masked caps (variant_mask e) = masked 0 (variant_mask e)"
  proof (rule bit_eqI)
    fix n
    have "bit (variant_mask e) n \<Longrightarrow> \<exists>c. n = cap_index c"
      by (auto simp only: bit_variant_mask)
    then show "bit (masked caps (variant_mask e)) n = bit (masked 0 (variant_mask e)) n"
      using assms by (auto simp: masked_def bit_simps has_bit)
  qed
  then have "render_for e caps = render_for e 0" by (rule render_for_cong)
  also have "\<dots> = ev_body e @ [CR, LF]"
    by (simp add: render_for_def render_tags_for_def push_cond_def has_def split: option.splits)
  finally show ?thesis .
qed

theorem render_without_caps_witness:
  "render_for (with_msgid ''1-f'' (with_time ''t'' (event_new ''x''))) (caps_insert Sasl 0) = ''x'' @ [CR, LF]"
  using render_without_caps [of "with_msgid ''1-f'' (with_time ''t'' (event_new ''x''))" "caps_insert Sasl 0"]
  by (auto simp: bit_variant_mask with_defs event_new_def has_bit caps_insert_def bit_simps bit_cap_bit
      simp flip: cap_index_inject)

text \<open>The send queue of a client is bounded: a send never makes the mailbox longer than its
  capacity; a line is queued exactly when there is room, and when there is none the connection is
  marked for teardown with the reason recorded first.\<close>

theorem sendq_bounded:
  assumes "length (ce_mailbox c) \<le> ce_sendq c" "\<not> ce_closed c"
  shows "length (ce_mailbox (entry_send b c)) \<le> ce_sendq (entry_send b c)
    \<and> (if length (ce_mailbox c) < ce_sendq c then ce_mailbox (entry_send b c) = ce_mailbox c @ [Line b]
       else overflowed (entry_send b c) \<and> ce_kill (entry_send b c)
         \<and> ce_kill_reason (entry_send b c) = Some (case ce_kill_reason c of None \<Rightarrow> ''SendQ exceeded'' | Some r \<Rightarrow> r))"
  using assms by (auto simp: entry_send_def signal_kill_def overflowed_def split: option.splits)

theorem sendq_bounded_witness:
  "ce_kill_reason (entry_send ''b'' (entry_send ''a'' (client_entry_new 0 1 [] 1))) = Some ''SendQ exceeded''"
  using sendq_bounded [of "entry_send ''a'' (client_entry_new 0 1 [] 1)" "''b''"]
  by (simp add: entry_send_def client_entry_new_def)

end
