(* ===== verification/Presence.thy ===== *)
theory Presence
  imports Deliver
begin

text \<open>
  The small registries of the server (\<open>ferrixd/src/state.rs\<close>): connection counts per address, server
  and address bans, departed identities (\<open>WHOWAS\<close>), watchers (\<open>MONITOR\<close>), read markers, and the
  operations that fan a line out to clients by a mode or a mask.
\<close>

subsection \<open>Connections per address\<close>

definition try_add_connection :: "string \<Rightarrow> nat \<Rightarrow> server \<Rightarrow> bool \<times> server" where
  "try_add_connection ip max_per_ip s =
     (let count = (case get (ip_conns s) ip of Some c \<Rightarrow> c | None \<Rightarrow> 0)
      in if max_per_ip \<le> count then (False, s\<lparr>ip_conns := put ip count (ip_conns s)\<rparr>)
         else (True, s\<lparr>ip_conns := put ip (count + 1) (ip_conns s)\<rparr>))"

definition remove_connection :: "string \<Rightarrow> server \<Rightarrow> server" where
  "remove_connection ip s =
     (let conns = adjust ip (\<lambda>c. c - 1) (ip_conns s)
      in s\<lparr>ip_conns := (if get conns ip = Some 0 then del ip conns else conns)\<rparr>)"

definition unknown_count :: "server \<Rightarrow> nat" where
  "unknown_count s =
     sum_list (map snd (ip_conns s))
     - length (filter (\<lambda>(_, i). cd_registered (ce_data (entries s i))) (clients s))"

definition oper_count :: "server \<Rightarrow> nat" where
  "oper_count s =
     length (filter (\<lambda>(_, i). cd_registered (ce_data (entries s i)) \<and> cd_oper (ce_data (entries s i))) (clients s))"

definition invisible_count :: "server \<Rightarrow> nat" where
  "invisible_count s =
     length (filter (\<lambda>(_, i). cd_registered (ce_data (entries s i)) \<and> cd_invisible (ce_data (entries s i))) (clients s))"

subsection \<open>Server bans\<close>

definition add_kline :: "string \<Rightarrow> string \<Rightarrow> string \<Rightarrow> server \<Rightarrow> server" where
  "add_kline msk reason set_by s =
     s\<lparr>server_bans := server_bans s @ [\<lparr>sb_mask = msk, sb_reason = reason, sb_set_by = set_by, sb_set_at = now_unix s\<rparr>]\<rparr>"

definition remove_kline :: "string \<Rightarrow> server \<Rightarrow> bool \<times> server" where
  "remove_kline msk s =
     (let bans = filter (\<lambda>b. sb_mask b \<noteq> msk) (server_bans s)
      in (length bans \<noteq> length (server_bans s), s\<lparr>server_bans := bans\<rparr>))"

definition matches_kline :: "server \<Rightarrow> string \<Rightarrow> string option" where
  "matches_kline s hostmask = map_option sb_reason (find (\<lambda>b. matches (sb_mask b) hostmask) (server_bans s))"

definition add_dline :: "string \<Rightarrow> string \<Rightarrow> string \<Rightarrow> server \<Rightarrow> server" where
  "add_dline msk reason set_by s =
     s\<lparr>ip_bans := ip_bans s @ [\<lparr>sb_mask = msk, sb_reason = reason, sb_set_by = set_by, sb_set_at = now_unix s\<rparr>]\<rparr>"

definition remove_dline :: "string \<Rightarrow> server \<Rightarrow> bool \<times> server" where
  "remove_dline msk s =
     (let bans = filter (\<lambda>b. sb_mask b \<noteq> msk) (ip_bans s)
      in (length bans \<noteq> length (ip_bans s), s\<lparr>ip_bans := bans\<rparr>))"

definition matches_dline :: "server \<Rightarrow> string \<Rightarrow> string option" where
  "matches_dline s ip = map_option sb_reason (find (\<lambda>b. matches (sb_mask b) ip) (ip_bans s))"

definition kill_clients :: "(client_entry \<Rightarrow> bool) \<Rightarrow> string \<Rightarrow> server \<Rightarrow> nat \<times> server" where
  "kill_clients P reason s =
     fold (\<lambda>(_, i) (count, s).
       if P (entries s i) then (count + 1, upd_client i (request_kill reason) s) else (count, s)) (clients s) (0, s)"

definition kill_matching :: "string \<Rightarrow> string \<Rightarrow> server \<Rightarrow> nat \<times> server" where
  "kill_matching msk reason s = kill_clients (\<lambda>c. matches msk (real_hostmask c)) reason s"

definition kill_matching_ip :: "string \<Rightarrow> string \<Rightarrow> server \<Rightarrow> nat \<times> server" where
  "kill_matching_ip msk reason s = kill_clients (\<lambda>c. matches msk (cd_real_ip (ce_data c))) reason s"

definition wallops :: "string \<Rightarrow> server \<Rightarrow> server" where
  "wallops bytes s =
     fold (\<lambda>(_, i) s. if cd_wallops (ce_data (entries s i)) then send_client bytes i s else s) (clients s) s"

subsection \<open>Departed identities and channel events\<close>

definition WHOWAS_CAPACITY :: nat where "WHOWAS_CAPACITY = 1024"

definition record_whowas :: "string \<Rightarrow> string \<Rightarrow> string \<Rightarrow> string \<Rightarrow> server \<Rightarrow> server" where
  "record_whowas nick user host realname s =
     (if nick = [] \<or> nick = ''*'' then s
      else
        (let ring = (if WHOWAS_CAPACITY \<le> length (whowas s) then tl (whowas s) else whowas s)
         in s\<lparr>whowas := ring @ [\<lparr>ww_nick = nick, ww_user = user, ww_host = host, ww_realname = realname,
                                  ww_departed_at = now_unix s\<rparr>]\<rparr>))"

definition whowas_lookup :: "server \<Rightarrow> string \<Rightarrow> nat \<Rightarrow> whowas_entry list" where
  "whowas_lookup s folded_nick limit =
     take limit (filter (\<lambda>e. fold_key s (ww_nick e) = folded_nick) (rev (whowas s)))"

definition record_channel_event :: "string \<Rightarrow> string \<Rightarrow> string \<Rightarrow> message_kind \<Rightarrow> string \<Rightarrow> server \<Rightarrow> server" where
  "record_channel_event folded display source_mask kind text s0 =
     (let (msgid, s) = server_next_msgid s0
      in upd_history (hist_record folded
           \<lparr>sm_msgid = msgid, sm_time_ms = now_millis s, sm_source = source_mask, sm_account = None,
            sm_kind = kind, sm_target = display, sm_text = text\<rparr>) s)"

subsection \<open>Watchers\<close>

definition RPL_MONONLINE :: nat where "RPL_MONONLINE = 730"
definition RPL_MONOFFLINE :: nat where "RPL_MONOFFLINE = 731"

definition monitor_watch :: "string \<Rightarrow> nat \<Rightarrow> server \<Rightarrow> server" where
  "monitor_watch folded watcher s =
     s\<lparr>monitors := put folded (hs_insert watcher (case get (monitors s) folded of Some w \<Rightarrow> w | None \<Rightarrow> [])) (monitors s)\<rparr>"

definition monitor_unwatch :: "string \<Rightarrow> nat \<Rightarrow> server \<Rightarrow> server" where
  "monitor_unwatch folded watcher s =
     (case get (monitors s) folded of
        None \<Rightarrow> s
      | Some w \<Rightarrow>
          (let w' = hs_remove watcher w
           in s\<lparr>monitors := (if w' = [] then del folded (monitors s) else put folded w' (monitors s))\<rparr>))"

definition notify_monitors :: "string \<Rightarrow> nat \<Rightarrow> string \<Rightarrow> server \<Rightarrow> server" where
  "notify_monitors folded code payload s =
     (case get (monitors s) folded of
        None \<Rightarrow> s
      | Some watchers \<Rightarrow>
          fold (\<lambda>i s.
            case by_id_get s i of
              None \<Rightarrow> s
            | Some w \<Rightarrow>
                send_client (line_build (line_trailing (line_param (line_code (line_server (si_name (info s))) code)
                  (entry_nick (entries s w))) payload)) w s) watchers s)"

definition notify_extended_monitors :: "string \<Rightarrow> event \<Rightarrow> cap \<Rightarrow> nat list \<Rightarrow> server \<Rightarrow> server" where
  "notify_extended_monitors folded e required already s =
     (case get (monitors s) folded of
        None \<Rightarrow> s
      | Some watchers \<Rightarrow>
          fold (\<lambda>i s.
            if i \<in> set already then s
            else case by_id_get s i of
                   None \<Rightarrow> s
                 | Some w \<Rightarrow>
                     (let caps = entry_caps (entries s w)
                      in if has caps ExtendedMonitor \<and> has caps required then to_client w e s else s)) watchers s)"

definition monitor_online :: "string \<Rightarrow> string \<Rightarrow> server \<Rightarrow> server" where
  "monitor_online nick msk s = notify_monitors (fold_key s nick) RPL_MONONLINE msk s"

definition monitor_online_mask :: "string \<Rightarrow> server \<Rightarrow> server" where
  "monitor_online_mask msk s = monitor_online (source_nick_of msk) msk s"

definition monitor_offline :: "string \<Rightarrow> server \<Rightarrow> server" where
  "monitor_offline nick s = notify_monitors (fold_key s nick) RPL_MONOFFLINE nick s"

definition presence_mask :: "server \<Rightarrow> string \<Rightarrow> string option" where
  "presence_mask s folded_nick =
     (case find_client s folded_nick of
        Some i \<Rightarrow> Some (entry_hostmask (entries s i))
      | None \<Rightarrow> map_option remote_hostmask (find_remote_user s folded_nick))"

subsection \<open>Read markers\<close>

definition read_marker_owner :: "server \<Rightarrow> nat \<Rightarrow> string" where
  "read_marker_owner s i =
     (case cd_account (ce_data (entries s i)) of
        Some account \<Rightarrow> ''a'' @ NUL # fold_key s account
      | None \<Rightarrow> ''n'' @ NUL # fold_key s (cd_nick (ce_data (entries s i))))"

definition read_marker_get :: "server \<Rightarrow> string \<Rightarrow> string \<Rightarrow> nat option" where
  "read_marker_get s owner folded_target = get (read_markers s) (owner @ NUL # folded_target)"

definition read_marker_advance :: "string \<Rightarrow> string \<Rightarrow> nat \<Rightarrow> server \<Rightarrow> nat \<times> server" where
  "read_marker_advance owner folded_target time_ms s =
     (let key = owner @ NUL # folded_target;
          slot = max (case get (read_markers s) key of Some t \<Rightarrow> t | None \<Rightarrow> time_ms) time_ms
      in (slot, s\<lparr>read_markers := put key slot (read_markers s)\<rparr>))"

end
