(* ===== verification/Modes.thy ===== *)
theory Modes
  imports Presence
begin

unbundle bit_operations_syntax

text \<open>
  Channel modes (\<open>ferrixd/src/state.rs\<close>, the second half): the table of boolean modes, the accumulator
  of mode changes, the list modes with their cap, rendering, and the record a registered channel keeps
  of its modes and topic.
\<close>

subsection \<open>Boolean modes\<close>

definition MODE_NO_EXTERNAL :: "8 word" where "MODE_NO_EXTERNAL = 1"
definition MODE_TOPIC_LOCK :: "8 word" where "MODE_TOPIC_LOCK = 2"
definition MODE_MODERATED :: "8 word" where "MODE_MODERATED = 4"
definition MODE_INVITE_ONLY :: "8 word" where "MODE_INVITE_ONLY = 8"
definition MODE_SECRET :: "8 word" where "MODE_SECRET = 16"

lemmas mode_bit_defs = MODE_NO_EXTERNAL_def MODE_TOPIC_LOCK_def MODE_MODERATED_def MODE_INVITE_ONLY_def
  MODE_SECRET_def

record bool_mode =
  bm_letter :: rchar
  bm_get :: "channel_modes \<Rightarrow> bool"
  bm_set :: "bool \<Rightarrow> channel_modes \<Rightarrow> channel_modes"
  bm_bit :: "8 word"

definition BOOL_MODES :: "bool_mode list" where
  "BOOL_MODES =
     [\<lparr>bm_letter = ''i'', bm_get = invite_only, bm_set = (\<lambda>v m. m\<lparr>invite_only := v\<rparr>), bm_bit = MODE_INVITE_ONLY\<rparr>,
      \<lparr>bm_letter = ''m'', bm_get = moderated, bm_set = (\<lambda>v m. m\<lparr>moderated := v\<rparr>), bm_bit = MODE_MODERATED\<rparr>,
      \<lparr>bm_letter = ''n'', bm_get = no_external, bm_set = (\<lambda>v m. m\<lparr>no_external := v\<rparr>), bm_bit = MODE_NO_EXTERNAL\<rparr>,
      \<lparr>bm_letter = ''s'', bm_get = secret, bm_set = (\<lambda>v m. m\<lparr>secret := v\<rparr>), bm_bit = MODE_SECRET\<rparr>,
      \<lparr>bm_letter = ''t'', bm_get = topic_lock, bm_set = (\<lambda>v m. m\<lparr>topic_lock := v\<rparr>), bm_bit = MODE_TOPIC_LOCK\<rparr>]"

definition bool_mode_letters :: string where
  "bool_mode_letters = concat (map bm_letter BOOL_MODES)"

definition modes_render :: "channel_modes \<Rightarrow> bool \<Rightarrow> string \<times> string list" where
  "modes_render m reveal_key =
     (let flags = ''+'' @ concat (map bm_letter (filter (\<lambda>bm. bm_get bm m) BOOL_MODES));
          (flags, args) =
            (case chan_key m of
               Some k \<Rightarrow> (flags @ ''k'', [if reveal_key then k else ''*''])
             | None \<Rightarrow> (flags, []))
      in case chan_limit m of
           Some l \<Rightarrow> (flags @ ''l'', args @ [dec l])
         | None \<Rightarrow> (flags, args))"

subsection \<open>The accumulator\<close>

record mode_accum =
  ma_flags :: string
  ma_sign :: "bool option"
  ma_applied :: nat

definition accum_default :: mode_accum where
  "accum_default = \<lparr>ma_flags = [], ma_sign = None, ma_applied = 0\<rparr>"

definition accum_push :: "bool \<Rightarrow> rchar \<Rightarrow> mode_accum \<Rightarrow> mode_accum" where
  "accum_push adding c a =
     (let a = (if ma_sign a \<noteq> Some adding
               then a\<lparr>ma_flags := ma_flags a @ (if adding then ''+'' else ''-''), ma_sign := Some adding\<rparr> else a)
      in a\<lparr>ma_flags := ma_flags a @ c, ma_applied := ma_applied a + 1\<rparr>)"

definition accum_is_empty :: "mode_accum \<Rightarrow> bool" where
  "accum_is_empty a \<longleftrightarrow> ma_flags a = []"

definition applied_count :: "mode_accum \<Rightarrow> nat" where
  "applied_count a = ma_applied a"

subsection \<open>List modes\<close>

definition MAX_LIST_ENTRIES :: nat where "MAX_LIST_ENTRIES = 100"

definition apply_list_mode :: "nat \<Rightarrow> ban list \<Rightarrow> bool \<Rightarrow> string \<Rightarrow> string \<Rightarrow> mode_accum \<Rightarrow> string list \<Rightarrow> rchar
    \<Rightarrow> ban list \<times> mode_accum \<times> string list" where
  "apply_list_mode now lst adding msk set_by accum applied flag =
     (if adding then
        (if length lst < MAX_LIST_ENTRIES \<and> \<not> list_ex (\<lambda>b. ban_mask b = msk) lst
         then (lst @ [\<lparr>ban_mask = msk, ban_set_by = set_by, ban_set_at = now\<rparr>], accum_push True flag accum, applied @ [msk])
         else (lst, accum, applied))
      else
        (let lst' = filter (\<lambda>b. ban_mask b \<noteq> msk) lst
         in if length lst' \<noteq> length lst then (lst', accum_push False flag accum, applied @ [msk])
            else (lst', accum, applied)))"

subsection \<open>Registration records\<close>

definition seed_from_registration :: "registered_channel \<Rightarrow> channel_data \<Rightarrow> channel_data" where
  "seed_from_registration r d =
     (let d = (case rc_topic_text r of
                 Some text \<Rightarrow> d\<lparr>ch_topic := Some \<lparr>topic_text = text, topic_set_by = rc_topic_setby r, topic_set_at = rc_topic_setat r\<rparr>\<rparr>
               | None \<Rightarrow> d);
          m = fold (\<lambda>bm m. bm_set bm (rc_mode_flags r AND bm_bit bm \<noteq> 0) m) BOOL_MODES (ch_modes d)
      in d\<lparr>ch_modes := m\<lparr>chan_key := rc_key r, chan_limit := rc_limit r\<rparr>\<rparr>)"

definition build_registration :: "string \<Rightarrow> string \<Rightarrow> channel_data \<Rightarrow> registered_channel" where
  "build_registration folded founder d =
     (let flags = fold (\<lambda>bm f. if bm_get bm (ch_modes d) then f OR bm_bit bm else f) BOOL_MODES 0;
          (text, setby, setat) = (case ch_topic d of
             Some t \<Rightarrow> (Some (topic_text t), topic_set_by t, topic_set_at t)
           | None \<Rightarrow> (None, [], 0))
      in \<lparr>rc_folded = folded, rc_name = ch_name d, rc_founder = founder, rc_topic_text = text,
          rc_topic_setby = setby, rc_topic_setat = setat, rc_mode_flags = flags,
          rc_key = chan_key (ch_modes d), rc_limit = chan_limit (ch_modes d)\<rparr>)"

subsection \<open>Reading a mode string back\<close>

text \<open>The changes a mode string stands for: a sign holds until the next one.\<close>

fun read_flags :: "bool \<Rightarrow> string \<Rightarrow> (bool \<times> char) list" where
  "read_flags adding [] = []"
| "read_flags adding (c # cs) =
     (if c = CHR ''+'' then read_flags True cs
      else if c = CHR ''-'' then read_flags False cs
      else (adding, c) # read_flags adding cs)"

definition accum_push_all :: "(bool \<times> char) list \<Rightarrow> mode_accum \<Rightarrow> mode_accum" where
  "accum_push_all cs a = fold (\<lambda>(adding, c). accum_push adding [c]) cs a"

text \<open>The sign in force at the end of a mode string.\<close>

fun last_sign :: "bool \<Rightarrow> string \<Rightarrow> bool" where
  "last_sign adding [] = adding"
| "last_sign adding (c # cs) = last_sign (if c = CHR ''+'' then True else if c = CHR ''-'' then False else adding) cs"

lemma read_flags_append: "read_flags b (xs @ ys) = read_flags b xs @ read_flags (last_sign b xs) ys"
  by (induction xs arbitrary: b) auto

lemma last_sign_append: "last_sign b (xs @ ys) = last_sign (last_sign b xs) ys"
  by (induction xs arbitrary: b) auto

definition accum_inv :: "(bool \<times> char) list \<Rightarrow> mode_accum \<Rightarrow> bool" where
  "accum_inv cs a \<longleftrightarrow>
     (\<forall>b. read_flags b (ma_flags a) = cs) \<and> ma_applied a = length cs
     \<and> (case ma_sign a of None \<Rightarrow> ma_flags a = [] | Some g \<Rightarrow> \<forall>b. last_sign b (ma_flags a) = g)"

lemma accum_push_inv:
  assumes "accum_inv cs a" "c \<noteq> CHR ''+''" "c \<noteq> CHR ''-''"
  shows "accum_inv (cs @ [(adding, c)]) (accum_push adding [c] a)"
  using assms by (cases "ma_sign a = Some adding")
    (auto simp: accum_inv_def accum_push_def read_flags_append last_sign_append split: option.splits)

lemma accum_push_all_inv:
  "accum_inv cs a \<Longrightarrow> list_all (\<lambda>(_, c). c \<noteq> CHR ''+'' \<and> c \<noteq> CHR ''-'') ds \<Longrightarrow> accum_inv (cs @ ds) (accum_push_all ds a)"
proof (induction ds arbitrary: cs a)
  case (Cons d ds)
  obtain g c where d: "d = (g, c)" by fastforce
  have "accum_inv (cs @ [(g, c)]) (accum_push g [c] a)" using Cons.prems d by (intro accum_push_inv) auto
  then show ?case using Cons.IH [of "cs @ [(g, c)]"] Cons.prems d by (simp add: accum_push_all_def)
qed (simp add: accum_push_all_def)

lemma fold_or_if:
  "fold (\<lambda>bm f. if P bm then f OR bm_bit bm else f) bms (x :: 8 word) = x OR fold (\<lambda>bm f. if P bm then f OR bm_bit bm else f) bms 0"
proof (induction bms arbitrary: x)
  case (Cons b bms)
  show ?case using Cons.IH [of "x OR bm_bit b"] Cons.IH [of x] Cons.IH [of "bm_bit b"] by (simp add: or.assoc)
qed simp

lemma bit_mode_flags:
  "bit (fold (\<lambda>bm f. if P bm then f OR bm_bit bm else f) bms (0 :: 8 word)) n \<longleftrightarrow> (\<exists>bm \<in> set bms. P bm \<and> bit (bm_bit bm) n)"
proof (induction bms)
  case (Cons b bms)
  then show ?case by (simp, subst fold_or_if) (auto simp: bit_simps)
qed simp

text \<open>The persistence bits of the boolean modes are single and distinct.\<close>

definition mode_exp :: "bool_mode \<Rightarrow> nat" where
  "mode_exp bm = (if bm_letter bm = ''i'' then 3 else if bm_letter bm = ''m'' then 2 else if bm_letter bm = ''n'' then 0
     else if bm_letter bm = ''s'' then 4 else 1)"

lemma bm_bit_exp: "bm \<in> set BOOL_MODES \<Longrightarrow> bm_bit bm = push_bit (mode_exp bm) 1 \<and> mode_exp bm < 8"
  by (auto simp: BOOL_MODES_def mode_bit_defs mode_exp_def)

lemma mode_exp_inj: "b \<in> set BOOL_MODES \<Longrightarrow> c \<in> set BOOL_MODES \<Longrightarrow> mode_exp b = mode_exp c \<Longrightarrow> b = c"
  by (auto simp: BOOL_MODES_def mode_exp_def)

lemma mode_bits_read:
  assumes "bm \<in> set BOOL_MODES"
  shows "(fold (\<lambda>bm f. if P bm then f OR bm_bit bm else f) BOOL_MODES 0 AND bm_bit bm \<noteq> 0) = P bm"
proof -
  have bit: "bit (bm_bit b) n \<longleftrightarrow> n = mode_exp b" if "b \<in> set BOOL_MODES" for b n
    using bm_bit_exp [OF that] by (auto simp: bit_simps)
  have "(x AND bm_bit bm \<noteq> 0) = bit x (mode_exp bm)" for x
    using bit [OF assms] bm_bit_exp [OF assms] by (auto simp: bit_eq_iff [where 'a = "8 word"] bit_simps)
  moreover have "bit (fold (\<lambda>bm f. if P bm then f OR bm_bit bm else f) BOOL_MODES 0) (mode_exp bm) = P bm"
    unfolding bit_mode_flags using assms bit mode_exp_inj by metis
  ultimately show ?thesis by simp
qed

subsection \<open>Properties\<close>

text \<open>The accumulator writes a mode string that reads back as exactly the changes pushed, in order
  and each with its sign, and counts them.\<close>

theorem mode_accum_roundtrip:
  assumes "list_all (\<lambda>(_, c). c \<noteq> CHR ''+'' \<and> c \<noteq> CHR ''-'') cs"
  shows "read_flags b (ma_flags (accum_push_all cs accum_default)) = cs
    \<and> applied_count (accum_push_all cs accum_default) = length cs
    \<and> accum_is_empty (accum_push_all cs accum_default) = (cs = [])"
proof -
  have "accum_inv [] accum_default" by (simp add: accum_inv_def accum_default_def)
  from accum_push_all_inv [OF this assms] have i: "accum_inv cs (accum_push_all cs accum_default)" by simp
  moreover have "cs = [] \<longleftrightarrow> ma_flags (accum_push_all cs accum_default) = []"
    using i by (auto simp: accum_inv_def accum_push_all_def accum_default_def dest: spec [of _ True])
  ultimately show ?thesis by (simp add: accum_inv_def applied_count_def accum_is_empty_def)
qed

theorem mode_accum_roundtrip_witness:
  "ma_flags (accum_push_all [(True, CHR ''o''), (False, CHR ''v''), (False, CHR ''b'')] accum_default) = ''+o-vb''
   \<and> read_flags True ''+o-vb'' = [(True, CHR ''o''), (False, CHR ''v''), (False, CHR ''b'')]"
proof -
  have "ma_flags (accum_push_all [(True, CHR ''o''), (False, CHR ''v''), (False, CHR ''b'')] accum_default) = ''+o-vb''"
    by (simp add: accum_push_all_def accum_push_def accum_default_def)
  then show ?thesis
    using mode_accum_roundtrip [of "[(True, CHR ''o''), (False, CHR ''v''), (False, CHR ''b'')]" True] by simp
qed

text \<open>A list mode keeps its cap and its masks distinct, adds a mask exactly when there is room and
  it is new, removes exactly the named mask, and announces a change exactly when the list changed.\<close>

theorem list_mode_capped:
  assumes "length lst \<le> MAX_LIST_ENTRIES" "distinct (map ban_mask lst)"
    "apply_list_mode now lst adding msk set_by accum applied flag = (lst', accum', applied')"
  shows "length lst' \<le> MAX_LIST_ENTRIES \<and> distinct (map ban_mask lst')
    \<and> set (map ban_mask lst') =
        (if adding then (if length lst < MAX_LIST_ENTRIES then insert msk (set (map ban_mask lst)) else set (map ban_mask lst))
         else set (map ban_mask lst) - {msk})
    \<and> applied' = (if lst' = lst then applied else applied @ [msk])
    \<and> ma_applied accum' = ma_applied accum + (if lst' = lst then 0 else 1)"
proof (cases adding)
  case True
  then show ?thesis
    using assms by (auto simp: apply_list_mode_def accum_push_def list_ex_iff Let_def split: if_splits)
next
  case False
  define l where "l = filter (\<lambda>b. ban_mask b \<noteq> msk) lst"
  have same: "length l = length lst \<longleftrightarrow> l = lst"
    unfolding l_def by (metis filter_id_conv length_filter_less order_less_irrefl)
  have "length l \<le> length lst" by (simp add: l_def)
  then have len: "length l \<le> MAX_LIST_ENTRIES" using assms(1) by simp
  have d: "distinct (map ban_mask l)" using assms(2) by (simp add: l_def distinct_map_filter)
  have st: "set (map ban_mask l) = set (map ban_mask lst) - {msk}" by (auto simp: l_def)
  have "lst' = l" "accum' = (if l = lst then accum else accum_push False flag accum)"
    "applied' = (if l = lst then applied else applied @ [msk])"
    using assms(3) False same by (auto simp: apply_list_mode_def Let_def l_def [symmetric] split: if_splits)
  moreover have "ma_applied (accum_push False flag accum) = ma_applied accum + 1" by (simp add: accum_push_def)
  ultimately show ?thesis using False len d st by simp
qed

theorem list_mode_capped_witness:
  "length (fst (apply_list_mode 7 [] True ''*!*@h'' ''op'' accum_default [] ''b'')) \<le> MAX_LIST_ENTRIES"
  using list_mode_capped [of "[]" 7 True "''*!*@h''" "''op''" accum_default "[]" "''b''"]
  by (metis distinct.simps(1) list.simps(8) list.size(3) prod.collapse zero_le)

text \<open>A registration keeps a channel: building the record of a channel and seeding a fresh channel
  with it restores the topic and every mode, key and limit included, whatever the fresh channel's
  defaults are.\<close>

theorem registration_roundtrip:
  "ch_modes (seed_from_registration (build_registration folded founder d) (chan_data (channel_entry_new now nm))) = ch_modes d
   \<and> ch_topic (seed_from_registration (build_registration folded founder d) (chan_data (channel_entry_new now nm))) = ch_topic d"
proof -
  define m where "m = ch_modes d"
  have "rc_mode_flags (build_registration folded founder d) =
      fold (\<lambda>bm f. if bm_get bm m then f OR bm_bit bm else f) BOOL_MODES 0"
    by (simp add: build_registration_def m_def Let_def split: option.splits)
  then have flags: "(rc_mode_flags (build_registration folded founder d) AND bm_bit bm \<noteq> 0) = bm_get bm m"
    if "bm \<in> set BOOL_MODES" for bm
    using mode_bits_read that by simp
  have "fold (\<lambda>bm m. bm_set bm (rc_mode_flags (build_registration folded founder d) AND bm_bit bm \<noteq> 0) m) BOOL_MODES x
      = fold (\<lambda>bm m'. bm_set bm (bm_get bm m) m') BOOL_MODES x" for x
    using flags by (intro fold_cong) auto
  moreover have "(fold (\<lambda>bm m'. bm_set bm (bm_get bm m) m') BOOL_MODES x)\<lparr>chan_key := chan_key m, chan_limit := chan_limit m\<rparr> = m" for x
    by (simp add: BOOL_MODES_def)
  ultimately have "ch_modes (seed_from_registration (build_registration folded founder d) (chan_data (channel_entry_new now nm))) = m"
    by (simp add: seed_from_registration_def Let_def) (simp add: build_registration_def m_def Let_def split: option.splits)
  moreover have "ch_topic (seed_from_registration (build_registration folded founder d) (chan_data (channel_entry_new now nm))) = ch_topic d"
    by (cases "ch_topic d") (auto simp: seed_from_registration_def build_registration_def channel_entry_new_def Let_def)
  ultimately show ?thesis by (simp add: m_def)
qed

end
