(* ===== verification/Links.thy ===== *)
theory Links
  imports Modes
begin

text \<open>
  Links, routes and topology (\<open>ferrixd/src/state.rs\<close>): the table of peer links with their queues, the
  owner of every route, the servers behind the peers, the checks that keep the network a tree, and
  the authorisation of what a peer may speak for.
\<close>

subsection \<open>Sending to peers\<close>

definition send_to_link :: "string \<Rightarrow> string \<Rightarrow> server \<Rightarrow> bool \<times> server" where
  "send_to_link sid bytes s =
     (case get (links s) sid of
        Some _ \<Rightarrow> (True, s\<lparr>links := adjust sid (link_send bytes) (links s)\<rparr>)
      | None \<Rightarrow> (False, s))"

definition route_for :: "server \<Rightarrow> string \<Rightarrow> string option" where
  "route_for s sid =
     (if get (links s) sid \<noteq> None then Some sid
      else case get (remote_routes s) sid of
             None \<Rightarrow> None
           | Some owner \<Rightarrow> if get (links s) owner \<noteq> None then Some owner else None)"

definition send_towards :: "string \<Rightarrow> string \<Rightarrow> server \<Rightarrow> bool \<times> server" where
  "send_towards sid bytes s =
     (case route_for s sid of
        Some peer \<Rightarrow> send_to_link peer bytes s
      | None \<Rightarrow> (False, s))"

definition propagate_to_links :: "string \<Rightarrow> server \<Rightarrow> server" where
  "propagate_to_links bytes s = s\<lparr>links := map_vals (link_send bytes) (links s)\<rparr>"

definition forward_to_links :: "string \<Rightarrow> string \<Rightarrow> server \<Rightarrow> server" where
  "forward_to_links origin_sid bytes s =
     s\<lparr>links := map_vals (\<lambda>l. if lh_sid l \<noteq> origin_sid then link_send bytes l else l) (links s)\<rparr>"

definition has_links :: "server \<Rightarrow> bool" where
  "has_links s \<longleftrightarrow> links s \<noteq> []"

definition announce_link_to_others :: "link_handle \<Rightarrow> server \<Rightarrow> server" where
  "announce_link_to_others handle s =
     forward_to_links (lh_sid handle)
       (to_line (Sserver (lh_name handle) (lh_sid handle) (si_sid (info s)) (lh_description handle))) s"

subsection \<open>Names and routes\<close>

definition direct_link :: "server \<Rightarrow> string \<Rightarrow> link_handle option" where
  "direct_link s target =
     (case get (links s) target of
        Some handle \<Rightarrow> Some handle
      | None \<Rightarrow> map_option snd (find (\<lambda>(_, handle). eq_ignore_ascii_case (lh_name handle) target) (links s)))"

definition squit_link :: "string \<Rightarrow> string \<Rightarrow> server \<Rightarrow> string option \<times> server" where
  "squit_link target reason s =
     (case direct_link s target of
        None \<Rightarrow> (None, s)
      | Some handle \<Rightarrow>
          (Some (lh_name handle),
           s\<lparr>links := adjust (lh_sid handle)
               (\<lambda>l. request_close (link_send (to_line (Squit (si_sid (info s)) reason)) l)) (links s),
             links_admin_down := hs_insert (lh_name handle) (links_admin_down s)\<rparr>))"

definition link_admin_down :: "server \<Rightarrow> string \<Rightarrow> bool" where
  "link_admin_down s name \<longleftrightarrow> name \<in> set (links_admin_down s)"

definition clear_link_admin_down :: "string \<Rightarrow> server \<Rightarrow> server" where
  "clear_link_admin_down name s = s\<lparr>links_admin_down := hs_remove name (links_admin_down s)\<rparr>"

definition register_link :: "link_handle \<Rightarrow> server \<Rightarrow> server" where
  "register_link handle s = s\<lparr>links := put (lh_sid handle) handle (links s)\<rparr>"

definition server_name_owner :: "server \<Rightarrow> string \<Rightarrow> string option" where
  "server_name_owner s name =
     (case find (\<lambda>(_, l). eq_ignore_ascii_case (lh_name l) name) (links s) of
        Some (_, link) \<Rightarrow> Some (lh_sid link)
      | None \<Rightarrow> map_option (rs_sid \<circ> snd) (find (\<lambda>(_, r). eq_ignore_ascii_case (rs_name r) name) (remote_servers s)))"

definition DASH :: string where
  "DASH = [CHR 0xE2, CHR 0x80, CHR 0x94]"

definition route_authorize :: "string \<Rightarrow> string \<Rightarrow> server \<Rightarrow> bool \<times> server" where
  "route_authorize peer_sid sid s =
     (if sid = si_sid (info s) then (False, s)
      else case get (remote_routes s) sid of
             Some owner \<Rightarrow> (owner = peer_sid, s)
           | None \<Rightarrow> (True, s\<lparr>remote_routes := put sid peer_sid (remote_routes s)\<rparr>))"

definition try_register_link :: "link_handle \<Rightarrow> server \<Rightarrow> (string + unit) \<times> server" where
  "try_register_link handle s =
     (let name = lh_name handle; sid = lh_sid handle;
          refused = (case server_name_owner s name of Some existing \<Rightarrow> existing \<noteq> sid | None \<Rightarrow> False)
      in if sid = si_sid (info s) \<or> eq_ignore_ascii_case name (si_name (info s)) then
           (Inl (''Server '' @ name @ '' ('' @ sid @ '') is our own identity''), s)
         else if refused then
           (Inl (''Server '' @ name @ '' already exists (SID '' @ the (server_name_owner s name) @ '') '' @ DASH @ '' link would create a loop''), s)
         else
           (case get (remote_routes s) sid of
              Some o1 \<Rightarrow>
                (Inl (''Server '' @ name @ '' ('' @ sid @ '') is already reachable via '' @ o1 @ '' '' @ DASH @ '' link would create a loop''), s)
            | None \<Rightarrow> (Inr (), s\<lparr>remote_routes := put sid sid (remote_routes s), links := put sid handle (links s)\<rparr>)))"

definition accept_remote_server :: "string \<Rightarrow> remote_server \<Rightarrow> server \<Rightarrow> (string + unit) \<times> server" where
  "accept_remote_server peer_sid srv s =
     (let name = rs_name srv; sid = rs_sid srv;
          refused = (case server_name_owner s name of Some existing \<Rightarrow> existing \<noteq> sid | None \<Rightarrow> False)
      in if sid = si_sid (info s) \<or> eq_ignore_ascii_case name (si_name (info s)) then
           (Inl (''Server '' @ name @ '' ('' @ sid @ '') is our own identity '' @ DASH @ '' cycle detected''), s)
         else if refused then
           (Inl (''Server '' @ name @ '' already exists (SID '' @ the (server_name_owner s name) @ '') '' @ DASH @ '' cycle detected''), s)
         else
           (let (ok, s1) = route_authorize peer_sid sid s
            in if \<not> ok then
                 (Inl (''Server '' @ name @ '' ('' @ sid @ '') is already reachable via ''
                     @ (case get (remote_routes s1) sid of Some o1 \<Rightarrow> o1 | None \<Rightarrow> ''another link'')
                     @ '' '' @ DASH @ '' cycle detected''), s1)
               else (Inr (), s1\<lparr>remote_servers := put sid srv (remote_servers s1)\<rparr>)))"

definition route_owner :: "server \<Rightarrow> string \<Rightarrow> string option" where
  "route_owner s sid = get (remote_routes s) sid"

definition remote_servers_snapshot :: "server \<Rightarrow> remote_server list" where
  "remote_servers_snapshot s = map snd (remote_servers s)"

subsection \<open>Authorisation\<close>

definition routed_via :: "server \<Rightarrow> string \<Rightarrow> string \<Rightarrow> bool" where
  "routed_via s sid peer_sid \<longleftrightarrow> get (remote_routes s) sid = Some peer_sid"

definition remote_uid_authorized :: "server \<Rightarrow> string \<Rightarrow> string \<Rightarrow> bool" where
  "remote_uid_authorized s peer_sid uid =
     (case remote_user_by_uid s uid of
        Some user \<Rightarrow> routed_via s (ru_server_sid user) peer_sid
      | None \<Rightarrow> False)"

definition server_source_sid :: "server \<Rightarrow> string \<Rightarrow> string option" where
  "server_source_sid s source = (if CHR ''!'' \<in> set source then None else server_name_owner s source)"

definition server_source_authorized :: "server \<Rightarrow> string \<Rightarrow> string \<Rightarrow> bool" where
  "server_source_authorized s peer_sid source =
     (case server_source_sid s source of Some sid \<Rightarrow> routed_via s sid peer_sid | None \<Rightarrow> False)"

definition remote_source_authorized :: "server \<Rightarrow> string \<Rightarrow> string \<Rightarrow> bool" where
  "remote_source_authorized s peer_sid source =
     (if server_source_sid s source \<noteq> None then server_source_authorized s peer_sid source
      else case get (remote_users s) (fold_key s (source_nick_of source)) of
             Some user \<Rightarrow> routed_via s (ru_server_sid user) peer_sid
           | None \<Rightarrow> False)"

definition link_source_authorized :: "server \<Rightarrow> string \<Rightarrow> string \<Rightarrow> bool" where
  "link_source_authorized s peer_sid source \<longleftrightarrow>
     source = ''*'' \<or> remote_uid_authorized s peer_sid source \<or> server_source_authorized s peer_sid source"

subsection \<open>What output leaves alone\<close>

text \<open>
  Most operations end with lines to clients and peers, history entries and departed identities. None
  of these touches the registries: \<open>quiet s t\<close> says that \<open>t\<close> differs from \<open>s\<close> at most in mailboxes,
  kill marks, link queues, history and \<open>WHOWAS\<close>.
\<close>

definition strip_link :: "link_handle \<Rightarrow> link_handle" where
  "strip_link l = l\<lparr>lh_queue := []\<rparr>"

definition quiet :: "server \<Rightarrow> server \<Rightarrow> bool" where
  "quiet s t \<longleftrightarrow>
     info t = info s \<and> clock_ms t = clock_ms s \<and> clients t = clients s \<and> by_id t = by_id s
     \<and> chans t = chans s \<and> next_chan t = next_chan s \<and> channels t = channels s \<and> ip_conns t = ip_conns s
     \<and> monitors t = monitors s \<and> server_bans t = server_bans s \<and> ip_bans t = ip_bans s
     \<and> remote_routes t = remote_routes s \<and> remote_servers t = remote_servers s \<and> remote_users t = remote_users s
     \<and> remote_by_uid t = remote_by_uid s \<and> remote_channels t = remote_channels s
     \<and> registered_channels t = registered_channels s \<and> chanreg t = chanreg s \<and> plugins t = plugins s
     \<and> next_id t = next_id s \<and> read_markers t = read_markers s \<and> links_admin_down t = links_admin_down s
     \<and> (\<forall>i. ce_data (entries t i) = ce_data (entries s i) \<and> ce_caps (entries t i) = ce_caps (entries s i)
            \<and> ce_id (entries t i) = ce_id (entries s i) \<and> ce_sendq (entries t i) = ce_sendq (entries s i))
     \<and> map_vals strip_link (links t) = map_vals strip_link (links s)"

lemma quiet_refl [simp]: "quiet s s"
  by (simp add: quiet_def)

lemma quiet_trans: "quiet s t \<Longrightarrow> quiet t u \<Longrightarrow> quiet s u"
  unfolding quiet_def by metis

lemma quiet_fields:
  assumes "quiet s t"
  shows "info t = info s" "clock_ms t = clock_ms s" "clients t = clients s" "by_id t = by_id s" "chans t = chans s"
    "next_chan t = next_chan s" "channels t = channels s" "ip_conns t = ip_conns s" "monitors t = monitors s"
    "server_bans t = server_bans s" "ip_bans t = ip_bans s" "remote_routes t = remote_routes s"
    "remote_servers t = remote_servers s" "remote_users t = remote_users s" "remote_by_uid t = remote_by_uid s"
    "remote_channels t = remote_channels s" "registered_channels t = registered_channels s" "chanreg t = chanreg s"
    "plugins t = plugins s" "next_id t = next_id s" "read_markers t = read_markers s"
    "links_admin_down t = links_admin_down s" "ce_data (entries t i) = ce_data (entries s i)"
    "ce_caps (entries t i) = ce_caps (entries s i)" "ce_id (entries t i) = ce_id (entries s i)"
    "ce_sendq (entries t i) = ce_sendq (entries s i)"
  using assms unfolding quiet_def by simp_all

lemma quiet_fold:
  assumes "\<And>x s. quiet s (f x s)"
  shows "quiet s (fold f xs s)"
proof (induction xs arbitrary: s)
  case (Cons x xs)
  then show ?case using quiet_trans [OF assms [of s x] Cons.IH [of "f x s"]] by simp
qed simp

lemma quiet_fold_snd:
  assumes "\<And>x a s. quiet s (snd (f x (a, s)))"
  shows "quiet (snd st) (snd (fold f xs st))"
proof (induction xs arbitrary: st)
  case (Cons x xs)
  obtain a s where st: "st = (a, s)" by fastforce
  then show ?case using quiet_trans [OF assms [of s x a] Cons.IH [of "f x (a, s)"]] by simp
qed simp

lemma quiet_upd_client:
  "(\<And>c. ce_data (f c) = ce_data c \<and> ce_caps (f c) = ce_caps c \<and> ce_id (f c) = ce_id c \<and> ce_sendq (f c) = ce_sendq c)
   \<Longrightarrow> quiet s (upd_client i f s)"
  by (simp add: quiet_def upd_client_def)

lemma quiet_send_client [simp]: "quiet s (send_client b i s)"
  unfolding send_client_def by (rule quiet_upd_client) simp

lemma quiet_request_kill [simp]: "quiet s (upd_client i (request_kill r) s)"
  by (rule quiet_upd_client) (simp add: request_kill_def signal_kill_def)

lemma quiet_to_client [simp]: "quiet s (to_client i e s)"
  by (simp add: to_client_def)

lemma quiet_to_channel_filtered [simp]: "quiet s (to_channel_filtered h e x r st s)"
  unfolding to_channel_filtered_each deliver_each_def by (rule quiet_fold) simp

lemma quiet_to_channel [simp]: "quiet s (to_channel h e x s)" "quiet s (to_channel_capped h e c x s)"
  "quiet s (to_channel_status h e b x s)"
  by (simp_all add: to_channel_def to_channel_capped_def to_channel_status_def)

lemma quiet_broadcast [simp]: "quiet s (broadcast h b x s)"
  unfolding broadcast_def by (rule quiet_fold) (simp split: prod.splits)

lemma quiet_notify_members [simp]: "quiet (snd st) (snd (notify_members mk ids st))"
  unfolding notify_members_def by (rule quiet_fold_snd) simp

lemma quiet_upd_history [simp]: "quiet s (upd_history f s)"
  by (simp add: quiet_def upd_history_def)

lemma quiet_next_msgid [simp]: "quiet s (snd (server_next_msgid s))"
  by (simp add: quiet_def server_next_msgid_def split: prod.splits)

lemma quiet_record_channel_event [simp]: "quiet s (record_channel_event f d m k t s)"
proof -
  obtain i t where "server_next_msgid s = (i, t)" by fastforce
  moreover from this have "quiet s t" using quiet_next_msgid [of s] by simp
  ultimately show ?thesis by (simp add: record_channel_event_def quiet_trans [OF _ quiet_upd_history])
qed

lemma quiet_record_whowas [simp]: "quiet s (record_whowas n u h r s)"
  by (simp add: quiet_def record_whowas_def Let_def)

lemma quiet_notify_monitors [simp]: "quiet s (notify_monitors f c p s)"
  unfolding notify_monitors_def
  by (cases "get (monitors s) f") (auto intro!: quiet_fold split: option.splits)

lemma quiet_monitor [simp]: "quiet s (monitor_online n m s)" "quiet s (monitor_online_mask m s)" "quiet s (monitor_offline n s)"
  by (simp_all add: monitor_online_def monitor_online_mask_def monitor_offline_def)

lemma quiet_extended_monitors [simp]: "quiet s (notify_extended_monitors f e c a s)"
  unfolding notify_extended_monitors_def Let_def
  by (cases "get (monitors s) f") (auto intro!: quiet_fold split: option.splits)

lemma quiet_wallops [simp]: "quiet s (wallops b s)"
  unfolding wallops_def by (rule quiet_fold) (simp split: prod.splits)

lemma quiet_kill_clients [simp]: "quiet s (snd (kill_clients P r s))"
proof -
  define f where "f = (\<lambda>(n :: string, i) (count :: nat, s).
    if P (entries s i) then (count + 1, upd_client i (request_kill r) s) else (count, s))"
  have "quiet s (snd (f x (a, s)))" for x a s by (cases x) (simp add: f_def)
  from quiet_fold_snd [of f "(0, s)" "clients s", OF this] show ?thesis
    by (simp add: kill_clients_def f_def)
qed

lemma strip_link_send [simp]: "strip_link (link_send b l) = strip_link l"
  by (simp add: strip_link_def link_send_def)

lemma map_vals_strip_cong:
  "(\<And>l. strip_link (f l) = strip_link l) \<Longrightarrow> map_vals strip_link (map_vals f m) = map_vals strip_link m"
  by (induction m) (auto simp: map_vals_def)

lemma map_vals_strip_adjust:
  "(\<And>l. strip_link (f l) = strip_link l) \<Longrightarrow> map_vals strip_link (adjust k f m) = map_vals strip_link m"
  by (induction m) (auto simp: map_vals_def adjust_def)

lemma quiet_send_to_link [simp]: "quiet s (snd (send_to_link sid b s))"
  by (simp add: quiet_def send_to_link_def map_vals_strip_adjust split: option.splits)

lemma quiet_send_towards [simp]: "quiet s (snd (send_towards sid b s))"
  by (simp add: send_towards_def split: option.splits)

lemma quiet_propagate [simp]: "quiet s (propagate_to_links b s)" "quiet s (forward_to_links o1 b s)"
  by (simp_all add: quiet_def propagate_to_links_def forward_to_links_def map_vals_strip_cong)

lemmas send_client_fields [simp] = quiet_fields [OF quiet_send_client]
lemmas to_client_fields [simp] = quiet_fields [OF quiet_to_client]
lemmas request_kill_fields [simp] = quiet_fields [OF quiet_request_kill]
lemmas to_channel_fields [simp] = quiet_fields [OF quiet_to_channel(1)] quiet_fields [OF quiet_to_channel(2)]
  quiet_fields [OF quiet_to_channel(3)]
lemmas broadcast_fields [simp] = quiet_fields [OF quiet_broadcast]
lemmas record_event_fields [simp] = quiet_fields [OF quiet_record_channel_event]
lemmas record_whowas_fields [simp] = quiet_fields [OF quiet_record_whowas]
lemmas monitor_fields [simp] = quiet_fields [OF quiet_monitor(1)] quiet_fields [OF quiet_monitor(2)]
  quiet_fields [OF quiet_monitor(3)]
lemmas upd_history_fields [simp] = quiet_fields [OF quiet_upd_history]
lemmas send_towards_fields [simp] = quiet_fields [OF quiet_send_towards] quiet_fields [OF quiet_send_to_link]
lemmas propagate_fields [simp] = quiet_fields [OF quiet_propagate(1)] quiet_fields [OF quiet_propagate(2)]

lemma links_map_fst_strip: "map_vals strip_link l = map_vals strip_link m \<Longrightarrow> map fst l = map fst m"
  by (metis map_fst_map_vals)

lemma quiet_links:
  "quiet s t \<Longrightarrow> map_option strip_link (get (links t) k) = map_option strip_link (get (links s) k)"
  by (metis get_map_vals quiet_def)

end
