(* ===== verification/Channels.thy ===== *)
theory Channels
  imports Links
begin

text \<open>
  The channel registry and the channel operations that arrive over links (\<open>ferrixd/src/state.rs\<close>):
  creation, joins in flight and reaping, renaming, registration, timestamp reconciliation, and the
  join, part, topic, mode and kick of remote users.
\<close>

subsection \<open>Creation, joins in flight and reaping\<close>

definition new_channel :: "string \<Rightarrow> string \<Rightarrow> server \<Rightarrow> nat \<times> server" where
  "new_channel folded display_name s =
     (let h = next_chan s; e = channel_entry_new (now_unix s) display_name;
          e = (case get (registered_channels s) folded of
                 Some r \<Rightarrow> e\<lparr>chan_data := seed_from_registration r (chan_data e)\<rparr>
               | None \<Rightarrow> e)
      in (h, s\<lparr>chans := (chans s)(h := e), next_chan := h + 1, channels := put folded h (channels s)\<rparr>))"

definition get_or_create_channel :: "string \<Rightarrow> string \<Rightarrow> server \<Rightarrow> (nat \<times> bool) \<times> server" where
  "get_or_create_channel folded display_name s =
     (case get (channels s) folded of
        Some h \<Rightarrow> ((h, False), s)
      | None \<Rightarrow> (let (h, s) = new_channel folded display_name s in ((h, True), s)))"

definition add_joining :: "nat \<Rightarrow> server \<Rightarrow> server" where
  "add_joining h s = s\<lparr>chans := (chans s)(h := (chans s h)\<lparr>chan_joining := chan_joining (chans s h) + 1\<rparr>)\<rparr>"

definition begin_join :: "string \<Rightarrow> string \<Rightarrow> server \<Rightarrow> (nat \<times> bool) \<times> server" where
  "begin_join folded display_name s =
     (case get (channels s) folded of
        Some h \<Rightarrow> ((h, False), add_joining h s)
      | None \<Rightarrow> (let (h, s) = new_channel folded display_name s in ((h, True), add_joining h s)))"

definition reap_channel :: "string \<Rightarrow> server \<Rightarrow> server" where
  "reap_channel folded s =
     (case get (channels s) folded of
        None \<Rightarrow> s
      | Some h \<Rightarrow>
          if ch_members (cdata s h) = [] \<and> ch_remote_members (cdata s h) = [] \<and> chan_joining (chans s h) = 0
          then upd_history (forget folded) (s\<lparr>channels := del folded (channels s)\<rparr>)
          else s)"

text \<open>Dropping the guard of a join.\<close>

definition end_join :: "string \<Rightarrow> nat \<Rightarrow> server \<Rightarrow> server" where
  "end_join folded h s =
     reap_channel folded (s\<lparr>chans := (chans s)(h := (chans s h)\<lparr>chan_joining := chan_joining (chans s h) - 1\<rparr>)\<rparr>)"

subsection \<open>Registration\<close>

definition store_send :: "store_op \<Rightarrow> server \<Rightarrow> server" where
  "store_send p s = s\<lparr>chanreg := map_option (\<lambda>q. q @ [p]) (chanreg s)\<rparr>"

definition is_channel_registered :: "server \<Rightarrow> string \<Rightarrow> bool" where
  "is_channel_registered s folded \<longleftrightarrow> get (registered_channels s) folded \<noteq> None"

definition channel_founder :: "server \<Rightarrow> string \<Rightarrow> string option" where
  "channel_founder s folded = map_option rc_founder (get (registered_channels s) folded)"

definition register_channel :: "string \<Rightarrow> string \<Rightarrow> server \<Rightarrow> bool \<times> server" where
  "register_channel folded founder s =
     (if get (registered_channels s) folded \<noteq> None then (False, s)
      else
        (let r = (case find_channel s folded of
                    Some h \<Rightarrow> build_registration folded founder (cdata s h)
                  | None \<Rightarrow>
                      \<lparr>rc_folded = folded, rc_name = folded, rc_founder = founder, rc_topic_text = None,
                       rc_topic_setby = [], rc_topic_setat = 0,
                       rc_mode_flags = or MODE_NO_EXTERNAL MODE_TOPIC_LOCK, rc_key = None, rc_limit = None\<rparr>)
         in (True, (store_send (Upsert r) s)\<lparr>registered_channels := put folded r (registered_channels s)\<rparr>)))"

definition drop_channel_registration :: "string \<Rightarrow> server \<Rightarrow> server" where
  "drop_channel_registration folded s =
     (if get (registered_channels s) folded \<noteq> None
      then (store_send (DeleteRow folded) s)\<lparr>registered_channels := del folded (registered_channels s)\<rparr>
      else s)"

definition persist_registered :: "string \<Rightarrow> server \<Rightarrow> server" where
  "persist_registered folded s =
     (case get (registered_channels s) folded of
        None \<Rightarrow> s
      | Some old \<Rightarrow>
          (case find_channel s folded of
             None \<Rightarrow> s
           | Some h \<Rightarrow>
               (let r = build_registration folded (rc_founder old) (cdata s h)
                in (store_send (Upsert r) s)\<lparr>registered_channels := put folded r (registered_channels s)\<rparr>)))"

subsection \<open>Renaming\<close>

datatype rename_error = NoSuchChannel | NameInUse

definition ends_with :: "string \<Rightarrow> string \<Rightarrow> bool" where
  "ends_with s t \<longleftrightarrow> length t \<le> length s \<and> drop (length s - length t) s = t"

definition rename_markers :: "string \<Rightarrow> string \<Rightarrow> (string, nat) table \<Rightarrow> (string, nat) table" where
  "rename_markers old_folded new_folded markers =
     (let sfx = NUL # old_folded;
          moved = filter (\<lambda>(key, _). ends_with key sfx) markers
      in fold (\<lambda>(key, value) m. put (take (length key - length sfx) key @ NUL # new_folded) value (del key m)) moved markers)"

definition swap_name :: "string \<Rightarrow> string \<Rightarrow> string list \<Rightarrow> string list" where
  "swap_name old new names = hs_insert new (hs_remove old names)"

definition rename_registration :: "string \<Rightarrow> string \<Rightarrow> string \<Rightarrow> server \<Rightarrow> server" where
  "rename_registration old_folded new_folded new_name s =
     (case get (registered_channels s) old_folded of
        None \<Rightarrow> s
      | Some r \<Rightarrow>
          persist_registered new_folded
            ((store_send (DeleteRow old_folded) s)\<lparr>registered_channels :=
               put new_folded (r\<lparr>rc_folded := new_folded, rc_name := new_name\<rparr>) (del old_folded (registered_channels s))\<rparr>))"

definition rename_members :: "string \<Rightarrow> string \<Rightarrow> nat list \<Rightarrow> server \<Rightarrow> server" where
  "rename_members old_folded new_folded ids s =
     fold (\<lambda>i s. case by_id_get s i of
         Some i \<Rightarrow> upd_client_data i (\<lambda>d. d\<lparr>cd_channels := swap_name old_folded new_folded (cd_channels d)\<rparr>) s
       | None \<Rightarrow> s) ids s"

definition rename_channel :: "string \<Rightarrow> string \<Rightarrow> server \<Rightarrow> (rename_error + nat) \<times> server" where
  "rename_channel old_folded new_name s =
     (let new_folded = fold_key s new_name
      in case find_channel s old_folded of
           None \<Rightarrow> (Inl NoSuchChannel, s)
         | Some h \<Rightarrow>
             if new_folded \<noteq> old_folded \<and> get (channels s) new_folded \<noteq> None then (Inl NameInUse, s)
             else if new_folded = old_folded then (Inr h, upd_chan h (\<lambda>d. d\<lparr>ch_name := new_name\<rparr>) s)
             else
               (let s = s\<lparr>channels := del old_folded (put new_folded h (channels s))\<rparr>;
                    s = upd_chan h (\<lambda>d. d\<lparr>ch_name := new_name\<rparr>) s;
                    local_ids = keys_of (ch_members (cdata s h));
                    remote_uids = keys_of (ch_remote_members (cdata s h));
                    s = rename_members old_folded new_folded local_ids s;
                    s = s\<lparr>remote_channels := fold (\<lambda>uid. adjust uid (swap_name old_folded new_folded)) remote_uids (remote_channels s)\<rparr>;
                    s = upd_history (rename_target old_folded new_folded) s;
                    s = rename_registration old_folded new_folded new_name s
                in (Inr h, s\<lparr>read_markers := rename_markers old_folded new_folded (read_markers s)\<rparr>)))"

subsection \<open>Timestamps\<close>

definition channel_ts :: "server \<Rightarrow> string \<Rightarrow> nat" where
  "channel_ts s channel_display =
     (case find_channel s (fold_key s channel_display) of Some h \<Rightarrow> ch_created_at (cdata s h) | None \<Rightarrow> 0)"

definition channel_ts_wins_over :: "server \<Rightarrow> nat \<Rightarrow> nat \<Rightarrow> bool" where
  "channel_ts_wins_over s h peer_ts \<longleftrightarrow> peer_ts \<noteq> 0 \<and> ch_created_at (cdata s h) < peer_ts"

text \<open>The changes that take a channel down to a blank one: the announced flags and arguments. The
  names of local members come from their entries.\<close>

definition strip_bools :: "channel_modes \<Rightarrow> mode_accum \<Rightarrow> channel_modes \<times> mode_accum" where
  "strip_bools m a =
     fold (\<lambda>bm (m, a). if bm_get bm m then (bm_set bm False m, accum_push False (bm_letter bm) a) else (m, a)) BOOL_MODES (m, a)"

definition strip_prefix_of :: "string \<Rightarrow> member_prefix \<Rightarrow> mode_accum \<times> string list \<Rightarrow> mode_accum \<times> string list" where
  "strip_prefix_of nick p st =
     (case st of (a, args) \<Rightarrow>
        (let (a, args) = (if mp_op p then (accum_push False ''o'' a, args @ [nick]) else (a, args))
         in if mp_voice p then (accum_push False ''v'' a, args @ [nick]) else (a, args)))"

definition blank_channel :: "(nat \<Rightarrow> string) \<Rightarrow> nat \<Rightarrow> channel_data \<Rightarrow> channel_data \<times> mode_accum \<times> string list" where
  "blank_channel nick_of peer_ts d =
     (let (m, a) = strip_bools (ch_modes d) accum_default;
          (a, args) = (if chan_key m \<noteq> None then (accum_push False ''k'' a, [''*'']) else (a, []));
          a = (if chan_limit m \<noteq> None then accum_push False ''l'' a else a);
          (a, args) = fold (\<lambda>(i, p). strip_prefix_of (nick_of i) p) (ch_members d) (a, args);
          (a, args) = fold (\<lambda>(_, rm). strip_prefix_of (rm_nick rm) (rm_prefix rm)) (ch_remote_members d) (a, args)
      in (d\<lparr>ch_created_at := peer_ts, ch_modes := m\<lparr>chan_key := None, chan_limit := None\<rparr>,
            ch_members := map_vals (\<lambda>_. prefix_default) (ch_members d),
            ch_remote_members := map_vals (\<lambda>rm. rm\<lparr>rm_prefix := prefix_default\<rparr>) (ch_remote_members d)\<rparr>,
          a, args))"

definition mode_line :: "string \<Rightarrow> string \<Rightarrow> string \<Rightarrow> string list \<Rightarrow> string" where
  "mode_line source display flags args =
     line_build (foldl line_param (line_param (line_param (line_command (line_server source) ''MODE'') display) flags) args)"

definition reconcile_channel_ts :: "nat \<Rightarrow> nat \<Rightarrow> server \<Rightarrow> server" where
  "reconcile_channel_ts h peer_ts s =
     (if peer_ts = 0 then s
      else if ch_created_at (cdata s h) \<le> peer_ts then s
      else
        (let (d, a, args) = blank_channel (\<lambda>i. entry_nick (entries s i)) peer_ts (cdata s h);
             s = upd_chan h (\<lambda>_. d) s
         in if accum_is_empty a then s
            else broadcast h (mode_line (si_name (info s)) (ch_name d) (ma_flags a) args) None s))"

subsection \<open>Remote membership\<close>

definition remote_channels_insert :: "string \<Rightarrow> string \<Rightarrow> server \<Rightarrow> server" where
  "remote_channels_insert uid folded s =
     s\<lparr>remote_channels := put uid (hs_insert folded (case get (remote_channels s) uid of Some c \<Rightarrow> c | None \<Rightarrow> [])) (remote_channels s)\<rparr>"

definition remote_channel_removed :: "string \<Rightarrow> string \<Rightarrow> server \<Rightarrow> server" where
  "remote_channel_removed uid folded s =
     s\<lparr>remote_channels := adjust uid (hs_remove folded) (remote_channels s)\<rparr>"

definition remote_join :: "string \<Rightarrow> string \<Rightarrow> member_prefix \<Rightarrow> nat \<Rightarrow> server \<Rightarrow> server" where
  "remote_join channel_name uid mp peer_ts s =
     (case remote_user_by_uid s uid of
        None \<Rightarrow> s
      | Some user \<Rightarrow>
          (let folded = fold_key s channel_name;
               ((h, created), s) = begin_join folded channel_name s;
               s = (if \<not> created then reconcile_channel_ts h peer_ts s
                    else if peer_ts > 0 then upd_chan h (\<lambda>d. d\<lparr>ch_created_at := peer_ts\<rparr>) s else s);
               mp = (if channel_ts_wins_over s h peer_ts then prefix_default else mp);
               already = (get (ch_remote_members (cdata s h)) uid \<noteq> None);
               s = upd_chan h (\<lambda>d. d\<lparr>ch_remote_members := put uid
                     \<lparr>rm_nick = ru_nick user, rm_user = ru_user user, rm_host = ru_host user,
                      rm_server_sid = ru_server_sid user, rm_prefix = mp\<rparr> (ch_remote_members d)\<rparr>) s;
               display = ch_name (cdata s h);
               s = remote_channels_insert uid folded s
           in end_join folded h
                (if already then s
                 else
                   (let body = line_body (line_param (line_command (line_user (ru_nick user) (ru_user user) (ru_host user)) ''JOIN'') display);
                        join_ev = with_suffix ExtendedJoin ('' '' @ unwrap_star (ru_account user) @ '' :'' @ ru_realname user)
                          (with_account (ru_account user) (with_time (format_server_time (now_millis s)) (event_new body)))
                    in record_channel_event (fold_key s display) display (remote_hostmask user) Join [] (to_channel h join_ev None s)))))"

definition remote_part :: "string \<Rightarrow> string \<Rightarrow> string \<Rightarrow> server \<Rightarrow> server" where
  "remote_part channel_name uid reason s =
     (let folded = fold_key s channel_name
      in case find_channel s folded of
           None \<Rightarrow> s
         | Some h \<Rightarrow>
             (let removed = (get (ch_remote_members (cdata s h)) uid \<noteq> None);
                  display = ch_name (cdata s h);
                  s = upd_chan h (\<lambda>d. d\<lparr>ch_remote_members := del uid (ch_remote_members d)\<rparr>) s
              in if \<not> removed then s
                 else
                   (let s = remote_channel_removed uid folded s;
                        s = (case remote_user_by_uid s uid of
                               None \<Rightarrow> s
                             | Some user \<Rightarrow>
                                 record_channel_event folded display (remote_hostmask user) Part reason
                                   (broadcast h (line_build (line_trailing (line_param (line_command
                                      (line_user (ru_nick user) (ru_user user) (ru_host user)) ''PART'') display) reason)) None s))
                    in reap_channel folded s)))"

definition remote_topic :: "string \<Rightarrow> string \<Rightarrow> string \<Rightarrow> nat \<Rightarrow> string \<Rightarrow> server \<Rightarrow> server" where
  "remote_topic channel_name source set_by set_at text s =
     (let folded = fold_key s channel_name
      in case find_channel s folded of
           None \<Rightarrow> s
         | Some h \<Rightarrow>
             (let s = upd_chan h (\<lambda>d. d\<lparr>ch_topic := (if text = [] then None
                    else Some \<lparr>topic_text = text, topic_set_by = set_by, topic_set_at = set_at\<rparr>)\<rparr>) s;
                  display = ch_name (cdata s h);
                  s = broadcast h (line_build (line_trailing (line_param (line_command
                        (line_server (remote_source_mask s source)) ''TOPIC'') display) text)) None s;
                  s = (if source \<noteq> ''*'' then record_channel_event folded display (remote_source_mask s source) Topic text s else s)
              in persist_registered folded s))"

subsection \<open>Mode changes\<close>

datatype prefix_target = PTLocal nat | PTRemote string

datatype mode_step =
    StepBool rchar bool
  | StepPrefix rchar bool prefix_target string string
  | StepKey bool "string option"
  | StepLimit bool "nat option"
  | StepList rchar bool string

text \<open>The pre-resolution loop over the flag characters: the sign and the arguments left are its state.\<close>

definition prefix_step :: "server \<Rightarrow> rchar \<Rightarrow> bool \<Rightarrow> string \<Rightarrow> mode_step list" where
  "prefix_step s c adding uid =
     (case local_id_of_uid s uid of
        Some i \<Rightarrow>
          (case by_id_get s i of
             Some i \<Rightarrow> [StepPrefix c adding (PTLocal i) (entry_nick (entries s i)) uid]
           | None \<Rightarrow> [])
      | None \<Rightarrow>
          (case remote_user_by_uid s uid of
             Some user \<Rightarrow> [StepPrefix c adding (PTRemote uid) (ru_nick user) uid]
           | None \<Rightarrow> []))"

text \<open>One flag character: the steps it adds, the sign after it and the arguments left.\<close>

definition mode_char :: "server \<Rightarrow> rchar \<Rightarrow> bool \<Rightarrow> string list \<Rightarrow> mode_step list \<times> bool \<times> string list" where
  "mode_char s c adding rest =
     (if c = ''+'' then ([], True, rest)
      else if c = ''-'' then ([], False, rest)
      else if c = ''o'' \<or> c = ''v'' then
        (case rest of [] \<Rightarrow> ([], adding, rest) | uid # rest \<Rightarrow> (prefix_step s c adding uid, adding, rest))
      else if c = ''k'' then
        (if adding then
           (case rest of [] \<Rightarrow> ([], adding, rest) | key # rest \<Rightarrow> ([StepKey adding (Some key)], adding, rest))
         else ([StepKey adding None], adding, rest))
      else if c = ''l'' then
        (if adding then
           (case rest of
              [] \<Rightarrow> ([], adding, rest)
            | v # rest \<Rightarrow>
                (case parse_u64 v of
                   Some limit \<Rightarrow> ([StepLimit adding (Some limit)], adding, rest)
                 | None \<Rightarrow> ([], adding, rest)))
         else ([StepLimit adding None], adding, rest))
      else if c = ''b'' \<or> c = ''e'' \<or> c = ''I'' then
        (case rest of [] \<Rightarrow> ([], adding, rest) | msk # rest \<Rightarrow> ([StepList c adding msk], adding, rest))
      else if list_ex (\<lambda>bm. bm_letter bm = c) BOOL_MODES then ([StepBool c adding], adding, rest)
      else ([], adding, rest))"

primrec mode_steps :: "server \<Rightarrow> rchar list \<Rightarrow> string list \<Rightarrow> bool \<Rightarrow> mode_step list" where
  "mode_steps s [] rest adding = []"
| "mode_steps s (c # cs) rest adding =
     (let (steps, adding, rest) = mode_char s c adding rest in steps @ mode_steps s cs rest adding)"

record mode_state =
  ms_data :: channel_data
  ms_accum :: mode_accum
  ms_applied :: "string list"
  ms_wire :: "string list"

definition set_prefix :: "rchar \<Rightarrow> bool \<Rightarrow> member_prefix \<Rightarrow> member_prefix" where
  "set_prefix c adding p = (if c = ''o'' then p\<lparr>mp_op := adding\<rparr> else p\<lparr>mp_voice := adding\<rparr>)"

definition list_of :: "rchar \<Rightarrow> channel_data \<Rightarrow> ban list" where
  "list_of c d = (if c = ''b'' then ch_bans d else if c = ''e'' then ch_exceptions d else ch_invex d)"

definition set_list :: "rchar \<Rightarrow> ban list \<Rightarrow> channel_data \<Rightarrow> channel_data" where
  "set_list c l d = (if c = ''b'' then d\<lparr>ch_bans := l\<rparr> else if c = ''e'' then d\<lparr>ch_exceptions := l\<rparr> else d\<lparr>ch_invex := l\<rparr>)"

fun apply_step :: "nat \<Rightarrow> string \<Rightarrow> mode_step \<Rightarrow> mode_state \<Rightarrow> mode_state" where
  "apply_step now setter (StepBool c adding) st =
     (case find (\<lambda>bm. bm_letter bm = c) BOOL_MODES of
        Some bm \<Rightarrow> st\<lparr>ms_data := (ms_data st)\<lparr>ch_modes := bm_set bm adding (ch_modes (ms_data st))\<rparr>,
                      ms_accum := accum_push adding c (ms_accum st)\<rparr>
      | None \<Rightarrow> st)"
| "apply_step now setter (StepPrefix c adding target nick uid) st =
     (let d = ms_data st;
          (present, d') =
            (case target of
               PTLocal i \<Rightarrow> (get (ch_members d) i \<noteq> None, d\<lparr>ch_members := adjust i (set_prefix c adding) (ch_members d)\<rparr>)
             | PTRemote u \<Rightarrow> (get (ch_remote_members d) u \<noteq> None,
                 d\<lparr>ch_remote_members := adjust u (\<lambda>rm. rm\<lparr>rm_prefix := set_prefix c adding (rm_prefix rm)\<rparr>) (ch_remote_members d)\<rparr>))
      in if present
         then st\<lparr>ms_data := d', ms_accum := accum_push adding c (ms_accum st),
                 ms_applied := ms_applied st @ [nick], ms_wire := ms_wire st @ [uid]\<rparr>
         else st)"
| "apply_step now setter (StepKey adding key) st =
     (let st = st\<lparr>ms_data := (ms_data st)\<lparr>ch_modes := (ch_modes (ms_data st))\<lparr>chan_key := key\<rparr>\<rparr>,
                  ms_accum := accum_push adding ''k'' (ms_accum st)\<rparr>
      in case key of
           Some k \<Rightarrow> st\<lparr>ms_applied := ms_applied st @ [k], ms_wire := ms_wire st @ [k]\<rparr>
         | None \<Rightarrow> st\<lparr>ms_applied := ms_applied st @ [''*'']\<rparr>)"
| "apply_step now setter (StepLimit adding limit) st =
     (let st = st\<lparr>ms_data := (ms_data st)\<lparr>ch_modes := (ch_modes (ms_data st))\<lparr>chan_limit := limit\<rparr>\<rparr>,
                  ms_accum := accum_push adding ''l'' (ms_accum st)\<rparr>
      in case limit of
           Some l \<Rightarrow> st\<lparr>ms_applied := ms_applied st @ [dec l], ms_wire := ms_wire st @ [dec l]\<rparr>
         | None \<Rightarrow> st)"
| "apply_step now setter (StepList c adding msk) st =
     (let (l, accum, applied) =
            apply_list_mode now (list_of c (ms_data st)) adding msk setter (ms_accum st) (ms_applied st) c
      in st\<lparr>ms_data := set_list c l (ms_data st), ms_accum := accum, ms_applied := applied,
            ms_wire := ms_wire st @ (if length (ms_applied st) < length applied then [applied ! length (ms_applied st)] else [])\<rparr>)"

definition apply_mode_change :: "string \<Rightarrow> string \<Rightarrow> nat \<Rightarrow> string \<Rightarrow> string list \<Rightarrow> server
    \<Rightarrow> (string \<times> string list \<times> string list) option \<times> server" where
  "apply_mode_change channel_name source peer_ts flags args s =
     (let folded = fold_key s channel_name
      in case find_channel s folded of
           None \<Rightarrow> (None, s)
         | Some h \<Rightarrow>
             if peer_ts > 0 \<and> channel_ts_wins_over s h peer_ts then (None, s)
             else
               (let s = (if peer_ts > 0 then reconcile_channel_ts h peer_ts s else s);
                    setter = remote_source_nick s source;
                    st = fold (apply_step (now_unix s) setter) (mode_steps s (chars flags) args True)
                           \<lparr>ms_data = cdata s h, ms_accum = accum_default, ms_applied = [], ms_wire = []\<rparr>;
                    s = upd_chan h (\<lambda>_. ms_data st) s;
                    display = ch_name (cdata s h)
                in if accum_is_empty (ms_accum st) then (None, s)
                   else
                     (let s = broadcast h (mode_line (remote_source_mask s source) display (ma_flags (ms_accum st)) (ms_applied st)) None s;
                          s = persist_registered folded s
                      in (Some (ma_flags (ms_accum st), ms_applied st, ms_wire st), s))))"

definition mode_text :: "string \<Rightarrow> string list \<Rightarrow> string" where
  "mode_text flags args = (if args = [] then flags else flags @ '' '' @ join [SP] args)"

definition remote_mode :: "string \<Rightarrow> string \<Rightarrow> nat \<Rightarrow> string \<Rightarrow> string list \<Rightarrow> server \<Rightarrow> server" where
  "remote_mode channel_name source peer_ts flags args s =
     (let (r, s) = apply_mode_change channel_name source peer_ts flags args s
      in case r of
           None \<Rightarrow> s
         | Some (applied_flags, applied_args, _) \<Rightarrow>
             if source = ''*'' then s
             else
               (let folded = fold_key s channel_name;
                    display = (case find_channel s folded of Some h \<Rightarrow> ch_name (cdata s h) | None \<Rightarrow> channel_name)
                in record_channel_event folded display (remote_source_mask s source) Mode (mode_text applied_flags applied_args) s))"

subsection \<open>Kicks\<close>

definition kick_line :: "string \<Rightarrow> string \<Rightarrow> string \<Rightarrow> string \<Rightarrow> string" where
  "kick_line msk display nick reason =
     line_build (line_trailing (line_param (line_param (line_command (line_server msk) ''KICK'') display) nick) reason)"

definition remote_kick :: "string \<Rightarrow> string \<Rightarrow> string \<Rightarrow> string \<Rightarrow> server \<Rightarrow> server" where
  "remote_kick channel_name source target_uid reason s =
     (let folded = fold_key s channel_name
      in case find_channel s folded of
           None \<Rightarrow> s
         | Some h \<Rightarrow>
             (let msk = remote_source_mask s source; display = ch_name (cdata s h)
              in case local_id_of_uid s target_uid of
                   Some i \<Rightarrow>
                     (case by_id_get s i of
                        None \<Rightarrow> s
                      | Some i \<Rightarrow>
                          if \<not> has_member (cdata s h) i then s
                          else
                            (let nick = entry_nick (entries s i);
                                 s = broadcast h (kick_line msk display nick reason) None s;
                                 s = record_channel_event folded display msk Kick (nick @ '' '' @ reason) s;
                                 s = upd_chan h (\<lambda>d. d\<lparr>ch_members := del i (ch_members d)\<rparr>) s;
                                 s = upd_client_data i (\<lambda>d. d\<lparr>cd_channels := hs_remove folded (cd_channels d)\<rparr>) s
                             in reap_channel folded s))
                 | None \<Rightarrow>
                     (case get (ch_remote_members (cdata s h)) target_uid of
                        None \<Rightarrow> s
                      | Some member \<Rightarrow>
                          (let s = upd_chan h (\<lambda>d. d\<lparr>ch_remote_members := del target_uid (ch_remote_members d)\<rparr>) s;
                               s = remote_channel_removed target_uid folded s;
                               s = broadcast h (kick_line msk display (rm_nick member) reason) None s;
                               s = record_channel_event folded display msk Kick (rm_nick member @ '' '' @ reason) s
                           in reap_channel folded s))))"

end
