(* ===== verification/Remote.thy ===== *)
theory Remote
  imports Channels
begin

text \<open>
  Users of other servers (\<open>ferrixd/src/state.rs\<close>): the registry of remote users with its index by
  network id, nickname collisions, quits, kills and netsplits, and the changes of a remote user that
  arrive over a link.
\<close>

subsection \<open>The registry\<close>

definition remote_insert :: "string \<Rightarrow> remote_user \<Rightarrow> server \<Rightarrow> server" where
  "remote_insert folded user s =
     (let s = (case get (remote_users s) folded of
                 Some prev \<Rightarrow> if ru_uid prev \<noteq> ru_uid user then s\<lparr>remote_by_uid := del (ru_uid prev) (remote_by_uid s)\<rparr> else s
               | None \<Rightarrow> s)
      in s\<lparr>remote_by_uid := put (ru_uid user) folded (remote_by_uid s), remote_users := put folded user (remote_users s)\<rparr>)"

definition register_remote_user :: "remote_user \<Rightarrow> server \<Rightarrow> server" where
  "register_remote_user user s = remote_insert (fold_key s (ru_nick user)) user s"

definition remote_remove_by_uid :: "string \<Rightarrow> server \<Rightarrow> remote_user option \<times> server" where
  "remote_remove_by_uid uid s =
     (case get (remote_by_uid s) uid of
        None \<Rightarrow> (None, s)
      | Some folded \<Rightarrow>
          (get (remote_users s) folded,
           s\<lparr>remote_by_uid := del uid (remote_by_uid s), remote_users := del folded (remote_users s)\<rparr>))"

definition remote_membership_channels :: "server \<Rightarrow> string \<Rightarrow> nat list" where
  "remote_membership_channels s uid =
     (case get (remote_channels s) uid of
        None \<Rightarrow> []
      | Some folded \<Rightarrow> List.map_filter (find_channel s) folded)"

subsection \<open>Leaving\<close>

definition quit_line :: "string \<Rightarrow> remote_user \<Rightarrow> string" where
  "quit_line reason user =
     line_build (line_trailing (line_command (line_user (ru_nick user) (ru_user user) (ru_host user)) ''QUIT'') reason)"

text \<open>One channel of the departing user.\<close>

definition purge_channel :: "string \<Rightarrow> string \<Rightarrow> remote_user option \<Rightarrow> string \<Rightarrow> nat list \<times> server \<Rightarrow> nat list \<times> server" where
  "purge_channel uid reason user folded st =
     (case st of (notified, s) \<Rightarrow>
        (case find_channel s folded of
           None \<Rightarrow> (notified, s)
         | Some h \<Rightarrow>
             (let removed = (get (ch_remote_members (cdata s h)) uid \<noteq> None);
                  display = ch_name (cdata s h);
                  s = upd_chan h (\<lambda>d. d\<lparr>ch_remote_members := del uid (ch_remote_members d)\<rparr>) s
              in if \<not> removed then (notified, s)
                 else
                   (case user of
                      None \<Rightarrow> (notified, reap_channel folded s)
                    | Some user \<Rightarrow>
                        (let (notified, s) = notify_members (\<lambda>_. quit_line reason user) (keys_of (ch_members (cdata s h))) (notified, s);
                             s = record_channel_event folded display (remote_hostmask user) message_kind.Quit reason s
                         in (notified, reap_channel folded s))))))"

definition purge_remote_memberships :: "string \<Rightarrow> string \<Rightarrow> server \<Rightarrow> server" where
  "purge_remote_memberships uid reason s =
     (case get (remote_channels s) uid of
        None \<Rightarrow> s
      | Some folded_set \<Rightarrow>
          (let s = s\<lparr>remote_channels := del uid (remote_channels s)\<rparr>
           in snd (fold (purge_channel uid reason (remote_user_by_uid s uid)) folded_set ([], s))))"

definition remote_quit :: "string \<Rightarrow> string \<Rightarrow> server \<Rightarrow> server" where
  "remote_quit uid reason s =
     (let departed = remote_user_by_uid s uid;
          s = purge_remote_memberships uid reason s;
          s = snd (remote_remove_by_uid uid s)
      in case departed of
           Some user \<Rightarrow>
             monitor_offline (ru_nick user) (record_whowas (ru_nick user) (ru_user user) (ru_host user) (ru_realname user) s)
         | None \<Rightarrow> s)"

definition kill_by_uid :: "string \<Rightarrow> string \<Rightarrow> server \<Rightarrow> server" where
  "kill_by_uid uid reason s =
     (case local_id_of_uid s uid of
        Some i \<Rightarrow> (case by_id_get s i of Some i \<Rightarrow> upd_client i (request_kill reason) s | None \<Rightarrow> s)
      | None \<Rightarrow> remote_quit uid reason s)"

definition kill_remote :: "remote_user \<Rightarrow> string \<Rightarrow> server \<Rightarrow> server" where
  "kill_remote user reason s = snd (send_towards (ru_server_sid user) (to_line (Kill (ru_uid user) reason)) s)"

subsection \<open>Netsplits\<close>

text \<open>The loop that collects the servers behind a server, one level of the tree per round.\<close>

definition split_more :: "remote_server list \<Rightarrow> string list \<Rightarrow> string list" where
  "split_more servers split =
     map rs_sid (filter (\<lambda>r. rs_uplink r \<in> set split \<and> rs_sid r \<notin> set split) servers)"

lemma split_more_set:
  "set (split_more servers split) = {rs_sid r | r. r \<in> set servers \<and> rs_uplink r \<in> set split \<and> rs_sid r \<notin> set split}"
  by (auto simp: split_more_def)

lemma set_fold_hs_insert [simp]: "set (fold hs_insert xs ys) = set xs \<union> set ys"
  by (induction xs arbitrary: ys) auto

function split_closure :: "remote_server list \<Rightarrow> string list \<Rightarrow> string list" where
  "split_closure servers split =
     (let more = split_more servers split
      in if more = [] then split else split_closure servers (fold hs_insert more split))"
  by pat_completeness auto

termination
proof (relation "measure (\<lambda>(servers, split). card (rs_sid ` set servers - set split))")
  fix servers split more assume more: "more = split_more servers split" "more \<noteq> []"
  then obtain x where x: "x \<in> set more" by (meson list.set_sel(1))
  then have "x \<in> rs_sid ` set servers - set split" using more by (auto simp: split_more_set)
  then have "rs_sid ` set servers - set (fold hs_insert more split) \<subset> rs_sid ` set servers - set split"
    using x by auto
  then show "((servers, fold hs_insert more split), servers, split)
      \<in> measure (\<lambda>(servers, split). card (rs_sid ` set servers - set split))"
    by (simp add: psubset_card_mono del: set_fold_hs_insert)
qed simp

declare split_closure.simps [simp del]

definition quit_all :: "string \<Rightarrow> string list \<Rightarrow> server \<Rightarrow> server" where
  "quit_all reason uids s = fold (\<lambda>uid. remote_quit uid reason) uids s"

definition users_of :: "(string \<Rightarrow> bool) \<Rightarrow> server \<Rightarrow> string list" where
  "users_of P s = map (ru_uid \<circ> snd) (filter (\<lambda>(_, u). P (ru_server_sid u)) (remote_users s))"

definition split_remote_server :: "string \<Rightarrow> string \<Rightarrow> server \<Rightarrow> server" where
  "split_remote_server sid reason s =
     (let split = split_closure (map snd (remote_servers s)) [sid];
          s = s\<lparr>remote_servers := retain (\<lambda>k _. k \<notin> set split) (remote_servers s),
                remote_routes := retain (\<lambda>k _. k \<notin> set split) (remote_routes s)\<rparr>
      in quit_all reason (users_of (\<lambda>x. x \<in> set split) s) s)"

definition NET_SPLIT :: string where "NET_SPLIT = ''*.net *.split''"

definition drop_link :: "string \<Rightarrow> server \<Rightarrow> server" where
  "drop_link sid s =
     (let s = s\<lparr>links := del sid (links s)\<rparr>;
          split_sids = map fst (filter (\<lambda>(_, owner). owner = sid) (remote_routes s));
          s = s\<lparr>remote_routes := retain (\<lambda>_ owner. owner \<noteq> sid) (remote_routes s)\<rparr>;
          s = s\<lparr>remote_servers := retain (\<lambda>k _. k \<notin> set split_sids \<and> k \<noteq> sid) (remote_servers s)\<rparr>;
          s = quit_all NET_SPLIT (users_of (\<lambda>x. x = sid \<or> x \<in> set split_sids) s) s
      in propagate_to_links (to_line (Squit sid NET_SPLIT)) s)"

subsection \<open>Nickname collisions\<close>

definition collision_kill :: "string \<Rightarrow> link_message" where
  "collision_kill uid = Kill uid ''Nick collision''"

definition accept_remote_user :: "remote_user \<Rightarrow> server \<Rightarrow> link_message option \<times> server" where
  "accept_remote_user user s =
     (let folded = fold_key s (ru_nick user)
      in case find_client s folded of
           Some i \<Rightarrow>
             if ru_uid user < local_uid s i then
               (None, monitor_online_mask (remote_hostmask user)
                  (remote_insert folded user (upd_client i (request_kill ''Nick collision'') s)))
             else (Some (collision_kill (ru_uid user)), s)
         | None \<Rightarrow>
             (case get (remote_users s) folded of
                Some existing \<Rightarrow>
                  if ru_uid existing = ru_uid user then (None, remote_insert folded user s)
                  else if ru_uid user < ru_uid existing then
                    (let s = snd (send_towards (ru_server_sid existing) (to_line (collision_kill (ru_uid existing))) s);
                         s = purge_remote_memberships (ru_uid existing) ''Nick collision'' s
                     in (None, monitor_online_mask (remote_hostmask user) (remote_insert folded user s)))
                  else (Some (collision_kill (ru_uid user)), s)
              | None \<Rightarrow> (None, monitor_online_mask (remote_hostmask user) (remote_insert folded user s))))"

definition propagate_nick_change :: "nat \<Rightarrow> string \<Rightarrow> server \<Rightarrow> server" where
  "propagate_nick_change client_id new_nick s =
     (if links s = [] then s
      else propagate_to_links (to_line (link_message.Nick (local_uid s client_id) new_nick)) s)"

text \<open>The collision of a nick change: \<open>None\<close> when the changer may go on, the state either way.\<close>

definition nick_collision :: "string \<Rightarrow> string \<Rightarrow> server \<Rightarrow> link_message option \<times> server" where
  "nick_collision uid new_folded s =
     (let lose = (\<lambda>s. (Some (collision_kill uid),
                       snd (remote_remove_by_uid uid (purge_remote_memberships uid ''Nick collision'' s))))
      in case find_client s new_folded of
           Some i \<Rightarrow>
             if uid < local_uid s i then (None, upd_client i (request_kill ''Nick collision'') s)
             else lose s
         | None \<Rightarrow>
             (case get (remote_users s) new_folded of
                Some existing \<Rightarrow>
                  if uid < ru_uid existing then
                    (let s = snd (send_towards (ru_server_sid existing) (to_line (collision_kill (ru_uid existing))) s);
                         s = purge_remote_memberships (ru_uid existing) ''Nick collision'' s
                     in (None, s\<lparr>remote_by_uid := del (ru_uid existing) (remote_by_uid s)\<rparr>))
                  else lose s
              | None \<Rightarrow> (None, s)))"

text \<open>One channel of a user that changes its nickname.\<close>

definition renick_channel :: "string \<Rightarrow> remote_user \<Rightarrow> string \<Rightarrow> string \<Rightarrow> nat \<Rightarrow> nat list \<times> server \<Rightarrow> nat list \<times> server" where
  "renick_channel uid old new_nick line h st =
     (case st of (notified, s) \<Rightarrow>
        if get (ch_remote_members (cdata s h)) uid = None then (notified, s)
        else
          (let s = upd_chan h (\<lambda>d. d\<lparr>ch_remote_members :=
                     adjust uid (\<lambda>rm. rm\<lparr>rm_nick := new_nick\<rparr>) (ch_remote_members d)\<rparr>) s;
               (notified, s) = notify_members (\<lambda>_. line) (keys_of (ch_members (cdata s h))) (notified, s);
               display = ch_name (cdata s h)
           in (notified, record_channel_event (fold_key s display) display (remote_hostmask old) message_kind.Nick new_nick s)))"

definition remote_nick_change :: "string \<Rightarrow> string \<Rightarrow> server \<Rightarrow> link_message option \<times> server" where
  "remote_nick_change uid new_nick s =
     (case remote_user_by_uid s uid of
        None \<Rightarrow> (None, s)
      | Some old \<Rightarrow>
          if ru_nick old = new_nick then (None, s)
          else
            (let old_folded = fold_key s (ru_nick old); new_folded = fold_key s new_nick;
                 (kill, s) = (if new_folded \<noteq> old_folded then nick_collision uid new_folded s else (None, s))
             in case kill of
                  Some k \<Rightarrow> (Some k, s)
                | None \<Rightarrow>
                    (let s = s\<lparr>remote_users := del old_folded (remote_users s)\<rparr>;
                         s = remote_insert new_folded (old\<lparr>ru_nick := new_nick\<rparr>) s;
                         line = line_build (line_param (line_command
                                  (line_user (ru_nick old) (ru_user old) (ru_host old)) ''NICK'') new_nick);
                         s = snd (fold (renick_channel uid old new_nick line) (remote_membership_channels s uid) ([], s));
                         s = record_whowas (ru_nick old) (ru_user old) (ru_host old) (ru_realname old) s;
                         s = monitor_offline (ru_nick old) s
                     in (None, monitor_online new_nick (mask_of new_nick (ru_user old) (ru_host old)) s))))"

end
