(* ===== verification/Changes.thy ===== *)
theory Changes
  imports Remote
begin

text \<open>
  Changes of a user or a channel that travel over links (\<open>ferrixd/src/state.rs\<close>): what a peer announces
  about its users, applied here and shown to the local clients concerned, and the announcements of the
  same changes by local users.
\<close>

subsection \<open>Announcing local changes\<close>

text \<open>Every \<open>propagate_\<close> operation returns at once without links.\<close>

definition propagate :: "link_message \<Rightarrow> server \<Rightarrow> server" where
  "propagate msg s = (if links s = [] then s else propagate_to_links (to_line msg) s)"

definition propagate_rename :: "nat \<Rightarrow> string \<Rightarrow> string \<Rightarrow> string \<Rightarrow> server \<Rightarrow> server" where
  "propagate_rename client_id old new reason s = propagate (Srename (local_uid s client_id) old new reason) s"

definition propagate_sjoin :: "nat \<Rightarrow> string \<Rightarrow> member_prefix \<Rightarrow> server \<Rightarrow> server" where
  "propagate_sjoin client_id channel_display p s =
     propagate (Sjoin channel_display (local_uid s client_id) (mp_op p) (mp_voice p) (channel_ts s channel_display)) s"

definition propagate_spart :: "nat \<Rightarrow> string \<Rightarrow> string \<Rightarrow> server \<Rightarrow> server" where
  "propagate_spart client_id channel_display reason s = propagate (Spart channel_display (local_uid s client_id) reason) s"

definition propagate_topic :: "nat \<Rightarrow> string \<Rightarrow> string \<Rightarrow> nat \<Rightarrow> string \<Rightarrow> server \<Rightarrow> server" where
  "propagate_topic client_id channel_display set_by set_at text s =
     propagate (Stopic channel_display (local_uid s client_id) set_by set_at text) s"

definition propagate_mode :: "nat \<Rightarrow> string \<Rightarrow> string \<Rightarrow> string list \<Rightarrow> server \<Rightarrow> server" where
  "propagate_mode client_id channel_display flags args s =
     propagate (Smode channel_display (local_uid s client_id) (channel_ts s channel_display) flags args) s"

definition propagate_kick :: "nat \<Rightarrow> string \<Rightarrow> string \<Rightarrow> string \<Rightarrow> server \<Rightarrow> server" where
  "propagate_kick kicker_id channel_display target_uid reason s =
     propagate (Skick channel_display (local_uid s kicker_id) target_uid reason) s"

definition propagate_away :: "nat \<Rightarrow> string option \<Rightarrow> server \<Rightarrow> server" where
  "propagate_away client_id reason s = propagate (Saway (local_uid s client_id) reason) s"

definition propagate_account :: "nat \<Rightarrow> string option \<Rightarrow> server \<Rightarrow> server" where
  "propagate_account client_id account s = propagate (Saccount (local_uid s client_id) (unwrap_star account)) s"

definition propagate_setname :: "nat \<Rightarrow> string \<Rightarrow> server \<Rightarrow> server" where
  "propagate_setname client_id realname s = propagate (Ssetname (local_uid s client_id) realname) s"

definition propagate_umodes :: "nat \<Rightarrow> string \<Rightarrow> server \<Rightarrow> server" where
  "propagate_umodes client_id flags s = propagate (Sumode (local_uid s client_id) flags) s"

definition propagate_chghost :: "nat \<Rightarrow> string \<Rightarrow> server \<Rightarrow> server" where
  "propagate_chghost client_id host s = propagate (Schghost (local_uid s client_id) host) s"

definition propagate_wallops :: "string \<Rightarrow> string \<Rightarrow> server \<Rightarrow> server" where
  "propagate_wallops source text s = propagate (Swallops source text) s"

definition propagate_redact :: "nat \<Rightarrow> string \<Rightarrow> string \<Rightarrow> string \<Rightarrow> server \<Rightarrow> server" where
  "propagate_redact client_id target msgid reason s = propagate (Sredact (local_uid s client_id) target msgid reason) s"

definition propagate_gline :: "bool \<Rightarrow> string \<Rightarrow> string \<Rightarrow> string \<Rightarrow> server \<Rightarrow> server" where
  "propagate_gline add msk set_by reason s = propagate (Sban add msk set_by reason) s"

text \<open>The peers that lead to the servers of a channel's remote members, each once.\<close>

definition member_peers :: "server \<Rightarrow> nat \<Rightarrow> string list" where
  "member_peers s h =
     remdups (List.map_filter (route_for s) (remdups (map (rm_server_sid \<circ> snd) (ch_remote_members (cdata s h)))))"

definition send_to_peers :: "string list \<Rightarrow> string \<Rightarrow> server \<Rightarrow> server" where
  "send_to_peers peers bytes s = fold (\<lambda>peer s. snd (send_to_link peer bytes s)) peers s"

definition propagate_knock :: "string \<Rightarrow> string \<Rightarrow> string \<Rightarrow> server \<Rightarrow> server" where
  "propagate_knock source_uid channel_display msk s =
     (if links s = [] then s
      else case find_channel s (fold_key s channel_display) of
             None \<Rightarrow> s
           | Some h \<Rightarrow> send_to_peers (member_peers s h) (to_line (Sknock source_uid channel_display msk)) s)"

subsection \<open>Changes of a remote user\<close>

definition umode_flags :: "bool \<Rightarrow> bool \<Rightarrow> bool \<Rightarrow> string option" where
  "umode_flags oper invisible is_bot =
     (let flags = (if oper then ''o'' else []) @ (if invisible then ''i'' else []) @ (if is_bot then ''B'' else [])
      in if flags = [] then None else Some (''+'' @ flags))"

definition umode_char :: "rchar \<Rightarrow> bool \<times> remote_user \<Rightarrow> bool \<times> remote_user" where
  "umode_char c st =
     (case st of (adding, user) \<Rightarrow>
        if c = ''+'' then (True, user)
        else if c = ''-'' then (False, user)
        else if c = ''o'' then (adding, user\<lparr>ru_oper := adding\<rparr>)
        else if c = ''i'' then (adding, user\<lparr>ru_invisible := adding\<rparr>)
        else if c = ''B'' then (adding, user\<lparr>ru_bot := adding\<rparr>)
        else (adding, user))"

text \<open>\<open>remote_users.get_mut\<close> through the index by network id: the folded name and the changed record.\<close>

definition change_user :: "string \<Rightarrow> (remote_user \<Rightarrow> remote_user) \<Rightarrow> server \<Rightarrow> (remote_user \<times> remote_user) option \<times> server" where
  "change_user uid f s =
     (case get (remote_by_uid s) uid of
        None \<Rightarrow> (None, s)
      | Some folded \<Rightarrow>
          (case get (remote_users s) folded of
             None \<Rightarrow> (None, s)
           | Some user \<Rightarrow> (Some (user, f user), s\<lparr>remote_users := adjust folded f (remote_users s)\<rparr>)))"

definition remote_umode :: "string \<Rightarrow> string \<Rightarrow> server \<Rightarrow> server" where
  "remote_umode uid flags s = snd (change_user uid (\<lambda>user. snd (fold umode_char (chars flags) (True, user))) s)"

text \<open>A line to the local members of a channel that have a capability and have not had it yet.\<close>

definition notify_capable :: "cap \<Rightarrow> string \<Rightarrow> nat list \<Rightarrow> nat list \<times> server \<Rightarrow> nat list \<times> server" where
  "notify_capable c bytes ids st =
     fold (\<lambda>i (notified, s).
       if has (entry_caps (entries s i)) c \<and> i \<notin> set notified then (hs_insert i notified, send_client bytes i s)
       else (notified, s)) ids st"

definition announce_to_remote_comembers :: "string \<Rightarrow> string \<Rightarrow> cap \<Rightarrow> server \<Rightarrow> server" where
  "announce_to_remote_comembers uid bytes c s =
     (let (notified, s) = fold (\<lambda>h st. notify_capable c bytes (keys_of (ch_members (cdata (snd st) h))) st)
                            (remote_membership_channels s uid) ([], s)
      in case get (remote_by_uid s) uid of
           None \<Rightarrow> s
         | Some folded \<Rightarrow>
             (case get (monitors s) folded of
                None \<Rightarrow> s
              | Some watchers \<Rightarrow>
                  fold (\<lambda>i s.
                    if i \<in> set notified then s
                    else case by_id_get s i of
                           None \<Rightarrow> s
                         | Some w \<Rightarrow>
                             if has (entry_caps (entries s w)) ExtendedMonitor \<and> has (entry_caps (entries s w)) c
                             then send_client bytes w s else s) watchers s))"

definition user_line :: "remote_user \<Rightarrow> string \<Rightarrow> string \<Rightarrow> line" where
  "user_line user host command = line_command (line_user (ru_nick user) (ru_user user) host) command"

definition remote_away :: "string \<Rightarrow> string option \<Rightarrow> server \<Rightarrow> server" where
  "remote_away uid reason s =
     (case change_user uid (\<lambda>u. u\<lparr>ru_away := reason\<rparr>) s of
        (None, s) \<Rightarrow> s
      | (Some (_, user), s) \<Rightarrow>
          (let line = user_line user (ru_host user) ''AWAY'';
               line = (case reason of Some r \<Rightarrow> line_trailing line r | None \<Rightarrow> line)
           in announce_to_remote_comembers uid (line_build line) AwayNotify s))"

definition remote_account :: "string \<Rightarrow> string option \<Rightarrow> server \<Rightarrow> server" where
  "remote_account uid account s =
     (case change_user uid (\<lambda>u. u\<lparr>ru_account := account\<rparr>) s of
        (None, s) \<Rightarrow> s
      | (Some (_, user), s) \<Rightarrow>
          announce_to_remote_comembers uid
            (line_build (line_param (user_line user (ru_host user) ''ACCOUNT'') (unwrap_star account))) AccountNotify s)"

definition remote_setname :: "string \<Rightarrow> string \<Rightarrow> server \<Rightarrow> server" where
  "remote_setname uid realname s =
     (case change_user uid (\<lambda>u. u\<lparr>ru_realname := realname\<rparr>) s of
        (None, s) \<Rightarrow> s
      | (Some (_, user), s) \<Rightarrow>
          announce_to_remote_comembers uid
            (line_build (line_trailing (user_line user (ru_host user) ''SETNAME'') realname)) SetName s)"

definition remote_chghost :: "string \<Rightarrow> string \<Rightarrow> server \<Rightarrow> server" where
  "remote_chghost uid host s =
     (case change_user uid (\<lambda>u. u\<lparr>ru_host := host\<rparr>) s of
        (None, s) \<Rightarrow> s
      | (Some (old, user), s) \<Rightarrow>
          announce_to_remote_comembers uid
            (line_build (line_param (line_param (user_line user (ru_host old) ''CHGHOST'') (ru_user user)) host)) ChgHost s)"

definition remote_wallops :: "string \<Rightarrow> string \<Rightarrow> server \<Rightarrow> server" where
  "remote_wallops source text s =
     wallops (line_build (line_trailing (line_command (line_server source) ''WALLOPS'') text)) s"

definition remote_gline :: "bool \<Rightarrow> string \<Rightarrow> string \<Rightarrow> string \<Rightarrow> server \<Rightarrow> server" where
  "remote_gline add msk set_by reason s =
     (if add then snd (kill_matching msk (''G-Lined: '' @ reason) (add_kline msk reason set_by s))
      else snd (remove_kline msk s))"

subsection \<open>Invitations, knocks, redactions and renames\<close>

definition MAX_PENDING_INVITES :: nat where "MAX_PENDING_INVITES = 256"

text \<open>The bound on pending invitations: a full set loses one entry, the first an iteration meets.\<close>

definition add_invite :: "string \<Rightarrow> string list \<Rightarrow> string list" where
  "add_invite who invited =
     hs_insert who (if MAX_PENDING_INVITES \<le> length invited then tl invited else invited)"

definition remote_invite :: "string \<Rightarrow> string \<Rightarrow> string \<Rightarrow> server \<Rightarrow> server" where
  "remote_invite source_uid target_uid channel_name s =
     (case find_channel s (fold_key s channel_name) of
        None \<Rightarrow> s
      | Some h \<Rightarrow>
          (case Option.bind (local_id_of_uid s target_uid) (by_id_get s) of
             None \<Rightarrow> s
           | Some i \<Rightarrow>
               (case remote_user_by_uid s source_uid of
                  None \<Rightarrow> s
                | Some source \<Rightarrow>
                    (let target_nick = entry_nick (entries s i); display = ch_name (cdata s h);
                         s = upd_chan h (\<lambda>d. d\<lparr>ch_invited := add_invite (fold_key s target_nick) (ch_invited d)\<rparr>) s;
                         body = line_body (line_param (line_param (user_line source (ru_host source) ''INVITE'') target_nick) display);
                         e = with_account (ru_account source) (with_time (format_server_time (now_millis s)) (event_new body))
                     in to_channel_capped h e InviteNotify None (to_client i e s)))))"

definition remote_invite_pending :: "string \<Rightarrow> string \<Rightarrow> server \<Rightarrow> server" where
  "remote_invite_pending folded_nick channel_name s =
     (case find_channel s (fold_key s channel_name) of
        None \<Rightarrow> s
      | Some h \<Rightarrow>
          if MAX_PENDING_INVITES \<le> length (ch_invited (cdata s h)) then s
          else upd_chan h (\<lambda>d. d\<lparr>ch_invited := hs_insert folded_nick (ch_invited d)\<rparr>) s)"

definition RPL_KNOCK :: nat where "RPL_KNOCK = 710"
definition RPL_TOPIC :: nat where "RPL_TOPIC = 332"
definition RPL_NAMREPLY :: nat where "RPL_NAMREPLY = 353"
definition RPL_ENDOFNAMES :: nat where "RPL_ENDOFNAMES = 366"

definition reply :: "server \<Rightarrow> nat \<Rightarrow> string list \<Rightarrow> string \<Rightarrow> string" where
  "reply s code params text =
     line_build (line_trailing (foldl line_param (line_code (line_server (si_name (info s))) code) params) text)"

definition remote_knock :: "string \<Rightarrow> string \<Rightarrow> server \<Rightarrow> server" where
  "remote_knock channel_name msk s =
     (case find_channel s (fold_key s channel_name) of
        None \<Rightarrow> s
      | Some h \<Rightarrow>
          fold (\<lambda>(i, p) s.
            if \<not> mp_op p then s
            else send_client (reply s RPL_KNOCK [entry_nick (entries s i), ch_name (cdata s h), msk] ''has asked for an invite'') i s)
            (member_snapshot s h) s)"

definition redact_event :: "server \<Rightarrow> string \<Rightarrow> string \<Rightarrow> string \<Rightarrow> string \<Rightarrow> event" where
  "redact_event s msk display msgid reason =
     (let line = line_param (line_param (line_command (line_server msk) ''REDACT'') display) msgid;
          line = (if reason = [] then line else line_trailing line reason)
      in with_time (format_server_time (now_millis s)) (event_new (line_body line)))"

definition remote_redact :: "string \<Rightarrow> string \<Rightarrow> string \<Rightarrow> string \<Rightarrow> server \<Rightarrow> server" where
  "remote_redact source target msgid reason s =
     (let msk = remote_source_mask s source; folded = fold_key s target
      in if is_valid_channel target then
           (let s = upd_history (\<lambda>hist. snd (redact folded msgid hist)) s
            in case find_channel s folded of
                 None \<Rightarrow> s
               | Some h \<Rightarrow> to_channel_capped h (redact_event s msk (ch_name (cdata s h)) msgid reason) MessageRedaction None s)
         else
           (let s = upd_history (\<lambda>hist. snd (redact (pair_key (fold_key s (source_nick_of msk)) folded) msgid hist)) s
            in case find_client s folded of
                 None \<Rightarrow> s
               | Some i \<Rightarrow>
                   if has (entry_caps (entries s i)) MessageRedaction
                   then to_client i (redact_event s msk target msgid reason) s else s))"

function chunks :: "nat \<Rightarrow> 'a list \<Rightarrow> 'a list list" where
  "chunks n xs = (if xs = [] \<or> n = 0 then [] else take n xs # chunks n (drop n xs))"
  by pat_completeness auto
termination by (relation "measure (\<lambda>(n, xs). length xs)") auto

declare chunks.simps [simp del]

definition rename_names :: "server \<Rightarrow> nat \<Rightarrow> (string \<times> member_prefix) list" where
  "rename_names s h =
     map (\<lambda>(i, p). (entry_nick (entries s i), p)) (ch_members (cdata s h))
     @ map (\<lambda>(_, m). (rm_nick m, rm_prefix m)) (ch_remote_members (cdata s h))"

text \<open>What a member without the capability gets: it leaves the old name, joins the new one and has its
  topic and names restored.\<close>

definition rename_resync :: "server \<Rightarrow> string \<Rightarrow> string \<Rightarrow> topic option \<Rightarrow> (string \<times> member_prefix) list \<Rightarrow> nat \<Rightarrow> string list" where
  "rename_resync s old_display new_display t names i =
     (let msk = entry_hostmask (entries s i); nick = entry_nick (entries s i);
          multi = has (entry_caps (entries s i)) MultiPrefix;
          rendered = map (\<lambda>(n, p). prefix_render p multi @ n) names
      in [line_build (line_trailing (line_param (line_command (line_server msk) ''PART'') old_display)
            (''Channel renamed to '' @ new_display)),
          line_build (line_param (line_command (line_server msk) ''JOIN'') new_display)]
         @ (case t of Some t \<Rightarrow> [reply s RPL_TOPIC [nick, new_display] (topic_text t)] | None \<Rightarrow> [])
         @ map (\<lambda>chunk. reply s RPL_NAMREPLY [nick, ''='', new_display] (join [SP] chunk)) (chunks 12 rendered)
         @ [reply s RPL_ENDOFNAMES [nick, new_display] ''End of /NAMES list''])"

definition broadcast_rename :: "nat \<Rightarrow> string \<Rightarrow> string \<Rightarrow> string \<Rightarrow> server \<Rightarrow> server" where
  "broadcast_rename h old_display source_mask reason s =
     (let new_display = ch_name (cdata s h); t = ch_topic (cdata s h); names = rename_names s h;
          line = line_param (line_param (line_command (line_server source_mask) ''RENAME'') old_display) new_display;
          line = (if reason = [] then line else line_trailing line reason);
          e = with_time (format_server_time (now_millis s)) (event_new (line_body line))
      in fold (\<lambda>(i, _) s.
           if has (entry_caps (entries s i)) ChannelRename then to_client i e s
           else fold (\<lambda>bytes. send_client bytes i) (rename_resync s old_display new_display t names i) s)
           (member_snapshot s h) s)"

definition remote_rename :: "string \<Rightarrow> string \<Rightarrow> string \<Rightarrow> string \<Rightarrow> server \<Rightarrow> server" where
  "remote_rename source old new reason s =
     (case rename_channel (fold_key s old) new s of
        (Inr h, s) \<Rightarrow> broadcast_rename h old (remote_source_mask s source) reason s
      | (Inl _, s) \<Rightarrow> s)"

end
