(* ===== verification/Relay.thy ===== *)
theory Relay
  imports Changes
begin

text \<open>
  Messages between servers (\<open>ferrixd/src/state.rs\<close>): delivery of relayed messages and their way onward
  along the tree, the actions of plugins, the burst a new peer gets, and the introduction and withdrawal
  of local users.
\<close>

subsection \<open>Relaying\<close>

definition trim_sigils :: "string \<Rightarrow> string" where
  "trim_sigils name = dropWhile (\<lambda>c. c = CHR ''@'' \<or> c = CHR ''+'') name"

definition except_origin :: "string option \<Rightarrow> string list \<Rightarrow> string list" where
  "except_origin origin_sid peers = filter (\<lambda>peer. Some peer \<noteq> origin_sid) peers"

definition relay_channel_message :: "string \<Rightarrow> string \<Rightarrow> bool \<Rightarrow> string option \<Rightarrow> nat option \<Rightarrow> string option
    \<Rightarrow> string \<Rightarrow> string option \<Rightarrow> server \<Rightarrow> server" where
  "relay_channel_message source channel_name notice msgid time_ms tags text origin_sid s =
     (if links s = [] then s
      else case find_channel s (fold_key s (trim_sigils channel_name)) of
             None \<Rightarrow> s
           | Some h \<Rightarrow>
               if ch_remote_members (cdata s h) = [] then s
               else send_to_peers (except_origin origin_sid (member_peers s h))
                      (to_line (ChanMessage source channel_name notice msgid time_ms tags text)) s)"

definition relay_tagmsg :: "string \<Rightarrow> string \<Rightarrow> string \<Rightarrow> string option \<Rightarrow> server \<Rightarrow> server" where
  "relay_tagmsg source channel_display tags origin_sid s =
     (if links s = [] then s
      else case find_channel s (fold_key s channel_display) of
             None \<Rightarrow> s
           | Some h \<Rightarrow>
               if ch_remote_members (cdata s h) = [] then s
               else send_to_peers (except_origin origin_sid (member_peers s h))
                      (to_line (TagMessage source channel_display tags)) s)"

definition send_tagmsg_towards :: "string \<Rightarrow> string \<Rightarrow> string \<Rightarrow> string \<Rightarrow> server \<Rightarrow> server" where
  "send_tagmsg_towards sid source target tags s = snd (send_towards sid (to_line (TagMessage source target tags)) s)"

definition remote_source_meta :: "server \<Rightarrow> string \<Rightarrow> string option \<times> bool" where
  "remote_source_meta s source_nick =
     (case get (remote_users s) (fold_key s source_nick) of
        Some user \<Rightarrow> (ru_account user, ru_bot user)
      | None \<Rightarrow> (None, False))"

definition message_command :: "bool \<Rightarrow> string" where
  "message_command notice = (if notice then ''NOTICE'' else ''PRIVMSG'')"

definition message_kind_of :: "bool \<Rightarrow> message_kind" where
  "message_kind_of notice = (if notice then Notice else PrivMsg)"

text \<open>\<open>msgid.unwrap_or_else(|| self.history.next_msgid())\<close>\<close>

definition msgid_or_next :: "string option \<Rightarrow> server \<Rightarrow> string \<times> server" where
  "msgid_or_next msgid s = (case msgid of Some m \<Rightarrow> (m, s) | None \<Rightarrow> server_next_msgid s)"

definition relayed_body :: "string \<Rightarrow> string \<Rightarrow> string \<Rightarrow> string \<Rightarrow> string" where
  "relayed_body source command target text = '':'' @ source @ [SP] @ command @ [SP] @ target @ '' :'' @ text"

definition message_event :: "string \<Rightarrow> nat \<Rightarrow> string option \<Rightarrow> string \<Rightarrow> bool \<Rightarrow> string option \<Rightarrow> event" where
  "message_event body now_ms account msgid is_bot tags =
     (let e = with_bot is_bot (with_msgid msgid (with_account account (with_time (format_server_time now_ms) (event_new body))))
      in case tags of Some t \<Rightarrow> with_client_tags t e | None \<Rightarrow> e)"

definition deliver_remote_message :: "string \<Rightarrow> string \<Rightarrow> bool \<Rightarrow> string option \<Rightarrow> nat option \<Rightarrow> string option
    \<Rightarrow> string \<Rightarrow> server \<Rightarrow> server" where
  "deliver_remote_message source target notice msgid time_ms tags text s =
     (let folded_target = fold_key s target; source_nick = source_nick_of source
      in case find_client s folded_target of
           Some i \<Rightarrow>
             (let (account, is_bot) = remote_source_meta s source_nick;
                  (mid, s) = msgid_or_next msgid s;
                  now_ms = (case time_ms of Some t \<Rightarrow> t | None \<Rightarrow> now_millis s);
                  target_nick = entry_nick (entries s i);
                  s = upd_history (hist_record (pair_key (fold_key s source_nick) folded_target)
                        \<lparr>sm_msgid = mid, sm_time_ms = now_ms, sm_source = source, sm_account = account,
                         sm_kind = message_kind_of notice, sm_target = target_nick, sm_text = text\<rparr>) s
              in if silences (entries s i) source then s
                 else to_client i (message_event (relayed_body source (message_command notice) target_nick text)
                        now_ms account mid is_bot tags) s)
         | None \<Rightarrow>
             (case find_remote_user s folded_target of
                Some remote \<Rightarrow>
                  snd (send_towards (ru_server_sid remote)
                    (to_line (UserMessage source (ru_nick remote) notice msgid time_ms tags text)) s)
              | None \<Rightarrow> s))"

definition tagmsg_event :: "server \<Rightarrow> string \<Rightarrow> string \<Rightarrow> string \<Rightarrow> string option \<Rightarrow> bool \<Rightarrow> event" where
  "tagmsg_event s source target tags account is_bot =
     with_bot is_bot (with_account account (with_time (format_server_time (now_millis s))
       (with_client_tags tags (event_new ('':'' @ source @ '' TAGMSG '' @ target)))))"

definition deliver_tagmsg :: "string \<Rightarrow> string \<Rightarrow> string \<Rightarrow> string \<Rightarrow> server \<Rightarrow> server" where
  "deliver_tagmsg origin_sid source target tags s =
     (let (account, is_bot) = remote_source_meta s (source_nick_of source); folded = fold_key s target
      in if is_valid_channel target then
           (case find_channel s folded of
              None \<Rightarrow> s
            | Some h \<Rightarrow>
                (let display = ch_name (cdata s h)
                 in relay_tagmsg source display tags (Some origin_sid)
                      (to_channel_capped h (tagmsg_event s source display tags account is_bot) MessageTags None s)))
         else
           (case find_client s folded of
              Some i \<Rightarrow>
                if has (entry_caps (entries s i)) MessageTags
                then to_client i (tagmsg_event s source (entry_nick (entries s i)) tags account is_bot) s else s
            | None \<Rightarrow>
                (case find_remote_user s folded of
                   Some remote \<Rightarrow> send_tagmsg_towards (ru_server_sid remote) source (ru_nick remote) tags s
                 | None \<Rightarrow> s)))"

subsection \<open>Plugin actions\<close>

definition normalize_ban_mask :: "string \<Rightarrow> string" where
  "normalize_ban_mask msk =
     (if strip_prefix ''~'' msk \<noteq> None then msk
      else if CHR ''!'' \<in> set msk then (if CHR ''@'' \<in> set msk then msk else msk @ ''@*'')
      else if CHR ''@'' \<in> set msk then ''*!'' @ msk
      else msk @ ''!*@*'')"

definition say_event :: "server \<Rightarrow> string \<Rightarrow> string \<Rightarrow> string \<Rightarrow> bool \<Rightarrow> event" where
  "say_event s msgid target text notice =
     with_msgid msgid (with_time (format_server_time (now_millis s)) (event_new
       (line_body (line_trailing (line_param (line_command (line_server (si_name (info s))) (message_command notice)) target) text))))"

definition say_stored :: "server \<Rightarrow> string \<Rightarrow> string \<Rightarrow> string \<Rightarrow> bool \<Rightarrow> stored_message" where
  "say_stored s msgid target text notice =
     \<lparr>sm_msgid = msgid, sm_time_ms = now_millis s, sm_source = si_name (info s), sm_account = None,
      sm_kind = message_kind_of notice, sm_target = target, sm_text = text\<rparr>"

definition plugin_say :: "string \<Rightarrow> string \<Rightarrow> bool \<Rightarrow> server \<Rightarrow> server" where
  "plugin_say target text notice s =
     (let folded = fold_key s target
      in if is_valid_channel target then
           (case find_channel s folded of
              None \<Rightarrow> s
            | Some h \<Rightarrow>
                (let display = ch_name (cdata s h); (msgid, s) = server_next_msgid s;
                     s = to_channel h (say_event s msgid display text notice) None s;
                     s = upd_history (hist_record folded (say_stored s msgid display text notice)) s
                 in relay_channel_message (si_name (info s)) display notice (Some msgid) (Some (now_millis s)) None text None s))
         else
           (case find_client s folded of
              Some i \<Rightarrow>
                (let (msgid, s) = server_next_msgid s; target_nick = entry_nick (entries s i);
                     s = to_client i (say_event s msgid target_nick text notice) s
                 in upd_history (hist_record (pair_key (fold_key s (si_name (info s))) folded)
                      (say_stored s msgid target_nick text notice)) s)
            | None \<Rightarrow>
                (case find_remote_user s folded of
                   Some user \<Rightarrow>
                     (let (msgid, s) = server_next_msgid s
                      in snd (send_towards (ru_server_sid user)
                           (to_line (UserMessage (si_name (info s)) (ru_nick user) notice (Some msgid) (Some (now_millis s)) None text)) s))
                 | None \<Rightarrow> s)))"

text \<open>The network id behind a nickname, local clients first.\<close>

definition uid_of_nick :: "server \<Rightarrow> string \<Rightarrow> string option" where
  "uid_of_nick s nick =
     (case find_client s (fold_key s nick) of
        Some i \<Rightarrow> Some (local_uid s i)
      | None \<Rightarrow> map_option ru_uid (find_remote_user s (fold_key s nick)))"

definition plugin_kick :: "string \<Rightarrow> string \<Rightarrow> string \<Rightarrow> server \<Rightarrow> server" where
  "plugin_kick channel nick reason s =
     (case find_channel s (fold_key s channel) of
        None \<Rightarrow> s
      | Some h \<Rightarrow>
          (case uid_of_nick s nick of
             None \<Rightarrow> s
           | Some uid \<Rightarrow>
               (let display = ch_name (cdata s h)
                in propagate (Skick display (si_name (info s)) uid reason) (remote_kick display ''*'' uid reason s))))"

text \<open>The arguments of a plugin's mode change in wire form; an argument that is missing or names nobody
  cancels the change.\<close>

definition wire_char :: "server \<Rightarrow> rchar \<Rightarrow> bool \<Rightarrow> string list \<Rightarrow> (string list \<times> bool \<times> string list) option" where
  "wire_char s c adding rest =
     (if c = ''+'' then Some ([], True, rest)
      else if c = ''-'' then Some ([], False, rest)
      else if c = ''o'' \<or> c = ''v'' then
        (case rest of
           [] \<Rightarrow> None
         | nick # rest \<Rightarrow> map_option (\<lambda>uid. ([uid], adding, rest)) (uid_of_nick s nick))
      else if c = ''k'' \<or> c = ''l'' then
        (if adding then (case rest of [] \<Rightarrow> None | a # rest \<Rightarrow> Some ([a], adding, rest)) else Some ([], adding, rest))
      else if c = ''b'' \<or> c = ''e'' \<or> c = ''I'' then
        (case rest of [] \<Rightarrow> None | a # rest \<Rightarrow> Some ([normalize_ban_mask a], adding, rest))
      else Some ([], adding, rest))"

primrec wire_args :: "server \<Rightarrow> rchar list \<Rightarrow> bool \<Rightarrow> string list \<Rightarrow> string list option" where
  "wire_args s [] adding rest = Some []"
| "wire_args s (c # cs) adding rest =
     (case wire_char s c adding rest of
        None \<Rightarrow> None
      | Some (args, adding, rest) \<Rightarrow> map_option (\<lambda>more. args @ more) (wire_args s cs adding rest))"

definition plugin_mode :: "string \<Rightarrow> string \<Rightarrow> string list \<Rightarrow> server \<Rightarrow> server" where
  "plugin_mode channel flags args s =
     (case find_channel s (fold_key s channel) of
        None \<Rightarrow> s
      | Some h \<Rightarrow>
          (case wire_args s (chars flags) True args of
             None \<Rightarrow> s
           | Some wire \<Rightarrow>
               (let display = ch_name (cdata s h)
                in case apply_mode_change display ''*'' 0 flags wire s of
                     (None, s) \<Rightarrow> s
                   | (Some (applied_flags, applied_args, applied_wire), s) \<Rightarrow>
                       (let s = record_channel_event (fold_key s display) display (si_name (info s)) Mode
                                  (mode_text applied_flags applied_args) s
                        in propagate (Smode display (si_name (info s)) (channel_ts s display) applied_flags applied_wire) s))))"

definition plugin_topic :: "string \<Rightarrow> string \<Rightarrow> server \<Rightarrow> server" where
  "plugin_topic channel text s =
     (case find_channel s (fold_key s channel) of
        None \<Rightarrow> s
      | Some h \<Rightarrow>
          (let display = ch_name (cdata s h); set_at = now_unix s;
               s = remote_topic display ''*'' (si_name (info s)) set_at text s;
               s = record_channel_event (fold_key s display) display (si_name (info s)) Topic text s
           in propagate (Stopic display (si_name (info s)) (si_name (info s)) set_at text) s))"

definition plugin_kline :: "string \<Rightarrow> string \<Rightarrow> string \<Rightarrow> server \<Rightarrow> server" where
  "plugin_kline msk reason set_by s =
     (let msk = normalize_ban_mask msk
      in snd (kill_matching msk (''K-Lined: '' @ reason) (add_kline msk reason set_by s)))"

definition apply_plugin_action :: "plugin_action \<Rightarrow> server \<Rightarrow> server" where
  "apply_plugin_action a s =
     (case a of
        ActNotice target text \<Rightarrow> plugin_say target text True s
      | ActMessage target text \<Rightarrow> plugin_say target text False s
      | ActKick channel nick reason \<Rightarrow> plugin_kick channel nick reason s
      | ActMode channel flags args \<Rightarrow> plugin_mode channel flags args s
      | ActTopic channel text \<Rightarrow> plugin_topic channel text s
      | ActKline msk reason set_by \<Rightarrow> plugin_kline msk reason set_by s)"

definition apply_plugin_actions :: "plugin_action list \<Rightarrow> server \<Rightarrow> server" where
  "apply_plugin_actions actions s = fold apply_plugin_action actions s"

subsection \<open>Channel messages from a peer\<close>

text \<open>The sigil of a message to the operators or the voiced members.\<close>

definition status_target :: "string \<Rightarrow> bool option \<times> string" where
  "status_target name =
     (case name of
        c # rest \<Rightarrow> if c = CHR ''@'' then (Some True, rest) else if c = CHR ''+'' then (Some False, rest) else (None, name)
      | [] \<Rightarrow> (None, name))"

definition status_sigil :: "bool option \<Rightarrow> string" where
  "status_sigil status = (case status of Some True \<Rightarrow> ''@'' | Some False \<Rightarrow> ''+'' | None \<Rightarrow> [])"

text \<open>The verdict of the plugins on a relayed message: \<open>None\<close> when it is blocked, else the text to show.\<close>

definition plugin_verdict :: "string \<Rightarrow> string \<Rightarrow> string \<Rightarrow> server \<Rightarrow> string option \<times> server" where
  "plugin_verdict source base_name text s =
     (case (if server_source_sid s source \<noteq> None then None else plugins s) of
        None \<Rightarrow> (Some text, s)
      | Some host \<Rightarrow>
          (let outcome = ph_on_channel_message host (source_nick_of source) base_name text;
               s = apply_plugin_actions (po_actions outcome) s
           in if po_verdict outcome = Block then (None, s)
              else (Some (case po_replacement outcome of Some r \<Rightarrow> r | None \<Rightarrow> text), s)))"

definition deliver_channel_message :: "string \<Rightarrow> string \<Rightarrow> string \<Rightarrow> bool \<Rightarrow> string option \<Rightarrow> nat option
    \<Rightarrow> string option \<Rightarrow> string \<Rightarrow> server \<Rightarrow> server" where
  "deliver_channel_message origin_sid source channel_name notice msgid time_ms tags text s =
     (let (status, base_name) = status_target channel_name; folded = fold_key s base_name
      in case find_channel s folded of
           None \<Rightarrow> s
         | Some h \<Rightarrow>
             (case plugin_verdict source base_name text s of
                (None, s) \<Rightarrow> s
              | (Some text, s) \<Rightarrow>
                  (let display = ch_name (cdata s h);
                       (account, is_bot) = remote_source_meta s (source_nick_of source);
                       (mid, s) = msgid_or_next msgid s;
                       now_ms = (case time_ms of Some t \<Rightarrow> t | None \<Rightarrow> now_millis s);
                       s = (if status = None then upd_history (hist_record folded
                              \<lparr>sm_msgid = mid, sm_time_ms = now_ms, sm_source = source, sm_account = account,
                               sm_kind = message_kind_of notice, sm_target = display, sm_text = text\<rparr>) s else s);
                       wire_target = status_sigil status @ display;
                       e = message_event (relayed_body source (message_command notice) wire_target text) now_ms account mid is_bot tags;
                       s = (case status of Some op_only \<Rightarrow> to_channel_status h e op_only None s | None \<Rightarrow> to_channel h e None s)
                   in relay_channel_message source wire_target notice (Some mid) (Some now_ms) tags text (Some origin_sid) s)))"

end
