(* ===== verification/Burst.thy ===== *)
theory Burst
  imports Relay
begin

text \<open>
  The burst a freshly linked peer gets (\<open>burst_to_peer\<close> of \<open>ferrixd/src/state.rs\<close>): the topology, the
  users, the channels, and an end mark. The loop that orders the servers announces parents before
  children; the users of a channel are introduced before they join it.
\<close>

subsection \<open>Topology\<close>

definition sserver_of :: "remote_server \<Rightarrow> link_message" where
  "sserver_of r = Sserver (rs_name r) (rs_sid r) (rs_uplink r) (rs_description r)"

lemma length_filter_compl_less: "filter P xs \<noteq> [] \<Longrightarrow> length (filter (\<lambda>x. \<not> P x) xs) < length xs"
  by (metis filter_False length_filter_less filter_empty_conv)

text \<open>The loop: the servers whose uplink is announced go out and count as announced; when none is left
  whose uplink is known, the rest goes out as it is.\<close>

function order_servers :: "string list \<Rightarrow> remote_server list \<Rightarrow> remote_server list" where
  "order_servers announced pending =
     (if pending = [] then []
      else
        (let ready = filter (\<lambda>r. rs_uplink r \<in> set announced) pending;
             rest = filter (\<lambda>r. rs_uplink r \<notin> set announced) pending
         in if ready = [] then rest
            else ready @ order_servers (fold hs_insert (map rs_sid ready) announced) rest))"
  by pat_completeness auto

termination
  by (relation "measure (\<lambda>(_, pending). length pending)") (auto simp: length_filter_compl_less)

declare order_servers.simps [simp del]

definition burst_topology :: "string \<Rightarrow> server \<Rightarrow> link_message list" where
  "burst_topology sid s =
     (let others = filter (\<lambda>l. lh_sid l \<noteq> sid) (map snd (links s));
          announced = fold hs_insert (map lh_sid others) [si_sid (info s)];
          pending = filter (\<lambda>r. rs_sid r \<noteq> sid) (remote_servers_snapshot s)
      in map (\<lambda>l. Sserver (lh_name l) (lh_sid l) (si_sid (info s)) (lh_description l)) others
         @ map sserver_of (order_servers announced pending))"

subsection \<open>Users\<close>

definition user_state :: "string \<Rightarrow> string option \<Rightarrow> string option \<Rightarrow> link_message list" where
  "user_state uid away flags =
     (case away of Some a \<Rightarrow> [Saway uid (Some a)] | None \<Rightarrow> [])
     @ (case flags of Some f \<Rightarrow> [Sumode uid f] | None \<Rightarrow> [])"

definition uid_of_client :: "server \<Rightarrow> nat \<Rightarrow> link_message" where
  "uid_of_client s i =
     (let d = ce_data (entries s i)
      in Uid (si_sid (info s)) (local_uid s i) 0 (cd_nick d) (cd_user d) (cd_host d) (unwrap_star (cd_account d)) (cd_realname d))"

definition client_umodes :: "server \<Rightarrow> nat \<Rightarrow> string option" where
  "client_umodes s i =
     umode_flags (cd_oper (ce_data (entries s i))) (cd_invisible (ce_data (entries s i))) (cd_bot (ce_data (entries s i)))"

definition burst_clients :: "server \<Rightarrow> link_message list" where
  "burst_clients s =
     concat (map (\<lambda>(_, i).
       if \<not> cd_registered (ce_data (entries s i)) then []
       else uid_of_client s i # user_state (local_uid s i) (cd_away (ce_data (entries s i))) (client_umodes s i)) (clients s))"

definition burst_remote_users :: "string \<Rightarrow> server \<Rightarrow> link_message list" where
  "burst_remote_users sid s =
     concat (map (\<lambda>(_, u).
       if ru_server_sid u = sid then []
       else Uid (ru_server_sid u) (ru_uid u) 0 (ru_nick u) (ru_user u) (ru_host u) (unwrap_star (ru_account u)) (ru_realname u)
         # user_state (ru_uid u) (ru_away u) (umode_flags (ru_oper u) (ru_invisible u) (ru_bot u))) (remote_users s))"

subsection \<open>Channels\<close>

definition burst_members :: "string \<Rightarrow> server \<Rightarrow> channel_data \<Rightarrow> link_message list" where
  "burst_members sid s d =
     map (\<lambda>(i, p). Sjoin (ch_name d) (local_uid s i) (mp_op p) (mp_voice p) (ch_created_at d)) (ch_members d)
     @ concat (map (\<lambda>(uid, m).
         if rm_server_sid m = sid then []
         else [Sjoin (ch_name d) uid (mp_op (rm_prefix m)) (mp_voice (rm_prefix m)) (ch_created_at d)]) (ch_remote_members d))"

definition burst_list :: "channel_data \<Rightarrow> string \<times> ban list \<Rightarrow> link_message list" where
  "burst_list d lst =
     (case lst of (letter, l) \<Rightarrow>
        map (\<lambda>chunk. Smode (ch_name d) ''*'' (ch_created_at d) (''+'' @ concat (replicate (length chunk) letter)) (map ban_mask chunk))
          (chunks 6 l))"

definition burst_channel :: "string \<Rightarrow> server \<Rightarrow> channel_data \<Rightarrow> link_message list" where
  "burst_channel sid s d =
     (let (flags, args) = modes_render (ch_modes d) True
      in burst_members sid s d
         @ (case ch_topic d of
              Some t \<Rightarrow> [Stopic (ch_name d) ''*'' (topic_set_by t) (topic_set_at t) (topic_text t)]
            | None \<Rightarrow> [])
         @ (if length flags > 1 then [Smode (ch_name d) ''*'' (ch_created_at d) flags args] else [])
         @ concat (map (burst_list d) [(''b'', ch_bans d), (''e'', ch_exceptions d), (''I'', ch_invex d)])
         @ map (\<lambda>invited. Sinvite ''*'' invited (ch_name d)) (ch_invited d))"

definition burst_messages :: "string \<Rightarrow> server \<Rightarrow> link_message list" where
  "burst_messages sid s =
     burst_topology sid s @ burst_clients s @ burst_remote_users sid s
     @ concat (map (\<lambda>(_, h). burst_channel sid s (cdata s h)) (channels s))
     @ [Ping (si_sid (info s))]"

definition burst_to_peer :: "string \<Rightarrow> server \<Rightarrow> server" where
  "burst_to_peer sid s =
     (if get (links s) sid = None then s
      else fold (\<lambda>m s. snd (send_to_link sid (to_line m) s)) (burst_messages sid s) s)"

definition introduce_local :: "nat \<Rightarrow> server \<Rightarrow> server" where
  "introduce_local i s =
     (if links s = [] then s
      else
        (let s' = propagate_to_links (to_line (uid_of_client s i)) s
         in case client_umodes s i of
              Some flags \<Rightarrow> propagate_to_links (to_line (Sumode (local_uid s i) flags)) s'
            | None \<Rightarrow> s'))"

definition withdraw_local :: "nat \<Rightarrow> string \<Rightarrow> server \<Rightarrow> server" where
  "withdraw_local client_id reason s = propagate (link_message.Quit (local_uid s client_id) reason) s"

end
