(* ===== verification/LinkLoop.thy ===== *)
theory LinkLoop
  imports Burst
begin

text \<open>
  The life of a link (\<open>ferrixd/src/link.rs\<close>): the handler of every message of the read loop with its
  origin checks, the loop itself, and what surrounds it, from the registration of the link to the
  netsplit at its end.
\<close>

subsection \<open>The handler\<close>

text \<open>A handler gives whether the loop goes on, and the state.\<close>

type_synonym outcome = "bool \<times> server"

definition forwarded :: "string \<Rightarrow> link_message \<Rightarrow> server \<Rightarrow> outcome" where
  "forwarded peer_sid m s = (True, forward_to_links peer_sid (to_line m) s)"

text \<open>A change by a user of the peer: applied and passed on, or refused.\<close>

definition from_user :: "string \<Rightarrow> string \<Rightarrow> link_message \<Rightarrow> (server \<Rightarrow> server) \<Rightarrow> server \<Rightarrow> outcome" where
  "from_user peer_sid uid m f s = (if remote_uid_authorized s peer_sid uid then forwarded peer_sid m (f s) else (True, s))"

text \<open>A change by a user of the peer, by the peer itself or by a server behind it.\<close>

definition from_source :: "string \<Rightarrow> string \<Rightarrow> link_message \<Rightarrow> (server \<Rightarrow> server) \<Rightarrow> server \<Rightarrow> outcome" where
  "from_source peer_sid source m f s =
     (if link_source_authorized s peer_sid source then forwarded peer_sid m (f s) else (True, s))"

text \<open>A relayed message: delivered when its source is the peer's.\<close>

definition from_sender :: "string \<Rightarrow> string \<Rightarrow> (server \<Rightarrow> server) \<Rightarrow> server \<Rightarrow> outcome" where
  "from_sender peer_sid source f s = (True, if remote_source_authorized s peer_sid source then f s else s)"

definition handle_uid :: "string \<Rightarrow> link_message \<Rightarrow> string \<Rightarrow> string \<Rightarrow> remote_user \<Rightarrow> server \<Rightarrow> outcome" where
  "handle_uid peer_sid m sid uid user s =
     (if strip_prefix sid uid = None then (True, s)
      else
        (let (ok, s) = route_authorize peer_sid sid s
         in if \<not> ok then (True, s)
            else
              (case accept_remote_user user s of
                 (Some kill, s) \<Rightarrow> (True, snd (send_to_link peer_sid (to_line kill) s))
               | (None, s) \<Rightarrow> forwarded peer_sid m s)))"

definition handle_kill :: "string \<Rightarrow> string \<Rightarrow> string \<Rightarrow> server \<Rightarrow> outcome" where
  "handle_kill peer_sid uid reason s =
     (if owns_local_uid s uid then (True, kill_by_uid uid reason s)
      else if remote_uid_authorized s peer_sid uid then forwarded peer_sid (Kill uid reason) (kill_by_uid uid reason s)
      else case remote_user_by_uid s uid of
             Some victim \<Rightarrow> (True, snd (send_towards (ru_server_sid victim) (to_line (Kill uid reason)) s))
           | None \<Rightarrow> (True, s))"

definition handle_nick :: "string \<Rightarrow> string \<Rightarrow> string \<Rightarrow> server \<Rightarrow> outcome" where
  "handle_nick peer_sid uid nick s =
     (if remote_uid_authorized s peer_sid uid then
        (case remote_nick_change uid nick s of
           (Some kill, s) \<Rightarrow> (True, snd (send_to_link peer_sid (to_line kill) s))
         | (None, s) \<Rightarrow> forwarded peer_sid (link_message.Nick uid nick) s)
      else (True, s))"

definition handle_sinvite :: "string \<Rightarrow> string \<Rightarrow> string \<Rightarrow> string \<Rightarrow> server \<Rightarrow> outcome" where
  "handle_sinvite peer_sid source target channel s =
     (if source = ''*'' then forwarded peer_sid (Sinvite source target channel) (remote_invite_pending target channel s)
      else if \<not> remote_uid_authorized s peer_sid source then (True, s)
      else if owns_local_uid s target then (True, remote_invite source target channel s)
      else case remote_user_by_uid s target of
             Some user \<Rightarrow> (True, snd (send_towards (ru_server_sid user) (to_line (Sinvite source target channel)) s))
           | None \<Rightarrow> (True, s))"

definition handle_sserver :: "string \<Rightarrow> link_message \<Rightarrow> remote_server \<Rightarrow> server \<Rightarrow> outcome" where
  "handle_sserver peer_sid m srv s =
     (case accept_remote_server peer_sid srv s of
        (Inr _, s) \<Rightarrow> forwarded peer_sid m s
      | (Inl reason, s) \<Rightarrow> (False, snd (send_to_link peer_sid (to_line (Error reason)) s)))"

definition handle_squit :: "string \<Rightarrow> string \<Rightarrow> string \<Rightarrow> server \<Rightarrow> outcome" where
  "handle_squit peer_sid sid reason s =
     (if sid = peer_sid then (False, s)
      else if route_owner s sid = Some peer_sid then forwarded peer_sid (Squit sid reason) (split_remote_server sid NET_SPLIT s)
      else (True, s))"

definition star_none :: "string \<Rightarrow> string option" where
  "star_none account = (if account = ''*'' then None else Some account)"

definition handle_link :: "string \<Rightarrow> link_message \<Rightarrow> server \<Rightarrow> outcome" where
  "handle_link peer_sid m s =
     (case m of
        Uid sid uid lamport nick user host account realname \<Rightarrow>
          handle_uid peer_sid m sid uid
            \<lparr>ru_server_sid = sid, ru_uid = uid, ru_nick = nick, ru_user = user, ru_host = host,
             ru_account = star_none account, ru_realname = realname, ru_away = None, ru_oper = False,
             ru_invisible = False, ru_bot = False\<rparr> s
      | Kill uid reason \<Rightarrow> handle_kill peer_sid uid reason s
      | link_message.Nick uid nick \<Rightarrow> handle_nick peer_sid uid nick s
      | link_message.Quit uid reason \<Rightarrow> from_user peer_sid uid m (remote_quit uid reason) s
      | UserMessage source target notice msgid time_ms tags text \<Rightarrow>
          from_sender peer_sid source (deliver_remote_message source target notice msgid time_ms tags text) s
      | TagMessage source target tags \<Rightarrow> from_sender peer_sid source (deliver_tagmsg peer_sid source target tags) s
      | Sjoin channel uid op voice ts \<Rightarrow>
          from_user peer_sid uid m (remote_join channel uid \<lparr>mp_op = op, mp_voice = voice\<rparr> ts) s
      | Spart channel uid reason \<Rightarrow> from_user peer_sid uid m (remote_part channel uid reason) s
      | ChanMessage source channel notice msgid time_ms tags text \<Rightarrow>
          from_sender peer_sid source (deliver_channel_message peer_sid source channel notice msgid time_ms tags text) s
      | Stopic channel source set_by set_at text \<Rightarrow>
          from_source peer_sid source m (remote_topic channel source set_by set_at text) s
      | Smode channel source ts flags args \<Rightarrow> from_source peer_sid source m (remote_mode channel source ts flags args) s
      | Skick channel source target reason \<Rightarrow> from_source peer_sid source m (remote_kick channel source target reason) s
      | Saway uid reason \<Rightarrow> from_user peer_sid uid m (remote_away uid reason) s
      | Saccount uid account \<Rightarrow> from_user peer_sid uid m (remote_account uid (star_none account)) s
      | Ssetname uid realname \<Rightarrow> from_user peer_sid uid m (remote_setname uid realname) s
      | Schghost uid host \<Rightarrow> from_user peer_sid uid m (remote_chghost uid host) s
      | Swallops source text \<Rightarrow> forwarded peer_sid m (remote_wallops source text s)
      | Sinvite source target channel \<Rightarrow> handle_sinvite peer_sid source target channel s
      | Sumode uid flags \<Rightarrow> from_user peer_sid uid m (remote_umode uid flags) s
      | Sknock source channel msk \<Rightarrow> from_user peer_sid source m (remote_knock channel msk) s
      | Sredact source target msgid reason \<Rightarrow> from_source peer_sid source m (remote_redact source target msgid reason) s
      | Srename source old new reason \<Rightarrow> from_source peer_sid source m (remote_rename source old new reason) s
      | Sban add msk set_by reason \<Rightarrow> forwarded peer_sid m (remote_gline add msk set_by reason s)
      | Sserver name sid uplink description \<Rightarrow>
          handle_sserver peer_sid m \<lparr>rs_sid = sid, rs_name = name, rs_uplink = uplink, rs_description = description\<rparr> s
      | Ping token \<Rightarrow> (True, snd (send_to_link peer_sid (to_line (Pong token)) s))
      | Squit sid reason \<Rightarrow> handle_squit peer_sid sid reason s
      | Error reason \<Rightarrow> (False, s)
      | Pass token \<Rightarrow> (True, s)
      | Server name sid description \<Rightarrow> (True, s)
      | Pong token \<Rightarrow> (True, s))"

subsection \<open>The loop and its surroundings\<close>

text \<open>One frame: what does not parse and what is no link message is skipped.\<close>

definition handle_frame :: "string \<Rightarrow> string \<Rightarrow> server \<Rightarrow> outcome" where
  "handle_frame peer_sid frame s =
     (case message_parse frame of
        Inl _ \<Rightarrow> (True, s)
      | Inr parsed \<Rightarrow>
          (case from_message parsed of
             None \<Rightarrow> (True, s)
           | Some m \<Rightarrow> handle_link peer_sid m s))"

text \<open>The frames a peer sends until the loop breaks or the stream ends.\<close>

primrec read_loop :: "string \<Rightarrow> string list \<Rightarrow> server \<Rightarrow> server" where
  "read_loop peer_sid [] s = s"
| "read_loop peer_sid (frame # frames) s =
     (case handle_frame peer_sid frame s of
        (True, s) \<Rightarrow> read_loop peer_sid frames s
      | (False, s) \<Rightarrow> s)"

definition LINK_SENDQ :: nat where "LINK_SENDQ = 4096"

definition link_up :: "string \<Rightarrow> string \<Rightarrow> string \<Rightarrow> server \<Rightarrow> (string + unit) \<times> server" where
  "link_up sid name description s =
     (let handle = \<lparr>lh_sid = sid, lh_name = name, lh_description = description, lh_queue = [],
                    lh_sendq = LINK_SENDQ, lh_shutdown = False\<rparr>
      in case try_register_link handle s of
           (Inl reason, s) \<Rightarrow> (Inl reason, s)
         | (Inr _, s) \<Rightarrow> (Inr (), burst_to_peer sid (announce_link_to_others handle s)))"

definition next_message :: "string \<Rightarrow> link_message option" where
  "next_message frame = (case message_parse frame of Inl _ \<Rightarrow> None | Inr parsed \<Rightarrow> from_message parsed)"

text \<open>A link from its first frame to its end: the handshake, the registration, the loop, the netsplit.\<close>

definition establish :: "string \<Rightarrow> string \<Rightarrow> string list \<Rightarrow> server \<Rightarrow> server" where
  "establish token expected_peer frames s =
     (case frames of
        f1 # f2 # rest \<Rightarrow>
          (case (next_message f1, next_message f2) of
             (Some (Pass peer_token), Some (Server name sid description)) \<Rightarrow>
               if \<not> tokens_match peer_token token then s
               else if name \<noteq> expected_peer then s
               else
                 (case link_up sid name description s of
                    (Inl _, s) \<Rightarrow> s
                  | (Inr _, s) \<Rightarrow> drop_link sid (read_loop sid rest s))
           | _ \<Rightarrow> s)
      | _ \<Rightarrow> s)"

end
