(* ===== verification/Membership.thy ===== *)
theory Membership
  imports Channels
begin

text \<open>
  Channels and who is in them. The source keeps every membership twice: in the channel (its local
  members by client id, its remote members by network id) and in an index of the member's channels
  (\<open>ClientData::channels\<close>, \<open>Server::remote_channels\<close>). The locale \<open>membership\<close> states the agreement of
  the two for any kind of member and carries it through the steps the operations are made of; it is
  interpreted for remote and for local members.
\<close>

subsection \<open>The channel registry\<close>

text \<open>Every registered channel is allocated and filed under its folded name.\<close>

definition chan_ok :: "server \<Rightarrow> bool" where
  "chan_ok s \<longleftrightarrow>
     (\<forall>f h. get (channels s) f = Some h \<longrightarrow> h < next_chan s \<and> fold_key s (ch_name (cdata s h)) = f)"

lemma chan_okD:
  assumes "chan_ok s" "get (channels s) f = Some h"
  shows "h < next_chan s" "fold_key s (ch_name (cdata s h)) = f"
  using assms by (auto simp: chan_ok_def)

lemma chan_ok_inj: "chan_ok s \<Longrightarrow> get (channels s) f = Some h \<Longrightarrow> get (channels s) g = Some h \<Longrightarrow> f = g"
  by (metis chan_okD(2))

lemma fold_key_cong: "info t = info s \<Longrightarrow> fold_key t = fold_key s"
  by (simp add: fold_key_def fun_eq_iff)

lemma cdata_cong: "chans t = chans s \<Longrightarrow> cdata t = cdata s"
  by (simp add: cdata_def fun_eq_iff)

lemma quiet_cdata: "quiet s t \<Longrightarrow> cdata t = cdata s"
  by (rule cdata_cong) (rule quiet_fields)

lemma chan_ok_quiet: "quiet s t \<Longrightarrow> chan_ok t = chan_ok s"
  by (simp add: chan_ok_def quiet_fields [of s t] quiet_cdata fold_key_cong [OF quiet_fields(1)])

lemma upd_chan_fields [simp]:
  "info (upd_chan h f s) = info s" "clock_ms (upd_chan h f s) = clock_ms s" "entries (upd_chan h f s) = entries s"
  "clients (upd_chan h f s) = clients s" "by_id (upd_chan h f s) = by_id s" "next_chan (upd_chan h f s) = next_chan s"
  "channels (upd_chan h f s) = channels s" "monitors (upd_chan h f s) = monitors s"
  "remote_routes (upd_chan h f s) = remote_routes s" "remote_servers (upd_chan h f s) = remote_servers s"
  "remote_users (upd_chan h f s) = remote_users s" "remote_by_uid (upd_chan h f s) = remote_by_uid s"
  "remote_channels (upd_chan h f s) = remote_channels s" "links (upd_chan h f s) = links s"
  "registered_channels (upd_chan h f s) = registered_channels s" "chanreg (upd_chan h f s) = chanreg s"
  "plugins (upd_chan h f s) = plugins s" "read_markers (upd_chan h f s) = read_markers s"
  "fold_key (upd_chan h f s) = fold_key s"
  "chan_joining (chans (upd_chan h f s) g) = chan_joining (chans s g)"
  by (simp_all add: upd_chan_def fold_key_def fun_eq_iff)

lemma cdata_upd_chan: "cdata (upd_chan h f s) g = (if g = h then f (cdata s h) else cdata s g)"
  by (simp add: cdata_def upd_chan_def)

lemma chan_ok_upd: "chan_ok s \<Longrightarrow> ch_name (f (cdata s h)) = ch_name (cdata s h) \<Longrightarrow> chan_ok (upd_chan h f s)"
  by (auto simp: chan_ok_def cdata_upd_chan)

definition reapable :: "server \<Rightarrow> string \<Rightarrow> bool" where
  "reapable s f =
     (case get (channels s) f of
        None \<Rightarrow> False
      | Some h \<Rightarrow> ch_members (cdata s h) = [] \<and> ch_remote_members (cdata s h) = [] \<and> chan_joining (chans s h) = 0)"

lemma reap_channel_reapable:
  "reap_channel f s = (if reapable s f then upd_history (forget f) (s\<lparr>channels := del f (channels s)\<rparr>) else s)"
  by (simp add: reap_channel_def reapable_def split: option.splits)

lemma reap_channel_fields [simp]:
  "info (reap_channel f s) = info s" "entries (reap_channel f s) = entries s" "clients (reap_channel f s) = clients s"
  "by_id (reap_channel f s) = by_id s" "chans (reap_channel f s) = chans s" "next_chan (reap_channel f s) = next_chan s"
  "remote_routes (reap_channel f s) = remote_routes s" "remote_servers (reap_channel f s) = remote_servers s"
  "remote_users (reap_channel f s) = remote_users s" "remote_by_uid (reap_channel f s) = remote_by_uid s"
  "remote_channels (reap_channel f s) = remote_channels s" "links (reap_channel f s) = links s"
  "monitors (reap_channel f s) = monitors s" "registered_channels (reap_channel f s) = registered_channels s"
  "plugins (reap_channel f s) = plugins s"
  "cdata (reap_channel f s) = cdata s" "fold_key (reap_channel f s) = fold_key s"
  by (simp_all add: reap_channel_reapable upd_history_def cdata_def fold_key_def fun_eq_iff)

lemma reap_channel_get: "get (channels (reap_channel f s)) g = (if g = f \<and> reapable s f then None else get (channels s) g)"
  by (simp add: reap_channel_reapable upd_history_def tbl)

lemma chan_ok_reap [simp]: "chan_ok s \<Longrightarrow> chan_ok (reap_channel f s)"
  by (simp add: chan_ok_def reap_channel_get)

subsection \<open>Memberships and their index\<close>

locale membership =
  fixes who :: "channel_data \<Rightarrow> 'u set"
  assumes who_empty: "ch_members d = [] \<Longrightarrow> ch_remote_members d = [] \<Longrightarrow> who d = {}"
begin

text \<open>\<open>agree s I\<close>: the registered channels hold exactly the members that the index \<open>I\<close> says, and the
  index names registered channels only.\<close>

definition agree :: "server \<Rightarrow> ('u \<Rightarrow> string set) \<Rightarrow> bool" where
  "agree s I \<longleftrightarrow>
     (\<forall>f h u. get (channels s) f = Some h \<longrightarrow> (u \<in> who (cdata s h) \<longleftrightarrow> f \<in> I u))
     \<and> (\<forall>f u. f \<in> I u \<longrightarrow> get (channels s) f \<noteq> None)"

lemma agree_iff: "agree s I \<Longrightarrow> get (channels s) f = Some h \<Longrightarrow> u \<in> who (cdata s h) \<longleftrightarrow> f \<in> I u"
  by (auto simp: agree_def)

lemma agree_known: "agree s I \<Longrightarrow> f \<in> I u \<Longrightarrow> \<exists>h. get (channels s) f = Some h \<and> u \<in> who (cdata s h)"
  by (fastforce simp: agree_def)

lemma agree_cong: "channels t = channels s \<Longrightarrow> (\<And>h. who (cdata t h) = who (cdata s h)) \<Longrightarrow> agree t I = agree s I"
  by (simp add: agree_def)

lemma agree_quiet: "quiet s t \<Longrightarrow> agree t I = agree s I"
  by (rule agree_cong) (simp_all add: quiet_fields quiet_cdata)

lemma agree_keep: "who (f (cdata s h)) = who (cdata s h) \<Longrightarrow> agree (upd_chan h f s) I = agree s I"
  by (rule agree_cong) (simp_all add: cdata_upd_chan)

lemma agree_leave:
  assumes "chan_ok s" "agree s I" "get (channels s) f = Some h" "who (g (cdata s h)) = who (cdata s h) - {u}"
  shows "agree (upd_chan h g s) (I(u := I u - {f}))"
  unfolding agree_def
proof (intro conjI allI impI)
  fix f' h' u' assume f': "get (channels (upd_chan h g s)) f' = Some h'"
  show "u' \<in> who (cdata (upd_chan h g s) h') \<longleftrightarrow> f' \<in> (I(u := I u - {f})) u'"
    using f' assms(3,4) agree_iff [OF assms(2)] chan_ok_inj [OF assms(1,3), of f'] by (auto simp: cdata_upd_chan)
next
  fix f' u' assume "f' \<in> (I(u := I u - {f})) u'"
  then show "get (channels (upd_chan h g s)) f' \<noteq> None"
    using agree_known [OF assms(2)] by (fastforce split: if_splits)
qed

lemma agree_enter:
  assumes "chan_ok s" "agree s I" "get (channels s) f = Some h" "who (g (cdata s h)) = insert u (who (cdata s h))"
  shows "agree (upd_chan h g s) (I(u := insert f (I u)))"
  unfolding agree_def
proof (intro conjI allI impI)
  fix f' h' u' assume f': "get (channels (upd_chan h g s)) f' = Some h'"
  show "u' \<in> who (cdata (upd_chan h g s) h') \<longleftrightarrow> f' \<in> (I(u := insert f (I u))) u'"
    using f' assms(3,4) agree_iff [OF assms(2)] chan_ok_inj [OF assms(1,3), of f'] by (auto simp: cdata_upd_chan)
next
  fix f' u' assume "f' \<in> (I(u := insert f (I u))) u'"
  then show "get (channels (upd_chan h g s)) f' \<noteq> None"
    using agree_known [OF assms(2)] assms(3) by (fastforce split: if_splits)
qed

lemma agree_reap:
  assumes a: "agree s I"
  shows "agree (reap_channel f s) I"
proof -
  have "f \<notin> I u" if "reapable s f" for u
    using that agree_iff [OF a] who_empty by (fastforce simp: reapable_def split: option.splits)
  then show ?thesis using a by (auto simp: agree_def reap_channel_get)
qed

lemma agree_new:
  assumes "agree s I" "chan_ok s" "get (channels s) f = None" "who (cdata t (next_chan s)) = {}"
    "channels t = put f (next_chan s) (channels s)" "\<And>h. h \<noteq> next_chan s \<Longrightarrow> cdata t h = cdata s h"
  shows "agree t I"
proof -
  have "f \<notin> I u" for u using assms(3) agree_known [OF assms(1)] by fastforce
  moreover have "h \<noteq> next_chan s" if "get (channels s) g = Some h" for g h using chan_okD(1) [OF assms(2) that] by simp
  ultimately show ?thesis using assms(1,4,6) unfolding agree_def assms(5) by (auto simp: tbl)
qed

end

definition remote_who :: "channel_data \<Rightarrow> string set" where
  "remote_who d = {u. get (ch_remote_members d) u \<noteq> None}"

definition local_who :: "channel_data \<Rightarrow> nat set" where
  "local_who d = {i. get (ch_members d) i \<noteq> None}"

interpretation remotes: membership remote_who
  by unfold_locales (simp add: remote_who_def)

interpretation locals: membership local_who
  by unfold_locales (simp add: local_who_def)

definition remote_index :: "server \<Rightarrow> string \<Rightarrow> string set" where
  "remote_index s u = (case get (remote_channels s) u of Some l \<Rightarrow> set l | None \<Rightarrow> {})"

definition local_index :: "server \<Rightarrow> nat \<Rightarrow> string set" where
  "local_index s i = (if i \<in> set (by_id s) then set (cd_channels (ce_data (entries s i))) else {})"

definition members_ok :: "server \<Rightarrow> bool" where
  "members_ok s \<longleftrightarrow> chan_ok s \<and> remotes.agree s (remote_index s) \<and> locals.agree s (local_index s)"

subsection \<open>Operations that change channels only\<close>

text \<open>\<open>calm s t\<close>: apart from output, \<open>t\<close> differs from \<open>s\<close> in the channels only.\<close>

definition calm :: "server \<Rightarrow> server \<Rightarrow> bool" where
  "calm s t \<longleftrightarrow> quiet (s\<lparr>chans := chans t, channels := channels t\<rparr>) t"

lemma calm_quiet: "quiet s t \<Longrightarrow> calm s t"
  by (simp add: calm_def quiet_def)

lemma calm_refl [simp]: "calm s s"
  by (simp add: calm_def)

lemma calm_trans: "calm s t \<Longrightarrow> calm t u \<Longrightarrow> calm s u"
  unfolding calm_def quiet_def by simp

lemma calm_fields:
  assumes "calm s t"
  shows "info t = info s" "clock_ms t = clock_ms s" "clients t = clients s" "by_id t = by_id s"
    "next_chan t = next_chan s" "ip_conns t = ip_conns s" "monitors t = monitors s"
    "server_bans t = server_bans s" "ip_bans t = ip_bans s" "remote_routes t = remote_routes s"
    "remote_servers t = remote_servers s" "remote_users t = remote_users s" "remote_by_uid t = remote_by_uid s"
    "remote_channels t = remote_channels s" "registered_channels t = registered_channels s" "chanreg t = chanreg s"
    "plugins t = plugins s" "next_id t = next_id s" "read_markers t = read_markers s"
    "links_admin_down t = links_admin_down s" "ce_data (entries t i) = ce_data (entries s i)"
    "ce_caps (entries t i) = ce_caps (entries s i)" "ce_id (entries t i) = ce_id (entries s i)"
    "ce_sendq (entries t i) = ce_sendq (entries s i)"
  using quiet_fields [OF assms [unfolded calm_def]] by simp_all

lemma calm_index:
  assumes "calm s t"
  shows "remote_index t = remote_index s" "local_index t = local_index s" "fold_key t = fold_key s"
  by (simp_all add: fun_eq_iff remote_index_def local_index_def fold_key_def calm_fields [OF assms])

lemma calm_upd_chan [simp]: "calm s (upd_chan h f s)"
  by (simp add: calm_def quiet_def upd_chan_def)

lemma calm_reap [simp]: "calm s (reap_channel f s)"
  by (simp add: calm_def quiet_def reap_channel_reapable upd_history_def)

lemma calm_fold_snd:
  assumes "\<And>x a s. calm s (snd (f x (a, s)))"
  shows "calm (snd st) (snd (fold f xs st))"
proof (induction xs arbitrary: st)
  case (Cons x xs)
  obtain a s where st: "st = (a, s)" by fastforce
  then show ?case using calm_trans [OF assms [of s x a] Cons.IH [of "f x (a, s)"]] by simp
qed simp

text \<open>Steps that keep \<open>members_ok\<close>.\<close>

lemma members_ok_quiet: "quiet s t \<Longrightarrow> members_ok t = members_ok s"
  by (simp add: members_ok_def chan_ok_quiet remotes.agree_quiet locals.agree_quiet calm_index [OF calm_quiet])

lemma members_ok_upd:
  assumes "members_ok s" "ch_name (f (cdata s h)) = ch_name (cdata s h)" "remote_who (f (cdata s h)) = remote_who (cdata s h)"
    "local_who (f (cdata s h)) = local_who (cdata s h)"
  shows "members_ok (upd_chan h f s)"
  using assms by (simp add: members_ok_def chan_ok_upd remotes.agree_keep locals.agree_keep calm_index [OF calm_upd_chan])

lemma members_ok_reap: "members_ok s \<Longrightarrow> members_ok (reap_channel f s)"
  by (simp add: members_ok_def remotes.agree_reap locals.agree_reap calm_index [OF calm_reap])

subsection \<open>Joins in flight\<close>

lemma new_channel_fields:
  assumes "new_channel f nm s = (h, t)"
  shows "h = next_chan s" "channels t = put f h (channels s)" "next_chan t = h + 1" "info t = info s"
    "remote_channels t = remote_channels s" "by_id t = by_id s" "entries t = entries s" "remote_users t = remote_users s"
    "remote_by_uid t = remote_by_uid s"
    "g \<noteq> h \<Longrightarrow> cdata t g = cdata s g" "ch_name (cdata t h) = nm"
    "ch_members (cdata t h) = []" "ch_remote_members (cdata t h) = []"
  using assms
  by (auto simp: new_channel_def Let_def cdata_def channel_entry_new_def seed_from_registration_def split: option.splits)

lemma members_ok_new:
  assumes "members_ok s" "get (channels s) f = None" "fold_key s nm = f" "new_channel f nm s = (h, t)"
  shows "members_ok t"
proof -
  note fld = new_channel_fields [OF assms(4)]
  have ok: "chan_ok s" using assms(1) by (simp add: members_ok_def)
  have "chan_ok t"
    unfolding chan_ok_def
  proof (intro allI impI)
    fix g k assume "get (channels t) g = Some k"
    then show "k < next_chan t \<and> fold_key t (ch_name (cdata t k)) = g"
      using chan_okD [OF ok, of g k] fld(1,3,10,11) assms(3) fold_key_cong [OF fld(4)]
      by (cases "g = f") (auto simp: fld(2) tbl)
  qed
  moreover have "remotes.agree t (remote_index s)"
    by (rule remotes.agree_new [of s _ f])
      (use assms(1,2) ok fld in \<open>auto simp: members_ok_def remote_who_def\<close>)
  moreover have "locals.agree t (local_index s)"
    by (rule locals.agree_new [of s _ f])
      (use assms(1,2) ok fld in \<open>auto simp: members_ok_def local_who_def\<close>)
  moreover have "remote_index t = remote_index s" "local_index t = local_index s"
    using fld(5-7) by (simp_all add: fun_eq_iff remote_index_def local_index_def)
  ultimately show ?thesis by (simp add: members_ok_def)
qed

definition set_joining :: "nat \<Rightarrow> (nat \<Rightarrow> nat) \<Rightarrow> server \<Rightarrow> server" where
  "set_joining h f s = s\<lparr>chans := (chans s)(h := (chans s h)\<lparr>chan_joining := f (chan_joining (chans s h))\<rparr>)\<rparr>"

lemma calm_set_joining [simp]: "calm s (set_joining h f s)"
  by (simp add: calm_def quiet_def set_joining_def)

lemma cdata_set_joining [simp]: "cdata (set_joining h f s) = cdata s"
  by (simp add: cdata_def set_joining_def fun_eq_iff)

lemma channels_set_joining [simp]: "channels (set_joining h f s) = channels s"
  by (simp add: set_joining_def)

lemma add_joining_set: "add_joining h = set_joining h Suc"
  by (simp add: fun_eq_iff add_joining_def set_joining_def)

lemma end_join_set: "end_join f h s = reap_channel f (set_joining h (\<lambda>n. n - 1) s)"
  by (simp add: end_join_def set_joining_def)

lemma chan_ok_set_joining: "chan_ok (set_joining h f s) = chan_ok s"
  by (simp add: chan_ok_def calm_fields [OF calm_set_joining] calm_index [OF calm_set_joining])

lemma members_ok_set_joining: "members_ok (set_joining h f s) = members_ok s"
  by (simp add: members_ok_def chan_ok_set_joining calm_index [OF calm_set_joining]
    remotes.agree_cong [of "set_joining h f s" s] locals.agree_cong [of "set_joining h f s" s])

text \<open>What a join starts from: the channel is registered, and apart from a new channel nothing has changed.\<close>

lemma begin_join_ok:
  assumes "members_ok s" "fold_key s nm = f" "begin_join f nm s = ((h, created), t)"
  shows "members_ok t \<and> get (channels t) f = Some h \<and> remote_index t = remote_index s
    \<and> local_index t = local_index s \<and> fold_key t = fold_key s \<and> remote_users t = remote_users s
    \<and> remote_by_uid t = remote_by_uid s \<and> remote_channels t = remote_channels s"
proof (cases "get (channels s) f")
  case None
  obtain k u where new: "new_channel f nm s = (k, u)" by fastforce
  then have t: "t = set_joining k Suc u" "h = k"
    using assms(3) None by (auto simp: begin_join_def add_joining_set)
  show ?thesis
    using members_ok_new [OF assms(1) None assms(2) new] new_channel_fields [OF new]
    by (simp add: t members_ok_set_joining calm_index [OF calm_set_joining] calm_fields [OF calm_set_joining] tbl
      fun_eq_iff remote_index_def local_index_def fold_key_def)
next
  case (Some k)
  then have t: "t = set_joining k Suc s" "h = k" using assms(3) by (auto simp: begin_join_def add_joining_set)
  show ?thesis using assms(1) Some
    by (simp add: t members_ok_set_joining calm_index [OF calm_set_joining] calm_fields [OF calm_set_joining])
qed

lemma members_ok_end_join: "members_ok s \<Longrightarrow> members_ok (end_join f h s)"
  by (simp add: end_join_set members_ok_reap members_ok_set_joining)

lemma calm_end_join [simp]: "calm s (end_join f h s)"
  unfolding end_join_set by (rule calm_trans [OF calm_set_joining calm_reap])

subsection \<open>Timestamps\<close>

lemma blank_channel_fields:
  assumes "blank_channel nick_of ts d = (d', a, args)"
  shows "ch_name d' = ch_name d" "remote_who d' = remote_who d" "local_who d' = local_who d"
    "ch_created_at d' = ts" "ch_bans d' = ch_bans d" "ch_exceptions d' = ch_exceptions d" "ch_invex d' = ch_invex d"
    "ch_members d' = map_vals (\<lambda>_. prefix_default) (ch_members d)"
    "ch_remote_members d' = map_vals (\<lambda>rm. rm\<lparr>rm_prefix := prefix_default\<rparr>) (ch_remote_members d)"
    "chan_key (ch_modes d') = None" "chan_limit (ch_modes d') = None"
  using assms by (auto simp: blank_channel_def Let_def remote_who_def local_who_def tbl split: prod.splits)

lemma reconcile_cases:
  obtains (same) "reconcile_channel_ts h ts s = s" "ts = 0 \<or> ch_created_at (cdata s h) \<le> ts"
  | (blanked) d a args where "0 < ts" "ts < ch_created_at (cdata s h)"
      "blank_channel (\<lambda>i. entry_nick (entries s i)) ts (cdata s h) = (d, a, args)"
      "quiet (upd_chan h (\<lambda>_. d) s) (reconcile_channel_ts h ts s)"
proof (cases "ts = 0 \<or> ch_created_at (cdata s h) \<le> ts")
  case True
  with same show ?thesis by (auto simp: reconcile_channel_ts_def)
next
  case False
  obtain d a args where b: "blank_channel (\<lambda>i. entry_nick (entries s i)) ts (cdata s h) = (d, a, args)" by (rule prod_cases3)
  have "quiet (upd_chan h (\<lambda>_. d) s) (reconcile_channel_ts h ts s)"
    using False b by (simp add: reconcile_channel_ts_def Let_def)
  then show ?thesis using blanked False b by simp
qed

lemma calm_reconcile [simp]: "calm s (reconcile_channel_ts h ts s)"
  by (cases rule: reconcile_cases [of h ts s]) (auto intro: calm_trans [OF calm_upd_chan calm_quiet])

lemma channels_reconcile [simp]: "channels (reconcile_channel_ts h ts s) = channels s"
  by (cases rule: reconcile_cases [of h ts s]) (simp_all add: quiet_fields)

lemma members_ok_reconcile: "members_ok s \<Longrightarrow> members_ok (reconcile_channel_ts h ts s)"
proof (cases rule: reconcile_cases [of h ts s])
  case (blanked d a args)
  assume "members_ok s"
  then have "members_ok (upd_chan h (\<lambda>_. d) s)"
    by (rule members_ok_upd) (simp_all add: blank_channel_fields [OF blanked(3)])
  then show ?thesis using members_ok_quiet [OF blanked(4)] by simp
qed simp

end
