(* ===== verification/Network.thy ===== *)
theory Network
  imports Membership Remote
begin

text \<open>
  The invariant of the network state, and that the operations that arrive over links keep it: every
  channel is filed under its folded name, memberships and their indexes agree, the index of remote
  users by network id agrees with the registry, and every remote member is a known user.
\<close>

definition reg_ok :: "server \<Rightarrow> bool" where
  "reg_ok s \<longleftrightarrow> table_ok (remote_users s)
     \<and> (\<forall>f u. get (remote_users s) f = Some u \<longrightarrow> fold_key s (ru_nick u) = f \<and> get (remote_by_uid s) (ru_uid u) = Some f)
     \<and> (\<forall>uid f. get (remote_by_uid s) uid = Some f \<longrightarrow> (\<exists>u. get (remote_users s) f = Some u \<and> ru_uid u = uid))"

lemma reg_ok_uid: "reg_ok s \<Longrightarrow> get (remote_by_uid s) uid = Some f \<Longrightarrow> \<exists>u. get (remote_users s) f = Some u \<and> ru_uid u = uid"
  unfolding reg_ok_def by blast

lemma reg_ok_user:
  assumes "reg_ok s" "get (remote_users s) f = Some u"
  shows "fold_key s (ru_nick u) = f" "get (remote_by_uid s) (ru_uid u) = Some f" "remote_user_by_uid s (ru_uid u) = Some u"
proof -
  show "fold_key s (ru_nick u) = f" "get (remote_by_uid s) (ru_uid u) = Some f"
    using assms unfolding reg_ok_def by blast+
  then show "remote_user_by_uid s (ru_uid u) = Some u" using assms(2) by (simp add: remote_user_by_uid_def)
qed

definition known_ok :: "server \<Rightarrow> bool" where
  "known_ok s \<longleftrightarrow> (\<forall>uid. remote_index s uid \<noteq> {} \<longrightarrow> get (remote_by_uid s) uid \<noteq> None)"

definition net_ok :: "server \<Rightarrow> bool" where
  "net_ok s \<longleftrightarrow> members_ok s \<and> reg_ok s \<and> known_ok s"

lemma members_ok_cong:
  assumes "channels t = channels s" "chans t = chans s" "next_chan t = next_chan s" "info t = info s"
    "remote_channels t = remote_channels s" "by_id t = by_id s"
    "\<And>i. cd_channels (ce_data (entries t i)) = cd_channels (ce_data (entries s i))"
  shows "members_ok t = members_ok s"
proof -
  have "remote_index t = remote_index s" "local_index t = local_index s" "cdata t = cdata s" "fold_key t = fold_key s"
    using assms by (simp_all add: fun_eq_iff remote_index_def local_index_def cdata_def fold_key_def)
  then show ?thesis
    using assms(1,3) by (simp add: members_ok_def chan_ok_def remotes.agree_def locals.agree_def)
qed

lemma reg_ok_cong:
  "info t = info s \<Longrightarrow> remote_users t = remote_users s \<Longrightarrow> remote_by_uid t = remote_by_uid s \<Longrightarrow> reg_ok t = reg_ok s"
  by (simp add: reg_ok_def fold_key_def)

lemma known_ok_cong: "remote_index t = remote_index s \<Longrightarrow> remote_by_uid t = remote_by_uid s \<Longrightarrow> known_ok t = known_ok s"
  by (simp add: known_ok_def)

lemma net_ok_quiet: "quiet s t \<Longrightarrow> net_ok t = net_ok s"
  by (simp add: net_ok_def members_ok_quiet reg_ok_cong [of t s] known_ok_cong [of t s] quiet_fields
    calm_index [OF calm_quiet])

lemmas net_ok_output [simp] =
  net_ok_quiet [OF quiet_record_channel_event] net_ok_quiet [OF quiet_broadcast] net_ok_quiet [OF quiet_to_channel(1)]
  net_ok_quiet [OF quiet_to_channel(2)] net_ok_quiet [OF quiet_send_client] net_ok_quiet [OF quiet_request_kill]
  net_ok_quiet [OF quiet_record_whowas] net_ok_quiet [OF quiet_monitor(1)] net_ok_quiet [OF quiet_monitor(2)]
  net_ok_quiet [OF quiet_monitor(3)] net_ok_quiet [OF quiet_send_towards] net_ok_quiet [OF quiet_send_to_link]
  net_ok_quiet [OF quiet_propagate(1)] net_ok_quiet [OF quiet_propagate(2)] net_ok_quiet [OF quiet_notify_members]
  net_ok_quiet [OF quiet_kill_clients] net_ok_quiet [OF quiet_wallops] net_ok_quiet [OF quiet_to_client]
  net_ok_quiet [OF quiet_upd_history]

lemma net_ok_calm: "calm s t \<Longrightarrow> members_ok t \<Longrightarrow> net_ok s \<Longrightarrow> net_ok t"
  by (simp add: net_ok_def reg_ok_cong [of t s] known_ok_cong [of t s] calm_fields calm_index)

lemma net_ok_upd:
  assumes "net_ok s" "ch_name (f (cdata s h)) = ch_name (cdata s h)" "remote_who (f (cdata s h)) = remote_who (cdata s h)"
    "local_who (f (cdata s h)) = local_who (cdata s h)"
  shows "net_ok (upd_chan h f s)"
  using net_ok_calm [OF calm_upd_chan _ assms(1)] members_ok_upd assms by (auto simp: net_ok_def)

lemma net_ok_reap: "net_ok s \<Longrightarrow> net_ok (reap_channel f s)"
  using net_ok_calm [OF calm_reap] members_ok_reap by (auto simp: net_ok_def)

lemma net_ok_end_join: "net_ok s \<Longrightarrow> net_ok (end_join f h s)"
  using net_ok_calm [OF calm_end_join] members_ok_end_join by (auto simp: net_ok_def)

lemma net_ok_reconcile: "net_ok s \<Longrightarrow> net_ok (reconcile_channel_ts h ts s)"
  using net_ok_calm [OF calm_reconcile] members_ok_reconcile by (auto simp: net_ok_def)

text \<open>The registration records and their store are no part of the invariant.\<close>

lemma persist_registered_fields [simp]:
  "info (persist_registered f s) = info s" "chans (persist_registered f s) = chans s"
  "channels (persist_registered f s) = channels s" "next_chan (persist_registered f s) = next_chan s"
  "remote_channels (persist_registered f s) = remote_channels s" "by_id (persist_registered f s) = by_id s"
  "entries (persist_registered f s) = entries s" "remote_users (persist_registered f s) = remote_users s"
  "remote_by_uid (persist_registered f s) = remote_by_uid s" "remote_routes (persist_registered f s) = remote_routes s"
  "remote_servers (persist_registered f s) = remote_servers s" "history_of (persist_registered f s) = history_of s"
  "read_markers (persist_registered f s) = read_markers s" "clients (persist_registered f s) = clients s"
  by (simp_all add: persist_registered_def store_send_def Let_def split: option.splits)

lemma net_ok_cong:
  assumes "channels t = channels s" "chans t = chans s" "next_chan t = next_chan s" "info t = info s"
    "remote_channels t = remote_channels s" "by_id t = by_id s" "entries t = entries s"
    "remote_users t = remote_users s" "remote_by_uid t = remote_by_uid s"
  shows "net_ok t = net_ok s"
proof -
  have "remote_index t = remote_index s" using assms by (simp add: fun_eq_iff remote_index_def)
  then show ?thesis
    using assms by (simp add: net_ok_def members_ok_cong [of t s] reg_ok_cong [of t s] known_ok_cong [of t s])
qed

lemma net_ok_persist: "net_ok (persist_registered f s) = net_ok s"
  by (rule net_ok_cong) simp_all

subsection \<open>Entering and leaving a channel\<close>

lemma index_insert: "remote_index (remote_channels_insert uid f s) = (remote_index s)(uid := insert f (remote_index s uid))"
  by (auto simp: fun_eq_iff remote_index_def remote_channels_insert_def tbl split: option.splits)

lemma index_removed: "remote_index (remote_channel_removed uid f s) = (remote_index s)(uid := remote_index s uid - {f})"
  by (auto simp: fun_eq_iff remote_index_def remote_channel_removed_def tbl split: option.splits)

lemma channel_index_frame [simp]:
  "info (remote_channels_insert uid f s) = info s" "info (remote_channel_removed uid f s) = info s"
  "channels (remote_channels_insert uid f s) = channels s" "channels (remote_channel_removed uid f s) = channels s"
  "chans (remote_channels_insert uid f s) = chans s" "chans (remote_channel_removed uid f s) = chans s"
  "cdata (remote_channels_insert uid f s) = cdata s" "cdata (remote_channel_removed uid f s) = cdata s"
  "next_chan (remote_channels_insert uid f s) = next_chan s" "next_chan (remote_channel_removed uid f s) = next_chan s"
  "local_index (remote_channels_insert uid f s) = local_index s" "local_index (remote_channel_removed uid f s) = local_index s"
  "remote_users (remote_channels_insert uid f s) = remote_users s" "remote_users (remote_channel_removed uid f s) = remote_users s"
  "remote_by_uid (remote_channels_insert uid f s) = remote_by_uid s" "remote_by_uid (remote_channel_removed uid f s) = remote_by_uid s"
  "fold_key (remote_channels_insert uid f s) = fold_key s" "fold_key (remote_channel_removed uid f s) = fold_key s"
  by (simp_all add: fun_eq_iff remote_channels_insert_def remote_channel_removed_def cdata_def local_index_def fold_key_def)

lemma chan_ok_cong:
  "channels t = channels s \<Longrightarrow> cdata t = cdata s \<Longrightarrow> next_chan t = next_chan s \<Longrightarrow> fold_key t = fold_key s \<Longrightarrow> chan_ok t = chan_ok s"
  by (simp add: chan_ok_def)

lemma net_ok_remote_enter:
  assumes "net_ok s" "get (channels s) f = Some h" "get (remote_by_uid s) uid \<noteq> None"
    "ch_name (g (cdata s h)) = ch_name (cdata s h)" "local_who (g (cdata s h)) = local_who (cdata s h)"
    "remote_who (g (cdata s h)) = insert uid (remote_who (cdata s h))"
  shows "net_ok (remote_channels_insert uid f (upd_chan h g s))"
proof -
  let ?t = "upd_chan h g s" and ?u = "remote_channels_insert uid f (upd_chan h g s)"
  have ok: "chan_ok s" "remotes.agree s (remote_index s)" "locals.agree s (local_index s)" "reg_ok s" "known_ok s"
    using assms(1) by (simp_all add: net_ok_def members_ok_def)
  have "chan_ok ?u" using chan_ok_upd [of s g h] ok(1) assms(4) chan_ok_cong [of ?u ?t] by simp
  moreover have "remotes.agree ?u (remote_index ?u)"
    using remotes.agree_enter [where g = g, OF ok(1,2) assms(2,6)] remotes.agree_cong [of ?u ?t]
    by (simp add: index_insert calm_index [OF calm_upd_chan])
  moreover have "locals.agree ?u (local_index ?u)"
    using locals.agree_keep [of g s h] assms(5) ok(3) locals.agree_cong [of ?u ?t] by (simp add: calm_index [OF calm_upd_chan])
  moreover have "reg_ok ?u" using ok(4) reg_ok_cong [of ?u s] by simp
  moreover have "known_ok ?u"
    using ok(5) assms(3) by (auto simp: known_ok_def index_insert calm_index [OF calm_upd_chan])
  ultimately show ?thesis by (simp add: net_ok_def members_ok_def)
qed

lemma net_ok_remote_leave:
  assumes "net_ok s" "get (channels s) f = Some h"
  shows "net_ok (remote_channel_removed uid f (upd_chan h (\<lambda>d. d\<lparr>ch_remote_members := del uid (ch_remote_members d)\<rparr>) s))"
proof -
  define g where "g = (\<lambda>d. d\<lparr>ch_remote_members := del uid (ch_remote_members d)\<rparr> :: channel_data)"
  let ?t = "upd_chan h g s" and ?u = "remote_channel_removed uid f (upd_chan h g s)"
  have g: "ch_name (g d) = ch_name d" "local_who (g d) = local_who d" "remote_who (g d) = remote_who d - {uid}" for d
    by (auto simp: g_def local_who_def remote_who_def tbl)
  have ok: "chan_ok s" "remotes.agree s (remote_index s)" "locals.agree s (local_index s)" "reg_ok s" "known_ok s"
    using assms(1) by (simp_all add: net_ok_def members_ok_def)
  have "chan_ok ?u" using chan_ok_upd [of s g h] ok(1) g(1) chan_ok_cong [of ?u ?t] by simp
  moreover have "remotes.agree ?u (remote_index ?u)"
    using remotes.agree_leave [where g = g, OF ok(1,2) assms(2) g(3)] remotes.agree_cong [of ?u ?t]
    by (simp add: index_removed calm_index [OF calm_upd_chan])
  moreover have "locals.agree ?u (local_index ?u)"
    using locals.agree_keep [of g s h] g(2) ok(3) locals.agree_cong [of ?u ?t] by (simp add: calm_index [OF calm_upd_chan])
  moreover have "reg_ok ?u" using ok(4) reg_ok_cong [of ?u s] by simp
  moreover have "known_ok ?u"
    using ok(5) by (auto simp: known_ok_def index_removed calm_index [OF calm_upd_chan] split: if_splits)
  ultimately show ?thesis unfolding g_def by (simp add: net_ok_def members_ok_def)
qed

subsection \<open>Joins, parts, topics, modes and kicks of remote users\<close>

lemma net_ok_begin_join:
  assumes "net_ok s" "fold_key s nm = f" "begin_join f nm s = ((h, created), t)"
  shows "net_ok t" "get (channels t) f = Some h" "remote_users t = remote_users s" "remote_by_uid t = remote_by_uid s"
    "fold_key t = fold_key s" "remote_index t = remote_index s"
proof -
  have "members_ok s" using assms(1) by (simp add: net_ok_def)
  note b = begin_join_ok [OF this assms(2,3)]
  then have "reg_ok t = reg_ok s" "known_ok t = known_ok s" by (simp_all add: reg_ok_def known_ok_def)
  with b assms(1) show "net_ok t" by (simp add: net_ok_def)
qed (use assms begin_join_ok [OF _ assms(2,3)] in \<open>simp_all add: net_ok_def\<close>)

lemma remote_user_indexed: "remote_user_by_uid s uid = Some u \<Longrightarrow> get (remote_by_uid s) uid \<noteq> None"
  by (cases "get (remote_by_uid s) uid") (simp_all add: remote_user_by_uid_def)

lemma net_ok_remote_join:
  assumes ok: "net_ok s"
  shows "net_ok (remote_join nm uid mp ts s)"
proof (cases "remote_user_by_uid s uid")
  case (Some user)
  define f where "f = fold_key s nm"
  obtain h created t where b: "begin_join f nm s = ((h, created), t)" by (metis prod.exhaust)
  note bj = net_ok_begin_join [OF ok f_def [symmetric] b]
  define t1 where "t1 = (if \<not> created then reconcile_channel_ts h ts t
      else if ts > 0 then upd_chan h (\<lambda>d. d\<lparr>ch_created_at := ts\<rparr>) t else t)"
  have t1: "net_ok t1" "get (channels t1) f = Some h" "get (remote_by_uid t1) uid \<noteq> None"
    using bj net_ok_reconcile [OF bj(1)] remote_user_indexed [OF Some]
    by (auto simp: t1_def net_ok_upd remote_who_def local_who_def calm_fields [OF calm_reconcile])
  define p where "p = (if channel_ts_wins_over t1 h ts then prefix_default else mp)"
  define g where "g = (\<lambda>d. d\<lparr>ch_remote_members := put uid \<lparr>rm_nick = ru_nick user, rm_user = ru_user user,
      rm_host = ru_host user, rm_server_sid = ru_server_sid user, rm_prefix = p\<rparr> (ch_remote_members d)\<rparr> :: channel_data)"
  have "net_ok (remote_channels_insert uid f (upd_chan h g t1))" (is "net_ok ?t2")
    by (rule net_ok_remote_enter [OF t1]) (auto simp: g_def local_who_def remote_who_def tbl)
  then have "net_ok (end_join f h ?t2)" "net_ok (end_join f h (record_channel_event a b c d e (to_channel h ev x ?t2)))"
    for a b c d e ev x
    by (simp_all add: net_ok_end_join)
  then show ?thesis
    using Some b unfolding remote_join_def Let_def f_def [symmetric] t1_def [symmetric]
    by (simp add: p_def [symmetric] g_def [symmetric] t1_def [symmetric])
qed (simp add: remote_join_def ok)

lemma net_ok_remote_part:
  assumes ok: "net_ok s"
  shows "net_ok (remote_part nm uid reason s)"
proof (cases "find_channel s (fold_key s nm)")
  case (Some h)
  define f where "f = fold_key s nm"
  have h: "get (channels s) f = Some h" using Some by (simp add: f_def find_channel_def)
  define t where "t = upd_chan h (\<lambda>d. d\<lparr>ch_remote_members := del uid (ch_remote_members d)\<rparr>) s"
  show ?thesis
  proof (cases "get (ch_remote_members (cdata s h)) uid")
    case None
    then have "net_ok t" unfolding t_def by (intro net_ok_upd [OF ok]) (auto simp: remote_who_def local_who_def tbl)
    then show ?thesis using None Some by (simp add: remote_part_def Let_def t_def)
  next
    case (Some member)
    have leave: "net_ok (remote_channel_removed uid f t)"
      unfolding t_def by (rule net_ok_remote_leave [OF ok h])
    then show ?thesis
      using Some h
      by (cases "remote_user_by_uid (remote_channel_removed uid f t) uid")
        (simp_all add: remote_part_def f_def [symmetric] find_channel_def t_def [symmetric] net_ok_reap Let_def)
  qed
qed (simp add: remote_part_def Let_def ok)

lemma net_ok_remote_topic:
  assumes ok: "net_ok s"
  shows "net_ok (remote_topic nm source set_by set_at text s)"
proof (cases "find_channel s (fold_key s nm)")
  case (Some h)
  define t where "t = upd_chan h (\<lambda>d. d\<lparr>ch_topic := (if text = [] then None
    else Some \<lparr>topic_text = text, topic_set_by = set_by, topic_set_at = set_at\<rparr>)\<rparr>) s"
  have "net_ok t" unfolding t_def by (rule net_ok_upd [OF ok]) (simp_all add: remote_who_def local_who_def)
  then show ?thesis
    using Some by (simp add: remote_topic_def Let_def t_def [symmetric] net_ok_persist)
qed (simp add: remote_topic_def Let_def ok)

text \<open>A mode step touches neither the name nor the members of a channel.\<close>

definition same_shape :: "channel_data \<Rightarrow> channel_data \<Rightarrow> bool" where
  "same_shape d d' \<longleftrightarrow> ch_name d' = ch_name d \<and> remote_who d' = remote_who d \<and> local_who d' = local_who d
     \<and> ch_created_at d' = ch_created_at d \<and> ch_topic d' = ch_topic d"

lemma same_shape_refl [simp]: "same_shape d d"
  by (simp add: same_shape_def)

lemma same_shape_trans: "same_shape a b \<Longrightarrow> same_shape b c \<Longrightarrow> same_shape a c"
  by (simp add: same_shape_def)

lemma same_shape_set_list [simp]: "same_shape d (set_list c l d)"
  by (simp add: same_shape_def set_list_def remote_who_def local_who_def)

lemma same_shape_apply_step: "same_shape (ms_data st) (ms_data (apply_step now setter p st))"
proof (cases p)
  case (StepPrefix c adding target nick uid)
  then show ?thesis by (cases target) (auto simp: same_shape_def remote_who_def local_who_def tbl Let_def)
next
  case (StepKey adding key)
  then show ?thesis by (cases key) (auto simp: same_shape_def remote_who_def local_who_def Let_def)
next
  case (StepLimit adding limit)
  then show ?thesis by (cases limit) (auto simp: same_shape_def remote_who_def local_who_def Let_def)
next
  case (StepList c adding msk)
  obtain l a args where "apply_list_mode now (list_of c (ms_data st)) adding msk setter (ms_accum st) (ms_applied st) c = (l, a, args)"
    by (rule prod_cases3)
  then show ?thesis using StepList by simp
qed (auto simp: same_shape_def remote_who_def local_who_def split: option.splits)

lemma same_shape_steps: "same_shape (ms_data st) (ms_data (fold (apply_step now setter) steps st))"
  by (induction steps arbitrary: st) (auto intro: same_shape_trans same_shape_apply_step)

lemma net_ok_same_shape: "net_ok s \<Longrightarrow> same_shape (cdata s h) d \<Longrightarrow> net_ok (upd_chan h (\<lambda>_. d) s)"
  by (rule net_ok_upd) (simp_all add: same_shape_def)

lemma net_ok_apply_mode_change:
  assumes ok: "net_ok s"
  shows "net_ok (snd (apply_mode_change nm source ts flags args s))"
proof (cases "find_channel s (fold_key s nm)")
  case (Some h)
  define t where "t = (if ts > 0 then reconcile_channel_ts h ts s else s)"
  have t: "net_ok t" using ok by (simp add: t_def net_ok_reconcile)
  define st where "st = fold (apply_step (now_unix t) (remote_source_nick t source)) (mode_steps t (chars flags) args True)
    \<lparr>ms_data = cdata t h, ms_accum = accum_default, ms_applied = [], ms_wire = []\<rparr>"
  have "same_shape (cdata t h) (ms_data st)"
    using same_shape_steps [of "\<lparr>ms_data = cdata t h, ms_accum = accum_default, ms_applied = [], ms_wire = []\<rparr>"]
    by (simp add: st_def)
  then have "net_ok (upd_chan h (\<lambda>_. ms_data st) t)" by (rule net_ok_same_shape [OF t])
  then show ?thesis
    using Some ok by (simp add: apply_mode_change_def Let_def t_def [symmetric] st_def [symmetric] net_ok_persist)
qed (simp add: apply_mode_change_def Let_def ok)

lemma net_ok_remote_mode: "net_ok s \<Longrightarrow> net_ok (remote_mode nm source ts flags args s)"
  using net_ok_apply_mode_change [of s nm source ts flags args]
  by (cases "apply_mode_change nm source ts flags args s") (auto simp: remote_mode_def Let_def split: option.splits)

lemma net_ok_local_leave:
  assumes "net_ok s" "get (channels s) f = Some h" "i \<in> set (by_id s)"
  shows "net_ok (upd_client_data i (\<lambda>d. d\<lparr>cd_channels := hs_remove f (cd_channels d)\<rparr>)
    (upd_chan h (\<lambda>d. d\<lparr>ch_members := del i (ch_members d)\<rparr>) s))"
proof -
  define g where "g = (\<lambda>d. d\<lparr>ch_members := del i (ch_members d)\<rparr> :: channel_data)"
  let ?t = "upd_chan h g s"
  let ?u = "upd_client_data i (\<lambda>d. d\<lparr>cd_channels := hs_remove f (cd_channels d)\<rparr>) ?t"
  have g: "ch_name (g d) = ch_name d" "remote_who (g d) = remote_who d" "local_who (g d) = local_who d - {i}" for d
    by (auto simp: g_def local_who_def remote_who_def tbl)
  have ok: "chan_ok s" "remotes.agree s (remote_index s)" "locals.agree s (local_index s)" "reg_ok s" "known_ok s"
    using assms(1) by (simp_all add: net_ok_def members_ok_def)
  have fr: "channels ?u = channels ?t" "cdata ?u = cdata ?t" "next_chan ?u = next_chan ?t" "fold_key ?u = fold_key ?t"
    "remote_index ?u = remote_index s" "info ?u = info s" "remote_users ?u = remote_users s" "remote_by_uid ?u = remote_by_uid s"
    by (simp_all add: upd_client_data_def upd_client_def fun_eq_iff cdata_def fold_key_def remote_index_def)
  have idx: "local_index ?u = (local_index s)(i := local_index s i - {f})"
    using assms(3) by (auto simp: fun_eq_iff local_index_def upd_client_data_def upd_client_def)
  have "chan_ok ?u" using chan_ok_upd [of s g h] ok(1) g(1) chan_ok_cong [OF fr(1-4)] by simp
  moreover have "locals.agree ?u (local_index ?u)"
    using locals.agree_leave [where g = g, OF ok(1,3) assms(2) g(3)] locals.agree_cong [of ?u ?t] fr(1,2) by (simp add: idx)
  moreover have "remotes.agree ?u (remote_index ?u)"
    using remotes.agree_keep [of g s h] g(2) ok(2) remotes.agree_cong [of ?u ?t] fr(1,2,5) by simp
  moreover have "reg_ok ?u" "known_ok ?u" using ok(4,5) fr reg_ok_cong [of ?u s] known_ok_cong [of ?u s] by simp_all
  ultimately show ?thesis unfolding g_def by (simp add: net_ok_def members_ok_def)
qed

lemma net_ok_remote_kick:
  assumes ok: "net_ok s"
  shows "net_ok (remote_kick nm source uid reason s)"
proof (cases "find_channel s (fold_key s nm)")
  case (Some h)
  define f where "f = fold_key s nm"
  have h: "get (channels s) f = Some h" using Some by (simp add: f_def find_channel_def)
  show ?thesis
  proof (cases "local_id_of_uid s uid")
    case None
    then show ?thesis
      using ok h net_ok_remote_leave [OF ok h, of uid]
      by (simp add: remote_kick_def Let_def f_def [symmetric] find_channel_def net_ok_reap split: option.split)
  next
    case (Some i)
    have "net_ok (upd_client_data i (\<lambda>d. d\<lparr>cd_channels := hs_remove f (cd_channels d)\<rparr>)
      (upd_chan h (\<lambda>d. d\<lparr>ch_members := del i (ch_members d)\<rparr>) (record_channel_event a b c k e (broadcast h l x s))))"
      if "i \<in> set (by_id s)" for a b c k e l x
      by (rule net_ok_local_leave) (simp_all add: ok h that)
    then show ?thesis
      using Some ok h
      by (simp add: remote_kick_def Let_def f_def [symmetric] find_channel_def by_id_get_def net_ok_reap)
  qed
qed (simp add: remote_kick_def Let_def ok)

subsection \<open>Leaving the network\<close>

lemma purge_channel_ok:
  assumes "chan_ok s" "remotes.agree s I" "locals.agree s J"
  shows "chan_ok (snd (purge_channel uid reason user f (n, s)))
    \<and> remotes.agree (snd (purge_channel uid reason user f (n, s))) (I(uid := I uid - {f}))
    \<and> locals.agree (snd (purge_channel uid reason user f (n, s))) J
    \<and> calm s (snd (purge_channel uid reason user f (n, s)))"
proof (cases "find_channel s f")
  case None
  then have "I uid - {f} = I uid" using remotes.agree_known [OF assms(2)] by (fastforce simp: find_channel_def)
  then show ?thesis using None assms by (simp add: purge_channel_def)
next
  case (Some h)
  define g where "g = (\<lambda>d. d\<lparr>ch_remote_members := del uid (ch_remote_members d)\<rparr> :: channel_data)"
  have g: "ch_name (g d) = ch_name d" "local_who (g d) = local_who d" "remote_who (g d) = remote_who d - {uid}" for d
    by (auto simp: g_def local_who_def remote_who_def tbl)
  have h: "get (channels s) f = Some h" using Some by (simp add: find_channel_def)
  define t where "t = upd_chan h g s"
  have t: "chan_ok t" "remotes.agree t (I(uid := I uid - {f}))" "locals.agree t J" "calm s t"
    using chan_ok_upd [of s g h] remotes.agree_leave [where g = g, OF assms(1,2) h g(3)] locals.agree_keep [of g s h] assms g
    by (simp_all add: t_def)
  have q: "chan_ok (reap_channel f u) \<and> remotes.agree (reap_channel f u) (I(uid := I uid - {f}))
      \<and> locals.agree (reap_channel f u) J \<and> calm s (reap_channel f u)" if "quiet t u" for u
    using t that chan_ok_quiet [OF that] remotes.agree_quiet [OF that] locals.agree_quiet [OF that]
      calm_trans [OF t(4) calm_quiet [OF that]]
    by (auto intro: remotes.agree_reap locals.agree_reap calm_trans [OF _ calm_reap])
  show ?thesis
  proof (cases user)
    case None
    then show ?thesis using Some t q [OF quiet_refl]
      by (simp add: purge_channel_def Let_def g_def [symmetric] t_def [symmetric])
  next
    case (Some u)
    obtain n' v where nm: "notify_members (\<lambda>_. quit_line reason u) (keys_of (ch_members (cdata t h))) (n, t) = (n', v)"
      by fastforce
    then have "quiet t v" using quiet_notify_members [of "(n, t)" "\<lambda>_. quit_line reason u"] by (metis snd_conv)
    then have "quiet t (record_channel_event a b c k e v)" for a b c k e
      by (rule quiet_trans [OF _ quiet_record_channel_event])
    from q [OF this] show ?thesis using Some \<open>find_channel s f = Some h\<close> t nm
      by (simp add: purge_channel_def Let_def g_def [symmetric] t_def [symmetric])
  qed
qed

lemma purge_fold_ok:
  assumes "chan_ok s" "remotes.agree s I" "locals.agree s J"
  shows "chan_ok (snd (fold (purge_channel uid reason user) fs (n, s)))
    \<and> remotes.agree (snd (fold (purge_channel uid reason user) fs (n, s))) (I(uid := I uid - set fs))
    \<and> locals.agree (snd (fold (purge_channel uid reason user) fs (n, s))) J
    \<and> calm s (snd (fold (purge_channel uid reason user) fs (n, s)))"
  using assms
proof (induction fs arbitrary: n s I)
  case (Cons f fs)
  obtain n' t where t: "purge_channel uid reason user f (n, s) = (n', t)" by fastforce
  note st = purge_channel_ok [OF Cons.prems, of uid reason user f n, unfolded t snd_conv]
  then have "chan_ok t" "remotes.agree t (I(uid := I uid - {f}))" "locals.agree t J" by simp_all
  note IH = Cons.IH [OF this, of n']
  have "calm s (snd (fold (purge_channel uid reason user) fs (n', t)))" using calm_trans IH st by blast
  moreover have "I uid - {f} - set fs = I uid - set (f # fs)" by auto
  ultimately show ?case using IH by (simp only: fold_simps o_apply t fun_upd_upd fun_upd_same)
qed simp

text \<open>Purging a user empties its index and takes it out of every channel; the rest of the network state
  stays.\<close>

lemma purge_ok:
  assumes "net_ok s"
  shows "members_ok (purge_remote_memberships uid reason s)
    \<and> remote_index (purge_remote_memberships uid reason s) = (remote_index s)(uid := {})
    \<and> calm (s\<lparr>remote_channels := del uid (remote_channels s)\<rparr>) (purge_remote_memberships uid reason s)"
proof (cases "get (remote_channels s) uid")
  case None
  then have "del uid (remote_channels s) = remote_channels s" by (simp add: map_of_eq_None_iff)
  moreover have "remote_index s uid = {}" using None by (simp add: remote_index_def)
  ultimately show ?thesis using assms None by (simp add: purge_remote_memberships_def net_ok_def fun_upd_idem)
next
  case (Some fs)
  define t where "t = s\<lparr>remote_channels := del uid (remote_channels s)\<rparr>"
  have ok: "chan_ok s" "remotes.agree s (remote_index s)" "locals.agree s (local_index s)"
    using assms by (simp_all add: net_ok_def members_ok_def)
  have t: "chan_ok t" "remotes.agree t (remote_index s)" "locals.agree t (local_index t)"
    using ok by (simp_all add: t_def chan_ok_def remotes.agree_def locals.agree_def cdata_def local_index_def fold_key_def)
  define u where "u = snd (fold (purge_channel uid reason (remote_user_by_uid t uid)) fs ([], t))"
  have u: "purge_remote_memberships uid reason s = u"
    using Some by (simp add: purge_remote_memberships_def Let_def t_def u_def)
  have idx: "remote_index t = (remote_index s)(uid := {})"
    by (auto simp: fun_eq_iff t_def remote_index_def tbl)
  have "remote_index s uid = set fs" using Some by (simp add: remote_index_def)
  then have "chan_ok u" "remotes.agree u ((remote_index s)(uid := {}))" "locals.agree u (local_index t)" "calm t u"
    using purge_fold_ok [OF t, of uid reason "remote_user_by_uid t uid" fs "[]"] by (simp_all add: u_def)
  then show ?thesis using idx calm_index [of t u] by (simp add: u members_ok_def t_def [symmetric])
qed

lemma purge_fields:
  assumes "net_ok s"
  shows "info (purge_remote_memberships uid reason s) = info s"
    "remote_users (purge_remote_memberships uid reason s) = remote_users s"
    "remote_by_uid (purge_remote_memberships uid reason s) = remote_by_uid s"
    "remote_routes (purge_remote_memberships uid reason s) = remote_routes s"
    "remote_servers (purge_remote_memberships uid reason s) = remote_servers s"
    "clients (purge_remote_memberships uid reason s) = clients s"
  using calm_fields [OF conjunct2 [OF conjunct2 [OF purge_ok [OF assms, of uid reason]]]] by simp_all

lemma net_ok_purge: "net_ok s \<Longrightarrow> net_ok (purge_remote_memberships uid reason s)"
  using purge_ok [of s uid reason] purge_fields [of s uid reason]
  by (auto simp: net_ok_def reg_ok_def known_ok_def fold_key_def)

text \<open>Removing a user from the registry, once its memberships are gone.\<close>

lemma remove_user_ok:
  assumes ok: "net_ok s" and gone: "remote_index s uid = {}"
  shows "net_ok (snd (remote_remove_by_uid uid s))"
proof (cases "get (remote_by_uid s) uid")
  case (Some f)
  let ?t = "snd (remote_remove_by_uid uid s)"
  have t: "?t = s\<lparr>remote_by_uid := del uid (remote_by_uid s), remote_users := del f (remote_users s)\<rparr>"
    using Some by (simp add: remote_remove_by_uid_def)
  have r: "reg_ok s" "known_ok s" "members_ok s" using ok by (simp_all add: net_ok_def)
  then obtain u where u: "get (remote_users s) f = Some u" "ru_uid u = uid" using reg_ok_uid Some by blast
  have uniq: "g = f" if "get (remote_users s) g = Some v" "ru_uid v = uid" for g v
    using reg_ok_user(2) [OF r(1) that(1)] that(2) Some by simp
  have uniq': "v = uid" if "get (remote_by_uid s) v = Some f" for v using reg_ok_uid [OF r(1) that] u by auto
  have tab: "table_ok (remote_users s)" using r(1) by (simp add: reg_ok_def)
  have "reg_ok ?t"
    unfolding reg_ok_def
  proof (intro conjI allI impI)
    fix g v assume "get (remote_users ?t) g = Some v"
    then have "get (remote_users s) g = Some v" "g \<noteq> f" by (auto simp: t tbl split: if_splits)
    then show "fold_key ?t (ru_nick v) = g" "get (remote_by_uid ?t) (ru_uid v) = Some g"
      using reg_ok_user [OF r(1)] uniq by (auto simp: t tbl fold_key_def)
  next
    fix v g assume "get (remote_by_uid ?t) v = Some g"
    then have "get (remote_by_uid s) v = Some g" "v \<noteq> uid" by (auto simp: t tbl split: if_splits)
    then show "\<exists>u. get (remote_users ?t) g = Some u \<and> ru_uid u = v"
      using reg_ok_uid [OF r(1)] uniq' by (auto simp: t tbl)
  qed (simp add: t tab)
  moreover have "known_ok ?t" using r(2) gone by (auto simp: known_ok_def t tbl remote_index_def)
  moreover have "members_ok ?t" using r(3) members_ok_cong [of ?t s] by (simp add: t)
  ultimately show ?thesis by (simp add: net_ok_def)
qed (simp add: remote_remove_by_uid_def ok)

lemma remote_remove_users:
  assumes "reg_ok s"
  shows "get (remote_users (snd (remote_remove_by_uid uid s))) f =
    (case get (remote_users s) f of Some u \<Rightarrow> if ru_uid u = uid then None else Some u | None \<Rightarrow> None)"
proof (cases "get (remote_users s) f")
  case None
  then show ?thesis by (auto simp: remote_remove_by_uid_def tbl split: option.split)
next
  case (Some u)
  note u = reg_ok_user(2) [OF assms Some]
  show ?thesis
  proof (cases "get (remote_by_uid s) uid")
    case None
    then show ?thesis using Some u by (auto simp: remote_remove_by_uid_def)
  next
    case (Some g)
    then obtain v where "get (remote_users s) g = Some v" "ru_uid v = uid" using reg_ok_uid [OF assms] by blast
    then show ?thesis using Some u \<open>get (remote_users s) f = Some u\<close>
      by (cases "f = g") (auto simp: remote_remove_by_uid_def tbl)
  qed
qed

lemma remote_remove_fields [simp]:
  "info (snd (remote_remove_by_uid uid s)) = info s" "remote_routes (snd (remote_remove_by_uid uid s)) = remote_routes s"
  "remote_servers (snd (remote_remove_by_uid uid s)) = remote_servers s" "channels (snd (remote_remove_by_uid uid s)) = channels s"
  "chans (snd (remote_remove_by_uid uid s)) = chans s" "remote_channels (snd (remote_remove_by_uid uid s)) = remote_channels s"
  "clients (snd (remote_remove_by_uid uid s)) = clients s" "remote_index (snd (remote_remove_by_uid uid s)) = remote_index s"
  by (simp_all add: remote_remove_by_uid_def remote_index_def fun_eq_iff split: option.split)

lemma remote_quit_core:
  "quiet (snd (remote_remove_by_uid uid (purge_remote_memberships uid reason s))) (remote_quit uid reason s)"
  by (auto simp: remote_quit_def Let_def split: option.split intro: quiet_trans [OF quiet_record_whowas quiet_monitor(3)])

lemma net_ok_remote_quit:
  assumes "net_ok s"
  shows "net_ok (remote_quit uid reason s)"
proof -
  have "net_ok (purge_remote_memberships uid reason s)" by (rule net_ok_purge [OF assms])
  moreover have "remote_index (purge_remote_memberships uid reason s) uid = {}" using purge_ok [OF assms] by simp
  ultimately have "net_ok (snd (remote_remove_by_uid uid (purge_remote_memberships uid reason s)))" by (rule remove_user_ok)
  then show ?thesis using net_ok_quiet [OF remote_quit_core] by blast
qed

lemma remote_quit_effect:
  assumes "net_ok s"
  shows "get (remote_users (remote_quit uid reason s)) f =
      (case get (remote_users s) f of Some u \<Rightarrow> if ru_uid u = uid then None else Some u | None \<Rightarrow> None)"
    "remote_routes (remote_quit uid reason s) = remote_routes s"
    "remote_servers (remote_quit uid reason s) = remote_servers s"
    "info (remote_quit uid reason s) = info s"
    "remote_index (remote_quit uid reason s) = (remote_index s)(uid := {})"
proof -
  note q = quiet_fields [OF remote_quit_core [of uid reason s]]
  have "reg_ok (purge_remote_memberships uid reason s)" using net_ok_purge [OF assms] by (simp add: net_ok_def)
  from remote_remove_users [OF this] purge_fields [OF assms]
  show "get (remote_users (remote_quit uid reason s)) f =
      (case get (remote_users s) f of Some u \<Rightarrow> if ru_uid u = uid then None else Some u | None \<Rightarrow> None)"
    by (simp add: q)
  show "remote_routes (remote_quit uid reason s) = remote_routes s" "remote_servers (remote_quit uid reason s) = remote_servers s"
    "info (remote_quit uid reason s) = info s"
    by (simp_all add: q purge_fields [OF assms])
  show "remote_index (remote_quit uid reason s) = (remote_index s)(uid := {})"
    using purge_ok [OF assms, of uid reason] calm_index(1) [OF calm_quiet [OF remote_quit_core [of uid reason s]]] by simp
qed

lemma quit_all_effect:
  assumes "net_ok s"
  shows "net_ok (quit_all reason uids s)
    \<and> (\<forall>f. get (remote_users (quit_all reason uids s)) f =
         (case get (remote_users s) f of Some u \<Rightarrow> if ru_uid u \<in> set uids then None else Some u | None \<Rightarrow> None))
    \<and> remote_routes (quit_all reason uids s) = remote_routes s \<and> remote_servers (quit_all reason uids s) = remote_servers s
    \<and> info (quit_all reason uids s) = info s
    \<and> (\<forall>u. remote_index (quit_all reason uids s) u = (if u \<in> set uids then {} else remote_index s u))"
  using assms
proof (induction uids arbitrary: s)
  case Nil
  then show ?case by (simp add: quit_all_def split: option.split)
next
  case (Cons uid uids)
  have step: "quit_all reason (uid # uids) s = quit_all reason uids (remote_quit uid reason s)" by (simp add: quit_all_def)
  note IH = Cons.IH [OF net_ok_remote_quit [OF Cons.prems, of uid reason]]
  note e = remote_quit_effect [OF Cons.prems, of uid reason]
  show ?case unfolding step using IH by (auto simp: e split: option.split)
qed

subsection \<open>Introductions\<close>

definition replaced :: "string \<Rightarrow> remote_user \<Rightarrow> server \<Rightarrow> (string, string) table" where
  "replaced f user s =
     (case get (remote_users s) f of
        Some prev \<Rightarrow> if ru_uid prev \<noteq> ru_uid user then del (ru_uid prev) (remote_by_uid s) else remote_by_uid s
      | None \<Rightarrow> remote_by_uid s)"

lemma remote_insert_replaced:
  "remote_insert f user s =
     s\<lparr>remote_by_uid := put (ru_uid user) f (replaced f user s), remote_users := put f user (remote_users s)\<rparr>"
  by (simp add: remote_insert_def replaced_def Let_def split: option.split)

lemma net_ok_insert:
  assumes ok: "net_ok s" and f: "fold_key s (ru_nick user) = f"
    and own: "\<And>g. get (remote_by_uid s) (ru_uid user) = Some g \<Longrightarrow> g = f"
    and purged: "\<And>prev. get (remote_users s) f = Some prev \<Longrightarrow> ru_uid prev \<noteq> ru_uid user \<Longrightarrow> remote_index s (ru_uid prev) = {}"
  shows "net_ok (remote_insert f user s)"
proof -
  let ?t = "remote_insert f user s"
  have r: "reg_ok s" "known_ok s" "members_ok s" using ok by (simp_all add: net_ok_def)
  have rep: "get (replaced f user s) v = (if get (remote_by_uid s) v = Some f \<and> v \<noteq> ru_uid user then None else get (remote_by_uid s) v)" for v
  proof (cases "get (remote_users s) f")
    case None
    then have "get (remote_by_uid s) v \<noteq> Some f" using reg_ok_uid [OF r(1), of v f] by auto
    then show ?thesis using None by (simp add: replaced_def)
  next
    case (Some prev)
    have "v = ru_uid prev" if "get (remote_by_uid s) v = Some f" using reg_ok_uid [OF r(1) that] Some by auto
    moreover have "get (remote_by_uid s) (ru_uid prev) = Some f" by (rule reg_ok_user(2) [OF r(1) Some])
    ultimately show ?thesis using Some by (cases "v = ru_uid prev") (auto simp: replaced_def tbl)
  qed
  have "reg_ok ?t"
    unfolding reg_ok_def
  proof (intro conjI allI impI)
    fix g v assume v: "get (remote_users ?t) g = Some v"
    show "fold_key ?t (ru_nick v) = g"
      using v f reg_ok_user(1) [OF r(1), of g v] by (cases "g = f") (simp_all add: remote_insert_replaced tbl fold_key_def)
    show "get (remote_by_uid ?t) (ru_uid v) = Some g"
    proof (cases "g = f")
      case True
      then show ?thesis using v by (simp add: remote_insert_replaced tbl)
    next
      case False
      then have "get (remote_by_uid s) (ru_uid v) = Some g" using v reg_ok_user(2) [OF r(1), of g v] by (simp add: remote_insert_replaced tbl)
      moreover from this have "ru_uid v \<noteq> ru_uid user" using own False by metis
      ultimately show ?thesis using False by (simp add: remote_insert_replaced tbl rep)
    qed
  next
    fix v g assume v: "get (remote_by_uid ?t) v = Some g"
    show "\<exists>u. get (remote_users ?t) g = Some u \<and> ru_uid u = v"
    proof (cases "v = ru_uid user")
      case True
      then show ?thesis using v by (simp add: remote_insert_replaced tbl)
    next
      case False
      then have "get (replaced f user s) v = Some g" using v by (simp add: remote_insert_replaced tbl)
      then have "get (remote_by_uid s) v = Some g" "g \<noteq> f" using False unfolding rep by (auto split: if_splits)
      then show ?thesis using reg_ok_uid [OF r(1), of v g] by (simp add: remote_insert_replaced tbl)
    qed
  qed (use r(1) in \<open>simp add: reg_ok_def remote_insert_replaced\<close>)
  moreover have "known_ok ?t"
    unfolding known_ok_def
  proof (intro allI impI)
    fix v assume v: "remote_index ?t v \<noteq> {}"
    have "remote_index ?t v = remote_index s v" by (simp add: remote_insert_replaced remote_index_def)
    with v have i: "remote_index s v \<noteq> {}" by simp
    then obtain g where g: "get (remote_by_uid s) v = Some g" using r(2) by (auto simp: known_ok_def)
    then obtain u where "get (remote_users s) g = Some u" "ru_uid u = v" using reg_ok_uid [OF r(1)] by blast
    then have "v = ru_uid user \<or> g \<noteq> f" using purged i by blast
    then show "get (remote_by_uid ?t) v \<noteq> None" using g by (cases "v = ru_uid user") (simp_all add: remote_insert_replaced tbl rep)
  qed
  moreover have "members_ok ?t" using r(3) members_ok_cong [of ?t s] by (simp add: remote_insert_replaced)
  ultimately show ?thesis by (simp add: net_ok_def)
qed

text \<open>An introduction is in order when the network id is new or comes back under the same nickname, and
  no local client and another remote user hold the nickname at once.\<close>

definition introducible :: "remote_user \<Rightarrow> server \<Rightarrow> bool" where
  "introducible user s \<longleftrightarrow>
     (let f = fold_key s (ru_nick user)
      in (get (remote_by_uid s) (ru_uid user) = None \<or> get (remote_by_uid s) (ru_uid user) = Some f)
         \<and> (find_client s f = None \<or> get (remote_users s) f = None \<or> get (remote_by_uid s) (ru_uid user) = Some f))"

lemma introducibleD:
  assumes "introducible user s" "reg_ok s"
  defines "f \<equiv> fold_key s (ru_nick user)"
  shows "get (remote_by_uid s) (ru_uid user) = Some g \<Longrightarrow> g = f"
    and "find_client s f = Some i \<Longrightarrow> get (remote_users s) f = Some prev \<Longrightarrow> ru_uid prev = ru_uid user"
proof -
  show "g = f" if "get (remote_by_uid s) (ru_uid user) = Some g" using assms(1) that unfolding introducible_def f_def Let_def by auto
  assume "find_client s f = Some i" and prev: "get (remote_users s) f = Some prev"
  then have "get (remote_by_uid s) (ru_uid user) = Some f" using assms(1) unfolding introducible_def f_def Let_def by auto
  from reg_ok_uid [OF assms(2) this] prev show "ru_uid prev = ru_uid user" by auto
qed

text \<open>Putting a user in after output and purges that left the registry alone.\<close>

lemma net_ok_insert_after:
  assumes "net_ok t" "introducible user s" "reg_ok s" "info t = info s" "remote_users t = remote_users s"
    "remote_by_uid t = remote_by_uid s"
    "\<And>prev. get (remote_users s) (fold_key s (ru_nick user)) = Some prev \<Longrightarrow> ru_uid prev \<noteq> ru_uid user \<Longrightarrow> remote_index t (ru_uid prev) = {}"
  shows "net_ok (remote_insert (fold_key s (ru_nick user)) user t)"
proof (rule net_ok_insert [OF assms(1)])
  show "fold_key t (ru_nick user) = fold_key s (ru_nick user)" by (simp only: fold_key_def assms(4))
  show "g = fold_key s (ru_nick user)" if "get (remote_by_uid t) (ru_uid user) = Some g" for g
    using introducibleD(1) [OF assms(2,3)] that by (simp only: assms(6))
  show "remote_index t (ru_uid prev) = {}" if "get (remote_users t) (fold_key s (ru_nick user)) = Some prev" "ru_uid prev \<noteq> ru_uid user" for prev
    using assms(7) [of prev] that unfolding assms(5) .
qed

lemma net_ok_accept:
  assumes ok: "net_ok s" and intro: "introducible user s"
  shows "net_ok (snd (accept_remote_user user s))"
proof -
  define f where "f = fold_key s (ru_nick user)"
  have r: "reg_ok s" using ok by (simp add: net_ok_def)
  note ins = net_ok_insert_after [OF _ intro r, folded f_def]
  show ?thesis
  proof (cases "find_client s f")
    case (Some i)
    let ?t = "upd_client i (request_kill ''Nick collision'') s"
    have "net_ok (remote_insert f user ?t)"
    proof (rule ins)
      show "remote_index ?t (ru_uid prev) = {}" if "get (remote_users s) f = Some prev" "ru_uid prev \<noteq> ru_uid user" for prev
        using introducibleD(2) [OF intro r Some [unfolded f_def]] that unfolding f_def by blast
    qed (simp_all add: ok)
    then show ?thesis using Some ok by (simp add: accept_remote_user_def f_def [symmetric])
  next
    case None
    show ?thesis
    proof (cases "get (remote_users s) f")
      case none: None
      have "net_ok (remote_insert f user s)" by (rule ins) (simp_all add: ok none)
      then show ?thesis using None none by (simp add: accept_remote_user_def f_def [symmetric])
    next
      case (Some prev)
      define t where "t = snd (send_towards (ru_server_sid prev) (to_line (collision_kill (ru_uid prev))) s)"
      have t: "net_ok t" "remote_users t = remote_users s" "remote_by_uid t = remote_by_uid s" "info t = info s"
        using ok by (simp_all add: t_def)
      define u where "u = purge_remote_memberships (ru_uid prev) ''Nick collision'' t"
      have u: "net_ok u" "remote_users u = remote_users s" "remote_by_uid u = remote_by_uid s"
        "remote_index u (ru_uid prev) = {}" "info u = info s"
        using net_ok_purge [OF t(1)] purge_fields [OF t(1)] purge_ok [OF t(1)] t
        by (simp_all add: u_def)
      have "net_ok (remote_insert f user u)" by (rule ins) (use u Some in simp_all)
      moreover have "net_ok (remote_insert f user s)" if "ru_uid prev = ru_uid user" by (rule ins) (use Some that ok in simp_all)
      ultimately show ?thesis
        using None Some ok by (simp add: accept_remote_user_def Let_def f_def [symmetric] t_def [symmetric] u_def [symmetric])
    qed
  qed
qed

subsection \<open>Nickname changes\<close>

lemma net_ok_rekey:
  assumes ok: "net_ok s" and old: "get (remote_users s) oldf = Some old" and newf: "fold_key s (ru_nick new) = newf"
    and uid: "ru_uid new = ru_uid old"
    and gone: "\<And>prev. get (remote_users s) newf = Some prev \<Longrightarrow> ru_uid prev \<noteq> ru_uid old \<Longrightarrow> remote_index s (ru_uid prev) = {}"
    and users: "\<And>g. get (remote_users t) g = (if g = newf then Some new else if g = oldf then None else get (remote_users s) g)"
    and uids: "\<And>v. get (remote_by_uid t) v = (if v = ru_uid old then Some newf
        else if get (remote_by_uid s) v = Some newf then None else get (remote_by_uid s) v)"
    and frame: "info t = info s" "members_ok t" "remote_index t = remote_index s" "table_ok (remote_users t)"
  shows "net_ok t"
proof -
  have r: "reg_ok s" "known_ok s" using ok by (simp_all add: net_ok_def)
  have own: "get (remote_by_uid s) (ru_uid old) = Some oldf" by (rule reg_ok_user(2) [OF r(1) old])
  have fk: "fold_key t n = fold_key s n" for n by (simp add: fold_key_def frame(1))
  have "reg_ok t"
    unfolding reg_ok_def
  proof (intro conjI allI impI)
    fix g v assume v: "get (remote_users t) g = Some v"
    show "fold_key t (ru_nick v) = g"
      using v newf reg_ok_user(1) [OF r(1), of g v] by (cases "g = newf"; cases "g = oldf") (simp_all add: users fk)
    show "get (remote_by_uid t) (ru_uid v) = Some g"
    proof (cases "g = newf")
      case True
      then show ?thesis using v uid by (simp add: users uids)
    next
      case False
      then have "g \<noteq> oldf" "get (remote_users s) g = Some v" using v by (simp_all add: users split: if_splits)
      then have "get (remote_by_uid s) (ru_uid v) = Some g" "ru_uid v \<noteq> ru_uid old"
        using reg_ok_user(2) [OF r(1)] own by force+
      then show ?thesis using False by (simp add: uids)
    qed
  next
    fix v g assume v: "get (remote_by_uid t) v = Some g"
    show "\<exists>u. get (remote_users t) g = Some u \<and> ru_uid u = v"
    proof (cases "v = ru_uid old")
      case True
      then show ?thesis using v uid by (simp add: users uids)
    next
      case False
      then have g: "get (remote_by_uid s) v = Some g" "g \<noteq> newf" using v by (simp_all add: uids split: if_splits)
      then obtain u where "get (remote_users s) g = Some u" "ru_uid u = v" using reg_ok_uid [OF r(1)] by blast
      moreover from this have "g \<noteq> oldf" using old False by auto
      ultimately show ?thesis using g(2) by (simp add: users)
    qed
  qed (rule frame(4))
  moreover have "known_ok t"
    unfolding known_ok_def
  proof (intro allI impI)
    fix v assume "remote_index t v \<noteq> {}"
    then have i: "remote_index s v \<noteq> {}" by (simp add: frame(3))
    then obtain g where g: "get (remote_by_uid s) v = Some g" using r(2) by (auto simp: known_ok_def)
    then obtain u where "get (remote_users s) g = Some u" "ru_uid u = v" using reg_ok_uid [OF r(1)] by blast
    then have "v = ru_uid old \<or> g \<noteq> newf" using gone i by blast
    then show "get (remote_by_uid t) v \<noteq> None" using g by (cases "v = ru_uid old") (simp_all add: uids)
  qed
  ultimately show ?thesis using frame(2) by (simp add: net_ok_def)
qed

lemma renick_fold_ok:
  "net_ok s \<Longrightarrow> net_ok (snd (fold (renick_channel uid old new_nick line) hs (n, s)))"
proof (induction hs arbitrary: n s)
  case (Cons h hs)
  define t where "t = upd_chan h (\<lambda>d. d\<lparr>ch_remote_members := adjust uid (\<lambda>rm. rm\<lparr>rm_nick := new_nick\<rparr>) (ch_remote_members d)\<rparr>) s"
  have t: "net_ok t" unfolding t_def by (rule net_ok_upd [OF Cons.prems]) (auto simp: remote_who_def local_who_def tbl)
  obtain n' u where u: "renick_channel uid old new_nick line h (n, s) = (n', u)" by fastforce
  obtain n1 u1 where nm: "notify_members (\<lambda>_. line) (keys_of (ch_members (cdata t h))) (n, t) = (n1, u1)" by fastforce
  then have "quiet t u1" using quiet_notify_members [of "(n, t)" "\<lambda>_. line"] by (metis snd_conv)
  then have "net_ok u1" using t net_ok_quiet by blast
  then have "net_ok u"
    using u nm Cons.prems by (auto simp: renick_channel_def Let_def t_def [symmetric] split: if_splits)
  then show ?case using Cons.IH by (simp add: u)
qed simp

text \<open>The state after a change of nickname with its collision settled.\<close>

lemma net_ok_renamed:
  assumes ok: "net_ok s" and u: "remote_user_by_uid s uid = Some old"
    and newf: "fold_key s new_nick = newf" and oldf: "fold_key s (ru_nick old) = oldf"
    and coll: "\<And>prev. get (remote_users s) newf = Some prev \<Longrightarrow> newf \<noteq> oldf \<Longrightarrow> remote_index s (ru_uid prev) = {}"
    and t: "t = s \<or> (\<exists>v. get (remote_users s) newf = Some v \<and> newf \<noteq> oldf \<and> t = s\<lparr>remote_by_uid := del (ru_uid v) (remote_by_uid s)\<rparr>)"
  shows "net_ok (remote_insert newf (old\<lparr>ru_nick := new_nick\<rparr>) (t\<lparr>remote_users := del oldf (remote_users t)\<rparr>))" (is "net_ok ?u")
proof -
  have r: "reg_ok s" "members_ok s" using ok by (simp_all add: net_ok_def)
  obtain f where f: "get (remote_by_uid s) uid = Some f" "get (remote_users s) f = Some old"
    using u by (auto simp: remote_user_by_uid_def bind_eq_Some_conv)
  have uid: "ru_uid old = uid" using reg_ok_uid [OF r(1) f(1)] f(2) by auto
  have old: "get (remote_users s) oldf = Some old" using reg_ok_user(1) [OF r(1) f(2)] oldf f(2) by simp
  have at: "v = ru_uid prev" if "get (remote_by_uid s) v = Some newf" "get (remote_users s) newf = Some prev" for v prev
    using reg_ok_uid [OF r(1) that(1)] that(2) by auto
  have tu: "remote_users t = remote_users s" using t by auto
  have tb: "get (remote_by_uid t) v = get (remote_by_uid s) v" if "get (remote_by_uid s) v \<noteq> Some newf" for v
    using t that reg_ok_user(2) [OF r(1)] by (auto simp: tbl)
  show ?thesis
  proof (rule net_ok_rekey [OF ok old, of "old\<lparr>ru_nick := new_nick\<rparr>" newf])
    show "get (remote_users ?u) g = (if g = newf then Some (old\<lparr>ru_nick := new_nick\<rparr>) else if g = oldf then None else get (remote_users s) g)" for g
      by (simp add: remote_insert_replaced tbl tu)
    show "get (remote_by_uid ?u) v = (if v = ru_uid old then Some newf
        else if get (remote_by_uid s) v = Some newf then None else get (remote_by_uid s) v)" for v
    proof (cases "v = ru_uid old \<or> get (remote_by_uid s) v \<noteq> Some newf")
      case True
      then show ?thesis using tb [of v] reg_ok_user(2) [OF r(1), of newf]
        by (auto simp: remote_insert_replaced tbl replaced_def tu split: option.split)
    next
      case False
      then obtain prev where prev: "get (remote_users s) newf = Some prev" "ru_uid prev = v" using reg_ok_uid [OF r(1)] by blast
      then have "newf \<noteq> oldf" using old False by auto
      then show ?thesis using False prev by (simp add: remote_insert_replaced tbl replaced_def tu)
    qed
    show "remote_index s (ru_uid prev) = {}" if "get (remote_users s) newf = Some prev" "ru_uid prev \<noteq> ru_uid old" for prev
      using coll that old by (cases "newf = oldf") auto
    show "members_ok ?u" by (rule iffD2 [OF members_ok_cong r(2)]) (use t in \<open>auto simp: remote_insert_replaced\<close>)
    show "remote_index ?u = remote_index s" using t by (auto simp: fun_eq_iff remote_index_def remote_insert_replaced)
    show "info ?u = info s" using t by (auto simp: remote_insert_replaced)
    show "table_ok (remote_users ?u)" using r(1) by (simp add: reg_ok_def remote_insert_replaced tu)
    show "fold_key s (ru_nick (old\<lparr>ru_nick := new_nick\<rparr>)) = newf" using newf by simp
  qed simp
qed

text \<open>\<open>settled newf s t\<close>: the collision at \<open>newf\<close> is over in \<open>t\<close>. The loser is out of every channel and at
  most its entry in the index by network id is gone from a sound state.\<close>

definition settled :: "string \<Rightarrow> server \<Rightarrow> server \<Rightarrow> bool" where
  "settled newf s t \<longleftrightarrow> (\<exists>u. net_ok u \<and> info u = info s \<and> remote_users u = remote_users s \<and> remote_by_uid u = remote_by_uid s
      \<and> (\<forall>prev. get (remote_users s) newf = Some prev \<longrightarrow> remote_index u (ru_uid prev) = {})
      \<and> (t = u \<or> (\<exists>v. get (remote_users u) newf = Some v \<and> t = u\<lparr>remote_by_uid := del (ru_uid v) (remote_by_uid u)\<rparr>)))"

lemma nick_collision_lost:
  assumes ok: "net_ok s" and c: "nick_collision uid newf s = (Some k, t)"
  shows "net_ok t"
proof -
  have lose: "net_ok (snd (remote_remove_by_uid uid (purge_remote_memberships uid r s)))" for r
    by (rule remove_user_ok [OF net_ok_purge [OF ok]]) (use purge_ok [OF ok] in simp)
  show ?thesis using c lose by (auto simp: nick_collision_def Let_def split: option.splits if_splits)
qed

lemma nick_collision_settled:
  assumes ok: "net_ok s" and free: "find_client s newf = None \<or> get (remote_users s) newf = None"
    and c: "nick_collision uid newf s = (None, t)"
  shows "settled newf s t"
proof (cases "get (remote_users s) newf")
  case None
  then have "t = s \<or> (\<exists>i. t = upd_client i (request_kill ''Nick collision'') s)"
    using c by (auto simp: nick_collision_def Let_def split: option.splits if_splits)
  then have "net_ok t" "info t = info s" "remote_users t = remote_users s" "remote_by_uid t = remote_by_uid s"
    using ok by auto
  then show ?thesis using None unfolding settled_def by (intro exI [of _ t]) simp
next
  case (Some prev)
  then have nc: "find_client s newf = None" using free by simp
  define u0 where "u0 = snd (send_towards (ru_server_sid prev) (to_line (collision_kill (ru_uid prev))) s)"
  have u0: "net_ok u0" "info u0 = info s" "remote_users u0 = remote_users s" "remote_by_uid u0 = remote_by_uid s"
    using ok by (simp_all add: u0_def)
  define u where "u = purge_remote_memberships (ru_uid prev) ''Nick collision'' u0"
  have "t = u\<lparr>remote_by_uid := del (ru_uid prev) (remote_by_uid u)\<rparr>"
    using c nc Some by (simp add: nick_collision_def Let_def u0_def [symmetric] u_def [symmetric] split: if_splits)
  moreover have "net_ok u" "info u = info s" "remote_users u = remote_users s" "remote_by_uid u = remote_by_uid s"
    "remote_index u (ru_uid prev) = {}"
    using net_ok_purge [OF u0(1)] purge_fields [OF u0(1)] purge_ok [OF u0(1)] u0 by (simp_all add: u_def)
  ultimately show ?thesis using Some unfolding settled_def by (intro exI [of _ u]) simp
qed

definition nick_available :: "string \<Rightarrow> server \<Rightarrow> bool" where
  "nick_available nick s \<longleftrightarrow> find_client s (fold_key s nick) = None \<or> get (remote_users s) (fold_key s nick) = None"

lemma net_ok_renamed_settled:
  assumes "net_ok s" "remote_user_by_uid s uid = Some old" "fold_key s new_nick = newf" "fold_key s (ru_nick old) = oldf"
    "newf \<noteq> oldf" "settled newf s t"
  shows "net_ok (remote_insert newf (old\<lparr>ru_nick := new_nick\<rparr>) (t\<lparr>remote_users := del oldf (remote_users t)\<rparr>))"
proof -
  obtain u where u: "net_ok u" "info u = info s" "remote_users u = remote_users s" "remote_by_uid u = remote_by_uid s"
    "\<forall>prev. get (remote_users s) newf = Some prev \<longrightarrow> remote_index u (ru_uid prev) = {}"
    "t = u \<or> (\<exists>v. get (remote_users u) newf = Some v \<and> t = u\<lparr>remote_by_uid := del (ru_uid v) (remote_by_uid u)\<rparr>)"
    using assms(6) unfolding settled_def by blast
  have "remote_user_by_uid u uid = Some old" using assms(2) u(3,4) by (simp add: remote_user_by_uid_def)
  then show ?thesis
    by (rule net_ok_renamed [OF u(1)]) (use u assms(3-5) in \<open>simp_all only: fold_key_def, blast+\<close>)
qed

lemma net_ok_nick_change:
  assumes ok: "net_ok s" and free: "nick_available new_nick s"
  shows "net_ok (snd (remote_nick_change uid new_nick s))"
proof (cases "remote_user_by_uid s uid")
  case (Some old)
  define oldf newf where "oldf = fold_key s (ru_nick old)" and "newf = fold_key s new_nick"
  have free': "find_client s newf = None \<or> get (remote_users s) newf = None" using free by (simp add: nick_available_def newf_def)
  obtain kill t where t: "(if newf \<noteq> oldf then nick_collision uid newf s else (None, s)) = (kill, t)" by fastforce
  define u where "u = remote_insert newf (old\<lparr>ru_nick := new_nick\<rparr>) (t\<lparr>remote_users := del oldf (remote_users t)\<rparr>)"
  have fin: "net_ok (u)" if none: "kill = None"
  proof (cases "newf = oldf")
    case True
    then have "t = s" using t by simp
    then show ?thesis using True unfolding u_def
      by (intro net_ok_renamed [OF ok Some]) (simp_all add: newf_def oldf_def)
  next
    case False
    then have "settled newf s t" using nick_collision_settled [OF ok free'] t none by simp
    then show ?thesis unfolding u_def
      by (rule net_ok_renamed_settled [OF ok Some newf_def [symmetric] oldf_def [symmetric] False])
  qed
  have "net_ok t" if "kill = Some k" for k using nick_collision_lost [OF ok] t that by (simp split: if_splits)
  then show ?thesis
    using Some ok t fin renick_fold_ok [of u]
    unfolding remote_nick_change_def
    by (simp add: Let_def oldf_def [symmetric] newf_def [symmetric] u_def [symmetric] split: option.split)
qed (simp add: remote_nick_change_def ok)

end
