(* ===== verification/Netsplit.thy ===== *)
theory Netsplit
  imports Network
begin

text \<open>
  Netsplits: what \<open>split_remote_server\<close> and \<open>drop_link\<close> (\<open>ferrixd/src/state.rs\<close>) leave behind. The loop
  that collects the servers behind a server computes the descendants of the tree of uplinks; losing a
  server or a link takes out exactly the users behind it, from the registry and from every channel.
\<close>

subsection \<open>The subtree of a server\<close>

definition uplinks :: "remote_server list \<Rightarrow> (string \<times> string) set" where
  "uplinks servers = {(rs_uplink r, rs_sid r) | r. r \<in> set servers}"

lemma split_closure_closed:
  "x \<in> set (split_closure servers split) \<Longrightarrow> (x, y) \<in> uplinks servers \<Longrightarrow> y \<in> set (split_closure servers split)"
proof (induction servers split rule: split_closure.induct)
  case (1 servers split)
  show ?case
  proof (cases "split_more servers split = []")
    case True
    then have "rs_sid r \<in> set split" if "r \<in> set servers" "rs_uplink r \<in> set split" for r
      using that split_more_set [of servers split] by auto
    then show ?thesis using 1(2,3) True by (auto simp: uplinks_def split_closure.simps [of servers split])
  next
    case False
    then show ?thesis using 1(1) [OF refl False] 1(2,3) by (simp add: split_closure.simps [of servers split])
  qed
qed

lemma split_closure_upper:
  "set split \<subseteq> set (split_closure servers split)
   \<and> set (split_closure servers split) \<subseteq> (uplinks servers)\<^sup>* `` set split"
proof (induction servers split rule: split_closure.induct)
  case (1 servers split)
  show ?case
  proof (cases "split_more servers split = []")
    case True
    then show ?thesis by (auto simp: split_closure.simps [of servers split])
  next
    case False
    let ?next = "fold hs_insert (split_more servers split) split"
    have "set ?next \<subseteq> (uplinks servers)\<^sup>* `` set split"
      by (auto simp: split_more_set uplinks_def)
    then have "(uplinks servers)\<^sup>* `` set ?next \<subseteq> (uplinks servers)\<^sup>* `` set split"
      by (metis Image_mono rtrancl_idemp_self_comp relcomp_Image subset_refl)
    then show ?thesis using 1 [OF refl False] False by (auto simp: split_closure.simps [of servers split])
  qed
qed

lemma split_closure_reach: "set (split_closure servers split) = (uplinks servers)\<^sup>* `` set split"
proof
  show "(uplinks servers)\<^sup>* `` set split \<subseteq> set (split_closure servers split)"
  proof
    fix y assume "y \<in> (uplinks servers)\<^sup>* `` set split"
    then obtain x where "x \<in> set split" "(x, y) \<in> (uplinks servers)\<^sup>*" by blast
    from this(2,1) show "y \<in> set (split_closure servers split)"
      by (induction) (use split_closure_upper split_closure_closed in blast)+
  qed
qed (use split_closure_upper in blast)

text \<open>C23: the loop that collects the servers that split with a server ends, and what it collects is
  exactly that server and everything whose chain of uplinks passes through it.\<close>

theorem split_subtree_exact:
  "set (split_closure servers [sid]) = {x. (sid, x) \<in> (uplinks servers)\<^sup>*}"
  by (auto simp: split_closure_reach)

subsection \<open>A small network\<close>

text \<open>Two peers: \<open>0BB\<close> with the user \<open>bob\<close>, who is on the channel \<open>#c\<close>, and \<open>0CC\<close> with the user \<open>carol\<close>.\<close>

definition demo_user :: "string \<Rightarrow> string \<Rightarrow> string \<Rightarrow> remote_user" where
  "demo_user sid uid nick =
     \<lparr> ru_server_sid = sid, ru_uid = uid, ru_nick = nick, ru_user = nick, ru_host = ''h'', ru_account = None,
       ru_realname = nick, ru_away = None, ru_oper = False, ru_invisible = False, ru_bot = False \<rparr>"

definition demo_member :: remote_member where
  "demo_member = \<lparr>rm_nick = ''bob'', rm_user = ''bob'', rm_host = ''h'', rm_server_sid = ''0BB'', rm_prefix = prefix_default\<rparr>"

definition demo_link :: "string \<Rightarrow> string \<Rightarrow> link_handle" where
  "demo_link sid name = \<lparr>lh_sid = sid, lh_name = name, lh_description = [], lh_queue = [], lh_sendq = 10, lh_shutdown = False\<rparr>"

definition demo_net :: server where
  "demo_net = (server_new 5000 demo_info)
     \<lparr> channels := [(''#c'', 0)], next_chan := 1,
       chans := (\<lambda>_. \<lparr>chan_data = (chan_data (channel_entry_new 5 ''#c''))\<lparr>ch_remote_members := [(''0BB1'', demo_member)]\<rparr>,
         chan_joining = 0\<rparr>),
       links := [(''0BB'', demo_link ''0BB'' ''irc.b''), (''0CC'', demo_link ''0CC'' ''irc.c'')],
       remote_routes := [(''0BB'', ''0BB''), (''0CC'', ''0CC'')],
       remote_servers := [],
       remote_users := [(''bob'', demo_user ''0BB'' ''0BB1'' ''bob''), (''carol'', demo_user ''0CC'' ''0CC1'' ''carol'')],
       remote_by_uid := [(''0BB1'', ''bob''), (''0CC1'', ''carol'')],
       remote_channels := [(''0BB1'', [''#c''])] \<rparr>"

lemma demo_fold: "fold_key demo_net ''bob'' = ''bob''" "fold_key demo_net ''carol'' = ''carol''" "fold_key demo_net ''#c'' = ''#c''"
  by (code_simp)+

lemma demo_net_ok: "net_ok demo_net"
proof -
  have fields: "channels demo_net = [(''#c'', 0)]" "next_chan demo_net = 1"
    "remote_users demo_net = [(''bob'', demo_user ''0BB'' ''0BB1'' ''bob''), (''carol'', demo_user ''0CC'' ''0CC1'' ''carol'')]"
    "remote_by_uid demo_net = [(''0BB1'', ''bob''), (''0CC1'', ''carol'')]" "remote_channels demo_net = [(''0BB1'', [''#c''])]"
    "by_id demo_net = []" "ch_remote_members (cdata demo_net h) = [(''0BB1'', demo_member)]" "ch_members (cdata demo_net h) = []"
    "ch_name (cdata demo_net h) = ''#c''" for h
    by (simp_all add: demo_net_def server_new_def cdata_def channel_entry_new_def)
  have "chan_ok demo_net" by (simp add: chan_ok_def fields demo_fold)
  moreover have "remotes.agree demo_net (remote_index demo_net)"
    by (simp add: remotes.agree_def fields remote_index_def remote_who_def)
  moreover have "locals.agree demo_net (local_index demo_net)"
    by (simp add: locals.agree_def fields local_index_def local_who_def)
  moreover have "reg_ok demo_net" by (simp add: reg_ok_def fields demo_user_def demo_fold table_ok_def)
  moreover have "known_ok demo_net" by (simp add: known_ok_def fields remote_index_def)
  ultimately show ?thesis by (simp add: net_ok_def members_ok_def)
qed

lemma demo_routes: "table_ok (remote_routes demo_net)" "table_ok (remote_servers demo_net)"
  by (simp_all add: demo_net_def table_ok_def)

subsection \<open>Losing a server\<close>

lemma users_of_set:
  "table_ok (remote_users s) \<Longrightarrow>
   set (users_of P s) = {ru_uid u | u f. get (remote_users s) f = Some u \<and> P (ru_server_sid u)}"
  by (force simp: users_of_def image_iff in_get_Some)

lemma quit_users_of:
  assumes "net_ok s" "get (remote_users s) f = Some u"
  shows "ru_uid u \<in> set (users_of P s) \<longleftrightarrow> P (ru_server_sid u)"
proof -
  have r: "reg_ok s" using assms(1) by (simp add: net_ok_def)
  then have tab: "table_ok (remote_users s)" by (simp add: reg_ok_def)
  have uniq: "v = u" if "get (remote_users s) g = Some v" "ru_uid v = ru_uid u" for g v
    using reg_ok_user(3) [OF r that(1)] reg_ok_user(3) [OF r assms(2)] that(2) by (metis option.inject)
  show ?thesis unfolding users_of_set [OF tab] mem_Collect_eq using assms(2) by (metis uniq)
qed

lemma quit_all_users:
  assumes "net_ok s"
  shows "get (remote_users (quit_all reason (users_of P s) s)) f = Some u
    \<longleftrightarrow> get (remote_users s) f = Some u \<and> \<not> P (ru_server_sid u)"
proof (cases "get (remote_users s) f")
  case None
  then show ?thesis using quit_all_effect [OF assms, of reason "users_of P s"] by simp
next
  case (Some v)
  then show ?thesis using quit_all_effect [OF assms, of reason "users_of P s"] quit_users_of [OF assms Some, of P] by auto
qed

lemma remote_quit_links:
  assumes "net_ok s"
  shows "map_vals strip_link (links (remote_quit uid reason s)) = map_vals strip_link (links s)"
proof -
  let ?p = "purge_remote_memberships uid reason s"
  have "map_vals strip_link (links ?p) = map_vals strip_link (links s)"
    using purge_ok [OF assms, of uid reason] by (simp add: calm_def quiet_def)
  moreover have "links (snd (remote_remove_by_uid uid ?p)) = links ?p" by (simp add: remote_remove_by_uid_def split: option.split)
  ultimately show ?thesis using remote_quit_core [of uid reason s] unfolding quiet_def by simp
qed

lemma quit_all_links:
  assumes "net_ok s"
  shows "map_option strip_link (get (links (quit_all reason uids s)) k) = map_option strip_link (get (links s) k)"
proof -
  have "map_vals strip_link (links (quit_all reason uids s)) = map_vals strip_link (links s)"
    using assms
  proof (induction uids arbitrary: s)
    case (Cons uid uids)
    then show ?case using Cons.IH [OF net_ok_remote_quit [OF Cons.prems]] remote_quit_links [OF Cons.prems, of uid reason]
      by (simp add: quit_all_def)
  qed (simp add: quit_all_def)
  then show ?thesis by (metis get_map_vals)
qed

text \<open>A remote member of a registered channel is a known user, found under its network id.\<close>

lemma member_known:
  assumes "net_ok s" "get (channels s) f = Some h" "get (ch_remote_members (cdata s h)) uid \<noteq> None"
  shows "\<exists>g u. get (remote_users s) g = Some u \<and> ru_uid u = uid"
proof -
  have "remotes.agree s (remote_index s)" "known_ok s" "reg_ok s" using assms(1) by (simp_all add: net_ok_def members_ok_def)
  moreover from this(1) have "f \<in> remote_index s uid" using remotes.agree_iff assms(2,3) by (fastforce simp: remote_who_def)
  ultimately show ?thesis using reg_ok_uid unfolding known_ok_def by blast
qed

lemma net_ok_routes:
  "net_ok (s\<lparr>remote_servers := a, remote_routes := b\<rparr>) = net_ok s" "net_ok (s\<lparr>links := l\<rparr>) = net_ok s"
  "net_ok (s\<lparr>remote_routes := b\<rparr>) = net_ok s" "net_ok (s\<lparr>remote_servers := a\<rparr>) = net_ok s"
  by (rule net_ok_cong; simp)+

lemma split_remote_server_users:
  assumes "net_ok s"
  shows "get (remote_users (split_remote_server sid reason s)) f = Some u
    \<longleftrightarrow> get (remote_users s) f = Some u \<and> (sid, ru_server_sid u) \<notin> (uplinks (map snd (remote_servers s)))\<^sup>*"
proof -
  define split where "split = split_closure (map snd (remote_servers s)) [sid]"
  define t where "t = s\<lparr>remote_servers := retain (\<lambda>k _. k \<notin> set split) (remote_servers s),
    remote_routes := retain (\<lambda>k _. k \<notin> set split) (remote_routes s)\<rparr>"
  have t: "net_ok t" using assms by (simp add: t_def net_ok_routes)
  have "split_remote_server sid reason s = quit_all reason (users_of (\<lambda>x. x \<in> set split) t) t"
    by (simp add: split_remote_server_def Let_def split_def [symmetric] t_def [symmetric])
  then show ?thesis using quit_all_users [OF t, of reason "\<lambda>x. x \<in> set split"] by (simp add: t_def split_def split_closure_reach)
qed

text \<open>C10: when a server leaves the network (\<open>SQUIT\<close>), exactly the users on the servers behind it are
  gone, no route and no server of its subtree is left, and the network state stays sound: in
  particular no channel keeps a member that is not a known user.\<close>

theorem split_remote_server_exact:
  assumes "net_ok s" "table_ok (remote_routes s)" "table_ok (remote_servers s)"
  shows "net_ok (split_remote_server sid reason s)
    \<and> (\<forall>f u. get (remote_users (split_remote_server sid reason s)) f = Some u
         \<longleftrightarrow> get (remote_users s) f = Some u \<and> (sid, ru_server_sid u) \<notin> (uplinks (map snd (remote_servers s)))\<^sup>*)
    \<and> (\<forall>k. get (remote_routes (split_remote_server sid reason s)) k =
         (if (sid, k) \<in> (uplinks (map snd (remote_servers s)))\<^sup>* then None else get (remote_routes s) k))
    \<and> (\<forall>k. get (remote_servers (split_remote_server sid reason s)) k =
         (if (sid, k) \<in> (uplinks (map snd (remote_servers s)))\<^sup>* then None else get (remote_servers s) k))"
proof -
  define split where "split = split_closure (map snd (remote_servers s)) [sid]"
  have split: "x \<in> set split \<longleftrightarrow> (sid, x) \<in> (uplinks (map snd (remote_servers s)))\<^sup>*" for x
    by (auto simp: split_def split_closure_reach)
  define t where "t = s\<lparr>remote_servers := retain (\<lambda>k _. k \<notin> set split) (remote_servers s),
    remote_routes := retain (\<lambda>k _. k \<notin> set split) (remote_routes s)\<rparr>"
  have t: "net_ok t" using assms(1) by (simp add: t_def net_ok_routes)
  have res: "split_remote_server sid reason s = quit_all reason (users_of (\<lambda>x. x \<in> set split) t) t"
    by (simp add: split_remote_server_def Let_def split_def [symmetric] t_def [symmetric])
  note q = quit_all_effect [OF t, of reason "users_of (\<lambda>x. x \<in> set split) t"]
  have "get (remote_routes (split_remote_server sid reason s)) k = (if k \<in> set split then None else get (remote_routes s) k)"
    "get (remote_servers (split_remote_server sid reason s)) k = (if k \<in> set split then None else get (remote_servers s) k)" for k
    using q assms(2,3) by (auto simp: res t_def get_retain split: option.split)
  moreover have "net_ok (split_remote_server sid reason s)" using q by (simp add: res)
  ultimately show ?thesis using split_remote_server_users [OF assms(1)] unfolding split by blast
qed

theorem split_remote_server_exact_witness:
  "get (remote_users (split_remote_server ''0BB'' ''gone'' demo_net)) ''bob'' = None
   \<and> get (remote_users (split_remote_server ''0BB'' ''gone'' demo_net)) ''carol'' = Some (demo_user ''0CC'' ''0CC1'' ''carol'')"
proof -
  note th = split_remote_server_exact [OF demo_net_ok demo_routes, of "''0BB''" "''gone''"]
  have "uplinks (map snd (remote_servers demo_net)) = {}" by (simp add: uplinks_def demo_net_def)
  then have "(''0BB'', x) \<in> (uplinks (map snd (remote_servers demo_net)))\<^sup>* \<longleftrightarrow> x = ''0BB''" for x by auto
  with th have "get (remote_users (split_remote_server ''0BB'' ''gone'' demo_net)) f = Some u
      \<longleftrightarrow> get (remote_users demo_net) f = Some u \<and> ru_server_sid u \<noteq> ''0BB''" for f u by simp
  then show ?thesis
    by (cases "get (remote_users (split_remote_server ''0BB'' ''gone'' demo_net)) ''bob''") (simp_all add: demo_net_def demo_user_def)
qed

subsection \<open>Losing a link\<close>

text \<open>C5: a netsplit is complete. Dropping the link to a peer leaves the network state sound and keeps
  exactly the users that were neither on the peer nor on a server routed through it; no route leads
  through the peer any more.\<close>

theorem netsplit_complete:
  assumes "net_ok s" "table_ok (remote_routes s)"
  shows "net_ok (drop_link sid s)
    \<and> (\<forall>f u. get (remote_users (drop_link sid s)) f = Some u
         \<longleftrightarrow> get (remote_users s) f = Some u \<and> ru_server_sid u \<noteq> sid \<and> \<not> routed_via s (ru_server_sid u) sid)
    \<and> (\<forall>k. get (remote_routes (drop_link sid s)) k = (if routed_via s k sid then None else get (remote_routes s) k))
    \<and> get (links (drop_link sid s)) sid = None"
proof -
  define split where "split = map fst (filter (\<lambda>(_, owner). owner = sid) (remote_routes s))"
  have split: "k \<in> set split \<longleftrightarrow> routed_via s k sid" for k
    using assms(2) by (force simp: split_def routed_via_def in_get_Some [symmetric])
  define t where "t = s\<lparr>links := del sid (links s), remote_routes := retain (\<lambda>_ owner. owner \<noteq> sid) (remote_routes s),
    remote_servers := retain (\<lambda>k _. k \<notin> set split \<and> k \<noteq> sid) (remote_servers s)\<rparr>"
  have t: "net_ok t" using assms(1) net_ok_cong [of t s] by (simp add: t_def)
  define u where "u = quit_all NET_SPLIT (users_of (\<lambda>x. x = sid \<or> x \<in> set split) t) t"
  have res: "drop_link sid s = propagate_to_links (to_line (Squit sid NET_SPLIT)) u"
    by (simp add: drop_link_def Let_def split_def t_def u_def)
  note q = quit_all_effect [OF t, of NET_SPLIT "users_of (\<lambda>x. x = sid \<or> x \<in> set split) t", folded u_def]
  have "get (remote_users u) f = Some v \<longleftrightarrow> get (remote_users s) f = Some v \<and> ru_server_sid v \<noteq> sid \<and> \<not> routed_via s (ru_server_sid v) sid" for f v
    unfolding u_def quit_all_users [OF t] by (simp add: split t_def)
  moreover have "get (remote_routes u) k = (if routed_via s k sid then None else get (remote_routes s) k)" for k
    using q assms(2) by (auto simp: t_def get_retain routed_via_def split: option.split)
  moreover have "get (links (drop_link sid s)) sid = None"
    using quit_all_links [OF t, of NET_SPLIT _ sid] by (simp add: res u_def propagate_to_links_def tbl t_def)
  ultimately show ?thesis using q by (simp add: res)
qed

theorem netsplit_complete_witness:
  "get (remote_users (drop_link ''0BB'' demo_net)) ''bob'' = None
   \<and> get (remote_users (drop_link ''0BB'' demo_net)) ''carol'' = Some (demo_user ''0CC'' ''0CC1'' ''carol'')
   \<and> get (remote_routes (drop_link ''0BB'' demo_net)) ''0BB'' = None"
proof -
  note th = netsplit_complete [OF demo_net_ok demo_routes(1), of "''0BB''"]
  then have "get (remote_users (drop_link ''0BB'' demo_net)) f = Some u
      \<longleftrightarrow> get (remote_users demo_net) f = Some u \<and> ru_server_sid u \<noteq> ''0BB'' \<and> \<not> routed_via demo_net (ru_server_sid u) ''0BB''" for f u
    by simp
  moreover have "routed_via demo_net k ''0BB'' \<longleftrightarrow> k = ''0BB''" for k by (simp add: routed_via_def demo_net_def)
  ultimately show ?thesis using th
    by (cases "get (remote_users (drop_link ''0BB'' demo_net)) ''bob''") (simp_all add: demo_net_def demo_user_def)
qed

end
