(* ===== verification/Rename.thy ===== *)
theory Rename
  imports Netsplit
begin

text \<open>
  Renaming a channel (\<open>rename_channel\<close> of \<open>ferrixd/src/state.rs\<close>): everything filed under the old name
  moves to the new one, and the invariant of the network state is kept.
\<close>

context membership
begin

lemma agree_rename:
  assumes "chan_ok s" "agree s I" "get (channels s) f = Some h" "get (channels s) g = None"
    "channels t = del f (put g h (channels s))" "\<And>k. who (cdata t k) = who (cdata s k)"
  shows "agree t (\<lambda>u. if f \<in> I u then insert g (I u - {f}) else I u)"
proof -
  have "g \<notin> I u" for u using agree_known [OF assms(2), of g u] assms(4) by auto
  moreover have "g \<noteq> f" using assms(3,4) by auto
  ultimately have g: "g \<notin> I u" "g \<noteq> f" for u by simp_all
  have get_t: "get (channels t) x = (if x = f then None else if x = g then Some h else get (channels s) x)" for x
    by (simp add: assms(5) tbl)
  show ?thesis
    unfolding agree_def
  proof (intro conjI allI impI)
    fix x k u assume x: "get (channels t) x = Some k"
    show "u \<in> who (cdata t k) \<longleftrightarrow> x \<in> (if f \<in> I u then insert g (I u - {f}) else I u)"
    proof (cases "x = g")
      case True
      then have "k = h" using x g(2) by (simp add: get_t)
      then show ?thesis using agree_iff [OF assms(2,3), of u] g(1) True by (simp add: assms(6))
    next
      case False
      then have "x \<noteq> f" "get (channels s) x = Some k" using x by (simp_all add: get_t split: if_splits)
      then show ?thesis using agree_iff [OF assms(2), of x k u] False by (simp add: assms(6))
    qed
  next
    fix x u assume "x \<in> (if f \<in> I u then insert g (I u - {f}) else I u)"
    then have "x = g \<or> x \<in> I u \<and> x \<noteq> f" by (auto split: if_splits)
    then show "get (channels t) x \<noteq> None" using agree_known [OF assms(2), of x u] g(2) by (auto simp: get_t)
  qed
qed

end

definition rename_member :: "string \<Rightarrow> string \<Rightarrow> nat \<Rightarrow> server \<Rightarrow> server" where
  "rename_member f g i s = (case by_id_get s i of
     Some i \<Rightarrow> upd_client_data i (\<lambda>d. d\<lparr>cd_channels := swap_name f g (cd_channels d)\<rparr>) s | None \<Rightarrow> s)"

lemma rename_members_fold: "rename_members f g ids s = fold (rename_member f g) ids s"
  by (simp add: rename_members_def rename_member_def [abs_def])

lemma rename_member_fields [simp]:
  "info (rename_member f g i s) = info s" "channels (rename_member f g i s) = channels s"
  "chans (rename_member f g i s) = chans s" "next_chan (rename_member f g i s) = next_chan s"
  "remote_channels (rename_member f g i s) = remote_channels s" "by_id (rename_member f g i s) = by_id s"
  "remote_users (rename_member f g i s) = remote_users s" "remote_by_uid (rename_member f g i s) = remote_by_uid s"
  "registered_channels (rename_member f g i s) = registered_channels s" "history_of (rename_member f g i s) = history_of s"
  "read_markers (rename_member f g i s) = read_markers s"
  by (simp_all add: rename_member_def upd_client_data_def upd_client_def split: option.split)

lemma rename_members_fields [simp]:
  "info (rename_members f g ids s) = info s" "channels (rename_members f g ids s) = channels s"
  "chans (rename_members f g ids s) = chans s" "next_chan (rename_members f g ids s) = next_chan s"
  "remote_channels (rename_members f g ids s) = remote_channels s" "by_id (rename_members f g ids s) = by_id s"
  "remote_users (rename_members f g ids s) = remote_users s" "remote_by_uid (rename_members f g ids s) = remote_by_uid s"
  "registered_channels (rename_members f g ids s) = registered_channels s" "history_of (rename_members f g ids s) = history_of s"
  "read_markers (rename_members f g ids s) = read_markers s"
  unfolding rename_members_fold by (induction ids arbitrary: s) simp_all

lemma rename_member_index:
  "local_index (rename_member f g j s) i =
    (if i = j \<and> i \<in> set (by_id s) then insert g (local_index s i - {f}) else local_index s i)"
  by (auto simp: rename_member_def by_id_get_def local_index_def upd_client_data_def upd_client_def swap_name_def)

lemma rename_members_index:
  assumes "g \<noteq> f"
  shows "local_index (rename_members f g ids s) i =
    (if i \<in> set ids \<and> i \<in> set (by_id s) then insert g (local_index s i - {f}) else local_index s i)"
  unfolding rename_members_fold
proof (induction ids arbitrary: s)
  case (Cons j ids)
  have "insert g (insert g (local_index s k - {f}) - {f}) = insert g (local_index s k - {f})" for k using assms by auto
  then show ?case using Cons.IH [of "rename_member f g j s"] by (simp add: rename_member_index)
qed simp

definition names_at :: "(string, string list) table \<Rightarrow> string \<Rightarrow> string set" where
  "names_at m u = (case get m u of Some l \<Rightarrow> set l | None \<Rightarrow> {})"

lemma remote_index_names: "remote_index s = names_at (remote_channels s)"
  by (simp add: fun_eq_iff remote_index_def names_at_def)

lemma names_at_swap:
  "get m v \<noteq> None \<Longrightarrow> names_at (adjust v (swap_name f g) m) u = (if u = v then insert g (names_at m u - {f}) else names_at m u)"
  by (auto simp: names_at_def tbl swap_name_def)

lemma rename_remote_index:
  assumes "g \<noteq> f" "\<And>u. u \<in> set uids \<Longrightarrow> get m u \<noteq> None"
  shows "names_at (fold (\<lambda>uid. adjust uid (swap_name f g)) uids m) u
    = (if u \<in> set uids then insert g (names_at m u - {f}) else names_at m u)"
  using assms(2)
proof (induction uids arbitrary: m)
  case (Cons v uids)
  have "get (adjust v (swap_name f g) m) w \<noteq> None" if "w \<in> set uids" for w using Cons.prems that by (auto simp: get_adjust)
  from Cons.IH [OF this] have "names_at (fold (\<lambda>uid. adjust uid (swap_name f g)) (v # uids) m) u =
      (if u \<in> set uids then insert g (names_at (adjust v (swap_name f g) m) u - {f}) else names_at (adjust v (swap_name f g) m) u)"
    by simp
  also have "\<dots> = (if u \<in> set (v # uids) then insert g (names_at m u - {f}) else names_at m u)"
    using Cons.prems [of v] assms(1) by (auto simp: names_at_swap)
  finally show ?case .
qed simp

text \<open>The moves of names and indexes, before history, registration and markers follow.\<close>

definition renamed :: "string \<Rightarrow> string \<Rightarrow> string \<Rightarrow> nat \<Rightarrow> server \<Rightarrow> server" where
  "renamed f g new_name h s =
     (let s = upd_chan h (\<lambda>d. d\<lparr>ch_name := new_name\<rparr>) (s\<lparr>channels := del f (put g h (channels s))\<rparr>);
          t = rename_members f g (keys_of (ch_members (cdata s h))) s
      in t\<lparr>remote_channels := fold (\<lambda>uid. adjust uid (swap_name f g)) (keys_of (ch_remote_members (cdata s h))) (remote_channels t)\<rparr>)"

lemma rename_channel_renamed:
  "get (channels s) f = Some h \<Longrightarrow> g = fold_key s new_name \<Longrightarrow> g \<noteq> f \<Longrightarrow> get (channels s) g = None \<Longrightarrow>
   rename_channel f new_name s =
     (Inr h, (rename_registration f g new_name (upd_history (rename_target f g) (renamed f g new_name h s)))
       \<lparr>read_markers := rename_markers f g (read_markers (rename_registration f g new_name (upd_history (rename_target f g) (renamed f g new_name h s))))\<rparr>)"
  unfolding rename_channel_def renamed_def Let_def find_channel_def
  by (simp add: cdata_def)

lemma keys_of_mem: "x \<in> set (keys_of m) \<longleftrightarrow> get m x \<noteq> None"
  by (simp add: keys_of_def map_of_eq_None_iff)

lemma renamed_fields [simp]:
  "info (renamed f g n h s) = info s" "channels (renamed f g n h s) = del f (put g h (channels s))"
  "next_chan (renamed f g n h s) = next_chan s" "by_id (renamed f g n h s) = by_id s"
  "remote_users (renamed f g n h s) = remote_users s" "remote_by_uid (renamed f g n h s) = remote_by_uid s"
  "history_of (renamed f g n h s) = history_of s" "registered_channels (renamed f g n h s) = registered_channels s"
  "read_markers (renamed f g n h s) = read_markers s"
  by (simp_all add: renamed_def Let_def) (simp_all add: upd_chan_def)

lemma cdata_renamed: "cdata (renamed f g n h s) k = (if k = h then (cdata s h)\<lparr>ch_name := n\<rparr> else cdata s k)"
  by (simp add: renamed_def Let_def cdata_def) (simp add: upd_chan_def)

lemma renamed_indexes:
  assumes ok: "members_ok s" and h: "get (channels s) f = Some h" and free: "get (channels s) g = None"
  shows "local_index (renamed f g n h s) = (\<lambda>i. if f \<in> local_index s i then insert g (local_index s i - {f}) else local_index s i)"
    and "remote_index (renamed f g n h s) = (\<lambda>u. if f \<in> remote_index s u then insert g (remote_index s u - {f}) else remote_index s u)"
proof -
  let ?s1 = "upd_chan h (\<lambda>d. d\<lparr>ch_name := n\<rparr>) (s\<lparr>channels := del f (put g h (channels s))\<rparr>)"
  have ag: "remotes.agree s (remote_index s)" "locals.agree s (local_index s)" using ok by (simp_all add: members_ok_def)
  have gf: "g \<noteq> f" using h free by auto
  have mem: "ch_members (cdata ?s1 h) = ch_members (cdata s h)" "ch_remote_members (cdata ?s1 h) = ch_remote_members (cdata s h)"
    by (simp_all add: cdata_def upd_chan_def)
  have li: "i \<in> set (keys_of (ch_members (cdata s h))) \<longleftrightarrow> f \<in> local_index s i" for i
    using locals.agree_iff [OF ag(2) h, of i] by (simp add: keys_of_mem local_who_def)
  have ri: "u \<in> set (keys_of (ch_remote_members (cdata s h))) \<longleftrightarrow> f \<in> remote_index s u" for u
    using remotes.agree_iff [OF ag(1) h, of u] by (simp add: keys_of_mem remote_who_def)
  have idx: "local_index ?s1 = local_index s" by (simp add: fun_eq_iff local_index_def)
  have "local_index (renamed f g n h s) i = local_index (rename_members f g (keys_of (ch_members (cdata s h))) ?s1) i" for i
    by (simp add: renamed_def Let_def mem local_index_def)
  moreover have "f \<in> local_index s i \<Longrightarrow> i \<in> set (by_id s)" for i by (simp add: local_index_def split: if_splits)
  ultimately show "local_index (renamed f g n h s) = (\<lambda>i. if f \<in> local_index s i then insert g (local_index s i - {f}) else local_index s i)"
    by (auto simp: fun_eq_iff rename_members_index [OF gf] li idx)
  let ?uids = "keys_of (ch_remote_members (cdata s h))"
  have "get (remote_channels s) u \<noteq> None" if "u \<in> set ?uids" for u
    using that unfolding ri by (auto simp: remote_index_def split: option.splits)
  from rename_remote_index [OF gf this, of ?uids] have
    "names_at (fold (\<lambda>uid. adjust uid (swap_name f g)) ?uids (remote_channels s)) u
      = (if f \<in> remote_index s u then insert g (remote_index s u - {f}) else remote_index s u)" for u
    by (simp only: ri remote_index_names)
  moreover have "remote_channels (renamed f g n h s) = fold (\<lambda>uid. adjust uid (swap_name f g)) ?uids (remote_channels s)"
    by (simp add: renamed_def Let_def mem)
  ultimately show "remote_index (renamed f g n h s) = (\<lambda>u. if f \<in> remote_index s u then insert g (remote_index s u - {f}) else remote_index s u)"
    by (simp add: fun_eq_iff remote_index_names [of "renamed f g n h s"])
qed

lemma net_ok_renamed_channel:
  assumes ok: "net_ok s" and h: "get (channels s) f = Some h" and free: "get (channels s) g = None" and g: "fold_key s n = g"
  shows "net_ok (renamed f g n h s)"
proof -
  let ?t = "renamed f g n h s"
  have m: "members_ok s" "reg_ok s" "known_ok s" using ok by (simp_all add: net_ok_def)
  have ag: "chan_ok s" "remotes.agree s (remote_index s)" "locals.agree s (local_index s)" using m(1) by (simp_all add: members_ok_def)
  have fk: "fold_key ?t x = fold_key s x" for x by (simp add: fold_key_def)
  have "chan_ok ?t"
    unfolding chan_ok_def
  proof (intro allI impI)
    fix x k assume x: "get (channels ?t) x = Some k"
    show "k < next_chan ?t \<and> fold_key ?t (ch_name (cdata ?t k)) = x"
    proof (cases "x = g")
      case True
      moreover have "g \<noteq> f" using free h by auto
      ultimately have "k = h" using x by (simp add: tbl)
      then show ?thesis using \<open>x = g\<close> g chan_okD(1) [OF ag(1) h] by (simp add: cdata_renamed fk)
    next
      case False
      then have x': "get (channels s) x = Some k" "x \<noteq> f" using x by (auto simp: tbl split: if_splits)
      then have "k \<noteq> h" using chan_ok_inj [OF ag(1) h] by auto
      then show ?thesis using chan_okD [OF ag(1) x'(1)] by (simp add: cdata_renamed fk)
    qed
  qed
  moreover have "remotes.agree ?t (remote_index ?t)"
    unfolding renamed_indexes(2) [OF m(1) h free]
    by (rule remotes.agree_rename [OF ag(1,2) h free]) (simp_all add: cdata_renamed remote_who_def)
  moreover have "locals.agree ?t (local_index ?t)"
    unfolding renamed_indexes(1) [OF m(1) h free]
    by (rule locals.agree_rename [OF ag(1,3) h free]) (simp_all add: cdata_renamed local_who_def)
  moreover have "reg_ok ?t" using m(2) reg_ok_cong [of ?t s] by simp
  moreover have "known_ok ?t" using m(3) unfolding known_ok_def renamed_indexes(2) [OF m(1) h free] by (auto split: if_splits)
  ultimately show ?thesis by (simp add: net_ok_def members_ok_def)
qed

lemma rename_registration_fields [simp]:
  "info (rename_registration f g n s) = info s" "chans (rename_registration f g n s) = chans s"
  "channels (rename_registration f g n s) = channels s" "next_chan (rename_registration f g n s) = next_chan s"
  "remote_channels (rename_registration f g n s) = remote_channels s" "by_id (rename_registration f g n s) = by_id s"
  "entries (rename_registration f g n s) = entries s" "remote_users (rename_registration f g n s) = remote_users s"
  "remote_by_uid (rename_registration f g n s) = remote_by_uid s" "history_of (rename_registration f g n s) = history_of s"
  "read_markers (rename_registration f g n s) = read_markers s"
  by (simp_all add: rename_registration_def store_send_def split: option.split)

lemma net_ok_rename:
  assumes ok: "net_ok s"
  shows "net_ok (snd (rename_channel f new_name s))"
proof (cases "get (channels s) f")
  case (Some h)
  define g where "g = fold_key s new_name"
  consider (same) "g = f" | (used) "g \<noteq> f" "get (channels s) g \<noteq> None" | (move) "g \<noteq> f" "get (channels s) g = None" by blast
  then show ?thesis
  proof cases
    case same
    have c: "chan_ok s" using ok by (simp add: net_ok_def members_ok_def)
    have "chan_ok (upd_chan h (\<lambda>d. d\<lparr>ch_name := new_name\<rparr>) s)"
      unfolding chan_ok_def
    proof (intro allI impI)
      fix x k assume "get (channels (upd_chan h (\<lambda>d. d\<lparr>ch_name := new_name\<rparr>) s)) x = Some k"
      then have x: "get (channels s) x = Some k" by simp
      show "k < next_chan (upd_chan h (\<lambda>d. d\<lparr>ch_name := new_name\<rparr>) s)
          \<and> fold_key (upd_chan h (\<lambda>d. d\<lparr>ch_name := new_name\<rparr>) s) (ch_name (cdata (upd_chan h (\<lambda>d. d\<lparr>ch_name := new_name\<rparr>) s) k)) = x"
        using chan_okD [OF c x] chan_ok_inj [OF c Some, of x] x same by (cases "k = h") (simp_all add: cdata_upd_chan g_def)
    qed
    then have "members_ok (upd_chan h (\<lambda>d. d\<lparr>ch_name := new_name\<rparr>) s)"
      using ok unfolding net_ok_def members_ok_def
      by (simp add: remotes.agree_keep locals.agree_keep remote_who_def local_who_def calm_index [OF calm_upd_chan])
    then show ?thesis using net_ok_calm [OF calm_upd_chan _ ok] same Some by (simp add: rename_channel_def find_channel_def Let_def g_def)
  next
    case used
    then show ?thesis using ok Some by (simp add: rename_channel_def find_channel_def Let_def g_def)
  next
    case move
    have "net_ok (renamed f g new_name h s)" by (rule net_ok_renamed_channel [OF ok Some move(2)]) (simp add: g_def)
    moreover have "net_ok (u\<lparr>read_markers := r\<rparr>) = net_ok u" "net_ok (rename_registration f g new_name u) = net_ok u" for u r
      by (rule net_ok_cong; simp)+
    ultimately show ?thesis using rename_channel_renamed [OF Some g_def move] by simp
  qed
qed (simp add: rename_channel_def find_channel_def Let_def ok)

subsection \<open>What a rename does\<close>

lemma rename_registration_get:
  "get (registered_channels (rename_registration f g n s)) k =
     (case get (registered_channels s) f of
        None \<Rightarrow> get (registered_channels s) k
      | Some r \<Rightarrow>
          if k = g then Some (case get (channels s) g of
              Some h \<Rightarrow> build_registration g (rc_founder r) (cdata s h)
            | None \<Rightarrow> r\<lparr>rc_folded := g, rc_name := n\<rparr>)
          else if k = f then None else get (registered_channels s) k)"
  by (simp add: rename_registration_def persist_registered_def store_send_def find_channel_def cdata_def Let_def tbl split: option.split)

lemma build_registration_founder [simp]: "rc_founder (build_registration f founder d) = founder"
  by (simp add: build_registration_def Let_def split: option.split prod.split)

text \<open>Read markers are keyed by owner and channel, with a NUL between them.\<close>

lemma ends_with_marker: "ends_with (owner @ NUL # f) (NUL # f)"
  by (simp add: ends_with_def)

lemma ends_with_split: "ends_with k t \<Longrightarrow> k = take (length k - length t) k @ t"
  unfolding ends_with_def by (metis append_take_drop_id)

lemma marker_inj: "NUL \<notin> set f \<Longrightarrow> NUL \<notin> set g \<Longrightarrow> x @ NUL # f = y @ NUL # g \<longleftrightarrow> x = y \<and> f = g"
  by (auto simp: append_eq_append_conv2 Cons_eq_append_conv append_eq_Cons_conv)

lemma move_markers_get:
  assumes "NUL \<notin> set f" "NUL \<notin> set g" "g \<noteq> f" "table_ok l" "\<forall>(k, _) \<in> set l. ends_with k (NUL # f)"
    and "n = fold (\<lambda>(key, value) m. put (take (length key - length (NUL # f)) key @ NUL # g) value (del key m)) l m"
  shows "get n (x @ NUL # g) = (case get l (x @ NUL # f) of Some v \<Rightarrow> Some v | None \<Rightarrow> get m (x @ NUL # g))"
    and "get n (x @ NUL # f) = (case get l (x @ NUL # f) of Some _ \<Rightarrow> None | None \<Rightarrow> get m (x @ NUL # f))"
proof -
  note inj = marker_inj [OF assms(1,1)] marker_inj [OF assms(1,2)] marker_inj [OF assms(2,1)] marker_inj [OF assms(2,2)]
  have "get n (x @ NUL # g) = (case get l (x @ NUL # f) of Some v \<Rightarrow> Some v | None \<Rightarrow> get m (x @ NUL # g))
    \<and> get n (x @ NUL # f) = (case get l (x @ NUL # f) of Some _ \<Rightarrow> None | None \<Rightarrow> get m (x @ NUL # f))"
    using assms(4-6)
  proof (induction l arbitrary: m)
    case (Cons p l)
    obtain k v where p: "p = (k, v)" by fastforce
    define y where "y = take (length k - length (NUL # f)) k"
    have k: "k = y @ NUL # f" using Cons.prems(2) ends_with_split [of k "NUL # f"] by (simp add: p y_def)
    have "table_ok l" "get l k = None" using Cons.prems(1) by (auto simp: p table_ok_def map_of_eq_None_iff)
    moreover have "n = fold (\<lambda>(key, value) m. put (take (length key - length (NUL # f)) key @ NUL # g) value (del key m)) l (put (y @ NUL # g) v (del k m))"
      using Cons.prems(3) by (simp add: p y_def)
    ultimately show ?case
      using Cons.IH [of "put (y @ NUL # g) v (del k m)"] Cons.prems(2) assms(3)
      by (cases "x = y") (auto simp: p k tbl inj split: option.splits)
  qed simp
  then show "get n (x @ NUL # g) = (case get l (x @ NUL # f) of Some v \<Rightarrow> Some v | None \<Rightarrow> get m (x @ NUL # g))"
    "get n (x @ NUL # f) = (case get l (x @ NUL # f) of Some _ \<Rightarrow> None | None \<Rightarrow> get m (x @ NUL # f))" by simp_all
qed

lemma get_filter_key: "get (filter (\<lambda>(k, _). P k) m) k = (if P k then get m k else None)"
  by (induction m) (auto split: if_splits)

lemma rename_markers_get:
  assumes "table_ok m" "NUL \<notin> set f" "NUL \<notin> set g" "g \<noteq> f"
  shows "get (rename_markers f g m) (x @ NUL # g) = (case get m (x @ NUL # f) of Some v \<Rightarrow> Some v | None \<Rightarrow> get m (x @ NUL # g))"
    "get (rename_markers f g m) (x @ NUL # f) = None"
proof -
  define l where "l = filter (\<lambda>(key, _). ends_with key (NUL # f)) m"
  have "table_ok l" using assms(1) unfolding l_def table_ok_def by (induction m) auto
  moreover have "\<forall>(k, _) \<in> set l. ends_with k (NUL # f)" by (auto simp: l_def)
  moreover have "get l (x @ NUL # f) = get m (x @ NUL # f)" by (simp add: l_def get_filter_key ends_with_marker)
  moreover have "rename_markers f g m
      = fold (\<lambda>(key, value) m. put (take (length key - length (NUL # f)) key @ NUL # g) value (del key m)) l m"
    by (simp add: rename_markers_def l_def)
  ultimately show "get (rename_markers f g m) (x @ NUL # g) = (case get m (x @ NUL # f) of Some v \<Rightarrow> Some v | None \<Rightarrow> get m (x @ NUL # g))"
    "get (rename_markers f g m) (x @ NUL # f) = None"
    using move_markers_get [OF assms(2-4), of l _ m x] by (simp_all split: option.split)
qed

text \<open>C9: a rename to a free name moves the channel. It is found under the new name only, with everything it holds but the
  display name unchanged; the network state stays sound, so every member's list of channels has followed; its history, its
  registration (written anew from the live channel, for the same founder) and the read markers of every owner are found under
  the new name and no longer under the old one.\<close>

theorem rename_moves_channel:
  assumes "net_ok s" "find_channel s f = Some h" "fold_key s new_name = g" "g \<noteq> f" "find_channel s g = None"
    and "table_ok (read_markers s)" "NUL \<notin> set f" "NUL \<notin> set g"
    and "rename_channel f new_name s = (res, t)"
  shows "res = Inr h \<and> net_ok t \<and> find_channel t g = Some h \<and> find_channel t f = None
    \<and> cdata t h = (cdata s h)\<lparr>ch_name := new_name\<rparr>
    \<and> history_of t = rename_target f g (history_of s) \<and> get (hist_log (history_of t)) f = None
    \<and> get (hist_log (history_of t)) g =
        (case get (hist_log (history_of s)) f of Some ring \<Rightarrow> Some ring | None \<Rightarrow> get (hist_log (history_of s)) g)
    \<and> get (registered_channels t) f = None
    \<and> get (registered_channels t) g =
        (case get (registered_channels s) f of Some r \<Rightarrow> Some (build_registration g (rc_founder r) ((cdata s h)\<lparr>ch_name := new_name\<rparr>))
         | None \<Rightarrow> get (registered_channels s) g)
    \<and> (\<forall>owner. read_marker_get t owner f = None
         \<and> read_marker_get t owner g = (case read_marker_get s owner f of Some at \<Rightarrow> Some at | None \<Rightarrow> read_marker_get s owner g))"
proof -
  have h: "get (channels s) f = Some h" "get (channels s) g = None" using assms(2,5) by (simp_all add: find_channel_def)
  define u where "u = upd_history (rename_target f g) (renamed f g new_name h s)"
  define v where "v = rename_registration f g new_name u"
  have eq: "res = Inr h" "t = v\<lparr>read_markers := rename_markers f g (read_markers v)\<rparr>"
    using rename_channel_renamed [OF h(1) assms(3) [symmetric] assms(4) h(2)] assms(9) by (simp_all add: u_def v_def)
  have "net_ok t" using net_ok_rename [OF assms(1), of f new_name] assms(9) by simp
  moreover have "get (registered_channels t) f = None"
    using assms(4) by (simp add: eq v_def rename_registration_get u_def upd_history_def split: option.split)
  moreover have cd: "cdata t h = (cdata s h)\<lparr>ch_name := new_name\<rparr>" "cdata u h = (cdata s h)\<lparr>ch_name := new_name\<rparr>"
    using cdata_renamed [of f g new_name h s h] by (simp_all add: eq cdata_def v_def u_def)
  moreover have hist: "history_of t = rename_target f g (history_of s)" by (simp add: eq v_def u_def upd_history_def)
  moreover have "get (hist_log (history_of t)) f = None"
    "get (hist_log (history_of t)) g = (case get (hist_log (history_of s)) f of Some ring \<Rightarrow> Some ring | None \<Rightarrow> get (hist_log (history_of s)) g)"
    using assms(4) by (auto simp: hist rename_target_log tab.move_def tbl split: option.splits)
  moreover have "channels t = del f (put g h (channels s))" by (simp add: eq v_def u_def)
  then have "find_channel t g = Some h" "find_channel t f = None" using assms(4) by (simp_all add: find_channel_def tbl)
  moreover have "get (registered_channels t) g =
      (case get (registered_channels s) f of Some r \<Rightarrow> Some (build_registration g (rc_founder r) ((cdata s h)\<lparr>ch_name := new_name\<rparr>))
       | None \<Rightarrow> get (registered_channels s) g)"
  proof -
    have "registered_channels u = registered_channels s" "get (channels u) g = Some h"
      using assms(4) by (simp_all add: u_def upd_history_def tbl)
    then show ?thesis using assms(4) by (simp add: eq v_def rename_registration_get cd(2) split: option.split)
  qed
  moreover have "read_markers t = rename_markers f g (read_markers s)" by (simp add: eq v_def u_def upd_history_def)
  then have "read_marker_get t owner f = None \<and>
      read_marker_get t owner g = (case read_marker_get s owner f of Some at \<Rightarrow> Some at | None \<Rightarrow> read_marker_get s owner g)" for owner
    using rename_markers_get [OF assms(6-8,4)] by (simp add: read_marker_get_def split: option.split)
  ultimately show ?thesis using eq(1) by blast
qed

text \<open>The target name belongs to \<open>alice\<close>: her channel is registered but empty, so it is not live. A rename
  of \<open>mallory\<close>'s channel to it replaces her registration.\<close>

definition demo_registration :: "string \<Rightarrow> string \<Rightarrow> registered_channel" where
  "demo_registration folded founder =
     \<lparr>rc_folded = folded, rc_name = folded, rc_founder = founder, rc_topic_text = None, rc_topic_setby = [],
      rc_topic_setat = 0, rc_mode_flags = 0, rc_key = None, rc_limit = None\<rparr>"

definition demo_registered :: server where
  "demo_registered = demo_net\<lparr>registered_channels :=
     [(''#c'', demo_registration ''#c'' ''mallory''), (''#d'', demo_registration ''#d'' ''alice'')],
     read_markers := [(''bob'' @ NUL # ''#c'', 7)]\<rparr>"

theorem rename_moves_channel_witness:
  "find_channel demo_registered ''#c'' = Some 0
   \<and> map_option rc_founder (get (registered_channels demo_registered) ''#d'') = Some ''alice''
   \<and> find_channel (snd (rename_channel ''#c'' ''#d'' demo_registered)) ''#d'' = Some 0
   \<and> map_option rc_founder (get (registered_channels (snd (rename_channel ''#c'' ''#d'' demo_registered))) ''#d'') = Some ''mallory''
   \<and> read_marker_get (snd (rename_channel ''#c'' ''#d'' demo_registered)) ''bob'' ''#d'' = Some 7"
proof -
  have ok: "net_ok demo_registered" using demo_net_ok net_ok_cong [of demo_registered demo_net] by (simp add: demo_registered_def)
  have c: "find_channel demo_registered ''#c'' = Some 0" "find_channel demo_registered ''#d'' = None"
    by (simp_all add: find_channel_def demo_registered_def demo_net_def)
  have f: "fold_key demo_registered ''#d'' = ''#d''" by code_simp
  have r: "get (registered_channels demo_registered) ''#c'' = Some (demo_registration ''#c'' ''mallory'')"
    "get (registered_channels demo_registered) ''#d'' = Some (demo_registration ''#d'' ''alice'')"
    by (simp_all add: demo_registered_def)
  obtain res t where eq: "rename_channel ''#c'' ''#d'' demo_registered = (res, t)" by fastforce
  have "''#d'' \<noteq> ''#c''" by simp
  moreover have "table_ok (read_markers demo_registered)" "NUL \<notin> set ''#c''" "NUL \<notin> set ''#d''"
    by (simp_all add: demo_registered_def table_ok_def NUL_def)
  moreover have "read_marker_get demo_registered ''bob'' ''#c'' = Some 7" by (simp add: read_marker_get_def demo_registered_def)
  ultimately show ?thesis
    using rename_moves_channel [OF ok c(1) f _ c(2) _ _ _ eq] c r by (simp add: eq demo_registration_def)
qed

end
