(* ===== verification/LinkInv.thy ===== *)
theory LinkInv
  imports LinkLoop Rename
begin

text \<open>
  What the messages of a link can and cannot do: the invariant of the network state is kept by every
  handler, the routes stay sound, and a peer touches only the users it routes.
\<close>

subsection \<open>Handlers that only produce output\<close>

lemma quiet_fold_prod: "(\<And>x s. quiet s (f x s)) \<Longrightarrow> quiet s (fold f xs s)"
  by (rule quiet_fold)

lemma quiet_notify_capable: "quiet (snd st) (snd (notify_capable c b ids st))"
  unfolding notify_capable_def by (rule quiet_fold_snd) simp

lemma quiet_comembers_fold:
  "quiet (snd st) (snd (fold (\<lambda>h st. notify_capable c b (keys_of (ch_members (cdata (snd st) h))) st) hs st))"
proof (induction hs arbitrary: st)
  case (Cons h hs)
  show ?case using quiet_trans [OF quiet_notify_capable Cons.IH] by simp
qed simp

lemma quiet_announce [simp]: "quiet s (announce_to_remote_comembers uid b c s)"
proof -
  obtain n t where nt: "fold (\<lambda>h st. notify_capable c b (keys_of (ch_members (cdata (snd st) h))) st) (remote_membership_channels s uid) ([], s) = (n, t)"
    by fastforce
  then have q: "quiet s t" using quiet_comembers_fold [of "([], s)" c b "remote_membership_channels s uid"] by simp
  define f where "f = (\<lambda>i s. if i \<in> set n then s else case by_id_get s i of None \<Rightarrow> s
      | Some w \<Rightarrow> if has (entry_caps (entries s w)) ExtendedMonitor \<and> has (entry_caps (entries s w)) c then send_client b w s else s)"
  have "quiet t (fold f ws t)" for ws by (rule quiet_fold) (simp add: f_def split: option.split)
  then have "quiet s (fold f ws t)" for ws using quiet_trans [OF q] by blast
  then show ?thesis using q nt
    by (simp add: announce_to_remote_comembers_def f_def [symmetric] split: option.split)
qed

lemma quiet_send_to_peers [simp]: "quiet s (send_to_peers ps b s)"
  unfolding send_to_peers_def by (rule quiet_fold) simp

lemma quiet_relay [simp]: "quiet s (relay_channel_message a b c d e f g h s)" "quiet s (relay_tagmsg a b g h s)"
  by (simp_all add: relay_channel_message_def relay_tagmsg_def split: option.split)

lemma quiet_msgid_or_next: "msgid_or_next m s = (x, t) \<Longrightarrow> quiet s t"
  by (cases m) (simp_all add: msgid_or_next_def, metis quiet_next_msgid snd_conv)

lemma quiet_deliver_remote_message [simp]: "quiet s (deliver_remote_message a b c d e f g s)"
proof -
  obtain x t where m: "msgid_or_next d s = (x, t)" by fastforce
  have "quiet s (to_client i ev (upd_history h t))" "quiet s (upd_history h t)" for i ev h
    using quiet_trans [OF quiet_msgid_or_next [OF m] quiet_upd_history] quiet_trans [OF _ quiet_to_client] by blast+
  then show ?thesis
    by (simp add: deliver_remote_message_def Let_def m split: option.split prod.split)
qed

lemma quiet_deliver_tagmsg [simp]: "quiet s (deliver_tagmsg a b c d s)"
  by (auto simp: deliver_tagmsg_def Let_def send_tagmsg_towards_def split: option.split prod.split
    intro: quiet_trans [OF quiet_to_channel(2) quiet_relay(2)])

lemma quiet_propagate_msg [simp]: "quiet s (propagate m s)"
  by (simp add: propagate_def)

lemma quiet_remote_wallops [simp]: "quiet s (remote_wallops a b s)"
  by (simp add: remote_wallops_def)

lemma quiet_remote_knock [simp]: "quiet s (remote_knock a b s)"
  unfolding remote_knock_def by (auto split: option.split prod.split intro!: quiet_fold)

lemma quiet_remote_redact [simp]: "quiet s (remote_redact a b c d s)"
  by (auto simp: remote_redact_def Let_def split: option.split
    intro: quiet_trans [OF quiet_upd_history quiet_to_channel(2)] quiet_trans [OF quiet_upd_history quiet_to_client])

lemma quiet_broadcast_rename [simp]: "quiet s (broadcast_rename h a b c s)"
  unfolding broadcast_rename_def Let_def
  by (rule quiet_fold) (auto split: prod.split intro!: quiet_fold)

lemma quiet_plugin_say [simp]: "quiet s (plugin_say a b c s)"
proof -
  obtain x t where m: "server_next_msgid s = (x, t)" by fastforce
  have q: "quiet s t" using m by (metis quiet_next_msgid snd_conv)
  have "quiet t (relay_channel_message y1 y2 y3 y4 y5 y6 y7 y8 (upd_history h (to_channel k ev z t)))"
    "quiet t (upd_history h (to_client k ev t))" for y1 y2 y3 y4 y5 y6 y7 y8 h k ev z
    by (blast intro: quiet_trans [OF quiet_to_channel(1)] quiet_trans [OF quiet_upd_history quiet_relay(1)]
      quiet_trans [OF quiet_to_client quiet_upd_history])+
  from this [THEN quiet_trans [OF q]] quiet_trans [OF q quiet_send_towards] show ?thesis
    by (simp add: plugin_say_def Let_def m split: option.split)
qed

lemma quiet_burst [simp]: "quiet s (burst_to_peer sid s)" "quiet s (announce_link_to_others l s)"
  by (auto simp: burst_to_peer_def announce_link_to_others_def intro!: quiet_fold)

lemma quiet_forwarded [simp]: "quiet s (snd (forwarded p m s))" "fst (forwarded p m s)"
  by (simp_all add: forwarded_def)

subsection \<open>The invariant of the network state\<close>

lemmas net_ok_more [simp] =
  net_ok_quiet [OF quiet_announce] net_ok_quiet [OF quiet_send_to_peers] net_ok_quiet [OF quiet_relay(1)]
  net_ok_quiet [OF quiet_relay(2)] net_ok_quiet [OF quiet_deliver_remote_message] net_ok_quiet [OF quiet_deliver_tagmsg]
  net_ok_quiet [OF quiet_propagate_msg] net_ok_quiet [OF quiet_remote_wallops] net_ok_quiet [OF quiet_remote_knock]
  net_ok_quiet [OF quiet_remote_redact] net_ok_quiet [OF quiet_broadcast_rename] net_ok_quiet [OF quiet_plugin_say]
  net_ok_quiet [OF quiet_burst(1)] net_ok_quiet [OF quiet_burst(2)] net_ok_quiet [OF quiet_forwarded(1)]
  net_ok_quiet [OF quiet_to_channel(3)]

lemma net_ok_bans [simp]: "net_ok (add_kline a b c s) = net_ok s" "net_ok (snd (remove_kline a s)) = net_ok s"
  by (rule net_ok_cong; simp add: add_kline_def remove_kline_def Let_def)+

lemma net_ok_gline [simp]: "net_ok (remote_gline a b c d s) = net_ok s"
  by (simp add: remote_gline_def kill_matching_def)

text \<open>A change of a remote user that keeps its name and its id.\<close>

lemma net_ok_change_user:
  assumes ok: "net_ok s" and keep: "\<And>u. ru_nick (f u) = ru_nick u" "\<And>u. ru_uid (f u) = ru_uid u"
  shows "net_ok (snd (change_user uid f s))"
proof (cases "get (remote_by_uid s) uid")
  case (Some folded)
  define t where "t = s\<lparr>remote_users := adjust folded f (remote_users s)\<rparr>"
  have r: "reg_ok s" "members_ok s" "known_ok s" using ok by (simp_all add: net_ok_def)
  have "reg_ok t"
    unfolding reg_ok_def
  proof (intro conjI allI impI)
    show "table_ok (remote_users t)" using r(1) by (simp add: t_def reg_ok_def)
    fix g u assume "get (remote_users t) g = Some u"
    then obtain v where v: "get (remote_users s) g = Some v" "ru_nick u = ru_nick v" "ru_uid u = ru_uid v"
      using keep by (auto simp: t_def tbl split: if_splits)
    then show "fold_key t (ru_nick u) = g" "get (remote_by_uid t) (ru_uid u) = Some g"
      using reg_ok_user(1,2) [OF r(1) v(1)] by (simp_all add: t_def fold_key_def)
  next
    fix v g assume "get (remote_by_uid t) v = Some g"
    then obtain u where "get (remote_users s) g = Some u" "ru_uid u = v" using reg_ok_uid [OF r(1)] by (auto simp: t_def)
    then show "\<exists>u. get (remote_users t) g = Some u \<and> ru_uid u = v" using keep(2) by (auto simp: t_def tbl)
  qed
  moreover have "members_ok t" using r(2) members_ok_cong [of t s] by (simp add: t_def)
  moreover have "known_ok t" using r(3) known_ok_cong [of t s] by (simp add: t_def remote_index_def fun_eq_iff)
  ultimately have "net_ok t" by (simp add: net_ok_def)
  then show ?thesis using Some ok by (simp add: change_user_def t_def split: option.split)
qed (simp add: change_user_def ok)

lemma net_ok_user_changes:
  assumes "net_ok s"
  shows "net_ok (remote_away uid a s)" "net_ok (remote_account uid b s)" "net_ok (remote_setname uid c s)"
    "net_ok (remote_chghost uid d s)" "net_ok (remote_umode uid e s)"
proof -
  have keep: "ru_nick (snd (fold umode_char cs st)) = ru_nick (snd st) \<and> ru_uid (snd (fold umode_char cs st)) = ru_uid (snd st)" for cs st
    by (induction cs arbitrary: st) (auto simp: umode_char_def split: prod.split)
  have ch: "net_ok (snd (change_user uid f s))" if "\<And>u. ru_nick (f u) = ru_nick u" "\<And>u. ru_uid (f u) = ru_uid u" for f
    by (rule net_ok_change_user [OF assms that])
  show "net_ok (remote_away uid a s)" using ch [of "\<lambda>u. u\<lparr>ru_away := a\<rparr>"]
    by (cases "change_user uid (\<lambda>u. u\<lparr>ru_away := a\<rparr>) s") (auto simp: remote_away_def Let_def split: option.split)
  show "net_ok (remote_account uid b s)" using ch [of "\<lambda>u. u\<lparr>ru_account := b\<rparr>"]
    by (cases "change_user uid (\<lambda>u. u\<lparr>ru_account := b\<rparr>) s") (auto simp: remote_account_def Let_def split: option.split)
  show "net_ok (remote_setname uid c s)" using ch [of "\<lambda>u. u\<lparr>ru_realname := c\<rparr>"]
    by (cases "change_user uid (\<lambda>u. u\<lparr>ru_realname := c\<rparr>) s") (auto simp: remote_setname_def Let_def split: option.split)
  show "net_ok (remote_chghost uid d s)" using ch [of "\<lambda>u. u\<lparr>ru_host := d\<rparr>"]
    by (cases "change_user uid (\<lambda>u. u\<lparr>ru_host := d\<rparr>) s") (auto simp: remote_chghost_def Let_def split: option.split)
  show "net_ok (remote_umode uid e s)" unfolding remote_umode_def by (rule ch) (simp_all add: keep)
qed

lemma net_ok_invites:
  assumes "net_ok s"
  shows "net_ok (remote_invite a b c s)" "net_ok (remote_invite_pending d c s)"
proof -
  have inv: "net_ok (upd_chan h (\<lambda>d. d\<lparr>ch_invited := g d\<rparr>) s)" for h g
    by (rule net_ok_upd [OF assms]) (simp_all add: remote_who_def local_who_def)
  show "net_ok (remote_invite a b c s)" using assms inv by (simp add: remote_invite_def Let_def split: option.split)
  show "net_ok (remote_invite_pending d c s)" using assms inv by (simp add: remote_invite_pending_def split: option.split)
qed

lemma net_ok_remote_rename: "net_ok s \<Longrightarrow> net_ok (remote_rename a b c d s)"
  using net_ok_rename [of s "fold_key s b" c]
  by (cases "rename_channel (fold_key s b) c s") (auto simp: remote_rename_def split: sum.split)

lemma net_ok_plugin_action:
  assumes "net_ok s"
  shows "net_ok (apply_plugin_action a s)"
proof -
  have "net_ok (plugin_mode x y z s)" for x y z
  proof -
    have "net_ok (snd (apply_mode_change d ''*'' 0 y w s))" for d w by (rule net_ok_apply_mode_change [OF assms])
    then have "net_ok t" if "apply_mode_change d ''*'' 0 y w s = (r, t)" for d w r t using that by (metis snd_conv)
    then show ?thesis using assms by (auto simp: plugin_mode_def Let_def split: option.split prod.split)
  qed
  moreover have "net_ok (plugin_kick x y z s)" "net_ok (plugin_topic x y s)" "net_ok (plugin_kline x y z s)" for x y z
    using assms net_ok_remote_kick [OF assms] net_ok_remote_topic [OF assms]
    by (simp_all add: plugin_kick_def plugin_topic_def plugin_kline_def kill_matching_def Let_def split: option.split)
  ultimately show ?thesis using assms by (simp add: apply_plugin_action_def split: plugin_action.split)
qed

lemma net_ok_plugin_actions: "net_ok s \<Longrightarrow> net_ok (apply_plugin_actions as s)"
  unfolding apply_plugin_actions_def by (induction as arbitrary: s) (simp_all add: net_ok_plugin_action)

lemma net_ok_plugin_verdict: "net_ok s \<Longrightarrow> plugin_verdict a b c s = (r, t) \<Longrightarrow> net_ok t"
  by (auto simp: plugin_verdict_def Let_def net_ok_plugin_actions split: option.splits if_splits)

lemma net_ok_deliver_channel_message:
  assumes "net_ok s"
  shows "net_ok (deliver_channel_message p a b c d e f g s)"
proof -
  obtain status base where st: "status_target b = (status, base)" by fastforce
  obtain r t where v: "plugin_verdict a base g s = (r, t)" by fastforce
  have t: "net_ok t" by (rule net_ok_plugin_verdict [OF assms v])
  obtain x u where m: "msgid_or_next d t = (x, u)" by fastforce
  have u: "net_ok u" using t net_ok_quiet [OF quiet_msgid_or_next [OF m]] by simp
  show ?thesis
    using assms t u by (simp add: deliver_channel_message_def st Let_def v m split: option.split prod.split)
qed

subsection \<open>Every message keeps the invariant\<close>

text \<open>What is asked of a peer: a user it introduces or renames is in order.\<close>

definition in_order :: "link_message \<Rightarrow> server \<Rightarrow> bool" where
  "in_order m s =
     (case m of
        Uid sid uid _ nick _ _ _ _ \<Rightarrow>
          (let f = fold_key s nick
           in (get (remote_by_uid s) uid = None \<or> get (remote_by_uid s) uid = Some f)
              \<and> (find_client s f = None \<or> get (remote_users s) f = None \<or> get (remote_by_uid s) uid = Some f))
      | link_message.Nick uid nick \<Rightarrow> nick_available nick s
      | _ \<Rightarrow> True)"

lemma route_authorize_fields:
  assumes "route_authorize p sid s = (ok, t)"
  shows "info t = info s" "remote_users t = remote_users s" "remote_by_uid t = remote_by_uid s" "clients t = clients s"
    "links t = links s" "remote_servers t = remote_servers s" "net_ok t = net_ok s"
proof -
  show "info t = info s" "remote_users t = remote_users s" "remote_by_uid t = remote_by_uid s" "clients t = clients s"
    "links t = links s" "remote_servers t = remote_servers s"
    using assms by (auto simp: route_authorize_def split: option.splits if_splits)
  show "net_ok t = net_ok s"
    by (rule net_ok_cong) (use assms in \<open>auto simp: route_authorize_def split: option.splits if_splits\<close>)
qed

lemma net_ok_handle_uid:
  assumes "net_ok s" "introducible user s"
  shows "net_ok (snd (handle_uid p m sid uid user s))"
proof -
  obtain ok t where r: "route_authorize p sid s = (ok, t)" by fastforce
  note f = route_authorize_fields [OF r]
  have "introducible user t" using assms(2) f by (simp add: introducible_def find_client_def fold_key_def)
  then have "net_ok (snd (accept_remote_user user t))" using net_ok_accept assms(1) f(7) by blast
  then show ?thesis
    using assms(1) f(7) by (cases "accept_remote_user user t") (auto simp: handle_uid_def r Let_def split: option.split)
qed

lemma net_ok_split: "net_ok s \<Longrightarrow> net_ok (split_remote_server sid reason s)"
  unfolding split_remote_server_def Let_def
  by (rule conjunct1 [OF quit_all_effect]) (simp add: net_ok_routes)

lemma net_ok_kill: "net_ok s \<Longrightarrow> net_ok (kill_by_uid uid reason s)"
  by (simp add: kill_by_uid_def net_ok_remote_quit split: option.split)

lemma net_ok_from:
  assumes "net_ok s" "net_ok (f s)"
  shows "net_ok (snd (from_user p uid m f s))" "net_ok (snd (from_source p src m f s))" "net_ok (snd (from_sender p src f s))"
  using assms by (simp_all add: from_user_def from_source_def from_sender_def)

lemma net_ok_accept_server: "accept_remote_server p srv s = (r, t) \<Longrightarrow> net_ok t = net_ok s"
proof -
  assume a: "accept_remote_server p srv s = (r, t)"
  obtain ok u where u: "route_authorize p (rs_sid srv) s = (ok, u)" by fastforce
  show ?thesis using a route_authorize_fields(7) [OF u] net_ok_routes(4)
    by (auto simp: accept_remote_server_def Let_def u split: if_splits option.splits)
qed

lemmas net_ok_handlers = net_ok_remote_quit net_ok_remote_join net_ok_remote_part net_ok_remote_topic net_ok_remote_mode
  net_ok_remote_kick net_ok_user_changes net_ok_remote_rename net_ok_deliver_channel_message net_ok_invites

text \<open>C1: messages of a peer keep the network state sound: every channel stays filed under its name, memberships and
  their indexes agree, and every remote member is a known user. This holds for every message but UID and NICK, whatever it
  carries. A UID is covered when its id is new or known under the same nickname, and the nickname is not held twice; a NICK
  when the nickname is not held by both a local and a remote user (\<open>in_order\<close>). A UID outside of that breaks the registry,
  see \<open>reintroduction_leaves_ghost\<close> in \<open>Departure\<close>.\<close>

theorem handle_link_sound:
  assumes "net_ok s" "in_order m s"
  shows "net_ok (snd (handle_link peer_sid m s))"
proof (cases m)
  case (Uid sid uid lamport nick user host account realname)
  then show ?thesis
    using assms net_ok_handle_uid [OF assms(1)] by (simp add: handle_link_def in_order_def introducible_def)
next
  case (Kill uid reason)
  then show ?thesis
    using assms net_ok_kill [OF assms(1)] by (simp add: handle_link_def handle_kill_def split: option.split)
next
  case (Nick uid nick)
  then have "net_ok (snd (remote_nick_change uid nick s))" using assms net_ok_nick_change by (simp add: in_order_def)
  then show ?thesis using assms(1) Nick
    by (cases "remote_nick_change uid nick s") (auto simp: handle_link_def handle_nick_def split: option.split)
next
  case (Sinvite source target channel)
  then show ?thesis
    using assms(1) net_ok_invites [OF assms(1)] by (simp add: handle_link_def handle_sinvite_def split: option.split)
next
  case (Sserver name sid uplink description)
  then show ?thesis using assms(1) net_ok_accept_server
    by (auto simp: handle_link_def handle_sserver_def split: prod.split sum.split)
next
  case (Squit sid reason)
  then show ?thesis using assms(1) net_ok_split [OF assms(1)] by (simp add: handle_link_def handle_squit_def)
qed (simp_all add: handle_link_def assms(1) net_ok_from net_ok_handlers)

theorem handle_link_sound_witness:
  "in_order (Uid ''0BB'' ''0BB2'' 0 ''dave'' ''d'' ''h'' ''*'' ''Dave'') demo_net
   \<and> net_ok (snd (handle_link ''0BB'' (Uid ''0BB'' ''0BB2'' 0 ''dave'' ''d'' ''h'' ''*'' ''Dave'') demo_net))"
proof -
  have "fold_key demo_net ''dave'' = ''dave''" by code_simp
  then have ord: "in_order (Uid ''0BB'' ''0BB2'' 0 ''dave'' ''d'' ''h'' ''*'' ''Dave'') demo_net"
    by (simp add: in_order_def find_client_def) (simp add: demo_net_def server_new_def)
  with handle_link_sound [OF demo_net_ok ord] show ?thesis by blast
qed

end
