(* ===== verification/Origin.thy ===== *)
theory Origin
  imports LinkInv
begin

text \<open>
  Origin enforcement and routing. A peer changes only the users it routes, every route leads through a
  live link, and every known user stays reachable.
\<close>

subsection \<open>Operations that leave users and routes alone\<close>

definition netframe :: "server \<Rightarrow> server \<Rightarrow> bool" where
  "netframe s t \<longleftrightarrow> info t = info s \<and> remote_routes t = remote_routes s \<and> remote_servers t = remote_servers s
     \<and> remote_users t = remote_users s \<and> remote_by_uid t = remote_by_uid s \<and> clients t = clients s
     \<and> map_vals strip_link (links t) = map_vals strip_link (links s)"

lemma netframe_refl [simp]: "netframe s s"
  by (simp add: netframe_def)

lemma netframe_trans: "netframe s t \<Longrightarrow> netframe t u \<Longrightarrow> netframe s u"
  by (simp add: netframe_def)

lemma netframe_quiet: "quiet s t \<Longrightarrow> netframe s t"
  unfolding netframe_def quiet_def by simp

lemma netframe_calm: "calm s t \<Longrightarrow> netframe s t"
  unfolding netframe_def calm_def quiet_def by simp

lemma netframe_upd_chan [simp]: "netframe s (upd_chan h f s)"
  by (rule netframe_calm) simp

lemma netframe_reap [simp]: "netframe s (reap_channel f s)"
  by (rule netframe_calm) simp

lemma netframe_update [simp]:
  "netframe s (remote_channels_insert u f s)" "netframe s (remote_channel_removed u f s)"
  "netframe s (upd_client_data i g s)" "netframe s (persist_registered f s)" "netframe s (set_joining h k s)"
  "netframe s (s\<lparr>read_markers := r\<rparr>)" "netframe s (add_kline a b c s)" "netframe s (snd (remove_kline a s))"
  by (simp_all add: netframe_def remote_channels_insert_def remote_channel_removed_def upd_client_data_def upd_client_def
    persist_registered_def store_send_def set_joining_def add_kline_def remove_kline_def Let_def split: option.split)

lemma netframe_begin_join: "begin_join f n s = ((h, c), t) \<Longrightarrow> netframe s t"
  by (auto simp: begin_join_def add_joining_def new_channel_def Let_def netframe_def split: option.splits prod.splits)

lemma netframe_end_join [simp]: "netframe s (end_join f h s)"
  by (rule netframe_calm) simp

lemma netframe_reconcile [simp]: "netframe s (reconcile_channel_ts h ts s)"
  by (rule netframe_calm) simp

text \<open>Chaining: an operation after a framed one.\<close>

lemma netframe_step: "(\<And>u. netframe u (f u)) \<Longrightarrow> netframe s t \<Longrightarrow> netframe s (f t)"
  by (rule netframe_trans)

lemmas netframe_intros =
  netframe_step [where f = "record_channel_event a b c d e" for a b c d e, OF netframe_quiet [OF quiet_record_channel_event]]
  netframe_step [where f = "broadcast h l x" for h l x, OF netframe_quiet [OF quiet_broadcast]]
  netframe_step [where f = "to_channel h e x" for h e x, OF netframe_quiet [OF quiet_to_channel(1)]]
  netframe_step [where f = "to_channel_capped h e c x" for h e c x, OF netframe_quiet [OF quiet_to_channel(2)]]
  netframe_step [where f = "to_channel_status h e c x" for h e c x, OF netframe_quiet [OF quiet_to_channel(3)]]
  netframe_step [where f = "to_client i e" for i e, OF netframe_quiet [OF quiet_to_client]]
  netframe_step [where f = "upd_history h" for h, OF netframe_quiet [OF quiet_upd_history]]
  netframe_step [where f = "propagate m" for m, OF netframe_quiet [OF quiet_propagate_msg]]
  netframe_step [where f = "broadcast_rename h a b c" for h a b c, OF netframe_quiet [OF quiet_broadcast_rename]]
  netframe_step [where f = "relay_channel_message a b c d e f g h" for a b c d e f g h, OF netframe_quiet [OF quiet_relay(1)]]
  netframe_step [where f = "upd_chan h f" for h f, OF netframe_upd_chan]
  netframe_step [where f = "reap_channel f" for f, OF netframe_reap]
  netframe_step [where f = "remote_channels_insert u f" for u f, OF netframe_update(1)]
  netframe_step [where f = "remote_channel_removed u f" for u f, OF netframe_update(2)]
  netframe_step [where f = "upd_client_data u f" for u f, OF netframe_update(3)]
  netframe_step [where f = "persist_registered f" for f, OF netframe_update(4)]
  netframe_step [where f = "end_join f h" for f h, OF netframe_end_join]
  netframe_step [where f = "reconcile_channel_ts f h" for f h, OF netframe_reconcile]

lemma netframe_remote_join [simp]: "netframe s (remote_join nm uid mp ts s)"
proof (cases "remote_user_by_uid s uid")
  case (Some user)
  obtain h c t where b: "begin_join (fold_key s nm) nm s = ((h, c), t)" by (metis prod.exhaust)
  note bj = netframe_begin_join [OF b]
  show ?thesis
    unfolding remote_join_def Some option.case Let_def b prod.case
    by (intro netframe_intros) (auto intro!: netframe_intros bj)
qed (simp add: remote_join_def)

lemma netframe_remote_part [simp]: "netframe s (remote_part nm uid reason s)"
  unfolding remote_part_def Let_def by (auto split: option.split intro!: netframe_intros)

lemma netframe_remote_topic [simp]: "netframe s (remote_topic a b c d e s)"
  unfolding remote_topic_def Let_def by (auto split: option.split intro!: netframe_intros)

lemma netframe_apply_mode_change [simp]: "netframe s (snd (apply_mode_change a b c d e s))"
  unfolding apply_mode_change_def Let_def by (auto split: option.split intro!: netframe_intros)

lemma netframe_remote_mode [simp]: "netframe s (remote_mode a b c d e s)"
proof -
  obtain r t where eq: "apply_mode_change a b c d e s = (r, t)" by fastforce
  then have "netframe s t" using netframe_apply_mode_change [of s a b c d e] by (simp del: netframe_apply_mode_change)
  then show ?thesis by (auto simp: remote_mode_def eq Let_def split: option.split intro!: netframe_intros)
qed

lemma netframe_remote_kick [simp]: "netframe s (remote_kick a b c d s)"
  unfolding remote_kick_def Let_def by (auto split: option.split intro!: netframe_intros)

lemma netframe_renamed [simp]: "netframe s (renamed f g n h s)"
proof -
  have step: "netframe u (rename_member f g i u)" for i u by (simp add: rename_member_def split: option.split)
  have "netframe u (rename_members f g ids u)" for ids u
    unfolding rename_members_fold
  proof (induction ids arbitrary: u)
    case (Cons i ids)
    show ?case using netframe_trans [OF step Cons.IH] by simp
  qed simp
  note mem = this
  have set: "netframe u (u\<lparr>remote_channels := r\<rparr>)" "netframe u (u\<lparr>channels := c\<rparr>)" for u r c by (simp_all add: netframe_def)
  show ?thesis unfolding renamed_def Let_def
    by (rule netframe_trans [OF _ set(1)], rule netframe_trans [OF _ mem], rule netframe_trans [OF set(2) netframe_upd_chan])
qed

lemma netframe_rename [simp]: "netframe s (snd (rename_channel f n s))"
proof -
  define g where "g = fold_key s n"
  have reg: "netframe u (rename_registration f g n u)" for u
    unfolding rename_registration_def
    by (auto split: option.split simp: netframe_def store_send_def persist_registered_def Let_def)
  consider (none) "get (channels s) f = None" | (same) h where "get (channels s) f = Some h" "g = f"
    | (used) h where "get (channels s) f = Some h" "g \<noteq> f" "get (channels s) g \<noteq> None"
    | (move) h where "get (channels s) f = Some h" "g \<noteq> f" "get (channels s) g = None"
    by fastforce
  then show ?thesis
  proof cases
    case (move h)
    then show ?thesis
      unfolding rename_channel_renamed [OF move(1) g_def move(2,3)]
      by (auto intro!: netframe_step [OF netframe_update(6)] netframe_step [OF reg] netframe_intros)
  qed (simp_all add: rename_channel_def find_channel_def Let_def g_def)
qed

lemma netframe_remote_rename [simp]: "netframe s (remote_rename a b c d s)"
proof -
  obtain r t where eq: "rename_channel (fold_key s b) c s = (r, t)" by fastforce
  then have "netframe s t" using netframe_rename [of s "fold_key s b" c] by (simp del: netframe_rename)
  then show ?thesis by (auto simp: remote_rename_def eq split: sum.split intro!: netframe_intros)
qed


lemma netframe_kill_matching: "netframe s (snd (kill_matching a b s))"
  unfolding kill_matching_def by (rule netframe_quiet) simp

lemma netframe_gline [simp]: "netframe s (remote_gline a b c d s)"
  by (auto simp: remote_gline_def intro: netframe_trans [OF netframe_update(7) netframe_kill_matching])

lemma netframe_plugin_action: "netframe s (apply_plugin_action a s)"
proof -
  have "netframe s (plugin_mode x y z s)" for x y z
  proof -
    have "netframe s t" if "apply_mode_change d ''*'' 0 y w s = (r, t)" for d w r t
      using netframe_apply_mode_change [of s d "''*''" 0 y w] that by (simp del: netframe_apply_mode_change)
    then show ?thesis by (auto simp: plugin_mode_def Let_def split: option.split prod.split intro!: netframe_intros)
  qed
  moreover have "netframe s (plugin_kick x y z s)" "netframe s (plugin_topic x y s)" for x y z
    by (auto simp: plugin_kick_def plugin_topic_def Let_def split: option.split intro!: netframe_intros)
  moreover have "netframe s (plugin_kline x y z s)" for x y z
    by (auto simp: plugin_kline_def Let_def intro: netframe_trans [OF netframe_update(7) netframe_kill_matching])
  ultimately show ?thesis by (simp add: apply_plugin_action_def netframe_quiet split: plugin_action.split)
qed

lemma netframe_plugin_actions: "netframe s (apply_plugin_actions as s)"
  unfolding apply_plugin_actions_def
proof (induction as arbitrary: s)
  case (Cons a as)
  show ?case using netframe_trans [OF netframe_plugin_action Cons.IH] by simp
qed simp

lemma netframe_deliver_channel_message [simp]: "netframe s (deliver_channel_message p a b c d e f g s)"
proof -
  obtain status base where st: "status_target b = (status, base)" by fastforce
  obtain r t where v: "plugin_verdict a base g s = (r, t)" by fastforce
  have t: "netframe s t"
    using v netframe_plugin_actions by (auto simp: plugin_verdict_def Let_def split: option.splits if_splits)
  obtain x u where m: "msgid_or_next d t = (x, u)" by fastforce
  have u: "netframe s u" by (rule netframe_trans [OF t netframe_quiet [OF quiet_msgid_or_next [OF m]]])
  show ?thesis
    by (auto simp: deliver_channel_message_def st Let_def v m t u split: option.split prod.split intro!: netframe_intros)
qed

subsection \<open>A peer touches only what it routes\<close>
















lemma forwarded_users [simp]: "remote_users (snd (forwarded p m s)) = remote_users s"
  by (simp add: forwarded_def)

lemma netframe_users: "netframe s t \<Longrightarrow> remote_users t = remote_users s"
  by (simp add: netframe_def)

lemma output_users [simp]: "remote_users (remote_gline a b c d s) = remote_users s"
  "remote_users (remote_wallops e f s) = remote_users s"
  by (rule netframe_users, simp add: netframe_quiet)+





end
