(* ===== verification/Account.thy ===== *)
theory Account
  imports Casemap Tables
begin

unbundle bit_operations_syntax

text \<open>
  Accounts and the server side of SCRAM-SHA-256 (\<open>ferrixd/src/account.rs\<close>, \<open>ferrixd/src/scram.rs\<close>). The
  hash functions, Base64 and Argon2 come from third-party crates and \<open>to_lowercase\<close> from the tables of Unicode: they are the record \<open>crypto\<close>, a
  parameter of the operations, and \<open>crypto_ok\<close> states what their documentation promises. The results
  of the system's random generator are arguments, \<open>None\<close> when it fails.
\<close>

subsection \<open>Primitives\<close>

record crypto =
  cr_argon2_hash :: "string \<Rightarrow> string \<Rightarrow> string option"
  cr_argon2_verify :: "string \<Rightarrow> string \<Rightarrow> bool"
  cr_hmac :: "string \<Rightarrow> string \<Rightarrow> string"
  cr_sha256 :: "string \<Rightarrow> string"
  cr_pbkdf2 :: "string \<Rightarrow> string \<Rightarrow> nat \<Rightarrow> string"
  cr_b64_encode :: "string \<Rightarrow> string"
  cr_b64_decode :: "string \<Rightarrow> string option"
  cr_to_lowercase :: "string \<Rightarrow> string"

definition LEN :: nat where "LEN = 32"

definition b64_char :: "char \<Rightarrow> bool" where
  "b64_char c \<longleftrightarrow> is_ascii_alphanumeric c \<or> c = CHR ''+'' \<or> c = CHR ''/'' \<or> c = CHR ''=''"

text \<open>What the crates document: digests of 32 octets, Base64 as an injective code over its alphabet, and
  that Argon2 accepts the password a hash was made from.\<close>

definition crypto_ok :: "crypto \<Rightarrow> bool" where
  "crypto_ok cr \<longleftrightarrow>
     (\<forall>k m. length (cr_hmac cr k m) = LEN) \<and> (\<forall>m. length (cr_sha256 cr m) = LEN)
     \<and> (\<forall>x. cr_b64_decode cr (cr_b64_encode cr x) = Some x) \<and> (\<forall>x. list_all b64_char (cr_b64_encode cr x))
     \<and> (\<forall>p s h. cr_argon2_hash cr p s = Some h \<longrightarrow> cr_argon2_verify cr p h)"

lemma crypto_okD:
  assumes "crypto_ok cr"
  shows "length (cr_hmac cr k m) = LEN" "length (cr_sha256 cr m) = LEN"
    "cr_b64_decode cr (cr_b64_encode cr x) = Some x" "list_all b64_char (cr_b64_encode cr x)"
    "cr_argon2_hash cr p s = Some h \<Longrightarrow> cr_argon2_verify cr p h"
  using assms by (auto simp: crypto_ok_def)

definition xor_octets :: "string \<Rightarrow> string \<Rightarrow> string" where
  "xor_octets a b = map2 (\<lambda>x y. char_of (octet x XOR octet y)) a b"

subsection \<open>Credentials\<close>

record scram_creds =
  sc_salt :: string
  sc_iterations :: nat
  sc_stored_key :: string
  sc_server_key :: string

definition trim :: "string \<Rightarrow> string" where
  "trim s = concat (rev (dropWhile is_whitespace (rev (dropWhile is_whitespace (chars s)))))"

definition parse_u32 :: "string \<Rightarrow> nat option" where
  "parse_u32 s = (case parse_u64 s of Some n \<Rightarrow> if n < 2 ^ 32 then Some n else None | None \<Rightarrow> None)"

definition creds_encode :: "crypto \<Rightarrow> scram_creds \<Rightarrow> string" where
  "creds_encode cr c =
     dec (sc_iterations c) @ '':'' @ cr_b64_encode cr (sc_salt c) @ '':'' @ cr_b64_encode cr (sc_stored_key c)
     @ '':'' @ cr_b64_encode cr (sc_server_key c)"

text \<open>\<open>try_into\<close> an array of 32 octets.\<close>

definition as_key :: "string \<Rightarrow> string option" where
  "as_key s = (if length s = LEN then Some s else None)"

definition creds_decode :: "crypto \<Rightarrow> string \<Rightarrow> scram_creds option" where
  "creds_decode cr token =
     (case split_on (CHR '':'') token of
        i # salt # stored # srv # rest \<Rightarrow>
          Option.bind (parse_u32 (trim i)) (\<lambda>iterations.
          Option.bind (cr_b64_decode cr (trim salt)) (\<lambda>salt.
          Option.bind (Option.bind (cr_b64_decode cr (trim stored)) as_key) (\<lambda>stored.
          Option.bind (Option.bind (cr_b64_decode cr (trim srv)) as_key) (\<lambda>srv.
            if rest \<noteq> [] \<or> iterations = 0 \<or> salt = [] then None
            else Some \<lparr>sc_salt = salt, sc_iterations = iterations, sc_stored_key = stored, sc_server_key = srv\<rparr>))))
      | _ \<Rightarrow> None)"

definition deterministic_salt :: "crypto \<Rightarrow> string \<Rightarrow> string" where
  "deterministic_salt cr seed = take 16 (cr_sha256 cr seed)"

definition derive :: "crypto \<Rightarrow> string \<Rightarrow> string \<Rightarrow> nat \<Rightarrow> scram_creds" where
  "derive cr password salt iterations =
     (let salted = cr_pbkdf2 cr password salt iterations;
          client_key = cr_hmac cr salted ''Client Key''
      in \<lparr>sc_salt = salt, sc_iterations = iterations, sc_stored_key = cr_sha256 cr client_key,
          sc_server_key = cr_hmac cr salted ''Server Key''\<rparr>)"

subsection \<open>The exchange\<close>

text \<open>The server nonce: the random octets in lower-case hexadecimal.\<close>

definition random_nonce :: "string option \<Rightarrow> string option" where
  "random_nonce entropy = map_option (\<lambda>bytes. concat (map (\<lambda>b. pad0 2 (hex (octet b))) bytes)) entropy"

definition client_first_bare :: "string \<Rightarrow> string option" where
  "client_first_bare client_first =
     (case memchr (CHR '','') client_first of
        None \<Rightarrow> None
      | Some first \<Rightarrow>
          (case memchr (CHR '','') (drop (first + 1) client_first) of
             None \<Rightarrow> None
           | Some second \<Rightarrow> Some (drop (second + first + 1 + 1) client_first)))"

record exchange =
  ex_account :: string
  ex_creds :: scram_creds
  ex_client_first_bare :: string
  ex_server_first :: string
  ex_combined_nonce :: string

text \<open>The loop over the comma-separated fields of a message: the last value of each of two attributes.\<close>

definition scan_fields :: "string \<Rightarrow> string \<Rightarrow> string list \<Rightarrow> string option \<times> string option" where
  "scan_fields p q parts =
     fold (\<lambda>field (a, b).
       case strip_prefix p field of
         Some v \<Rightarrow> (Some v, b)
       | None \<Rightarrow> (case strip_prefix q field of Some v \<Rightarrow> (a, Some v) | None \<Rightarrow> (a, b))) parts (None, None)"

definition exchange_start :: "crypto \<Rightarrow> string \<Rightarrow> string \<Rightarrow> (string \<Rightarrow> (string \<times> scram_creds) option)
    \<Rightarrow> (exchange \<times> string) option" where
  "exchange_start cr client_first server_nonce lookup =
     Option.bind (client_first_bare client_first) (\<lambda>bare.
       (case scan_fields ''n='' ''r='' (split_on (CHR '','') bare) of
          (Some username, Some client_nonce) \<Rightarrow>
            Option.bind (lookup username) (\<lambda>(account, creds).
              let combined_nonce = client_nonce @ server_nonce;
                  server_first = ''r='' @ combined_nonce @ '',s='' @ cr_b64_encode cr (sc_salt creds)
                                 @ '',i='' @ dec (sc_iterations creds)
              in Some (\<lparr>ex_account = account, ex_creds = creds, ex_client_first_bare = bare,
                        ex_server_first = server_first, ex_combined_nonce = combined_nonce\<rparr>, server_first))
        | _ \<Rightarrow> None))"

definition auth_message :: "exchange \<Rightarrow> string" where
  "auth_message ex =
     ex_client_first_bare ex @ '','' @ ex_server_first ex @ '','' @ ''c=biws,r='' @ ex_combined_nonce ex"

definition exchange_finish :: "crypto \<Rightarrow> exchange \<Rightarrow> string \<Rightarrow> string option" where
  "exchange_finish cr ex client_final =
     (case scan_fields ''r='' ''p='' (split_on (CHR '','') client_final) of
        (Some nonce, proof_b64) \<Rightarrow>
          if nonce \<noteq> ex_combined_nonce ex then None
          else
            Option.bind (Option.bind proof_b64 (cr_b64_decode cr)) (\<lambda>prf.
              if length prf \<noteq> LEN then None
              else
                (let client_signature = cr_hmac cr (sc_stored_key (ex_creds ex)) (auth_message ex);
                     client_key = xor_octets prf client_signature
                 in if cr_sha256 cr client_key \<noteq> sc_stored_key (ex_creds ex) then None
                    else Some (''v='' @ cr_b64_encode cr (cr_hmac cr (sc_server_key (ex_creds ex)) (auth_message ex)))))
      | (None, _) \<Rightarrow> None)"

subsection \<open>The account store\<close>

definition SCRAM_ITERATIONS :: nat where "SCRAM_ITERATIONS = 4096"

record account =
  ac_display :: string
  ac_password_hash :: "string option"
  ac_scram :: "scram_creds option"
  ac_fingerprints :: "string list"

record account_store =
  as_casemapping :: case_mapping
  as_accounts :: "(string, account) table"

definition store_new :: "case_mapping \<Rightarrow> account_store" where
  "store_new m = \<lparr>as_casemapping = m, as_accounts = []\<rparr>"

definition account_key :: "account_store \<Rightarrow> string \<Rightarrow> string" where
  "account_key st name = fold_name (as_casemapping st) name"

text \<open>\<open>entry(key).and_modify(f).or_insert_with(|| new)\<close>\<close>

definition modify_or_insert :: "string \<Rightarrow> (account \<Rightarrow> account) \<Rightarrow> account \<Rightarrow> account_store \<Rightarrow> account_store" where
  "modify_or_insert name f new st =
     (let key = account_key st name
      in case get (as_accounts st) key of
           Some a \<Rightarrow> st\<lparr>as_accounts := put key (f a) (as_accounts st)\<rparr>
         | None \<Rightarrow> st\<lparr>as_accounts := put key new (as_accounts st)\<rparr>)"

text \<open>The salt of \<open>hash_password\<close>: the seed padded with dots to 16 octets, at most 48.\<close>

definition seed_salt :: "string \<Rightarrow> string" where
  "seed_salt seed = take 48 (seed @ replicate (16 - length seed) (CHR ''.''))"

definition hash_password :: "crypto \<Rightarrow> string \<Rightarrow> string \<Rightarrow> string option" where
  "hash_password cr password salt_seed = cr_argon2_hash cr password (seed_salt salt_seed)"

definition hash_password_random :: "crypto \<Rightarrow> string option \<Rightarrow> string \<Rightarrow> string option" where
  "hash_password_random cr entropy password = Option.bind entropy (cr_argon2_hash cr password)"

definition upsert_password :: "string \<Rightarrow> string \<Rightarrow> account_store \<Rightarrow> account_store" where
  "upsert_password name hash st =
     modify_or_insert name (\<lambda>a. a\<lparr>ac_password_hash := Some hash\<rparr>)
       \<lparr>ac_display = name, ac_password_hash = Some hash, ac_scram = None, ac_fingerprints = []\<rparr> st"

definition upsert_scram :: "string \<Rightarrow> scram_creds \<Rightarrow> account_store \<Rightarrow> account_store" where
  "upsert_scram name creds st =
     modify_or_insert name (\<lambda>a. a\<lparr>ac_scram := Some creds\<rparr>)
       \<lparr>ac_display = name, ac_password_hash = None, ac_scram = Some creds, ac_fingerprints = []\<rparr> st"

definition set_password :: "crypto \<Rightarrow> string option \<Rightarrow> string option \<Rightarrow> string \<Rightarrow> string \<Rightarrow> account_store \<Rightarrow> account_store option" where
  "set_password cr entropy1 entropy2 name password st =
     Option.bind (hash_password_random cr entropy1 password) (\<lambda>hash.
     Option.bind entropy2 (\<lambda>scram_salt.
       let creds = derive cr password scram_salt SCRAM_ITERATIONS
       in Some (modify_or_insert name (\<lambda>a. a\<lparr>ac_password_hash := Some hash, ac_scram := Some creds\<rparr>)
            \<lparr>ac_display = name, ac_password_hash = Some hash, ac_scram = Some creds, ac_fingerprints = []\<rparr> st)))"

definition scram_lookup :: "account_store \<Rightarrow> string \<Rightarrow> (string \<times> scram_creds) option" where
  "scram_lookup st name =
     Option.bind (get (as_accounts st) (account_key st name)) (\<lambda>a. map_option (\<lambda>c. (ac_display a, c)) (ac_scram a))"

definition add_fingerprint :: "string \<Rightarrow> string \<Rightarrow> account_store \<Rightarrow> account_store" where
  "add_fingerprint name fingerprint st =
     modify_or_insert name (\<lambda>a. a\<lparr>ac_fingerprints := ac_fingerprints a @ [fingerprint]\<rparr>)
       \<lparr>ac_display = name, ac_password_hash = None, ac_scram = None, ac_fingerprints = [fingerprint]\<rparr> st"

definition snapshot :: "account_store \<Rightarrow> string \<Rightarrow> (string \<times> string option \<times> scram_creds option) option" where
  "snapshot st name =
     map_option (\<lambda>a. (ac_display a, ac_password_hash a, ac_scram a)) (get (as_accounts st) (account_key st name))"

definition restore_if_absent :: "string \<Rightarrow> string option \<Rightarrow> scram_creds option \<Rightarrow> account_store \<Rightarrow> account_store" where
  "restore_if_absent display hash creds st =
     modify_or_insert display (\<lambda>a. a)
       \<lparr>ac_display = display, ac_password_hash = hash, ac_scram = creds, ac_fingerprints = []\<rparr> st"

definition store_clear :: "account_store \<Rightarrow> account_store" where
  "store_clear st = st\<lparr>as_accounts := []\<rparr>"

definition account_exists :: "account_store \<Rightarrow> string \<Rightarrow> bool" where
  "account_exists st name \<longleftrightarrow> get (as_accounts st) (account_key st name) \<noteq> None"

definition verify_password :: "crypto \<Rightarrow> account_store \<Rightarrow> string \<Rightarrow> string \<Rightarrow> string option" where
  "verify_password cr st name password =
     Option.bind (get (as_accounts st) (account_key st name)) (\<lambda>a.
     Option.bind (ac_password_hash a) (\<lambda>hash.
       if cr_argon2_verify cr password hash then Some (ac_display a) else None))"

definition verify_fingerprint :: "account_store \<Rightarrow> string \<Rightarrow> string \<Rightarrow> string option" where
  "verify_fingerprint st name fingerprint =
     (case find (\<lambda>(_, a). fingerprint \<in> set (ac_fingerprints a)) (as_accounts st) of
        Some (_, a) \<Rightarrow>
          if name \<noteq> [] \<and> account_key st name \<noteq> account_key st (ac_display a) then None
          else Some (ac_display a)
      | None \<Rightarrow> None)"


subsection \<open>Lookups\<close>

lemma modify_or_insert_get:
  "get (as_accounts (modify_or_insert name f new st)) k =
     (if k = account_key st name
      then Some (case get (as_accounts st) k of Some a \<Rightarrow> f a | None \<Rightarrow> new)
      else get (as_accounts st) k)"
  by (simp add: modify_or_insert_def Let_def tbl split: option.split)

lemma modify_or_insert_key [simp]: "account_key (modify_or_insert name f new st) = account_key st"
  by (simp add: fun_eq_iff account_key_def modify_or_insert_def Let_def split: option.split)

text \<open>A password that was set is the password that logs in. After \<open>set_password\<close> succeeds, a login with
  the same password under any spelling of the account's name returns the name the account was first
  created under, the account's SCRAM credentials are those of the password, and no other account
  changes.\<close>

theorem set_password_login:
  assumes "crypto_ok cr" "set_password cr entropy1 entropy2 name password st = Some st'"
    "account_key st alias = account_key st name"
  shows "\<exists>display. verify_password cr st' alias password = Some display
    \<and> (\<exists>salt. scram_lookup st' alias = Some (display, derive cr password salt SCRAM_ITERATIONS))
    \<and> display = (case get (as_accounts st) (account_key st name) of Some a \<Rightarrow> ac_display a | None \<Rightarrow> name)
    \<and> (\<forall>other. account_key st other \<noteq> account_key st name \<longrightarrow>
         snapshot st' other = snapshot st other \<and> scram_lookup st' other = scram_lookup st other)"
proof -
  obtain hash salt where h: "hash_password_random cr entropy1 password = Some hash" "entropy2 = Some salt"
    and st': "st' = modify_or_insert name
      (\<lambda>a. a\<lparr>ac_password_hash := Some hash, ac_scram := Some (derive cr password salt SCRAM_ITERATIONS)\<rparr>)
      \<lparr>ac_display = name, ac_password_hash = Some hash, ac_scram = Some (derive cr password salt SCRAM_ITERATIONS),
       ac_fingerprints = []\<rparr> st"
    using assms(2) by (auto simp: set_password_def Let_def bind_eq_Some_conv)
  have ver: "cr_argon2_verify cr password hash"
    using h(1) crypto_okD(5) [OF assms(1)] by (auto simp: hash_password_random_def bind_eq_Some_conv)
  show ?thesis
    using assms(3) ver
    by (auto simp: st' verify_password_def scram_lookup_def snapshot_def modify_or_insert_get split: option.split)
qed


subsection \<open>The exchange succeeds for the owner of the password, and for nobody who lacks the key\<close>

lemma octet_xor_less: "octet x XOR octet y < 256"
proof -
  have "take_bit 8 (octet x XOR octet y) = octet x XOR octet y"
    by (simp add: take_bit_xor take_bit_nat_eq_self)
  then show ?thesis using take_bit_nat_less_exp [of 8 "octet x XOR octet y"] by simp
qed

lemma xor_octets_cancel: "length a = length b \<Longrightarrow> xor_octets (xor_octets a b) b = a"
proof (induction a b rule: list_induct2)
  case (Cons x xs y ys)
  have "(octet x XOR octet y) mod 256 = octet x XOR octet y" by (rule mod_less) (rule octet_xor_less)
  then show ?case using Cons by (simp add: xor_octets_def xor.assoc)
qed (simp add: xor_octets_def)

lemma length_xor_octets [simp]: "length (xor_octets a b) = min (length a) (length b)"
  by (simp add: xor_octets_def)

lemma b64_free: "list_all b64_char s \<Longrightarrow> CHR '','' \<notin> set s \<and> CHR '':'' \<notin> set s"
  by (auto simp: list_all_iff b64_char_def ascii_class_defs)

text \<open>The client of RFC 5802: its proof and its final message, from the password and what the server sent.\<close>

definition client_proof :: "crypto \<Rightarrow> string \<Rightarrow> exchange \<Rightarrow> string" where
  "client_proof cr password ex =
     (let salted = cr_pbkdf2 cr password (sc_salt (ex_creds ex)) (sc_iterations (ex_creds ex));
          client_key = cr_hmac cr salted ''Client Key''
      in xor_octets client_key (cr_hmac cr (cr_sha256 cr client_key) (auth_message ex)))"

definition client_final :: "crypto \<Rightarrow> string \<Rightarrow> exchange \<Rightarrow> string" where
  "client_final cr password ex =
     ''c=biws,r='' @ ex_combined_nonce ex @ '',p='' @ cr_b64_encode cr (client_proof cr password ex)"

lemma client_first_bare_gs2: "client_first_bare (''n,,'' @ bare) = Some bare"
  by (simp add: client_first_bare_def memchr_def)

lemma scan_first:
  assumes "CHR '','' \<notin> set user" "CHR '','' \<notin> set nonce"
  shows "scan_fields ''n='' ''r='' (split_on (CHR '','') (''n='' @ user @ '',r='' @ nonce)) = (Some user, Some nonce)"
proof -
  have "split_on (CHR '','') (''n='' @ user @ '',r='' @ nonce) = [''n='' @ user, ''r='' @ nonce]"
    using split_on_append [of "CHR '',''" "''n='' @ user" "''r='' @ nonce"] assms by (simp add: split_on_free)
  then show ?thesis by (simp add: scan_fields_def strip_prefix_def)
qed

lemma scan_final:
  assumes "CHR '','' \<notin> set nonce" "CHR '','' \<notin> set prf"
  shows "scan_fields ''r='' ''p='' (split_on (CHR '','') (''c=biws,r='' @ nonce @ '',p='' @ prf)) = (Some nonce, Some prf)"
proof -
  have "split_on (CHR '','') (''c=biws,r='' @ nonce @ '',p='' @ prf) = [''c=biws'', ''r='' @ nonce, ''p='' @ prf]"
    using split_on_append [of "CHR '',''" "''c=biws''" "''r='' @ nonce @ '',p='' @ prf"]
      split_on_append [of "CHR '',''" "''r='' @ nonce" "''p='' @ prf"] assms by (simp add: split_on_free)
  then show ?thesis by (simp add: scan_fields_def strip_prefix_def)
qed

text \<open>The exchange of an honest client.\<close>

definition honest_exchange :: "crypto \<Rightarrow> string \<Rightarrow> scram_creds \<Rightarrow> string \<Rightarrow> string \<Rightarrow> string \<Rightarrow> exchange" where
  "honest_exchange cr account creds user client_nonce server_nonce =
     \<lparr>ex_account = account, ex_creds = creds, ex_client_first_bare = ''n='' @ user @ '',r='' @ client_nonce,
      ex_server_first = ''r='' @ client_nonce @ server_nonce @ '',s='' @ cr_b64_encode cr (sc_salt creds)
        @ '',i='' @ dec (sc_iterations creds),
      ex_combined_nonce = client_nonce @ server_nonce\<rparr>"

lemma honest_start:
  assumes "lookup user = Some (account, creds)" "CHR '','' \<notin> set user" "CHR '','' \<notin> set client_nonce"
  shows "exchange_start cr (''n,,n='' @ user @ '',r='' @ client_nonce) server_nonce lookup =
    Some (honest_exchange cr account creds user client_nonce server_nonce,
      ex_server_first (honest_exchange cr account creds user client_nonce server_nonce))"
  using client_first_bare_gs2 [of "''n='' @ user @ '',r='' @ client_nonce"] scan_first [OF assms(2,3)] assms(1)
  by (simp add: exchange_start_def honest_exchange_def Let_def)

lemma honest_finish:
  assumes "crypto_ok cr" "CHR '','' \<notin> set client_nonce" "CHR '','' \<notin> set server_nonce"
    "ex = honest_exchange cr account (derive cr password salt iterations) user client_nonce server_nonce"
  shows "exchange_finish cr ex (client_final cr password ex) =
    Some (''v='' @ cr_b64_encode cr (cr_hmac cr
      (cr_hmac cr (cr_pbkdf2 cr password salt iterations) ''Server Key'') (auth_message ex)))"
proof -
  note ok = crypto_okD [OF assms(1)]
  define ck where "ck = cr_hmac cr (cr_pbkdf2 cr password salt iterations) ''Client Key''"
  have proof_is: "client_proof cr password ex = xor_octets ck (cr_hmac cr (cr_sha256 cr ck) (auth_message ex))"
    by (simp add: client_proof_def assms(4) honest_exchange_def derive_def Let_def ck_def)
  have key: "xor_octets (client_proof cr password ex) (cr_hmac cr (cr_sha256 cr ck) (auth_message ex)) = ck"
    unfolding proof_is by (rule xor_octets_cancel) (simp add: ck_def ok)
  have "scan_fields ''r='' ''p='' (split_on (CHR '','') (client_final cr password ex)) =
      (Some (ex_combined_nonce ex), Some (cr_b64_encode cr (client_proof cr password ex)))"
    unfolding client_final_def
    by (rule scan_final) (use assms(2-4) b64_free [OF ok(4)] in \<open>simp_all add: honest_exchange_def\<close>)
  moreover have "length (client_proof cr password ex) = LEN" unfolding proof_is by (simp add: ck_def ok)
  moreover have "sc_stored_key (ex_creds ex) = cr_sha256 cr ck"
    "sc_server_key (ex_creds ex) = cr_hmac cr (cr_pbkdf2 cr password salt iterations) ''Server Key''"
    by (simp_all add: assms(4) honest_exchange_def derive_def Let_def ck_def)
  ultimately show ?thesis using key by (simp add: exchange_finish_def ok Let_def)
qed

text \<open>A SCRAM exchange succeeds for a client that knows the password. If the account's credentials were
  derived from the password, a client that follows RFC 5802 is accepted, and the server's answer carries
  the signature that the client expects, so each side has shown the other that it knows the password.\<close>

theorem scram_completes:
  assumes "crypto_ok cr" "lookup user = Some (account, derive cr password salt iterations)"
    "CHR '','' \<notin> set user" "CHR '','' \<notin> set client_nonce" "CHR '','' \<notin> set server_nonce"
  shows "\<exists>ex server_first.
    exchange_start cr (''n,,n='' @ user @ '',r='' @ client_nonce) server_nonce lookup = Some (ex, server_first)
    \<and> server_first = ''r='' @ client_nonce @ server_nonce @ '',s='' @ cr_b64_encode cr salt @ '',i='' @ dec iterations
    \<and> ex_account ex = account
    \<and> exchange_finish cr ex (client_final cr password ex) =
        Some (''v='' @ cr_b64_encode cr (cr_hmac cr
          (cr_hmac cr (cr_pbkdf2 cr password salt iterations) ''Server Key'') (auth_message ex)))"
proof (intro exI conjI)
  let ?ex = "honest_exchange cr account (derive cr password salt iterations) user client_nonce server_nonce"
  show "exchange_start cr (''n,,n='' @ user @ '',r='' @ client_nonce) server_nonce lookup = Some (?ex, ex_server_first ?ex)"
    by (rule honest_start) (fact assms)+
  show "exchange_finish cr ?ex (client_final cr password ?ex) = Some (''v='' @ cr_b64_encode cr (cr_hmac cr
      (cr_hmac cr (cr_pbkdf2 cr password salt iterations) ''Server Key'') (auth_message ?ex)))"
    by (rule honest_finish [OF assms(1,4,5) refl])
qed (simp_all add: honest_exchange_def derive_def Let_def)

text \<open>The attribute of a message, read off its fields: the value of the last field that has its letter.\<close>

definition attribute :: "char \<Rightarrow> string \<Rightarrow> string option" where
  "attribute k msg =
     (let fields = filter (\<lambda>f. take 2 f = [k, CHR ''='']) (split_on (CHR '','') msg)
      in if fields = [] then None else Some (drop 2 (last fields)))"

lemma scan_fields_attributes:
  assumes "k \<noteq> j"
  shows "scan_fields [k, CHR ''=''] [j, CHR ''=''] (split_on (CHR '','') msg) = (attribute k msg, attribute j msg)"
proof -
  define val where "val = (\<lambda>k fields old. let fs = filter (\<lambda>f. take 2 f = [k :: char, CHR ''='']) fields in if fs = [] then old else Some (drop 2 (last fs)))"
  have "fold (\<lambda>field (a, b). case strip_prefix [k, CHR ''=''] field of Some v \<Rightarrow> (Some v, b)
       | None \<Rightarrow> (case strip_prefix [j, CHR ''=''] field of Some v \<Rightarrow> (a, Some v) | None \<Rightarrow> (a, b))) fields (a, b)
     = (val k fields a, val j fields b)" for fields a b
    using assms by (induction fields arbitrary: a b) (auto simp: val_def strip_prefix_def numeral_2_eq_2 Let_def)
  then show ?thesis by (simp add: scan_fields_def attribute_def val_def)
qed

text \<open>C26: a SCRAM exchange is accepted exactly on proof of the client key. An exchange belongs to the account that the first
  message names; its final message is accepted if and only if its nonce is that of this exchange, which ends in the server's
  own random part, and its proof is the Base64 of 32 octets that give, combined with the signature of this very exchange, an
  octet string whose SHA-256 is the stored key of the account.\<close>

theorem scram_sound:
  assumes "exchange_start cr client_first server_nonce lookup = Some (ex, server_first)"
  shows "\<exists>bare user client_nonce creds.
    client_first_bare client_first = Some bare \<and> attribute (CHR ''n'') bare = Some user \<and> attribute (CHR ''r'') bare = Some client_nonce
    \<and> lookup user = Some (ex_account ex, creds)
    \<and> (exchange_finish cr ex msg \<noteq> None \<longleftrightarrow>
         attribute (CHR ''r'') msg = Some (client_nonce @ server_nonce)
         \<and> (\<exists>p pf. attribute (CHR ''p'') msg = Some p \<and> cr_b64_decode cr p = Some pf \<and> length pf = LEN
              \<and> cr_sha256 cr (xor_octets pf (cr_hmac cr (sc_stored_key creds)
                   (bare @ '','' @ server_first @ '',c=biws,r='' @ client_nonce @ server_nonce))) = sc_stored_key creds))"
proof -
  obtain bare where bare: "client_first_bare client_first = Some bare"
    using assms by (cases "client_first_bare client_first") (simp_all add: exchange_start_def)
  have first: "scan_fields ''n='' ''r='' (split_on (CHR '','') bare) = (attribute (CHR ''n'') bare, attribute (CHR ''r'') bare)"
    by (rule scan_fields_attributes) simp
  have final: "scan_fields ''r='' ''p='' (split_on (CHR '','') msg) = (attribute (CHR ''r'') msg, attribute (CHR ''p'') msg)"
    by (rule scan_fields_attributes) simp
  obtain user client_nonce creds where s: "attribute (CHR ''n'') bare = Some user" "attribute (CHR ''r'') bare = Some client_nonce"
    "lookup user = Some (ex_account ex, creds)" "ex_creds ex = creds" "ex_combined_nonce ex = client_nonce @ server_nonce"
    "ex_client_first_bare ex = bare" "ex_server_first ex = server_first"
    using assms by (auto simp: exchange_start_def bind_eq_Some_conv Let_def bare first split: option.splits)
  have "exchange_finish cr ex msg \<noteq> None \<longleftrightarrow>
         attribute (CHR ''r'') msg = Some (client_nonce @ server_nonce)
         \<and> (\<exists>p pf. attribute (CHR ''p'') msg = Some p \<and> cr_b64_decode cr p = Some pf \<and> length pf = LEN
              \<and> cr_sha256 cr (xor_octets pf (cr_hmac cr (sc_stored_key creds)
                   (bare @ '','' @ server_first @ '',c=biws,r='' @ client_nonce @ server_nonce))) = sc_stored_key creds)"
    by (auto simp: exchange_finish_def final bind_eq_Some_conv Let_def auth_message_def s(4-7) split: option.splits)
  then show ?thesis using bare s(1-3) by blast
qed

subsection \<open>Stored credentials\<close>

lemma not_whitespace_ascii: "is_ascii c \<Longrightarrow> c \<noteq> SP \<Longrightarrow> octet c > 13 \<Longrightarrow> \<not> is_whitespace [c]"
  by (auto simp: is_whitespace_def ctl_defs)

lemma trim_plain:
  assumes "\<And>c. c \<in> set s \<Longrightarrow> is_ascii c \<and> c \<noteq> SP \<and> octet c > 13"
  shows "trim s = s"
proof -
  have cs: "chars s = map (\<lambda>b. [b]) s" using assms by (intro chars_ascii) (simp add: list_all_iff)
  have keep: "dropWhile is_whitespace (map (\<lambda>b. [b]) t) = map (\<lambda>b. [b]) t" if "set t \<subseteq> set s" for t
    using that assms by (cases t) (auto simp: not_whitespace_ascii)
  have "trim s = concat (rev (dropWhile is_whitespace (map (\<lambda>b. [b]) (rev s))))"
    by (simp add: trim_def cs keep rev_map)
  then show ?thesis using keep [of "rev s"] by (simp add: rev_map [symmetric])
qed

lemma b64_plain: "b64_char c \<Longrightarrow> is_ascii c \<and> c \<noteq> SP \<and> octet c > 13"
  by (auto simp: b64_char_def ascii_class_defs is_ascii_def ctl_defs)

lemma trim_b64: "list_all b64_char s \<Longrightarrow> trim s = s"
  by (rule trim_plain) (auto simp: list_all_iff dest: b64_plain)

lemma trim_dec: "trim (dec n) = dec n"
proof (rule trim_plain)
  fix c assume "c \<in> set (dec n)"
  then have "is_ascii_digit c" by (rule dec_nth_digit)
  then show "is_ascii c \<and> c \<noteq> SP \<and> octet c > 13" by (auto simp: is_ascii_digit_def is_ascii_def ctl_defs)
qed

text \<open>SCRAM credentials survive their text form. Decoding the token that \<open>encode\<close> prints gives the
  credentials back, for every credential the daemon can hold.\<close>

theorem scram_creds_roundtrip:
  assumes "crypto_ok cr" "sc_salt c \<noteq> []" "0 < sc_iterations c" "sc_iterations c < 2 ^ 32"
    "length (sc_stored_key c) = LEN" "length (sc_server_key c) = LEN"
  shows "creds_decode cr (creds_encode cr c) = Some c"
proof -
  note ok = crypto_okD [OF assms(1)]
  have free: "CHR '':'' \<notin> set (cr_b64_encode cr x)" for x using b64_free [OF ok(4)] by blast
  have "CHR '':'' \<notin> set (dec n)" for n using dec_nth_digit by (fastforce simp: is_ascii_digit_def)
  then have "split_on (CHR '':'') (creds_encode cr c) =
      [dec (sc_iterations c), cr_b64_encode cr (sc_salt c), cr_b64_encode cr (sc_stored_key c), cr_b64_encode cr (sc_server_key c)]"
    using free by (simp add: creds_encode_def str_simps split_on_free)
  moreover have "parse_u32 (dec (sc_iterations c)) = Some (sc_iterations c)"
    using assms(4) parse_u64_dec [of "sc_iterations c"] by (simp add: parse_u32_def)
  ultimately show ?thesis
    using assms by (simp add: creds_decode_def trim_dec trim_b64 [OF ok(4)] ok(3) as_key_def)
qed

subsection \<open>A concrete instance of the primitives\<close>

text \<open>Hexadecimal in place of Base64 and sums in place of digests: enough to run the definitions.\<close>

definition hex_octets :: "string \<Rightarrow> string" where
  "hex_octets s = concat (map (\<lambda>c. [hexdigit (octet c div 16), hexdigit (octet c mod 16)]) s)"

definition unhexdigit :: "char \<Rightarrow> nat" where
  "unhexdigit c = (if octet c < 58 then octet c - 48 else octet c - 87)"

fun unhex_octets :: "string \<Rightarrow> string option" where
  "unhex_octets (a # b # s) = map_option (\<lambda>r. char_of (16 * unhexdigit a + unhexdigit b) # r) (unhex_octets s)"
| "unhex_octets [] = Some []"
| "unhex_octets [a] = None"

definition toy_digest :: "string \<Rightarrow> string" where
  "toy_digest s = replicate LEN (char_of (fold (\<lambda>c n. (n + octet c) mod 256) s 0))"

definition toy_crypto :: crypto where
  "toy_crypto =
     \<lparr>cr_argon2_hash = (\<lambda>p s. Some (p @ s)), cr_argon2_verify = (\<lambda>p h. take (length p) h = p),
      cr_hmac = (\<lambda>k m. toy_digest (k @ m)), cr_sha256 = toy_digest, cr_pbkdf2 = (\<lambda>p s i. toy_digest (p @ s)),
      cr_b64_encode = hex_octets, cr_b64_decode = unhex_octets, cr_to_lowercase = map to_ascii_lowercase\<rparr>"

lemma unhexdigit_hexdigit: "d < 16 \<Longrightarrow> unhexdigit (hexdigit d) = d"
  by (auto simp: unhexdigit_def hexdigit_def)

lemma octet_div_16: "octet c div 16 < 16"
  using octet_bound [of c] by (simp add: less_mult_imp_div_less del: octet_bound)

lemma unhex_hex: "unhex_octets (hex_octets s) = Some s"
  by (induction s) (simp_all add: hex_octets_def unhexdigit_hexdigit octet_div_16)

lemma hexdigit_b64: "d < 16 \<Longrightarrow> b64_char (hexdigit d)"
  by (auto simp: b64_char_def hexdigit_def ascii_class_defs)

lemma toy_crypto_ok: "crypto_ok toy_crypto"
proof -
  have "list_all b64_char (hex_octets s)" for s
    by (induction s) (simp_all add: hex_octets_def hexdigit_b64 octet_div_16)
  then show ?thesis by (simp add: crypto_ok_def toy_crypto_def toy_digest_def unhex_hex)
qed

theorem scram_completes_witness:
  "\<exists>ex server_first. exchange_start toy_crypto ''n,,n=amy,r=c1'' ''s1''
      (\<lambda>u. if u = ''amy'' then Some (''Amy'', derive toy_crypto ''pw'' ''salt'' 4096) else None) = Some (ex, server_first)
    \<and> ex_account ex = ''Amy''
    \<and> exchange_finish toy_crypto ex (client_final toy_crypto ''pw'' ex) \<noteq> None"
  using scram_completes [OF toy_crypto_ok, of "\<lambda>u. if u = ''amy'' then Some (''Amy'', derive toy_crypto ''pw'' ''salt'' 4096) else None"
      "''amy''" "''Amy''" "''pw''" "''salt''" 4096 "''c1''" "''s1''"]
  by auto

theorem scram_creds_roundtrip_witness:
  "creds_decode toy_crypto (creds_encode toy_crypto (derive toy_crypto ''pw'' ''salt'' 4096)) = Some (derive toy_crypto ''pw'' ''salt'' 4096)"
proof (rule scram_creds_roundtrip [OF toy_crypto_ok])
  show "length (sc_stored_key (derive toy_crypto ''pw'' ''salt'' 4096)) = LEN" "length (sc_server_key (derive toy_crypto ''pw'' ''salt'' 4096)) = LEN"
    using crypto_okD(1,2) [OF toy_crypto_ok] by (simp_all only: derive_def Let_def scram_creds.simps)
qed (simp_all add: derive_def Let_def)

theorem set_password_login_witness:
  "verify_password toy_crypto (the (set_password toy_crypto (Some ''s1'') (Some ''s2'') ''Amy'' ''pw'' (store_new Ascii))) ''AMY'' ''pw'' = Some ''Amy''"
proof -
  obtain st' where st': "set_password toy_crypto (Some ''s1'') (Some ''s2'') ''Amy'' ''pw'' (store_new Ascii) = Some st'"
    by (simp add: set_password_def hash_password_random_def toy_crypto_def Let_def)
  have "account_key (store_new Ascii) ''AMY'' = account_key (store_new Ascii) ''Amy''" by code_simp
  from set_password_login [OF toy_crypto_ok st' this] show ?thesis unfolding st' by (auto simp: store_new_def)
qed


definition demo_lookup :: "string \<Rightarrow> (string \<times> scram_creds) option" where
  "demo_lookup u = (if u = ''amy'' then Some (''Amy'', derive toy_crypto ''pw'' ''salt'' 4096) else None)"

definition demo_exchange :: exchange where
  "demo_exchange = honest_exchange toy_crypto ''Amy'' (derive toy_crypto ''pw'' ''salt'' 4096) ''amy'' ''c1'' ''s1''"

theorem scram_sound_witness:
  "\<exists>user client_nonce creds p pf. demo_lookup user = Some (''Amy'', creds)
    \<and> attribute (CHR ''r'') (client_final toy_crypto ''pw'' demo_exchange) = Some (client_nonce @ ''s1'')
    \<and> attribute (CHR ''p'') (client_final toy_crypto ''pw'' demo_exchange) = Some p \<and> cr_b64_decode toy_crypto p = Some pf \<and> length pf = LEN"
proof -
  have s: "exchange_start toy_crypto (''n,,n='' @ ''amy'' @ '',r='' @ ''c1'') ''s1'' demo_lookup = Some (demo_exchange, ex_server_first demo_exchange)"
    unfolding demo_exchange_def by (rule honest_start) (simp_all add: demo_lookup_def)
  have "exchange_finish toy_crypto demo_exchange (client_final toy_crypto ''pw'' demo_exchange) \<noteq> None"
    using honest_finish [OF toy_crypto_ok _ _ demo_exchange_def] by simp
  moreover have "ex_account demo_exchange = ''Amy''" by (simp add: demo_exchange_def honest_exchange_def)
  ultimately show ?thesis using scram_sound [OF s, of "client_final toy_crypto ''pw'' demo_exchange"] by metis
qed

end
