(* ===== verification/Sasl.thy ===== *)
theory Sasl
  imports Account
begin

text \<open>
  The reader of \<open>AUTHENTICATE\<close> payloads (\<open>ferrixd/src/sasl.rs\<close>): mechanisms, the accumulation of the
  Base64 chunks of a response, and the fields of a \<open>PLAIN\<close> response.
\<close>

definition MAX_SASL_LEN :: nat where "MAX_SASL_LEN = 8192"

definition CHUNK_LEN :: nat where "CHUNK_LEN = 400"

datatype mechanism = Plain | External | Scram

definition mechanism_from_name :: "string \<Rightarrow> mechanism option" where
  "mechanism_from_name name =
     (let upper = map to_ascii_uppercase name
      in if upper = ''PLAIN'' then Some Plain
         else if upper = ''EXTERNAL'' then Some External
         else if upper = ''SCRAM-SHA-256'' then Some Scram
         else None)"

datatype scram_phase =
    Idle
  | AwaitingClientFirst
  | AwaitingClientFinal exchange
  | AwaitingFinalAck string

record sasl_session =
  sasl_mechanism :: "mechanism option"
  sasl_scram :: scram_phase
  sasl_buffer :: string
  sasl_authenticated_as :: "string option"

definition sasl_default :: sasl_session where
  "sasl_default = \<lparr>sasl_mechanism = None, sasl_scram = Idle, sasl_buffer = [], sasl_authenticated_as = None\<rparr>"

datatype chunk_result = NeedMore | Complete string | Invalid

definition sasl_reset :: "sasl_session \<Rightarrow> sasl_session" where
  "sasl_reset s = s\<lparr>sasl_mechanism := None, sasl_scram := Idle, sasl_buffer := []\<rparr>"

definition push_chunk :: "crypto \<Rightarrow> string \<Rightarrow> sasl_session \<Rightarrow> chunk_result \<times> sasl_session" where
  "push_chunk cr chunk s =
     (let empty_marker = (chunk = ''+'')
      in if \<not> empty_marker \<and> MAX_SASL_LEN < length (sasl_buffer s) + length chunk then (Invalid, s)
         else
           (let s = (if empty_marker then s else s\<lparr>sasl_buffer := sasl_buffer s @ chunk\<rparr>)
            in if empty_marker \<or> length chunk < CHUNK_LEN
               then (case cr_b64_decode cr (sasl_buffer s) of Some bytes \<Rightarrow> Complete bytes | None \<Rightarrow> Invalid,
                     s\<lparr>sasl_buffer := []\<rparr>)
               else (NeedMore, s)))"

text \<open>\<open>String::from_utf8(...).ok()\<close>\<close>

definition from_utf8 :: "string \<Rightarrow> string option" where
  "from_utf8 s = (if utf8_valid s then Some s else None)"

definition decode_plain :: "string \<Rightarrow> (string \<times> string \<times> string) option" where
  "decode_plain data =
     (case split_on NUL data of
        [authzid, authcid, password] \<Rightarrow>
          Option.bind (from_utf8 authzid) (\<lambda>z. Option.bind (from_utf8 authcid) (\<lambda>c.
            map_option (\<lambda>p. (z, c, p)) (from_utf8 password)))
      | _ \<Rightarrow> None)"

subsection \<open>Chunks\<close>

lemma push_chunk_bounded:
  assumes "length (sasl_buffer s) \<le> MAX_SASL_LEN"
  shows "length (sasl_buffer (snd (push_chunk cr chunk s))) \<le> MAX_SASL_LEN"
  using assms by (auto simp: push_chunk_def Let_def not_less)

text \<open>How a client sends a Base64 text: pieces of exactly 400 octets, and a shorter last piece, a lone plus
  sign when nothing is left over.\<close>

function chunk_up :: "string \<Rightarrow> string list" where
  "chunk_up b =
     (if length b < CHUNK_LEN then [if b = [] then ''+'' else b]
      else take CHUNK_LEN b # chunk_up (drop CHUNK_LEN b))"
  by pat_completeness auto
termination
  by (relation "measure length") (auto simp: CHUNK_LEN_def)

declare chunk_up.simps [simp del]

primrec feed :: "crypto \<Rightarrow> string list \<Rightarrow> sasl_session \<Rightarrow> chunk_result list \<times> sasl_session" where
  "feed cr [] s = ([], s)"
| "feed cr (c # cs) s =
     (let (r, s) = push_chunk cr c s; (rs, s) = feed cr cs s in (r # rs, s))"

lemma feed_chunks:
  assumes "length (sasl_buffer s) + length b \<le> MAX_SASL_LEN" "4 dvd length b"
  shows "feed cr (chunk_up b) s =
    (replicate (length b div CHUNK_LEN) NeedMore @
       [case cr_b64_decode cr (sasl_buffer s @ b) of Some bytes \<Rightarrow> Complete bytes | None \<Rightarrow> Invalid],
     s\<lparr>sasl_buffer := []\<rparr>)"
  using assms
proof (induction b arbitrary: s rule: chunk_up.induct)
  case (1 b)
  show ?case
  proof (cases "length b < CHUNK_LEN")
    case True
    have "b \<noteq> ''+''" using 1(3) by auto
    then show ?thesis
      using True 1(2) by (subst chunk_up.simps) (simp add: push_chunk_def Let_def)
  next
    case False
    define c where "c = take CHUNK_LEN b"
    have c: "length c = CHUNK_LEN" "c \<noteq> ''+''" using False by (auto simp: c_def CHUNK_LEN_def dest: arg_cong [where f = length])
    have d: "4 dvd length (drop CHUNK_LEN b)" using 1(3) by (simp add: CHUNK_LEN_def dvd_diff_nat)
    have p: "push_chunk cr c s = (NeedMore, s\<lparr>sasl_buffer := sasl_buffer s @ c\<rparr>)"
      using c False 1(2) by (simp add: push_chunk_def Let_def)
    have dv: "length b div CHUNK_LEN = Suc (length (drop CHUNK_LEN b) div CHUNK_LEN)"
      using False by (simp add: CHUNK_LEN_def div_if [of "length b"])
    have "feed cr (chunk_up b) s = (let (rs, t) = feed cr (chunk_up (drop CHUNK_LEN b)) (s\<lparr>sasl_buffer := sasl_buffer s @ c\<rparr>) in (NeedMore # rs, t))"
      using False p by (subst chunk_up.simps) (simp add: c_def)
    also have "\<dots> = (replicate (length b div CHUNK_LEN) NeedMore @
       [case cr_b64_decode cr (sasl_buffer s @ b) of Some bytes \<Rightarrow> Complete bytes | None \<Rightarrow> Invalid],
       s\<lparr>sasl_buffer := []\<rparr>)"
      using 1(1) [OF False _ d, of "s\<lparr>sasl_buffer := sasl_buffer s @ c\<rparr>"] 1(2) False dv
      by (simp add: c_def)
    finally show ?thesis .
  qed
qed

text \<open>A split payload is put together again. A payload of at most 8192 Base64 octets, sent in pieces of
  400 with a short last piece, is asked for piece by piece and decoded whole at the end, and the buffer
  is empty again.\<close>

theorem sasl_reassembly:
  assumes "crypto_ok cr" "length (cr_b64_encode cr payload) \<le> MAX_SASL_LEN" "4 dvd length (cr_b64_encode cr payload)"
    "sasl_buffer s = []"
  shows "feed cr (chunk_up (cr_b64_encode cr payload)) s =
    (replicate (length (cr_b64_encode cr payload) div CHUNK_LEN) NeedMore @ [Complete payload], s)"
  using feed_chunks [of s "cr_b64_encode cr payload" cr] assms crypto_okD(3) [OF assms(1)] by simp

theorem sasl_reassembly_witness:
  "feed toy_crypto (chunk_up (cr_b64_encode toy_crypto ''ab'')) sasl_default = ([Complete ''ab''], sasl_default)"
proof -
  have "length (cr_b64_encode toy_crypto ''ab'') = 4" by (simp add: toy_crypto_def hex_octets_def)
  then show ?thesis
    using sasl_reassembly [OF toy_crypto_ok, of "''ab''" sasl_default] by (simp add: MAX_SASL_LEN_def CHUNK_LEN_def sasl_default_def)
qed

subsection \<open>PLAIN responses\<close>

text \<open>A PLAIN response has exactly three fields. \<open>decode_plain\<close> accepts just the octet strings made of
  three well-formed texts without NUL, separated by NUL, and returns the three.\<close>

theorem decode_plain_exact:
  "decode_plain data = Some (z, c, p) \<longleftrightarrow>
    data = z @ NUL # c @ NUL # p \<and> NUL \<notin> set z \<and> NUL \<notin> set c \<and> NUL \<notin> set p \<and> utf8_valid z \<and> utf8_valid c \<and> utf8_valid p"
proof
  assume "decode_plain data = Some (z, c, p)"
  then have sp: "split_on NUL data = [z, c, p]" and v: "utf8_valid z" "utf8_valid c" "utf8_valid p"
    by (auto simp: decode_plain_def from_utf8_def bind_eq_Some_conv split: list.splits if_splits)
  have "data = join [NUL] [z, c, p]" using join_split_on [of NUL data] sp by simp
  then show "data = z @ NUL # c @ NUL # p \<and> NUL \<notin> set z \<and> NUL \<notin> set c \<and> NUL \<notin> set p \<and> utf8_valid z \<and> utf8_valid c \<and> utf8_valid p"
    using v split_on_pieces [of _ NUL data] sp by auto
qed (simp add: decode_plain_def from_utf8_def str_simps split_on_free)

end
