(* ===== verification/Services.thy ===== *)
theory Services
  imports Presence Sasl
begin

text \<open>
  The credentials and policy the server holds beside its registries (\<open>ferrixd/src/state.rs\<close>): accounts and
  operator blocks, the connection password, trusted gateways, and their reload from a configuration
  (\<open>apply_config\<close>). The random generator is a supply of results, \<open>None\<close> for a failure. The rows of the
  account store on disk are a list, \<open>None\<close> when no store is configured.
\<close>

record webirc_gateway =
  gw_name :: string
  gw_password :: string
  gw_hosts :: "string list"

record account_record =
  ar_folded :: string
  ar_display :: string
  ar_password_hash :: "string option"
  ar_scram :: "scram_creds option"

record sts_policy =
  sts_port :: nat
  sts_duration :: nat
  sts_preload :: bool

record auth =
  au_crypto :: crypto
  au_entropy :: "string option list"
  au_accounts :: account_store
  au_opers :: account_store
  au_oper_hosts :: "(string, string list) table"
  au_client_password :: "string option"
  au_webirc :: "webirc_gateway list"
  au_motd :: "string list"
  au_sts :: "sts_policy option"
  au_persisted :: "account_record list option"

definition draw :: "auth \<Rightarrow> string option \<times> auth" where
  "draw au = (case au_entropy au of [] \<Rightarrow> (None, au) | e # es \<Rightarrow> (e, au\<lparr>au_entropy := es\<rparr>))"

subsection \<open>Checks\<close>

definition webirc_authorize :: "auth \<Rightarrow> string \<Rightarrow> string \<Rightarrow> string \<Rightarrow> bool" where
  "webirc_authorize au source_ip gateway password =
     fold (\<lambda>gw ok.
       let host_ok = (gw_name gw = gateway \<and> list_ex (\<lambda>h. matches h source_ip) (gw_hosts gw));
           pass_ok = tokens_match (gw_password gw) password
       in ok \<or> (host_ok \<and> pass_ok)) (au_webirc au) False"

definition client_password_ok :: "auth \<Rightarrow> string option \<Rightarrow> bool" where
  "client_password_ok au given =
     (case au_client_password au of None \<Rightarrow> True | Some required \<Rightarrow> given = Some required)"

definition oper_host_allowed :: "auth \<Rightarrow> string \<Rightarrow> string \<Rightarrow> string \<Rightarrow> bool" where
  "oper_host_allowed au name hostmask ip =
     (case get (au_oper_hosts au) name of
        None \<Rightarrow> True
      | Some masks \<Rightarrow> masks = [] \<or> list_ex (\<lambda>m. matches m hostmask \<or> matches m ip) masks)"

text \<open>\<open>cloak_ip\<close> (\<open>ferrixd/src/cloak.rs\<close>): three groups of six hexadecimal digits of a keyed digest.\<close>

definition cloak_ip :: "crypto \<Rightarrow> string \<Rightarrow> string \<Rightarrow> string \<Rightarrow> string" where
  "cloak_ip cr cloak_key ip network =
     (let hx = concat (map (\<lambda>b. pad0 2 (hex (octet b))) (take 9 (cr_hmac cr cloak_key ip)))
      in take 6 hx @ ''.'' @ take 6 (drop 6 hx) @ ''.'' @ take 6 (drop 12 hx) @ ''.'' @ network)"

subsection \<open>Persisted accounts\<close>

definition upsert_row :: "account_record \<Rightarrow> account_record list \<Rightarrow> account_record list" where
  "upsert_row r rows = filter (\<lambda>x. ar_folded x \<noteq> ar_folded r) rows @ [r]"

definition persist_account :: "server \<Rightarrow> string \<Rightarrow> auth \<Rightarrow> auth" where
  "persist_account s name au =
     (case au_persisted au of
        None \<Rightarrow> au
      | Some rows \<Rightarrow>
          (case snapshot (au_accounts au) name of
             None \<Rightarrow> au
           | Some (display, hash, creds) \<Rightarrow>
               au\<lparr>au_persisted := Some (upsert_row
                 \<lparr>ar_folded = fold_key s name, ar_display = display, ar_password_hash = hash, ar_scram = creds\<rparr> rows)\<rparr>))"

definition restore_persisted_accounts :: "auth \<Rightarrow> auth" where
  "restore_persisted_accounts au =
     (case au_persisted au of
        None \<Rightarrow> au
      | Some rows \<Rightarrow>
          au\<lparr>au_accounts := fold (\<lambda>r. restore_if_absent (ar_display r) (ar_password_hash r) (ar_scram r)) rows (au_accounts au)\<rparr>)"

subsection \<open>Configuration\<close>

record account_config =
  acc_name :: string
  acc_password :: "string option"
  acc_password_hash :: "string option"
  acc_scram :: "string option"
  acc_fingerprints :: "string list"

record operator_config =
  op_name :: string
  op_password :: "string option"
  op_password_hash :: "string option"
  op_hosts :: "string list"

record config =
  cfg_accounts :: "account_config list"
  cfg_operators :: "operator_config list"
  cfg_bans :: "(string \<times> string) list"
  cfg_motd :: "string list"
  cfg_password :: "string option"
  cfg_webirc :: "webirc_gateway list"

datatype config_error = HashFailed | MalformedScram string | NoOperPassword string

text \<open>The plain text of a password is hashed with the next results of the random generator.\<close>

definition seed_password :: "account_config \<Rightarrow> auth \<Rightarrow> (config_error + unit) \<times> auth" where
  "seed_password a au =
     (case acc_password_hash a of
        Some hash \<Rightarrow> (Inr (), au\<lparr>au_accounts := upsert_password (acc_name a) hash (au_accounts au)\<rparr>)
      | None \<Rightarrow>
          (case acc_password a of
             None \<Rightarrow> (Inr (), au)
           | Some password \<Rightarrow>
               (let (e1, au) = draw au; (e2, au) = draw au
                in case set_password (au_crypto au) e1 e2 (acc_name a) password (au_accounts au) of
                     None \<Rightarrow> (Inl HashFailed, au)
                   | Some st \<Rightarrow> (Inr (), au\<lparr>au_accounts := st\<rparr>))))"

definition seed_scram :: "account_config \<Rightarrow> auth \<Rightarrow> (config_error + unit) \<times> auth" where
  "seed_scram a au =
     (case acc_scram a of
        None \<Rightarrow> (Inr (), au)
      | Some token \<Rightarrow>
          (case creds_decode (au_crypto au) token of
             None \<Rightarrow> (Inl (MalformedScram (acc_name a)), au)
           | Some creds \<Rightarrow> (Inr (), au\<lparr>au_accounts := upsert_scram (acc_name a) creds (au_accounts au)\<rparr>)))"

definition seed_fingerprints :: "account_config \<Rightarrow> auth \<Rightarrow> auth" where
  "seed_fingerprints a au =
     au\<lparr>au_accounts := fold (\<lambda>fp. add_fingerprint (acc_name a) (cr_to_lowercase (au_crypto au) fp)) (acc_fingerprints a) (au_accounts au)\<rparr>"

primrec seed_accounts :: "account_config list \<Rightarrow> auth \<Rightarrow> (config_error + unit) \<times> auth" where
  "seed_accounts [] au = (Inr (), au)"
| "seed_accounts (a # as) au =
     (case seed_password a au of
        (Inl e, au) \<Rightarrow> (Inl e, au)
      | (Inr _, au) \<Rightarrow>
          (case seed_scram a au of
             (Inl e, au) \<Rightarrow> (Inl e, au)
           | (Inr _, au) \<Rightarrow> seed_accounts as (seed_fingerprints a au)))"

definition oper_hash :: "operator_config \<Rightarrow> auth \<Rightarrow> (config_error + string) \<times> auth" where
  "oper_hash p au =
     (case (op_password_hash p, op_password p) of
        (Some hash, _) \<Rightarrow> (Inr hash, au)
      | (None, Some password) \<Rightarrow>
          (let (e, au) = draw au
           in case hash_password_random (au_crypto au) e password of
                None \<Rightarrow> (Inl HashFailed, au)
              | Some hash \<Rightarrow> (Inr hash, au))
      | (None, None) \<Rightarrow> (Inl (NoOperPassword (op_name p)), au))"

primrec seed_operators :: "operator_config list \<Rightarrow> auth \<Rightarrow> (config_error + unit) \<times> auth" where
  "seed_operators [] au = (Inr (), au)"
| "seed_operators (p # ps) au =
     (case oper_hash p au of
        (Inl e, au) \<Rightarrow> (Inl e, au)
      | (Inr hash, au) \<Rightarrow>
          seed_operators ps (au\<lparr>au_opers := upsert_password (op_name p) hash (au_opers au),
                               au_oper_hosts := put (op_name p) (op_hosts p) (au_oper_hosts au)\<rparr>))"

definition apply_config :: "config \<Rightarrow> auth \<times> server \<Rightarrow> (config_error + unit) \<times> auth \<times> server" where
  "apply_config cfg st =
     (case st of (au, s) \<Rightarrow>
        (case seed_accounts (cfg_accounts cfg) (au\<lparr>au_accounts := store_clear (au_accounts au)\<rparr>) of
           (Inl e, au) \<Rightarrow> (Inl e, au, s)
         | (Inr _, au) \<Rightarrow>
             (case seed_operators (cfg_operators cfg) (au\<lparr>au_opers := store_clear (au_opers au), au_oper_hosts := []\<rparr>) of
                (Inl e, au) \<Rightarrow> (Inl e, au, s)
              | (Inr _, au) \<Rightarrow>
                  (let s = s\<lparr>server_bans := map (\<lambda>(msk, reason).
                             \<lparr>sb_mask = msk, sb_reason = reason, sb_set_by = ''config'', sb_set_at = now_unix s\<rparr>) (cfg_bans cfg)\<rparr>;
                       au = au\<lparr>au_motd := cfg_motd cfg, au_client_password := cfg_password cfg, au_webirc := cfg_webirc cfg\<rparr>
                   in (Inr (), restore_persisted_accounts au, s)))))"


subsection \<open>Reloading\<close>

lemma store_clear_exists [simp]: "\<not> account_exists (store_clear st) name"
  by (simp add: account_exists_def store_clear_def)

lemma draw_fields [simp]:
  "au_accounts (snd (draw au)) = au_accounts au" "au_opers (snd (draw au)) = au_opers au"
  "au_oper_hosts (snd (draw au)) = au_oper_hosts au" "au_persisted (snd (draw au)) = au_persisted au"
  "au_crypto (snd (draw au)) = au_crypto au"
  by (simp_all add: draw_def split: list.split)

lemma modify_or_insert_exists:
  "account_exists (modify_or_insert name f new st) other \<longleftrightarrow> account_key st other = account_key st name \<or> account_exists st other"
  by (auto simp: account_exists_def modify_or_insert_get)

text \<open>\<open>only ns st st'\<close>: the store \<open>st'\<close> has, beside the accounts of \<open>st\<close>, at most accounts of the given names.\<close>

definition only :: "string list \<Rightarrow> account_store \<Rightarrow> account_store \<Rightarrow> bool" where
  "only ns st st' \<longleftrightarrow> account_key st' = account_key st
     \<and> (\<forall>x. account_exists st' x \<longrightarrow> account_exists st x \<or> (\<exists>n \<in> set ns. account_key st x = account_key st n))"

lemma only_refl [simp]: "only ns st st"
  by (simp add: only_def)

lemma only_trans: "only ns a b \<Longrightarrow> only ms b c \<Longrightarrow> only (ns @ ms) a c"
  by (auto simp: only_def)

lemma only_modify: "only [name] st (modify_or_insert name f new st)"
  by (auto simp: only_def modify_or_insert_exists)

lemma only_mono: "only ns a b \<Longrightarrow> set ns \<subseteq> set ms \<Longrightarrow> only ms a b"
  unfolding only_def by blast

lemma only_seed_password: "seed_password a au = (r, au') \<Longrightarrow> only [acc_name a] (au_accounts au) (au_accounts au')"
proof -
  obtain e1 b where b: "draw au = (e1, b)" by fastforce
  obtain e2 c where c: "draw b = (e2, c)" by fastforce
  have f: "au_accounts c = au_accounts au" using b c draw_fields(1) [of au] draw_fields(1) [of b] by simp
  have "only [acc_name a] (au_accounts au) st" if "set_password cr e1 e2 (acc_name a) pw (au_accounts au) = Some st" for cr pw st
    using that by (auto simp: set_password_def Let_def bind_eq_Some_conv only_modify)
  then show "seed_password a au = (r, au') \<Longrightarrow> ?thesis"
    using f by (auto simp: seed_password_def b c upsert_password_def only_modify split: option.splits)
qed

lemma only_seed_scram: "seed_scram a au = (r, au') \<Longrightarrow> only [acc_name a] (au_accounts au) (au_accounts au')"
  by (auto simp: seed_scram_def upsert_scram_def only_modify split: option.splits)

lemma only_seed_fingerprints: "only [acc_name a] (au_accounts au) (au_accounts (seed_fingerprints a au))"
proof -
  have "only [acc_name a] st (fold (\<lambda>fp. add_fingerprint (acc_name a) (g fp)) fps st)" for fps g st
  proof (induction fps arbitrary: st)
    case (Cons fp fps)
    have "only [acc_name a] st (add_fingerprint (acc_name a) (g fp) st)" by (simp add: add_fingerprint_def only_modify)
    from only_trans [OF this Cons.IH] show ?case by (auto intro: only_mono)
  qed simp
  then show ?thesis by (simp add: seed_fingerprints_def)
qed

lemma only_seed_accounts: "seed_accounts as au = (r, au') \<Longrightarrow> only (map acc_name as) (au_accounts au) (au_accounts au')"
proof (induction as arbitrary: au)
  case (Cons a as)
  obtain r1 b where b: "seed_password a au = (r1, b)" by fastforce
  obtain r2 c where c: "seed_scram a b = (r2, c)" by fastforce
  note o1 = only_seed_password [OF b] and o2 = only_trans [OF only_seed_password [OF b] only_seed_scram [OF c]]
  show ?case
  proof (cases r1)
    case (Inl e)
    then show ?thesis using Cons.prems b o1 by (auto intro: only_mono)
  next
    case r1: (Inr u)
    show ?thesis
    proof (cases r2)
      case (Inl e)
      then show ?thesis using Cons.prems b c r1 o2 by (auto intro: only_mono)
    next
      case (Inr v)
      then have "seed_accounts as (seed_fingerprints a c) = (r, au')" using Cons.prems b c r1 by simp
      from only_trans [OF only_trans [OF o2 only_seed_fingerprints] Cons.IH [OF this]] show ?thesis
        by (auto intro: only_mono)
    qed
  qed
qed simp

lemma seed_accounts_opers: "seed_accounts as au = (r, au') \<Longrightarrow> au_opers au' = au_opers au \<and> au_persisted au' = au_persisted au"
proof (induction as arbitrary: au)
  case (Cons a as)
  obtain r1 b where b: "seed_password a au = (r1, b)" by fastforce
  obtain e1 b1 where b1: "draw au = (e1, b1)" by fastforce
  obtain e2 b2 where b2: "draw b1 = (e2, b2)" by fastforce
  have "au_opers b2 = au_opers au \<and> au_persisted b2 = au_persisted au"
    using b1 b2 draw_fields(2,4) [of au] draw_fields(2,4) [of b1] by simp
  then have f: "au_opers b = au_opers au \<and> au_persisted b = au_persisted au"
    using b by (auto simp: seed_password_def b1 b2 split: option.splits)
  obtain r2 c where c: "seed_scram a b = (r2, c)" by fastforce
  then have g: "au_opers c = au_opers b \<and> au_persisted c = au_persisted b" by (auto simp: seed_scram_def split: option.splits)
  show ?case
    using Cons.prems Cons.IH [of "seed_fingerprints a c"] f g
    by (auto simp: b c seed_fingerprints_def split: sum.splits)
qed simp

text \<open>A failed reload is not harmless. When the first operator block of a new configuration has no
  password, which the configuration reader lets through, \<open>apply_config\<close> reports an error, but by then every
  operator block is gone and every account that users registered themselves can no longer log in, although
  their records are still stored. The caller documents that a failed reload changes nothing.\<close>

theorem failed_reload_drops_credentials:
  assumes "cfg_operators cfg = p # ps" "op_password p = None" "op_password_hash p = None"
    "fst (seed_accounts (cfg_accounts cfg) (au\<lparr>au_accounts := store_clear (au_accounts au)\<rparr>)) = Inr ()"
    "apply_config cfg (au, s) = (result, au', s')"
  shows "result = Inl (NoOperPassword (op_name p)) \<and> s' = s
    \<and> (\<forall>name. \<not> account_exists (au_opers au') name)
    \<and> (\<forall>name. (\<forall>a \<in> set (cfg_accounts cfg). account_key (au_accounts au) (acc_name a) \<noteq> account_key (au_accounts au) name)
         \<longrightarrow> \<not> account_exists (au_accounts au') name)
    \<and> au_persisted au' = au_persisted au"
proof -
  obtain b where b: "seed_accounts (cfg_accounts cfg) (au\<lparr>au_accounts := store_clear (au_accounts au)\<rparr>) = (Inr (), b)"
    using assms(4) by (metis prod.collapse)
  have key: "account_key (store_clear st) = account_key st" for st
    by (simp add: fun_eq_iff account_key_def store_clear_def)
  have "only (map acc_name (cfg_accounts cfg)) (store_clear (au_accounts au)) (au_accounts b)"
    using only_seed_accounts [OF b] by simp
  then have "\<not> account_exists (au_accounts b) name"
    if "\<forall>a \<in> set (cfg_accounts cfg). account_key (au_accounts au) (acc_name a) \<noteq> account_key (au_accounts au) name" for name
    using that by (fastforce simp: only_def key)
  moreover have "au_persisted b = au_persisted au" using seed_accounts_opers [OF b] by simp
  ultimately show ?thesis
    using assms(1-3,5) by (auto simp: apply_config_def b oper_hash_def)
qed

subsection \<open>Operator blocks\<close>

text \<open>The host restriction of an operator block can be sidestepped. Passwords of operator blocks are
  looked up under the folded name and their host lists under the name as written: under any spelling of the
  name that no block is written with, every host is allowed and the same passwords are accepted.\<close>

theorem oper_hosts_sidestepped:
  assumes "get (au_oper_hosts au) alias = None" "account_key (au_opers au) alias = account_key (au_opers au) name"
  shows "oper_host_allowed au alias hostmask ip
    \<and> verify_password cr (au_opers au) alias password = verify_password cr (au_opers au) name password"
  using assms by (simp add: oper_host_allowed_def verify_password_def)

subsection \<open>An example configuration\<close>

definition demo_auth :: auth where
  "demo_auth =
     \<lparr>au_crypto = toy_crypto, au_entropy = [Some ''e1'', Some ''e2'', Some ''e3''], au_accounts = store_new Ascii,
      au_opers = store_new Ascii, au_oper_hosts = [], au_client_password = None, au_webirc = [], au_motd = [],
      au_sts = None, au_persisted = Some []\<rparr>"

definition demo_server :: server where
  "demo_server = server_new 0 \<lparr>si_name = ''irc.a'', si_sid = ''1AA'', si_network = ''net'', si_icon = None, si_version = ''v'',
     si_created = ''c'', si_casemapping = Ascii, si_history_len = 10, si_history_max_targets = 10, si_max_channels = 5, si_cloak_key = None\<rparr>"

definition demo_config :: "string option \<Rightarrow> config" where
  "demo_config hash =
     \<lparr>cfg_accounts = [], cfg_operators = [\<lparr>op_name = ''root'', op_password = None, op_password_hash = hash, op_hosts = [''10.0.0.1'']\<rparr>],
      cfg_bans = [], cfg_motd = [], cfg_password = None, cfg_webirc = []\<rparr>"

lemma demo_reload:
  "fst (snd (apply_config (demo_config (Some hash)) (demo_auth, demo_server))) =
     demo_auth\<lparr>au_opers := upsert_password ''root'' hash (store_new Ascii), au_oper_hosts := [(''root'', [''10.0.0.1''])]\<rparr>"
  by (simp add: apply_config_def demo_config_def demo_auth_def oper_hash_def store_clear_def store_new_def
    restore_persisted_accounts_def)

theorem oper_hosts_sidestepped_witness:
  "\<not> oper_host_allowed (fst (snd (apply_config (demo_config (Some ''pw'')) (demo_auth, demo_server)))) ''root'' ''a!b@c'' ''9.9.9.9''
   \<and> oper_host_allowed (fst (snd (apply_config (demo_config (Some ''pw'')) (demo_auth, demo_server)))) ''ROOT'' ''a!b@c'' ''9.9.9.9''
   \<and> verify_password toy_crypto (au_opers (fst (snd (apply_config (demo_config (Some ''pw'')) (demo_auth, demo_server))))) ''ROOT'' ''pw'' = Some ''root''"
proof -
  let ?st = "upsert_password ''root'' ''pw'' (store_new Ascii)"
  let ?au = "demo_auth\<lparr>au_opers := ?st, au_oper_hosts := [(''root'', [''10.0.0.1''])]\<rparr>"
  have k: "account_key ?st ''ROOT'' = account_key ?st ''root''" by code_simp
  have "get (au_oper_hosts ?au) ''ROOT'' = None" by simp
  moreover have "account_key (au_opers ?au) ''ROOT'' = account_key (au_opers ?au) ''root''" using k by simp
  ultimately have "oper_host_allowed ?au ''ROOT'' ''a!b@c'' ''9.9.9.9''
      \<and> verify_password toy_crypto (au_opers ?au) ''ROOT'' ''pw'' = verify_password toy_crypto (au_opers ?au) ''root'' ''pw''"
    by (rule oper_hosts_sidestepped)
  moreover have "\<not> matches ''10.0.0.1'' ''a!b@c'' \<and> \<not> matches ''10.0.0.1'' ''9.9.9.9''" by code_simp
  then have "\<not> oper_host_allowed ?au ''root'' ''a!b@c'' ''9.9.9.9''" by (simp add: oper_host_allowed_def)
  moreover have "verify_password toy_crypto ?st ''root'' ''pw'' = Some ''root''"
    by (simp add: verify_password_def upsert_password_def modify_or_insert_get store_new_def toy_crypto_def)
  ultimately show ?thesis unfolding demo_reload by simp
qed

theorem failed_reload_drops_credentials_witness:
  "\<exists>au' s'. apply_config (demo_config None) (demo_auth\<lparr>au_accounts := upsert_password ''amy'' ''pw'' (store_new Ascii)\<rparr>, demo_server)
      = (Inl (NoOperPassword ''root''), au', s') \<and> \<not> account_exists (au_accounts au') ''amy''"
proof -
  let ?au = "demo_auth\<lparr>au_accounts := upsert_password ''amy'' ''pw'' (store_new Ascii)\<rparr>"
  obtain r au' s' where a: "apply_config (demo_config None) (?au, demo_server) = (r, au', s')" by (metis prod_cases3)
  have "cfg_operators (demo_config None) = [\<lparr>op_name = ''root'', op_password = None, op_password_hash = None, op_hosts = [''10.0.0.1'']\<rparr>]"
    by (simp add: demo_config_def)
  from failed_reload_drops_credentials [OF this _ _ _ a] a show ?thesis by (auto simp: demo_config_def)
qed

end
