(* ===== verification/Numerics.thy ===== *)
theory Numerics
  imports Prelude
begin

text \<open>
  The reply codes of the protocol (\<open>ferrixd/src/numeric.rs\<close>). The six codes that the operations of the
  shared state send themselves are declared with those operations.
\<close>

definition RPL_WELCOME :: nat where "RPL_WELCOME = 1"
definition RPL_YOURHOST :: nat where "RPL_YOURHOST = 2"
definition RPL_CREATED :: nat where "RPL_CREATED = 3"
definition RPL_MYINFO :: nat where "RPL_MYINFO = 4"
definition RPL_ISUPPORT :: nat where "RPL_ISUPPORT = 5"
definition RPL_VERSION :: nat where "RPL_VERSION = 351"
definition RPL_TIME :: nat where "RPL_TIME = 391"
definition RPL_ADMINME :: nat where "RPL_ADMINME = 256"
definition RPL_ADMINLOC1 :: nat where "RPL_ADMINLOC1 = 257"
definition RPL_ADMINLOC2 :: nat where "RPL_ADMINLOC2 = 258"
definition RPL_ADMINEMAIL :: nat where "RPL_ADMINEMAIL = 259"
definition RPL_INFO :: nat where "RPL_INFO = 371"
definition RPL_ENDOFINFO :: nat where "RPL_ENDOFINFO = 374"
definition RPL_USERHOST :: nat where "RPL_USERHOST = 302"
definition RPL_ISON :: nat where "RPL_ISON = 303"
definition RPL_MONLIST :: nat where "RPL_MONLIST = 732"
definition RPL_ENDOFMONLIST :: nat where "RPL_ENDOFMONLIST = 733"
definition ERR_MONLISTFULL :: nat where "ERR_MONLISTFULL = 734"
definition RPL_LUSERCLIENT :: nat where "RPL_LUSERCLIENT = 251"
definition RPL_LUSEROP :: nat where "RPL_LUSEROP = 252"
definition RPL_LUSERUNKNOWN :: nat where "RPL_LUSERUNKNOWN = 253"
definition RPL_LUSERCHANNELS :: nat where "RPL_LUSERCHANNELS = 254"
definition RPL_LUSERME :: nat where "RPL_LUSERME = 255"
definition RPL_LOCALUSERS :: nat where "RPL_LOCALUSERS = 265"
definition RPL_GLOBALUSERS :: nat where "RPL_GLOBALUSERS = 266"
definition RPL_LOGGEDIN :: nat where "RPL_LOGGEDIN = 900"
definition RPL_LOGGEDOUT :: nat where "RPL_LOGGEDOUT = 901"
definition ERR_NICKLOCKED :: nat where "ERR_NICKLOCKED = 902"
definition RPL_SASLSUCCESS :: nat where "RPL_SASLSUCCESS = 903"
definition ERR_SASLFAIL :: nat where "ERR_SASLFAIL = 904"
definition ERR_SASLTOOLONG :: nat where "ERR_SASLTOOLONG = 905"
definition ERR_SASLABORTED :: nat where "ERR_SASLABORTED = 906"
definition ERR_SASLALREADY :: nat where "ERR_SASLALREADY = 907"
definition RPL_WHOISACCOUNT :: nat where "RPL_WHOISACCOUNT = 330"
definition RPL_KEYVALUE :: nat where "RPL_KEYVALUE = 761"
definition RPL_METADATAEND :: nat where "RPL_METADATAEND = 762"
definition RPL_SILELIST :: nat where "RPL_SILELIST = 271"
definition RPL_ENDOFSILELIST :: nat where "RPL_ENDOFSILELIST = 272"
definition RPL_MAP :: nat where "RPL_MAP = 15"
definition RPL_MAPEND :: nat where "RPL_MAPEND = 17"
definition RPL_NOWON :: nat where "RPL_NOWON = 604"
definition RPL_NOWOFF :: nat where "RPL_NOWOFF = 605"
definition RPL_WATCHOFF :: nat where "RPL_WATCHOFF = 602"
definition RPL_WATCHLIST :: nat where "RPL_WATCHLIST = 606"
definition RPL_ENDOFWATCHLIST :: nat where "RPL_ENDOFWATCHLIST = 607"
definition ERR_SILELISTFULL :: nat where "ERR_SILELISTFULL = 511"
definition RPL_METADATASUBOK :: nat where "RPL_METADATASUBOK = 770"
definition RPL_METADATAUNSUBOK :: nat where "RPL_METADATAUNSUBOK = 771"
definition RPL_METADATASUBS :: nat where "RPL_METADATASUBS = 772"
definition RPL_AWAY :: nat where "RPL_AWAY = 301"
definition RPL_UNAWAY :: nat where "RPL_UNAWAY = 305"
definition RPL_NOWAWAY :: nat where "RPL_NOWAWAY = 306"
definition RPL_YOUREOPER :: nat where "RPL_YOUREOPER = 381"
definition RPL_REHASHING :: nat where "RPL_REHASHING = 382"
definition RPL_INVITING :: nat where "RPL_INVITING = 341"
definition RPL_BANLIST :: nat where "RPL_BANLIST = 367"
definition RPL_ENDOFBANLIST :: nat where "RPL_ENDOFBANLIST = 368"
definition RPL_INVEXLIST :: nat where "RPL_INVEXLIST = 346"
definition RPL_ENDOFINVEXLIST :: nat where "RPL_ENDOFINVEXLIST = 347"
definition RPL_INVITELIST :: nat where "RPL_INVITELIST = 336"
definition RPL_ENDOFINVITELIST :: nat where "RPL_ENDOFINVITELIST = 337"
definition RPL_EXCEPTLIST :: nat where "RPL_EXCEPTLIST = 348"
definition RPL_ENDOFEXCEPTLIST :: nat where "RPL_ENDOFEXCEPTLIST = 349"
definition ERR_NOPRIVILEGES :: nat where "ERR_NOPRIVILEGES = 481"
definition ERR_CANTKILLSERVER :: nat where "ERR_CANTKILLSERVER = 483"
definition ERR_NOOPERHOST :: nat where "ERR_NOOPERHOST = 491"
definition RPL_STATSKLINE :: nat where "RPL_STATSKLINE = 216"
definition RPL_ENDOFSTATS :: nat where "RPL_ENDOFSTATS = 219"
definition RPL_STATSDLINE :: nat where "RPL_STATSDLINE = 225"
definition RPL_STATSUPTIME :: nat where "RPL_STATSUPTIME = 242"
definition RPL_STATSOLINE :: nat where "RPL_STATSOLINE = 243"
definition RPL_LINKS :: nat where "RPL_LINKS = 364"
definition RPL_ENDOFLINKS :: nat where "RPL_ENDOFLINKS = 365"
definition RPL_WHOWASUSER :: nat where "RPL_WHOWASUSER = 314"
definition RPL_ENDOFWHOWAS :: nat where "RPL_ENDOFWHOWAS = 369"
definition ERR_WASNOSUCHNICK :: nat where "ERR_WASNOSUCHNICK = 406"
definition ERR_HELPNOTFOUND :: nat where "ERR_HELPNOTFOUND = 524"
definition RPL_HELPSTART :: nat where "RPL_HELPSTART = 704"
definition RPL_HELPTXT :: nat where "RPL_HELPTXT = 705"
definition RPL_ENDOFHELP :: nat where "RPL_ENDOFHELP = 706"
definition RPL_KNOCKDLVR :: nat where "RPL_KNOCKDLVR = 711"
definition ERR_CHANOPEN :: nat where "ERR_CHANOPEN = 713"
definition ERR_KNOCKONCHAN :: nat where "ERR_KNOCKONCHAN = 714"
definition RPL_UMODEIS :: nat where "RPL_UMODEIS = 221"
definition RPL_WHOISUSER :: nat where "RPL_WHOISUSER = 311"
definition RPL_WHOISSERVER :: nat where "RPL_WHOISSERVER = 312"
definition RPL_WHOISOPERATOR :: nat where "RPL_WHOISOPERATOR = 313"
definition RPL_WHOISBOT :: nat where "RPL_WHOISBOT = 335"
definition RPL_WHOISIDLE :: nat where "RPL_WHOISIDLE = 317"
definition RPL_WHOISSECURE :: nat where "RPL_WHOISSECURE = 671"
definition RPL_WHOISACTUALLY :: nat where "RPL_WHOISACTUALLY = 338"
definition RPL_WHOSPCRPL :: nat where "RPL_WHOSPCRPL = 354"
definition RPL_ENDOFWHO :: nat where "RPL_ENDOFWHO = 315"
definition RPL_LISTSTART :: nat where "RPL_LISTSTART = 321"
definition RPL_LIST :: nat where "RPL_LIST = 322"
definition RPL_LISTEND :: nat where "RPL_LISTEND = 323"
definition RPL_ENDOFWHOIS :: nat where "RPL_ENDOFWHOIS = 318"
definition RPL_WHOISCHANNELS :: nat where "RPL_WHOISCHANNELS = 319"
definition RPL_CHANNELMODEIS :: nat where "RPL_CHANNELMODEIS = 324"
definition RPL_CREATIONTIME :: nat where "RPL_CREATIONTIME = 329"
definition RPL_NOTOPIC :: nat where "RPL_NOTOPIC = 331"
definition RPL_TOPICWHOTIME :: nat where "RPL_TOPICWHOTIME = 333"
definition RPL_WHOREPLY :: nat where "RPL_WHOREPLY = 352"
definition RPL_MOTDSTART :: nat where "RPL_MOTDSTART = 375"
definition RPL_MOTD :: nat where "RPL_MOTD = 372"
definition RPL_ENDOFMOTD :: nat where "RPL_ENDOFMOTD = 376"
definition ERR_NOSUCHNICK :: nat where "ERR_NOSUCHNICK = 401"
definition ERR_NOSUCHSERVER :: nat where "ERR_NOSUCHSERVER = 402"
definition ERR_NOSUCHCHANNEL :: nat where "ERR_NOSUCHCHANNEL = 403"
definition ERR_CANNOTSENDTOCHAN :: nat where "ERR_CANNOTSENDTOCHAN = 404"
definition ERR_INVALIDCAPCMD :: nat where "ERR_INVALIDCAPCMD = 410"
definition ERR_NORECIPIENT :: nat where "ERR_NORECIPIENT = 411"
definition ERR_NOTEXTTOSEND :: nat where "ERR_NOTEXTTOSEND = 412"
definition ERR_UNKNOWNCOMMAND :: nat where "ERR_UNKNOWNCOMMAND = 421"
definition ERR_NOMOTD :: nat where "ERR_NOMOTD = 422"
definition ERR_NONICKNAMEGIVEN :: nat where "ERR_NONICKNAMEGIVEN = 431"
definition ERR_ERRONEUSNICKNAME :: nat where "ERR_ERRONEUSNICKNAME = 432"
definition ERR_NICKNAMEINUSE :: nat where "ERR_NICKNAMEINUSE = 433"
definition ERR_USERNOTINCHANNEL :: nat where "ERR_USERNOTINCHANNEL = 441"
definition ERR_NOTONCHANNEL :: nat where "ERR_NOTONCHANNEL = 442"
definition ERR_USERONCHANNEL :: nat where "ERR_USERONCHANNEL = 443"
definition ERR_NOTREGISTERED :: nat where "ERR_NOTREGISTERED = 451"
definition ERR_PASSWDMISMATCH :: nat where "ERR_PASSWDMISMATCH = 464"
definition ERR_NEEDMOREPARAMS :: nat where "ERR_NEEDMOREPARAMS = 461"
definition ERR_ALREADYREGISTERED :: nat where "ERR_ALREADYREGISTERED = 462"
definition ERR_TOOMANYCHANNELS :: nat where "ERR_TOOMANYCHANNELS = 405"
definition ERR_CHANNELISFULL :: nat where "ERR_CHANNELISFULL = 471"
definition ERR_UNKNOWNMODE :: nat where "ERR_UNKNOWNMODE = 472"
definition ERR_INVITEONLYCHAN :: nat where "ERR_INVITEONLYCHAN = 473"
definition ERR_BANNEDFROMCHAN :: nat where "ERR_BANNEDFROMCHAN = 474"
definition ERR_BADCHANNELKEY :: nat where "ERR_BADCHANNELKEY = 475"
definition ERR_CHANOPRIVSNEEDED :: nat where "ERR_CHANOPRIVSNEEDED = 482"
definition ERR_UMODEUNKNOWNFLAG :: nat where "ERR_UMODEUNKNOWNFLAG = 501"
definition ERR_USERSDONTMATCH :: nat where "ERR_USERSDONTMATCH = 502"

end
