(* ===== verification/Session.thy ===== *)
theory Session
  imports LinkInv Services Numerics
begin

text \<open>
  A client connection (\<open>ferrixd/src/session.rs\<close>): the registration state of the session, the reply
  helpers every command handler uses, labeled responses, inbound multiline batches, and the completion
  of a registration with its burst. A connection (\<open>conn\<close>) is the shared server, the credentials, and the
  session; a handler is a function on it.
\<close>

subsection \<open>State\<close>

record multiline_batch =
  mb_reference :: string
  mb_target :: string
  mb_is_notice :: bool
  mb_lines :: "(string \<times> bool) list"
  mb_bytes :: nat
  mb_failed :: bool

record session =
  ss_id :: nat
  ss_peer_ip :: string
  ss_cert_fp :: "string option"
  ss_pass :: "string option"
  ss_has_user :: bool
  ss_cap_negotiating :: bool
  ss_cap_version :: nat
  ss_sasl :: sasl_session
  ss_registered :: bool
  ss_isupport_sent :: bool
  ss_quit :: "string option"
  ss_first_command :: bool
  ss_multiline :: "multiline_batch option"
  ss_label :: "string option"
  ss_label_buffer :: "string list option"

record conn =
  cn_server :: server
  cn_auth :: auth
  cn_ses :: session

definition session_new :: "nat \<Rightarrow> string \<Rightarrow> string option \<Rightarrow> session" where
  "session_new i peer_ip cert_fp =
     \<lparr>ss_id = i, ss_peer_ip = peer_ip, ss_cert_fp = cert_fp, ss_pass = None, ss_has_user = False,
      ss_cap_negotiating = False, ss_cap_version = 0, ss_sasl = sasl_default, ss_registered = False,
      ss_isupport_sent = False, ss_quit = None, ss_first_command = False, ss_multiline = None,
      ss_label = None, ss_label_buffer = None\<rparr>"

definition upd_srv :: "(server \<Rightarrow> server) \<Rightarrow> conn \<Rightarrow> conn" where
  "upd_srv f c = c\<lparr>cn_server := f (cn_server c)\<rparr>"

definition upd_ses :: "(session \<Rightarrow> session) \<Rightarrow> conn \<Rightarrow> conn" where
  "upd_ses f c = c\<lparr>cn_ses := f (cn_ses c)\<rparr>"

definition my_id :: "conn \<Rightarrow> nat" where
  "my_id c = ss_id (cn_ses c)"

definition my_entry :: "conn \<Rightarrow> client_entry" where
  "my_entry c = entries (cn_server c) (my_id c)"

definition my_data :: "conn \<Rightarrow> client_data" where
  "my_data c = ce_data (my_entry c)"

definition upd_me :: "(client_data \<Rightarrow> client_data) \<Rightarrow> conn \<Rightarrow> conn" where
  "upd_me f c = upd_srv (upd_client_data (my_id c) f) c"

definition my_caps :: "conn \<Rightarrow> capset" where
  "my_caps c = entry_caps (my_entry c)"

definition fold_c :: "conn \<Rightarrow> string \<Rightarrow> string" where
  "fold_c c name = fold_key (cn_server c) name"

subsection \<open>Replies\<close>

definition emit :: "string \<Rightarrow> conn \<Rightarrow> conn" where
  "emit bytes c =
     (case ss_label_buffer (cn_ses c) of
        Some buffer \<Rightarrow> upd_ses (\<lambda>s. s\<lparr>ss_label_buffer := Some (buffer @ [bytes])\<rparr>) c
      | None \<Rightarrow> upd_srv (send_client bytes (my_id c)) c)"

definition deliver_self :: "event \<Rightarrow> conn \<Rightarrow> conn" where
  "deliver_self e c = emit (render_for e (my_caps c)) c"

definition my_account :: "conn \<Rightarrow> string option" where
  "my_account c = cd_account (my_data c)"

definition now_time :: "conn \<Rightarrow> string" where
  "now_time c = format_server_time (now_millis (cn_server c))"

definition server_name :: "conn \<Rightarrow> string" where
  "server_name c = si_name (info (cn_server c))"

definition my_nick :: "conn \<Rightarrow> string" where
  "my_nick c = entry_nick (my_entry c)"

definition nick_or_star :: "conn \<Rightarrow> string" where
  "nick_or_star c = (if my_nick c = [] then ''*'' else my_nick c)"

definition has_nick :: "conn \<Rightarrow> bool" where
  "has_nick c \<longleftrightarrow> my_nick c \<noteq> ''*''"

definition send_to_me :: "line \<Rightarrow> conn \<Rightarrow> conn" where
  "send_to_me l c = emit (line_build l) c"

definition send_bytes :: "string \<Rightarrow> conn \<Rightarrow> conn" where
  "send_bytes bytes c = emit bytes c"

definition numeric :: "nat \<Rightarrow> string list \<Rightarrow> string option \<Rightarrow> conn \<Rightarrow> conn" where
  "numeric code params trailing c =
     (let l = foldl line_param (line_param (line_code (line_server (server_name c)) code) (nick_or_star c)) params
      in send_to_me (case trailing of Some text \<Rightarrow> line_trailing l text | None \<Rightarrow> l) c)"

definition notice :: "string \<Rightarrow> conn \<Rightarrow> conn" where
  "notice text c =
     send_to_me (line_trailing (line_param (line_command (line_server (server_name c)) ''NOTICE'') (nick_or_star c)) text) c"

definition standard_reply :: "string \<Rightarrow> string \<Rightarrow> string \<Rightarrow> string list \<Rightarrow> string \<Rightarrow> conn \<Rightarrow> conn" where
  "standard_reply kind command code ctx text c =
     (if has (my_caps c) StandardReplies
      then send_to_me (line_trailing (foldl line_param (line_param (line_param
             (line_command (line_server (server_name c)) kind) command) code) ctx) text) c
      else notice (command @ [SP] @ code @ '': '' @ text) c)"

definition fail_reply :: "string \<Rightarrow> string \<Rightarrow> string list \<Rightarrow> string \<Rightarrow> conn \<Rightarrow> conn" where
  "fail_reply command code ctx text c = standard_reply ''FAIL'' command code ctx text c"

definition note_reply :: "string \<Rightarrow> string \<Rightarrow> string list \<Rightarrow> string \<Rightarrow> conn \<Rightarrow> conn" where
  "note_reply command code ctx text c = standard_reply ''NOTE'' command code ctx text c"

definition need_more_params :: "string \<Rightarrow> conn \<Rightarrow> conn" where
  "need_more_params command c = numeric ERR_NEEDMOREPARAMS [command] (Some ''Not enough parameters'') c"

definition require_oper :: "conn \<Rightarrow> bool \<times> conn" where
  "require_oper c =
     (if cd_oper (my_data c) then (True, c)
      else (False, numeric ERR_NOPRIVILEGES [] (Some ''Permission Denied- You're not an IRC operator'') c))"

definition sts_token :: "conn \<Rightarrow> string option" where
  "sts_token c =
     map_option (\<lambda>policy.
       if cd_secure (my_data c)
       then ''sts=duration='' @ dec (sts_duration policy) @ (if sts_preload policy then '',preload'' else [])
       else ''sts=port='' @ dec (sts_port policy)) (au_sts (cn_auth c))"

definition apply_cloak :: "conn \<Rightarrow> conn" where
  "apply_cloak c =
     (case si_cloak_key (info (cn_server c)) of
        None \<Rightarrow> c
      | Some key \<Rightarrow>
          upd_me (\<lambda>d. d\<lparr>cd_host :=
            (case cd_account d of
               Some account \<Rightarrow> account @ ''.'' @ si_network (info (cn_server c))
             | None \<Rightarrow> cloak_ip (au_crypto (cn_auth c)) key (cd_real_ip d) (si_network (info (cn_server c))))\<rparr>) c)"

subsection \<open>Multiline batches\<close>

definition try_multiline_accumulate :: "message \<Rightarrow> conn \<Rightarrow> bool \<times> conn" where
  "try_multiline_accumulate msg c =
     (case Option.bind (message_tag msg ''batch'') id of
        None \<Rightarrow> (False, c)
      | Some batch \<Rightarrow>
          (case ss_multiline (cn_ses c) of
             None \<Rightarrow> (False, c)
           | Some ml \<Rightarrow>
               if mb_reference ml \<noteq> batch then (False, c)
               else
                 (case mcommand msg of
                    Numeric _ \<Rightarrow> (False, c)
                  | Named name \<Rightarrow>
                      (let is_notice = eq_ignore_ascii_case name ''NOTICE''
                       in if \<not> is_notice \<and> \<not> eq_ignore_ascii_case name ''PRIVMSG'' then (False, c)
                          else if mb_failed ml then (True, c)
                          else
                            (case mparams msg of
                               _ # text # _ \<Rightarrow>
                                 (let ml = (if mb_lines ml = [] then ml\<lparr>mb_is_notice := is_notice\<rparr> else ml);
                                      cat = (message_tag msg ''draft/multiline-concat'' \<noteq> None);
                                      over_lines = (MULTILINE_MAX_LINES \<le> length (mb_lines ml));
                                      over_bytes = (MULTILINE_MAX_BYTES < mb_bytes ml + length text)
                                  in if over_lines \<or> over_bytes then
                                       (let c = upd_ses (\<lambda>s. s\<lparr>ss_multiline := Some (ml\<lparr>mb_failed := True\<rparr>)\<rparr>) c;
                                            (code, limit) = (if over_lines then (''MULTILINE_MAX_LINES'', MULTILINE_MAX_LINES)
                                                             else (''MULTILINE_MAX_BYTES'', MULTILINE_MAX_BYTES))
                                        in (True, fail_reply ''BATCH'' code [dec limit] ''Multiline batch is too large'' c))
                                     else
                                       (True, upd_ses (\<lambda>s. s\<lparr>ss_multiline := Some (ml\<lparr>mb_bytes := mb_bytes ml + length text,
                                          mb_lines := mb_lines ml @ [(text, cat)]\<rparr>)\<rparr>) c))
                             | _ \<Rightarrow> (True, c))))))"

subsection \<open>Labeled responses\<close>

definition begin_label :: "message \<Rightarrow> conn \<Rightarrow> conn" where
  "begin_label msg c =
     (if \<not> has (my_caps c) LabeledResponse then c
      else case Option.bind (message_tag msg ''label'') id of
             Some label \<Rightarrow> upd_ses (\<lambda>s. s\<lparr>ss_label := Some label, ss_label_buffer := Some []\<rparr>) c
           | None \<Rightarrow> c)"

definition prepend_tag :: "string \<Rightarrow> string \<Rightarrow> string" where
  "prepend_tag line tag =
     ''@'' @ tag @ (case line of ch # rest \<Rightarrow> if ch = CHR ''@'' then '';'' @ rest else [SP] @ line | [] \<Rightarrow> [SP] @ line)"

text \<open>\<open>split_once(' ').map_or("", |(_, r)| r)\<close>\<close>

definition after_space :: "string \<Rightarrow> string" where
  "after_space s = tl (dropWhile (\<lambda>x. x \<noteq> SP) s)"

definition opens_batch :: "string \<Rightarrow> bool" where
  "opens_batch line \<longleftrightarrow>
     utf8_valid line
     \<and> (let rest = (case strip_prefix ''@'' line of Some tagged \<Rightarrow> after_space tagged | None \<Rightarrow> line);
            rest = (case strip_prefix '':'' rest of Some prefixed \<Rightarrow> after_space prefixed | None \<Rightarrow> rest)
        in case split_on SP rest of
             verb # word # _ \<Rightarrow> verb = ''BATCH'' \<and> strip_prefix ''+'' word \<noteq> None
           | _ \<Rightarrow> False)"

definition send_all :: "string list \<Rightarrow> conn \<Rightarrow> conn" where
  "send_all bs c = upd_srv (fold (\<lambda>b. send_client b (my_id c)) bs) c"

text \<open>The lines a labeled command is answered with, from the replies it produced.\<close>

definition batch_open :: "string \<Rightarrow> string \<Rightarrow> string" where
  "batch_open name reference =
     line_build (line_param (line_param (line_command (line_server name) ''BATCH'') (''+'' @ reference)) ''labeled-response'')"

definition batch_close :: "string \<Rightarrow> string \<Rightarrow> string" where
  "batch_close name reference = line_build (line_param (line_command (line_server name) ''BATCH'') (''-'' @ reference))"

definition label_lines :: "string \<Rightarrow> string \<Rightarrow> string \<Rightarrow> string list \<Rightarrow> string list" where
  "label_lines name reference label_tag buffer =
     (case buffer of
        [] \<Rightarrow> [prepend_tag (line_build (line_command (line_server name) ''ACK'')) label_tag]
      | [b] \<Rightarrow> [prepend_tag b label_tag]
      | b # bs \<Rightarrow>
          if opens_batch b then prepend_tag b label_tag # bs
          else prepend_tag (batch_open name reference) label_tag
               # map (\<lambda>l. prepend_tag l (''batch='' @ reference)) buffer @ [batch_close name reference])"

definition end_label :: "conn \<Rightarrow> conn" where
  "end_label c =
     (case ss_label (cn_ses c) of
        None \<Rightarrow> c
      | Some label \<Rightarrow>
          (let c = upd_ses (\<lambda>s. s\<lparr>ss_label := None\<rparr>) c
           in case ss_label_buffer (cn_ses c) of
                None \<Rightarrow> c
              | Some buffer \<Rightarrow>
                  (let c = upd_ses (\<lambda>s. s\<lparr>ss_label_buffer := None\<rparr>) c;
                       label_tag = ''label='' @ label
                   in case buffer of
                        b # b' # bs \<Rightarrow>
                          if opens_batch b then send_all (label_lines (server_name c) [] label_tag buffer) c
                          else
                            (let (reference, s) = server_next_msgid (cn_server c); c = c\<lparr>cn_server := s\<rparr>
                             in send_all (label_lines (server_name c) reference label_tag buffer) c)
                      | _ \<Rightarrow> send_all (label_lines (server_name c) [] label_tag buffer) c)))"

subsection \<open>Registration\<close>

definition MAX_MODE_CHANGES :: nat where "MAX_MODE_CHANGES = 6"
definition MAX_TOPIC_LEN :: nat where "MAX_TOPIC_LEN = 390"
definition MAX_KICK_LEN :: nat where "MAX_KICK_LEN = 300"
definition MAX_AWAY_LEN :: nat where "MAX_AWAY_LEN = 200"
definition BOT_UMODE :: rchar where "BOT_UMODE = ''B''"
definition MAX_SILENCE_ENTRIES :: nat where "MAX_SILENCE_ENTRIES = 32"

definition isupport_tokens :: "server_info \<Rightarrow> string list" where
  "isupport_tokens i =
     [''CHANTYPES=#'', ''CHANMODES=beI,k,l,'' @ bool_mode_letters, ''PREFIX=(ov)@+'', ''MODES='' @ dec MAX_MODE_CHANGES,
      ''EXCEPTS=e'', ''INVEX=I'', ''EXTBAN=~,a'', ''MAXLIST=b:100,e:100,I:100'', ''MONITOR=100'', ''WATCH=100'',
      ''SILENCE='' @ dec MAX_SILENCE_ENTRIES, ''WHOX'', ''NICKLEN=30'', ''CHANNELLEN=50'', ''TOPICLEN='' @ dec MAX_TOPIC_LEN,
      ''KICKLEN='' @ dec MAX_KICK_LEN, ''AWAYLEN='' @ dec MAX_AWAY_LEN, ''CHANLIMIT=#:'' @ dec (si_max_channels i),
      ''MAXCHANNELS='' @ dec (si_max_channels i), ''CHATHISTORY=100'', ''MSGREFTYPES=timestamp,msgid'',
      ''TARGMAX=PRIVMSG:1,NOTICE:1'', ''SAFELIST'', ''ELIST=CMNTU'', ''KNOCK'', ''STATUSMSG=@+'', ''UTF8ONLY'',
      ''BOT='' @ BOT_UMODE, ''CASEMAPPING='' @ isupport_token (si_casemapping i), ''NETWORK='' @ si_network i]
     @ (case si_icon i of Some icon \<Rightarrow> [''draft/ICON='' @ icon] | None \<Rightarrow> [])"

definition send_isupport :: "conn \<Rightarrow> conn" where
  "send_isupport c =
     fold (\<lambda>chunk. numeric RPL_ISUPPORT chunk (Some ''are supported by this server''))
       (chunks 13 (isupport_tokens (info (cn_server c)))) c"

definition client_count :: "server \<Rightarrow> nat" where "client_count s = length (clients s)"
definition channel_count :: "server \<Rightarrow> nat" where "channel_count s = length (channels s)"
definition remote_user_count :: "server \<Rightarrow> nat" where "remote_user_count s = length (remote_users s)"
definition link_count :: "server \<Rightarrow> nat" where "link_count s = length (links s)"
definition remote_server_count :: "server \<Rightarrow> nat" where "remote_server_count s = length (remote_servers s)"

definition send_lusers :: "conn \<Rightarrow> conn" where
  "send_lusers c0 =
     (let s = cn_server c0;
          users = client_count s; invisible = invisible_count s; visible = users - invisible; lnks = link_count s;
          servers = 1 + lnks + remote_server_count s; global = users + remote_user_count s;
          c = numeric RPL_LUSERCLIENT [] (Some (''There are '' @ dec visible @ '' users and '' @ dec invisible
                @ '' invisible on '' @ dec servers @ '' servers'')) c0;
          opers = oper_count s;
          c = (if opers > 0 then numeric RPL_LUSEROP [dec opers] (Some ''operator(s) online'') c else c);
          unknown = unknown_count s;
          c = (if unknown > 0 then numeric RPL_LUSERUNKNOWN [dec unknown] (Some ''unknown connection(s)'') c else c);
          c = numeric RPL_LUSERCHANNELS [dec (channel_count s)] (Some ''channels formed'') c;
          c = numeric RPL_LUSERME [] (Some (''I have '' @ dec users @ '' clients and '' @ dec lnks @ '' servers'')) c;
          c = numeric RPL_LOCALUSERS [dec users, dec users]
                (Some (''Current local users '' @ dec users @ '', max '' @ dec users)) c
      in numeric RPL_GLOBALUSERS [dec global, dec global]
           (Some (''Current global users '' @ dec global @ '', max '' @ dec global)) c)"

definition send_motd :: "conn \<Rightarrow> conn" where
  "send_motd c =
     (if au_motd (cn_auth c) = [] then numeric ERR_NOMOTD [] (Some ''MOTD File is missing'') c
      else
        (let c = numeric RPL_MOTDSTART [] (Some (''- '' @ server_name c @ '' Message of the day -'')) c;
             c = fold (\<lambda>line. numeric RPL_MOTD [] (Some (''- '' @ line))) (au_motd (cn_auth c)) c
         in numeric RPL_ENDOFMOTD [] (Some ''End of /MOTD command.'') c))"

text \<open>An observe-only hook: the queued actions are carried out, the answer is ignored.\<close>

definition observe :: "(plugin_host \<Rightarrow> plugin_outcome) \<Rightarrow> conn \<Rightarrow> conn" where
  "observe hook c =
     (case plugins (cn_server c) of
        Some host \<Rightarrow> upd_srv (apply_plugin_actions (po_actions (hook host))) c
      | None \<Rightarrow> c)"

definition welcome_burst :: "conn \<Rightarrow> conn" where
  "welcome_burst c =
     (let i = info (cn_server c); nick = nick_or_star c;
          c = numeric RPL_WELCOME [] (Some (''Welcome to the '' @ si_network i @ '' Network, ''
                @ mask_of nick (cd_user (my_data c)) (cd_host (my_data c)))) c;
          c = numeric RPL_YOURHOST [] (Some (''Your host is '' @ si_name i @ '', running version '' @ si_version i)) c;
          c = numeric RPL_CREATED [] (Some (''This server was created '' @ si_created i)) c;
          c = numeric RPL_MYINFO [si_name i, si_version i, ''iow'' @ BOT_UMODE, bool_mode_letters @ ''kl''] None c;
          c = (if ss_isupport_sent (cn_ses c) then c
               else upd_ses (\<lambda>s. s\<lparr>ss_isupport_sent := True\<rparr>) (send_isupport c));
          c = send_lusers c
      in send_motd c)"

definition complete_registration :: "conn \<Rightarrow> conn" where
  "complete_registration c =
     (if \<not> client_password_ok (cn_auth c) (ss_pass (cn_ses c)) then
        upd_ses (\<lambda>s. s\<lparr>ss_quit := Some ''Bad password''\<rparr>) (numeric ERR_PASSWDMISMATCH [] (Some ''Password incorrect'') c)
      else case matches_kline (cn_server c) (real_hostmask (my_entry c)) of
             Some reason \<Rightarrow> upd_ses (\<lambda>s. s\<lparr>ss_quit := Some (''K-Lined: '' @ reason)\<rparr>) c
           | None \<Rightarrow>
               (let c = apply_cloak c;
                    c = upd_me (\<lambda>d. d\<lparr>cd_registered := True\<rparr>) (upd_ses (\<lambda>s. s\<lparr>ss_registered := True\<rparr>) c);
                    nick = nick_or_star c; d = my_data c;
                    c = welcome_burst c;
                    c = upd_srv (introduce_local (my_id c)) c;
                    c = upd_srv (monitor_online (my_nick c) (entry_hostmask (my_entry c))) c
                in observe (\<lambda>host. ph_on_connect host nick (cd_user d) (cd_host d) (my_account c)) c))"

definition maybe_register :: "conn \<Rightarrow> conn" where
  "maybe_register c =
     (if ss_registered (cn_ses c) \<or> ss_cap_negotiating (cn_ses c) \<or> \<not> ss_has_user (cn_ses c) \<or> \<not> has_nick c then c
      else complete_registration c)"


subsection \<open>Frames\<close>

text \<open>What a handler leaves alone is a relation between the state before and after it. Every such relation
  is a preorder, which is all that is needed to carry it through sequences and loops.\<close>

locale step_frame =
  fixes R :: "'s \<Rightarrow> 's \<Rightarrow> bool"
  assumes frame_refl: "R s s" and frame_trans: "R s t \<Longrightarrow> R t u \<Longrightarrow> R s u"
begin

lemma frame_fold:
  assumes "\<And>x s. R s (f x s)"
  shows "R s (fold f xs s)"
proof (induction xs arbitrary: s)
  case (Cons x xs)
  then show ?case using frame_trans [OF assms [of s x] Cons.IH [of "f x s"]] by simp
qed (simp add: frame_refl)

lemma frame_fold_snd:
  assumes "\<And>x a s. R s (snd (f x (a, s)))"
  shows "R (snd st) (snd (fold f xs st))"
proof (induction xs arbitrary: st)
  case (Cons x xs)
  obtain a s where st: "st = (a, s)" by fastforce
  then show ?case using frame_trans [OF assms [of s x a] Cons.IH [of "f x (a, s)"]] by simp
qed (simp add: frame_refl)

lemma frame_after_fold: "R s t \<Longrightarrow> (\<And>x s. R s (f x s)) \<Longrightarrow> R s (fold f xs t)"
  by (rule frame_trans [OF _ frame_fold])

end

text \<open>\<open>hush c d\<close>: \<open>d\<close> differs from \<open>c\<close> in output only.\<close>

definition hush :: "conn \<Rightarrow> conn \<Rightarrow> bool" where
  "hush c d \<longleftrightarrow> quiet (cn_server c) (cn_server d) \<and> cn_auth d = cn_auth c
     \<and> cn_ses d = (cn_ses c)\<lparr>ss_label_buffer := ss_label_buffer (cn_ses d)\<rparr>
     \<and> (ss_label_buffer (cn_ses d) = None \<longleftrightarrow> ss_label_buffer (cn_ses c) = None)"

interpretation hush: step_frame hush
proof
  show "hush s s" for s by (simp add: hush_def)
  show "hush s t \<Longrightarrow> hush t u \<Longrightarrow> hush s u" for s t u
    unfolding hush_def by (auto intro: quiet_trans)
qed

declare hush.frame_refl [simp]

lemma hush_fields:
  assumes "hush c d"
  shows "quiet (cn_server c) (cn_server d)" "cn_auth d = cn_auth c" "my_id d = my_id c" "my_data d = my_data c"
    "my_caps d = my_caps c" "my_nick d = my_nick c" "my_account d = my_account c" "server_name d = server_name c"
    "ss_registered (cn_ses d) = ss_registered (cn_ses c)" "ss_quit (cn_ses d) = ss_quit (cn_ses c)"
    "ss_multiline (cn_ses d) = ss_multiline (cn_ses c)" "ss_sasl (cn_ses d) = ss_sasl (cn_ses c)"
    "ss_label (cn_ses d) = ss_label (cn_ses c)" "fold_c d = fold_c c" "ss_id (cn_ses d) = ss_id (cn_ses c)"
    "ss_isupport_sent (cn_ses d) = ss_isupport_sent (cn_ses c)" "ss_cap_negotiating (cn_ses d) = ss_cap_negotiating (cn_ses c)"
    "ss_has_user (cn_ses d) = ss_has_user (cn_ses c)" "ss_pass (cn_ses d) = ss_pass (cn_ses c)"
    "ss_first_command (cn_ses d) = ss_first_command (cn_ses c)" "ss_cert_fp (cn_ses d) = ss_cert_fp (cn_ses c)"
    "ss_peer_ip (cn_ses d) = ss_peer_ip (cn_ses c)" "ss_cap_version (cn_ses d) = ss_cap_version (cn_ses c)"
proof -
  have s: "cn_ses d = (cn_ses c)\<lparr>ss_label_buffer := ss_label_buffer (cn_ses d)\<rparr>"
    and q: "quiet (cn_server c) (cn_server d)" using assms by (simp_all add: hush_def)
  show "quiet (cn_server c) (cn_server d)" by (rule q)
  show "cn_auth d = cn_auth c" using assms by (simp add: hush_def)
  show f: "ss_id (cn_ses d) = ss_id (cn_ses c)" by (subst s) simp
  show "ss_registered (cn_ses d) = ss_registered (cn_ses c)" "ss_quit (cn_ses d) = ss_quit (cn_ses c)"
    "ss_multiline (cn_ses d) = ss_multiline (cn_ses c)" "ss_sasl (cn_ses d) = ss_sasl (cn_ses c)"
    "ss_label (cn_ses d) = ss_label (cn_ses c)" "ss_isupport_sent (cn_ses d) = ss_isupport_sent (cn_ses c)"
    "ss_cap_negotiating (cn_ses d) = ss_cap_negotiating (cn_ses c)" "ss_has_user (cn_ses d) = ss_has_user (cn_ses c)"
    "ss_pass (cn_ses d) = ss_pass (cn_ses c)" "ss_first_command (cn_ses d) = ss_first_command (cn_ses c)"
    "ss_cert_fp (cn_ses d) = ss_cert_fp (cn_ses c)" "ss_peer_ip (cn_ses d) = ss_peer_ip (cn_ses c)"
    "ss_cap_version (cn_ses d) = ss_cap_version (cn_ses c)" by (subst s; simp)+
  show i: "my_id d = my_id c" using f by (simp add: my_id_def)
  show dt: "my_data d = my_data c" using quiet_fields(23) [OF q] i by (simp add: my_data_def my_entry_def)
  show "my_caps d = my_caps c" using quiet_fields(24) [OF q] i by (simp add: my_caps_def entry_caps_def my_entry_def)
  show "my_nick d = my_nick c" "my_account d = my_account c"
    using dt by (simp_all add: my_nick_def entry_nick_def my_account_def my_data_def)
  show "server_name d = server_name c" "fold_c d = fold_c c"
    using quiet_fields(1) [OF q] by (simp_all add: server_name_def fun_eq_iff fold_c_def fold_key_def)
qed

text \<open>Every reply keeps the frame.\<close>

named_theorems hushed \<open>operations that only produce output\<close>

lemma hush_upd_srv: "quiet (cn_server d) (f (cn_server d)) \<Longrightarrow> hush c d \<Longrightarrow> hush c (upd_srv f d)"
  unfolding hush_def upd_srv_def by (auto intro: quiet_trans)

lemma hush_emit [hushed]: "hush c d \<Longrightarrow> hush c (emit bytes d)"
  unfolding emit_def by (auto simp: hush_def upd_srv_def upd_ses_def intro: quiet_trans quiet_send_client split: option.split)

lemma hush_replies [hushed]:
  assumes "hush c d"
  shows "hush c (deliver_self e d)" "hush c (send_to_me l d)" "hush c (send_bytes b d)" "hush c (numeric n ps t d)"
    "hush c (notice x d)" "hush c (standard_reply k1 k2 k3 k4 x d)" "hush c (fail_reply k2 k3 k4 x d)"
    "hush c (note_reply k2 k3 k4 x d)" "hush c (need_more_params k2 d)"
  by (simp_all add: deliver_self_def send_to_me_def send_bytes_def numeric_def notice_def standard_reply_def
    fail_reply_def note_reply_def need_more_params_def Let_def hush_emit assms)

lemma hush_send_isupport [hushed]: "hush c d \<Longrightarrow> hush c (send_isupport d)"
  unfolding send_isupport_def by (rule hush.frame_after_fold) (simp_all add: hushed)

lemma hush_send_lusers [hushed]: "hush c d \<Longrightarrow> hush c (send_lusers d)"
  by (simp add: send_lusers_def Let_def hushed)

lemma hush_send_motd [hushed]: "hush c d \<Longrightarrow> hush c (send_motd d)"
  by (simp add: send_motd_def Let_def hushed hush.frame_after_fold)

lemma hush_require_oper: "hush c (snd (require_oper c))" "fst (require_oper c) \<longleftrightarrow> cd_oper (my_data c)"
  "fst (require_oper c) \<Longrightarrow> snd (require_oper c) = c"
  by (simp_all add: require_oper_def hushed split: if_splits)


subsection \<open>Who gets registered\<close>

lemma upd_simps [simp]:
  "cn_server (upd_srv f c) = f (cn_server c)" "cn_auth (upd_srv f c) = cn_auth c" "cn_ses (upd_srv f c) = cn_ses c"
  "cn_server (upd_ses g c) = cn_server c" "cn_auth (upd_ses g c) = cn_auth c" "cn_ses (upd_ses g c) = g (cn_ses c)"
  "cn_auth (upd_me h c) = cn_auth c" "cn_ses (upd_me h c) = cn_ses c" "my_id (upd_srv f c) = my_id c" "my_id (upd_me h c) = my_id c"
  by (simp_all add: upd_srv_def upd_ses_def upd_me_def my_id_def)

lemma my_id_upd_ses [simp]: "ss_id (f (cn_ses c)) = ss_id (cn_ses c) \<Longrightarrow> my_id (upd_ses f c) = my_id c"
  by (simp add: my_id_def)

lemma apply_cloak_fields [simp]: "cn_ses (apply_cloak c) = cn_ses c" "cn_auth (apply_cloak c) = cn_auth c"
  by (simp_all add: apply_cloak_def split: option.split)

lemma observe_fields [simp]: "cn_ses (observe hook c) = cn_ses c" "cn_auth (observe hook c) = cn_auth c"
  by (simp_all add: observe_def split: option.split)

lemmas reply_fields [simp] =
  hush_fields(2-) [OF hush_replies(1) [OF hush.frame_refl]] hush_fields(2-) [OF hush_replies(2) [OF hush.frame_refl]]
  hush_fields(2-) [OF hush_replies(3) [OF hush.frame_refl]] hush_fields(2-) [OF hush_replies(4) [OF hush.frame_refl]]
  hush_fields(2-) [OF hush_replies(5) [OF hush.frame_refl]] hush_fields(2-) [OF hush_replies(6) [OF hush.frame_refl]]
  hush_fields(2-) [OF hush_replies(7) [OF hush.frame_refl]] hush_fields(2-) [OF hush_replies(8) [OF hush.frame_refl]]
  hush_fields(2-) [OF hush_replies(9) [OF hush.frame_refl]] hush_fields(2-) [OF hush_send_isupport [OF hush.frame_refl]]
  hush_fields(2-) [OF hush_send_lusers [OF hush.frame_refl]] hush_fields(2-) [OF hush_send_motd [OF hush.frame_refl]]

lemma welcome_burst_fields [simp]:
  "ss_registered (cn_ses (welcome_burst c)) = ss_registered (cn_ses c)" "ss_quit (cn_ses (welcome_burst c)) = ss_quit (cn_ses c)"
  "my_id (welcome_burst c) = my_id c"
  by (simp_all add: welcome_burst_def Let_def my_id_def del: append.simps)

definition demo_conn :: conn where
  "demo_conn = \<lparr>cn_server = demo_server, cn_auth = demo_auth, cn_ses = session_new 1 ''9.9.9.9'' None\<rparr>"

text \<open>C20: the gate of registration. A session becomes registered exactly when negotiation is over, a user
  name and a nickname were accepted, the connection password (when one is set) was given and no server ban
  matches the real address; when only the password or a ban stands in the way, the connection is closed.\<close>

theorem registration_gate:
  "(ss_registered (cn_ses (maybe_register c)) \<longleftrightarrow>
     ss_registered (cn_ses c)
     \<or> \<not> ss_cap_negotiating (cn_ses c) \<and> ss_has_user (cn_ses c) \<and> my_nick c \<noteq> ''*''
       \<and> client_password_ok (cn_auth c) (ss_pass (cn_ses c))
       \<and> matches_kline (cn_server c) (real_hostmask (my_entry c)) = None)
   \<and> ss_quit (cn_ses (maybe_register c)) =
       (if ss_registered (cn_ses (maybe_register c)) \<or> ss_cap_negotiating (cn_ses c) \<or> \<not> ss_has_user (cn_ses c) \<or> my_nick c = ''*''
        then ss_quit (cn_ses c)
        else if client_password_ok (cn_auth c) (ss_pass (cn_ses c))
        then Some (''K-Lined: '' @ the (matches_kline (cn_server c) (real_hostmask (my_entry c))))
        else Some ''Bad password'')"
  by (auto simp: maybe_register_def complete_registration_def has_nick_def Let_def split: option.split)

theorem registration_gate_witness:
  "let c = upd_me (\<lambda>d. d\<lparr>cd_nick := ''nick''\<rparr>) (upd_ses (\<lambda>s. s\<lparr>ss_has_user := True, ss_pass := Some ''pw''\<rparr>) demo_conn)
   in ss_registered (cn_ses (maybe_register (c\<lparr>cn_auth := demo_auth\<lparr>au_client_password := Some ''pw''\<rparr>\<rparr>)))
      \<and> ss_quit (cn_ses (maybe_register (c\<lparr>cn_auth := demo_auth\<lparr>au_client_password := Some ''other''\<rparr>\<rparr>))) = Some ''Bad password''"
proof -
  define c where "c = upd_me (\<lambda>d. d\<lparr>cd_nick := ''nick''\<rparr>) (upd_ses (\<lambda>s. s\<lparr>ss_has_user := True, ss_pass := Some ''pw''\<rparr>) demo_conn)"
  have c: "\<not> ss_registered (cn_ses c)" "\<not> ss_cap_negotiating (cn_ses c)" "ss_has_user (cn_ses c)" "ss_pass (cn_ses c) = Some ''pw''"
    "my_nick (c\<lparr>cn_auth := a\<rparr>) = ''nick''" "matches_kline (cn_server c) m = None" for a m
    by (simp_all add: c_def demo_conn_def session_new_def my_nick_def entry_nick_def my_entry_def my_id_def upd_me_def
      upd_client_data_def upd_client_def upd_srv_def matches_kline_def demo_server_def server_new_def)
  show ?thesis
    using registration_gate [of "c\<lparr>cn_auth := demo_auth\<lparr>au_client_password := Some ''pw''\<rparr>\<rparr>"]
      registration_gate [of "c\<lparr>cn_auth := demo_auth\<lparr>au_client_password := Some ''other''\<rparr>\<rparr>"]
    unfolding Let_def c_def [symmetric] by (simp add: c client_password_ok_def)
qed


subsection \<open>Multiline batches stay bounded\<close>

definition batch_ok :: "multiline_batch \<Rightarrow> bool" where
  "batch_ok ml \<longleftrightarrow> length (mb_lines ml) \<le> MULTILINE_MAX_LINES \<and> mb_bytes ml \<le> MULTILINE_MAX_BYTES
     \<and> mb_bytes ml = sum_list (map (length \<circ> fst) (mb_lines ml))"

text \<open>C24: an inbound batch never outgrows its advertised limits. However many messages a client tags for an
  open batch, the batch holds at most 100 lines and 4096 octets, its octet count is the total length of its
  lines, and each message adds at most its own text at the end.\<close>

theorem multiline_bounded:
  assumes "ss_multiline (cn_ses c) = Some ml" "batch_ok ml"
  shows "\<exists>ml'. ss_multiline (cn_ses (snd (try_multiline_accumulate msg c))) = Some ml' \<and> batch_ok ml'
    \<and> (mb_lines ml' = mb_lines ml \<or> (\<exists>text cat. text = mparams msg ! 1 \<and> mb_lines ml' = mb_lines ml @ [(text, cat)]))"
proof -
  let ?c' = "snd (try_multiline_accumulate msg c)"
  have "ss_multiline (cn_ses ?c') = Some ml \<or> (\<exists>ml'. ss_multiline (cn_ses ?c') = Some ml' \<and> mb_lines ml' = mb_lines ml \<and> mb_bytes ml' = mb_bytes ml)
    \<or> (\<exists>ml' text cat. ss_multiline (cn_ses ?c') = Some ml' \<and> text = mparams msg ! 1 \<and> mb_lines ml' = mb_lines ml @ [(text, cat)]
        \<and> mb_bytes ml' = mb_bytes ml + length text \<and> length (mb_lines ml) < MULTILINE_MAX_LINES \<and> mb_bytes ml + length text \<le> MULTILINE_MAX_BYTES)"
    using assms(1)
    by (auto simp: try_multiline_accumulate_def Let_def not_le not_less split: option.split command.split list.split)
  then show ?thesis using assms(2) by (fastforce simp: batch_ok_def)
qed

theorem multiline_bounded_witness:
  "\<exists>ml'. ss_multiline (cn_ses (snd (try_multiline_accumulate
      \<lparr>mtags = [\<lparr>tkey = ''batch'', tvalue = Some ''r''\<rparr>], msource = None, mcommand = Named ''PRIVMSG'', mparams = [''#a'', ''hello'']\<rparr>
      (upd_ses (\<lambda>s. s\<lparr>ss_multiline := Some \<lparr>mb_reference = ''r'', mb_target = ''#a'', mb_is_notice = False, mb_lines = [],
        mb_bytes = 0, mb_failed = False\<rparr>\<rparr>) demo_conn)))) = Some ml' \<and> batch_ok ml'"
  using multiline_bounded [of "upd_ses (\<lambda>s. s\<lparr>ss_multiline := Some \<lparr>mb_reference = ''r'', mb_target = ''#a'', mb_is_notice = False,
        mb_lines = [], mb_bytes = 0, mb_failed = False\<rparr>\<rparr>) demo_conn"]
  by (fastforce simp: batch_ok_def)

end
