(* ===== verification/Clients.thy ===== *)
theory Clients
  imports Session
begin

text \<open>
  Local clients in the shared state (\<open>ferrixd/src/state.rs\<close>): claiming and releasing nicknames, and the
  teardown of a departing client. The invariant \<open>client_ok\<close> ties the nickname registry, the index by id, the
  clients' own records and the watch lists together; \<open>safe\<close> is the frame of the operations that keep it
  and the network invariant.
\<close>

subsection \<open>Operations\<close>

definition claim_nick :: "string \<Rightarrow> nat \<Rightarrow> server \<Rightarrow> bool \<times> server" where
  "claim_nick folded i s =
     (if get (remote_users s) folded \<noteq> None then (False, s)
      else case get (clients s) folded of
             Some j \<Rightarrow> (j = i, s)
           | None \<Rightarrow> (True, s\<lparr>clients := put folded i (clients s), by_id := hs_insert i (by_id s)\<rparr>))"

definition release_nick :: "string \<Rightarrow> server \<Rightarrow> server" where
  "release_nick folded s = s\<lparr>clients := del folded (clients s)\<rparr>"

text \<open>One channel of a departing client: removed, the other members told once, the quit recorded.\<close>

definition leave_channel :: "nat \<Rightarrow> event \<Rightarrow> string \<Rightarrow> string \<Rightarrow> string \<Rightarrow> nat list \<times> server \<Rightarrow> nat list \<times> server" where
  "leave_channel i quit_ev src reason folded st =
     (case st of (notified, s) \<Rightarrow>
        (case find_channel s folded of
           None \<Rightarrow> (notified, reap_channel folded s)
         | Some h \<Rightarrow>
             (let s = upd_chan h (\<lambda>d. d\<lparr>ch_members := del i (ch_members d)\<rparr>) s;
                  (notified, s) = notify_members (\<lambda>j. render_for quit_ev (entry_caps (entries s j)))
                                    (keys_of (ch_members (cdata s h))) (notified, s);
                  display = ch_name (cdata s h);
                  s = record_channel_event folded display src message_kind.Quit reason s
              in (notified, reap_channel folded s))))"

definition leave_all :: "nat \<Rightarrow> string \<Rightarrow> client_data \<Rightarrow> server \<Rightarrow> server" where
  "leave_all i reason d s =
     (let s = (case plugins s of
                 Some host \<Rightarrow> apply_plugin_actions (po_actions (ph_on_quit host (cd_nick d) reason)) s
               | None \<Rightarrow> s);
          s = record_whowas (cd_nick d) (cd_user d) (cd_host d) (cd_realname (ce_data (entries s i))) s;
          body = line_body (line_trailing (line_command (line_user (cd_nick d) (cd_user d) (cd_host d)) ''QUIT'') reason);
          quit_ev = with_account (cd_account d) (with_time (format_server_time (now_millis s)) (event_new body))
      in snd (fold (leave_channel i quit_ev (mask_of (cd_nick d) (cd_user d) (cd_host d)) reason) (cd_channels d) ([i], s)))"

definition disconnect :: "nat \<Rightarrow> string \<Rightarrow> server \<Rightarrow> server" where
  "disconnect i reason s =
     (let d = ce_data (entries s i); nick = cd_nick d; named = (nick \<noteq> [] \<and> nick \<noteq> ''*'');
          s = (if cd_registered d then leave_all i reason d s else s);
          s = s\<lparr>by_id := hs_remove i (by_id s)\<rparr>;
          s = (if cd_registered d \<and> named then monitor_offline nick s else s);
          s = fold (\<lambda>folded. monitor_unwatch folded i) (cd_monitor (ce_data (entries s i))) s
      in if named \<and> get (clients s) (fold_key s nick) = Some i then release_nick (fold_key s nick) s else s)"

subsection \<open>The invariant\<close>

definition nick_key :: "server \<Rightarrow> nat \<Rightarrow> string" where
  "nick_key s i = fold_key s (cd_nick (ce_data (entries s i)))"

definition client_ok :: "server \<Rightarrow> bool" where
  "client_ok s \<longleftrightarrow>
     (\<forall>f i. get (clients s) f = Some i \<longleftrightarrow> i \<in> set (by_id s) \<and> f = nick_key s i)
     \<and> (\<forall>i \<in> set (by_id s). cd_nick (ce_data (entries s i)) \<notin> {[], ''*''})
     \<and> (\<forall>i \<in> set (by_id s). \<not> cd_registered (ce_data (entries s i)) \<longrightarrow> cd_channels (ce_data (entries s i)) = [])
     \<and> (\<forall>f w i. get (monitors s) f = Some w \<longrightarrow> i \<in> set w \<longrightarrow> f \<in> set (cd_monitor (ce_data (entries s i))))"

subsection \<open>Frames\<close>

text \<open>\<open>tame s t\<close>: from \<open>s\<close> to \<open>t\<close> clients may have been put out of channels and empty channels reaped, operators may
  have stepped down; names, registrations, watch lists and the registry of clients are as they were.\<close>

definition tame :: "server \<Rightarrow> server \<Rightarrow> bool" where
  "tame s t \<longleftrightarrow> info t = info s \<and> clients t = clients s \<and> by_id t = by_id s \<and> monitors t = monitors s
     \<and> plugins t = plugins s \<and> next_chan t = next_chan s \<and> next_id t = next_id s \<and> ip_conns t = ip_conns s
     \<and> (\<forall>f. get (channels t) f = None \<or> get (channels t) f = get (channels s) f)
     \<and> (\<forall>h. ch_name (cdata t h) = ch_name (cdata s h) \<and> chan_joining (chans t h) = chan_joining (chans s h))
     \<and> (\<forall>f h. get (channels s) f = Some h \<and> chan_joining (chans s h) > 0 \<longrightarrow> get (channels t) f = Some h)
     \<and> (\<forall>i. let d = ce_data (entries s i); e = ce_data (entries t i) in
          cd_nick e = cd_nick d \<and> cd_registered e = cd_registered d \<and> cd_monitor e = cd_monitor d
          \<and> (cd_oper e \<longrightarrow> cd_oper d) \<and> set (cd_channels e) \<subseteq> set (cd_channels d))"

definition safe :: "server \<Rightarrow> server \<Rightarrow> bool" where
  "safe s t \<longleftrightarrow> tame s t \<and> (net_ok s \<longrightarrow> net_ok t)"

lemma tame_fields:
  assumes "tame s t"
  shows "info t = info s" "clients t = clients s" "by_id t = by_id s" "monitors t = monitors s" "plugins t = plugins s"
    "next_chan t = next_chan s" "ch_name (cdata t h) = ch_name (cdata s h)" "chan_joining (chans t h) = chan_joining (chans s h)"
    "cd_nick (ce_data (entries t i)) = cd_nick (ce_data (entries s i))"
    "cd_registered (ce_data (entries t i)) = cd_registered (ce_data (entries s i))"
    "cd_monitor (ce_data (entries t i)) = cd_monitor (ce_data (entries s i))" "next_id t = next_id s" "ip_conns t = ip_conns s"
  using assms by (simp_all add: tame_def Let_def)

lemma tameD:
  assumes "tame s t"
  shows "get (channels t) f = None \<or> get (channels t) f = get (channels s) f"
    "get (channels s) f = Some h \<Longrightarrow> chan_joining (chans s h) > 0 \<Longrightarrow> get (channels t) f = Some h"
    "set (cd_channels (ce_data (entries t i))) \<subseteq> set (cd_channels (ce_data (entries s i)))"
    "cd_oper (ce_data (entries t i)) \<Longrightarrow> cd_oper (ce_data (entries s i))"
  using assms unfolding tame_def Let_def by blast+

lemma tame_trans:
  assumes "tame s t" "tame t u"
  shows "tame s u"
  unfolding tame_def Let_def
proof (intro conjI allI impI; (elim conjE)?)
  fix f h i
  show "get (channels u) f = None \<or> get (channels u) f = get (channels s) f"
    using tameD(1) [OF assms(1), of f] tameD(1) [OF assms(2), of f] by auto
  show "get (channels u) f = Some h" if "get (channels s) f = Some h" "0 < chan_joining (chans s h)"
    using tameD(2) [OF assms(2)] tameD(2) [OF assms(1)] that tame_fields(8) [OF assms(1)] by simp
  show "set (cd_channels (ce_data (entries u i))) \<subseteq> set (cd_channels (ce_data (entries s i)))"
    using tameD(3) [OF assms(1)] tameD(3) [OF assms(2)] by blast
  show "cd_oper (ce_data (entries s i))" if "cd_oper (ce_data (entries u i))"
    using tameD(4) [OF assms(1)] tameD(4) [OF assms(2)] that by blast
qed (simp_all add: tame_fields [OF assms(1)] tame_fields [OF assms(2)])

lemma tame_quiet: "quiet s t \<Longrightarrow> tame s t"
  by (simp add: tame_def quiet_fields quiet_cdata)

interpretation safe: step_frame safe
proof
  show "safe s s" for s by (simp add: safe_def tame_quiet)
  show "safe s t \<Longrightarrow> safe t u \<Longrightarrow> safe s u" for s t u by (auto simp: safe_def intro: tame_trans)
qed

declare safe.frame_refl [simp]

named_theorems safes \<open>operations that keep the invariants\<close>

lemma safe_quiet: "quiet s t \<Longrightarrow> safe s t"
  by (simp add: safe_def tame_quiet net_ok_quiet)

lemma safe_after_quiet: "safe s t \<Longrightarrow> quiet t u \<Longrightarrow> safe s u"
  by (blast intro: safe.frame_trans safe_quiet)

lemma client_ok_tame:
  assumes "tame s t" "client_ok s"
  shows "client_ok t"
proof -
  note f = tame_fields [OF assms(1)]
  have key: "nick_key t = nick_key s" by (simp add: fun_eq_iff nick_key_def fold_key_def f)
  have "cd_channels (ce_data (entries t i)) = []" if "i \<in> set (by_id s)" "\<not> cd_registered (ce_data (entries s i))" for i
    using that assms(2) tameD(3) [OF assms(1), of i] by (auto simp: client_ok_def)
  then show ?thesis using assms(2) unfolding client_ok_def key f by blast
qed

text \<open>Changes of a client's own record, of a channel's modes and lists, and of the other registries.\<close>

definition same_client :: "client_data \<Rightarrow> client_data \<Rightarrow> bool" where
  "same_client d e \<longleftrightarrow> cd_nick e = cd_nick d \<and> cd_registered e = cd_registered d \<and> cd_monitor e = cd_monitor d \<and> cd_channels e = cd_channels d
     \<and> (cd_oper e \<longrightarrow> cd_oper d)"

lemma net_ok_upd_client:
  assumes "cd_channels (ce_data (f (entries s i))) = cd_channels (ce_data (entries s i))"
  shows "net_ok (upd_client i f s) = net_ok s"
proof -
  have "members_ok (upd_client i f s) = members_ok s"
    by (rule members_ok_cong) (use assms in \<open>auto simp: upd_client_def\<close>)
  moreover have "remote_index (upd_client i f s) = remote_index s"
    by (simp add: fun_eq_iff remote_index_def upd_client_def)
  ultimately show ?thesis
    by (simp add: net_ok_def upd_client_def reg_ok_cong [of "s\<lparr>entries := e\<rparr>" s for e] known_ok_cong [of "s\<lparr>entries := e\<rparr>" s for e])
qed

lemma safe_upd_client:
  assumes "same_client (ce_data (entries s i)) (ce_data (f (entries s i)))"
  shows "safe s (upd_client i f s)"
  using assms net_ok_upd_client [of f s i]
  by (auto simp: safe_def tame_def upd_client_def same_client_def cdata_def Let_def)

lemma safe_upd_client_data:
  "same_client (ce_data (entries s i)) (f (ce_data (entries s i))) \<Longrightarrow> safe s (upd_client_data i f s)"
  unfolding upd_client_data_def by (rule safe_upd_client) simp

lemma identities:
  "next_id (upd_chan h f s) = next_id s" "ip_conns (upd_chan h f s) = ip_conns s"
  "next_id (reap_channel g s) = next_id s" "ip_conns (reap_channel g s) = ip_conns s"
  by (simp_all add: upd_chan_def reap_channel_reapable upd_history_def)

lemma safe_upd_chan:
  assumes "ch_name (f (cdata s h)) = ch_name (cdata s h)" "remote_who (f (cdata s h)) = remote_who (cdata s h)"
    "local_who (f (cdata s h)) = local_who (cdata s h)"
  shows "safe s (upd_chan h f s)"
  using assms net_ok_upd [of s f h] by (auto simp: safe_def tame_def cdata_upd_chan identities Let_def)

lemma safe_cong:
  assumes "info t = info s" "clients t = clients s" "by_id t = by_id s" "monitors t = monitors s" "plugins t = plugins s"
    "next_chan t = next_chan s" "channels t = channels s" "chans t = chans s" "entries t = entries s"
    "next_id t = next_id s" "ip_conns t = ip_conns s"
    "remote_users t = remote_users s" "remote_by_uid t = remote_by_uid s" "remote_channels t = remote_channels s"
  shows "safe s t"
  using net_ok_cong [of t s] assms by (simp add: safe_def tame_def cdata_def)

subsection \<open>What plugins can do\<close>

text \<open>The actions of plugins are made of a few kinds of steps. A relation that holds across each of them holds
  across every list of actions.\<close>

locale loosening = step_frame R for R :: "server \<Rightarrow> server \<Rightarrow> bool" +
  assumes quiet_step: "quiet s t \<Longrightarrow> R s t"
    and reap_step: "R s (reap_channel f s)"
    and chan_step: "ch_name (g (cdata s h)) = ch_name (cdata s h) \<Longrightarrow> R s (upd_chan h g s)"
    and leave_step: "R s (upd_client_data i (\<lambda>d. d\<lparr>cd_channels := hs_remove f (cd_channels d)\<rparr>) s)"
    and persist_step: "R s (persist_registered f s)"
    and removed_step: "R s (remote_channel_removed uid f s)"
    and kline_step: "R s (add_kline m r b s)"
begin

lemma after_quiet: "R s t \<Longrightarrow> quiet t u \<Longrightarrow> R s u"
  by (rule frame_trans [OF _ quiet_step])

lemma after_steps:
  assumes "R s t"
  shows "R s (reap_channel f t)" "ch_name (g (cdata t h)) = ch_name (cdata t h) \<Longrightarrow> R s (upd_chan h g t)"
    "R s (upd_client_data i (\<lambda>d. d\<lparr>cd_channels := hs_remove f (cd_channels d)\<rparr>) t)"
    "R s (persist_registered f t)" "R s (remote_channel_removed uid f t)"
    "R s (record_channel_event f dn src k x t)" "R s (broadcast h l e t)" "R s (propagate m t)"
  by (rule frame_trans [OF assms], rule reap_step chan_step leave_step persist_step removed_step
    quiet_step [OF quiet_record_channel_event] quiet_step [OF quiet_broadcast] quiet_step [OF quiet_propagate_msg], assumption?)+

lemma remote_kick_frame: "R s (remote_kick nm source uid reason s)"
  by (auto simp: remote_kick_def Let_def frame_refl split: option.split intro!: after_steps)

lemma apply_mode_change_frame:
  assumes "apply_mode_change nm source 0 flags args s = (r, t)"
  shows "R s t"
proof (cases "find_channel s (fold_key s nm)")
  case (Some h)
  define st where "st = fold (apply_step (now_unix s) (remote_source_nick s source)) (mode_steps s (chars flags) args True)
    \<lparr>ms_data = cdata s h, ms_accum = accum_default, ms_applied = [], ms_wire = []\<rparr>"
  have "same_shape (cdata s h) (ms_data st)"
    using same_shape_steps [of "\<lparr>ms_data = cdata s h, ms_accum = accum_default, ms_applied = [], ms_wire = []\<rparr>"]
    by (simp add: st_def)
  then have "R s (upd_chan h (\<lambda>_. ms_data st) s)" by (intro chan_step) (simp add: same_shape_def)
  then show ?thesis
    using assms Some by (auto simp: apply_mode_change_def Let_def st_def [symmetric] after_steps split: if_splits)
qed (use assms in \<open>simp add: apply_mode_change_def Let_def frame_refl\<close>)

lemma remote_topic_frame: "R s (remote_topic nm uid by at text s)"
  by (auto simp: remote_topic_def Let_def frame_refl split: option.split intro!: after_steps)

lemma plugin_action_frame: "R s (apply_plugin_action a s)"
proof -
  have "R s (plugin_mode x y z s)" for x y z
    by (auto simp: plugin_mode_def Let_def frame_refl split: option.split prod.split intro!: after_steps dest: apply_mode_change_frame)
  moreover have "R s (plugin_kick x y z s)" "R s (plugin_topic x y s)" for x y z
    by (auto simp: plugin_kick_def plugin_topic_def Let_def frame_refl remote_kick_frame remote_topic_frame split: option.split intro!: after_steps)
  moreover have "R s (plugin_kline x y z s)" for x y z
    by (auto simp: plugin_kline_def kill_matching_def Let_def intro!: after_quiet [OF kline_step quiet_kill_clients])
  ultimately show ?thesis by (simp add: apply_plugin_action_def quiet_step split: plugin_action.split)
qed

lemma plugin_actions_frame: "R s (apply_plugin_actions as s)"
  unfolding apply_plugin_actions_def by (rule frame_fold) (rule plugin_action_frame)

end

lemma tame_refl [simp]: "tame s s"
  by (rule tame_quiet) simp

interpretation tame: loosening tame
proof
  show "tame s s" "quiet s t \<Longrightarrow> tame s t" for s t by (simp_all add: tame_quiet)
  show "tame s t \<Longrightarrow> tame t u \<Longrightarrow> tame s u" for s t u by (rule tame_trans)
  show "tame s (reap_channel f s)" for s f by (auto simp: tame_def reap_channel_get reapable_def identities Let_def)
  show "tame s (upd_chan h g s)" if "ch_name (g (cdata s h)) = ch_name (cdata s h)" for g s h
    using that by (auto simp: tame_def cdata_upd_chan identities Let_def)
  show "tame s (upd_client_data i (\<lambda>d. d\<lparr>cd_channels := hs_remove f (cd_channels d)\<rparr>) s)" for s i f
    by (auto simp: tame_def upd_client_data_def upd_client_def cdata_def Let_def)
  show "tame s (persist_registered f s)" for s f
    by (simp add: tame_def persist_registered_def store_send_def cdata_def Let_def split: option.split)
  show "tame s (remote_channel_removed uid f s)" for s uid f
    by (simp add: tame_def remote_channel_removed_def cdata_def Let_def split: option.split)
  show "tame s (add_kline m r b s)" for s m r b by (simp add: tame_def add_kline_def cdata_def Let_def)
qed

text \<open>\<open>lookalike s t\<close>: every client is who it was, apart from the channels it is in.\<close>

definition lookalike :: "server \<Rightarrow> server \<Rightarrow> bool" where
  "lookalike s t \<longleftrightarrow> info t = info s \<and> clock_ms t = clock_ms s
     \<and> (\<forall>i. (ce_data (entries t i))\<lparr>cd_channels := []\<rparr> = (ce_data (entries s i))\<lparr>cd_channels := []\<rparr>
          \<and> ce_caps (entries t i) = ce_caps (entries s i))"

interpretation lookalike: loosening lookalike
proof
  show "lookalike s s" "quiet s t \<Longrightarrow> lookalike s t" for s t by (simp_all add: lookalike_def quiet_fields)
  show "lookalike s t \<Longrightarrow> lookalike t u \<Longrightarrow> lookalike s u" for s t u by (simp add: lookalike_def)
  show "lookalike s (reap_channel f s)" for s f by (simp add: lookalike_def reap_channel_reapable upd_history_def)
  show "lookalike s (upd_chan h g s)" for g s h by (simp add: lookalike_def)
  show "lookalike s (upd_client_data i (\<lambda>d. d\<lparr>cd_channels := hs_remove f (cd_channels d)\<rparr>) s)" for s i f
    by (simp add: lookalike_def upd_client_data_def upd_client_def)
  show "lookalike s (persist_registered f s)" for s f
    by (simp add: lookalike_def persist_registered_def store_send_def Let_def split: option.split)
  show "lookalike s (remote_channel_removed uid f s)" for s uid f
    by (simp add: lookalike_def remote_channel_removed_def Let_def split: option.split)
  show "lookalike s (add_kline m r b s)" for s m r b by (simp add: lookalike_def add_kline_def)
qed

lemma lookalike_fields:
  assumes "lookalike s t"
  shows "info t = info s" "clock_ms t = clock_ms s" "entry_caps (entries t i) = entry_caps (entries s i)"
    "cd_nick (ce_data (entries t i)) = cd_nick (ce_data (entries s i))" "cd_user (ce_data (entries t i)) = cd_user (ce_data (entries s i))"
    "cd_host (ce_data (entries t i)) = cd_host (ce_data (entries s i))" "cd_account (ce_data (entries t i)) = cd_account (ce_data (entries s i))"
    "cd_oper (ce_data (entries t i)) = cd_oper (ce_data (entries s i))" "cd_real_ip (ce_data (entries t i)) = cd_real_ip (ce_data (entries s i))"
    "cd_registered (ce_data (entries t i)) = cd_registered (ce_data (entries s i))"
proof -
  have "(ce_data (entries t i))\<lparr>cd_channels := []\<rparr> = (ce_data (entries s i))\<lparr>cd_channels := []\<rparr>" using assms by (simp add: lookalike_def)
  note d = this [THEN arg_cong]
  show "cd_nick (ce_data (entries t i)) = cd_nick (ce_data (entries s i))" "cd_user (ce_data (entries t i)) = cd_user (ce_data (entries s i))"
    "cd_host (ce_data (entries t i)) = cd_host (ce_data (entries s i))" "cd_account (ce_data (entries t i)) = cd_account (ce_data (entries s i))"
    "cd_oper (ce_data (entries t i)) = cd_oper (ce_data (entries s i))" "cd_real_ip (ce_data (entries t i)) = cd_real_ip (ce_data (entries s i))"
    "cd_registered (ce_data (entries t i)) = cd_registered (ce_data (entries s i))"
    using d [of cd_nick] d [of cd_user] d [of cd_host] d [of cd_account] d [of cd_oper] d [of cd_real_ip] d [of cd_registered] by simp_all
qed (use assms in \<open>simp_all add: lookalike_def entry_caps_def\<close>)

lemmas tame_after_quiet = tame.after_quiet
lemmas tame_after_reap = tame.after_steps(1)
lemmas tame_after_upd_chan = tame.after_steps(2)

lemma safe_plugin_actions: "safe s (apply_plugin_actions as s)"
  unfolding apply_plugin_actions_def
  by (rule safe.frame_fold) (simp add: safe_def tame.plugin_action_frame net_ok_plugin_action)

lemma safe_reap: "safe s (reap_channel f s)"
  by (simp add: safe_def tame_after_reap net_ok_reap)

subsection \<open>Departures\<close>

text \<open>The network invariant with a given index of local memberships, for a client that is leaving: its
  own record still names the channels it has already left.\<close>

definition net_with :: "(nat \<Rightarrow> string set) \<Rightarrow> server \<Rightarrow> bool" where
  "net_with I s \<longleftrightarrow> chan_ok s \<and> remotes.agree s (remote_index s) \<and> locals.agree s I \<and> reg_ok s \<and> known_ok s"

lemma net_with_local: "net_with (local_index s) s = net_ok s"
  by (auto simp: net_with_def net_ok_def members_ok_def)

lemma net_with_quiet: "quiet s t \<Longrightarrow> net_with I t = net_with I s"
  by (simp add: net_with_def chan_ok_quiet remotes.agree_quiet locals.agree_quiet reg_ok_cong [of t s] known_ok_cong [of t s]
    quiet_fields calm_index [OF calm_quiet])

lemma net_with_reap: "net_with I s \<Longrightarrow> net_with I (reap_channel f s)"
  by (simp add: net_with_def remotes.agree_reap locals.agree_reap calm_index [OF calm_reap]
    reg_ok_cong [of "reap_channel f s" s] known_ok_cong [of "reap_channel f s" s])

lemma net_with_leave:
  assumes "net_with I s" "get (channels s) f = Some h"
  shows "net_with (I(i := I i - {f})) (upd_chan h (\<lambda>d. d\<lparr>ch_members := del i (ch_members d)\<rparr>) s)"
proof -
  define g where "g = (\<lambda>d. d\<lparr>ch_members := del i (ch_members d)\<rparr> :: channel_data)"
  have g: "ch_name (g d) = ch_name d" "remote_who (g d) = remote_who d" "local_who (g d) = local_who d - {i}" for d
    by (auto simp: g_def local_who_def remote_who_def tbl)
  have ok: "chan_ok s" "remotes.agree s (remote_index s)" "locals.agree s I" "reg_ok s" "known_ok s"
    using assms(1) by (simp_all add: net_with_def)
  show ?thesis
    using chan_ok_upd [of s g h] locals.agree_leave [where g = g, OF ok(1,3) assms(2) g(3)] remotes.agree_keep [of g s h] ok g
    unfolding net_with_def g_def [symmetric]
    by (simp add: calm_index [OF calm_upd_chan] reg_ok_cong [of "upd_chan h g s" s] known_ok_cong [of "upd_chan h g s" s])
qed

lemma leave_channel_step:
  assumes "net_with I (snd st)"
  shows "net_with (I(i := I i - {f})) (snd (leave_channel i ev src reason f st))" "tame (snd st) (snd (leave_channel i ev src reason f st))"
proof -
  obtain n s where st: "st = (n, s)" by fastforce
  have *: "net_with (I(i := I i - {f})) (snd (leave_channel i ev src reason f (n, s))) \<and> tame s (snd (leave_channel i ev src reason f (n, s)))"
  proof (cases "find_channel s f")
    case None
    then have "f \<notin> I i" using assms locals.agree_known [of s I f i] by (auto simp: st net_with_def find_channel_def)
    then show ?thesis using None assms by (simp add: st leave_channel_def net_with_reap tame_after_reap)
  next
    case (Some h)
    define t where "t = upd_chan h (\<lambda>d. d\<lparr>ch_members := del i (ch_members d)\<rparr>) s"
    define mk where "mk = (\<lambda>j. render_for ev (entry_caps (entries t j)))"
    define ids where "ids = keys_of (ch_members (cdata t h))"
    define u where "u = snd (notify_members mk ids (n, t))"
    have q: "quiet t u" using quiet_notify_members [of "(n, t)" mk ids] by (simp add: u_def)
    have "net_with (I(i := I i - {f})) u" "tame s u"
      using net_with_leave [of I s f h i] assms Some net_with_quiet [OF q] tame_after_quiet [OF _ q]
      by (simp_all add: st find_channel_def t_def tame_after_upd_chan)
    moreover have "quiet u (record_channel_event f d src message_kind.Quit reason u)" for d by simp
    ultimately show ?thesis
      using Some unfolding leave_channel_def
      by (auto simp: Let_def t_def [symmetric] mk_def [symmetric] ids_def [symmetric] u_def [symmetric] split_beta net_with_quiet [OF quiet_record_channel_event]
        intro!: net_with_reap tame_after_reap intro: tame_after_quiet)
  qed
  then show "net_with (I(i := I i - {f})) (snd (leave_channel i ev src reason f st))" "tame (snd st) (snd (leave_channel i ev src reason f st))"
    by (simp_all add: st)
qed

lemma leave_channels:
  "net_with I (snd st) \<Longrightarrow>
   net_with (I(i := I i - set fs)) (snd (fold (leave_channel i ev src reason) fs st)) \<and> tame (snd st) (snd (fold (leave_channel i ev src reason) fs st))"
proof (induction fs arbitrary: I st)
  case (Cons f fs)
  note step = leave_channel_step [OF Cons.prems, where i = i and f = f and ev = ev and src = src and reason = reason]
  have "(I(i := I i - {f}))(i := (I(i := I i - {f})) i - set fs) = I(i := I i - set (f # fs))"
    by (auto simp: fun_eq_iff)
  then show ?case using Cons.IH [OF step(1)] tame_trans [OF step(2)] by (simp only: fold_Cons o_apply)
qed simp

lemma calm_leave_channel: "calm (snd st) (snd (leave_channel i ev src reason f st))"
proof -
  obtain n s where st: "st = (n, s)" by fastforce
  have "calm s (reap_channel f (record_channel_event f d src message_kind.Quit reason (snd (notify_members mk ids (n, upd_chan h g s)))))"
    for d mk ids h g
  proof -
    have "calm s (snd (notify_members mk ids (n, upd_chan h g s)))"
      using calm_trans [OF calm_upd_chan calm_quiet [OF quiet_notify_members [of "(n, upd_chan h g s)" mk ids, unfolded snd_conv]]] .
    from calm_trans [OF calm_trans [OF this calm_quiet [OF quiet_record_channel_event]] calm_reap] show ?thesis .
  qed
  then show ?thesis by (simp add: st leave_channel_def Let_def split_beta split: option.split)
qed

lemma leave_all_ok:
  assumes "net_ok s" "d = ce_data (entries s i)" "t = leave_all i reason d s"
  shows "net_with ((local_index t)(i := {})) t" "tame s t"
proof -
  define p where "p = (case plugins s of Some host \<Rightarrow> apply_plugin_actions (po_actions (ph_on_quit host (cd_nick d) reason)) s | None \<Rightarrow> s)"
  define w where "w = record_whowas (cd_nick d) (cd_user d) (cd_host d) (cd_realname (ce_data (entries p i))) p"
  have sp: "safe s p" by (simp add: p_def safe_plugin_actions split: option.split)
  have sw: "safe s w" unfolding w_def by (rule safe_after_quiet [OF sp]) simp
  then have w: "net_with (local_index w) w" "tame s w" using assms(1) by (simp_all add: safe_def net_with_local)
  define ev where "ev = with_account (cd_account d) (with_time (format_server_time (now_millis w)) (event_new
    (line_body (line_trailing (line_command (line_user (cd_nick d) (cd_user d) (cd_host d)) ''QUIT'') reason))))"
  let ?leave = "leave_channel i ev (mask_of (cd_nick d) (cd_user d) (cd_host d)) reason"
  have t: "t = snd (fold ?leave (cd_channels d) ([i], w))"
    by (simp add: assms(3) leave_all_def Let_def p_def w_def ev_def)
  have l: "net_with ((local_index w)(i := local_index w i - set (cd_channels d))) t \<and> tame w t"
    using leave_channels [of "local_index w" "([i], w)" i "cd_channels d"] w(1) by (simp add: t)
  have "calm w t"
    using calm_fold_snd [of ?leave "([i], w)" "cd_channels d"] calm_leave_channel [of "(a, u)" for a u] by (simp add: t)
  then have idx: "local_index t = local_index w" by (rule calm_index)
  have "local_index w i \<subseteq> set (cd_channels d)"
    using tameD(3) [OF w(2), of i] by (auto simp: local_index_def assms(2))
  then have none: "local_index w i - set (cd_channels d) = {}" by blast
  show "net_with ((local_index t)(i := {})) t" using l unfolding idx none by blast
  show "tame s t" using l tame_trans [OF w(2)] by blast
qed

text \<open>Watch lists.\<close>

lemma monitor_unwatch_get:
  "get (monitors (monitor_unwatch f i s)) g = (case get (monitors s) g of None \<Rightarrow> None | Some w \<Rightarrow>
     if g = f then (if hs_remove i w = [] then None else Some (hs_remove i w)) else Some w)"
  by (auto simp: monitor_unwatch_def tbl Let_def split: option.splits)

lemma unwatch_all_fields: "\<exists>m. fold (\<lambda>f. monitor_unwatch f i) fs s = s\<lparr>monitors := m\<rparr>"
proof (induction fs arbitrary: s)
  case (Cons f fs)
  have "\<exists>m. monitor_unwatch f i s = s\<lparr>monitors := m\<rparr>"
    by (auto simp: monitor_unwatch_def Let_def split: option.split intro: exI [of _ "monitors s"])
  then obtain m where "monitor_unwatch f i s = s\<lparr>monitors := m\<rparr>" by blast
  then show ?case using Cons.IH [of "s\<lparr>monitors := m\<rparr>"] by simp
next
  case Nil
  show ?case by (rule exI [of _ "monitors s"]) simp
qed

lemma unwatch_all:
  assumes "get (monitors (fold (\<lambda>f. monitor_unwatch f i) fs s)) g = Some w"
  shows "\<exists>w0. get (monitors s) g = Some w0 \<and> set w \<subseteq> set w0 \<and> (g \<in> set fs \<longrightarrow> i \<notin> set w)"
  using assms
proof (induction fs arbitrary: s)
  case (Cons f fs)
  then show ?case using Cons.IH [of "monitor_unwatch f i s"] by (auto simp: monitor_unwatch_get split: option.splits if_splits)
qed auto

end
