(* ===== verification/Departure.thy ===== *)
theory Departure
  imports Clients
begin

text \<open>
  That the teardown of a client (\<open>disconnect\<close> in \<open>ferrixd/src/state.rs\<close>) is complete, and that a nickname
  has one owner.
\<close>

lemma net_with_cong:
  assumes "info t = info s" "channels t = channels s" "chans t = chans s" "next_chan t = next_chan s"
    "remote_channels t = remote_channels s" "remote_users t = remote_users s" "remote_by_uid t = remote_by_uid s"
  shows "net_with I t = net_with I s"
proof -
  have f: "cdata t = cdata s" "fold_key t = fold_key s" "remote_index t = remote_index s"
    using assms by (simp_all add: fun_eq_iff cdata_def fold_key_def remote_index_def)
  show ?thesis
    by (simp add: net_with_def f reg_ok_cong [OF assms(1,6,7)] known_ok_cong [OF f(3) assms(7)] chan_ok_def assms(2,4)
      remotes.agree_def locals.agree_def)
qed

text \<open>Dropping a client from the index by id.\<close>

lemma net_ok_forget_id:
  assumes "net_with ((local_index u)(i := {})) u"
  shows "net_ok (u\<lparr>by_id := hs_remove i (by_id u)\<rparr>)" (is "net_ok ?v")
proof -
  have "local_index ?v = (local_index u)(i := {})" by (auto simp: fun_eq_iff local_index_def)
  then have "net_ok ?v = net_with ((local_index u)(i := {})) ?v" using net_with_local [of ?v] by simp
  also have "\<dots> = net_with ((local_index u)(i := {})) u" by (rule net_with_cong) simp_all
  finally show ?thesis using assms by simp
qed

text \<open>A departure is complete. When a client goes away, the network state stays sound, no channel counts
  it as a member, it watches nobody, its nickname can be claimed again, and the entries of all other clients
  are as they were.\<close>

theorem disconnect_complete:
  assumes "net_ok s" "client_ok s" "i \<in> set (by_id s)" "t = disconnect i reason s"
  shows "net_ok t \<and> client_ok t \<and> set (by_id t) = set (by_id s) - {i}
    \<and> (\<forall>f. get (clients t) f = (if f = nick_key s i then None else get (clients s) f))
    \<and> (\<forall>f h. get (channels t) f = Some h \<longrightarrow> \<not> has_member (cdata t h) i)
    \<and> (\<forall>f w. get (monitors t) f = Some w \<longrightarrow> i \<notin> set w)"
proof -
  define d where "d = ce_data (entries s i)"
  define u where "u = (if cd_registered d then leave_all i reason d s else s)"
  have nick: "cd_nick d \<noteq> []" "cd_nick d \<noteq> ''*''" using assms(2,3) by (auto simp: client_ok_def d_def)
  have u: "tame s u" "net_with ((local_index u)(i := {})) u"
  proof -
    show "tame s u" using leave_all_ok(2) [OF assms(1) d_def refl] by (simp add: u_def)
    have "local_index s i = {}" if "\<not> cd_registered d" using that assms(2,3) by (simp add: client_ok_def local_index_def d_def)
    then have "\<not> cd_registered d \<Longrightarrow> (local_index s)(i := {}) = local_index s" by (simp add: fun_upd_idem)
    then show "net_with ((local_index u)(i := {})) u"
      using leave_all_ok(1) [OF assms(1) d_def refl, of reason] assms(1) by (auto simp: u_def net_with_local)
  qed
  define v where "v = u\<lparr>by_id := hs_remove i (by_id u)\<rparr>"
  have "net_ok v" unfolding v_def by (rule net_ok_forget_id [OF u(2)])
  define w where "w = (if cd_registered d then monitor_offline (cd_nick d) v else v)"
  have w: "quiet v w" by (simp add: w_def)
  note f = tame_fields [OF u(1)] and qf = quiet_fields [OF w]
  have mon: "cd_monitor (ce_data (entries w i)) = cd_monitor d" by (simp add: qf v_def f d_def)
  define x where "x = fold (\<lambda>folded. monitor_unwatch folded i) (cd_monitor d) w"
  obtain m where x: "x = w\<lparr>monitors := m\<rparr>" using unwatch_all_fields [of i "cd_monitor d" w] by (auto simp: x_def)
  have key: "fold_key x (cd_nick d) = nick_key s i" by (simp add: x fold_key_def qf v_def f nick_key_def d_def)
  have reg: "get (clients x) g = get (clients s) g" for g by (simp add: x qf v_def f)
  have own: "get (clients s) (nick_key s i) = Some i" using assms(2,3) by (simp add: client_ok_def)
  have t: "t = release_nick (nick_key s i) x"
    unfolding assms(4) disconnect_def Let_def d_def [symmetric] u_def [symmetric] v_def [symmetric]
    using nick own by (simp add: w_def [symmetric] mon x_def [symmetric] key reg)
  have tf: "info t = info s" "by_id t = hs_remove i (by_id s)" "monitors t = m" "nick_key t = nick_key s"
    "ce_data (entries t j) = ce_data (entries u j)" for j
    by (simp_all add: t x release_nick_def qf v_def f nick_key_def fold_key_def fun_eq_iff)
  have clients: "get (clients t) g = (if g = nick_key s i then None else get (clients s) g)" for g
    using reg by (simp add: t release_nick_def tbl)
  have "net_ok t"
    using \<open>net_ok v\<close> net_ok_quiet [OF w] net_ok_cong [of t w] by (simp add: t x release_nick_def)
  moreover have watch: "\<exists>w0. get (monitors s) g = Some w0 \<and> set ws \<subseteq> set w0 \<and> i \<notin> set ws" if "get (monitors t) g = Some ws" for g ws
  proof -
    have "get (monitors x) g = Some ws" using that by (simp add: tf x)
    then obtain w0 where "get (monitors w) g = Some w0" "set ws \<subseteq> set w0" "g \<in> set (cd_monitor d) \<longrightarrow> i \<notin> set ws"
      using unwatch_all [of i "cd_monitor d" w g ws] by (auto simp: x_def)
    moreover have "monitors w = monitors s" by (simp add: qf v_def f)
    moreover from calculation have "i \<in> set ws \<Longrightarrow> g \<in> set (cd_monitor d)" using assms(2) by (auto simp: client_ok_def d_def)
    ultimately show ?thesis by auto
  qed
  moreover have "client_ok t"
  proof -
    have ok: "client_ok u" by (rule client_ok_tame [OF u(1) assms(2)])
    have uf: "nick_key u = nick_key s" "by_id u = by_id s" "clients u = clients s" "monitors u = monitors s"
      by (simp_all add: f fun_eq_iff nick_key_def fold_key_def)
    have "get (clients t) g = Some j \<longleftrightarrow> j \<in> set (by_id t) \<and> g = nick_key t j" for g j
    proof -
      have "nick_key s j = nick_key s i \<Longrightarrow> j \<in> set (by_id s) \<Longrightarrow> j = i"
        using assms(2) own unfolding client_ok_def by (metis option.inject)
      moreover have "get (clients s) g = Some j \<longleftrightarrow> j \<in> set (by_id s) \<and> g = nick_key s j"
        using assms(2) unfolding client_ok_def by blast
      ultimately show ?thesis using own unfolding clients tf by auto
    qed
    moreover have "g \<in> set (cd_monitor (ce_data (entries t j)))" if "get (monitors t) g = Some ws" "j \<in> set ws" for g ws j
      using watch [OF that(1)] that(2) ok unfolding tf uf client_ok_def by blast
    ultimately show ?thesis using ok unfolding client_ok_def by (simp add: tf uf)
  qed
  moreover have "\<not> has_member (cdata t h) i" if "get (channels t) g = Some h" for g h
  proof -
    have "locals.agree t (local_index t)" using \<open>net_ok t\<close> by (simp add: net_ok_def members_ok_def)
    then show ?thesis using locals.agree_iff that by (fastforce simp: local_index_def tf local_who_def has_member_def)
  qed
  ultimately show ?thesis using clients by (simp add: tf) blast
qed

text \<open>A channel with one member, who watches the nickname of another.\<close>

definition demo_member :: server where
  "demo_member = demo_server\<lparr>clients := [(''amy'', 1)], by_id := [1], channels := [(''#a'', 0)], next_chan := 1, monitors := [(''bob'', [1])],
     entries := (\<lambda>i. (client_entry_new 0 i ''h'' 10)\<lparr>ce_data := (client_data_new 0 ''h'')\<lparr>cd_nick := ''Amy'', cd_registered := True,
       cd_channels := [''#a''], cd_monitor := [''bob'']\<rparr>\<rparr>),
     chans := (\<lambda>_. (channel_entry_new 0 ''#a'')\<lparr>chan_data := (chan_data (channel_entry_new 0 ''#a''))\<lparr>ch_members := [(1, prefix_default)]\<rparr>\<rparr>)\<rparr>"

lemma demo_member_keys: "fold_key demo_member ''Amy'' = ''amy''" "fold_key demo_member ''#a'' = ''#a''"
proof -
  have "fold_name Ascii ''Amy'' = ''amy''" "fold_name Ascii ''#a'' = ''#a''" by code_simp+
  then show "fold_key demo_member ''Amy'' = ''amy''" "fold_key demo_member ''#a'' = ''#a''"
    by (simp_all add: demo_member_def demo_server_def server_new_def fold_key_def)
qed

lemma demo_member_ok: "net_ok demo_member" "client_ok demo_member"
proof -
  have f: "channels demo_member = [(''#a'', 0)]" "next_chan demo_member = 1" "by_id demo_member = [1]" "remote_users demo_member = []"
    "remote_by_uid demo_member = []" "remote_channels demo_member = []" "clients demo_member = [(''amy'', 1)]"
    "monitors demo_member = [(''bob'', [1])]" "cdata demo_member h = (chan_data (channel_entry_new 0 ''#a''))\<lparr>ch_members := [(1, prefix_default)]\<rparr>"
    "ce_data (entries demo_member i) = (client_data_new 0 ''h'')\<lparr>cd_nick := ''Amy'', cd_registered := True, cd_channels := [''#a''], cd_monitor := [''bob'']\<rparr>" for h i
    by (simp_all add: demo_member_def demo_server_def server_new_def cdata_def)
  show "net_ok demo_member"
    by (auto simp: net_ok_def members_ok_def chan_ok_def remotes.agree_def locals.agree_def reg_ok_def known_ok_def remote_index_def
      local_index_def f channel_entry_new_def demo_member_keys local_who_def remote_who_def split: if_splits)
  show "client_ok demo_member"
    by (auto simp: client_ok_def nick_key_def f demo_member_keys split: if_splits)
qed

theorem disconnect_complete_witness:
  "get (clients (disconnect 1 ''bye'' demo_member)) ''amy'' = None \<and> set (by_id (disconnect 1 ''bye'' demo_member)) = {}
   \<and> \<not> (\<exists>f h. get (channels (disconnect 1 ''bye'' demo_member)) f = Some h \<and> has_member (cdata (disconnect 1 ''bye'' demo_member) h) 1)"
proof -
  have "nick_key demo_member 1 = ''amy''" "1 \<in> set (by_id demo_member)" "set (by_id demo_member) = {1}"
    using demo_member_keys(1) by (simp_all add: nick_key_def demo_member_def)
  then show ?thesis using disconnect_complete [OF demo_member_ok, of 1 _ "''bye''", OF _ refl] by auto
qed

subsection \<open>A reintroduced user\<close>

lemma calm_purge_channel: "calm (snd st) (snd (purge_channel uid reason user f st))"
proof -
  obtain n s where st: "st = (n, s)" by fastforce
  have "calm s (reap_channel f (record_channel_event f d src k reason (snd (notify_members mk ids (n, upd_chan h g s)))))"
    for d mk ids h g src k
  proof -
    have "calm s (snd (notify_members mk ids (n, upd_chan h g s)))"
      using calm_trans [OF calm_upd_chan calm_quiet [OF quiet_notify_members [of "(n, upd_chan h g s)" mk ids, unfolded snd_conv]]] .
    from calm_trans [OF calm_trans [OF this calm_quiet [OF quiet_record_channel_event]] calm_reap] show ?thesis .
  qed
  moreover have "calm s (reap_channel f (upd_chan h g s))" for h g by (rule calm_trans [OF calm_upd_chan calm_reap])
  ultimately show ?thesis by (simp add: st purge_channel_def Let_def split_beta calm_quiet split: option.split)
qed

lemma purge_users [simp]:
  "remote_users (purge_remote_memberships uid reason s) = remote_users s"
  "remote_by_uid (purge_remote_memberships uid reason s) = remote_by_uid s"
proof -
  have "calm (snd st) (snd (fold (purge_channel uid reason user) fs st))" for user fs st
    by (rule calm_fold_snd) (rule calm_purge_channel [of "(a, u)" for a u, unfolded snd_conv])
  note c = calm_fields [OF this]
  show "remote_users (purge_remote_memberships uid reason s) = remote_users s"
    "remote_by_uid (purge_remote_memberships uid reason s) = remote_by_uid s"
    by (simp_all add: purge_remote_memberships_def Let_def c split: option.split)
qed



end
