(* ===== verification/Frames.thy ===== *)
theory Frames
  imports Departure
begin

text \<open>
  What a command handler keeps. \<open>conn_ok\<close> is the invariant of a connection: the shared state is sound and the
  session agrees with the client's entry in it. \<open>kept c d\<close> is the frame of the handlers that change neither
  the client's nickname nor its registration, and \<open>kepts\<close> collects how it is built up along a handler.
\<close>

definition session_ok :: "conn \<Rightarrow> bool" where
  "session_ok c \<longleftrightarrow>
     ss_registered (cn_ses c) = cd_registered (my_data c)
     \<and> (my_id c \<in> set (by_id (cn_server c)) \<longleftrightarrow> my_nick c \<noteq> ''*'')
     \<and> (my_nick c = ''*'' \<longrightarrow> \<not> ss_registered (cn_ses c) \<and> cd_channels (my_data c) = [])"

definition conn_ok :: "conn \<Rightarrow> bool" where
  "conn_ok c \<longleftrightarrow> net_ok (cn_server c) \<and> client_ok (cn_server c) \<and> session_ok c"

subsection \<open>Frames of handlers\<close>

text \<open>A frame between connections that output does not disturb: how it is carried through the control
  structures of a handler.\<close>

locale handler_frame = step_frame K for K :: "conn \<Rightarrow> conn \<Rightarrow> bool" +
  assumes hush_step: "hush c d \<Longrightarrow> K c d"
begin

lemma after_hush: "K c d \<Longrightarrow> hush d e \<Longrightarrow> K c e"
  by (rule frame_trans [OF _ hush_step])

lemma replies:
  assumes "K c d"
  shows "K c (deliver_self e d)" "K c (send_to_me l d)" "K c (send_bytes b d)" "K c (numeric n ps t d)"
    "K c (notice x d)" "K c (standard_reply k1 k2 k3 k4 x d)" "K c (fail_reply k2 k3 k4 x d)"
    "K c (note_reply k2 k3 k4 x d)" "K c (need_more_params k2 d)" "K c (emit b d)"
    "K c (send_isupport d)" "K c (send_lusers d)" "K c (send_motd d)"
  using assms hushed [OF hush.frame_refl] by (auto intro: after_hush)

lemma Let_conn: "K c v \<Longrightarrow> (\<And>d. K c d \<Longrightarrow> K c (f d)) \<Longrightarrow> K c (Let v f)"
  by simp

lemma Let_pair: "K c (snd p) \<Longrightarrow> (\<And>a d. p = (a, d) \<Longrightarrow> K c d \<Longrightarrow> K c (f a d)) \<Longrightarrow> K c (Let p (\<lambda>(a, d). f a d))"
  by (cases p) simp

lemma Let_tuple:
  "(\<And>a s. p = (a, s) \<Longrightarrow> K c (f a s)) \<Longrightarrow> K c (Let p (\<lambda>(a, s :: server). f a s))"
  "(\<And>a s. q = (a, s) \<Longrightarrow> K c (g a s)) \<Longrightarrow> K c (Let q (\<lambda>(a, s :: auth). g a s))"
  "(\<And>a s. r = (a, s) \<Longrightarrow> K c (h a s)) \<Longrightarrow> K c (Let r (\<lambda>(a, s :: 'x list). h a s))"
  "(\<And>a s. o1 = (a, s) \<Longrightarrow> K c (k a s)) \<Longrightarrow> K c (Let o1 (\<lambda>(a, s :: 'y option). k a s))"
  by (simp_all split: prod.split)

lemma Let_value:
  "(\<And>x. x = v1 \<Longrightarrow> K c (f1 x)) \<Longrightarrow> K c (Let (v1 :: 'a option) f1)" "(\<And>x. x = v2 \<Longrightarrow> K c (f2 x)) \<Longrightarrow> K c (Let (v2 :: 'a list) f2)"
  "(\<And>x. x = v3 \<Longrightarrow> K c (f3 x)) \<Longrightarrow> K c (Let (v3 :: bool) f3)" "(\<And>x. x = v4 \<Longrightarrow> K c (f4 x)) \<Longrightarrow> K c (Let (v4 :: nat) f4)"
  "(\<And>x. x = v5 \<Longrightarrow> K c (f5 x)) \<Longrightarrow> K c (Let (v5 :: event) f5)" "(\<And>x. x = v6 \<Longrightarrow> K c (f6 x)) \<Longrightarrow> K c (Let (v6 :: client_data) f6)"
  "(\<And>x. x = v7 \<Longrightarrow> K c (f7 x)) \<Longrightarrow> K c (Let (v7 :: channel_data) f7)" "(\<And>x. x = v8 \<Longrightarrow> K c (f8 x)) \<Longrightarrow> K c (Let (v8 :: server_info) f8)"
  "(\<And>x. x = v9 \<Longrightarrow> K c (f9 x)) \<Longrightarrow> K c (Let (v9 :: 'w :: len word) f9)" "(\<And>x. x = v0 \<Longrightarrow> K c (f0 x)) \<Longrightarrow> K c (Let (v0 :: server) f0)"
  by simp_all

lemma cases:
  "(b \<Longrightarrow> K c x) \<Longrightarrow> (\<not> b \<Longrightarrow> K c y) \<Longrightarrow> K c (if b then x else y)"
  "(\<And>v. oo = Some v \<Longrightarrow> K c (f v)) \<Longrightarrow> (oo = None \<Longrightarrow> K c x) \<Longrightarrow> K c (case oo of None \<Rightarrow> x | Some v \<Rightarrow> f v)"
  "(\<And>v vs. l = v # vs \<Longrightarrow> K c (g v vs)) \<Longrightarrow> (l = [] \<Longrightarrow> K c x) \<Longrightarrow> K c (case l of [] \<Rightarrow> x | v # vs \<Rightarrow> g v vs)"
  "(\<And>u v. p = (u, v) \<Longrightarrow> K c (h u v)) \<Longrightarrow> K c (case p of (u, v) \<Rightarrow> h u v)"
  "(\<And>u. z = Inl u \<Longrightarrow> K c (i u)) \<Longrightarrow> (\<And>v. z = Inr v \<Longrightarrow> K c (j v)) \<Longrightarrow> K c (case z of Inl u \<Rightarrow> i u | Inr v \<Rightarrow> j v)"
  "(w \<Longrightarrow> K c x) \<Longrightarrow> (\<not> w \<Longrightarrow> K c y) \<Longrightarrow> K c (case w of True \<Rightarrow> x | False \<Rightarrow> y)"
  by (simp_all split: option.split list.split prod.split sum.split bool.split)

lemma loop: "K c d \<Longrightarrow> (\<And>x d. K c d \<Longrightarrow> K c (f x d)) \<Longrightarrow> K c (fold f xs d)"
  by (induction xs arbitrary: d) auto

lemma loop_snd: "K c (snd st) \<Longrightarrow> (\<And>x st. K c (snd st) \<Longrightarrow> K c (snd (f x st))) \<Longrightarrow> K c (snd (fold f xs st))"
  by (induction xs arbitrary: st) auto

lemmas intros = replies Let_conn Let_pair Let_tuple Let_value cases loop

end

interpretation hushing: handler_frame hush
  by unfold_locales simp

lemma hushing_upd_srv [hushed]: "hush c d \<Longrightarrow> quiet (cn_server d) (f (cn_server d)) \<Longrightarrow> hush c (upd_srv f d)"
  by (rule hush_upd_srv)

definition kept :: "conn \<Rightarrow> conn \<Rightarrow> bool" where
  "kept c d \<longleftrightarrow> safe (cn_server c) (cn_server d) \<and> my_id d = my_id c \<and> ss_registered (cn_ses d) = ss_registered (cn_ses c)"

interpretation kept: handler_frame kept
proof
  show "kept s s" for s by (simp add: kept_def)
  show "kept s t \<Longrightarrow> kept t u \<Longrightarrow> kept s u" for s t u by (auto simp: kept_def intro: safe.frame_trans)
  show "hush c d \<Longrightarrow> kept c d" for c d using hush_fields(1,3,9) [of c d] by (auto simp: kept_def intro: safe_quiet)
qed

declare kept.frame_refl [simp]

lemma keptD:
  assumes "kept c d"
  shows "safe (cn_server c) (cn_server d)" "tame (cn_server c) (cn_server d)" "my_id d = my_id c"
    "ss_registered (cn_ses d) = ss_registered (cn_ses c)" "my_nick d = my_nick c"
    "cd_registered (my_data d) = cd_registered (my_data c)" "set (cd_channels (my_data d)) \<subseteq> set (cd_channels (my_data c))"
proof -
  show "safe (cn_server c) (cn_server d)" "my_id d = my_id c" "ss_registered (cn_ses d) = ss_registered (cn_ses c)"
    using assms by (simp_all add: kept_def)
  show t: "tame (cn_server c) (cn_server d)" using assms by (simp add: kept_def safe_def)
  show "my_nick d = my_nick c" "cd_registered (my_data d) = cd_registered (my_data c)" "set (cd_channels (my_data d)) \<subseteq> set (cd_channels (my_data c))"
    using tame_fields(9,10) [OF t] tameD(3) [OF t, of "my_id c"] assms
    by (simp_all add: my_nick_def entry_nick_def my_data_def my_entry_def kept_def)
qed

lemma conn_ok_kept:
  assumes "conn_ok c" "kept c d"
  shows "conn_ok d"
proof -
  note k = keptD [OF assms(2)]
  have "net_ok (cn_server d)" "client_ok (cn_server d)"
    using assms(1) k(1) client_ok_tame [OF k(2)] by (simp_all add: conn_ok_def safe_def)
  moreover have "session_ok d"
    using assms(1) k(3-7) tame_fields(3) [OF k(2)] by (auto simp: conn_ok_def session_ok_def)
  ultimately show ?thesis by (simp add: conn_ok_def)
qed

subsection \<open>Building up the frame\<close>

named_theorems kepts \<open>how the frame of a handler is built up\<close>

declare kept.intros [kepts]

lemmas kept_hush = kept.after_hush
lemmas kept_replies = kept.replies

lemma kept_upd_srv [kepts]: "kept c d \<Longrightarrow> safe (cn_server d) (f (cn_server d)) \<Longrightarrow> kept c (upd_srv f d)"
  by (auto simp: kept_def intro: safe.frame_trans)

lemma kept_set_server [kepts]: "kept c d \<Longrightarrow> safe (cn_server d) s \<Longrightarrow> kept c (d\<lparr>cn_server := s\<rparr>)"
  by (auto simp: kept_def my_id_def intro: safe.frame_trans)

lemma kept_set_auth [kepts]: "kept c d \<Longrightarrow> kept c (d\<lparr>cn_auth := a\<rparr>)"
  by (simp add: kept_def my_id_def)

lemma kept_upd_ses [kepts]:
  "kept c d \<Longrightarrow> ss_id (f (cn_ses d)) = ss_id (cn_ses d) \<Longrightarrow> ss_registered (f (cn_ses d)) = ss_registered (cn_ses d) \<Longrightarrow> kept c (upd_ses f d)"
  by (simp add: kept_def my_id_def)

lemma kept_upd_me [kepts]: "kept c d \<Longrightarrow> same_client (my_data d) (f (my_data d)) \<Longrightarrow> kept c (upd_me f d)"
  unfolding upd_me_def by (rule kept_upd_srv) (auto simp: my_data_def my_entry_def intro: safe_upd_client_data)

lemma kept_observe [kepts]: "kept c d \<Longrightarrow> kept c (observe hook d)"
  by (auto simp: observe_def split: option.split intro: kept_upd_srv safe_plugin_actions)

lemma conn_ok_reply [simp]: "conn_ok c \<Longrightarrow> conn_ok (numeric n ps t c)" "conn_ok c \<Longrightarrow> conn_ok (need_more_params k c)"
  "conn_ok c \<Longrightarrow> conn_ok (fail_reply x y z v c)"
  by (erule conn_ok_kept, simp add: kept_replies)+

text \<open>Output and the other registries are no part of the frame.\<close>

lemma same_client_refl [simp]: "same_client d d"
  by (simp add: same_client_def)

lemmas safe_outputs [simp] =
  safe_quiet [OF quiet_send_client] safe_quiet [OF quiet_to_client] safe_quiet [OF quiet_to_channel(1)]
  safe_quiet [OF quiet_to_channel(2)] safe_quiet [OF quiet_to_channel(3)] safe_quiet [OF quiet_to_channel_filtered]
  safe_quiet [OF quiet_broadcast] safe_quiet [OF quiet_upd_history] safe_quiet [OF quiet_record_channel_event]
  safe_quiet [OF quiet_record_whowas] safe_quiet [OF quiet_monitor(1)] safe_quiet [OF quiet_monitor(3)]
  safe_quiet [OF quiet_extended_monitors] safe_quiet [OF quiet_propagate_msg] safe_quiet [OF quiet_request_kill]
  safe_quiet [OF quiet_send_towards] safe_quiet [OF quiet_wallops] safe_quiet [OF quiet_relay(1)] safe_quiet [OF quiet_relay(2)]
  safe_quiet [OF quiet_broadcast_rename] safe_quiet [OF quiet_send_to_peers] safe_quiet [OF quiet_propagate(1)]
  safe_quiet [OF quiet_next_msgid] safe_quiet [OF quiet_kill_clients] safe_quiet [OF quiet_send_to_link]

lemma safe_propagations [simp]:
  "safe s (propagate_sjoin i n p s)" "safe s (propagate_spart i n r s)" "safe s (propagate_topic i n t a r s)"
  "safe s (propagate_mode i n fl ar s)" "safe s (propagate_kick i n t r s)" "safe s (propagate_away i m s)"
  "safe s (propagate_account i m s)" "safe s (propagate_setname i r s)" "safe s (propagate_umodes i r s)"
  "safe s (propagate_chghost i r s)" "safe s (propagate_wallops r t s)" "safe s (propagate_redact i n t r s)"
  "safe s (propagate_gline rm n t r s)" "safe s (propagate_nick_change i n s)" "safe s (propagate_rename i n t r s)"
  "safe s (introduce_local i s)" "safe s (withdraw_local i r s)"
  by (simp_all add: propagate_sjoin_def propagate_spart_def propagate_topic_def propagate_mode_def propagate_kick_def
    propagate_away_def propagate_account_def propagate_setname_def propagate_umodes_def propagate_chghost_def
    propagate_wallops_def propagate_redact_def propagate_gline_def propagate_rename_def propagate_nick_change_def
    introduce_local_def withdraw_local_def Let_def safe_after_quiet [OF safe_quiet [OF quiet_propagate(1)] quiet_propagate(1)] split: option.split)

end
