(* ===== verification/Ip.thy ===== *)
theory Ip
  imports Casemap
begin

text \<open>
  IP addresses as the standard library reads and prints them (\<open>str::parse::<IpAddr>\<close>, \<open>to_string\<close>), which
  \<open>WEBIRC\<close> relies on to bring an address into canonical form.
\<close>

datatype ip_addr = V4 nat nat nat nat | V6 "nat list"

definition hex_digit_of :: "char \<Rightarrow> nat option" where
  "hex_digit_of c =
     (let n = octet c
      in if 0x30 \<le> n \<and> n \<le> 0x39 then Some (n - 0x30)
         else if 0x61 \<le> n \<and> n \<le> 0x66 then Some (n - 0x61 + 10)
         else if 0x41 \<le> n \<and> n \<le> 0x46 then Some (n - 0x41 + 10)
         else None)"

definition digit_value :: "nat \<Rightarrow> char \<Rightarrow> nat option" where
  "digit_value radix c = Option.bind (hex_digit_of c) (\<lambda>d. if d < radix then Some d else None)"

text \<open>\<open>read_number\<close>: all the digits there are, at most \<open>max_digits\<close>, and at most \<open>limit\<close> in value.\<close>

definition read_number :: "nat \<Rightarrow> nat \<Rightarrow> bool \<Rightarrow> nat \<Rightarrow> string \<Rightarrow> (nat \<times> string) option" where
  "read_number radix max_digits allow_zero_prefix limit s =
     (let ds = takeWhile (\<lambda>c. digit_value radix c \<noteq> None) s;
          v = foldl (\<lambda>acc c. acc * radix + the (digit_value radix c)) 0 ds
      in if ds = [] \<or> max_digits < length ds \<or> \<not> allow_zero_prefix \<and> hd ds = CHR ''0'' \<and> 1 < length ds \<or> limit < v then None
         else Some (v, drop (length ds) s))"

definition read_separator :: "char \<Rightarrow> nat \<Rightarrow> (string \<Rightarrow> ('a \<times> string) option) \<Rightarrow> string \<Rightarrow> ('a \<times> string) option" where
  "read_separator sep index inner s =
     (if index = 0 then inner s else case s of c # r \<Rightarrow> if c = sep then inner r else None | [] \<Rightarrow> None)"

definition read_octet :: "nat \<Rightarrow> string \<Rightarrow> (nat \<times> string) option" where
  "read_octet i = read_separator (CHR ''.'') i (read_number 10 3 False 255)"

definition read_ipv4 :: "string \<Rightarrow> ((nat \<times> nat \<times> nat \<times> nat) \<times> string) option" where
  "read_ipv4 s =
     Option.bind (read_octet 0 s) (\<lambda>(a, s). Option.bind (read_octet 1 s) (\<lambda>(b, s).
     Option.bind (read_octet 2 s) (\<lambda>(c, s). map_option (\<lambda>(d, s). ((a, b, c, d), s)) (read_octet 3 s))))"

primrec read_groups :: "nat \<Rightarrow> nat \<Rightarrow> string \<Rightarrow> nat list \<times> bool \<times> string" where
  "read_groups 0 i s = ([], False, s)"
| "read_groups (Suc n) i s =
     (case (if 0 < n then read_separator (CHR '':'') i read_ipv4 s else None) of
        Some ((a, b, c, d), r) \<Rightarrow> ([a * 256 + b, c * 256 + d], True, r)
      | None \<Rightarrow>
          (case read_separator (CHR '':'') i (read_number 16 4 True 65535) s of
             None \<Rightarrow> ([], False, s)
           | Some (g, r) \<Rightarrow> (let (gs, v4, r) = read_groups n (Suc i) r in (g # gs, v4, r))))"

definition read_ipv6 :: "string \<Rightarrow> (nat list \<times> string) option" where
  "read_ipv6 s =
     (let (head, head_ipv4, r) = read_groups 8 0 s
      in if length head = 8 then Some (head, r)
         else if head_ipv4 then None
         else case strip_prefix ''::'' r of
                None \<Rightarrow> None
              | Some r \<Rightarrow>
                  (let (tail, _, r) = read_groups (8 - (length head + 1)) 0 r
                   in Some (head @ replicate (8 - length head - length tail) 0 @ tail, r)))"

definition parse_ip :: "string \<Rightarrow> ip_addr option" where
  "parse_ip s =
     (case read_ipv4 s of
        Some ((a, b, c, d), []) \<Rightarrow> Some (V4 a b c d)
      | _ \<Rightarrow> (case read_ipv6 s of Some (gs, []) \<Rightarrow> Some (V6 gs) | _ \<Rightarrow> None))"

subsection \<open>Printing\<close>

definition show_ipv4 :: "nat \<Rightarrow> nat \<Rightarrow> nat \<Rightarrow> nat \<Rightarrow> string" where
  "show_ipv4 a b c d = dec a @ ''.'' @ dec b @ ''.'' @ dec c @ ''.'' @ dec d"

text \<open>The first longest run of zero groups: its start and length.\<close>

definition zero_run :: "nat list \<Rightarrow> nat \<times> nat" where
  "zero_run gs =
     fst (fold (\<lambda>(i, g) (longest, current).
       if g = 0 then
         (let current = (if snd current = 0 then (i, 1) else (fst current, snd current + 1))
          in (if snd longest < snd current then current else longest, current))
       else (longest, (0, 0))) (enumerate 0 gs) ((0, 0), (0, 0)))"

definition show_groups :: "nat list \<Rightarrow> string" where
  "show_groups gs = join '':'' (map hex gs)"

definition show_ip :: "ip_addr \<Rightarrow> string" where
  "show_ip a =
     (case a of
        V4 a b c d \<Rightarrow> show_ipv4 a b c d
      | V6 gs \<Rightarrow>
          if take 6 gs = [0, 0, 0, 0, 0, 65535]
          then ''::ffff:'' @ show_ipv4 (gs ! 6 div 256) (gs ! 6 mod 256) (gs ! 7 div 256) (gs ! 7 mod 256)
          else
            (let (start, len) = zero_run gs
             in if 1 < len then show_groups (take start gs) @ ''::'' @ show_groups (drop (start + len) gs)
                else show_groups gs))"

end
