(* ===== verification/Handshake.thy ===== *)
theory Handshake
  imports Frames Ip
begin

text \<open>
  The commands a client may send before it is registered, and those that change its own identity
  (\<open>ferrixd/src/command.rs\<close>): capability negotiation, SASL, account registration, nickname, user name,
  password, gateways, away and real name. A handler is a function from the parameters of the command and
  the connection to the connection after it.
\<close>

subsection \<open>Helpers\<close>

definition truncate_chars :: "string \<Rightarrow> nat \<Rightarrow> string" where
  "truncate_chars text n = concat (take n (chars text))"

definition cn_event :: "conn \<Rightarrow> string \<Rightarrow> event" where
  "cn_event c body = with_account (my_account c) (with_time (now_time c) (event_new body))"

definition my_user :: "conn \<Rightarrow> string" where "my_user c = cd_user (my_data c)"

definition my_host :: "conn \<Rightarrow> string" where "my_host c = cd_host (my_data c)"

definition my_line :: "conn \<Rightarrow> string \<Rightarrow> line" where
  "my_line c command = line_command (line_user (my_nick c) (my_user c) (my_host c)) command"

text \<open>An event for every other member of the client's channels, once each.\<close>

definition propagate_member :: "nat \<Rightarrow> event \<Rightarrow> cap option \<Rightarrow> nat \<Rightarrow> nat list \<times> server \<Rightarrow> nat list \<times> server" where
  "propagate_member me e required j st =
     (case st of (seen, s) \<Rightarrow>
        if j = me then (seen, s)
        else if (case required of Some k \<Rightarrow> \<not> has (entry_caps (entries s j)) k | None \<Rightarrow> False) then (seen, s)
        else if j \<in> set seen then (seen, s)
        else (hs_insert j seen, to_client j e s))"

definition propagate_channel :: "nat \<Rightarrow> event \<Rightarrow> cap option \<Rightarrow> string \<Rightarrow> nat list \<times> server \<Rightarrow> nat list \<times> server" where
  "propagate_channel me e required folded st =
     (case st of (seen, s) \<Rightarrow>
        (case find_channel s folded of
           None \<Rightarrow> (seen, s)
         | Some h \<Rightarrow> fold (propagate_member me e required) (keys_of (ch_members (cdata s h))) (seen, s)))"

definition propagate_event :: "event \<Rightarrow> cap option \<Rightarrow> bool \<Rightarrow> conn \<Rightarrow> nat list \<times> conn" where
  "propagate_event e required include_self c =
     (let (seen, s) = fold (propagate_channel (my_id c) e required) (cd_channels (my_data c)) ([my_id c], cn_server c);
          c = c\<lparr>cn_server := s\<rparr>
      in (seen, if include_self then deliver_self e c else c))"

definition propagate_monitored :: "event \<Rightarrow> cap \<Rightarrow> bool \<Rightarrow> conn \<Rightarrow> conn" where
  "propagate_monitored e required include_self c =
     (let (seen, c) = propagate_event e (Some required) include_self c
      in upd_srv (notify_extended_monitors (fold_c c (my_nick c)) e required seen) c)"

definition announce_account :: "string option \<Rightarrow> conn \<Rightarrow> conn" where
  "announce_account account c =
     (let nick = my_nick c;
          body = line_body (line_param (my_line c ''ACCOUNT'') (unwrap_star account));
          c = propagate_monitored (cn_event c body) AccountNotify False c;
          c = upd_srv (propagate_account (my_id c) account) c
      in observe (\<lambda>host. ph_on_account host nick account) c)"

text \<open>A hook that can veto: its answer, with its actions carried out.\<close>

definition consult :: "(plugin_host \<Rightarrow> plugin_outcome) \<Rightarrow> conn \<Rightarrow> plugin_outcome option \<times> conn" where
  "consult hook c = (map_option hook (plugins (cn_server c)), observe hook c)"

definition vetoed :: "plugin_outcome option \<Rightarrow> bool" where
  "vetoed oc \<longleftrightarrow> (case oc of Some x \<Rightarrow> po_verdict x = Block | None \<Rightarrow> False)"

definition veto_reason :: "plugin_outcome option \<Rightarrow> string \<Rightarrow> string" where
  "veto_reason oc text = (case Option.bind oc po_reason of Some r \<Rightarrow> r | None \<Rightarrow> text)"

subsection \<open>Capabilities\<close>

definition cap_line :: "conn \<Rightarrow> string \<Rightarrow> string \<Rightarrow> string \<Rightarrow> line" where
  "cap_line c target sub text =
     line_trailing (line_param (line_param (line_command (line_server (server_name c)) ''CAP'') target) sub) text"

definition cmd_cap :: "string list \<Rightarrow> conn \<Rightarrow> conn" where
  "cmd_cap params c =
     (case params of
        [] \<Rightarrow> c
      | sub # rest \<Rightarrow>
          (let target = nick_or_star c; upper = map to_ascii_uppercase sub
           in if upper = ''LS'' then
                (let c = upd_ses (\<lambda>s. s\<lparr>ss_cap_negotiating := True\<rparr>) c;
                     c = (case rest of v # _ \<Rightarrow> if v = ''302'' then upd_ses (\<lambda>s. s\<lparr>ss_cap_version := 302\<rparr>) c else c | [] \<Rightarrow> c)
                 in send_to_me (cap_line c target ''LS'' (ls_line (sts_token c))) c)
              else if upper = ''LIST'' then send_to_me (cap_line c target ''LIST'' (list_line (my_caps c))) c
              else if upper = ''REQ'' then
                (let c = upd_ses (\<lambda>s. s\<lparr>ss_cap_negotiating := True\<rparr>) c;
                     requested = (case rest of r # _ \<Rightarrow> r | [] \<Rightarrow> [])
                 in case parse_req requested of
                      ReqOk changes \<Rightarrow>
                        (let c = upd_srv (upd_client (my_id c) (set_caps (apply_changes changes (my_caps c)))) c
                         in send_to_me (cap_line c target ''ACK'' requested) c)
                    | Unknown \<Rightarrow> send_to_me (cap_line c target ''NAK'' requested) c)
              else if upper = ''END'' then
                (let c = upd_ses (\<lambda>s. s\<lparr>ss_cap_negotiating := False\<rparr>) c;
                     c = (if \<not> ss_registered (cn_ses c) \<and> \<not> ss_isupport_sent (cn_ses c) \<and> has (my_caps c) ExtendedIsupport
                          then upd_ses (\<lambda>s. s\<lparr>ss_isupport_sent := True\<rparr>) (send_isupport c) else c)
                 in maybe_register c)
              else numeric ERR_INVALIDCAPCMD [upper] (Some ''Invalid CAP subcommand'') c))"

subsection \<open>SASL\<close>

definition upd_sasl :: "(sasl_session \<Rightarrow> sasl_session) \<Rightarrow> conn \<Rightarrow> conn" where
  "upd_sasl f c = upd_ses (\<lambda>s. s\<lparr>ss_sasl := f (ss_sasl s)\<rparr>) c"

definition sasl_fail :: "conn \<Rightarrow> conn" where
  "sasl_fail c = numeric ERR_SASLFAIL [] (Some ''SASL authentication failed'') c"

definition sasl_success :: "string \<Rightarrow> conn \<Rightarrow> conn" where
  "sasl_success account c =
     (let c = upd_me (\<lambda>d. d\<lparr>cd_account := Some account\<rparr>) c;
          c = announce_account (Some account) c;
          user = (if my_user c = [] then ''*'' else my_user c);
          hostmask = mask_of (my_nick c) user (my_host c);
          c = numeric RPL_LOGGEDIN [hostmask, account] (Some (''You are now logged in as '' @ account)) c
      in numeric RPL_SASLSUCCESS [] (Some ''SASL authentication successful'') c)"

text \<open>\<open>String::from_utf8_lossy\<close>: how many octets the next character takes, or the next ill-formed piece.\<close>

definition utf8_piece :: "string \<Rightarrow> bool \<times> nat" where
  "utf8_piece s =
     (case s of
        [] \<Rightarrow> (True, 0)
      | a # s \<Rightarrow>
          if octet a < 0x80 then (True, 1)
          else if in_range 0xC2 a 0xDF then
            (case s of b # _ \<Rightarrow> if is_cont b then (True, 2) else (False, 1) | [] \<Rightarrow> (False, 1))
          else if in_range 0xE0 a 0xEF then
            (case s of
               b # t \<Rightarrow>
                 if in_range (if octet a = 0xE0 then 0xA0 else 0x80) b (if octet a = 0xED then 0x9F else 0xBF)
                 then (case t of x # _ \<Rightarrow> if is_cont x then (True, 3) else (False, 2) | [] \<Rightarrow> (False, 2))
                 else (False, 1)
             | [] \<Rightarrow> (False, 1))
          else if in_range 0xF0 a 0xF4 then
            (case s of
               b # t \<Rightarrow>
                 if in_range (if octet a = 0xF0 then 0x90 else 0x80) b (if octet a = 0xF4 then 0x8F else 0xBF)
                 then (case t of
                         x # u \<Rightarrow> if is_cont x then (case u of y # _ \<Rightarrow> if is_cont y then (True, 4) else (False, 3) | [] \<Rightarrow> (False, 3))
                                  else (False, 2)
                       | [] \<Rightarrow> (False, 2))
                 else (False, 1)
             | [] \<Rightarrow> (False, 1))
          else (False, 1))"

lemma utf8_piece_pos: "s \<noteq> [] \<Longrightarrow> 0 < snd (utf8_piece s)"
  by (auto simp: utf8_piece_def split: list.split)

function utf8_lossy :: "string \<Rightarrow> string" where
  "utf8_lossy s =
     (if s = [] then []
      else case utf8_piece s of
             (ok, n) \<Rightarrow> (if ok then take n s else map char_of [0xEF, 0xBF, 0xBD :: nat]) @ utf8_lossy (drop n s))"
  by pat_completeness auto
termination
proof (relation "measure length", goal_cases)
  case (2 s ok n)
  then show ?case using utf8_piece_pos [of s] by (cases "utf8_piece s") auto
qed simp

definition sasl_verify :: "mechanism \<Rightarrow> string \<Rightarrow> conn \<Rightarrow> string option" where
  "sasl_verify mechanism data c =
     (case mechanism of
        Plain \<Rightarrow>
          Option.bind (decode_plain data) (\<lambda>(authz, authcid, password).
            verify_password (au_crypto (cn_auth c)) (au_accounts (cn_auth c)) authcid password)
      | External \<Rightarrow>
          Option.bind (ss_cert_fp (cn_ses c)) (\<lambda>fp. verify_fingerprint (au_accounts (cn_auth c)) (utf8_lossy data) fp)
      | Scram \<Rightarrow> None)"

definition finish_sasl :: "mechanism \<Rightarrow> string \<Rightarrow> conn \<Rightarrow> conn" where
  "finish_sasl mechanism data c =
     (let c = upd_sasl sasl_reset c
      in case sasl_verify mechanism data c of
           Some account \<Rightarrow> sasl_success account c
         | None \<Rightarrow> sasl_fail c)"

definition auth_line :: "string \<Rightarrow> line" where
  "auth_line payload = line_param (line_command line_bare ''AUTHENTICATE'') payload"

definition scram_step :: "string \<Rightarrow> conn \<Rightarrow> conn" where
  "scram_step data c =
     (if \<not> utf8_valid data then sasl_fail (upd_sasl sasl_reset c)
      else
        (let phase = sasl_scram (ss_sasl (cn_ses c)); c = upd_sasl (\<lambda>s. s\<lparr>sasl_scram := Idle\<rparr>) c;
             cr = au_crypto (cn_auth c)
         in case phase of
              AwaitingClientFirst \<Rightarrow>
                (let (entropy, au) = draw (cn_auth c); c = c\<lparr>cn_auth := au\<rparr>
                 in case random_nonce entropy of
                      None \<Rightarrow> sasl_fail (upd_sasl sasl_reset c)
                    | Some nonce \<Rightarrow>
                        (case exchange_start cr data nonce (scram_lookup (au_accounts (cn_auth c))) of
                           Some (exchange, server_first) \<Rightarrow>
                             upd_sasl (\<lambda>s. s\<lparr>sasl_scram := AwaitingClientFinal exchange\<rparr>)
                               (send_to_me (auth_line (cr_b64_encode cr server_first)) c)
                         | None \<Rightarrow> sasl_fail (upd_sasl sasl_reset c)))
            | AwaitingClientFinal exchange \<Rightarrow>
                (case exchange_finish cr exchange data of
                   Some server_final \<Rightarrow>
                     upd_sasl (\<lambda>s. s\<lparr>sasl_scram := AwaitingFinalAck (ex_account exchange)\<rparr>)
                       (send_to_me (auth_line (cr_b64_encode cr server_final)) c)
                 | None \<Rightarrow> sasl_fail (upd_sasl sasl_reset c))
            | AwaitingFinalAck account \<Rightarrow> sasl_success account (upd_sasl sasl_reset c)
            | Idle \<Rightarrow> sasl_fail (upd_sasl sasl_reset c)))"

definition sasl_continue :: "mechanism \<Rightarrow> string \<Rightarrow> conn \<Rightarrow> conn" where
  "sasl_continue mechanism chunk c =
     (let (r, sasl) = push_chunk (au_crypto (cn_auth c)) chunk (ss_sasl (cn_ses c));
          c = upd_sasl (\<lambda>_. sasl) c
      in case r of
           NeedMore \<Rightarrow> c
         | Invalid \<Rightarrow> numeric ERR_SASLTOOLONG [] (Some ''SASL message too long'') (upd_sasl sasl_reset c)
         | Complete data \<Rightarrow> if mechanism = Scram then scram_step data c else finish_sasl mechanism data c)"

definition cmd_authenticate :: "string list \<Rightarrow> conn \<Rightarrow> conn" where
  "cmd_authenticate params c =
     (if \<not> ss_registered (cn_ses c) \<and> my_account c \<noteq> None then
        numeric ERR_SASLALREADY [] (Some ''You have already authenticated using SASL'') c
      else if \<not> has (my_caps c) Sasl then sasl_fail c
      else case params of
        [] \<Rightarrow> sasl_fail c
      | payload # _ \<Rightarrow>
          if payload = ''*'' then numeric ERR_SASLABORTED [] (Some ''SASL authentication aborted'') (upd_sasl sasl_reset c)
          else
            (case sasl_mechanism (ss_sasl (cn_ses c)) of
               None \<Rightarrow>
                 (case mechanism_from_name payload of
                    Some mechanism \<Rightarrow>
                      (let c = upd_sasl (\<lambda>s. s\<lparr>sasl_mechanism := Some mechanism\<rparr>) c;
                           c = (if mechanism = Scram then upd_sasl (\<lambda>s. s\<lparr>sasl_scram := AwaitingClientFirst\<rparr>) c else c)
                       in send_to_me (auth_line ''+'') c)
                  | None \<Rightarrow> sasl_fail c)
             | Some mechanism \<Rightarrow> sasl_continue mechanism payload c))"

subsection \<open>Registration of accounts and channels\<close>

definition register_fail :: "string \<Rightarrow> string list \<Rightarrow> string \<Rightarrow> conn \<Rightarrow> conn" where
  "register_fail code ctx text c = fail_reply ''REGISTER'' code ctx text c"

definition register_done :: "string \<Rightarrow> string \<Rightarrow> conn \<Rightarrow> conn" where
  "register_done name text c =
     send_to_me (line_trailing (line_param (line_param (line_command (line_server (server_name c)) ''REGISTER'') ''SUCCESS'') name) text) c"

definition register_channel_cmd :: "string \<Rightarrow> conn \<Rightarrow> conn" where
  "register_channel_cmd name c =
     (case my_account c of
        None \<Rightarrow> register_fail ''ACCOUNT_REQUIRED'' [name] ''You must be logged in to register a channel'' c
      | Some account \<Rightarrow>
          (let folded = fold_c c name
           in case find_channel (cn_server c) folded of
                None \<Rightarrow> register_fail ''INVALID_CHANNEL'' [name] ''No such channel'' c
              | Some h \<Rightarrow>
                  (let d = cdata (cn_server c) h; display = ch_name d;
                       is_op = (case get (ch_members d) (my_id c) of Some p \<Rightarrow> mp_op p | None \<Rightarrow> False)
                   in if \<not> is_op then
                        register_fail ''CHANOPRIVSNEEDED'' [display] ''You must be a channel operator to register it'' c
                      else
                        (case register_channel folded account (cn_server c) of
                           (False, s) \<Rightarrow>
                             register_fail ''ALREADY_REGISTERED'' [display] ''Channel is already registered'' (c\<lparr>cn_server := s\<rparr>)
                         | (True, s) \<Rightarrow> register_done display (''Channel registered to '' @ account) (c\<lparr>cn_server := s\<rparr>)))))"

definition register_account :: "string \<Rightarrow> string \<Rightarrow> conn \<Rightarrow> conn" where
  "register_account name password c =
     (if \<not> is_valid_nick name then register_fail ''BAD_ACCOUNT_NAME'' [name] ''Invalid account name'' c
      else if account_exists (au_accounts (cn_auth c)) name then
        register_fail ''ACCOUNT_EXISTS'' [name] ''Account already exists'' c
      else
        (let (e1, au) = draw (cn_auth c); (e2, au) = draw au; c = c\<lparr>cn_auth := au\<rparr>
         in case set_password (au_crypto au) e1 e2 name password (au_accounts au) of
              None \<Rightarrow> register_fail ''TEMPORARILY_UNAVAILABLE'' [name] ''Registration failed'' c
            | Some st \<Rightarrow>
                (let c = c\<lparr>cn_auth := persist_account (cn_server c) name (au\<lparr>au_accounts := st\<rparr>)\<rparr>;
                     c = upd_me (\<lambda>d. d\<lparr>cd_account := Some name\<rparr>) c;
                     c = announce_account (Some name) c
                 in register_done name ''Account registered and logged in'' c)))"

definition cmd_register :: "string list \<Rightarrow> conn \<Rightarrow> conn" where
  "cmd_register params c =
     (case params of
        [] \<Rightarrow> register_fail ''NEED_MORE_PARAMS'' [] ''Not enough parameters'' c
      | account # rest \<Rightarrow>
          if is_valid_channel account then register_channel_cmd account c
          else
            (case rest of
               _ # password # _ \<Rightarrow> register_account (if account = ''*'' then my_nick c else account) password c
             | _ \<Rightarrow> register_fail ''NEED_MORE_PARAMS'' [] ''Not enough parameters'' c))"

subsection \<open>Nicknames\<close>

definition record_renick :: "string \<Rightarrow> string \<Rightarrow> string \<Rightarrow> server \<Rightarrow> server" where
  "record_renick src new folded s =
     (case find_channel s folded of
        None \<Rightarrow> s
      | Some h \<Rightarrow> record_channel_event folded (ch_name (cdata s h)) src message_kind.Nick new s)"

definition broadcast_nick_change :: "string \<Rightarrow> string \<Rightarrow> conn \<Rightarrow> conn" where
  "broadcast_nick_change old new c =
     (let user = my_user c; host = my_host c;
          e = cn_event c (line_body (line_trailing (line_command (line_user old user host) ''NICK'') new));
          c = deliver_self e c;
          c = snd (propagate_event e None False c)
      in upd_srv (fold (record_renick (mask_of old user host) new) (cd_channels (my_data c))) c)"

text \<open>What follows a successful claim.\<close>

definition announce_nick :: "string \<Rightarrow> string \<Rightarrow> conn \<Rightarrow> conn" where
  "announce_nick current nick c =
     (let c = upd_srv (record_whowas current (my_user c) (my_host c) (cd_realname (my_data c))) c;
          c = broadcast_nick_change current nick c;
          c = upd_srv (propagate_nick_change (my_id c) nick) c;
          c = upd_srv (monitor_offline current) c
      in upd_srv (monitor_online nick (entry_hostmask (my_entry c))) c)"

definition adopt_nick :: "string \<Rightarrow> string \<Rightarrow> conn \<Rightarrow> conn" where
  "adopt_nick current nick c0 =
     (let c = upd_me (\<lambda>d. d\<lparr>cd_nick := nick\<rparr>) c0
      in if ss_registered (cn_ses c) then announce_nick current nick c else maybe_register c)"

definition cmd_nick :: "string list \<Rightarrow> conn \<Rightarrow> conn" where
  "cmd_nick params c =
     (case params of
        [] \<Rightarrow> numeric ERR_NONICKNAMEGIVEN [] (Some ''No nickname given'') c
      | nick # _ \<Rightarrow>
          if \<not> is_valid_nick nick then numeric ERR_ERRONEUSNICKNAME [nick] (Some ''Erroneous nickname'') c
          else
            (let folded = fold_c c nick; current = my_nick c;
                 current_folded = (if current = ''*'' then [] else fold_c c current);
                 (oc, c) = (if ss_registered (cn_ses c) \<and> nick \<noteq> current then consult (\<lambda>host. ph_on_nick host current nick) c else (None, c))
             in if vetoed oc then
                  numeric ERR_ERRONEUSNICKNAME [nick] (Some (veto_reason oc ''Nickname change refused by server policy'')) c
                else if current_folded \<noteq> [] \<and> folded = current_folded then
                  (if current = nick then c
                   else
                     (let c = upd_me (\<lambda>d. d\<lparr>cd_nick := nick\<rparr>) c
                      in if ss_registered (cn_ses c)
                         then upd_srv (propagate_nick_change (my_id c) nick) (broadcast_nick_change current nick c)
                         else c))
                else
                  (case claim_nick folded (my_id c) (cn_server c) of
                     (False, s) \<Rightarrow> numeric ERR_NICKNAMEINUSE [nick] (Some ''Nickname is already in use'') (c\<lparr>cn_server := s\<rparr>)
                   | (True, s) \<Rightarrow>
                       adopt_nick current nick
                         ((if current_folded \<noteq> [] then upd_srv (release_nick current_folded) else id) (c\<lparr>cn_server := s\<rparr>)))))"

subsection \<open>User name, password, gateways, quits\<close>

definition cmd_user :: "string list \<Rightarrow> conn \<Rightarrow> conn" where
  "cmd_user params c =
     (if ss_registered (cn_ses c) then numeric ERR_ALREADYREGISTERED [] (Some ''You may not reregister'') c
      else case params of
             username # _ # _ # realname # _ \<Rightarrow>
               (let c = upd_me (\<lambda>d. d\<lparr>cd_user := ''~'' @ concat (take 10 (chars username)), cd_realname := realname\<rparr>) c
                in maybe_register (upd_ses (\<lambda>s. s\<lparr>ss_has_user := True\<rparr>) c))
           | _ \<Rightarrow> need_more_params ''USER'' c)"

definition cmd_ping :: "string list \<Rightarrow> conn \<Rightarrow> conn" where
  "cmd_ping params c =
     send_to_me (line_trailing (line_param (line_command (line_server (server_name c)) ''PONG'') (server_name c))
       (case params of token # _ \<Rightarrow> token | [] \<Rightarrow> [])) c"

definition set_quit :: "string \<Rightarrow> conn \<Rightarrow> conn" where
  "set_quit reason c = upd_ses (\<lambda>s. s\<lparr>ss_quit := Some reason\<rparr>) c"

definition cmd_quit :: "string list \<Rightarrow> conn \<Rightarrow> conn" where
  "cmd_quit params c = set_quit (''Quit: '' @ (case params of reason # _ \<Rightarrow> reason | [] \<Rightarrow> ''Client Quit'')) c"

definition cmd_setname :: "string list \<Rightarrow> conn \<Rightarrow> conn" where
  "cmd_setname params c =
     (case params of
        [] \<Rightarrow> need_more_params ''SETNAME'' c
      | newname # _ \<Rightarrow>
          (let c = upd_me (\<lambda>d. d\<lparr>cd_realname := newname\<rparr>) c;
               c = propagate_monitored (cn_event c (line_body (line_trailing (my_line c ''SETNAME'') newname))) SetName True c
           in upd_srv (propagate_setname (my_id c) newname) c))"

definition cmd_away :: "string list \<Rightarrow> conn \<Rightarrow> conn" where
  "cmd_away params c =
     (let (away_msg, ack) =
            (case params of
               msg # _ \<Rightarrow> if msg \<noteq> [] then (Some (truncate_chars msg MAX_AWAY_LEN), ''You have been marked as being away'')
                          else (None, ''You are no longer marked as being away'')
             | [] \<Rightarrow> (None, ''You are no longer marked as being away''));
          c = upd_me (\<lambda>d. d\<lparr>cd_away := away_msg\<rparr>) c;
          c = numeric (if away_msg \<noteq> None then RPL_NOWAWAY else RPL_UNAWAY) [] (Some ack) c
      in if \<not> ss_registered (cn_ses c) then c
         else
           (let nick = my_nick c;
                l = (case away_msg of Some msg \<Rightarrow> line_trailing (my_line c ''AWAY'') msg | None \<Rightarrow> my_line c ''AWAY'');
                c = propagate_monitored (cn_event c (line_body l)) AwayNotify False c;
                c = upd_srv (propagate_away (my_id c) away_msg) c
            in observe (\<lambda>host. ph_on_away host nick away_msg) c))"

definition cmd_pass :: "string list \<Rightarrow> conn \<Rightarrow> conn" where
  "cmd_pass params c =
     (if ss_registered (cn_ses c) then numeric ERR_ALREADYREGISTERED [] (Some ''You may not reregister'') c
      else case params of
             [] \<Rightarrow> need_more_params ''PASS'' c
           | password # _ \<Rightarrow> upd_ses (\<lambda>s. s\<lparr>ss_pass := Some password\<rparr>) c)"

definition cmd_webirc :: "string list \<Rightarrow> conn \<Rightarrow> conn" where
  "cmd_webirc params c =
     (if ss_first_command (cn_ses c) then set_quit ''WEBIRC command out of sequence'' c
      else
        (let c = upd_ses (\<lambda>s. s\<lparr>ss_first_command := True\<rparr>) c
         in case params of
              password # gateway # hostname # ip # opts \<Rightarrow>
                if \<not> webirc_authorize (cn_auth c) (ss_peer_ip (cn_ses c)) gateway password
                then set_quit ''WEBIRC authentication failed'' c
                else
                  (case parse_ip ip of
                     None \<Rightarrow> set_quit ''WEBIRC: invalid IP address'' c
                   | Some parsed \<Rightarrow>
                       (let real_ip = show_ip parsed
                        in case matches_dline (cn_server c) real_ip of
                             Some reason \<Rightarrow> set_quit (''D-Lined: '' @ reason) c
                           | None \<Rightarrow>
                               upd_me (\<lambda>d. (d\<lparr>cd_real_ip := real_ip, cd_host := hostname\<rparr>)
                                 \<lparr>cd_secure := cd_secure d \<or> ''secure'' \<in> set opts\<rparr>) c))
            | _ \<Rightarrow> set_quit ''WEBIRC: not enough parameters'' c))"

subsection \<open>What the handlers keep\<close>

lemma quiet_propagate_event:
  "quiet s (snd (fold (propagate_channel me e r) fs (l, s)))"
proof -
  have m: "quiet s (snd (propagate_member me e r j (a, s)))" for me j a s
    by (simp add: propagate_member_def)
  have "quiet s (snd (fold (propagate_member me e r) xs (seen, s)))" for me seen s xs
    using quiet_fold_snd [of "propagate_member me e r" "(seen, s)" xs] m by simp
  then have "quiet s (snd (propagate_channel me e r f (a, s)))" for me f a s
    by (simp add: propagate_channel_def split: option.split)
  then show ?thesis using quiet_fold_snd [of "propagate_channel me e r" "(l, s)" fs] by simp
qed

lemma kept_propagate_event [kepts]: "kept c d \<Longrightarrow> kept c (snd (propagate_event e r b d))"
  using quiet_propagate_event by (simp add: propagate_event_def split_beta Let_def kept_replies kept_set_server safe_quiet)

lemma kept_propagate_monitored [kepts]: "kept c d \<Longrightarrow> kept c (propagate_monitored e r b d)"
  unfolding propagate_monitored_def by (intro kepts) (simp_all add: kept_upd_srv)

lemma kept_announce_account [kepts]: "kept c d \<Longrightarrow> kept c (announce_account a d)"
  unfolding announce_account_def by (intro kepts) simp_all

lemma kept_consult [kepts]: "kept c d \<Longrightarrow> kept c (snd (consult hook d))"
  by (simp add: consult_def kept_observe)

lemma kept_upd_sasl [kepts]: "kept c d \<Longrightarrow> kept c (upd_sasl f d)"
  unfolding upd_sasl_def by (intro kepts) simp_all

lemma kept_sasl_fail [kepts]: "kept c d \<Longrightarrow> kept c (sasl_fail d)"
  unfolding sasl_fail_def by (intro kepts)

lemma kept_sasl_success [kepts]: "kept c d \<Longrightarrow> kept c (sasl_success a d)"
  unfolding sasl_success_def by (intro kepts) (simp_all add: same_client_def)

lemma kept_finish_sasl [kepts]: "kept c d \<Longrightarrow> kept c (finish_sasl m x d)"
  by (auto simp: finish_sasl_def Let_def intro: kepts split: option.split)

lemma kept_scram_step [kepts]: "kept c d \<Longrightarrow> kept c (scram_step x d)"
  by (auto simp: scram_step_def Let_def split_beta intro!: kepts split: option.split prod.split scram_phase.split)

lemma kept_sasl_continue [kepts]: "kept c d \<Longrightarrow> kept c (sasl_continue m x d)"
  by (auto simp: sasl_continue_def Let_def split_beta intro!: kepts split: chunk_result.split)

lemma kept_cmd_authenticate [kepts]: "kept c d \<Longrightarrow> kept c (cmd_authenticate ps d)"
  unfolding cmd_authenticate_def by (intro kepts) simp_all

lemma kept_register_fail [kepts]: "kept c d \<Longrightarrow> kept c (register_fail a b x d)"
  unfolding register_fail_def by (intro kepts)

lemma kept_register_done [kepts]: "kept c d \<Longrightarrow> kept c (register_done a b d)"
  unfolding register_done_def by (intro kepts)

lemma safe_register_channel: "safe s (snd (register_channel f a s))"
  by (simp add: register_channel_def store_send_def safe_cong Let_def split: option.split)

lemma kept_register_channel_cmd [kepts]: "kept c d \<Longrightarrow> kept c (register_channel_cmd n d)"
  using safe_register_channel
  by (fastforce simp: register_channel_cmd_def Let_def intro!: kepts split: option.split prod.split bool.split dest: arg_cong [of _ _ snd])

lemma kept_register_account [kepts]: "kept c d \<Longrightarrow> kept c (register_account n p d)"
  by (auto simp: register_account_def Let_def split_beta same_client_def intro!: kepts split: option.split)

lemma kept_cmd_register [kepts]: "kept c d \<Longrightarrow> kept c (cmd_register ps d)"
  by (auto simp: cmd_register_def intro!: kepts split: list.split)

lemma safe_record_renick: "safe s (record_renick a b f s)"
  by (simp add: record_renick_def split: option.split)

lemma kept_broadcast_nick_change [kepts]: "kept c d \<Longrightarrow> kept c (broadcast_nick_change a b d)"
  unfolding broadcast_nick_change_def by (intro kepts) (simp_all add: safe.frame_fold safe_record_renick)

lemma kept_cmd_ping [kepts]: "kept c d \<Longrightarrow> kept c (cmd_ping ps d)"
  unfolding cmd_ping_def by (intro kepts)

lemma kept_set_quit [kepts]: "kept c d \<Longrightarrow> kept c (set_quit r d)"
  unfolding set_quit_def by (intro kepts) simp_all

lemma kept_cmd_quit [kepts]: "kept c d \<Longrightarrow> kept c (cmd_quit ps d)"
  unfolding cmd_quit_def by (intro kepts)

lemma kept_cmd_setname [kepts]: "kept c d \<Longrightarrow> kept c (cmd_setname ps d)"
  by (auto simp: cmd_setname_def same_client_def intro!: kepts split: list.split)

lemma kept_cmd_away [kepts]: "kept c d \<Longrightarrow> kept c (cmd_away ps d)"
  by (auto simp: cmd_away_def same_client_def split_beta intro!: kepts)

lemma kept_cmd_pass [kepts]: "kept c d \<Longrightarrow> kept c (cmd_pass ps d)"
  by (auto simp: cmd_pass_def intro!: kepts split: list.split)

lemma kept_cmd_webirc [kepts]: "kept c d \<Longrightarrow> kept c (cmd_webirc ps d)"
  by (auto simp: cmd_webirc_def same_client_def intro!: kepts split: list.split option.split)

subsection \<open>Completing a registration\<close>

lemma kept_welcome_burst [kepts]: "kept c d \<Longrightarrow> kept c (welcome_burst d)"
  unfolding welcome_burst_def by (intro kepts) (simp_all add: kepts)

lemma kept_apply_cloak [kepts]: "kept c d \<Longrightarrow> kept c (apply_cloak d)"
  by (auto simp: apply_cloak_def same_client_def intro!: kepts split: option.split)

lemma client_ok_upd:
  assumes "client_ok s" "cd_nick (f (ce_data (entries s i))) = cd_nick (ce_data (entries s i))"
    "cd_monitor (f (ce_data (entries s i))) = cd_monitor (ce_data (entries s i))"
    "cd_registered (f (ce_data (entries s i))) \<or> cd_channels (f (ce_data (entries s i))) = []"
  shows "client_ok (upd_client_data i f s)"
proof -
  have "nick_key (upd_client_data i f s) = nick_key s"
    using assms(2) by (auto simp: fun_eq_iff nick_key_def upd_client_data_def upd_client_def fold_key_def)
  then show ?thesis
    using assms unfolding client_ok_def by (auto simp: upd_client_data_def upd_client_def)
qed

lemma my_upd_me [simp]:
  "my_data (upd_me f c) = f (my_data c)" "by_id (cn_server (upd_me f c)) = by_id (cn_server c)"
  by (simp_all add: my_data_def my_entry_def my_id_def upd_me_def upd_client_data_def upd_client_def upd_srv_def)

lemma my_data_upd_ses [simp]: "ss_id (g (cn_ses c)) = ss_id (cn_ses c) \<Longrightarrow> my_data (upd_ses g c) = my_data c"
  by (simp add: my_data_def my_entry_def my_id_def)

lemma my_nick_data: "my_nick c = cd_nick (my_data c)"
  by (simp add: my_nick_def entry_nick_def my_data_def)

lemma conn_ok_registered:
  assumes "conn_ok c" "my_nick c \<noteq> ''*''"
  shows "conn_ok (upd_me (\<lambda>d. d\<lparr>cd_registered := True\<rparr>) (upd_ses (\<lambda>s. s\<lparr>ss_registered := True\<rparr>) c))" (is "conn_ok ?d")
proof -
  have srv: "cn_server ?d = upd_client_data (my_id c) (\<lambda>d. d\<lparr>cd_registered := True\<rparr>) (cn_server c)"
    by (simp add: upd_me_def)
  have "net_ok (cn_server ?d)"
    unfolding srv upd_client_data_def using assms(1) by (subst net_ok_upd_client) (simp_all add: conn_ok_def)
  moreover have "client_ok (cn_server ?d)"
    unfolding srv by (rule client_ok_upd) (use assms(1) in \<open>simp_all add: conn_ok_def\<close>)
  moreover have "session_ok ?d"
    using assms by (simp add: conn_ok_def session_ok_def my_nick_data)
  ultimately show ?thesis by (simp add: conn_ok_def)
qed

lemma conn_ok_complete_registration:
  assumes "conn_ok c" "my_nick c \<noteq> ''*''"
  shows "conn_ok (complete_registration c)"
proof -
  define d where "d = upd_me (\<lambda>d. d\<lparr>cd_registered := True\<rparr>) (upd_ses (\<lambda>s. s\<lparr>ss_registered := True\<rparr>) (apply_cloak c))"
  have "kept c (apply_cloak c)" by (simp add: kepts)
  then have d: "conn_ok d"
    unfolding d_def using assms conn_ok_kept keptD(5) conn_ok_registered by metis
  have rest: "kept d (let nick = nick_or_star d; e = my_data d; c = welcome_burst d; c = upd_srv (introduce_local (my_id c)) c;
      c = upd_srv (monitor_online (my_nick c) (entry_hostmask (my_entry c))) c
    in observe (\<lambda>host. ph_on_connect host nick (cd_user e) (cd_host e) (my_account c)) c)"
    by (intro kepts) simp_all
  have fails: "kept c (upd_ses (\<lambda>s. s\<lparr>ss_quit := q\<rparr>) c)" "kept c (upd_ses (\<lambda>s. s\<lparr>ss_quit := q\<rparr>) (numeric n ps t c))" for q n ps t
    by (intro kepts; simp)+
  show ?thesis
    using conn_ok_kept [OF d rest] conn_ok_kept [OF assms(1) fails(1)] conn_ok_kept [OF assms(1) fails(2)]
    unfolding complete_registration_def d_def by (simp add: Let_def split: option.split)
qed

lemma conn_ok_maybe_register: "conn_ok c \<Longrightarrow> conn_ok (maybe_register c)"
  by (simp add: maybe_register_def has_nick_def conn_ok_complete_registration)

lemma conn_ok_cmd_user: "conn_ok c \<Longrightarrow> conn_ok (cmd_user ps c)"
proof -
  have "kept c (upd_ses (\<lambda>s. s\<lparr>ss_has_user := True\<rparr>) (upd_me (\<lambda>d. d\<lparr>cd_user := u, cd_realname := r\<rparr>) c))" for u r
    by (intro kepts) (simp_all add: same_client_def)
  then show "conn_ok c \<Longrightarrow> ?thesis"
    by (auto simp: cmd_user_def Let_def split: list.split intro!: conn_ok_maybe_register intro: conn_ok_kept)
qed

lemma kept_cap_end:
  "kept c (if b then upd_ses (\<lambda>s. s\<lparr>ss_isupport_sent := True\<rparr>) (send_isupport (upd_ses (\<lambda>s. s\<lparr>ss_cap_negotiating := False\<rparr>) c))
     else upd_ses (\<lambda>s. s\<lparr>ss_cap_negotiating := False\<rparr>) c)"
  by (auto intro!: kepts)

lemma safe_set_caps: "safe s (upd_client i (set_caps k) s)"
  by (rule safe_upd_client) (simp add: set_caps_def)

lemma conn_ok_cmd_cap:
  assumes "conn_ok c"
  shows "conn_ok (cmd_cap ps c)"
proof (cases ps)
  case (Cons sub rest)
  show ?thesis
  proof (cases "map to_ascii_uppercase sub = ''END''")
    case True
    then show ?thesis
      using conn_ok_maybe_register [OF conn_ok_kept [OF assms kept_cap_end]] by (simp add: cmd_cap_def Cons Let_def)
  next
    case False
    then have "kept c (cmd_cap ps c)"
      unfolding cmd_cap_def Cons by (intro kepts) (auto simp: safe_set_caps intro!: kepts split: req_parse.split)
    then show ?thesis by (rule conn_ok_kept [OF assms])
  qed
qed (simp add: cmd_cap_def assms)

subsection \<open>Nicknames have one owner\<close>

lemma fold_key_eq_Nil [simp]: "fold_key s n = [] \<longleftrightarrow> n = []"
  using casemap.fold_length [of "si_casemapping (info s)" n] by (simp add: fold_key_def flip: length_0_conv)

definition renicked :: "string \<Rightarrow> string \<Rightarrow> string \<Rightarrow> nat \<Rightarrow> server \<Rightarrow> server" where
  "renicked nick new old i s =
     upd_client_data i (\<lambda>d. d\<lparr>cd_nick := nick\<rparr>)
       ((if old \<noteq> [] then release_nick old else id) (s\<lparr>clients := put new i (clients s), by_id := hs_insert i (by_id s)\<rparr>))"

lemma renicked_fields:
  "info (renicked nick new old i s) = info s" "by_id (renicked nick new old i s) = hs_insert i (by_id s)"
  "monitors (renicked nick new old i s) = monitors s"
  "ce_data (entries (renicked nick new old i s) j) = (if j = i then (ce_data (entries s i))\<lparr>cd_nick := nick\<rparr> else ce_data (entries s j))"
  by (simp_all add: renicked_def upd_client_data_def upd_client_def release_nick_def)

lemma renicked_ok:
  assumes ok: "net_ok s" "client_ok s" and free: "get (clients s) new = None" and new: "new = fold_key s nick" "nick \<noteq> []" "nick \<noteq> ''*''"
    and old: "old = (if i \<in> set (by_id s) then nick_key s i else [])"
    and fresh: "i \<notin> set (by_id s) \<Longrightarrow> cd_channels (ce_data (entries s i)) = []"
  shows "net_ok (renicked nick new old i s)" "client_ok (renicked nick new old i s)"
proof -
  let ?t = "renicked nick new old i s"
  note f = renicked_fields [of nick new old i s]
  show "net_ok ?t"
  proof -
    have "local_index ?t = local_index s"
      using fresh by (auto simp: fun_eq_iff local_index_def f)
    moreover have "net_with (local_index s) ?t = net_with (local_index s) s"
      by (rule net_with_cong) (simp_all add: renicked_def upd_client_data_def upd_client_def release_nick_def)
    ultimately show ?thesis using ok(1) net_with_local [of s] net_with_local [of ?t] by simp
  qed
  have key: "nick_key ?t j = (if j = i then new else nick_key s j)" for j
    unfolding nick_key_def fold_key_def f using new(1) by (simp add: fold_key_def)
  have own: "get (clients s) g = Some j \<longleftrightarrow> j \<in> set (by_id s) \<and> g = nick_key s j" for g j
    using ok(2) unfolding client_ok_def by blast
  have ne: "old \<noteq> []" if "i \<in> set (by_id s)" using that ok(2) by (auto simp: old client_ok_def nick_key_def)
  have cl: "get (clients ?t) g = (if g = old \<and> old \<noteq> [] then None else if g = new then Some i else get (clients s) g)" for g
    by (simp add: renicked_def upd_client_data_def upd_client_def release_nick_def tbl)
  have "get (clients ?t) g = Some j \<longleftrightarrow> j \<in> set (by_id ?t) \<and> g = nick_key ?t j" for g j
  proof (cases "j = i")
    case True
    have "new \<noteq> []" using new by simp
    then have "old \<noteq> new" using own [of old i] free by (auto simp: old split: if_splits)
    moreover have "get (clients s) g = Some i \<Longrightarrow> g = old \<and> old \<noteq> []" using own [of g i] ne by (auto simp: old)
    ultimately show ?thesis unfolding cl key f True by auto
  next
    case False
    have "get (clients s) old = Some i" if "old \<noteq> []" using own [of old i] that by (auto simp: old split: if_splits)
    then show ?thesis unfolding cl key f using False own [of g j] free by auto
  qed
  then show "client_ok ?t"
    using ok(2) fresh new(2,3) unfolding client_ok_def by (auto simp: f)
qed

lemma conn_ok_same_fold:
  assumes "conn_ok c" "my_nick c \<noteq> ''*''" "fold_c c nick = fold_c c (my_nick c)" "nick \<noteq> []" "nick \<noteq> ''*''"
  shows "conn_ok (upd_me (\<lambda>d. d\<lparr>cd_nick := nick\<rparr>) c)" (is "conn_ok ?d")
proof -
  let ?s = "cn_server c" and ?t = "cn_server ?d"
  have t: "?t = upd_client_data (my_id c) (\<lambda>d. d\<lparr>cd_nick := nick\<rparr>) ?s" by (simp add: upd_me_def)
  have "nick_key ?t = nick_key ?s"
    using assms(3) by (auto simp: fun_eq_iff nick_key_def t upd_client_data_def upd_client_def fold_c_def fold_key_def my_nick_data my_data_def my_entry_def)
  then have "client_ok ?t"
    using assms(1,4,5) unfolding conn_ok_def client_ok_def by (auto simp: t upd_client_data_def upd_client_def)
  moreover have "net_ok ?t" unfolding t upd_client_data_def using assms(1) by (subst net_ok_upd_client) (simp_all add: conn_ok_def)
  moreover have "session_ok ?d" using assms(1,2,5) by (simp add: conn_ok_def session_ok_def my_nick_data)
  ultimately show ?thesis by (simp add: conn_ok_def)
qed

lemma valid_nick_proper: "is_valid_nick n \<Longrightarrow> n \<noteq> [] \<and> n \<noteq> ''*''"
proof -
  have "\<not> is_valid_nick ''*''" by code_simp
  then show "is_valid_nick n \<Longrightarrow> ?thesis" by (auto simp: is_valid_nick_def)
qed

lemma claim_nick_cases:
  assumes "client_ok s" "claim_nick new i s = (ok, t)" "i \<in> set (by_id s) \<Longrightarrow> new \<noteq> nick_key s i"
  shows "ok \<and> get (clients s) new = None \<and> get (remote_users s) new = None
      \<and> t = s\<lparr>clients := put new i (clients s), by_id := hs_insert i (by_id s)\<rparr>
    \<or> \<not> ok \<and> t = s \<and> (get (remote_users s) new \<noteq> None \<or> get (clients s) new \<noteq> None)"
proof -
  have "get (clients s) new \<noteq> Some i" using assms(1,3) unfolding client_ok_def by blast
  then show ?thesis using assms(2) by (auto simp: claim_nick_def split: option.splits if_splits)
qed

lemma conn_ok_renicked:
  assumes "conn_ok c" "get (clients (cn_server c)) (fold_c c nick) = None" "nick \<noteq> []" "nick \<noteq> ''*''"
    "old = (if my_nick c = ''*'' then [] else fold_c c (my_nick c))"
  shows "conn_ok (c\<lparr>cn_server := renicked nick (fold_c c nick) old (my_id c) (cn_server c)\<rparr>)" (is "conn_ok ?d")
proof -
  let ?s = "cn_server c" and ?i = "my_id c"
  have ses: "session_ok c" and ok: "net_ok ?s" "client_ok ?s" using assms(1) by (simp_all add: conn_ok_def)
  have old: "old = (if ?i \<in> set (by_id ?s) then nick_key ?s ?i else [])"
    using ses by (auto simp: assms(5) session_ok_def nick_key_def fold_c_def my_nick_data my_data_def my_entry_def)
  have fresh: "?i \<notin> set (by_id ?s) \<Longrightarrow> cd_channels (ce_data (entries ?s ?i)) = []"
    using ses by (auto simp: session_ok_def my_data_def my_entry_def)
  note r = renicked_ok [OF ok assms(2) _ assms(3,4) old fresh, unfolded fold_c_def, OF refl]
  have "session_ok ?d"
    using ses assms(4)
    by (auto simp: session_ok_def my_nick_data my_data_def my_entry_def my_id_def renicked_fields)
  then show ?thesis using r by (simp add: conn_ok_def fold_c_def)
qed

lemma my_nick_nonempty: "conn_ok c \<Longrightarrow> my_nick c \<noteq> []"
  by (cases "my_nick c = ''*''") (auto simp: conn_ok_def session_ok_def client_ok_def my_nick_data my_data_def my_entry_def)

lemma kept_announce_nick [kepts]: "kept c d \<Longrightarrow> kept c (announce_nick a b d)"
  unfolding announce_nick_def by (intro kepts) simp_all

lemma conn_ok_adopt_nick:
  assumes "conn_ok (upd_me (\<lambda>d. d\<lparr>cd_nick := nick\<rparr>) c)"
  shows "conn_ok (adopt_nick current nick c)"
  using conn_ok_kept [OF assms kept_announce_nick [OF kept.frame_refl]] conn_ok_maybe_register [OF assms] by (simp add: adopt_nick_def Let_def)

lemma conn_ok_cmd_nick:
  assumes ok: "conn_ok c"
  shows "conn_ok (cmd_nick ps c)"
proof (cases "ps = [] \<or> \<not> is_valid_nick (hd ps)")
  case False
  then obtain nick rest where ps: "ps = nick # rest" "is_valid_nick nick" by (cases ps) auto
  note proper = valid_nick_proper [OF ps(2)]
  define q where "q = (if ss_registered (cn_ses c) \<and> nick \<noteq> my_nick c then consult (\<lambda>host. ph_on_nick host (my_nick c) nick) c else (None, c))"
  obtain oc d where q: "q = (oc, d)" by fastforce
  have d: "kept c d" using q by (auto simp: q_def split: if_splits dest!: arg_cong [of _ _ snd] simp: kept_consult)
  have kd: "my_nick d = my_nick c" "my_id d = my_id c" "fold_c d = fold_c c" "conn_ok d" "fold_key (cn_server d) = fold_key (cn_server c)"
    using keptD [OF d] conn_ok_kept [OF ok d] tame_fields(1) [OF keptD(2) [OF d]]
    by (simp_all add: fold_c_def fold_key_def fun_eq_iff)
  show ?thesis
  proof (cases "\<not> vetoed oc \<and> (my_nick c \<noteq> ''*'' \<longrightarrow> fold_c c nick \<noteq> fold_c c (my_nick c))")
    case False
    let ?e = "upd_me (\<lambda>d. d\<lparr>cd_nick := nick\<rparr>) d"
    have "conn_ok ?e" if "my_nick c \<noteq> ''*''" "fold_c c nick = fold_c c (my_nick c)"
      using conn_ok_same_fold [of d nick] kd that proper by simp
    moreover have "kept e (upd_srv (propagate_nick_change i nick) (broadcast_nick_change (my_nick c) nick e))" for i e
      by (intro kepts) simp_all
    ultimately show ?thesis
      using False kd ps q conn_ok_kept [of ?e] my_nick_nonempty [OF ok]
      by (auto simp: cmd_nick_def Let_def q_def [symmetric] fold_c_def split: if_splits)
  next
    case True
    let ?old = "if my_nick c = ''*'' then [] else fold_c c (my_nick c)"
    obtain won t where cl: "claim_nick (fold_c c nick) (my_id c) (cn_server d) = (won, t)" by fastforce
    define e where "e = d\<lparr>cn_server := renicked nick (fold_c c nick) ?old (my_id c) (cn_server d)\<rparr>"
    have "client_ok (cn_server d)" using kd(4) by (simp add: conn_ok_def)
    moreover have "fold_c c nick \<noteq> nick_key (cn_server d) (my_id c)" if "my_id c \<in> set (by_id (cn_server d))"
      using True kd that by (auto simp: conn_ok_def session_ok_def nick_key_def fold_c_def my_nick_data my_data_def my_entry_def)
    ultimately consider (won) "won" "get (clients (cn_server d)) (fold_c c nick) = None"
        "t = (cn_server d)\<lparr>clients := put (fold_c c nick) (my_id c) (clients (cn_server d)), by_id := hs_insert (my_id c) (by_id (cn_server d))\<rparr>"
      | (lost) "\<not> won" "t = cn_server d"
      using claim_nick_cases [OF _ cl] by auto
    then show ?thesis
    proof cases
      case lost
      then show ?thesis
        using True ps q cl kd by (simp add: cmd_nick_def Let_def q_def [symmetric] fold_c_def)
    next
      case won
      have "conn_ok e" 
        unfolding e_def
        by (rule conn_ok_renicked [OF kd(4), of nick ?old, unfolded kd(1,2,3)]) (use won(2) proper in simp_all)
      have "upd_me (\<lambda>d. d\<lparr>cd_nick := nick\<rparr>) ((if ?old \<noteq> [] then upd_srv (release_nick ?old) else id) (d\<lparr>cn_server := t\<rparr>)) = e"
        by (simp add: e_def renicked_def upd_me_def upd_srv_def won(3) my_id_def kd(2) [unfolded my_id_def])
      then have "conn_ok (adopt_nick (my_nick c) nick ((if ?old \<noteq> [] then upd_srv (release_nick ?old) else id) (d\<lparr>cn_server := t\<rparr>)))"
        using conn_ok_adopt_nick \<open>conn_ok e\<close> by simp
      then show ?thesis
        using True ps q cl won(1) kd(2,4) unfolding cmd_nick_def by (simp add: Let_def q_def [symmetric] split: if_splits)
    qed
  qed
qed (use ok in \<open>auto simp: cmd_nick_def split: list.split\<close>)

subsection \<open>Announcements\<close>

text \<open>\<open>aside c d\<close>: from \<open>c\<close> to \<open>d\<close> others were told, and plugins had their say; the session is what it was.\<close>

definition aside :: "conn \<Rightarrow> conn \<Rightarrow> bool" where
  "aside c d \<longleftrightarrow> lookalike (cn_server c) (cn_server d) \<and> cn_auth d = cn_auth c
     \<and> (cn_ses d)\<lparr>ss_label_buffer := None\<rparr> = (cn_ses c)\<lparr>ss_label_buffer := None\<rparr>"

interpretation aside: step_frame aside
  by unfold_locales (auto simp: aside_def lookalike.frame_refl intro: lookalike.frame_trans)

lemma aside_fields:
  assumes "aside c d"
  shows "my_id d = my_id c" "ss_sasl (cn_ses d) = ss_sasl (cn_ses c)" "my_account d = my_account c" "cn_auth d = cn_auth c"
    "ss_registered (cn_ses d) = ss_registered (cn_ses c)" "my_caps d = my_caps c" "my_nick d = my_nick c"
proof -
  note s = assms [unfolded aside_def, THEN conjunct2, THEN conjunct2, THEN arg_cong]
  have l: "lookalike (cn_server c) (cn_server d)" using assms by (simp add: aside_def)
  show i: "my_id d = my_id c" and "ss_sasl (cn_ses d) = ss_sasl (cn_ses c)" "ss_registered (cn_ses d) = ss_registered (cn_ses c)"
    using s [of ss_id] s [of ss_sasl] s [of ss_registered] by (simp_all add: my_id_def)
  show "my_account d = my_account c" "my_caps d = my_caps c" "my_nick d = my_nick c"
    using lookalike_fields(3,4,7) [OF l] i by (simp_all add: my_account_def my_nick_data my_data_def my_entry_def my_caps_def)
qed (use assms in \<open>simp add: aside_def\<close>)

lemma aside_hush: "aside c d \<Longrightarrow> hush d e \<Longrightarrow> aside c e"
proof -
  assume cd: "aside c d" and de: "hush d e"
  have s: "cn_ses e = (cn_ses d)\<lparr>ss_label_buffer := ss_label_buffer (cn_ses e)\<rparr>" using de by (simp add: hush_def)
  have "(cn_ses e)\<lparr>ss_label_buffer := None\<rparr> = (cn_ses d)\<lparr>ss_label_buffer := None\<rparr>" by (subst s) simp
  then show "aside c e"
    using cd hush_fields(1,2) [OF de] lookalike.after_quiet by (auto simp: aside_def)
qed

lemma aside_upd_srv: "aside c d \<Longrightarrow> quiet (cn_server d) (f (cn_server d)) \<Longrightarrow> aside c (upd_srv f d)"
  by (auto simp: aside_def intro: lookalike.after_quiet)

lemma aside_observe: "aside c d \<Longrightarrow> aside c (observe hook d)"
  by (auto simp: aside_def observe_def intro: lookalike.frame_trans lookalike.plugin_actions_frame split: option.split)

lemma aside_announce_account: "aside c (announce_account a c)"
proof -
  have set_srv: "aside c (d\<lparr>cn_server := s\<rparr>)" if "aside c d" "quiet (cn_server d) s" for d s
    using that by (auto simp: aside_def intro: lookalike.after_quiet)
  have "aside c (snd (propagate_event e r False c))" for e r
    using quiet_propagate_event set_srv [OF aside.frame_refl] by (simp add: propagate_event_def split_beta Let_def)
  then have "aside c (propagate_monitored e r False c)" for e r
    by (simp add: propagate_monitored_def split_beta Let_def aside_upd_srv)
  moreover have "quiet s (propagate_account i x s)" for i x s by (simp add: propagate_account_def)
  ultimately show ?thesis by (simp add: announce_account_def Let_def aside_observe aside_upd_srv)
qed

subsection \<open>Who gets logged in\<close>

lemma upd_sasl_fields [simp]:
  "cn_auth (upd_sasl f c) = cn_auth c" "cn_server (upd_sasl f c) = cn_server c" "my_id (upd_sasl f c) = my_id c"
  "ss_sasl (cn_ses (upd_sasl f c)) = f (ss_sasl (cn_ses c))" "my_account (upd_sasl f c) = my_account c"
  "ss_cert_fp (cn_ses (upd_sasl f c)) = ss_cert_fp (cn_ses c)"
  by (simp_all add: upd_sasl_def my_id_def my_account_def)

lemma sasl_fail_fields [simp]:
  "my_account (sasl_fail c) = my_account c" "ss_sasl (cn_ses (sasl_fail c)) = ss_sasl (cn_ses c)"
  by (simp_all add: sasl_fail_def)

lemma sasl_success_fields:
  "my_account (sasl_success a c) = Some a" "ss_sasl (cn_ses (sasl_success a c)) = ss_sasl (cn_ses c)"
proof -
  let ?d = "upd_me (\<lambda>d. d\<lparr>cd_account := Some a\<rparr>) c"
  note f = aside_fields(2,3) [OF aside_announce_account [of ?d "Some a"]]
  have "my_account ?d = Some a" by (simp add: my_account_def)
  with f show "my_account (sasl_success a c) = Some a" "ss_sasl (cn_ses (sasl_success a c)) = ss_sasl (cn_ses c)"
    by (simp_all add: sasl_success_def Let_def)
qed

lemma sasl_verify_upd [simp]: "sasl_verify m data (upd_sasl f c) = sasl_verify m data c"
  by (simp add: sasl_verify_def split: mechanism.split)

lemma finish_sasl_login:
  "my_account (finish_sasl m data c) = (case sasl_verify m data c of Some a \<Rightarrow> Some a | None \<Rightarrow> my_account c)"
  "sasl_scram (ss_sasl (cn_ses (finish_sasl m data c))) = Idle"
  by (simp_all add: finish_sasl_def Let_def sasl_success_fields sasl_reset_def split: option.split)

text \<open>What one message of a SCRAM exchange can do.\<close>

lemma scram_step_login:
  "my_account (scram_step data c) = my_account c
     \<or> (\<exists>a. sasl_scram (ss_sasl (cn_ses c)) = AwaitingFinalAck a \<and> my_account (scram_step data c) = Some a)"
  "sasl_scram (ss_sasl (cn_ses (scram_step data c))) = AwaitingFinalAck a \<Longrightarrow>
     \<exists>ex. sasl_scram (ss_sasl (cn_ses c)) = AwaitingClientFinal ex \<and> ex_account ex = a
       \<and> exchange_finish (au_crypto (cn_auth c)) ex data \<noteq> None"
proof -
  have acc: "my_account (d\<lparr>cn_auth := x\<rparr>) = my_account d" for d x
    by (simp add: my_account_def my_data_def my_entry_def my_id_def)
  show "my_account (scram_step data c) = my_account c
     \<or> (\<exists>a. sasl_scram (ss_sasl (cn_ses c)) = AwaitingFinalAck a \<and> my_account (scram_step data c) = Some a)"
    by (cases "sasl_scram (ss_sasl (cn_ses c))")
      (auto simp: scram_step_def Let_def split_beta sasl_success_fields acc split: option.split)
  show "\<exists>ex. sasl_scram (ss_sasl (cn_ses c)) = AwaitingClientFinal ex \<and> ex_account ex = a
       \<and> exchange_finish (au_crypto (cn_auth c)) ex data \<noteq> None"
    if "sasl_scram (ss_sasl (cn_ses (scram_step data c))) = AwaitingFinalAck a"
    using that
    by (cases "sasl_scram (ss_sasl (cn_ses c))")
      (auto simp: scram_step_def Let_def split_beta sasl_success_fields sasl_reset_def split: option.splits if_splits)
qed

lemma split_on_head: "split_on c s = x # xs \<Longrightarrow> c \<notin> set x \<and> (xs = [] \<longrightarrow> s = x) \<and> (xs \<noteq> [] \<longrightarrow> (\<exists>t. s = x @ c # t \<and> split_on c t = xs))"
proof (induction s arbitrary: x xs)
  case (Cons y s)
  show ?case
  proof (cases "y = c")
    case False
    obtain z zs where z: "split_on c s = z # zs" by (cases "split_on c s") auto
    then show ?thesis using Cons.IH [OF z] Cons.prems False by auto
  qed (use Cons.prems in auto)
qed auto

lemma decode_plain_fields:
  assumes "decode_plain data = Some (authzid, name, password)"
  shows "data = authzid @ NUL # name @ NUL # password \<and> NUL \<notin> set (authzid @ name @ password)"
proof -
  have s: "split_on NUL data = [authzid, name, password]"
    using assms by (auto simp: decode_plain_def from_utf8_def bind_eq_Some_conv split: list.splits if_splits)
  obtain t where t: "data = authzid @ NUL # t" "split_on NUL t = [name, password]" "NUL \<notin> set authzid" using split_on_head [OF s] by auto
  then obtain u where "t = name @ NUL # u" "split_on NUL u = [password]" "NUL \<notin> set name" using split_on_head [OF t(2)] by auto
  then show ?thesis using t split_on_head [of NUL u password "[]"] by simp
qed

lemma scram_step_start:
  assumes "sasl_scram (ss_sasl (cn_ses (scram_step data c))) = AwaitingClientFinal ex"
  shows "sasl_scram (ss_sasl (cn_ses c)) = AwaitingClientFirst"
    and "\<exists>nonce reply. exchange_start (au_crypto (cn_auth c)) data nonce (scram_lookup (au_accounts (cn_auth c))) = Some (ex, reply)"
proof -
  obtain e au where draw: "draw (cn_auth c) = (e, au)" by fastforce
  then have au: "au_crypto au = au_crypto (cn_auth c)" "au_accounts au = au_accounts (cn_auth c)"
    by (auto simp: draw_def split: list.splits)
  show first: "sasl_scram (ss_sasl (cn_ses c)) = AwaitingClientFirst"
    using assms by (cases "sasl_scram (ss_sasl (cn_ses c))")
      (auto simp: scram_step_def Let_def split_beta sasl_success_fields sasl_reset_def split: option.splits if_splits)
  obtain nonce where nonce: "random_nonce e = Some nonce"
    using assms first by (cases "random_nonce e") (auto simp: scram_step_def Let_def draw sasl_reset_def split: if_splits)
  show "\<exists>nonce reply. exchange_start (au_crypto (cn_auth c)) data nonce (scram_lookup (au_accounts (cn_auth c))) = Some (ex, reply)"
  proof (cases "exchange_start (au_crypto (cn_auth c)) data nonce (scram_lookup (au_accounts (cn_auth c)))")
    case None
    then show ?thesis using assms first by (simp add: scram_step_def Let_def draw nonce au sasl_reset_def split: if_splits)
  next
    case (Some p)
    then have "fst p = ex" using assms first by (simp add: scram_step_def Let_def draw nonce au sasl_reset_def split_beta split: if_splits)
    then have "exchange_start (au_crypto (cn_auth c)) data nonce (scram_lookup (au_accounts (cn_auth c))) = Some (ex, snd p)"
      using Some by (cases p) simp
    then show ?thesis by (intro exI)
  qed
qed

text \<open>The response that a client completes with a payload: the chunks buffered so far and this one, decoded.\<close>

definition completes :: "conn \<Rightarrow> string list \<Rightarrow> string \<Rightarrow> bool" where
  "completes c ps data \<longleftrightarrow>
     (case ps of
        [] \<Rightarrow> False
      | payload # _ \<Rightarrow>
          payload \<noteq> ''*'' \<and> (payload = ''+'' \<or> length payload < 400)
          \<and> cr_b64_decode (au_crypto (cn_auth c)) (sasl_buffer (ss_sasl (cn_ses c)) @ (if payload = ''+'' then [] else payload)) = Some data)"

lemma push_chunk_completes:
  "push_chunk (au_crypto (cn_auth c)) payload (ss_sasl (cn_ses c)) = (Complete data, sasl) \<Longrightarrow> payload \<noteq> ''*'' \<Longrightarrow> completes c (payload # rest) data"
  by (auto simp: push_chunk_def completes_def CHUNK_LEN_def Let_def split: if_splits option.splits)

text \<open>C22: nobody is logged in without proof. If an \<open>AUTHENTICATE\<close> message changes the account of the client, the message
  completes a response of the client (the chunks it sent before and this one, decoded), and the account is the one for which
  that response proves itself: with \<open>PLAIN\<close>, its second and third field are the name and the password that the account store
  verifies; with \<open>EXTERNAL\<close>, the account store knows the client's certificate under the name in the response; with \<open>SCRAM\<close>, an
  exchange for that account was finished. An exchange is finished only by a response that completes it, and it is the one
  that a response of the client began for an account of the store.\<close>

theorem sasl_login_verified:
  assumes "d = cmd_authenticate ps c" "mech = sasl_mechanism (ss_sasl (cn_ses c))" "phase = sasl_scram (ss_sasl (cn_ses c))"
    and "cr = au_crypto (cn_auth c)" "accounts = au_accounts (cn_auth c)"
  shows "(my_account d \<noteq> my_account c \<longrightarrow>
        (\<exists>data a. completes c ps data \<and> my_account d = Some a
           \<and> (case mech of
                Some Plain \<Rightarrow> \<exists>authzid name password. data = authzid @ NUL # name @ NUL # password \<and> NUL \<notin> set (authzid @ name @ password)
                   \<and> verify_password cr accounts name password = Some a
              | Some External \<Rightarrow> \<exists>fp. ss_cert_fp (cn_ses c) = Some fp \<and> verify_fingerprint accounts (utf8_lossy data) fp = Some a
              | Some Scram \<Rightarrow> phase = AwaitingFinalAck a
              | None \<Rightarrow> False)))
    \<and> (\<forall>a. sasl_scram (ss_sasl (cn_ses d)) = AwaitingFinalAck a \<longrightarrow> phase = AwaitingFinalAck a
         \<or> (\<exists>data ex. completes c ps data \<and> mech = Some Scram \<and> phase = AwaitingClientFinal ex \<and> ex_account ex = a
              \<and> exchange_finish cr ex data \<noteq> None))
    \<and> (\<forall>ex. sasl_scram (ss_sasl (cn_ses d)) = AwaitingClientFinal ex \<longrightarrow> phase = AwaitingClientFinal ex
         \<or> (\<exists>data nonce reply. completes c ps data \<and> mech = Some Scram \<and> phase = AwaitingClientFirst
              \<and> exchange_start cr data nonce (scram_lookup accounts) = Some (ex, reply)))"
  (is "?login d \<and> ?final d \<and> ?begun d")
proof -
  define P where "P = (\<lambda>d. my_account d = my_account c
    \<and> (\<forall>a. sasl_scram (ss_sasl (cn_ses d)) = AwaitingFinalAck a \<longrightarrow> phase = AwaitingFinalAck a)
    \<and> (\<forall>ex. sasl_scram (ss_sasl (cn_ses d)) = AwaitingClientFinal ex \<longrightarrow> phase = AwaitingClientFinal ex))"
  have P: "?login e \<and> ?final e \<and> ?begun e" if "P e" for e using that by (auto simp: P_def)
  have keep: "P c" "P (sasl_fail c)" "P (numeric n xs t c)" "P (numeric n xs t (upd_sasl sasl_reset c))"
    "P (send_to_me l (upd_sasl (\<lambda>s. s\<lparr>sasl_mechanism := m\<rparr>) c))"
    "P (send_to_me l (upd_sasl (\<lambda>s. s\<lparr>sasl_scram := AwaitingClientFirst\<rparr>) (upd_sasl (\<lambda>s. s\<lparr>sasl_mechanism := m\<rparr>) c)))" for n xs t l m
    by (simp_all add: P_def sasl_reset_def assms(3))
  have "?login (sasl_continue mechanism payload c) \<and> ?final (sasl_continue mechanism payload c) \<and> ?begun (sasl_continue mechanism payload c)"
    if ps: "ps = payload # rest" "payload \<noteq> ''*''" and mech: "mech = Some mechanism" for mechanism payload rest
  proof -
    obtain r sasl where p: "push_chunk (au_crypto (cn_auth c)) payload (ss_sasl (cn_ses c)) = (r, sasl)" by fastforce
    have scram: "sasl_scram sasl = sasl_scram (ss_sasl (cn_ses c))"
      using arg_cong [OF p, of snd] by (auto simp: push_chunk_def Let_def)
    define e where "e = upd_sasl (\<lambda>_. sasl) c"
    have e: "my_account e = my_account c" "sasl_scram (ss_sasl (cn_ses e)) = phase" "cn_auth e = cn_auth c"
      by (simp_all add: e_def scram assms(3))
    show ?thesis
    proof (cases r)
      case (Complete data)
      have whole: "completes c ps data" using push_chunk_completes [OF p [unfolded Complete] ps(2)] by (simp add: ps(1))
      show ?thesis
      proof (cases "mechanism = Scram")
        case True
        then have eq: "sasl_continue mechanism payload c = scram_step data e" by (simp add: sasl_continue_def p Complete e_def)
        show ?thesis
          using scram_step_login [of data e] scram_step_start [of data e] whole
          unfolding eq e assms(4,5) by (auto simp: mech True)
      next
        case False
        then have eq: "sasl_continue mechanism payload c = finish_sasl mechanism data e" by (simp add: sasl_continue_def p Complete e_def)
        have v: "sasl_verify mechanism data e = sasl_verify mechanism data c" by (simp add: e_def)
        have "my_account (finish_sasl mechanism data e) = (case sasl_verify mechanism data c of Some a \<Rightarrow> Some a | None \<Rightarrow> my_account c)"
          "sasl_scram (ss_sasl (cn_ses (finish_sasl mechanism data e))) = Idle"
          using finish_sasl_login [of mechanism data e] by (simp_all only: v e)
        moreover have "case mech of
              Some Plain \<Rightarrow> \<exists>authzid name password. data = authzid @ NUL # name @ NUL # password \<and> NUL \<notin> set (authzid @ name @ password)
                 \<and> verify_password cr accounts name password = Some a
            | Some External \<Rightarrow> \<exists>fp. ss_cert_fp (cn_ses c) = Some fp \<and> verify_fingerprint accounts (utf8_lossy data) fp = Some a
            | Some Scram \<Rightarrow> phase = AwaitingFinalAck a | None \<Rightarrow> False" if v: "sasl_verify mechanism data c = Some a" for a
        proof (cases mechanism)
          case Plain
          obtain authzid name password where "decode_plain data = Some (authzid, name, password)" "verify_password cr accounts name password = Some a"
            using v Plain by (auto simp: sasl_verify_def assms(4,5) bind_eq_Some_conv)
          with decode_plain_fields [OF this(1)] have "data = authzid @ NUL # name @ NUL # password \<and> NUL \<notin> set (authzid @ name @ password)
              \<and> verify_password cr accounts name password = Some a" by simp
          then show ?thesis unfolding mech Plain option.case mechanism.case by (intro exI)
        qed (use v False in \<open>auto simp: sasl_verify_def mech assms(4,5) bind_eq_Some_conv\<close>)
        ultimately show ?thesis unfolding eq using whole by (auto split: option.splits)
      qed
    qed (use P in \<open>simp_all add: P_def sasl_continue_def p scram sasl_reset_def Let_def assms(3)\<close>)
  qed
  note continue = this
  define Q where "Q = (\<lambda>d. ?login d \<and> ?final d \<and> ?begun d)"
  have keepQ: "Q e" if "P e" for e unfolding Q_def by (rule P [OF that])
  have contQ: "Q (sasl_continue mechanism payload c)"
    if "ps = payload # rest" "payload \<noteq> ''*''" "sasl_mechanism (ss_sasl (cn_ses c)) = Some mechanism" for mechanism payload rest
    unfolding Q_def by (rule continue) (simp_all add: that assms(2))
  have "Q (cmd_authenticate ps c)"
    using keep [THEN keepQ] contQ by (simp add: cmd_authenticate_def Let_def split: list.split option.split) blast
  then show ?thesis unfolding assms(1) Q_def .
qed

text \<open>A client that sends a password, after it has chosen \<open>PLAIN\<close>.\<close>

definition demo_sasl :: conn where
  "demo_sasl = demo_conn
     \<lparr>cn_server := demo_server\<lparr>entries := (\<lambda>i. (client_entry_new 0 i ''h'' 10)\<lparr>ce_caps := caps_insert Sasl 0\<rparr>)\<rparr>,
      cn_auth := demo_auth\<lparr>au_accounts := upsert_password ''amy'' ''pw'' (store_new Ascii)\<rparr>,
      cn_ses := (session_new 1 ''9.9.9.9'' None)\<lparr>ss_sasl := sasl_default\<lparr>sasl_mechanism := Some Plain\<rparr>\<rparr>\<rparr>"

theorem sasl_login_verified_witness:
  "\<exists>data name password. completes demo_sasl [hex_octets (NUL # ''amy'' @ NUL # ''pw'')] data \<and> data = NUL # name @ NUL # password
     \<and> verify_password toy_crypto (upsert_password ''amy'' ''pw'' (store_new Ascii)) name password = Some ''amy''
     \<and> my_account (cmd_authenticate [hex_octets (NUL # ''amy'' @ NUL # ''pw'')] demo_sasl) = Some ''amy''"
proof -
  define data where "data = NUL # ''amy'' @ NUL # ''pw''"
  define p where "p = hex_octets data"
  have f: "au_crypto (cn_auth demo_sasl) = toy_crypto" "ss_sasl (cn_ses demo_sasl) = sasl_default\<lparr>sasl_mechanism := Some Plain\<rparr>"
    "au_accounts (cn_auth demo_sasl) = upsert_password ''amy'' ''pw'' (store_new Ascii)" "my_account demo_sasl = None"
    by (simp_all add: demo_sasl_def demo_auth_def session_new_def my_account_def my_data_def my_entry_def my_id_def client_entry_new_def client_data_new_def)
  have "has (caps_insert Sasl 0) Sasl" by code_simp
  moreover have "my_caps demo_sasl = from_bits (caps_insert Sasl 0)"
    by (simp add: demo_sasl_def my_caps_def my_entry_def my_id_def entry_caps_def)
  moreover have "from_bits (caps_insert Sasl 0) = caps_insert Sasl 0" by code_simp
  ultimately have caps: "has (my_caps demo_sasl) Sasl" by simp
  have p: "p \<noteq> ''*''" "p \<noteq> ''+''" "length p < CHUNK_LEN" "length p \<le> MAX_SASL_LEN"
    by (simp_all add: p_def data_def hex_octets_def CHUNK_LEN_def MAX_SASL_LEN_def)
  have "decode_plain data = Some ([], ''amy'', ''pw'')" unfolding data_def by code_simp
  moreover have "verify_password toy_crypto (upsert_password ''amy'' ''pw'' (store_new Ascii)) ''amy'' ''pw'' = Some ''amy''"
    by (simp add: verify_password_def upsert_password_def modify_or_insert_get store_new_def toy_crypto_def)
  ultimately have v: "sasl_verify Plain data demo_sasl = Some ''amy''" by (simp add: sasl_verify_def f)
  have "push_chunk toy_crypto p (ss_sasl (cn_ses demo_sasl)) = (Complete data, ss_sasl (cn_ses demo_sasl))"
    using p by (simp add: push_chunk_def f sasl_default_def toy_crypto_def p_def unhex_hex)
  then have login: "my_account (cmd_authenticate [p] demo_sasl) = Some ''amy''"
    using p caps v finish_sasl_login(1) [of Plain data] by (simp add: cmd_authenticate_def sasl_continue_def f)
  from conjunct1 [OF sasl_login_verified [OF refl refl refl refl refl, of "[p]" demo_sasl]] login f
  obtain d authzid name password where "completes demo_sasl [p] d" "d = authzid @ NUL # name @ NUL # password" "NUL \<notin> set authzid"
      "verify_password toy_crypto (upsert_password ''amy'' ''pw'' (store_new Ascii)) name password = Some ''amy''"
    by auto
  moreover from this(1) have "d = data" using p by (simp add: completes_def f sasl_default_def toy_crypto_def p_def unhex_hex)
  ultimately have "d = NUL # name @ NUL # password" by (cases authzid) (auto simp: data_def)
  then show ?thesis
    using login \<open>completes demo_sasl [p] d\<close> \<open>verify_password toy_crypto _ name password = _\<close> unfolding p_def data_def by blast
qed

text \<open>An away message set before registration stays local. The introduction of a newly registered client
  to the linked servers does not depend on its away message, whereas the state sent to a new peer has it.\<close>

theorem pre_away_not_introduced:
  "links (introduce_local i (upd_client_data i (\<lambda>d. d\<lparr>cd_away := a\<rparr>) s)) = links (introduce_local i s)
   \<and> user_state uid (Some msg) flags = Saway uid (Some msg) # user_state uid None flags"
  by (simp add: introduce_local_def upd_client_data_def upd_client_def uid_of_client_def client_umodes_def local_uid_def Let_def
    propagate_to_links_def user_state_def split: option.split)

end
