(* ===== verification/Joining.thy ===== *)
theory Joining
  imports Handshake
begin

text \<open>
  Joining and leaving channels, topics and member lists (\<open>ferrixd/src/command.rs\<close>).
\<close>

subsection \<open>Member lists\<close>

definition may_list_channel :: "nat \<Rightarrow> conn \<Rightarrow> bool" where
  "may_list_channel h c \<longleftrightarrow>
     \<not> secret (ch_modes (cdata (cn_server c) h)) \<or> has_member (cdata (cn_server c) h) (my_id c) \<or> cd_oper (my_data c)"

definition local_name :: "bool \<Rightarrow> bool \<Rightarrow> server \<Rightarrow> nat \<times> member_prefix \<Rightarrow> string" where
  "local_name multi userhost s m =
     (case m of (i, p) \<Rightarrow>
        let d = ce_data (entries s i)
        in prefix_render p multi @ (if userhost then mask_of (cd_nick d) (cd_user d) (cd_host d) else cd_nick d))"

definition remote_name :: "bool \<Rightarrow> bool \<Rightarrow> remote_member \<Rightarrow> string" where
  "remote_name multi userhost m =
     prefix_render (rm_prefix m) multi @ (if userhost then mask_of (rm_nick m) (rm_user m) (rm_host m) else rm_nick m)"

definition names_step :: "string \<Rightarrow> string \<Rightarrow> string \<Rightarrow> string \<times> conn \<Rightarrow> string \<times> conn" where
  "names_step symbol display name st =
     (case st of (chunk, c) \<Rightarrow>
        (let (chunk, c) = (if chunk \<noteq> [] \<and> 400 < length chunk + 1 + length name
                           then ([], numeric RPL_NAMREPLY [symbol, display] (Some chunk) c) else (chunk, c))
         in ((if chunk \<noteq> [] then chunk @ [SP] else chunk) @ name, c)))"

definition send_names :: "nat \<Rightarrow> string \<Rightarrow> conn \<Rightarrow> conn" where
  "send_names h display c =
     (let multi = has (my_caps c) MultiPrefix; userhost = has (my_caps c) UserhostInNames; s = cn_server c;
          symbol = (if secret (ch_modes (cdata s h)) then ''@'' else ''='');
          names = map (local_name multi userhost s) (member_snapshot s h) @ map (remote_name multi userhost) (remote_member_snapshot s h);
          (chunk, c) = fold (names_step symbol display) names ([], c);
          c = (if chunk \<noteq> [] then numeric RPL_NAMREPLY [symbol, display] (Some chunk) c else c)
      in numeric RPL_ENDOFNAMES [display] (Some ''End of /NAMES list'') c)"

definition names_one :: "string \<Rightarrow> conn \<Rightarrow> conn" where
  "names_one name c =
     (case find_channel (cn_server c) (fold_c c name) of
        Some h \<Rightarrow> if may_list_channel h c then send_names h (ch_name (cdata (cn_server c) h)) c
                  else numeric RPL_ENDOFNAMES [name] (Some ''End of /NAMES list'') c
      | None \<Rightarrow> numeric RPL_ENDOFNAMES [name] (Some ''End of /NAMES list'') c)"

definition cmd_names :: "string list \<Rightarrow> conn \<Rightarrow> conn" where
  "cmd_names params c =
     (case params of
        [] \<Rightarrow> numeric RPL_ENDOFNAMES [''*''] (Some ''End of /NAMES list'') c
      | target # _ \<Rightarrow> fold names_one (split_on (CHR '','') target) c)"

definition send_topic :: "string \<Rightarrow> topic \<Rightarrow> conn \<Rightarrow> conn" where
  "send_topic display t c =
     numeric RPL_TOPICWHOTIME [display, topic_set_by t, dec (topic_set_at t)] None
       (numeric RPL_TOPIC [display] (Some (topic_text t)) c)"

definition send_topic_on_join :: "nat \<Rightarrow> string \<Rightarrow> conn \<Rightarrow> conn" where
  "send_topic_on_join h display c =
     (case ch_topic (cdata (cn_server c) h) of Some t \<Rightarrow> send_topic display t c | None \<Rightarrow> c)"

subsection \<open>JOIN\<close>

definition join_rejection :: "channel_data \<Rightarrow> string \<Rightarrow> string option \<Rightarrow> bool \<Rightarrow> string \<Rightarrow> string option \<Rightarrow> (nat \<times> string) option" where
  "join_rejection d hostmask account is_oper folded_nick key =
     (let invited = (folded_nick \<in> set (ch_invited d))
      in if \<not> is_oper \<and> is_banned d hostmask account \<and> \<not> is_excepted d hostmask account
         then Some (ERR_BANNEDFROMCHAN, ''Cannot join channel (+b)'')
         else if invite_only (ch_modes d) \<and> \<not> invited \<and> \<not> is_oper \<and> \<not> matches_invex d hostmask account
         then Some (ERR_INVITEONLYCHAN, ''Cannot join channel (+i)'')
         else if chan_key (ch_modes d) \<noteq> None \<and> chan_key (ch_modes d) \<noteq> key
         then Some (ERR_BADCHANNELKEY, ''Cannot join channel (+k)'')
         else if (case chan_limit (ch_modes d) of Some l \<Rightarrow> l \<le> length (ch_members d) | None \<Rightarrow> False)
         then Some (ERR_CHANNELISFULL, ''Cannot join channel (+l)'')
         else None)"

definition is_founder :: "string \<Rightarrow> conn \<Rightarrow> bool" where
  "is_founder folded c =
     (case my_account c of
        Some account \<Rightarrow>
          (case channel_founder (cn_server c) folded of Some f \<Rightarrow> fold_c c f = fold_c c account | None \<Rightarrow> False)
      | None \<Rightarrow> False)"

definition join_event :: "conn \<Rightarrow> string \<Rightarrow> event" where
  "join_event c display =
     (let d = my_data c
      in with_suffix ExtendedJoin ('' '' @ unwrap_star (cd_account d) @ '' :'' @ cd_realname d)
           (with_account (cd_account d) (with_time (now_time c) (event_new (line_body (line_param (my_line c ''JOIN'') display))))))"

definition join_announce :: "nat \<Rightarrow> string \<Rightarrow> member_prefix \<Rightarrow> conn \<Rightarrow> conn" where
  "join_announce h display p c =
     (let e = join_event c display;
          c = upd_srv (to_channel h e (Some (my_id c))) c;
          c = deliver_self e c;
          c = upd_srv (record_channel_event (fold_c c display) display (entry_hostmask (my_entry c)) Join []) c;
          c = send_topic_on_join h display c;
          c = (if \<not> has (my_caps c) NoImplicitNames then send_names h display c else c)
      in upd_srv (propagate_sjoin (my_id c) display p) c)"

definition add_member :: "string \<Rightarrow> nat \<Rightarrow> nat \<Rightarrow> member_prefix \<Rightarrow> server \<Rightarrow> server" where
  "add_member folded h i p s =
     upd_client_data i (\<lambda>d. d\<lparr>cd_channels := hs_insert folded (cd_channels d)\<rparr>)
       (upd_chan h (\<lambda>d. d\<lparr>ch_members := put i p (ch_members d)\<rparr>) s)"

definition join_enter :: "string \<Rightarrow> nat \<Rightarrow> bool \<Rightarrow> conn \<Rightarrow> conn" where
  "join_enter folded h created c =
     (let p = \<lparr>mp_op = created \<or> is_founder folded c, mp_voice = False\<rparr>;
          c = upd_srv (add_member folded h (my_id c) p) c
      in join_announce h (ch_name (cdata (cn_server c) h)) p c)"

definition join_admit :: "string \<Rightarrow> string \<Rightarrow> string option \<Rightarrow> nat \<Rightarrow> bool \<Rightarrow> conn \<Rightarrow> conn" where
  "join_admit folded name key h created c =
     (let hostmask = entry_hostmask (my_entry c); folded_nick = fold_c c (my_nick c); d = cdata (cn_server c) h;
          rejection = (if created then None
                       else join_rejection d hostmask (my_account c) (cd_oper (my_data c)) folded_nick key)
      in case rejection of
           Some (code, text) \<Rightarrow> numeric code [ch_name d] (Some text) c
         | None \<Rightarrow>
             (let c = (if created then c
                       else upd_srv (upd_chan h (\<lambda>d. d\<lparr>ch_invited := hs_remove folded_nick (ch_invited d)\<rparr>)) c);
                  (oc, c) = consult (\<lambda>host. ph_on_join host (my_nick c) name) c
              in if vetoed oc
                 then fail_reply ''JOIN'' ''JOIN_BLOCKED'' [name] (veto_reason oc ''Join blocked by server policy'') c
                 else join_enter folded h created c))"

definition join_one :: "string \<Rightarrow> string option \<Rightarrow> conn \<Rightarrow> conn" where
  "join_one name key c =
     (if \<not> is_valid_channel name then numeric ERR_NOSUCHCHANNEL [name] (Some ''No such channel'') c
      else
        (let folded = fold_c c name; d = my_data c
         in if folded \<in> set (cd_channels d) then c
            else if \<not> cd_oper d \<and> si_max_channels (info (cn_server c)) \<le> length (cd_channels d)
            then numeric ERR_TOOMANYCHANNELS [name] (Some ''You have joined too many channels'') c
            else
              (case begin_join folded name (cn_server c) of
                 ((h, created), s) \<Rightarrow>
                   upd_srv (end_join folded h) (join_admit folded name key h created (c\<lparr>cn_server := s\<rparr>)))))"

subsection \<open>PART\<close>

text \<open>A client leaves a channel: its member entry goes, and the channel's name in its own record.\<close>

definition drop_member :: "string \<Rightarrow> nat \<Rightarrow> nat \<Rightarrow> server \<Rightarrow> server" where
  "drop_member folded h i s =
     upd_client_data i (\<lambda>d. d\<lparr>cd_channels := hs_remove folded (cd_channels d)\<rparr>)
       (upd_chan h (\<lambda>d. d\<lparr>ch_members := del i (ch_members d)\<rparr>) s)"

definition part_leave :: "string \<Rightarrow> nat \<Rightarrow> string \<Rightarrow> string option \<Rightarrow> conn \<Rightarrow> conn" where
  "part_leave folded h display reason c =
     (let l = line_param (my_line c ''PART'') display;
          l = (case reason of Some r \<Rightarrow> line_trailing l r | None \<Rightarrow> l);
          e = cn_event c (line_body l);
          c = upd_srv (to_channel h e (Some (my_id c))) c;
          c = deliver_self e c;
          c = upd_srv (record_channel_event folded display (entry_hostmask (my_entry c)) Part
                (case reason of Some r \<Rightarrow> r | None \<Rightarrow> [])) c;
          c = upd_srv (drop_member folded h (my_id c)) c;
          c = upd_srv (propagate_spart (my_id c) display (case reason of Some r \<Rightarrow> r | None \<Rightarrow> ''Leaving'')) c
      in upd_srv (reap_channel folded) c)"

definition part_one :: "string \<Rightarrow> string option \<Rightarrow> conn \<Rightarrow> conn" where
  "part_one name reason c =
     (let folded = fold_c c name
      in case find_channel (cn_server c) folded of
           None \<Rightarrow> numeric ERR_NOSUCHCHANNEL [name] (Some ''No such channel'') c
         | Some h \<Rightarrow>
             (let display = ch_name (cdata (cn_server c) h)
              in if \<not> has_member (cdata (cn_server c) h) (my_id c)
                 then numeric ERR_NOTONCHANNEL [display] (Some ''You're not on that channel'') c
                 else
                   (let (oc, c) = consult (\<lambda>host. ph_on_part host (my_nick c) display (case reason of Some r \<Rightarrow> r | None \<Rightarrow> [])) c
                    in if vetoed oc
                       then fail_reply ''PART'' ''PART_BLOCKED'' [display] (veto_reason oc ''Part blocked by server policy'') c
                       else part_leave folded h display reason c)))"

definition cmd_part :: "string list \<Rightarrow> conn \<Rightarrow> conn" where
  "cmd_part params c =
     (case params of
        [] \<Rightarrow> need_more_params ''PART'' c
      | chanlist # rest \<Rightarrow>
          fold (\<lambda>name. part_one name (case rest of r # _ \<Rightarrow> Some r | [] \<Rightarrow> None)) (split_on (CHR '','') chanlist) c)"

definition part_mine :: "string \<Rightarrow> conn \<Rightarrow> conn" where
  "part_mine folded c =
     (case find_channel (cn_server c) folded of
        Some h \<Rightarrow> part_one (ch_name (cdata (cn_server c) h)) (Some ''Left all channels'') c
      | None \<Rightarrow> c)"

definition cmd_join :: "string list \<Rightarrow> conn \<Rightarrow> conn" where
  "cmd_join params c =
     (case params of
        [] \<Rightarrow> need_more_params ''JOIN'' c
      | chanlist # rest \<Rightarrow>
          if chanlist = ''0'' then fold part_mine (cd_channels (my_data c)) c
          else
            (let keys = (case rest of k # _ \<Rightarrow> split_on (CHR '','') k | [] \<Rightarrow> [])
             in fold (\<lambda>(i, name). join_one name (if i < length keys then Some (keys ! i) else None))
                  (enumerate 0 (split_on (CHR '','') chanlist)) c))"

subsection \<open>TOPIC\<close>

definition topic_set :: "string \<Rightarrow> nat \<Rightarrow> string \<Rightarrow> string \<Rightarrow> conn \<Rightarrow> conn" where
  "topic_set folded h display new_topic c =
     (let set_at = now_unix (cn_server c); nick = my_nick c;
          c = upd_srv (upd_chan h (\<lambda>d. d\<lparr>ch_topic := (if new_topic = [] then None
                else Some \<lparr>topic_text = new_topic, topic_set_by = nick, topic_set_at = set_at\<rparr>)\<rparr>)) c;
          e = cn_event c (line_body (line_trailing (line_param (my_line c ''TOPIC'') display) new_topic));
          c = upd_srv (to_channel h e (Some (my_id c))) c;
          c = deliver_self e c;
          c = upd_srv (record_channel_event folded display (entry_hostmask (my_entry c)) Topic new_topic) c;
          c = upd_srv (persist_registered folded) c
      in upd_srv (propagate_topic (my_id c) display nick set_at new_topic) c)"

definition cmd_topic :: "string list \<Rightarrow> conn \<Rightarrow> conn" where
  "cmd_topic params c =
     (case params of
        [] \<Rightarrow> need_more_params ''TOPIC'' c
      | name # rest \<Rightarrow>
          (let folded = fold_c c name
           in case find_channel (cn_server c) folded of
                None \<Rightarrow> numeric ERR_NOSUCHCHANNEL [name] (Some ''No such channel'') c
              | Some h \<Rightarrow>
                  (let d = cdata (cn_server c) h; display = ch_name d
                   in case rest of
                        [] \<Rightarrow>
                          (case ch_topic d of
                             Some t \<Rightarrow> send_topic display t c
                           | None \<Rightarrow> numeric RPL_NOTOPIC [display] (Some ''No topic is set'') c)
                      | raw # _ \<Rightarrow>
                          (let new_topic = truncate_chars raw MAX_TOPIC_LEN
                           in case get (ch_members d) (my_id c) of
                                None \<Rightarrow> numeric ERR_NOTONCHANNEL [display] (Some ''You're not on that channel'') c
                              | Some p \<Rightarrow>
                                  if topic_lock (ch_modes d) \<and> \<not> mp_op p
                                  then numeric ERR_CHANOPRIVSNEEDED [display] (Some ''You're not channel operator'') c
                                  else
                                    (let (oc, c) = consult (\<lambda>host. ph_on_topic host (my_nick c) display new_topic) c
                                     in if vetoed oc
                                        then fail_reply ''TOPIC'' ''TOPIC_BLOCKED'' [display] (veto_reason oc ''Topic change blocked by server policy'') c
                                        else topic_set folded h display new_topic c)))))"

subsection \<open>Entering and leaving\<close>

lemma net_ok_unregistered:
  assumes "net_ok s" "\<And>g. get (channels s) g \<noteq> Some h"
  shows "net_ok (upd_chan h f s)"
proof -
  have "cdata (upd_chan h f s) k = cdata s k" if "get (channels s) g = Some k" for g k
    using assms(2) [of g] that by (auto simp: cdata_upd_chan)
  then have "members_ok (upd_chan h f s)"
    using assms(1)
    by (simp add: net_ok_def members_ok_def chan_ok_def remotes.agree_def locals.agree_def calm_index [OF calm_upd_chan])
  then show ?thesis by (rule net_ok_calm [OF calm_upd_chan _ assms(1)])
qed

lemma net_ok_drop_channel_name:
  assumes "net_ok s" "get (channels s) f = None" "i \<in> set (by_id s)"
  shows "net_ok (upd_client_data i (\<lambda>d. d\<lparr>cd_channels := hs_remove f (cd_channels d)\<rparr>) s)" (is "net_ok ?t")
proof -
  have "f \<notin> local_index s i"
    using assms(1,2) locals.agree_known [of s "local_index s" f i] by (auto simp: net_ok_def members_ok_def)
  then have "local_index ?t = local_index s"
    by (auto simp: fun_eq_iff local_index_def upd_client_data_def upd_client_def split: if_splits)
  moreover have "net_with (local_index s) ?t = net_with (local_index s) s"
    by (rule net_with_cong) (simp_all add: upd_client_data_def upd_client_def)
  ultimately show ?thesis using assms(1) net_with_local [of s] net_with_local [of ?t] by simp
qed

lemma safe_drop_member:
  assumes "i \<in> set (by_id s)" "net_ok s \<Longrightarrow> get (channels s) f = Some h \<or> get (channels s) f = None \<and> (\<forall>g. get (channels s) g \<noteq> Some h)"
  shows "safe s (drop_member f h i s)"
proof -
  have "net_ok (drop_member f h i s)" if "net_ok s"
    using assms(2) [OF that]
  proof
    assume "get (channels s) f = Some h"
    then show ?thesis unfolding drop_member_def by (rule net_ok_local_leave [OF that _ assms(1)])
  next
    assume "get (channels s) f = None \<and> (\<forall>g. get (channels s) g \<noteq> Some h)"
    then show ?thesis
      unfolding drop_member_def using that assms(1) by (intro net_ok_drop_channel_name net_ok_unregistered) simp_all
  qed
  moreover have "tame s (drop_member f h i s)"
    unfolding drop_member_def by (intro tame.after_steps) simp_all
  ultimately show ?thesis by (simp add: safe_def)
qed

lemma net_ok_add_member:
  assumes "net_ok s" "get (channels s) f = Some h" "i \<in> set (by_id s)"
  shows "net_ok (add_member f h i p s)"
proof -
  define g where "g = (\<lambda>d. d\<lparr>ch_members := put i p (ch_members d)\<rparr> :: channel_data)"
  let ?t = "upd_chan h g s"
  let ?u = "add_member f h i p s"
  have g: "ch_name (g d) = ch_name d" "remote_who (g d) = remote_who d" "local_who (g d) = insert i (local_who d)" for d
    by (auto simp: g_def local_who_def remote_who_def tbl)
  have ok: "chan_ok s" "remotes.agree s (remote_index s)" "locals.agree s (local_index s)" "reg_ok s" "known_ok s"
    using assms(1) by (simp_all add: net_ok_def members_ok_def)
  have fr: "channels ?u = channels ?t" "cdata ?u = cdata ?t" "next_chan ?u = next_chan ?t" "fold_key ?u = fold_key ?t"
    "remote_index ?u = remote_index s" "info ?u = info s" "remote_users ?u = remote_users s" "remote_by_uid ?u = remote_by_uid s"
    by (simp_all add: add_member_def g_def upd_client_data_def upd_client_def fun_eq_iff cdata_def fold_key_def remote_index_def)
  have idx: "local_index ?u = (local_index s)(i := insert f (local_index s i))"
    using assms(3) by (auto simp: fun_eq_iff local_index_def add_member_def upd_client_data_def upd_client_def)
  have "chan_ok ?u" using chan_ok_upd [of s g h] ok(1) g(1) chan_ok_cong [OF fr(1-4)] by simp
  moreover have "locals.agree ?u (local_index ?u)"
    using locals.agree_enter [where g = g, OF ok(1,3) assms(2) g(3)] locals.agree_cong [of ?u ?t] fr(1,2) by (simp add: idx)
  moreover have "remotes.agree ?u (remote_index ?u)"
    using remotes.agree_keep [of g s h] g(2) ok(2) remotes.agree_cong [of ?u ?t] fr(1,2,5) by simp
  moreover have "reg_ok ?u" "known_ok ?u" using ok(4,5) fr reg_ok_cong [of ?u s] known_ok_cong [of ?u s] by simp_all
  ultimately show ?thesis by (simp add: net_ok_def members_ok_def)
qed

subsection \<open>What the handlers keep\<close>

lemma hush_send_names [hushed]: "hush c d \<Longrightarrow> hush c (send_names h display d)"
proof -
  have "hush (snd st) (snd (names_step x y n st))" for x y n st
    by (simp add: names_step_def Let_def hushed split: prod.split)
  then have fold: "hush (snd st) (snd (fold (names_step x y) ns st))" for x y ns st
    using hush.frame_fold_snd [of "names_step x y" st ns] by (metis snd_conv surj_pair)
  have "hush d (send_names h display d)"
    using fold [of "([], d)"] unfolding send_names_def by (simp add: Let_def split_beta hushed del: fold_append)
  then show "hush c d \<Longrightarrow> ?thesis" by (rule hush.frame_trans [rotated])
qed

lemma hush_names [hushed]: "hush c d \<Longrightarrow> hush c (cmd_names ps d)"
proof -
  have "hush d (names_one n d)" for n d by (simp add: names_one_def hushed split: option.split)
  then have "hush d (fold names_one ns d)" for ns by (rule hush.frame_fold)
  then show "hush c d \<Longrightarrow> ?thesis" by (auto simp: cmd_names_def hushed split: list.split intro: hush.frame_trans)
qed

lemma hush_send_topic [hushed]: "hush c d \<Longrightarrow> hush c (send_topic x t d)" "hush c d \<Longrightarrow> hush c (send_topic_on_join h x d)"
  by (simp_all add: send_topic_def send_topic_on_join_def hushed split: option.split)

lemmas kept_hushed [kepts] = kept_hush [OF _ hush_send_names [OF hush.frame_refl]] kept_hush [OF _ hush_names [OF hush.frame_refl]]
  kept_hush [OF _ hush_send_topic(1) [OF hush.frame_refl]] kept_hush [OF _ hush_send_topic(2) [OF hush.frame_refl]]

lemma kept_join_announce [kepts]: "kept c d \<Longrightarrow> kept c (join_announce h n p d)"
  unfolding join_announce_def by (intro kepts) simp_all

lemma safe_persist [simp]: "safe s (persist_registered f s)"
  by (simp add: safe_def tame.persist_step net_ok_persist)

lemma kept_topic_set [kepts]: "kept c d \<Longrightarrow> kept c (topic_set f h n t d)"
  unfolding topic_set_def by (intro kepts) (simp_all add: safe_upd_chan local_who_def remote_who_def)

lemma kept_cmd_topic [kepts]: "kept c d \<Longrightarrow> kept c (cmd_topic ps d)"
  unfolding cmd_topic_def by (intro kepts) assumption+

text \<open>A channel handle found before a plugin ran names the same channel after, or none.\<close>

lemma kept_handle:
  assumes "kept c d" "net_ok (cn_server c)" "get (channels (cn_server c)) f = Some h"
  shows "get (channels (cn_server d)) f = Some h \<or> get (channels (cn_server d)) f = None \<and> (\<forall>g. get (channels (cn_server d)) g \<noteq> Some h)"
proof -
  note t = keptD(2) [OF assms(1)]
  have ok: "chan_ok (cn_server c)" using assms(2) by (simp add: net_ok_def members_ok_def)
  have "g = f" if "get (channels (cn_server d)) g = Some h" for g
  proof -
    have "get (channels (cn_server c)) g = Some h" using tameD(1) [OF t, of g] that by simp
    then show ?thesis by (rule chan_ok_inj [OF ok _ assms(3)])
  qed
  moreover have "get (channels (cn_server d)) f = None \<or> get (channels (cn_server d)) f = Some h"
    using tameD(1) [OF t, of f] assms(3) by simp
  ultimately show ?thesis by (metis option.distinct(1))
qed

lemma kept_drop_member:
  assumes "kept c d" "net_ok (cn_server c)" "i \<in> set (by_id (cn_server c))" "get (channels (cn_server c)) f = Some h"
  shows "kept c (upd_srv (drop_member f h i) d)"
proof (rule kept_upd_srv [OF assms(1)], rule safe_drop_member)
  show "i \<in> set (by_id (cn_server d))" using assms(3) tame_fields(3) [OF keptD(2) [OF assms(1)]] by simp
qed (rule kept_handle [OF assms(1,2,4)])

lemma kept_part_leave:
  assumes "kept c d" "net_ok (cn_server c)" "my_id c \<in> set (by_id (cn_server c))" "get (channels (cn_server c)) f = Some h"
  shows "kept c (part_leave f h n r d)"
  unfolding part_leave_def
  by (intro kepts kept_drop_member assms) (simp_all add: keptD(3) assms safe_reap)

lemma kept_part_one:
  assumes "net_ok (cn_server c)" "my_id c \<in> set (by_id (cn_server c))"
  shows "kept c (part_one name r c)"
  unfolding part_one_def by (intro kepts kept_part_leave assms) (simp_all add: find_channel_def)

lemma conn_ok_server:
  assumes "conn_ok c" "net_ok s" "info s = info (cn_server c)" "clients s = clients (cn_server c)" "by_id s = by_id (cn_server c)"
    "monitors s = monitors (cn_server c)" "entries s = entries (cn_server c)"
  shows "conn_ok (c\<lparr>cn_server := s\<rparr>)"
proof -
  have "nick_key s = nick_key (cn_server c)" by (simp add: fun_eq_iff nick_key_def fold_key_def assms)
  then have "client_ok s" using assms(1) by (simp add: conn_ok_def client_ok_def assms)
  then show ?thesis
    using assms(1,2) by (auto simp: conn_ok_def session_ok_def my_nick_data my_data_def my_entry_def my_id_def assms)
qed

lemma begin_join_fields:
  assumes "begin_join f n s = ((h, created), t)"
  shows "info t = info s" "clients t = clients s" "by_id t = by_id s" "monitors t = monitors s" "entries t = entries s"
    "plugins t = plugins s" "0 < chan_joining (chans t h)" "clock_ms t = clock_ms s" "registered_channels t = registered_channels s"
    "created \<longleftrightarrow> get (channels s) f = None" "\<not> created \<Longrightarrow> get (channels s) f = Some h \<and> cdata t h = cdata s h"
    "created \<Longrightarrow> ch_members (cdata t h) = []"
  using assms
  by (auto simp: begin_join_def new_channel_def add_joining_def cdata_def Let_def channel_entry_new_def seed_from_registration_def
    split: option.splits)

lemma conn_ok_add_member:
  assumes "conn_ok c" "ss_registered (cn_ses c)" "get (channels (cn_server c)) f = Some h"
  shows "conn_ok (upd_srv (add_member f h (my_id c) p) c)" (is "conn_ok ?d")
proof -
  have mem: "my_id c \<in> set (by_id (cn_server c))" and reg: "cd_registered (my_data c)"
    using assms(1,2) by (auto simp: conn_ok_def session_ok_def)
  have "net_ok (cn_server ?d)" using net_ok_add_member [OF _ assms(3) mem] assms(1) by (simp add: conn_ok_def)
  moreover have "client_ok (cn_server ?d)"
  proof -
    let ?t = "upd_chan h (\<lambda>d. d\<lparr>ch_members := put (my_id c) p (ch_members d)\<rparr>) (cn_server c)"
    have "client_ok ?t" using client_ok_tame [OF tame.chan_step] assms(1) by (simp add: conn_ok_def)
    then show ?thesis
      using reg unfolding upd_simps add_member_def by (intro client_ok_upd) (simp_all add: my_data_def my_entry_def)
  qed
  moreover have "session_ok ?d"
    using assms(1,2) mem
    by (auto simp: conn_ok_def session_ok_def my_nick_data my_data_def my_entry_def my_id_def add_member_def upd_client_data_def upd_client_def)
  ultimately show ?thesis by (simp add: conn_ok_def)
qed

lemma conn_ok_join_enter:
  assumes "conn_ok c" "ss_registered (cn_ses c)" "get (channels (cn_server c)) f = Some h"
  shows "conn_ok (join_enter f h created c)"
proof -
  let ?d = "upd_srv (add_member f h (my_id c) \<lparr>mp_op = created \<or> is_founder f c, mp_voice = False\<rparr>) c"
  have "kept ?d (join_announce h (ch_name (cdata (cn_server ?d) h)) \<lparr>mp_op = created \<or> is_founder f c, mp_voice = False\<rparr> ?d)"
    by (rule kept_join_announce) simp
  then show ?thesis using conn_ok_kept [OF conn_ok_add_member [OF assms]] by (simp add: join_enter_def Let_def)
qed

text \<open>The part of an admission before the client enters.\<close>

lemma kept_admit_start:
  "kept c (snd (consult hook (if created then c else upd_srv (upd_chan h (\<lambda>d. d\<lparr>ch_invited := hs_remove n (ch_invited d)\<rparr>)) c)))"
  by (rule kept_consult) (simp add: kepts safe_upd_chan local_who_def remote_who_def)

lemma conn_ok_join_admit:
  assumes "conn_ok c" "ss_registered (cn_ses c)" "get (channels (cn_server c)) f = Some h" "0 < chan_joining (chans (cn_server c) h)"
  shows "conn_ok (join_admit f name key h created c)"
proof -
  have "conn_ok (join_enter f h b d)" "conn_ok d" if "kept c d" for b d
    using conn_ok_join_enter conn_ok_kept [OF assms(1) that] keptD(4) [OF that] tameD(2) [OF keptD(2) [OF that] assms(3,4)] assms(2)
    by simp_all
  note ok = this [OF kept_admit_start [where created = True, simplified]] this [OF kept_admit_start [where created = False, simplified]]
  show ?thesis
    using assms(1) unfolding join_admit_def Let_def by (cases created) (simp_all add: ok split_beta split: option.split prod.split)
qed

lemma conn_ok_join_one:
  assumes "conn_ok c" "ss_registered (cn_ses c)"
  shows "conn_ok (join_one name key c)"
proof -
  obtain h created s where b: "begin_join (fold_c c name) name (cn_server c) = ((h, created), s)" by (metis prod.exhaust)
  note bf = begin_join_fields [OF b] and bn = net_ok_begin_join [OF _ _ b]
  have ok: "net_ok (cn_server c)" "fold_key (cn_server c) name = fold_c c name" using assms(1) by (simp_all add: conn_ok_def fold_c_def)
  let ?d = "c\<lparr>cn_server := s\<rparr>" and ?e = "join_admit (fold_c c name) name key h created (c\<lparr>cn_server := s\<rparr>)"
  have "conn_ok ?d" using conn_ok_server [OF assms(1) bn(1) [OF ok] bf(1-5)] .
  then have e: "conn_ok ?e" using conn_ok_join_admit [of ?d] assms(2) bn(2) [OF ok] bf(7) by simp
  have "conn_ok (?e\<lparr>cn_server := end_join (fold_c c name) h (cn_server ?e)\<rparr>)"
    by (rule conn_ok_server [OF e net_ok_end_join]) (use e in \<open>simp_all add: conn_ok_def end_join_def\<close>)
  then show ?thesis using assms(1) b by (simp add: join_one_def Let_def upd_srv_def)
qed

lemma join_one_session: "ss_registered (cn_ses (join_one name key c)) = ss_registered (cn_ses c)"
proof -
  have "ss_registered (cn_ses (join_admit f name key h created d)) = ss_registered (cn_ses d)" for f h created d
  proof -
    have enter: "ss_registered (cn_ses (join_enter f h b e)) = ss_registered (cn_ses e)" for b e
    proof -
      let ?e = "upd_srv (add_member f h (my_id e) \<lparr>mp_op = b \<or> is_founder f e, mp_voice = False\<rparr>) e"
      show ?thesis using keptD(4) [OF kept_join_announce [OF kept.frame_refl [of ?e]]] by (simp add: join_enter_def Let_def)
    qed
    have "ss_registered (cn_ses (snd (consult hook e))) = ss_registered (cn_ses e)" for hook e by (simp add: consult_def)
    then show ?thesis by (cases created) (simp_all add: join_admit_def Let_def split_beta enter split: option.split)
  qed
  then show ?thesis by (simp add: join_one_def Let_def split: prod.split)
qed

lemma conn_ok_cmd_join:
  assumes "conn_ok c" "ss_registered (cn_ses c)"
  shows "conn_ok (cmd_join ps c)"
proof -
  have parts: "conn_ok (fold part_mine fs d)" if "conn_ok d" "ss_registered (cn_ses d)" for fs d
    using that
  proof (induction fs arbitrary: d)
    case (Cons f fs)
    have "kept d (part_mine f d)"
      using Cons.prems kept_part_one by (auto simp: part_mine_def conn_ok_def session_ok_def split: option.split)
    then show ?case using Cons.IH [of "part_mine f d"] Cons.prems conn_ok_kept keptD(4) by simp
  qed simp
  have joins: "conn_ok (fold (\<lambda>(i, name). join_one name (if i < length keys then Some (keys ! i) else None)) ns d)"
    if "conn_ok d" "ss_registered (cn_ses d)" for keys ns d
    using that by (induction ns arbitrary: d) (auto simp: conn_ok_join_one join_one_session)
  show ?thesis using assms parts joins by (auto simp: cmd_join_def Let_def split: list.split)
qed

lemma conn_ok_cmd_part:
  assumes "conn_ok c" "ss_registered (cn_ses c)"
  shows "conn_ok (cmd_part ps c)"
proof -
  have "conn_ok (fold (\<lambda>name. part_one name r) ns d)" if "conn_ok d" "ss_registered (cn_ses d)" for r ns d
    using that
  proof (induction ns arbitrary: d)
    case (Cons n ns)
    have "kept d (part_one n r d)" using Cons.prems kept_part_one by (auto simp: conn_ok_def session_ok_def)
    then show ?case using Cons.IH [of "part_one n r d"] Cons.prems conn_ok_kept keptD(4) by simp
  qed simp
  then show ?thesis using assms by (auto simp: cmd_part_def split: list.split)
qed

subsection \<open>Who may join\<close>

text \<open>The rules of admission to an existing channel.\<close>

definition may_join :: "channel_data \<Rightarrow> string option \<Rightarrow> conn \<Rightarrow> bool" where
  "may_join d key c \<longleftrightarrow>
     (let msk = entry_hostmask (my_entry c); account = my_account c; oper = cd_oper (my_data c)
      in (is_banned d msk account \<longrightarrow> oper \<or> is_excepted d msk account)
         \<and> (invite_only (ch_modes d) \<longrightarrow> oper \<or> fold_c c (my_nick c) \<in> set (ch_invited d) \<or> matches_invex d msk account)
         \<and> (\<forall>k. chan_key (ch_modes d) = Some k \<longrightarrow> key = Some k)
         \<and> (\<forall>l. chan_limit (ch_modes d) = Some l \<longrightarrow> length (ch_members d) < l))"

lemma join_rejection_None:
  "join_rejection d (entry_hostmask (my_entry c)) (my_account c) (cd_oper (my_data c)) (fold_c c (my_nick c)) key = None
   \<longleftrightarrow> may_join d key c"
  by (auto simp: join_rejection_def may_join_def Let_def not_le split: option.split)

lemma quiet_propagations [simp]:
  "quiet s (propagate_sjoin i n p s)" "quiet s (propagate_spart i n r s)" "quiet s (propagate_topic i n t a r s)"
  by (simp_all add: propagate_sjoin_def propagate_spart_def propagate_topic_def)

lemma hush_join_announce: "hush c d \<Longrightarrow> hush c (join_announce h n p d)"
  unfolding join_announce_def by (intro hushing.intros hushed) simp_all

lemma no_plugins: "plugins (cn_server c) = None \<Longrightarrow> consult hook c = (None, c)" "\<not> vetoed None"
  by (simp_all add: consult_def observe_def vetoed_def)

text \<open>What a join without plugins does to the members of the channel.\<close>

lemma join_enter_members:
  assumes "d = join_enter f h created c"
  shows "channels (cn_server d) = channels (cn_server c)" "chans (cn_server d) = chans (cn_server (upd_srv (add_member f h (my_id c)
    \<lparr>mp_op = created \<or> is_founder f c, mp_voice = False\<rparr>) c))"
proof -
  let ?e = "upd_srv (add_member f h (my_id c) \<lparr>mp_op = created \<or> is_founder f c, mp_voice = False\<rparr>) c"
  have "quiet (cn_server ?e) (cn_server d)"
    unfolding assms join_enter_def Let_def by (rule hush_fields(1) [OF hush_join_announce [OF hush.frame_refl]])
  from quiet_fields(5,7) [OF this] show "channels (cn_server d) = channels (cn_server c)" "chans (cn_server d) = chans (cn_server ?e)"
    by (simp_all add: add_member_def upd_client_data_def upd_client_def)
qed

lemma join_admit_members:
  assumes "plugins (cn_server c) = None" "d = join_admit f name key h created c"
  shows "channels (cn_server d) = channels (cn_server c)" "chan_joining (chans (cn_server d) h) = chan_joining (chans (cn_server c) h)"
    "ch_members (cdata (cn_server d) h) =
       (if created \<or> may_join (cdata (cn_server c) h) key c
        then put (my_id c) \<lparr>mp_op = created \<or> is_founder f c, mp_voice = False\<rparr> (ch_members (cdata (cn_server c) h))
        else ch_members (cdata (cn_server c) h))"
proof -
  define e where "e = (if created then c else upd_srv (upd_chan h (\<lambda>d. d\<lparr>ch_invited := hs_remove (fold_c c (my_nick c)) (ch_invited d)\<rparr>)) c)"
  have fnd: "is_founder f (upd_srv (upd_chan h g) c) = is_founder f c" for g
    by (simp add: is_founder_def my_account_def my_data_def my_entry_def my_id_def channel_founder_def fold_c_def fold_key_def upd_chan_def
      cong: option.case_cong)
  have e: "plugins (cn_server e) = None" "my_id e = my_id c" "is_founder f e = is_founder f c" "channels (cn_server e) = channels (cn_server c)"
    "ch_members (cdata (cn_server e) h) = ch_members (cdata (cn_server c) h)" "chan_joining (chans (cn_server e) h) = chan_joining (chans (cn_server c) h)"
    using assms(1) fnd by (simp_all add: e_def cdata_upd_chan)
  have d: "if created \<or> may_join (cdata (cn_server c) h) key c then d = join_enter f h created e
    else \<exists>code text. d = numeric code [ch_name (cdata (cn_server c) h)] (Some text) c"
    using assms(1) unfolding assms(2) join_admit_def e_def
    by (cases created) (auto simp: no_plugins join_rejection_None [symmetric] Let_def split: option.split)
  have q: "quiet (cn_server c) (cn_server (numeric code ps t c))" for code ps t
    using hush_fields(1) [OF hush_replies(4) [OF hush.frame_refl]] .
  note j = join_enter_members [of _ f h created e]
  show "channels (cn_server d) = channels (cn_server c)"
    using d j(1) e(4) quiet_fields(7) [OF q] by (auto split: if_splits)
  show "chan_joining (chans (cn_server d) h) = chan_joining (chans (cn_server c) h)"
    using d j(2) e(6) quiet_fields(5) [OF q] by (auto simp: add_member_def upd_client_data_def upd_client_def split: if_splits)
  show "ch_members (cdata (cn_server d) h) = (if created \<or> may_join (cdata (cn_server c) h) key c
      then put (my_id c) \<lparr>mp_op = created \<or> is_founder f c, mp_voice = False\<rparr> (ch_members (cdata (cn_server c) h))
      else ch_members (cdata (cn_server c) h))"
    using d j(2) e(2,3,5) quiet_fields(5) [OF q]
    by (auto simp: add_member_def upd_client_data_def upd_client_def upd_chan_def cdata_def split: if_splits)
qed

lemma end_join_members:
  assumes "d = end_join f h c" "get (channels c) f = Some h"
  shows "cdata d = cdata c" "ch_members (cdata c h) \<noteq> [] \<Longrightarrow> get (channels d) f = Some h"
  using assms by (auto simp: end_join_def reap_channel_def cdata_def fun_eq_iff upd_history_def split: option.split)

text \<open>C11: what the code lets onto a channel. A client that is not on the channel and within its channel limit (which server
  operators ignore) joins under a valid name, with no plugins loaded. If the channel is not live, the client becomes its only
  member, as an operator, and no rule is consulted: the stored modes of a registered channel do not apply. If it is live, the
  client is added to the members exactly when no ban applies (or a ban exception, or server operator status, lifts it), \<open>+i\<close>
  is unset or lifted by an invitation, an invite exception or server operator status, the key of \<open>+k\<close> was given and the limit
  of \<open>+l\<close> is above the number of its members on this server; nothing lifts the last two, although a comment in the code says
  that operators bypass all rules. The client becomes a channel operator exactly when it is logged in to the account that
  registered the channel, and a refusal leaves the member list as it was.\<close>

theorem join_exact:
  assumes "conn_ok c" "ss_registered (cn_ses c)" "is_valid_channel name" "plugins (cn_server c) = None"
    "fold_c c name \<notin> set (cd_channels (my_data c))"
    "cd_oper (my_data c) \<or> length (cd_channels (my_data c)) < si_max_channels (info (cn_server c))"
    "s = cn_server c" "t = cn_server (join_one name key c)"
  shows "conn_ok (join_one name key c) \<and>
    (case find_channel s (fold_c c name) of
       None \<Rightarrow> \<exists>h. find_channel t (fold_c c name) = Some h \<and> ch_members (cdata t h) = [(my_id c, \<lparr>mp_op = True, mp_voice = False\<rparr>)]
     | Some h \<Rightarrow>
         if may_join (cdata s h) key c
         then find_channel t (fold_c c name) = Some h
           \<and> ch_members (cdata t h) = put (my_id c) \<lparr>mp_op = is_founder (fold_c c name) c, mp_voice = False\<rparr> (ch_members (cdata s h))
         else ch_members (cdata t h) = ch_members (cdata s h))"
proof -
  obtain h created u where b: "begin_join (fold_c c name) name s = ((h, created), u)" by (metis prod.exhaust)
  note bf = begin_join_fields [OF b] and bn = net_ok_begin_join [OF _ _ b]
  let ?d = "c\<lparr>cn_server := u\<rparr>"
  define e where "e = join_admit (fold_c c name) name key h created ?d"
  have t: "t = end_join (fold_c c name) h (cn_server e)"
    using assms(3,5,6,8) b unfolding assms(7) by (auto simp: join_one_def Let_def e_def upd_srv_def)
  have "plugins (cn_server ?d) = None" using bf(6) assms(4,7) by simp
  note j = join_admit_members [OF this e_def]
  have same: "may_join D key ?d = may_join D key c" "is_founder (fold_c c name) ?d = is_founder (fold_c c name) c" "my_id ?d = my_id c" for D
    using bf(1,5,9) assms(7)
    by (simp_all add: may_join_def is_founder_def my_account_def my_data_def my_entry_def my_id_def my_nick_def channel_founder_def fold_c_def
      fold_key_def cong: option.case_cong)
  have ok: "net_ok s" "fold_key s name = fold_c c name" using assms(1,7) by (simp_all add: conn_ok_def fold_c_def)
  have h: "get (channels (cn_server e)) (fold_c c name) = Some h" using j(1) bn(2) [OF ok] by simp
  note m = end_join_members [OF t h]
  have "get (channels t) (fold_c c name) = Some h" if "created \<or> may_join (cdata u h) key c"
    using that m(2) j(3) unfolding same by auto
  then show ?thesis
    using conn_ok_join_one [OF assms(1,2)] bf(10-12) j(3) m(1)
    by (cases created) (auto simp: find_channel_def same)
qed

definition demo_joiner :: conn where
  "demo_joiner = \<lparr>cn_server = demo_member, cn_auth = demo_auth, cn_ses = (session_new 1 ''9.9.9.9'' None)\<lparr>ss_registered := True, ss_has_user := True\<rparr>\<rparr>"

lemma demo_joiner_ok: "conn_ok demo_joiner"
  using demo_member_ok by (simp add: conn_ok_def session_ok_def demo_joiner_def session_new_def my_data_def my_entry_def my_id_def demo_member_def my_nick_data)

theorem join_exact_witness:
  "\<exists>h. find_channel (cn_server (join_one ''#b'' None demo_joiner)) ''#b'' = Some h
     \<and> ch_members (cdata (cn_server (join_one ''#b'' None demo_joiner)) h) = [(1, \<lparr>mp_op = True, mp_voice = False\<rparr>)]"
proof -
  have "fold_name Ascii ''#b'' = ''#b''" "is_valid_channel ''#b''" by code_simp+
  then have k: "fold_c demo_joiner ''#b'' = ''#b''"
    by (simp add: fold_c_def fold_key_def demo_joiner_def demo_member_def demo_server_def server_new_def)
  from join_exact [OF demo_joiner_ok _ \<open>is_valid_channel ''#b''\<close> _ _ _ refl refl, where key = None] k show ?thesis
    by (simp add: demo_joiner_def session_new_def my_data_def my_entry_def my_id_def demo_member_def demo_server_def server_new_def find_channel_def)
qed

end
