(* ===== verification/Moderation.thy ===== *)
theory Moderation
  imports Joining
begin

text \<open>
  Channel operators at work (\<open>ferrixd/src/command.rs\<close>): user modes and channel modes, kicks, invitations,
  knocks and renames.
\<close>

subsection \<open>User modes\<close>

definition render_user_modes :: "client_data \<Rightarrow> string" where
  "render_user_modes d =
     ''+'' @ (if cd_invisible d then ''i'' else []) @ (if cd_oper d then ''o'' else [])
       @ (if cd_wallops d then ''w'' else []) @ (if cd_bot d then BOT_UMODE else [])"

record umode_run =
  um_data :: client_data
  um_adding :: bool
  um_changed :: mode_accum
  um_unknown :: "rchar option"

definition umode_push :: "rchar \<Rightarrow> umode_run \<Rightarrow> umode_run" where
  "umode_push ch r = r\<lparr>um_changed := accum_push (um_adding r) ch (um_changed r)\<rparr>"

definition umode_step :: "rchar \<Rightarrow> umode_run \<Rightarrow> umode_run" where
  "umode_step ch r =
     (let d = um_data r; adding = um_adding r
      in if ch = ''+'' then r\<lparr>um_adding := True\<rparr>
         else if ch = ''-'' then r\<lparr>um_adding := False\<rparr>
         else if ch = ''i'' \<and> cd_invisible d \<noteq> adding then umode_push ch (r\<lparr>um_data := d\<lparr>cd_invisible := adding\<rparr>\<rparr>)
         else if ch = ''w'' \<and> cd_wallops d \<noteq> adding then umode_push ch (r\<lparr>um_data := d\<lparr>cd_wallops := adding\<rparr>\<rparr>)
         else if ch = BOT_UMODE
         then (if cd_bot d \<noteq> adding then umode_push BOT_UMODE (r\<lparr>um_data := d\<lparr>cd_bot := adding\<rparr>\<rparr>) else r)
         else if ch = ''o'' \<and> \<not> adding \<and> cd_oper d then umode_push ''o'' (r\<lparr>um_data := d\<lparr>cd_oper := False\<rparr>\<rparr>)
         else if ch = ''i'' \<or> ch = ''w'' \<or> ch = ''o'' then r
         else r\<lparr>um_unknown := Some ch\<rparr>)"

definition umode_run_all :: "string \<Rightarrow> client_data \<Rightarrow> umode_run" where
  "umode_run_all flags d =
     fold umode_step (chars flags) \<lparr>um_data = d, um_adding = True, um_changed = accum_default, um_unknown = None\<rparr>"

definition user_mode_set :: "string \<Rightarrow> conn \<Rightarrow> conn" where
  "user_mode_set flags c =
     (let r = umode_run_all flags (my_data c);
          c = upd_me (\<lambda>_. um_data r) c;
          c = (case um_unknown r of Some ch \<Rightarrow> numeric ERR_UMODEUNKNOWNFLAG [ch] (Some ''Unknown MODE flag'') c | None \<Rightarrow> c)
      in if accum_is_empty (um_changed r) then c
         else
           (let c = send_to_me (line_param (line_param (my_line c ''MODE'') (my_nick c)) (ma_flags (um_changed r))) c
            in upd_srv (propagate_umodes (my_id c) (ma_flags (um_changed r))) c))"

definition user_mode :: "string \<Rightarrow> string list \<Rightarrow> conn \<Rightarrow> conn" where
  "user_mode target args c =
     (if fold_c c target \<noteq> fold_c c (my_nick c)
      then (if presence_mask (cn_server c) (fold_c c target) = None
            then numeric ERR_NOSUCHNICK [target] (Some ''No such nick/channel'') c
            else numeric ERR_USERSDONTMATCH [] (Some ''Cannot change mode for other users'') c)
      else
        (case args of
           [] \<Rightarrow> numeric RPL_UMODEIS [render_user_modes (my_data c)] None c
         | flags # _ \<Rightarrow> user_mode_set flags c))"

subsection \<open>Channel modes\<close>

definition list_codes :: "rchar \<Rightarrow> nat \<times> nat \<times> string" where
  "list_codes which =
     (if which = ''b'' then (RPL_BANLIST, RPL_ENDOFBANLIST, ''End of channel ban list'')
      else if which = ''e'' then (RPL_EXCEPTLIST, RPL_ENDOFEXCEPTLIST, ''End of channel exception list'')
      else (RPL_INVEXLIST, RPL_ENDOFINVEXLIST, ''End of channel invite exception list''))"

definition send_list_mode :: "nat \<Rightarrow> rchar \<Rightarrow> conn \<Rightarrow> conn" where
  "send_list_mode h which c =
     (let d = cdata (cn_server c) h; display = ch_name d
      in case list_codes which of
           (item, fin, endmsg) \<Rightarrow>
             numeric fin [display] (Some endmsg)
               (fold (\<lambda>b. numeric item [display, ban_mask b, ban_set_by b, dec (ban_set_at b)] None) (list_of which d) c))"

record mode_run =
  mr_conn :: conn
  mr_adding :: bool
  mr_rest :: "string list"
  mr_accum :: mode_accum
  mr_applied :: "string list"
  mr_wire :: "string list"

definition mr_chan :: "nat \<Rightarrow> (channel_data \<Rightarrow> channel_data) \<Rightarrow> mode_run \<Rightarrow> mode_run" where
  "mr_chan h f r = r\<lparr>mr_conn := upd_srv (upd_chan h f) (mr_conn r)\<rparr>"

definition mr_reply :: "(conn \<Rightarrow> conn) \<Rightarrow> mode_run \<Rightarrow> mode_run" where
  "mr_reply f r = r\<lparr>mr_conn := f (mr_conn r)\<rparr>"

definition mr_push :: "rchar \<Rightarrow> string list \<Rightarrow> string list \<Rightarrow> mode_run \<Rightarrow> mode_run" where
  "mr_push ch applied wire r =
     r\<lparr>mr_accum := accum_push (mr_adding r) ch (mr_accum r), mr_applied := mr_applied r @ applied, mr_wire := mr_wire r @ wire\<rparr>"

text \<open>\<open>+o\<close> and \<open>+v\<close>: the target is looked up among the local clients first, then among the remote users.\<close>

definition run_prefix :: "nat \<Rightarrow> string \<Rightarrow> rchar \<Rightarrow> string \<Rightarrow> mode_run \<Rightarrow> mode_run" where
  "run_prefix h display ch nick r =
     (let c = mr_conn r; s = cn_server c; folded = fold_c c nick; d = cdata s h; adding = mr_adding r;
          absent = mr_reply (numeric ERR_USERNOTINCHANNEL [nick, display] (Some ''They aren't on that channel''))
      in case find_client s folded of
           Some i \<Rightarrow>
             (if get (ch_members d) i \<noteq> None
              then mr_push ch [entry_nick (entries s i)] [local_uid s i]
                     (mr_chan h (\<lambda>d. d\<lparr>ch_members := adjust i (set_prefix ch adding) (ch_members d)\<rparr>) r)
              else absent r)
         | None \<Rightarrow>
             (case find_remote_user s folded of
                Some u \<Rightarrow>
                  (if get (ch_remote_members d) (ru_uid u) \<noteq> None
                   then mr_push ch [ru_nick u] [ru_uid u]
                          (mr_chan h (\<lambda>d. d\<lparr>ch_remote_members :=
                             adjust (ru_uid u) (\<lambda>m. m\<lparr>rm_prefix := set_prefix ch adding (rm_prefix m)\<rparr>) (ch_remote_members d)\<rparr>) r)
                   else absent r)
              | None \<Rightarrow> mr_reply (numeric ERR_NOSUCHNICK [nick] (Some ''No such nick/channel'')) r))"

definition run_list :: "nat \<Rightarrow> rchar \<Rightarrow> string \<Rightarrow> mode_run \<Rightarrow> mode_run" where
  "run_list h ch raw r =
     (let c = mr_conn r; s = cn_server c;
          (l, accum, applied) = apply_list_mode (now_unix s) (list_of ch (cdata s h)) (mr_adding r) (normalize_ban_mask raw) (my_nick c)
             (mr_accum r) (mr_applied r) ch;
          before = length (mr_applied r)
      in (mr_chan h (set_list ch l) r)\<lparr>mr_accum := accum, mr_applied := applied,
            mr_wire := mr_wire r @ (if length applied \<noteq> before then [applied ! before] else [])\<rparr>)"

text \<open>One character of a mode string. An argument is taken from those left; without one the character is skipped.\<close>

definition run_char :: "nat \<Rightarrow> string \<Rightarrow> rchar \<Rightarrow> mode_run \<Rightarrow> mode_run" where
  "run_char h display ch r =
     (let adding = mr_adding r; modes = (\<lambda>f. mr_chan h (\<lambda>d. d\<lparr>ch_modes := f (ch_modes d)\<rparr>));
          with_arg = (\<lambda>f. case mr_rest r of [] \<Rightarrow> r | a # rest \<Rightarrow> f a (r\<lparr>mr_rest := rest\<rparr>))
      in if MAX_MODE_CHANGES \<le> applied_count (mr_accum r) then r
         else if ch = ''+'' then r\<lparr>mr_adding := True\<rparr>
         else if ch = ''-'' then r\<lparr>mr_adding := False\<rparr>
         else if ch = ''o'' \<or> ch = ''v'' then with_arg (run_prefix h display ch)
         else if ch = ''k'' then
           (if adding then with_arg (\<lambda>key r. mr_push ch [key] [key] (modes (\<lambda>m. m\<lparr>chan_key := Some key\<rparr>) r))
            else mr_push ch [''*''] [] (modes (\<lambda>m. m\<lparr>chan_key := None\<rparr>) r))
         else if ch = ''l'' then
           (if adding
            then with_arg (\<lambda>raw r. case parse_u64 raw of
                     Some limit \<Rightarrow> mr_push ch [dec limit] [dec limit] (modes (\<lambda>m. m\<lparr>chan_limit := Some limit\<rparr>) r)
                   | None \<Rightarrow> r)
            else mr_push ch [] [] (modes (\<lambda>m. m\<lparr>chan_limit := None\<rparr>) r))
         else if ch = ''b'' \<or> ch = ''e'' \<or> ch = ''I'' then with_arg (run_list h ch)
         else
           (case find (\<lambda>bm. bm_letter bm = ch) BOOL_MODES of
              Some bm \<Rightarrow> mr_push ch [] [] (modes (bm_set bm adding) r)
            | None \<Rightarrow> mr_reply (numeric ERR_UNKNOWNMODE [ch] (Some ''is unknown mode char to me'')) r))"

definition run_modes :: "nat \<Rightarrow> string \<Rightarrow> string \<Rightarrow> string list \<Rightarrow> conn \<Rightarrow> mode_run" where
  "run_modes h display modestr args c =
     fold (run_char h display) (chars modestr)
       \<lparr>mr_conn = c, mr_adding = True, mr_rest = args, mr_accum = accum_default, mr_applied = [], mr_wire = []\<rparr>"

definition mode_announce :: "nat \<Rightarrow> string \<Rightarrow> mode_run \<Rightarrow> conn" where
  "mode_announce h display r =
     (let c = mr_conn r; flags = ma_flags (mr_accum r);
          e = cn_event c (line_body (fold (\<lambda>a l. line_param l a) (mr_applied r) (line_param (line_param (my_line c ''MODE'') display) flags)));
          c = upd_srv (to_channel h e (Some (my_id c))) c;
          c = deliver_self e c;
          c = upd_srv (record_channel_event (fold_c c display) display (entry_hostmask (my_entry c)) Mode (mode_text flags (mr_applied r))) c;
          c = upd_srv (persist_registered (fold_c c display)) c
      in upd_srv (propagate_mode (my_id c) display flags (mr_wire r)) c)"

definition apply_channel_modes :: "nat \<Rightarrow> string \<Rightarrow> string \<Rightarrow> string list \<Rightarrow> conn \<Rightarrow> conn" where
  "apply_channel_modes h display modestr args c =
     (let r = run_modes h display modestr args c
      in if accum_is_empty (mr_accum r) then mr_conn r else mode_announce h display r)"

definition channel_modes_query :: "nat \<Rightarrow> conn \<Rightarrow> conn" where
  "channel_modes_query h c =
     (let d = cdata (cn_server c) h; (flags, margs) = modes_render (ch_modes d) False;
          l = line_param (line_param (line_param (line_code (line_server (server_name c)) RPL_CHANNELMODEIS) (nick_or_star c)) (ch_name d)) flags
      in numeric RPL_CREATIONTIME [ch_name d, dec (ch_created_at d)] None (send_to_me (fold (\<lambda>a l. line_param l a) margs l) c))"

definition is_list_query :: "string list \<Rightarrow> bool" where
  "is_list_query args \<longleftrightarrow>
     (case args of
        [a] \<Rightarrow> list_ex (\<lambda>x. x \<in> set ''beI'') (dropWhile (\<lambda>x. x = CHR ''+'') a)
               \<and> list_all (\<lambda>x. x \<in> set ''beI+'') a \<and> take 1 a \<noteq> ''-''
      | _ \<Rightarrow> False)"

definition channel_mode :: "string \<Rightarrow> string list \<Rightarrow> conn \<Rightarrow> conn" where
  "channel_mode target args c =
     (case find_channel (cn_server c) (fold_c c target) of
        None \<Rightarrow> numeric ERR_NOSUCHCHANNEL [target] (Some ''No such channel'') c
      | Some h \<Rightarrow>
          (let d = cdata (cn_server c) h; display = ch_name d
           in case args of
                [] \<Rightarrow> channel_modes_query h c
              | modestr # rest \<Rightarrow>
                  if is_list_query args
                  then fold (\<lambda>x. send_list_mode h [x]) (filter (\<lambda>x. x \<in> set ''beI'') (dropWhile (\<lambda>x. x = CHR ''+'') modestr)) c
                  else
                    (case get (ch_members d) (my_id c) of
                       None \<Rightarrow> numeric ERR_NOTONCHANNEL [display] (Some ''You're not on that channel'') c
                     | Some p \<Rightarrow>
                         if \<not> mp_op p
                         then numeric ERR_CHANOPRIVSNEEDED [display] (Some ''You're not channel operator'') c
                         else
                           (let (oc, c) = consult (\<lambda>host. ph_on_mode host (my_nick c) display (join [SP] args)) c
                            in if vetoed oc
                               then fail_reply ''MODE'' ''MODE_BLOCKED'' [display] (veto_reason oc ''Mode change blocked by server policy'') c
                               else apply_channel_modes h display modestr rest c))))"

definition cmd_mode :: "string list \<Rightarrow> conn \<Rightarrow> conn" where
  "cmd_mode params c =
     (case params of
        [] \<Rightarrow> need_more_params ''MODE'' c
      | target # rest \<Rightarrow> if is_valid_channel target then channel_mode target rest c else user_mode target rest c)"

subsection \<open>KICK\<close>

datatype kick_target = KickLocal nat | KickRemote remote_user

definition find_target :: "conn \<Rightarrow> string \<Rightarrow> kick_target option" where
  "find_target c folded =
     (case find_client (cn_server c) folded of
        Some i \<Rightarrow> Some (KickLocal i)
      | None \<Rightarrow> map_option KickRemote (find_remote_user (cn_server c) folded))"

definition target_in :: "channel_data \<Rightarrow> kick_target \<Rightarrow> bool" where
  "target_in d t = (case t of KickLocal i \<Rightarrow> has_member d i | KickRemote u \<Rightarrow> get (ch_remote_members d) (ru_uid u) \<noteq> None)"

definition target_nick :: "conn \<Rightarrow> kick_target \<Rightarrow> string" where
  "target_nick c t = (case t of KickLocal i \<Rightarrow> entry_nick (entries (cn_server c) i) | KickRemote u \<Rightarrow> ru_nick u)"

definition kick_target_out :: "string \<Rightarrow> nat \<Rightarrow> kick_target \<Rightarrow> server \<Rightarrow> server" where
  "kick_target_out folded h t s =
     (case t of
        KickLocal i \<Rightarrow> drop_member folded h i s
      | KickRemote u \<Rightarrow> remote_channel_removed (ru_uid u) folded
          (upd_chan h (\<lambda>d. d\<lparr>ch_remote_members := del (ru_uid u) (ch_remote_members d)\<rparr>) s))"

definition target_uid :: "server \<Rightarrow> kick_target \<Rightarrow> string" where
  "target_uid s t = (case t of KickLocal i \<Rightarrow> local_uid s i | KickRemote u \<Rightarrow> ru_uid u)"

definition kick_out :: "string \<Rightarrow> nat \<Rightarrow> string \<Rightarrow> kick_target \<Rightarrow> string \<Rightarrow> string \<Rightarrow> conn \<Rightarrow> conn" where
  "kick_out folded h display t shown reason c =
     (let e = cn_event c (line_body (line_trailing (line_param (line_param (my_line c ''KICK'') display) shown) reason));
          c = upd_srv (to_channel h e (Some (my_id c))) c;
          c = deliver_self e c;
          c = upd_srv (record_channel_event folded display (entry_hostmask (my_entry c)) Kick (shown @ '' '' @ reason)) c;
          c = upd_srv (kick_target_out folded h t) c;
          c = upd_srv (reap_channel folded) c
      in upd_srv (propagate_kick (my_id c) display (target_uid (cn_server c) t) reason) c)"

definition kick_one :: "string list \<Rightarrow> string \<Rightarrow> string \<Rightarrow> conn \<Rightarrow> conn" where
  "kick_one params chan nick c =
     (let folded = fold_c c chan
      in case find_channel (cn_server c) folded of
           None \<Rightarrow> numeric ERR_NOSUCHCHANNEL [chan] (Some ''No such channel'') c
         | Some h \<Rightarrow>
             (case find_target c (fold_c c nick) of
                None \<Rightarrow> numeric ERR_NOSUCHNICK [nick] (Some ''No such nick/channel'') c
              | Some t \<Rightarrow>
                  (let d = cdata (cn_server c) h; display = ch_name d
                   in case get (ch_members d) (my_id c) of
                        None \<Rightarrow> numeric ERR_NOTONCHANNEL [display] (Some ''You're not on that channel'') c
                      | Some p \<Rightarrow>
                          if \<not> mp_op p then numeric ERR_CHANOPRIVSNEEDED [display] (Some ''You're not channel operator'') c
                          else if \<not> target_in d t
                          then numeric ERR_USERNOTINCHANNEL [nick, display] (Some ''They aren't on that channel'') c
                          else
                            (let reason = truncate_chars (case params of _ # _ # r # _ \<Rightarrow> r | _ \<Rightarrow> my_nick c) MAX_KICK_LEN;
                                 shown = target_nick c t;
                                 (oc, c) = consult (\<lambda>host. ph_on_kick host (my_nick c) display shown reason) c
                             in if vetoed oc
                                then fail_reply ''KICK'' ''KICK_BLOCKED'' [display] (veto_reason oc ''Kick blocked by server policy'') c
                                else kick_out folded h display t shown reason c))))"

definition cmd_kick :: "string list \<Rightarrow> conn \<Rightarrow> conn" where
  "cmd_kick params c =
     (case params of
        chanlist # userlist # _ \<Rightarrow>
          (let chans = filter (\<lambda>x. x \<noteq> []) (split_on (CHR '','') chanlist); users = filter (\<lambda>x. x \<noteq> []) (split_on (CHR '','') userlist)
           in if length chans = 1 then fold (kick_one params (hd chans)) users c
              else fold (\<lambda>(chan, user). kick_one params chan user) (zip chans users) c)
      | _ \<Rightarrow> need_more_params ''KICK'' c)"

subsection \<open>INVITE and KNOCK\<close>

definition pending_invites :: "conn \<Rightarrow> string list" where
  "pending_invites c =
     (let s = cn_server c; nick = fold_c c (my_nick c)
      in map (\<lambda>(_, h). ch_name (cdata s h)) (filter (\<lambda>(_, h). nick \<in> set (ch_invited (cdata s h))) (channels s)))"

text \<open>The checks both kinds of invitation make on the channel.\<close>

definition may_invite :: "nat \<Rightarrow> bool \<Rightarrow> string \<Rightarrow> conn \<Rightarrow> (conn \<Rightarrow> conn) option" where
  "may_invite h present shown c =
     (let d = cdata (cn_server c) h; display = ch_name d; p = get (ch_members d) (my_id c)
      in if p = None then Some (numeric ERR_NOTONCHANNEL [display] (Some ''You're not on that channel''))
         else if invite_only (ch_modes d) \<and> \<not> mp_op (the p)
         then Some (numeric ERR_CHANOPRIVSNEEDED [display] (Some ''You're not channel operator''))
         else if present then Some (numeric ERR_USERONCHANNEL [shown, display] (Some ''is already on channel''))
         else None)"

definition invite_event :: "conn \<Rightarrow> string \<Rightarrow> string \<Rightarrow> event" where
  "invite_event c shown display = cn_event c (line_body (line_param (line_param (my_line c ''INVITE'') shown) display))"

definition invite_local :: "nat \<Rightarrow> nat \<Rightarrow> conn \<Rightarrow> conn" where
  "invite_local h i c =
     (let d = cdata (cn_server c) h; display = ch_name d; shown = entry_nick (entries (cn_server c) i)
      in case may_invite h (has_member d i) shown c of
           Some refuse \<Rightarrow> refuse c
         | None \<Rightarrow>
             (let (oc, c) = consult (\<lambda>host. ph_on_invite host (my_nick c) display shown) c
              in if vetoed oc
                 then fail_reply ''INVITE'' ''INVITE_BLOCKED'' [display] (veto_reason oc ''Invite blocked by server policy'') c
                 else
                   (let c = upd_srv (upd_chan h (\<lambda>d. d\<lparr>ch_invited := add_invite (fold_c c shown) (ch_invited d)\<rparr>)) c;
                        c = numeric RPL_INVITING [shown, display] None c;
                        e = invite_event c shown display;
                        c = upd_srv (to_client i e) c
                    in upd_srv (to_channel_capped h e InviteNotify (Some (my_id c))) c)))"

definition invite_remote :: "remote_user \<Rightarrow> string \<Rightarrow> conn \<Rightarrow> conn" where
  "invite_remote u chan c =
     (case find_channel (cn_server c) (fold_c c chan) of
        None \<Rightarrow> numeric ERR_NOSUCHCHANNEL [chan] (Some ''No such channel'') c
      | Some h \<Rightarrow>
          (let d = cdata (cn_server c) h; display = ch_name d; shown = ru_nick u
           in case may_invite h (get (ch_remote_members d) (ru_uid u) \<noteq> None) shown c of
                Some refuse \<Rightarrow> refuse c
              | None \<Rightarrow>
                  (let (oc, c) = consult (\<lambda>host. ph_on_invite host (my_nick c) display shown) c
                   in if vetoed oc
                      then fail_reply ''INVITE'' ''INVITE_BLOCKED'' [display] (veto_reason oc ''Invite blocked by server policy'') c
                      else
                        (let c = upd_srv (\<lambda>s. snd (send_towards (ru_server_sid u) (to_line (Sinvite (local_uid s (my_id c)) (ru_uid u) display)) s)) c;
                             c = numeric RPL_INVITING [shown, display] None c
                         in upd_srv (to_channel_capped h (invite_event c shown display) InviteNotify (Some (my_id c))) c))))"

definition cmd_invite :: "string list \<Rightarrow> conn \<Rightarrow> conn" where
  "cmd_invite params c =
     (case params of
        [] \<Rightarrow> numeric RPL_ENDOFINVITELIST [] (Some ''End of /INVITE list'')
               (fold (\<lambda>name. numeric RPL_INVITELIST [name] None) (pending_invites c) c)
      | nick # chan # _ \<Rightarrow>
          (case find_client (cn_server c) (fold_c c nick) of
             Some i \<Rightarrow>
               (case find_channel (cn_server c) (fold_c c chan) of
                  None \<Rightarrow> numeric ERR_NOSUCHCHANNEL [chan] (Some ''No such channel'') c
                | Some h \<Rightarrow> invite_local h i c)
           | None \<Rightarrow>
               (case find_remote_user (cn_server c) (fold_c c nick) of
                  Some u \<Rightarrow> invite_remote u chan c
                | None \<Rightarrow> numeric ERR_NOSUCHNICK [nick] (Some ''No such nick/channel'') c))
      | _ \<Rightarrow> need_more_params ''INVITE'' c)"

definition knock_op :: "string \<Rightarrow> string \<Rightarrow> nat \<times> member_prefix \<Rightarrow> server \<Rightarrow> server" where
  "knock_op display msk m s =
     (case m of (i, p) \<Rightarrow>
        if mp_op p
        then upd_client i (entry_send_line (line_trailing (line_param (line_param (line_param (line_code (line_server (si_name (info s))) RPL_KNOCK)
               (entry_nick (entries s i))) display) msk) ''has asked for an invite'')) s
        else s)"

definition cmd_knock :: "string list \<Rightarrow> conn \<Rightarrow> conn" where
  "cmd_knock params c =
     (case params of
        [] \<Rightarrow> need_more_params ''KNOCK'' c
      | chan # _ \<Rightarrow>
          (case find_channel (cn_server c) (fold_c c chan) of
             None \<Rightarrow> numeric ERR_NOSUCHCHANNEL [chan] (Some ''No such channel'') c
           | Some h \<Rightarrow>
               (let d = cdata (cn_server c) h; display = ch_name d; msk = entry_hostmask (my_entry c)
                in if has_member d (my_id c) then numeric ERR_KNOCKONCHAN [display] (Some ''Is already on channel'') c
                   else if \<not> invite_only (ch_modes d) then numeric ERR_CHANOPEN [display] (Some ''Channel is open'') c
                   else if is_banned d msk (my_account c)
                   then numeric ERR_BANNEDFROMCHAN [display] (Some ''Cannot knock on channel (+b)'') c
                   else
                     (let c = upd_srv (fold (knock_op display msk) (member_snapshot (cn_server c) h)) c;
                          c = upd_srv (propagate_knock (local_uid (cn_server c) (my_id c)) display msk) c
                      in numeric RPL_KNOCKDLVR [display] (Some ''Your KNOCK has been delivered'') c))))"

subsection \<open>RENAME\<close>

definition cmd_rename :: "string list \<Rightarrow> conn \<Rightarrow> conn" where
  "cmd_rename params c =
     (case params of
        old # new_name # rest \<Rightarrow>
          (let reason = (case rest of r # _ \<Rightarrow> r | [] \<Rightarrow> []); old_folded = fold_c c old
           in if \<not> is_valid_channel new_name
              then fail_reply ''RENAME'' ''CANNOT_RENAME'' [old, new_name] ''Invalid channel name'' c
              else
                (case find_channel (cn_server c) old_folded of
                   None \<Rightarrow> numeric ERR_NOSUCHCHANNEL [old] (Some ''No such channel'') c
                 | Some h \<Rightarrow>
                     (let d = cdata (cn_server c) h; old_display = ch_name d
                      in case get (ch_members d) (my_id c) of
                           None \<Rightarrow> numeric ERR_NOTONCHANNEL [old_display] (Some ''You're not on that channel'') c
                         | Some p \<Rightarrow>
                             if \<not> mp_op p
                             then numeric ERR_CHANOPRIVSNEEDED [old_display] (Some ''You're not channel operator'') c
                             else
                               (case rename_channel old_folded new_name (cn_server c) of
                                  (Inr h, s) \<Rightarrow>
                                    (let c = c\<lparr>cn_server := s\<rparr>;
                                         c = upd_srv (broadcast_rename h old_display (entry_hostmask (my_entry c)) reason) c
                                     in upd_srv (propagate_rename (my_id c) old_display new_name reason) c)
                                | (Inl NameInUse, s) \<Rightarrow>
                                    fail_reply ''RENAME'' ''CHANNEL_NAME_IN_USE'' [old, new_name] ''Channel name already in use'' (c\<lparr>cn_server := s\<rparr>)
                                | (Inl NoSuchChannel, s) \<Rightarrow>
                                    numeric ERR_NOSUCHCHANNEL [old] (Some ''No such channel'') (c\<lparr>cn_server := s\<rparr>)))))
      | _ \<Rightarrow> fail_reply ''RENAME'' ''NEED_MORE_PARAMS'' [''*''] ''Not enough parameters'' c)"

subsection \<open>What the handlers keep\<close>

lemma umode_step_same: "same_client d (um_data r) \<Longrightarrow> same_client d (um_data (umode_step ch r))"
  by (auto simp: umode_step_def umode_push_def Let_def same_client_def)

lemma umode_run_same: "same_client d (um_data (umode_run_all flags d))"
proof -
  have "same_client d (um_data (fold umode_step cs r))" if "same_client d (um_data r)" for cs r
    using that by (induction cs arbitrary: r) (auto simp: umode_step_same)
  then show ?thesis by (simp add: umode_run_all_def)
qed

lemma kept_user_mode_set [kepts]: "kept c d \<Longrightarrow> kept c (user_mode_set flags d)"
  unfolding user_mode_set_def Let_def by (intro kepts) (simp_all add: umode_run_same)

lemma kept_user_mode [kepts]: "kept c d \<Longrightarrow> kept c (user_mode t args d)"
  unfolding user_mode_def by (intro kepts) assumption+

lemma kept_send_list_mode [kepts]: "kept c d \<Longrightarrow> kept c (send_list_mode h w d)"
  unfolding send_list_mode_def by (intro kepts) assumption+

lemma kept_channel_modes_query [kepts]: "kept c d \<Longrightarrow> kept c (channel_modes_query h d)"
  unfolding channel_modes_query_def Let_def split_beta by (intro kepts) assumption+

text \<open>A run over a mode string changes prefixes, modes and lists of the channel, never who is on it.\<close>

lemma kept_mr_chan:
  assumes "kept c (mr_conn r)" "\<And>d. ch_name (f d) = ch_name d" "\<And>d. remote_who (f d) = remote_who d" "\<And>d. local_who (f d) = local_who d"
  shows "kept c (mr_conn (mr_chan h f r))"
proof -
  have "safe s (upd_chan h f s)" for s by (rule safe_upd_chan) (simp_all add: assms)
  then show ?thesis using kept_upd_srv [OF assms(1), of "upd_chan h f"] by (simp add: mr_chan_def)
qed

lemma who_adjust:
  "local_who (d\<lparr>ch_members := adjust i f (ch_members d)\<rparr>) = local_who d"
  "remote_who (d\<lparr>ch_members := ms\<rparr>) = remote_who d"
  "remote_who (d\<lparr>ch_remote_members := adjust u g (ch_remote_members d)\<rparr>) = remote_who d"
  "local_who (d\<lparr>ch_remote_members := rs\<rparr>) = local_who d"
  by (auto simp: local_who_def remote_who_def tbl split: if_splits)

lemma mr_push_conn [simp]: "mr_conn (mr_push ch a w r) = mr_conn r"
  by (simp add: mr_push_def)

lemma kept_run_prefix:
  assumes "kept c (mr_conn r)"
  shows "kept c (mr_conn (run_prefix h n ch nick r))"
proof -
  have reply: "kept c (mr_conn (mr_reply (numeric k ps t) r))" for k ps t by (simp add: mr_reply_def kept_replies assms)
  show ?thesis
    unfolding run_prefix_def Let_def
    by (auto simp: reply who_adjust split: option.split intro!: kept_mr_chan assms)
qed

lemma set_list_frame: "ch_name (set_list ch l d) = ch_name d" "ch_members (set_list ch l d) = ch_members d"
  "ch_remote_members (set_list ch l d) = ch_remote_members d"
  by (simp_all add: set_list_def)

lemma kept_run_list:
  assumes "kept c (mr_conn r)"
  shows "kept c (mr_conn (run_list h ch raw r))"
proof -
  have "kept c (mr_conn (mr_chan h (set_list ch l) r))" for l
    by (rule kept_mr_chan [OF assms]) (simp_all add: set_list_frame local_who_def remote_who_def)
  then show ?thesis by (simp add: run_list_def Let_def split: prod.split)
qed

lemma kept_run_char:
  assumes "kept c (mr_conn r)"
  shows "kept c (mr_conn (run_char h n ch r))"
proof -
  have modes: "kept c (mr_conn (mr_chan h (\<lambda>d. d\<lparr>ch_modes := f (ch_modes d)\<rparr>) r'))" if "mr_conn r' = mr_conn r" for f r'
    by (rule kept_mr_chan) (simp_all add: assms that local_who_def remote_who_def)
  have reply: "kept c (mr_conn (mr_reply (numeric k ps t) r))" for k ps t by (simp add: mr_reply_def kept_replies assms)
  show ?thesis
    unfolding run_char_def Let_def using assms
    by (simp add: modes reply kept_run_prefix kept_run_list split: list.split option.split)
qed

lemma kept_run_modes: "kept c d \<Longrightarrow> kept c (mr_conn (run_modes h n m args d))"
proof -
  have "kept c (mr_conn (fold (run_char h n) cs r))" if "kept c (mr_conn r)" for cs r
    using that by (induction cs arbitrary: r) (auto simp: kept_run_char)
  then show "kept c d \<Longrightarrow> kept c (mr_conn (run_modes h n m args d))" by (simp add: run_modes_def)
qed

lemma kept_mode_announce: "kept c (mr_conn r) \<Longrightarrow> kept c (mode_announce h n r)"
  unfolding mode_announce_def by (intro kepts) simp_all

lemma kept_apply_channel_modes [kepts]: "kept c d \<Longrightarrow> kept c (apply_channel_modes h n m args d)"
  by (simp add: apply_channel_modes_def Let_def kept_run_modes kept_mode_announce)

lemma kept_channel_mode [kepts]: "kept c d \<Longrightarrow> kept c (channel_mode t args d)"
  unfolding channel_mode_def by (intro kepts) assumption+

lemma kept_cmd_mode [kepts]: "kept c d \<Longrightarrow> kept c (cmd_mode ps d)"
  unfolding cmd_mode_def by (intro kepts) assumption+

lemma safe_knock_op: "safe s (fold (knock_op n msk) ms s)"
  by (rule safe.frame_fold) (auto simp: knock_op_def entry_send_line_def intro: safe_upd_client split: prod.split)

lemma safe_propagate_knock [simp]: "safe s (propagate_knock u n msk s)"
  by (simp add: propagate_knock_def split: option.split)

lemma kept_cmd_knock [kepts]: "kept c d \<Longrightarrow> kept c (cmd_knock ps d)"
  unfolding cmd_knock_def by (intro kepts) (simp_all add: safe_knock_op)

lemma kept_may_invite: "may_invite h b n d = Some refuse \<Longrightarrow> kept c d \<Longrightarrow> kept c (refuse d)"
  by (auto simp: may_invite_def Let_def kept_replies split: if_splits)

lemma kept_invite_local [kepts]: "kept c d \<Longrightarrow> kept c (invite_local h i d)"
  unfolding invite_local_def
  by (intro kepts; (erule kept_may_invite)?) (simp_all add: safe_upd_chan local_who_def remote_who_def)

lemma kept_invite_remote [kepts]: "kept c d \<Longrightarrow> kept c (invite_remote u n d)"
  unfolding invite_remote_def by (intro kepts; (erule kept_may_invite)?) simp_all

lemma kept_cmd_invite [kepts]: "kept c d \<Longrightarrow> kept c (cmd_invite ps d)"
  unfolding cmd_invite_def by (intro kepts) assumption+

lemma net_ok_drop_remote_name:
  assumes "net_ok s" "get (channels s) f = None"
  shows "net_ok (remote_channel_removed uid f s)" (is "net_ok ?t")
proof -
  have "f \<notin> remote_index s uid"
    using assms remotes.agree_known [of s "remote_index s" f uid] by (auto simp: net_ok_def members_ok_def)
  then have idx: "remote_index ?t = remote_index s" by (auto simp: index_removed)
  have "cdata ?t = cdata s" "fold_key ?t = fold_key s" by (simp_all add: fun_eq_iff cdata_def fold_key_def)
  moreover have "local_index ?t = local_index s" by (simp add: fun_eq_iff local_index_def remote_channel_removed_def)
  ultimately show ?thesis
    using assms(1) reg_ok_cong [of ?t s] known_ok_cong [OF idx]
    by (simp add: net_ok_def members_ok_def chan_ok_def remotes.agree_def locals.agree_def idx)
qed

lemma safe_kick_remote:
  assumes "net_ok s \<Longrightarrow> get (channels s) f = Some h \<or> get (channels s) f = None \<and> (\<forall>g. get (channels s) g \<noteq> Some h)"
  shows "safe s (kick_target_out f h (KickRemote u) s)"
proof -
  have "net_ok (kick_target_out f h (KickRemote u) s)" if ok: "net_ok s"
    using assms [OF ok] net_ok_remote_leave [OF ok] net_ok_drop_remote_name net_ok_unregistered [OF ok]
    by (auto simp: kick_target_out_def)
  moreover have "tame s (kick_target_out f h (KickRemote u) s)"
    unfolding kick_target_out_def kick_target.case by (intro tame.after_steps) simp_all
  ultimately show ?thesis by (simp add: safe_def)
qed

lemma kept_kick_target_out:
  assumes "kept c d" "net_ok (cn_server c)" "get (channels (cn_server c)) f = Some h"
    "\<And>i. t = KickLocal i \<Longrightarrow> i \<in> set (by_id (cn_server c))"
  shows "kept c (upd_srv (kick_target_out f h t) d)"
proof (cases t)
  case (KickLocal i)
  then have "kick_target_out f h t = drop_member f h i" by (simp add: fun_eq_iff kick_target_out_def)
  then show ?thesis using kept_drop_member [OF assms(1,2) assms(4) [OF KickLocal] assms(3)] by simp
next
  case (KickRemote u)
  show ?thesis
    unfolding KickRemote by (rule kept_upd_srv [OF assms(1)], rule safe_kick_remote, rule kept_handle [OF assms(1-3)])
qed

lemma kept_kick_out:
  assumes "kept c d" "net_ok (cn_server c)" "get (channels (cn_server c)) f = Some h"
    "\<And>i. t = KickLocal i \<Longrightarrow> i \<in> set (by_id (cn_server c))"
  shows "kept c (kick_out f h n t x r d)"
  unfolding kick_out_def by (intro kepts kept_kick_target_out assms) (simp_all add: assms safe_reap)

lemma find_target_local: "client_ok (cn_server c) \<Longrightarrow> find_target c f = Some (KickLocal i) \<Longrightarrow> i \<in> set (by_id (cn_server c))"
  by (auto simp: find_target_def find_client_def client_ok_def split: option.splits)

lemma kept_kick_one:
  assumes "conn_ok c"
  shows "kept c (kick_one ps chan nick c)"
proof -
  have ok: "net_ok (cn_server c)" "client_ok (cn_server c)" using assms by (simp_all add: conn_ok_def)
  show ?thesis
    unfolding kick_one_def
    by (intro kepts kept_kick_out ok) (auto simp: find_channel_def dest: find_target_local [OF ok(2)])
qed

lemma conn_ok_loop:
  assumes "conn_ok c" "\<And>x c. conn_ok c \<Longrightarrow> kept c (f x c)"
  shows "conn_ok (fold f xs c)"
  using assms(1) by (induction xs arbitrary: c) (auto intro: assms(2) conn_ok_kept)

lemma conn_ok_cmd_kick: "conn_ok c \<Longrightarrow> conn_ok (cmd_kick ps c)"
  by (auto simp: cmd_kick_def Let_def split: list.split intro!: conn_ok_loop kept_kick_one)

subsection \<open>Renaming keeps the clients\<close>

lemma rename_members_entries:
  "(ce_data (entries (rename_members f g ids s) i))\<lparr>cd_channels := []\<rparr> = (ce_data (entries s i))\<lparr>cd_channels := []\<rparr>
   \<and> (i \<notin> set ids \<longrightarrow> entries (rename_members f g ids s) i = entries s i)
   \<and> clients (rename_members f g ids s) = clients s \<and> monitors (rename_members f g ids s) = monitors s"
  unfolding rename_members_fold
proof (induction ids arbitrary: s)
  case (Cons j ids)
  have "(ce_data (entries (rename_member f g j s) i))\<lparr>cd_channels := []\<rparr> = (ce_data (entries s i))\<lparr>cd_channels := []\<rparr>"
    "i \<noteq> j \<Longrightarrow> entries (rename_member f g j s) i = entries s i"
    "clients (rename_member f g j s) = clients s" "monitors (rename_member f g j s) = monitors s"
    by (auto simp: rename_member_def by_id_get_def upd_client_data_def upd_client_def split: option.split if_splits)
  then show ?case using Cons.IH [of "rename_member f g j s"] by auto
qed simp

lemma rename_entries:
  assumes "net_ok s" "t = snd (rename_channel f n s)"
  shows "info t = info s" "clients t = clients s" "by_id t = by_id s" "monitors t = monitors s"
    "(ce_data (entries t i))\<lparr>cd_channels := []\<rparr> = (ce_data (entries s i))\<lparr>cd_channels := []\<rparr>"
    "cd_channels (ce_data (entries s i)) = [] \<Longrightarrow> cd_channels (ce_data (entries t i)) = []"
proof -
  let ?g = "fold_key s n"
  consider (gone) "get (channels s) f = None" | (same) h where "get (channels s) f = Some h" "?g = f"
    | (used) h where "get (channels s) f = Some h" "?g \<noteq> f" "get (channels s) ?g \<noteq> None"
    | (move) h where "get (channels s) f = Some h" "?g \<noteq> f" "get (channels s) ?g = None" by fastforce
  then have "info t = info s \<and> clients t = clients s \<and> by_id t = by_id s \<and> monitors t = monitors s
    \<and> (ce_data (entries t i))\<lparr>cd_channels := []\<rparr> = (ce_data (entries s i))\<lparr>cd_channels := []\<rparr>
    \<and> (cd_channels (ce_data (entries s i)) = [] \<longrightarrow> cd_channels (ce_data (entries t i)) = [])"
  proof cases
    case move
    define u where "u = upd_chan h (\<lambda>d. d\<lparr>ch_name := n\<rparr>) (s\<lparr>channels := del f (put ?g h (channels s))\<rparr>)"
    define ids where "ids = keys_of (ch_members (cdata s h))"
    have u: "entries u = entries s" "clients u = clients s" "monitors u = monitors s" "info u = info s" "by_id u = by_id s"
      "ch_members (cdata u h) = ch_members (cdata s h)"
      by (simp_all add: u_def upd_chan_def cdata_def)
    have t: "entries t = entries (rename_members f ?g ids u)" "clients t = clients (rename_members f ?g ids u)"
      "monitors t = monitors (rename_members f ?g ids u)" "info t = info s" "by_id t = by_id s"
      using rename_channel_renamed [OF move(1) refl move(2,3)] u
      by (simp_all add: assms(2) renamed_def Let_def u_def [symmetric] ids_def rename_registration_def persist_registered_def store_send_def
        upd_history_def split: option.split)
    have "locals.agree s (local_index s)" using assms(1) by (simp add: net_ok_def members_ok_def)
    then have "f \<in> local_index s i" if "i \<in> set ids"
      using that locals.agree_iff move(1) by (fastforce simp: ids_def keys_of_mem local_who_def)
    then have "cd_channels (ce_data (entries s i)) = [] \<longrightarrow> i \<notin> set ids" by (auto simp: local_index_def split: if_splits)
    then show ?thesis using rename_members_entries [of f ?g ids u i] u t by auto
  qed (simp_all add: assms(2) rename_channel_def find_channel_def Let_def)
  then show "info t = info s" "clients t = clients s" "by_id t = by_id s" "monitors t = monitors s"
    "(ce_data (entries t i))\<lparr>cd_channels := []\<rparr> = (ce_data (entries s i))\<lparr>cd_channels := []\<rparr>"
    "cd_channels (ce_data (entries s i)) = [] \<Longrightarrow> cd_channels (ce_data (entries t i)) = []" by simp_all
qed

lemma conn_ok_rename:
  assumes "conn_ok c"
  shows "conn_ok (c\<lparr>cn_server := snd (rename_channel f n (cn_server c))\<rparr>)" (is "conn_ok (c\<lparr>cn_server := ?t\<rparr>)")
proof -
  have ok: "net_ok (cn_server c)" "client_ok (cn_server c)" "session_ok c" using assms by (simp_all add: conn_ok_def)
  note r = rename_entries [OF ok(1) refl, where f = f and n = n]
  have d: "cd_nick (ce_data (entries ?t i)) = cd_nick (ce_data (entries (cn_server c) i))"
    "cd_registered (ce_data (entries ?t i)) = cd_registered (ce_data (entries (cn_server c) i))"
    "cd_monitor (ce_data (entries ?t i)) = cd_monitor (ce_data (entries (cn_server c) i))" for i
    using r(5) [of i, THEN arg_cong [of _ _ cd_nick]] r(5) [of i, THEN arg_cong [of _ _ cd_registered]]
      r(5) [of i, THEN arg_cong [of _ _ cd_monitor]] by simp_all
  have "nick_key ?t = nick_key (cn_server c)" by (simp add: fun_eq_iff nick_key_def fold_key_def r(1) d)
  then have "client_ok ?t" using ok(2) r(6) unfolding client_ok_def r(2-4) d by simp
  moreover have "session_ok (c\<lparr>cn_server := ?t\<rparr>)"
    using ok(3) r(3,6) d by (auto simp: session_ok_def my_nick_data my_data_def my_entry_def my_id_def)
  ultimately show ?thesis using net_ok_rename [OF ok(1)] by (simp add: conn_ok_def)
qed

lemma conn_ok_cmd_rename:
  assumes "conn_ok c"
  shows "conn_ok (cmd_rename ps c)"
proof -
  have "conn_ok (c\<lparr>cn_server := s\<rparr>)" if "rename_channel f n (cn_server c) = (r, s)" for f n r s
    using conn_ok_rename [OF assms, of f n] that by simp
  moreover have "conn_ok (upd_srv (propagate_rename i o' n r) (upd_srv (broadcast_rename h o' m r) d))" if "conn_ok d" for d i o' n r h m
    by (rule conn_ok_kept [OF that]) (intro kepts; simp)
  ultimately show ?thesis
    using assms by (auto simp: cmd_rename_def Let_def split: list.split option.split sum.split rename_error.split prod.split)
qed

subsection \<open>Who may moderate\<close>

lemma hush_queries:
  "hush c d \<Longrightarrow> hush c (send_list_mode h w d)" "hush c d \<Longrightarrow> hush c (channel_modes_query h d)" "hush c d \<Longrightarrow> hush c (send_topic n t d)"
  unfolding send_list_mode_def channel_modes_query_def send_topic_def Let_def split_beta by (intro hushing.intros; assumption)+

end
