(* ===== verification/ModeSync.thy ===== *)
theory ModeSync
  imports Moderation
begin

text \<open>
  Mode changes agree across servers. A server applies a client's \<open>MODE\<close> command to its own copy of the
  channel and sends the changes that took effect to its peers as an \<open>SMODE\<close> frame, with network ids for
  nicknames; a peer replays that frame on its copy. This theory shows that both get the same channel.
\<close>

subsection \<open>Reading a frame back\<close>

primrec replay :: "server \<Rightarrow> rchar list \<Rightarrow> string list \<Rightarrow> bool \<Rightarrow> mode_step list \<times> bool \<times> string list" where
  "replay s [] rest adding = ([], adding, rest)"
| "replay s (c # cs) rest adding =
     (let (st, adding, rest) = mode_char s c adding rest; (sts, adding, rest) = replay s cs rest adding in (st @ sts, adding, rest))"

lemma mode_steps_replay: "mode_steps s cs rest adding = fst (replay s cs rest adding)"
  by (induction cs arbitrary: rest adding) (auto split: prod.split)

lemma replay_append:
  "replay s (cs @ ds) rest adding =
     (let (st, adding, rest) = replay s cs rest adding; (sts, adding, rest) = replay s ds rest adding in (st @ sts, adding, rest))"
  by (induction cs arbitrary: rest adding) (auto split: prod.split)

text \<open>What the changes applied so far have left of the sign: none yet, or that of the last change.\<close>

definition synced :: "server \<Rightarrow> string \<Rightarrow> nat \<Rightarrow> mode_run \<Rightarrow> bool" where
  "synced s me h r \<longleftrightarrow>
     (let t = cn_server (mr_conn r); a = mr_accum r
      in info t = info s \<and> clients t = clients s \<and> remote_users t = remote_users s \<and> clock_ms t = clock_ms s
         \<and> (\<forall>i. cd_nick (ce_data (entries t i)) = cd_nick (ce_data (entries s i))) \<and> my_nick (mr_conn r) = me
         \<and> list_all is_ascii (ma_flags a) \<and> (ma_sign a = None \<longrightarrow> ma_flags a = [])
         \<and> (\<exists>steps. (\<forall>rest b. replay s (chars (ma_flags a)) (mr_wire r @ rest) b
                               = (steps, (case ma_sign a of None \<Rightarrow> b | Some g \<Rightarrow> g), rest))
               \<and> (\<forall>st. ms_data st = cdata s h \<longrightarrow> ms_data (fold (apply_step (now_unix s) me) steps st) = cdata t h)))"

lemma synced_reply:
  assumes "synced s me h r"
  shows "synced s me h (mr_reply (numeric k ps t) r)"
proof -
  have q: "quiet (cn_server c) (cn_server (numeric k ps t c))" for c
    using hush_fields(1) [OF hush_replies(4) [OF hush.frame_refl]] .
  have "my_nick (numeric k ps t c) = my_nick c" for c
    using keptD(5) [OF kept_replies(4) [OF kept.frame_refl]] .
  then show ?thesis
    using assms quiet_fields [OF q] unfolding synced_def mr_reply_def Let_def by (simp add: cdata_def)
qed

lemma synced_push:
  assumes "synced s me h r" "is_ascii x"
    and read: "\<And>rest. mode_char s [x] (mr_adding r) (wire @ rest) = ([step], mr_adding r, rest)"
    and same: "\<And>st. ms_data st = cdata (cn_server (mr_conn r)) h \<Longrightarrow>
      ms_data (apply_step (now_unix s) me step st) = f (cdata (cn_server (mr_conn r)) h)"
  shows "synced s me h (mr_push [x] applied wire (mr_chan h f r))"
proof -
  let ?a = "mr_accum r" and ?b = "accum_push (mr_adding r) [x] (mr_accum r)" and ?c = "upd_srv (upd_chan h f) (mr_conn r)"
  obtain steps where steps:
    "\<And>rest b. replay s (chars (ma_flags ?a)) (mr_wire r @ rest) b = (steps, (case ma_sign ?a of None \<Rightarrow> b | Some g \<Rightarrow> g), rest)"
    "\<And>st. ms_data st = cdata s h \<Longrightarrow> ms_data (fold (apply_step (now_unix s) me) steps st) = cdata (cn_server (mr_conn r)) h"
    using assms(1) unfolding synced_def Let_def by blast
  have ascii: "list_all is_ascii (ma_flags ?a)" "ma_sign ?a = None \<longrightarrow> ma_flags ?a = []" using assms(1) by (simp_all add: synced_def Let_def)
  have signs: "is_ascii (CHR ''+'')" "is_ascii (CHR ''-'')" by code_simp+
  have flags: "chars (ma_flags ?b) = chars (ma_flags ?a)
      @ (if ma_sign ?a \<noteq> Some (mr_adding r) then [if mr_adding r then ''+'' else ''-''] else []) @ [[x]]"
    "list_all is_ascii (ma_flags ?b)" "ma_sign ?b = Some (mr_adding r)"
    using ascii assms(2) signs by (auto simp: accum_push_def Let_def chars_ascii)
  have "replay s (chars (ma_flags ?b)) (mr_wire r @ wire @ rest) b = (steps @ [step], mr_adding r, rest)" for rest b
    using steps(1) [of "wire @ rest" b] read [of rest]
    by (auto simp: flags(1) replay_append mode_char_def [of s "''+''"] mode_char_def [of s "''-''"] split: option.splits)
  moreover have "ms_data (fold (apply_step (now_unix s) me) (steps @ [step]) st) = cdata (cn_server ?c) h" if "ms_data st = cdata s h" for st
    using same [OF steps(2) [OF that]] by (simp add: cdata_upd_chan)
  moreover have "my_nick ?c = me"
  proof -
    have "my_nick ?c = my_nick (mr_conn r)" by (simp add: my_nick_data my_data_def my_entry_def my_id_def)
    then show ?thesis using assms(1) by (simp add: synced_def Let_def)
  qed
  ultimately show ?thesis
    using assms(1) flags(2,3) unfolding synced_def mr_push_def mr_chan_def Let_def by (auto simp: upd_chan_def intro!: exI [of _ "steps @ [step]"])
qed

subsection \<open>The characters of a mode string\<close>

lemma synced_skip:
  assumes "synced s me h r" "mr_conn r' = mr_conn r" "mr_accum r' = mr_accum r" "mr_wire r' = mr_wire r"
  shows "synced s me h r'"
  using assms by (simp add: synced_def)

lemma local_uid_id: "i < 2 ^ 64 \<Longrightarrow> local_id_of_uid s (local_uid s i) = Some i"
  by (simp add: local_id_of_uid_def local_uid_def parse_u64_dec)

lemma synced_prefix:
  assumes "synced s me h r" "net_ok s" "client_ok s" "x = CHR ''o'' \<or> x = CHR ''v''"
    and ids: "\<And>i. i \<in> set (by_id s) \<Longrightarrow> i < 2 ^ 64"
    and uids: "\<And>f u. get (remote_users s) f = Some u \<Longrightarrow> \<not> owns_local_uid s (ru_uid u)"
  shows "synced s me h (run_prefix h n [x] nick r)"
proof -
  let ?t = "cn_server (mr_conn r)"
  have t: "info ?t = info s" "clients ?t = clients s" "remote_users ?t = remote_users s"
    "cd_nick (ce_data (entries ?t i)) = cd_nick (ce_data (entries s i))" for i
    using assms(1) by (simp_all add: synced_def Let_def)
  have ascii: "is_ascii x" using assms(4) by (auto simp: is_ascii_def)
  have char: "mode_char s [x] b (uid # rest) = (prefix_step s [x] b uid, b, rest)" for b uid rest
    using assms(4) by (auto simp: mode_char_def)
  consider (loc) i p where "find_client ?t (fold_c (mr_conn r) nick) = Some i" "get (ch_members (cdata ?t h)) i = Some p"
    | (rem) u m where "find_client ?t (fold_c (mr_conn r) nick) = None" "find_remote_user ?t (fold_c (mr_conn r) nick) = Some u"
        "get (ch_remote_members (cdata ?t h)) (ru_uid u) = Some m"
    | (no) k ps v where "run_prefix h n [x] nick r = mr_reply (numeric k ps v) r"
    by (cases "find_client ?t (fold_c (mr_conn r) nick)"; cases "find_remote_user ?t (fold_c (mr_conn r) nick)")
      (force simp: run_prefix_def Let_def)+
  then show ?thesis
  proof cases
    case loc
    have "i \<in> set (by_id s)" using loc(1) assms(3) by (simp add: find_client_def t client_ok_def)
    then have "prefix_step s [x] b (local_uid ?t i) = [StepPrefix [x] b (PTLocal i) (entry_nick (entries s i)) (local_uid s i)]" for b
      using local_uid_id ids by (simp add: prefix_step_def by_id_get_def local_uid_def t)
    then have "synced s me h (mr_push [x] [entry_nick (entries ?t i)] [local_uid ?t i]
        (mr_chan h (\<lambda>d. d\<lparr>ch_members := adjust i (set_prefix [x] (mr_adding r)) (ch_members d)\<rparr>) r))"
      using loc(2) by (intro synced_push [OF assms(1) ascii, where step = "StepPrefix [x] (mr_adding r) (PTLocal i) (entry_nick (entries s i)) (local_uid s i)"])
        (simp_all add: char Let_def)
    then show ?thesis using loc by (simp add: run_prefix_def Let_def)
  next
    case rem
    have u: "get (remote_users s) (fold_c (mr_conn r) nick) = Some u" using rem(2) by (simp add: find_remote_user_def t)
    have "remote_user_by_uid s (ru_uid u) = Some u"
      using assms(2) u by (auto simp: net_ok_def reg_ok_def remote_user_by_uid_def)
    then have "prefix_step s [x] b (ru_uid u) = [StepPrefix [x] b (PTRemote (ru_uid u)) (ru_nick u) (ru_uid u)]" for b
      using uids [OF u] by (simp add: prefix_step_def owns_local_uid_def)
    then have "synced s me h (mr_push [x] [ru_nick u] [ru_uid u] (mr_chan h (\<lambda>d. d\<lparr>ch_remote_members :=
        adjust (ru_uid u) (\<lambda>m. m\<lparr>rm_prefix := set_prefix [x] (mr_adding r) (rm_prefix m)\<rparr>) (ch_remote_members d)\<rparr>) r))"
      using rem(3) by (intro synced_push [OF assms(1) ascii, where step = "StepPrefix [x] (mr_adding r) (PTRemote (ru_uid u)) (ru_nick u) (ru_uid u)"])
        (simp_all add: char Let_def)
    then show ?thesis using rem by (simp add: run_prefix_def Let_def)
  qed (simp add: synced_reply assms(1))
qed

lemma list_mode_list: "fst (apply_list_mode now l b m w a ap ch) = fst (apply_list_mode now l b m w a' ap' ch)"
  by (simp add: apply_list_mode_def Let_def)

lemma filter_same: "length (filter P l) = length l \<Longrightarrow> filter P l = l"
  by (metis filter_id_conv length_filter_less order_less_irrefl)

lemma list_mode_result:
  "apply_list_mode now l b m w a ap ch = (l, a, ap)
   \<or> (\<exists>l'. apply_list_mode now l b m w a ap ch = (l', accum_push b ch a, ap @ [m]))"
  by (cases b) (auto simp: apply_list_mode_def Let_def dest!: filter_same)

lemma synced_list:
  assumes "synced s me h r" "x \<in> set ''beI''"
  shows "synced s me h (run_list h [x] raw r)"
proof -
  let ?t = "cn_server (mr_conn r)" and ?m = "normalize_ban_mask raw"
  have me: "my_nick (mr_conn r) = me" and now: "now_unix ?t = now_unix s"
    using assms(1) by (simp_all add: synced_def Let_def now_unix_def now_millis_def)
  have x: "is_ascii x" "mode_char s [x] b (m # rest) = ([StepList [x] b m], b, rest)" for b m rest
    using assms(2) by (auto simp: mode_char_def is_ascii_def)
  consider (no) "apply_list_mode (now_unix s) (list_of [x] (cdata ?t h)) (mr_adding r) ?m me (mr_accum r) (mr_applied r) [x]
      = (list_of [x] (cdata ?t h), mr_accum r, mr_applied r)"
    | (yes) l where "apply_list_mode (now_unix s) (list_of [x] (cdata ?t h)) (mr_adding r) ?m me (mr_accum r) (mr_applied r) [x]
      = (l, accum_push (mr_adding r) [x] (mr_accum r), mr_applied r @ [?m])"
    using list_mode_result by blast
  then show ?thesis
  proof cases
    case no
    have "set_list [x] (list_of [x] (cdata ?t h)) (cdata ?t h) = cdata ?t h" by (simp add: set_list_def list_of_def)
    then have "upd_chan h (set_list [x] (list_of [x] (cdata ?t h))) ?t = ?t"
      by (simp add: upd_chan_def cdata_def fun_upd_idem)
    then have "mr_chan h (set_list [x] (list_of [x] (cdata ?t h))) r = r" by (simp add: mr_chan_def upd_srv_def)
    then show ?thesis using no assms(1) by (simp add: run_list_def me now)
  next
    case (yes l)
    have "run_list h [x] raw r = mr_push [x] [?m] [?m] (mr_chan h (set_list [x] l) r)"
      using yes by (simp add: run_list_def me now mr_push_def mr_chan_def)
    moreover have "ms_data (apply_step (now_unix s) me (StepList [x] (mr_adding r) ?m) st) = set_list [x] l (cdata ?t h)"
      if "ms_data st = cdata ?t h" for st
      using list_mode_list [of "now_unix s" "list_of [x] (cdata ?t h)" "mr_adding r" ?m me "ms_accum st" "ms_applied st" "[x]" "mr_accum r" "mr_applied r"]
        yes that by (auto split: prod.split)
    ultimately show ?thesis by (simp only:) (rule synced_push [OF assms(1) x(1)], simp add: x(2), simp)
  qed
qed

text \<open>The modes of the channel itself.\<close>

lemma synced_modes:
  assumes "synced s me h r"
  shows "mr_adding r \<Longrightarrow> synced s me h (mr_push ''k'' [key] [key] (mr_chan h (\<lambda>d. d\<lparr>ch_modes := (ch_modes d)\<lparr>chan_key := Some key\<rparr>\<rparr>) r))"
    "\<not> mr_adding r \<Longrightarrow> synced s me h (mr_push ''k'' ap [] (mr_chan h (\<lambda>d. d\<lparr>ch_modes := (ch_modes d)\<lparr>chan_key := None\<rparr>\<rparr>) r))"
    "mr_adding r \<Longrightarrow> parse_u64 raw = Some limit \<Longrightarrow>
       synced s me h (mr_push ''l'' [dec limit] [dec limit] (mr_chan h (\<lambda>d. d\<lparr>ch_modes := (ch_modes d)\<lparr>chan_limit := Some limit\<rparr>\<rparr>) r))"
    "\<not> mr_adding r \<Longrightarrow> synced s me h (mr_push ''l'' [] [] (mr_chan h (\<lambda>d. d\<lparr>ch_modes := (ch_modes d)\<lparr>chan_limit := None\<rparr>\<rparr>) r))"
    "find (\<lambda>bm. bm_letter bm = ch) BOOL_MODES = Some bm \<Longrightarrow>
       synced s me h (mr_push ch [] [] (mr_chan h (\<lambda>d. d\<lparr>ch_modes := bm_set bm (mr_adding r) (ch_modes d)\<rparr>) r))"
proof -
  have kl: "is_ascii (CHR ''k'')" "is_ascii (CHR ''l'')" by code_simp+
  show "synced s me h (mr_push ''k'' [key] [key] (mr_chan h (\<lambda>d. d\<lparr>ch_modes := (ch_modes d)\<lparr>chan_key := Some key\<rparr>\<rparr>) r))" if "mr_adding r"
    using that by (intro synced_push [OF assms kl(1), where step = "StepKey True (Some key)"]) (simp_all add: mode_char_def)
  show "synced s me h (mr_push ''k'' ap [] (mr_chan h (\<lambda>d. d\<lparr>ch_modes := (ch_modes d)\<lparr>chan_key := None\<rparr>\<rparr>) r))" if "\<not> mr_adding r"
    using that by (intro synced_push [OF assms kl(1), where step = "StepKey False None"]) (simp_all add: mode_char_def)
  show "synced s me h (mr_push ''l'' [] [] (mr_chan h (\<lambda>d. d\<lparr>ch_modes := (ch_modes d)\<lparr>chan_limit := None\<rparr>\<rparr>) r))" if "\<not> mr_adding r"
    using that by (intro synced_push [OF assms kl(2), where step = "StepLimit False None"]) (simp_all add: mode_char_def)
  show "synced s me h (mr_push ''l'' [dec limit] [dec limit] (mr_chan h (\<lambda>d. d\<lparr>ch_modes := (ch_modes d)\<lparr>chan_limit := Some limit\<rparr>\<rparr>) r))"
    if "mr_adding r" "parse_u64 raw = Some limit"
  proof -
    have "limit < 2 ^ 64" using that(2) by (auto simp: parse_u64_def Let_def split: if_splits)
    then have "parse_u64 (dec limit) = Some limit" by (rule parse_u64_dec)
    then show ?thesis
      using that(1) by (intro synced_push [OF assms kl(2), where step = "StepLimit True (Some limit)"]) (simp_all add: mode_char_def)
  qed
  show "synced s me h (mr_push ch [] [] (mr_chan h (\<lambda>d. d\<lparr>ch_modes := bm_set bm (mr_adding r) (ch_modes d)\<rparr>) r))"
    if bm: "find (\<lambda>bm. bm_letter bm = ch) BOOL_MODES = Some bm"
  proof -
    obtain x where x: "ch = [x]" "x \<in> set ''imnst''"
      using bm by (auto simp: find_Some_iff BOOL_MODES_def nth_Cons' split: if_splits)
    have "list_ex (\<lambda>bm. bm_letter bm = ch) BOOL_MODES" using bm by (auto simp: find_Some_iff list_ex_length)
    then have "mode_char s ch b rest = ([StepBool ch b], b, rest)" for b rest using x by (auto simp: mode_char_def)
    then show ?thesis
      using bm x unfolding x(1)
      by (intro synced_push [OF assms, where step = "StepBool [x] (mr_adding r)"]) (auto simp: is_ascii_def)
  qed
qed

lemma synced_char:
  assumes "synced s me h r" "net_ok s" "client_ok s"
    and ids: "\<And>i. i \<in> set (by_id s) \<Longrightarrow> i < 2 ^ 64"
    and uids: "\<And>f u. get (remote_users s) f = Some u \<Longrightarrow> \<not> owns_local_uid s (ru_uid u)"
  shows "synced s me h (run_char h n ch r)"
proof -
  have arg: "synced s me h (case mr_rest r of [] \<Rightarrow> r | a # rest \<Rightarrow> f a (r\<lparr>mr_rest := rest\<rparr>))"
    if "\<And>a r'. synced s me h r' \<Longrightarrow> mr_adding r' = mr_adding r \<Longrightarrow> synced s me h (f a r')" for f
    using that synced_skip [OF assms(1)] assms(1) by (auto split: list.split)
  have sign: "synced s me h (r\<lparr>mr_adding := b\<rparr>)" for b by (rule synced_skip [OF assms(1)]) simp_all
  have "synced s me h (case mr_rest r of [] \<Rightarrow> r | a # rest \<Rightarrow> run_prefix h n ch a (r\<lparr>mr_rest := rest\<rparr>))" if "ch = ''o'' \<or> ch = ''v''"
    using synced_prefix [OF _ assms(2,3) _ ids uids, of me h _ "hd ch"] that by (intro arg) auto
  moreover have "synced s me h (case mr_rest r of [] \<Rightarrow> r | a # rest \<Rightarrow> run_list h ch a (r\<lparr>mr_rest := rest\<rparr>))" if "ch = ''b'' \<or> ch = ''e'' \<or> ch = ''I''"
    using synced_list [of s me h _ "hd ch"] that by (intro arg) auto
  moreover have "synced s me h (case mr_rest r of [] \<Rightarrow> r | key # rest \<Rightarrow> mr_push ch [key] [key]
      (mr_chan h (\<lambda>d. d\<lparr>ch_modes := (ch_modes d)\<lparr>chan_key := Some key\<rparr>\<rparr>) (r\<lparr>mr_rest := rest\<rparr>)))" if "mr_adding r" "ch = ''k''"
    unfolding that(2) by (rule arg, rule synced_modes(1)) (simp_all add: that)
  moreover have "synced s me h (case mr_rest r of [] \<Rightarrow> r | raw # rest \<Rightarrow> case parse_u64 raw of None \<Rightarrow> r\<lparr>mr_rest := rest\<rparr>
      | Some limit \<Rightarrow> mr_push ch [dec limit] [dec limit] (mr_chan h (\<lambda>d. d\<lparr>ch_modes := (ch_modes d)\<lparr>chan_limit := Some limit\<rparr>\<rparr>) (r\<lparr>mr_rest := rest\<rparr>)))"
    if "mr_adding r" "ch = ''l''"
    unfolding that(2)
  proof (rule arg)
    show "synced s me h (case parse_u64 raw of None \<Rightarrow> r' | Some limit \<Rightarrow> mr_push ''l'' [dec limit] [dec limit]
        (mr_chan h (\<lambda>d. d\<lparr>ch_modes := (ch_modes d)\<lparr>chan_limit := Some limit\<rparr>\<rparr>) r'))" if "synced s me h r'" "mr_adding r' = mr_adding r" for raw r'
      using synced_modes(3) [OF that(1)] that \<open>mr_adding r\<close> by (simp split: option.split)
  qed
  ultimately show ?thesis
    using assms(1) unfolding run_char_def Let_def
    by (simp add: sign synced_modes synced_reply split: option.split)
qed

subsection \<open>Replaying a command\<close>

lemma synced_start:
  "synced (cn_server c) (my_nick c) h \<lparr>mr_conn = c, mr_adding = True, mr_rest = args, mr_accum = accum_default, mr_applied = [], mr_wire = []\<rparr>"
  by (simp add: synced_def accum_default_def)

lemma run_char_bounded:
  assumes "applied_count (mr_accum r) \<le> MAX_MODE_CHANGES"
  shows "applied_count (mr_accum (run_char h n ch r)) \<le> MAX_MODE_CHANGES"
proof (cases "MAX_MODE_CHANGES \<le> applied_count (mr_accum r)")
  case True
  then show ?thesis using assms by (simp add: run_char_def)
next
  case False
  have push: "applied_count (accum_push b x a) = Suc (applied_count a)" for b x a by (simp add: accum_push_def applied_count_def)
  have lists: "applied_count (mr_accum (run_list h x a r')) \<le> Suc (applied_count (mr_accum r'))" for x a r'
    using list_mode_result [of "now_unix (cn_server (mr_conn r'))" "list_of x (cdata (cn_server (mr_conn r')) h)" "mr_adding r'"
      "normalize_ban_mask a" "my_nick (mr_conn r')" "mr_accum r'" "mr_applied r'" x] push
    by (auto simp: run_list_def Let_def)
  have prefixes: "applied_count (mr_accum (run_prefix h n x a r')) \<le> Suc (applied_count (mr_accum r'))" for x a r'
    by (simp add: run_prefix_def Let_def mr_push_def mr_chan_def mr_reply_def push split: option.split)
  have "applied_count (mr_accum (run_prefix h n x a (r\<lparr>mr_rest := l\<rparr>))) \<le> Suc (applied_count (mr_accum r))"
    "applied_count (mr_accum (run_list h x a (r\<lparr>mr_rest := l\<rparr>))) \<le> Suc (applied_count (mr_accum r))" for x a l
    using prefixes [of x a "r\<lparr>mr_rest := l\<rparr>"] lists [of x a "r\<lparr>mr_rest := l\<rparr>"] by simp_all
  then have "applied_count (mr_accum (run_char h n ch r)) \<le> Suc (applied_count (mr_accum r))"
    by (simp add: run_char_def Let_def mr_push_def mr_chan_def mr_reply_def push split: option.split list.split)
  then show ?thesis using False by simp
qed

subsection \<open>On another server\<close>

text \<open>What of a channel does not depend on the server that looks at it: its modes, key and limit, and the masks of its lists.\<close>

definition settings :: "channel_data \<Rightarrow> channel_modes \<times> string list \<times> string list \<times> string list" where
  "settings d = (ch_modes d, map ban_mask (ch_bans d), map ban_mask (ch_exceptions d), map ban_mask (ch_invex d))"

lemma list_mode_masks:
  "map ban_mask (fst (apply_list_mode now l adding msk sb acc app fl)) =
     (let ms = map ban_mask l
      in if adding then (if length ms < MAX_LIST_ENTRIES \<and> msk \<notin> set ms then ms @ [msk] else ms) else filter (\<lambda>x. x \<noteq> msk) ms)"
proof -
  have "list_ex (\<lambda>b. ban_mask b = msk) l \<longleftrightarrow> msk \<in> ban_mask ` set l" by (auto simp: list_ex_iff)
  then show ?thesis by (simp add: apply_list_mode_def Let_def filter_map o_def)
qed

fun is_prefix_step :: "mode_step \<Rightarrow> bool" where
  "is_prefix_step (StepPrefix c b t n u) = True"
| "is_prefix_step _ = False"

lemma settings_prefix: "is_prefix_step x \<Longrightarrow> settings (ms_data (apply_step n a x st)) = settings (ms_data st)"
  by (cases x) (auto simp: settings_def Let_def split: prefix_target.split)

lemma settings_prefixes: "list_all is_prefix_step xs \<Longrightarrow> settings (ms_data (fold (apply_step n a) xs st)) = settings (ms_data st)"
  by (induction xs arbitrary: st) (simp_all add: settings_prefix)

lemma settings_step:
  assumes "settings (ms_data st) = settings (ms_data st')"
  shows "settings (ms_data (apply_step n a x st)) = settings (ms_data (apply_step n' a' x st'))"
proof (cases "is_prefix_step x")
  case True
  then show ?thesis using assms by (simp add: settings_prefix)
next
  case False
  show ?thesis
  proof (cases x)
    case (StepList c adding msk)
    have "map ban_mask (list_of c (ms_data st)) = map ban_mask (list_of c (ms_data st'))" using assms by (simp add: list_of_def settings_def)
    then have "map ban_mask (fst (apply_list_mode n (list_of c (ms_data st)) adding msk a (ms_accum st) (ms_applied st) c))
        = map ban_mask (fst (apply_list_mode n' (list_of c (ms_data st')) adding msk a' (ms_accum st') (ms_applied st') c))"
      by (simp only: list_mode_masks)
    then show ?thesis
      using assms by (auto simp: StepList settings_def set_list_def split_beta)
  qed (use False assms in \<open>auto simp: settings_def Let_def split: option.split\<close>)
qed

lemma settings_steps:
  "settings (ms_data st) = settings (ms_data st') \<Longrightarrow>
     settings (ms_data (fold (apply_step n a) xs st)) = settings (ms_data (fold (apply_step n' a') xs st'))"
  by (induction xs arbitrary: st st') (simp_all add: settings_step [of _ _ n a _ n' a'])

text \<open>A frame is read the same on any server, but for who the members named in it are.\<close>

lemma mode_char_elsewhere:
  "snd (mode_char s c b rest) = snd (mode_char t c b rest)
   \<and> (fst (mode_char s c b rest) = fst (mode_char t c b rest)
      \<or> list_all is_prefix_step (fst (mode_char s c b rest)) \<and> list_all is_prefix_step (fst (mode_char t c b rest)))"
proof (cases "c = ''o'' \<or> c = ''v''")
  case True
  have "list_all is_prefix_step (prefix_step u c b uid)" for u uid by (simp add: prefix_step_def split: option.split)
  then show ?thesis using True by (auto simp: mode_char_def split: list.split)
qed (simp add: mode_char_def)

lemma replay_elsewhere:
  assumes "settings (ms_data st) = settings (ms_data st')"
  shows "settings (ms_data (fold (apply_step n a) (mode_steps s cs rest b) st)) = settings (ms_data (fold (apply_step n' a') (mode_steps t cs rest b) st'))"
  using assms
proof (induction cs arbitrary: rest b st st')
  case (Cons c cs)
  obtain x y b1 r1 where m: "mode_char s c b rest = (x, b1, r1)" "mode_char t c b rest = (y, b1, r1)"
      "x = y \<or> list_all is_prefix_step x \<and> list_all is_prefix_step y"
    using mode_char_elsewhere [of s c b rest t] by (cases "mode_char s c b rest"; cases "mode_char t c b rest") auto
  have "settings (ms_data (fold (apply_step n a) x st)) = settings (ms_data (fold (apply_step n' a') y st'))"
    using m(3) settings_prefixes settings_steps [OF Cons.prems] Cons.prems by auto
  then show ?case using Cons.IH by (simp add: m(1,2))
qed simp

lemma remote_mode_data:
  assumes "find_channel t (fold_key t nm) = Some k" "ts = 0 \<or> ch_created_at (cdata t k) = ts"
  shows "cdata (remote_mode nm src ts flags args t) k =
    ms_data (fold (apply_step (now_unix t) (remote_source_nick t src)) (mode_steps t (chars flags) args True)
      \<lparr>ms_data = cdata t k, ms_accum = accum_default, ms_applied = [], ms_wire = []\<rparr>)"
proof -
  define st where "st = fold (apply_step (now_unix t) (remote_source_nick t src)) (mode_steps t (chars flags) args True)
      \<lparr>ms_data = cdata t k, ms_accum = accum_default, ms_applied = [], ms_wire = []\<rparr>"
  have "\<not> channel_ts_wins_over t k ts" "reconcile_channel_ts k ts t = t"
    using assms(2) by (auto simp: channel_ts_wins_over_def reconcile_channel_ts_def)
  moreover have "cdata (persist_registered f u) = cdata u" for f u
    by (simp add: fun_eq_iff cdata_def persist_registered_def store_send_def Let_def split: option.split)
  moreover have "cdata (broadcast h l e u) = cdata u" "cdata (record_channel_event f dn sr kd x u) = cdata u" for h l e f dn sr kd x u
    by (simp_all add: fun_eq_iff cdata_def)
  ultimately have "cdata (snd (apply_mode_change nm src ts flags args t)) k = ms_data st"
    using assms(1) by (simp add: apply_mode_change_def Let_def st_def [symmetric] cdata_upd_chan)
  then show ?thesis
    by (cases "apply_mode_change nm src ts flags args t")
      (auto simp: remote_mode_def Let_def st_def \<open>\<And>h l e f dn sr kd x u. cdata (record_channel_event f dn sr kd x u) = cdata u\<close> split: option.split)
qed

text \<open>The frame of a change.\<close>

definition mode_frame :: "string \<Rightarrow> mode_run \<Rightarrow> link_message" where
  "mode_frame display r =
     (let c = mr_conn r; s = cn_server c
      in Smode display (local_uid s (my_id c)) (channel_ts s display) (ma_flags (mr_accum r)) (mr_wire r))"

lemma mode_frame_sent:
  assumes "r = run_modes h display modestr args c" "\<not> accum_is_empty (mr_accum r)"
  shows "\<exists>u. apply_channel_modes h display modestr args c = upd_srv (propagate (mode_frame display r)) u"
proof -
  define c0 where "c0 = mr_conn r"
  define e where "e = cn_event c0 (line_body (fold (\<lambda>a l. line_param l a) (mr_applied r) (line_param (line_param (my_line c0 ''MODE'') display) (ma_flags (mr_accum r)))))"
  define c1 where "c1 = deliver_self e (upd_srv (to_channel h e (Some (my_id c0))) c0)"
  define c2 where "c2 = upd_srv (record_channel_event (fold_c c1 display) display (entry_hostmask (my_entry c1)) Mode
    (mode_text (ma_flags (mr_accum r)) (mr_applied r))) c1"
  define c3 where "c3 = upd_srv (persist_registered (fold_c c2 display)) c2"
  have h: "hush c0 c2" unfolding c2_def c1_def by (intro hushed hush.frame_refl) simp_all
  note q = quiet_fields [OF hush_fields(1) [OF h]]
  have p: "info (persist_registered f u) = info u" "channels (persist_registered f u) = channels u" "chans (persist_registered f u) = chans u" for f u
    by (simp_all add: persist_registered_def store_send_def Let_def split: option.split)
  have "my_id c3 = my_id c0" using hush_fields [OF h] by (simp add: c3_def)
  moreover have "local_uid (cn_server c3) i = local_uid (cn_server c0) i" "channel_ts (cn_server c3) display = channel_ts (cn_server c0) display" for i
    by (simp_all add: c3_def local_uid_def channel_ts_def fold_key_def find_channel_def cdata_def p q cong: option.case_cong)
  moreover have "mode_announce h display r = upd_srv (propagate_mode (my_id c3) display (ma_flags (mr_accum r)) (mr_wire r)) c3"
    unfolding mode_announce_def Let_def c3_def c2_def c1_def e_def c0_def by (rule refl)
  then have "apply_channel_modes h display modestr args c = upd_srv (propagate_mode (my_id c3) display (ma_flags (mr_accum r)) (mr_wire r)) c3"
    using assms(2) by (simp add: apply_channel_modes_def assms(1) [symmetric])
  ultimately have "apply_channel_modes h display modestr args c = upd_srv (propagate (mode_frame display r)) c3"
    by (simp add: propagate_mode_def mode_frame_def c0_def [symmetric] upd_srv_def Let_def)
  then show ?thesis by blast
qed

text \<open>A key of two words does not survive the wire: the peer reads its first word.\<close>

lemma key_of_two_words: "to_line (Smode ch src ts fl [x @ SP # y]) = to_line (Smode ch src ts fl [x, y])"
  by (simp add: line_defs)

text \<open>A line that is well-formed is read as the message it was written for.\<close>

lemma frame_read:
  assumes "wf_link default_limits m"
  shows "handle_frame p (to_line m) s = handle_link p m s"
proof -
  obtain c ps t where sh: "link_shape m = (c, ps, t)" by (metis prod_cases3)
  have "link_values m" using assms by (simp add: wf_link_def)
  then show ?thesis
    using parse_frame [OF assms sh] from_params_shape [OF sh] verb_alphabetic [OF sh]
    by (simp add: handle_frame_def message_parse_def from_message_def)
qed

text \<open>C12: a mode change means the same everywhere, as far as its frame can carry it. When a client changes the modes of a
  channel, no more than the advertised six changes are made by one command, and if any was made one frame is sent to the
  peers. The flags and arguments of that frame (members by network id), replayed on the channel as it was before, give
  exactly the channel the server has after: the same modes, key, limit, lists and operators. When every argument is a single
  word, so that the line can carry it (\<open>wf_link\<close>), a peer that accepts the sender, and whose copy of the channel has the same
  age, modes, key, limit and masks, has the same modes, key, limit and masks as the server after it read the line. A key of
  two words is not such an argument: see \<open>key_of_two_words\<close>.\<close>

theorem mode_change_replays:
  assumes "conn_ok c" "s = cn_server c" "r = run_modes h display modestr args c"
    and "\<And>i. i \<in> set (by_id s) \<Longrightarrow> i < 2 ^ 64"
    and "\<And>f u. get (remote_users s) f = Some u \<Longrightarrow> \<not> owns_local_uid s (ru_uid u)"
  shows "ms_data (fold (apply_step (now_unix s) (my_nick c)) (mode_steps s (chars (ma_flags (mr_accum r))) (mr_wire r) True)
      \<lparr>ms_data = cdata s h, ms_accum = accum_default, ms_applied = [], ms_wire = []\<rparr>) = cdata (cn_server (mr_conn r)) h
    \<and> applied_count (mr_accum r) \<le> MAX_MODE_CHANGES
    \<and> (\<not> accum_is_empty (mr_accum r) \<longrightarrow> (\<exists>u. apply_channel_modes h display modestr args c = upd_srv (propagate (mode_frame display r)) u))
    \<and> (\<forall>p t k. wf_link default_limits (mode_frame display r)
         \<and> link_source_authorized t p (local_uid (cn_server (mr_conn r)) (my_id (mr_conn r)))
         \<and> find_channel t (fold_key t display) = Some k \<and> ch_created_at (cdata t k) = channel_ts (cn_server (mr_conn r)) display
         \<and> settings (cdata t k) = settings (cdata s h)
         \<longrightarrow> settings (cdata (snd (handle_frame p (to_line (mode_frame display r)) t)) k) = settings (cdata (cn_server (mr_conn r)) h))"
proof -
  have ok: "net_ok s" "client_ok s" using assms(1,2) by (simp_all add: conn_ok_def)
  have "synced s (my_nick c) h (fold (run_char h display) cs q)" if "synced s (my_nick c) h q" for cs q
    using that synced_char [OF _ ok assms(4,5)] by (induction cs arbitrary: q) auto
  then have "synced s (my_nick c) h r" using synced_start [of c h args] assms(2,3) by (simp add: run_modes_def)
  then obtain steps where steps: "\<And>rest b. replay s (chars (ma_flags (mr_accum r))) (mr_wire r @ rest) b
      = (steps, (case ma_sign (mr_accum r) of None \<Rightarrow> b | Some g \<Rightarrow> g), rest)"
    "\<And>st. ms_data st = cdata s h \<Longrightarrow> ms_data (fold (apply_step (now_unix s) (my_nick c)) steps st) = cdata (cn_server (mr_conn r)) h"
    unfolding synced_def Let_def by blast
  have "mode_steps s (chars (ma_flags (mr_accum r))) (mr_wire r) True = steps" using steps(1) [of "[]" True] by (simp add: mode_steps_replay)
  moreover have "applied_count (mr_accum (fold (run_char h display) cs q)) \<le> MAX_MODE_CHANGES"
    if "applied_count (mr_accum q) \<le> MAX_MODE_CHANGES" for cs q
    using that run_char_bounded by (induction cs arbitrary: q) auto
  then have "applied_count (mr_accum r) \<le> MAX_MODE_CHANGES" by (simp add: assms(3) run_modes_def accum_default_def applied_count_def)
  ultimately have own: "ms_data (fold (apply_step (now_unix s) (my_nick c)) (mode_steps s (chars (ma_flags (mr_accum r))) (mr_wire r) True)
      \<lparr>ms_data = cdata s h, ms_accum = accum_default, ms_applied = [], ms_wire = []\<rparr>) = cdata (cn_server (mr_conn r)) h"
    "applied_count (mr_accum r) \<le> MAX_MODE_CHANGES" using steps(2) by simp_all
  have elsewhere: "settings (cdata (snd (handle_frame p (to_line (mode_frame display r)) t)) k) = settings (cdata (cn_server (mr_conn r)) h)"
    if wf: "wf_link default_limits (mode_frame display r)" and src: "link_source_authorized t p (local_uid (cn_server (mr_conn r)) (my_id (mr_conn r)))"
      and k: "find_channel t (fold_key t display) = Some k" "ch_created_at (cdata t k) = channel_ts (cn_server (mr_conn r)) display"
      and eq: "settings (cdata t k) = settings (cdata s h)" for p t k
  proof -
    have "snd (handle_frame p (to_line (mode_frame display r)) t) = snd (handle_link p (mode_frame display r) t)"
      by (simp add: frame_read [OF wf])
    also have "cdata (snd (handle_link p (mode_frame display r) t)) k
        = cdata (remote_mode display (local_uid (cn_server (mr_conn r)) (my_id (mr_conn r))) (channel_ts (cn_server (mr_conn r)) display)
            (ma_flags (mr_accum r)) (mr_wire r) t) k"
      using src by (simp add: mode_frame_def Let_def handle_link_def from_source_def cdata_def quiet_fields [OF quiet_forwarded(1)])
    also have "\<dots> = ms_data (fold (apply_step (now_unix t) (remote_source_nick t (local_uid (cn_server (mr_conn r)) (my_id (mr_conn r)))))
        (mode_steps t (chars (ma_flags (mr_accum r))) (mr_wire r) True) \<lparr>ms_data = cdata t k, ms_accum = accum_default, ms_applied = [], ms_wire = []\<rparr>)"
      using remote_mode_data k by simp
    also have "settings \<dots> = settings (ms_data (fold (apply_step (now_unix s) (my_nick c)) (mode_steps s (chars (ma_flags (mr_accum r))) (mr_wire r) True)
        \<lparr>ms_data = cdata s h, ms_accum = accum_default, ms_applied = [], ms_wire = []\<rparr>))"
      by (rule replay_elsewhere) (simp add: eq)
    finally show ?thesis unfolding own(1) .
  qed
  show ?thesis using own mode_frame_sent [OF assms(3)] elsewhere by blast
qed

theorem mode_change_replays_witness:
  "chan_key (ch_modes (ms_data (fold (apply_step (now_unix demo_member) ''Amy'')
     (mode_steps demo_member (chars (ma_flags (mr_accum (run_modes 0 ''#a'' ''+k'' [''x''] demo_joiner)))) (mr_wire (run_modes 0 ''#a'' ''+k'' [''x''] demo_joiner)) True)
     \<lparr>ms_data = cdata demo_member 0, ms_accum = accum_default, ms_applied = [], ms_wire = []\<rparr>))) = Some ''x''"
proof -
  have chars: "chars ''+k'' = [''+'', ''k'']" by code_simp
  have "my_nick demo_joiner = ''Amy''" "cn_server demo_joiner = demo_member" "by_id demo_member = [1]" "remote_users demo_member = []"
    by (simp_all add: demo_joiner_def my_nick_data my_data_def my_entry_def my_id_def demo_member_def session_new_def demo_server_def server_new_def)
  moreover have "chan_key (ch_modes (cdata (cn_server (mr_conn (run_modes 0 ''#a'' ''+k'' [''x''] demo_joiner))) 0)) = Some ''x''"
  proof -
    have plus: "run_char 0 n ''+'' r = r\<lparr>mr_adding := True\<rparr>" if "ma_applied (mr_accum r) = 0" for n r
      using that by (simp add: run_char_def applied_count_def MAX_MODE_CHANGES_def)
    have key: "run_char 0 n ''k'' r = mr_push ''k'' [k] [k] (mr_chan 0 (\<lambda>d. d\<lparr>ch_modes := (ch_modes d)\<lparr>chan_key := Some k\<rparr>\<rparr>) (r\<lparr>mr_rest := []\<rparr>))"
      if "ma_applied (mr_accum r) = 0" "mr_adding r" "mr_rest r = [k]" for n r k
      using that by (simp add: run_char_def applied_count_def MAX_MODE_CHANGES_def)
    show ?thesis by (simp add: run_modes_def chars plus key accum_default_def mr_chan_def cdata_upd_chan del: chars.simps)
  qed
  ultimately show ?thesis
    using mode_change_replays [OF demo_joiner_ok refl refl, of 0 "''#a''" "''+k''" "[''x'']"] by simp
qed

end
