(* ===== verification/Messaging.thy ===== *)
theory Messaging
  imports Moderation
begin

text \<open>
  Messages (\<open>ferrixd/src/command.rs\<close>): \<open>PRIVMSG\<close> and \<open>NOTICE\<close> to channels and users, \<open>TAGMSG\<close>, multiline batches,
  redaction, read markers and the replay of history.
\<close>

subsection \<open>PRIVMSG and NOTICE\<close>

text \<open>What a message carries besides its target and text.\<close>

record outgoing =
  og_notice :: bool
  og_tags :: "string option"
  og_batch :: "string option"
  og_msgid :: string
  og_now :: nat

definition unless_notice :: "outgoing \<Rightarrow> (conn \<Rightarrow> conn) \<Rightarrow> conn \<Rightarrow> conn" where
  "unless_notice og f c = (if og_notice og then c else f c)"

definition out_event :: "outgoing \<Rightarrow> bool \<Rightarrow> string \<Rightarrow> string \<Rightarrow> conn \<Rightarrow> event" where
  "out_event og batched target text c =
     (let e = message_event (line_body (line_trailing (line_param (my_line c (message_command (og_notice og))) target) text))
                (og_now og) (my_account c) (og_msgid og) (cd_bot (my_data c)) (og_tags og)
      in case og_batch og of Some r \<Rightarrow> if batched then with_batch Multiline r e else e | None \<Rightarrow> e)"

definition out_stored :: "outgoing \<Rightarrow> string \<Rightarrow> string \<Rightarrow> conn \<Rightarrow> stored_message" where
  "out_stored og target text c =
     \<lparr>sm_msgid = og_msgid og, sm_time_ms = og_now og, sm_source = entry_hostmask (my_entry c), sm_account = my_account c,
      sm_kind = message_kind_of (og_notice og), sm_target = target, sm_text = text\<rparr>"

text \<open>\<open>+n\<close> and \<open>+m\<close>: the refusal a channel answers a speaker with, if it does.\<close>

definition speak_refusal :: "channel_data \<Rightarrow> nat \<Rightarrow> string option" where
  "speak_refusal d i =
     (if no_external (ch_modes d) \<and> get (ch_members d) i = None then Some ''Cannot send to channel''
      else if moderated (ch_modes d) \<and> \<not> (case get (ch_members d) i of Some p \<Rightarrow> mp_op p \<or> mp_voice p | None \<Rightarrow> False)
      then Some ''Cannot send to channel (+m)''
      else None)"

definition echo :: "event \<Rightarrow> conn \<Rightarrow> conn" where
  "echo e c = (if has (my_caps c) EchoMessage then deliver_self e c else c)"

definition say_channel :: "outgoing \<Rightarrow> bool option \<Rightarrow> string \<Rightarrow> nat \<Rightarrow> string \<Rightarrow> string \<Rightarrow> conn \<Rightarrow> conn" where
  "say_channel og status folded h display text c =
     (let c = (if status = None then upd_srv (upd_history (hist_record folded (out_stored og display text c))) c else c);
          wire_target = status_sigil status @ display;
          e = out_event og True wire_target text c;
          c = upd_srv (case status of Some op_only \<Rightarrow> to_channel_status h e op_only (Some (my_id c)) | None \<Rightarrow> to_channel h e (Some (my_id c))) c;
          c = echo e c
      in upd_srv (relay_channel_message (entry_hostmask (my_entry c)) wire_target (og_notice og) (Some (og_msgid og)) (Some (og_now og)) (og_tags og) text None) c)"

definition message_channel :: "outgoing \<Rightarrow> bool option \<Rightarrow> string \<Rightarrow> string \<Rightarrow> conn \<Rightarrow> conn" where
  "message_channel og status target text c =
     (let folded = fold_c c target
      in case find_channel (cn_server c) folded of
           None \<Rightarrow> unless_notice og (numeric ERR_NOSUCHNICK [target] (Some ''No such nick/channel'')) c
         | Some h \<Rightarrow>
             (let d = cdata (cn_server c) h; display = ch_name d
              in case speak_refusal d (my_id c) of
                   Some why \<Rightarrow> unless_notice og (numeric ERR_CANNOTSENDTOCHAN [display] (Some why)) c
                 | None \<Rightarrow>
                     (let (oc, c) = consult (\<lambda>host. ph_on_channel_message host (my_nick c) display text) c
                      in if vetoed oc
                         then unless_notice og (fail_reply (message_command (og_notice og)) ''MSG_BLOCKED'' [display]
                                (veto_reason oc ''Message blocked by server policy'')) c
                         else say_channel og status folded h display (case Option.bind oc po_replacement of Some r \<Rightarrow> r | None \<Rightarrow> text) c)))"

definition say_remote :: "outgoing \<Rightarrow> remote_user \<Rightarrow> string \<Rightarrow> string \<Rightarrow> conn \<Rightarrow> conn" where
  "say_remote og u folded text c =
     (let c = upd_srv (upd_history (hist_record (pair_key (fold_c c (my_nick c)) folded) (out_stored og (ru_nick u) text c))) c;
          m = UserMessage (entry_hostmask (my_entry c)) (ru_nick u) (og_notice og) (Some (og_msgid og)) (Some (og_now og)) (og_tags og) text;
          c = upd_srv (\<lambda>s. snd (send_towards (ru_server_sid u) (to_line m) s)) c;
          c = echo (out_event og False (ru_nick u) text c) c
      in unless_notice og (\<lambda>c. case ru_away u of Some away \<Rightarrow> numeric RPL_AWAY [ru_nick u] (Some away) c | None \<Rightarrow> c) c)"

definition say_local :: "outgoing \<Rightarrow> nat \<Rightarrow> string \<Rightarrow> conn \<Rightarrow> conn" where
  "say_local og i text c =
     (let dest = entry_nick (entries (cn_server c) i);
          c = upd_srv (upd_history (hist_record (pair_key (fold_c c (my_nick c)) (fold_c c dest)) (out_stored og dest text c))) c;
          e = out_event og True dest text c;
          c = (if silences (entries (cn_server c) i) (entry_hostmask (my_entry c)) then c else upd_srv (to_client i e) c);
          c = echo e c
      in unless_notice og (\<lambda>c. case cd_away (ce_data (entries (cn_server c) i)) of
            Some away \<Rightarrow> numeric RPL_AWAY [dest] (Some away) c | None \<Rightarrow> c) c)"

definition message_user :: "outgoing \<Rightarrow> string \<Rightarrow> string \<Rightarrow> conn \<Rightarrow> conn" where
  "message_user og target text c =
     (let (oc, c) = consult (\<lambda>host. ph_on_private_message host (my_nick c) target text) c
      in if vetoed oc
         then unless_notice og (fail_reply (message_command (og_notice og)) ''MSG_BLOCKED'' [target]
                (veto_reason oc ''Message blocked by server policy'')) c
         else
           (let text = (case Option.bind oc po_replacement of Some r \<Rightarrow> r | None \<Rightarrow> text); folded = fold_c c target
            in case find_client (cn_server c) folded of
                 Some i \<Rightarrow> say_local og i text c
               | None \<Rightarrow>
                   (case find_remote_user (cn_server c) folded of
                      Some u \<Rightarrow> say_remote og u folded text c
                    | None \<Rightarrow> unless_notice og (numeric ERR_NOSUCHNICK [target] (Some ''No such nick/channel'')) c)))"

text \<open>A leading \<open>@\<close> or \<open>+\<close> in front of a channel name addresses the members with that status.\<close>

definition message_target :: "string \<Rightarrow> bool option \<times> string" where
  "message_target target =
     (case status_target target of
        (Some b, rest) \<Rightarrow> if is_valid_channel rest then (Some b, rest) else (None, target)
      | (None, _) \<Rightarrow> (None, target))"

definition cmd_message_inner :: "string list \<Rightarrow> bool \<Rightarrow> string option \<Rightarrow> string option \<Rightarrow> conn \<Rightarrow> conn" where
  "cmd_message_inner params as_notice client_tags batch_ref c =
     (case params of
        [] \<Rightarrow> if as_notice then c else numeric ERR_NORECIPIENT [] (Some ''No recipient given'') c
      | [_] \<Rightarrow> if as_notice then c else numeric ERR_NOTEXTTOSEND [] (Some ''No text to send'') c
      | target # text # _ \<Rightarrow>
          (let (msgid, s) = server_next_msgid (cn_server c); c = c\<lparr>cn_server := s\<rparr>;
               og = \<lparr>og_notice = as_notice, og_tags = client_tags, og_batch = batch_ref, og_msgid = msgid, og_now = now_millis s\<rparr>;
               (status, target) = message_target target
           in if is_valid_channel target then message_channel og status target text c else message_user og target text c))"

definition cmd_message :: "string list \<Rightarrow> bool \<Rightarrow> string option \<Rightarrow> conn \<Rightarrow> conn" where
  "cmd_message params as_notice client_tags c = cmd_message_inner params as_notice client_tags None c"

subsection \<open>Multiline batches\<close>

definition multiline_frame :: "string \<Rightarrow> string \<Rightarrow> bool \<Rightarrow> conn \<Rightarrow> conn" where
  "multiline_frame target reference opening c =
     (let l = my_line c ''BATCH'';
          l = (if opening then line_param (line_param (line_param l (''+'' @ reference)) ''draft/multiline'') target
               else line_param l (''-'' @ reference));
          e = event_new (line_body l);
          c = (if is_valid_channel target
               then (case find_channel (cn_server c) (fold_c c target) of
                       Some h \<Rightarrow> upd_srv (to_channel_capped h e Multiline (Some (my_id c))) c
                     | None \<Rightarrow> c)
               else (case find_client (cn_server c) (fold_c c target) of
                       Some i \<Rightarrow> if has (entry_caps (entries (cn_server c) i)) Multiline then upd_srv (to_client i e) c else c
                     | None \<Rightarrow> c))
      in if has (my_caps c) EchoMessage \<and> has (my_caps c) Multiline then deliver_self e c else c)"

definition flush_line :: "multiline_batch \<Rightarrow> string \<Rightarrow> string \<times> bool \<Rightarrow> conn \<Rightarrow> conn" where
  "flush_line b reference l c =
     (case l of (line, cat) \<Rightarrow>
        cmd_message_inner [mb_target b, line] (mb_is_notice b) (if cat then Some ''+draft/multiline-concat'' else None) (Some reference) c)"

definition flush_multiline :: "multiline_batch \<Rightarrow> conn \<Rightarrow> conn" where
  "flush_multiline b c =
     (if mb_failed b \<or> mb_lines b = [] then c
      else
        (let (reference, s) = server_next_msgid (cn_server c); c = c\<lparr>cn_server := s\<rparr>;
             c = multiline_frame (mb_target b) reference True c;
             c = fold (flush_line b reference) (mb_lines b) c
         in multiline_frame (mb_target b) reference False c))"

definition batch_start :: "string \<Rightarrow> string \<Rightarrow> multiline_batch" where
  "batch_start name target =
     \<lparr>mb_reference = name, mb_target = target, mb_is_notice = False, mb_lines = [], mb_bytes = 0, mb_failed = False\<rparr>"

definition cmd_batch :: "string list \<Rightarrow> conn \<Rightarrow> conn" where
  "cmd_batch params c =
     (case params of
        [] \<Rightarrow> c
      | reference # rest \<Rightarrow>
          (case strip_prefix ''+'' reference of
             Some name \<Rightarrow>
               (case rest of
                  kind # others \<Rightarrow>
                    if kind = ''draft/multiline''
                    then (case others of
                            [] \<Rightarrow> fail_reply ''BATCH'' ''MULTILINE_INVALID_TARGET'' [] ''Missing target'' c
                          | target # _ \<Rightarrow> upd_ses (\<lambda>s. s\<lparr>ss_multiline := Some (batch_start name target)\<rparr>) c)
                    else c
                | [] \<Rightarrow> c)
           | None \<Rightarrow>
               (case strip_prefix ''-'' reference of
                  Some name \<Rightarrow>
                    (case ss_multiline (cn_ses c) of
                       Some b \<Rightarrow>
                         if mb_reference b = name then flush_multiline b (upd_ses (\<lambda>s. s\<lparr>ss_multiline := None\<rparr>) c) else c
                     | None \<Rightarrow> c)
                | None \<Rightarrow> c)))"

subsection \<open>TAGMSG\<close>

definition client_tag :: "tag \<Rightarrow> string" where
  "client_tag t = tkey t @ (case tvalue t of Some v \<Rightarrow> ''='' @ escape_value v | None \<Rightarrow> [])"

definition client_tag_string :: "message \<Rightarrow> string option" where
  "client_tag_string msg =
     (let out = join '';'' (map client_tag (filter (\<lambda>t. take 1 (tkey t) = ''+'') (mtags msg)))
      in if out = [] then None else Some out)"

definition own_tagmsg :: "string \<Rightarrow> string \<Rightarrow> conn \<Rightarrow> event" where
  "own_tagmsg tags target c =
     with_bot (cd_bot (my_data c)) (with_account (my_account c) (with_time (now_time c)
       (with_client_tags tags (event_new ('':'' @ entry_hostmask (my_entry c) @ '' TAGMSG '' @ target)))))"

definition tag_echo :: "event \<Rightarrow> conn \<Rightarrow> conn" where
  "tag_echo e c = (if has (my_caps c) EchoMessage \<and> has (my_caps c) MessageTags then deliver_self e c else c)"

definition tagmsg_channel :: "string \<Rightarrow> string \<Rightarrow> conn \<Rightarrow> conn" where
  "tagmsg_channel tags target c =
     (case find_channel (cn_server c) (fold_c c target) of
        None \<Rightarrow> numeric ERR_NOSUCHNICK [target] (Some ''No such nick/channel'') c
      | Some h \<Rightarrow>
          (let d = cdata (cn_server c) h; display = ch_name d
           in if no_external (ch_modes d) \<and> get (ch_members d) (my_id c) = None
              then numeric ERR_CANNOTSENDTOCHAN [display] (Some ''Cannot send to channel'') c
              else
                (let e = own_tagmsg tags display c;
                     c = upd_srv (to_channel_capped h e MessageTags (Some (my_id c))) c;
                     c = tag_echo e c
                 in upd_srv (relay_tagmsg (entry_hostmask (my_entry c)) display tags None) c)))"

definition tagmsg_user :: "string \<Rightarrow> string \<Rightarrow> conn \<Rightarrow> conn" where
  "tagmsg_user tags target c =
     (let s = cn_server c; folded = fold_c c target
      in case find_client s folded of
           Some i \<Rightarrow>
             (let e = own_tagmsg tags (entry_nick (entries s i)) c;
                  c = (if has (entry_caps (entries s i)) MessageTags then upd_srv (to_client i e) c else c)
              in if i \<noteq> my_id c then tag_echo e c else c)
         | None \<Rightarrow>
             (case find_remote_user s folded of
                Some u \<Rightarrow> tag_echo (own_tagmsg tags (ru_nick u) c)
                            (upd_srv (send_tagmsg_towards (ru_server_sid u) (entry_hostmask (my_entry c)) (ru_nick u) tags) c)
              | None \<Rightarrow> numeric ERR_NOSUCHNICK [target] (Some ''No such nick/channel'') c))"

definition cmd_tagmsg :: "message \<Rightarrow> conn \<Rightarrow> conn" where
  "cmd_tagmsg msg c =
     (case mparams msg of
        [] \<Rightarrow> need_more_params ''TAGMSG'' c
      | target # _ \<Rightarrow>
          (case client_tag_string msg of
             None \<Rightarrow> c
           | Some tags \<Rightarrow> if is_valid_channel target then tagmsg_channel tags target c else tagmsg_user tags target c))"

subsection \<open>Replaying history\<close>

definition parse_selector :: "string \<Rightarrow> selector option" where
  "parse_selector token =
     (if token = ''*'' then Some Latest
      else case strip_prefix ''timestamp='' token of
             Some ts \<Rightarrow> map_option Timestamp (parse_server_time ts)
           | None \<Rightarrow> map_option MsgId (strip_prefix ''msgid='' token))"

definition stored_tags :: "stored_message \<Rightarrow> capset \<Rightarrow> string option \<Rightarrow> string list" where
  "stored_tags m caps batch_ref =
     (case batch_ref of Some r \<Rightarrow> [''batch='' @ r] | None \<Rightarrow> [])
     @ (if has caps ServerTime then [''time='' @ format_server_time (sm_time_ms m)] else [])
     @ (if has caps MessageTags then [''msgid='' @ sm_msgid m] else [])
     @ (case sm_account m of Some a \<Rightarrow> if has caps AccountTag then [''account='' @ a] else [] | None \<Rightarrow> [])"

definition stored_rest :: "stored_message \<Rightarrow> string" where
  "stored_rest m =
     (case sm_kind m of
        Join \<Rightarrow> [SP] @ sm_target m
      | Quit \<Rightarrow> '' :'' @ sm_text m
      | Nick \<Rightarrow> '' :'' @ sm_text m
      | Kick \<Rightarrow> [SP] @ sm_target m @ [SP] @ takeWhile (\<lambda>x. x \<noteq> SP) (sm_text m) @ '' :'' @ after_space (sm_text m)
      | Mode \<Rightarrow> [SP] @ sm_target m @ [SP] @ sm_text m
      | _ \<Rightarrow> [SP] @ sm_target m @ '' :'' @ sm_text m)"

definition render_stored :: "stored_message \<Rightarrow> capset \<Rightarrow> string option \<Rightarrow> string" where
  "render_stored m caps batch_ref =
     (let tags = stored_tags m caps batch_ref
      in (if tags = [] then [] else ''@'' @ join '';'' tags @ [SP])
         @ '':'' @ sm_source m @ [SP] @ kind_command (sm_kind m) @ stored_rest m @ [CR, LF])"

definition history_lines :: "string \<Rightarrow> string \<Rightarrow> stored_message list \<Rightarrow> conn \<Rightarrow> conn" where
  "history_lines target reference messages c =
     (let use_batch = has (my_caps c) Batch; l = line_command (line_server (server_name c)) ''BATCH'';
          c = (if use_batch then send_to_me (line_param (line_param (line_param l (''+'' @ reference)) ''chathistory'') target) c else c);
          c = fold (\<lambda>m c. send_bytes (render_stored m (my_caps c) (if use_batch then Some reference else None)) c) messages c
      in if use_batch then send_to_me (line_param l (''-'' @ reference)) c else c)"

definition send_history_batch :: "string \<Rightarrow> stored_message list \<Rightarrow> conn \<Rightarrow> conn" where
  "send_history_batch target messages c =
     (let (reference, s) = server_next_msgid (cn_server c) in history_lines target reference messages (c\<lparr>cn_server := s\<rparr>))"

definition history_limit :: "string list \<Rightarrow> nat \<Rightarrow> nat" where
  "history_limit args i =
     (let n = (if i < length args then case parse_u64 (args ! i) of Some n \<Rightarrow> n | None \<Rightarrow> 50 else 50)
      in max 1 (min 100 n))"

definition selector_at :: "string list \<Rightarrow> nat \<Rightarrow> selector option" where
  "selector_at args i = (if i < length args then parse_selector (args ! i) else None)"

text \<open>The conversation a target of \<open>CHATHISTORY\<close> or \<open>REDACT\<close> stands for.\<close>

definition history_key :: "string \<Rightarrow> conn \<Rightarrow> string" where
  "history_key target c = (if is_valid_channel target then fold_c c target else pair_key (fold_c c (my_nick c)) (fold_c c target))"

definition may_read :: "string \<Rightarrow> conn \<Rightarrow> bool" where
  "may_read target c \<longleftrightarrow>
     is_valid_channel target \<longrightarrow>
       (case find_channel (cn_server c) (fold_c c target) of Some h \<Rightarrow> has_member (cdata (cn_server c) h) (my_id c) | None \<Rightarrow> False)"

text \<open>The query of a subcommand: an error to report, or the messages.\<close>

definition history_query :: "string \<Rightarrow> string \<Rightarrow> string list \<Rightarrow> conn \<Rightarrow> string + stored_message list option" where
  "history_query sub key args c =
     (let h = history_of (cn_server c); events = has (my_caps c) EventPlayback
      in if sub = ''LATEST''
         then Inr (latest h key (case selector_at args 0 of Some x \<Rightarrow> x | None \<Rightarrow> Latest) (history_limit args 1) events)
         else if sub = ''BEFORE'' \<or> sub = ''AFTER'' \<or> sub = ''AROUND''
         then (case selector_at args 0 of
                 None \<Rightarrow> Inl ''Invalid selector''
               | Some x \<Rightarrow> Inr (if sub = ''BEFORE'' then before h key x (history_limit args 1) events
                                else if sub = ''AFTER'' then after h key x (history_limit args 1) events
                                else around h key x (history_limit args 1) events))
         else if sub = ''BETWEEN''
         then (case (selector_at args 0, selector_at args 1) of
                 (Some a, Some b) \<Rightarrow> Inr (between h key a b (history_limit args 2) events)
               | _ \<Rightarrow> Inl ''Invalid selectors'')
         else Inl ''Unknown subcommand'')"

definition targets_line :: "nat \<Rightarrow> string \<Rightarrow> conn \<Rightarrow> conn" where
  "targets_line time_ms target c =
     send_to_me (line_param (line_param (line_param (line_command (line_server (server_name c)) ''CHATHISTORY'') ''TARGETS'') target)
       (format_server_time time_ms)) c"

text \<open>The name a conversation is reported under, to those who take part in it.\<close>

definition conversation_name :: "string \<Rightarrow> conn \<Rightarrow> string option" where
  "conversation_name key c =
     (let s = cn_server c; me = fold_c c (my_nick c)
      in case pair_parties key of
           Some (a, b) \<Rightarrow>
             if a = me \<or> b = me
             then (let partner = (if a = me then b else a)
                   in Some (case find_client s partner of
                              Some i \<Rightarrow> entry_nick (entries s i)
                            | None \<Rightarrow> (case find_remote_user s partner of Some u \<Rightarrow> ru_nick u | None \<Rightarrow> partner)))
             else None
         | None \<Rightarrow>
             if key \<in> set (cd_channels (my_data c))
             then Some (case find_channel s key of Some h \<Rightarrow> ch_name (cdata s h) | None \<Rightarrow> key)
             else None)"

definition chathistory_targets :: "string list \<Rightarrow> conn \<Rightarrow> conn" where
  "chathistory_targets args c =
     (let lo = (case selector_at args 0 of Some x \<Rightarrow> x | None \<Rightarrow> Timestamp 0);
          hi = (case selector_at args 1 of Some x \<Rightarrow> x | None \<Rightarrow> Latest)
      in fold (\<lambda>(key, time_ms) c. case conversation_name key c of Some target \<Rightarrow> targets_line time_ms target c | None \<Rightarrow> c)
           (targets (history_of (cn_server c)) lo hi (history_limit args 2)) c)"

definition cmd_chathistory :: "string list \<Rightarrow> conn \<Rightarrow> conn" where
  "cmd_chathistory params c =
     (case params of
        [] \<Rightarrow> fail_reply ''CHATHISTORY'' ''NEED_MORE_PARAMS'' [] ''Missing subcommand'' c
      | sub # rest \<Rightarrow>
          (let sub = map to_ascii_uppercase sub
           in if sub = ''TARGETS'' then chathistory_targets rest c
              else
                (case rest of
                   [] \<Rightarrow> fail_reply ''CHATHISTORY'' ''NEED_MORE_PARAMS'' [sub] ''Missing target'' c
                 | target # args \<Rightarrow>
                     if \<not> may_read target c
                     then fail_reply ''CHATHISTORY'' ''INVALID_TARGET'' [sub, target] ''You are not in that channel'' c
                     else
                       (case history_query sub (history_key target c) args c of
                          Inl why \<Rightarrow> fail_reply ''CHATHISTORY'' ''INVALID_PARAMS'' [sub] why c
                        | Inr None \<Rightarrow> c
                        | Inr (Some messages) \<Rightarrow> send_history_batch target messages c))))"

subsection \<open>REDACT and MARKREAD\<close>

definition author_of :: "conn \<Rightarrow> stored_message \<Rightarrow> string" where
  "author_of c m = fold_c c (first_part (CHR ''!'') (sm_source m))"

definition redact_line :: "string \<Rightarrow> string \<Rightarrow> string \<Rightarrow> conn \<Rightarrow> event" where
  "redact_line target msgid reason c =
     (let l = line_param (line_param (my_line c ''REDACT'') target) msgid
      in cn_event c (line_body (if reason = [] then l else line_trailing l reason)))"

definition redact_announce :: "nat \<Rightarrow> string \<Rightarrow> string \<Rightarrow> string \<Rightarrow> conn \<Rightarrow> conn" where
  "redact_announce h display msgid reason c =
     (let e = redact_line display msgid reason c;
          c = upd_srv (to_channel_capped h e MessageRedaction (Some (my_id c))) c;
          c = (if has (my_caps c) MessageRedaction then deliver_self e c else c)
      in upd_srv (propagate_redact (my_id c) display msgid reason) c)"

definition redact_channel :: "string \<Rightarrow> string \<Rightarrow> string \<Rightarrow> conn \<Rightarrow> conn" where
  "redact_channel target msgid reason c =
     (let folded = fold_c c target; refuse = (\<lambda>code shown. fail_reply ''REDACT'' code [shown, msgid])
      in case find_channel (cn_server c) folded of
           None \<Rightarrow> refuse ''INVALID_TARGET'' target ''No such channel'' c
         | Some h \<Rightarrow>
             (let d = cdata (cn_server c) h; display = ch_name d
              in case get (ch_members d) (my_id c) of
                   None \<Rightarrow> refuse ''INVALID_TARGET'' target ''You are not in that channel'' c
                 | Some p \<Rightarrow>
                     (case hist_find (history_of (cn_server c)) folded msgid of
                        None \<Rightarrow> refuse ''UNKNOWN_MSGID'' display ''Unknown message'' c
                      | Some m \<Rightarrow>
                          if \<not> mp_op p \<and> author_of c m \<noteq> fold_c c (my_nick c)
                          then refuse ''REDACT_FORBIDDEN'' display ''You may only redact your own messages'' c
                          else
                            redact_announce h display msgid reason (upd_srv (upd_history (\<lambda>h. snd (redact folded msgid h))) c))))"

definition redact_user :: "string \<Rightarrow> string \<Rightarrow> string \<Rightarrow> conn \<Rightarrow> conn" where
  "redact_user target msgid reason c =
     (let pair = pair_key (fold_c c (my_nick c)) (fold_c c target); refuse = (\<lambda>code. fail_reply ''REDACT'' code [target, msgid])
      in case hist_find (history_of (cn_server c)) pair msgid of
           None \<Rightarrow> refuse ''UNKNOWN_MSGID'' ''Unknown message'' c
         | Some m \<Rightarrow>
             if author_of c m \<noteq> fold_c c (my_nick c)
             then refuse ''REDACT_FORBIDDEN'' ''You may only redact your own messages'' c
             else
               (let c = upd_srv (upd_history (\<lambda>h. snd (redact pair msgid h))) c;
                    e = redact_line target msgid reason c;
                    c = (case find_client (cn_server c) (fold_c c target) of
                           Some i \<Rightarrow> if i \<noteq> my_id c \<and> has (entry_caps (entries (cn_server c) i)) MessageRedaction then upd_srv (to_client i e) c else c
                         | None \<Rightarrow> c);
                    c = (if has (my_caps c) MessageRedaction then deliver_self e c else c)
                in upd_srv (propagate_redact (my_id c) target msgid reason) c))"

definition cmd_redact :: "string list \<Rightarrow> conn \<Rightarrow> conn" where
  "cmd_redact params c =
     (case params of
        target # msgid # rest \<Rightarrow>
          (let reason = (case rest of r # _ \<Rightarrow> r | [] \<Rightarrow> [])
           in if is_valid_channel target then redact_channel target msgid reason c else redact_user target msgid reason c)
      | _ \<Rightarrow> fail_reply ''REDACT'' ''NEED_MORE_PARAMS'' [''*''] ''Not enough parameters'' c)"

definition markread_line :: "string \<Rightarrow> nat option \<Rightarrow> conn \<Rightarrow> line" where
  "markread_line target stored c =
     line_param (line_param (line_command (line_server (server_name c)) ''MARKREAD'') target)
       (case stored of Some ms \<Rightarrow> ''timestamp='' @ format_server_time ms | None \<Rightarrow> ''*'')"

definition markread_sync :: "string \<Rightarrow> string \<Rightarrow> nat \<Rightarrow> server \<Rightarrow> server" where
  "markread_sync owner bytes me s =
     fold (\<lambda>(_, i) s. if i = me \<or> \<not> has (entry_caps (entries s i)) ReadMarker \<or> read_marker_owner s i \<noteq> owner then s else send_client bytes i s)
       (clients s) s"

definition cmd_markread :: "string list \<Rightarrow> conn \<Rightarrow> conn" where
  "cmd_markread params c =
     (case params of
        [] \<Rightarrow> fail_reply ''MARKREAD'' ''NEED_MORE_PARAMS'' [''*''] ''Missing parameters'' c
      | target # rest \<Rightarrow>
          (let folded = fold_c c target; owner = read_marker_owner (cn_server c) (my_id c)
           in case rest of
                [] \<Rightarrow> send_to_me (markread_line target (read_marker_get (cn_server c) owner folded) c) c
              | sel # _ \<Rightarrow>
                  (case Option.bind (strip_prefix ''timestamp='' sel) parse_server_time of
                     None \<Rightarrow> fail_reply ''MARKREAD'' ''INVALID_PARAMS'' [target, sel] ''Invalid timestamp'' c
                   | Some ts \<Rightarrow>
                       (let (stored, s) = read_marker_advance owner folded ts (cn_server c); c = c\<lparr>cn_server := s\<rparr>;
                            l = markread_line target (Some stored) c;
                            c = upd_srv (markread_sync owner (line_build l) (my_id c)) c
                        in send_to_me l c))))"

subsection \<open>What the handlers keep\<close>

lemma safe_next_msgid: "server_next_msgid s = (m, t) \<Longrightarrow> safe s t"
  using safe_quiet [OF quiet_next_msgid, of s] by simp

lemma safe_status_delivery [simp]:
  "safe s ((case status of Some op_only \<Rightarrow> to_channel_status h e op_only x | None \<Rightarrow> to_channel h e x) s)"
  by (simp split: option.split)

lemma kept_echo [kepts]: "kept c d \<Longrightarrow> kept c (echo e d)" "kept c d \<Longrightarrow> kept c (tag_echo e d)"
  unfolding echo_def tag_echo_def by (intro kepts; assumption)+

lemma kept_unless_notice [kepts]: "kept c d \<Longrightarrow> kept c (f d) \<Longrightarrow> kept c (unless_notice og f d)"
  by (simp add: unless_notice_def)

lemma kept_say_channel [kepts]: "kept c d \<Longrightarrow> kept c (say_channel og st f h n t d)"
  unfolding say_channel_def by (intro kepts) simp_all

lemma kept_message_channel [kepts]: "kept c d \<Longrightarrow> kept c (message_channel og st n t d)"
  unfolding message_channel_def by (intro kepts) assumption+

lemma kept_say_local [kepts]: "kept c d \<Longrightarrow> kept c (say_local og i t d)"
  unfolding say_local_def by (intro kepts) simp_all

lemma kept_say_remote [kepts]: "kept c d \<Longrightarrow> kept c (say_remote og u f t d)"
  unfolding say_remote_def Let_def by (intro kepts) simp_all

lemma kept_message_user [kepts]: "kept c d \<Longrightarrow> kept c (message_user og n t d)"
  unfolding message_user_def by (intro kepts) assumption+

lemma kept_cmd_message [kepts]:
  "kept c d \<Longrightarrow> kept c (cmd_message_inner ps b ts r d)" "kept c d \<Longrightarrow> kept c (cmd_message ps b ts d)"
proof -
  show "kept c (cmd_message_inner ps b ts r d)" if "kept c d" for r
    unfolding cmd_message_inner_def Let_def split_beta using that safe_next_msgid [OF prod.collapse [symmetric]] by (intro kepts) simp_all
  then show "kept c d \<Longrightarrow> kept c (cmd_message ps b ts d)" by (simp add: cmd_message_def)
qed

lemma kept_multiline_frame [kepts]: "kept c d \<Longrightarrow> kept c (multiline_frame t r b d)"
  unfolding multiline_frame_def by (intro kepts) simp_all

lemma kept_flush_line [kepts]: "kept c d \<Longrightarrow> kept c (flush_line b r l d)"
  unfolding flush_line_def by (intro kepts) assumption+

lemma kept_flush_multiline [kepts]: "kept c d \<Longrightarrow> kept c (flush_multiline b d)"
  unfolding flush_multiline_def Let_def split_beta using safe_next_msgid [OF prod.collapse [symmetric]] by (intro kepts) simp_all

lemma kept_cmd_batch [kepts]: "kept c d \<Longrightarrow> kept c (cmd_batch ps d)"
  unfolding cmd_batch_def by (intro kepts) simp_all

lemma kept_cmd_tagmsg [kepts]: "kept c d \<Longrightarrow> kept c (cmd_tagmsg msg d)"
  unfolding cmd_tagmsg_def tagmsg_channel_def tagmsg_user_def send_tagmsg_towards_def by (intro kepts) simp_all

lemma kept_history_lines [kepts]: "kept c d \<Longrightarrow> kept c (history_lines t r ms d)"
  unfolding history_lines_def Let_def by (intro kepts) assumption+

lemma kept_send_history_batch [kepts]: "kept c d \<Longrightarrow> kept c (send_history_batch t ms d)"
  unfolding send_history_batch_def Let_def split_beta using safe_next_msgid [OF prod.collapse [symmetric]] by (intro kepts) simp_all

lemma kept_chathistory_targets [kepts]: "kept c d \<Longrightarrow> kept c (chathistory_targets args d)"
  unfolding chathistory_targets_def targets_line_def Let_def split_beta by (intro kepts) assumption+

lemma kept_cmd_chathistory [kepts]: "kept c d \<Longrightarrow> kept c (cmd_chathistory ps d)"
  unfolding cmd_chathistory_def by (intro kepts) assumption+

lemma kept_redact_announce [kepts]: "kept c d \<Longrightarrow> kept c (redact_announce h n x r d)"
  unfolding redact_announce_def by (intro kepts) simp_all

lemma kept_cmd_redact [kepts]: "kept c d \<Longrightarrow> kept c (cmd_redact ps d)"
  unfolding cmd_redact_def redact_channel_def redact_user_def Let_def by (intro kepts) simp_all

lemma safe_read_marker: "safe s (snd (read_marker_advance w f ts s))"
  by (rule safe_cong) (simp_all add: read_marker_advance_def Let_def)

lemma safe_markread_sync: "safe s (markread_sync w b me s)"
  unfolding markread_sync_def by (rule safe.frame_fold) (auto split: prod.split)

lemma kept_cmd_markread [kepts]: "kept c d \<Longrightarrow> kept c (cmd_markread ps d)"
  unfolding cmd_markread_def Let_def split_beta by (intro kepts) (simp_all add: safe_read_marker safe_markread_sync)

subsection \<open>A message to a channel\<close>

text \<open>Replies reach the client itself only, and links carry no mail of local clients.\<close>

lemma emit_others:
  "i \<noteq> my_id c \<Longrightarrow> entries (cn_server (emit b c)) i = entries (cn_server c) i" "history_of (cn_server (emit b c)) = history_of (cn_server c)"
  by (auto simp: emit_def send_client_def upd_client_def my_id_def split: option.split)

lemma reply_others:
  "i \<noteq> my_id c \<Longrightarrow> entries (cn_server (numeric k ps t c)) i = entries (cn_server c) i"
  "history_of (cn_server (numeric k ps t c)) = history_of (cn_server c)"
  "i \<noteq> my_id c \<Longrightarrow> entries (cn_server (echo e c)) i = entries (cn_server c) i"
  "history_of (cn_server (echo e c)) = history_of (cn_server c)"
  "history_of (cn_server (fail_reply x y z w c)) = history_of (cn_server c)"
  by (simp_all add: fail_reply_def standard_reply_def notice_def numeric_def Let_def send_to_me_def echo_def deliver_self_def emit_others)

lemma relay_others:
  "entries (relay_channel_message a b n m t g x r s) = entries s" "history_of (relay_channel_message a b n m t g x r s) = history_of s"
proof -
  have "entries (send_to_peers ps bs s) = entries s \<and> history_of (send_to_peers ps bs s) = history_of s" for ps bs s
    unfolding send_to_peers_def by (induction ps arbitrary: s) (auto simp: send_to_link_def split: option.split)
  then show "entries (relay_channel_message a b n m t g x r s) = entries s" "history_of (relay_channel_message a b n m t g x r s) = history_of s"
    by (auto simp: relay_channel_message_def split: option.split)
qed

lemma to_channel_filtered_history: "history_of (to_channel_filtered h e x r st s) = history_of s"
  using arg_cong [OF deliver_each_same [of s e x r st "ch_members (cdata s h)", unfolded same_but_entries_def], of history_of]
  by (simp add: to_channel_filtered_each)

lemma to_channel_entries:
  assumes "table_ok (ch_members (cdata s h))"
  shows "entries (to_channel h e (Some j) s) i =
      (if i \<noteq> j \<and> has_member (cdata s h) i then entry_send (render_for e (entry_caps (entries s i))) (entries s i) else entries s i)"
    "history_of (to_channel h e (Some j) s) = history_of s"
proof -
  show "entries (to_channel h e (Some j) s) i =
      (if i \<noteq> j \<and> has_member (cdata s h) i then entry_send (render_for e (entry_caps (entries s i))) (entries s i) else entries s i)"
    using deliver_each_entries [of "ch_members (cdata s h)" e "Some j" None None s i] assms
    by (cases "get (ch_members (cdata s h)) i") (simp_all add: to_channel_def to_channel_filtered_each table_ok_def wants_def has_member_def)
  show "history_of (to_channel h e (Some j) s) = history_of s"
    by (simp add: to_channel_def to_channel_filtered_history)
qed

lemma valid_channel_target: "is_valid_channel name \<Longrightarrow> message_target name = (None, name)"
proof -
  assume "is_valid_channel name"
  then obtain cs where "chars name = ''#'' # cs" by (auto simp: is_valid_channel_def split: list.splits if_splits)
  then have "name = CHR ''#'' # concat cs" using concat_chars [of name] by simp
  then show ?thesis by (simp add: message_target_def status_target_def)
qed

lemma next_msgid_fields:
  "server_next_msgid s = (m, t) \<Longrightarrow> t = upd_history (\<lambda>h. snd (next_msgid h)) s \<and> m = fst (next_msgid (history_of s))"
  by (auto simp: server_next_msgid_def upd_history_def split: prod.splits)

lemma send_to_peers_links:
  "distinct ps \<Longrightarrow> get (links (send_to_peers ps b s)) p = map_option (\<lambda>l. if p \<in> set ps then link_send b l else l) (get (links s) p)"
proof (induction ps arbitrary: s)
  case Nil
  show ?case by (simp add: send_to_peers_def option.map_ident)
next
  case (Cons q ps)
  have "send_to_peers (q # ps) b s = send_to_peers ps b (snd (send_to_link q b s))" by (simp add: send_to_peers_def)
  then show ?case using Cons by (auto simp: send_to_link_def tbl split: option.split)
qed

text \<open>The links on the way to a remote member of a channel.\<close>

definition leads_to_member :: "server \<Rightarrow> nat \<Rightarrow> string \<Rightarrow> bool" where
  "leads_to_member s h p \<longleftrightarrow> list_ex (\<lambda>(uid, rm). route_for s (rm_server_sid rm) = Some p) (ch_remote_members (cdata s h))"

lemma member_peers_set: "p \<in> set (member_peers s h) \<longleftrightarrow> leads_to_member s h p" "distinct (member_peers s h)"
  by (auto simp: member_peers_def leads_to_member_def list_ex_iff map_filter_def) force+

lemma relay_links:
  assumes "find_channel s (fold_key s (trim_sigils nm)) = Some h"
  shows "get (links (relay_channel_message src nm n m t g x None s)) p
    = map_option (\<lambda>l. if leads_to_member s h p then link_send (to_line (ChanMessage src nm n m t g x)) l else l) (get (links s) p)"
proof (cases "links s = [] \<or> ch_remote_members (cdata s h) = []")
  case True
  then show ?thesis using assms
    by (auto simp: relay_channel_message_def leads_to_member_def option.map_ident)
next
  case False
  have "except_origin None ps = ps" for ps by (simp add: except_origin_def)
  then show ?thesis
    using False assms send_to_peers_links [OF member_peers_set(2)]
    by (simp add: relay_channel_message_def member_peers_set(1) del: to_line.simps)
qed

lemma reply_links:
  "links (cn_server (numeric k ps t c)) = links (cn_server c)" "links (cn_server (echo e c)) = links (cn_server c)"
  "links (to_channel h e x s) = links s"
proof -
  have emit: "links (cn_server (emit b d)) = links (cn_server d)" for b d
    by (simp add: emit_def send_client_def upd_client_def split: option.split)
  show "links (cn_server (numeric k ps t c)) = links (cn_server c)" "links (cn_server (echo e c)) = links (cn_server c)"
    by (simp_all add: numeric_def Let_def send_to_me_def echo_def deliver_self_def emit)
  show "links (to_channel h e x s) = links s"
    using arg_cong [OF deliver_each_same [of s e x None None "ch_members (cdata s h)", unfolded same_but_entries_def], of links]
    by (simp add: to_channel_def to_channel_filtered_each)
qed

lemma valid_trim: "is_valid_channel name \<Longrightarrow> trim_sigils name = name"
proof -
  assume "is_valid_channel name"
  then obtain cs where "chars name = ''#'' # cs" by (auto simp: is_valid_channel_def split: list.splits if_splits)
  then have "name = CHR ''#'' # concat cs" using concat_chars [of name] by simp
  then show ?thesis by (simp add: trim_sigils_def)
qed

text \<open>C13: a message to a channel, from the command to the mailboxes and the links. With no plugins, a \<open>PRIVMSG\<close> of a client whom
  \<open>+n\<close> and \<open>+m\<close> let speak is put once into the mailbox of every other local member, rendered for the member's own
  capabilities, and into no other mailbox of another client; it is recorded once in the history of the channel; and one line
  with the same text, id and time is queued on every link that leads to a remote member, and on no other link. (Whether the
  peer can read that line is another matter: see \<open>relayed_message_over_budget\<close> in \<open>S2S\<close>.) A message the channel refuses
  reaches no other client and no link and is not recorded.\<close>

theorem channel_message_exact:
  assumes "chan_ok (cn_server c)" "is_valid_channel display"
    and "plugins (cn_server c) = None" "is_valid_channel name" "find_channel (cn_server c) (fold_c c name) = Some h"
    "table_ok (ch_members (cdata (cn_server c) h))" "i \<noteq> my_id c"
    "s = cn_server c" "t = cn_server (cmd_message [name, text] False tags c)" "display = ch_name (cdata s h)"
    "og = \<lparr>og_notice = False, og_tags = tags, og_batch = None, og_msgid = fst (next_msgid (history_of s)), og_now = now_millis s\<rparr>"
  shows "if speak_refusal (cdata s h) (my_id c) = None
    then (entries t i = (if has_member (cdata s h) i
             then entry_send (render_for (out_event og True display text c) (entry_caps (entries s i))) (entries s i) else entries s i))
         \<and> history_of t = hist_record (fold_c c name) (out_stored og display text c) (snd (next_msgid (history_of s)))
         \<and> get (links t) p = map_option (\<lambda>l. if leads_to_member s h p
              then link_send (to_line (ChanMessage (entry_hostmask (my_entry c)) display False (Some (og_msgid og)) (Some (og_now og)) tags text)) l
              else l) (get (links s) p)
    else entries t i = entries s i \<and> history_of t = snd (next_msgid (history_of s)) \<and> get (links t) p = get (links s) p"
proof -
  obtain m u where mu: "server_next_msgid s = (m, u)" by fastforce
  note nm = next_msgid_fields [OF mu]
  define e where "e = c\<lparr>cn_server := u\<rparr>"
  have u: "entries u = entries s" "history_of u = snd (next_msgid (history_of s))" "plugins u = None" "cdata u h = cdata s h"
    "fold_c e name = fold_c c name" "find_channel u (fold_c c name) = Some h" "my_id e = my_id c" "my_entry e = my_entry c" "my_data e = my_data c"
    "my_account e = my_account c" "now_millis u = now_millis s"
    using nm assms(3,5,8) by (simp_all add: e_def upd_history_def cdata_def fold_c_def fold_key_def find_channel_def my_id_def my_entry_def
      my_data_def my_account_def now_millis_def)
  have ul: "links u = links s" "remote_routes u = remote_routes s" "info u = info s" using nm by (simp_all add: upd_history_def)
  have out: "out_event og True display text f = out_event og True display text c" "out_stored og display text f = out_stored og display text c"
    if "my_entry f = my_entry c" "my_data f = my_data c" "my_account f = my_account c" for f
    using that by (simp_all add: out_event_def out_stored_def my_line_def my_user_def my_host_def my_nick_def)
  have og: "og_notice og = False" "og_tags og = tags" using assms(11) by simp_all
  have t: "t = cn_server (message_channel og None name text e)"
    using mu u(11) nm assms(4,8,9,11) by (simp add: cmd_message_def cmd_message_inner_def e_def valid_channel_target)
  show ?thesis
  proof (cases "speak_refusal (cdata s h) (my_id c)")
    case (Some why)
    then have "t = cn_server (numeric ERR_CANNOTSENDTOCHAN [display] (Some why) e)"
      using u assms(10,11) unfolding t by (simp add: message_channel_def Let_def unless_notice_def e_def)
    then show ?thesis using Some u ul assms(7) reply_others(1,2) [where c = e] by (simp add: e_def reply_links)
  next
    case None
    define f where "f = upd_srv (upd_history (hist_record (fold_c c name) (out_stored og display text c))) e"
    have f: "my_entry f = my_entry c" "my_data f = my_data c" "my_account f = my_account c" "my_id f = my_id c" "cdata (cn_server f) h = cdata s h"
      "entries (cn_server f) = entries s" "history_of (cn_server f) = hist_record (fold_c c name) (out_stored og display text c) (snd (next_msgid (history_of s)))"
      using u by (simp_all add: f_def e_def upd_history_def my_entry_def my_data_def my_account_def my_id_def cdata_def)
    define g where "g = upd_srv (to_channel h (out_event og True display text c) (Some (my_id c))) f"
    have g: "my_id g = my_id c" by (simp add: g_def f(4))
    have "message_channel og None name text e = say_channel og None (fold_c c name) h display text e"
      using None u assms(10) by (simp add: message_channel_def Let_def e_def no_plugins)
    also have "cn_server \<dots> = relay_channel_message (entry_hostmask (my_entry (echo (out_event og True display text c) g))) display False
        (Some (og_msgid og)) (Some (og_now og)) tags text None (cn_server (echo (out_event og True display text c) g))"
      using out [OF u(8-10)] out [OF f(1-3)] f(4) u(7) og
      by (simp add: say_channel_def Let_def f_def [symmetric] status_sigil_def g_def)
    finally have relayed: "t = relay_channel_message (entry_hostmask (my_entry (echo (out_event og True display text c) g))) display False
        (Some (og_msgid og)) (Some (og_now og)) tags text None (cn_server (echo (out_event og True display text c) g))" by (simp add: t)
    then have "entries t i = entries (cn_server g) i" "history_of t = history_of (cn_server g)"
      using g assms(7) reply_others(3,4) by (simp_all add: relay_others)
    moreover have "get (links t) p = map_option (\<lambda>l. if leads_to_member s h p
        then link_send (to_line (ChanMessage (entry_hostmask (my_entry c)) display False (Some (og_msgid og)) (Some (og_now og)) tags text)) l
        else l) (get (links s) p)"
    proof -
      define k where "k = echo (out_event og True display text c) g"
      have "hush (upd_srv (to_channel h (out_event og True display text c) (Some (my_id c))) f) k"
        by (simp add: k_def g_def echo_def hush.frame_refl hushed)
      moreover have "hush f (upd_srv (to_channel h (out_event og True display text c) (Some (my_id c))) f)"
        by (intro hushed hush.frame_refl) simp
      ultimately have fk: "hush f k" by (rule hush.frame_trans [rotated])
      note q = hush_fields [OF fk] and qf = quiet_fields [OF hush_fields(1) [OF fk]]
      have fs: "links (cn_server f) = links s" "remote_routes (cn_server f) = remote_routes s" "info (cn_server f) = info s"
        "channels (cn_server f) = channels s"
        using nm by (simp_all add: f_def e_def ul upd_history_def)
      have "links (cn_server k) = links s" by (simp add: k_def g_def reply_links fs)
      moreover have "remote_routes (cn_server k) = remote_routes s" "info (cn_server k) = info s" by (simp_all only: qf fs)
      moreover have "find_channel (cn_server k) = find_channel s" by (simp only: find_channel_def [abs_def] qf fs)
      moreover have "cdata (cn_server k) h = cdata (cn_server f) h" by (simp only: cdata_def qf)
      ultimately have kf: "links (cn_server k) = links s" "remote_routes (cn_server k) = remote_routes s" "info (cn_server k) = info s"
        "find_channel (cn_server k) = find_channel s" "cdata (cn_server k) h = cdata s h" using f(5) by simp_all
      have "ce_data (my_entry k) = ce_data (my_entry c)" using q(4) f(2) by (simp add: my_data_def)
      then have mask: "entry_hostmask (my_entry k) = entry_hostmask (my_entry c)" by (simp add: entry_hostmask_def)
      have "fold_key s display = fold_c c name" using assms(1,5,8,10) chan_okD [of s "fold_c c name" h] by (simp add: find_channel_def)
      moreover have "trim_sigils display = display" using assms(2) valid_trim by simp
      ultimately have "find_channel (cn_server k) (fold_key (cn_server k) (trim_sigils display)) = Some h"
        using assms(5,8) by (simp add: kf fold_key_def)
      note relay = relay_links [OF this]
      have "route_for (cn_server k) = route_for s" by (simp only: route_for_def [abs_def] kf)
      then have "leads_to_member (cn_server k) h p = leads_to_member s h p" by (simp only: leads_to_member_def kf)
      then show ?thesis unfolding relayed k_def [symmetric] mask relay kf by (simp only:)
    qed
    moreover have "table_ok (ch_members (cdata (cn_server f) h))" using assms(6,8) f(5) by simp
    ultimately show ?thesis using None f assms(7) to_channel_entries [of "cn_server f" h] by (simp add: g_def)
  qed
qed

definition demo_chat :: conn where
  "demo_chat = upd_srv (upd_chan 0 (\<lambda>d. d\<lparr>ch_members := [(1, prefix_default), (2, prefix_default)]\<rparr>)) demo_joiner"

lemma demo_chat_fields:
  "my_id demo_chat = 1" "plugins (cn_server demo_chat) = None" "find_channel (cn_server demo_chat) ''#a'' = Some 0"
  "fold_c demo_chat ''#a'' = ''#a''" "ch_members (cdata (cn_server demo_chat) 0) = [(1, prefix_default), (2, prefix_default)]"
  "moderated (ch_modes (cdata (cn_server demo_chat) 0)) = False" "ce_mailbox (entries (cn_server demo_chat) i) = []"
  "ce_sendq (entries (cn_server demo_chat) i) = 10" "ce_closed (entries (cn_server demo_chat) i) = False"
  "cd_channels (my_data demo_chat) = [''#a'']" "my_nick demo_chat = ''Amy''" "ch_name (cdata (cn_server demo_chat) 0) = ''#a''"
  using demo_member_keys(2)
  by (simp_all add: demo_chat_def demo_joiner_def my_id_def session_new_def demo_member_def demo_server_def server_new_def find_channel_def
    upd_chan_def cdata_def channel_entry_new_def channel_modes_default_def fold_c_def fold_key_def client_entry_new_def my_data_def my_entry_def
    my_nick_def entry_nick_def)

theorem channel_message_exact_witness:
  "ce_mailbox (entries (cn_server (cmd_message [''#a'', ''hi''] False None demo_chat)) 2) \<noteq> []
   \<and> ce_mailbox (entries (cn_server (cmd_message [''#a'', ''hi''] False None demo_chat)) 3) = []"
proof -
  have v: "is_valid_channel ''#a''" by code_simp
  note d = demo_chat_fields
  have ok: "chan_ok (cn_server demo_chat)" "is_valid_channel (ch_name (cdata (cn_server demo_chat) 0))"
    using demo_joiner_ok v by (simp_all only: d) (simp add: demo_chat_def conn_ok_def net_ok_def members_ok_def chan_ok_upd)
  have "speak_refusal (cdata (cn_server demo_chat) 0) 1 = None" by (simp add: speak_refusal_def d)
  moreover have "find_channel (cn_server demo_chat) (fold_c demo_chat ''#a'') = Some 0" "table_ok (ch_members (cdata (cn_server demo_chat) 0))"
    by (simp_all add: d table_ok_def)
  note x = channel_message_exact [of demo_chat _ "''#a''" 0 _ _ _ "''hi''" None, OF ok d(2) v this _ refl refl refl refl]
  ultimately show ?thesis using x [of 2] x [of 3] by (simp add: d has_member_def entry_send_def)
qed

subsection \<open>Who may redact\<close>

text \<open>Who wrote a recorded message: its source starts with the nickname the client has now.\<close>

definition written_by :: "conn \<Rightarrow> stored_message \<Rightarrow> bool" where
  "written_by c m \<longleftrightarrow>
     (\<exists>nick. (sm_source m = nick \<or> (\<exists>rest. sm_source m = nick @ CHR ''!'' # rest)) \<and> CHR ''!'' \<notin> set nick
        \<and> fold_c c nick = fold_c c (my_nick c))"

lemma written_by_author: "author_of c m = fold_c c (my_nick c) \<Longrightarrow> written_by c m"
proof -
  assume a: "author_of c m = fold_c c (my_nick c)"
  define nick where "nick = first_part (CHR ''!'') (sm_source m)"
  have m: "sm_source m = nick @ dropWhile (\<lambda>x. x \<noteq> CHR ''!'') (sm_source m)" by (simp add: nick_def first_part_def)
  have "sm_source m = nick \<or> (\<exists>rest. sm_source m = nick @ CHR ''!'' # rest)"
  proof (cases "dropWhile (\<lambda>x. x \<noteq> CHR ''!'') (sm_source m)")
    case (Cons x xs)
    then have "x = CHR ''!''" using hd_dropWhile [of "\<lambda>x. x \<noteq> CHR ''!''" "sm_source m"] by simp
    then show ?thesis using m Cons by auto
  next
    case Nil
    then show ?thesis using m by (metis append_Nil2)
  qed
  moreover have "CHR ''!'' \<notin> set nick" unfolding nick_def first_part_def using set_takeWhileD by fastforce
  ultimately show ?thesis using a by (auto simp: written_by_def author_of_def nick_def)
qed

lemma redact_removes:
  assumes "hist_find h key msgid = Some m"
  shows "\<exists>ring i. get (hist_log h) key = Some ring \<and> i < length ring \<and> ring ! i = m \<and> sm_msgid m = msgid
    \<and> hist_log (snd (redact key msgid h)) = put key (take i ring @ drop (Suc i) ring) (hist_log h)"
proof -
  obtain ring where ring: "get (hist_log h) key = Some ring" "find (\<lambda>m. sm_msgid m = msgid) ring = Some m"
    using assms by (auto simp: hist_find_def bind_eq_Some_conv)
  then obtain i where i: "i < length ring" "ring ! i = m" "sm_msgid m = msgid" "\<forall>j < i. sm_msgid (ring ! j) \<noteq> msgid"
    by (auto simp: find_Some_iff)
  have "position (\<lambda>m. sm_msgid m = msgid) ring = Some i"
  proof (cases "position (\<lambda>m. sm_msgid m = msgid) ring")
    case None
    then show ?thesis using i by (auto simp: position_None)
  next
    case (Some k)
    then show ?thesis using position_Some [OF Some] i by (metis linorder_neqE_nat)
  qed
  then show ?thesis using ring(1) i by (intro exI [of _ ring] exI [of _ i]) (simp add: redact_def sink_send_def)
qed

lemma redact_output:
  "history_of (cn_server (redact_announce h n x r c)) = history_of (cn_server c)"
  by (simp add: redact_announce_def Let_def propagate_redact_def propagate_def propagate_to_links_def to_channel_capped_def
    to_channel_filtered_history deliver_self_def emit_others)

text \<open>C15: a \<open>REDACT\<close> command of a client removes the message it names and nothing else, and only from a conversation
  the client takes part in: on a channel it is on, when the recorded source of the message has the nickname the client has now
  or the client is an operator of the channel; in its private messages with the target, when the source has that nickname. This
  is about the command; a redaction that arrives on a link is applied without a look at the author.\<close>

theorem redact_authorized:
  assumes "history_of (cn_server (cmd_redact ps c)) \<noteq> history_of (cn_server c)"
  shows "\<exists>target msgid rest key ring i. ps = target # msgid # rest
    \<and> get (hist_log (history_of (cn_server c))) key = Some ring \<and> i < length ring \<and> sm_msgid (ring ! i) = msgid
    \<and> hist_log (history_of (cn_server (cmd_redact ps c))) = put key (take i ring @ drop (Suc i) ring) (hist_log (history_of (cn_server c)))
    \<and> (if is_valid_channel target
        then key = fold_c c target \<and> (\<exists>h p. find_channel (cn_server c) key = Some h
               \<and> get (ch_members (cdata (cn_server c) h)) (my_id c) = Some p \<and> (mp_op p \<or> written_by c (ring ! i)))
        else key = pair_key (fold_c c (my_nick c)) (fold_c c target) \<and> written_by c (ring ! i))"
proof -
  obtain target msgid rest where ps: "ps = target # msgid # rest"
    using assms reply_others(5) by (auto simp: cmd_redact_def split: list.splits)
  define reason where "reason = (case rest of r # _ \<Rightarrow> r | [] \<Rightarrow> [])"
  show ?thesis
  proof (cases "is_valid_channel target")
    case True
    then have eq: "cmd_redact ps c = redact_channel target msgid reason c" using ps by (simp add: cmd_redact_def reason_def)
    obtain h p m where h: "find_channel (cn_server c) (fold_c c target) = Some h" "get (ch_members (cdata (cn_server c) h)) (my_id c) = Some p"
        "hist_find (history_of (cn_server c)) (fold_c c target) msgid = Some m" "mp_op p \<or> author_of c m = fold_c c (my_nick c)"
      using assms unfolding eq by (auto simp: redact_channel_def Let_def reply_others(5) split: option.splits if_splits)
    have "history_of (cn_server (cmd_redact ps c)) = snd (redact (fold_c c target) msgid (history_of (cn_server c)))"
      using h unfolding eq by (auto simp: redact_channel_def Let_def redact_output upd_history_def)
    moreover obtain ring i where "get (hist_log (history_of (cn_server c))) (fold_c c target) = Some ring" "i < length ring" "ring ! i = m"
        "sm_msgid m = msgid" "hist_log (snd (redact (fold_c c target) msgid (history_of (cn_server c)))) = put (fold_c c target) (take i ring @ drop (Suc i) ring) (hist_log (history_of (cn_server c)))"
      using redact_removes [OF h(3)] by blast
    moreover have "mp_op p \<or> written_by c m" using h(4) written_by_author by blast
    ultimately show ?thesis using h(1,2) ps True
      by (intro exI [of _ target] exI [of _ msgid] exI [of _ rest] exI [of _ "fold_c c target"] exI [of _ ring] exI [of _ i]) simp
  next
    case False
    define key where "key = pair_key (fold_c c (my_nick c)) (fold_c c target)"
    have eq: "cmd_redact ps c = redact_user target msgid reason c" using ps False by (simp add: cmd_redact_def reason_def)
    obtain m where m: "hist_find (history_of (cn_server c)) key msgid = Some m" "author_of c m = fold_c c (my_nick c)"
      using assms unfolding eq by (auto simp: redact_user_def Let_def reply_others(5) key_def split: option.splits if_splits)
    have "history_of (cn_server (cmd_redact ps c)) = snd (redact key msgid (history_of (cn_server c)))"
      using m unfolding eq
      by (simp add: redact_user_def key_def [symmetric] Let_def deliver_self_def emit_others propagate_redact_def propagate_def
        propagate_to_links_def upd_history_def to_client_def send_client_def upd_client_def split: option.split)
    moreover obtain ring i where "get (hist_log (history_of (cn_server c))) key = Some ring" "i < length ring" "ring ! i = m"
        "sm_msgid m = msgid" "hist_log (snd (redact key msgid (history_of (cn_server c)))) = put key (take i ring @ drop (Suc i) ring) (hist_log (history_of (cn_server c)))"
      using redact_removes [OF m(1)] by blast
    ultimately show ?thesis using written_by_author [OF m(2)] ps False
      by (intro exI [of _ target] exI [of _ msgid] exI [of _ rest] exI [of _ key] exI [of _ ring] exI [of _ i]) (simp add: key_def)
  qed
qed

text \<open>An example: the last word of \<open>Amy\<close> in the channel, taken back.\<close>

definition demo_said :: conn where
  "demo_said = upd_srv (upd_history (\<lambda>h. h\<lparr>hist_log := [(''#a'',
     [\<lparr>sm_msgid = ''m1'', sm_time_ms = 1, sm_source = ''Amy!u@h'', sm_account = None, sm_kind = PrivMsg, sm_target = ''#a'', sm_text = ''hi''\<rparr>])]\<rparr>)) demo_chat"

subsection \<open>What a replay of history reveals\<close>

text \<open>The history replaced, all else equal.\<close>

definition with_hist :: "history \<Rightarrow> conn \<Rightarrow> conn" where
  "with_hist h c = upd_srv (upd_history (\<lambda>_. h)) c"

lemma with_hist_fields [simp]:
  "my_id (with_hist h c) = my_id c" "my_entry (with_hist h c) = my_entry c" "my_data (with_hist h c) = my_data c" "my_caps (with_hist h c) = my_caps c"
  "fold_c (with_hist h c) = fold_c c" "my_nick (with_hist h c) = my_nick c" "server_name (with_hist h c) = server_name c"
  "nick_or_star (with_hist h c) = nick_or_star c" "cdata (cn_server (with_hist h c)) k = cdata (cn_server c) k"
  "find_channel (cn_server (with_hist h c)) f = find_channel (cn_server c) f" "history_of (cn_server (with_hist h c)) = h"
  by (simp_all add: with_hist_def upd_history_def my_id_def my_entry_def my_data_def my_caps_def fold_c_def fold_key_def fun_eq_iff my_nick_def
    server_name_def nick_or_star_def cdata_def find_channel_def)

lemma emit_with_hist: "emit b (with_hist h c) = with_hist h (emit b c)"
  by (simp add: emit_def with_hist_def upd_history_def send_client_def upd_client_def my_id_def upd_srv_def upd_ses_def split: option.split)

lemma replies_with_hist [simp]:
  "send_to_me l (with_hist h c) = with_hist h (send_to_me l c)" "send_bytes b (with_hist h c) = with_hist h (send_bytes b c)"
  "fail_reply x y z w (with_hist h c) = with_hist h (fail_reply x y z w c)"
  by (simp_all add: send_to_me_def send_bytes_def fail_reply_def standard_reply_def notice_def emit_with_hist)

lemma history_lines_with_hist: "history_lines t r ms (with_hist h c) = with_hist h (history_lines t r ms c)"
proof -
  have "fold (\<lambda>m c. send_bytes (render_stored m (my_caps c) x) c) ms (with_hist h d)
      = with_hist h (fold (\<lambda>m c. send_bytes (render_stored m (my_caps c) x) c) ms d)" for x d
    by (induction ms arbitrary: d) simp_all
  then show ?thesis by (simp add: history_lines_def Let_def)
qed

lemma send_history_batch_with:
  "send_history_batch t ms c = with_hist (snd (next_msgid (history_of (cn_server c)))) (history_lines t (fst (next_msgid (history_of (cn_server c)))) ms c)"
proof -
  obtain m u where mu: "server_next_msgid (cn_server c) = (m, u)" by fastforce
  have "c\<lparr>cn_server := u\<rparr> = with_hist (snd (next_msgid (history_of (cn_server c)))) c"
    using next_msgid_fields [OF mu] by (simp add: with_hist_def upd_srv_def upd_history_def)
  then show ?thesis using next_msgid_fields [OF mu] by (simp add: send_history_batch_def mu history_lines_with_hist)
qed

lemma history_query_local:
  assumes "get (hist_log g) key = get (hist_log (history_of (cn_server c))) key"
  shows "history_query sub key args (with_hist g c) = history_query sub key args c"
proof -
  have "History.snapshot g key ev = History.snapshot (history_of (cn_server c)) key ev" for ev
    using assms by (simp add: History.snapshot_def)
  then show ?thesis by (simp add: history_query_def latest_def before_def after_def around_def between_def Let_def cong: option.case_cong)
qed

lemma with_hist_with_hist [simp]: "with_hist g (with_hist h c) = with_hist g c" "ss_label_buffer (cn_ses (with_hist h c)) = ss_label_buffer (cn_ses c)"
  by (simp_all add: with_hist_def upd_srv_def upd_history_def)

text \<open>C14: \<open>CHATHISTORY\<close> shows a client its own conversations only. Take any change of the recorded history that touches neither a
  channel the client is a member of nor a private conversation recorded under the nickname it has now: the answer to a query is
  the same, to the last octet. This is for every subcommand but \<open>TARGETS\<close>, whose answer does depend on the conversations of
  others (\<open>targets_crowded_out\<close>).\<close>

theorem chathistory_private:
  assumes "ps = [] \<or> map to_ascii_uppercase (hd ps) \<noteq> ''TARGETS''" "h = history_of (cn_server c)"
    "msgid_prefix g = msgid_prefix h" "hist_next_id g = hist_next_id h"
    and "\<And>f k p. find_channel (cn_server c) f = Some k \<Longrightarrow> get (ch_members (cdata (cn_server c) k)) (my_id c) = Some p \<Longrightarrow>
      get (hist_log g) f = get (hist_log h) f"
    and "\<And>other. get (hist_log g) (pair_key (fold_c c (my_nick c)) other) = get (hist_log h) (pair_key (fold_c c (my_nick c)) other)"
  shows "my_entry (cmd_chathistory ps (with_hist g c)) = my_entry (cmd_chathistory ps c)
    \<and> ss_label_buffer (cn_ses (cmd_chathistory ps (with_hist g c))) = ss_label_buffer (cn_ses (cmd_chathistory ps c))"
proof -
  have read: "may_read t (with_hist g c) = may_read t c" "history_key t (with_hist g c) = history_key t c" for t
    by (simp_all add: may_read_def history_key_def split: option.split)
  have "fst (next_msgid g) = fst (next_msgid h)" using assms(3,4) by (simp add: next_msgid_def)
  then have batch: "my_entry (send_history_batch t ms (with_hist g c)) = my_entry (send_history_batch t ms c)"
    "ss_label_buffer (cn_ses (send_history_batch t ms (with_hist g c))) = ss_label_buffer (cn_ses (send_history_batch t ms c))" for t ms
    using assms(2) by (simp_all add: send_history_batch_with history_lines_with_hist)
  have same: "get (hist_log g) (history_key t c) = get (hist_log h) (history_key t c)" if may: "may_read t c" for t
  proof (cases "is_valid_channel t")
    case True
    then obtain k where "find_channel (cn_server c) (fold_c c t) = Some k" "has_member (cdata (cn_server c) k) (my_id c)"
      using may by (auto simp: may_read_def split: option.splits)
    then show ?thesis using assms(5) True by (auto simp: history_key_def has_member_def)
  qed (simp add: history_key_def assms(6))
  have query: "history_query sub (history_key t c) args (with_hist g c) = history_query sub (history_key t c) args c" if "may_read t c" for sub t args
    using history_query_local assms(2) same [OF that] by simp
  show ?thesis
    using assms(1) by (auto simp: cmd_chathistory_def Let_def read query batch split: list.split sum.split option.split)
qed

text \<open>The same member of the same channel, before and after a secret conversation of others.\<close>

theorem chathistory_private_witness:
  "my_entry (cmd_chathistory [''LATEST'', ''#a'', ''*''] (with_hist ((history_of (cn_server demo_said))\<lparr>hist_log :=
      (''#b'', []) # hist_log (history_of (cn_server demo_said))\<rparr>) demo_said))
   = my_entry (cmd_chathistory [''LATEST'', ''#a'', ''*''] demo_said)"
proof -
  let ?h = "history_of (cn_server demo_said)"
  have upper: "map to_ascii_uppercase ''LATEST'' = ''LATEST''" by code_simp
  have "find_channel (cn_server demo_said) ''#b'' = None"
    by (simp add: demo_said_def demo_chat_def demo_joiner_def demo_member_def find_channel_def upd_history_def)
  then have "get (hist_log (?h\<lparr>hist_log := (''#b'', []) # hist_log ?h\<rparr>)) f = get (hist_log ?h) f"
    if "find_channel (cn_server demo_said) f = Some k" for f k
    using that by auto
  moreover have "get (hist_log (?h\<lparr>hist_log := (''#b'', []) # hist_log ?h\<rparr>)) (pair_key x y) = get (hist_log ?h) (pair_key x y)" for x y
    by (simp add: pair_key_def)
  ultimately show ?thesis
    using upper by (intro conjunct1 [OF chathistory_private [OF _ refl]]) simp_all
qed

lemma demo_said_fields:
  "my_id demo_said = 1" "find_channel (cn_server demo_said) ''#a'' = Some 0" "fold_c demo_said ''#a'' = ''#a''" "my_nick demo_said = ''Amy''"
  "ch_members (cdata (cn_server demo_said) 0) = [(1, prefix_default), (2, prefix_default)]" "ch_name (cdata (cn_server demo_said) 0) = ''#a''"
  "hist_log (history_of (cn_server demo_said)) =
     [(''#a'', [\<lparr>sm_msgid = ''m1'', sm_time_ms = 1, sm_source = ''Amy!u@h'', sm_account = None, sm_kind = PrivMsg, sm_target = ''#a'', sm_text = ''hi''\<rparr>])]"
  "cd_channels (my_data demo_said) = [''#a'']"
  using demo_chat_fields
  by (simp_all add: demo_said_def upd_history_def my_id_def my_nick_def my_entry_def my_data_def fold_c_def fold_key_def find_channel_def cdata_def)

definition demo_crowded :: conn where
  "demo_crowded = upd_srv (upd_history (\<lambda>h. h\<lparr>hist_log :=
     (''#b'', [\<lparr>sm_msgid = ''m2'', sm_time_ms = 2, sm_source = ''Bob!u@h'', sm_account = None, sm_kind = PrivMsg, sm_target = ''#b'', sm_text = ''yo''\<rparr>])
       # hist_log h\<rparr>)) demo_said"

text \<open>The list of targets is cut to its limit before the conversations of others are left out of it. Here two
  channels have history and the client is on one of them, whose last message is the older one: asked for one target,
  the server answers with none, although the client's own channel is in range; asked for two it answers with that channel.\<close>

theorem targets_crowded_out:
  "cmd_chathistory [''TARGETS'', ''*'', ''*'', ''1''] demo_crowded = demo_crowded
   \<and> cmd_chathistory [''TARGETS'', ''*'', ''*'', ''2''] demo_crowded = targets_line 1 ''#a'' demo_crowded"
proof -
  have upper: "map to_ascii_uppercase ''TARGETS'' = ''TARGETS''" "pair_parties ''#a'' = None" "pair_parties ''#b'' = None"
    "dec 1 = ''1''" "dec 2 = ''2''" by code_simp+
  have num: "parse_u64 ''1'' = Some 1" "parse_u64 ''2'' = Some 2" using parse_u64_dec [of 1] parse_u64_dec [of 2] upper by simp_all
  have log: "hist_log (history_of (cn_server demo_crowded)) =
    [(''#b'', [\<lparr>sm_msgid = ''m2'', sm_time_ms = 2, sm_source = ''Bob!u@h'', sm_account = None, sm_kind = PrivMsg, sm_target = ''#b'', sm_text = ''yo''\<rparr>]),
     (''#a'', [\<lparr>sm_msgid = ''m1'', sm_time_ms = 1, sm_source = ''Amy!u@h'', sm_account = None, sm_kind = PrivMsg, sm_target = ''#a'', sm_text = ''hi''\<rparr>])]"
    using demo_said_fields(7) by (simp add: demo_crowded_def upd_history_def)
  have ts: "targets (history_of (cn_server demo_crowded)) Latest Latest n = take n [(''#b'', 2), (''#a'', 1)]" for n
    by (simp add: targets_def log map_filter_simps is_message_def Let_def)
  have c: "cd_channels (my_data demo_crowded) = [''#a'']" "find_channel (cn_server demo_crowded) ''#a'' = Some 0" "ch_name (cdata (cn_server demo_crowded) 0) = ''#a''"
    using demo_said_fields by (simp_all add: demo_crowded_def upd_history_def my_data_def my_entry_def my_id_def find_channel_def cdata_def)
  have name: "conversation_name ''#b'' demo_crowded = None" "conversation_name ''#a'' demo_crowded = Some ''#a''"
    by (simp_all add: conversation_name_def upper c)
  have "cmd_chathistory (''TARGETS'' # rest) c = chathistory_targets rest c" for rest c
    by (simp only: cmd_chathistory_def list.case Let_def upper(1) if_True refl)
  then show ?thesis
    by (simp add: chathistory_targets_def selector_at_def parse_selector_def history_limit_def ts name num)
qed

theorem redact_authorized_witness:
  "history_of (cn_server (cmd_redact [''#a'', ''m1''] demo_said)) \<noteq> history_of (cn_server demo_said)
   \<and> (\<exists>key. hist_log (history_of (cn_server (cmd_redact [''#a'', ''m1''] demo_said))) = put key [] (hist_log (history_of (cn_server demo_said))))"
proof -
  note d = demo_said_fields
  have v: "is_valid_channel ''#a''" by code_simp
  have amy: "first_part (CHR ''!'') ''Amy!u@h'' = ''Amy''" by code_simp
  let ?e = "upd_srv (upd_history (\<lambda>h. snd (redact ''#a'' ''m1'' h))) demo_said"
  have find: "hist_find (history_of (cn_server demo_said)) ''#a'' ''m1'' = Some \<lparr>sm_msgid = ''m1'', sm_time_ms = 1, sm_source = ''Amy!u@h'',
      sm_account = None, sm_kind = PrivMsg, sm_target = ''#a'', sm_text = ''hi''\<rparr>"
    by (simp add: hist_find_def d)
  have author: "author_of demo_said m = fold_c demo_said (my_nick demo_said)" if "sm_source m = ''Amy!u@h''" for m
    by (simp add: author_of_def that amy d)
  have "cmd_redact [''#a'', ''m1''] demo_said = redact_announce 0 ''#a'' ''m1'' [] ?e"
    using v by (simp add: cmd_redact_def redact_channel_def d find author Let_def)
  moreover have "history_of (cn_server ?e) \<noteq> history_of (cn_server demo_said)"
  proof
    assume "history_of (cn_server ?e) = history_of (cn_server demo_said)"
    from arg_cong [OF this, of "\<lambda>h. get (hist_log h) ''#a''"] show False
      by (simp add: upd_history_def redact_def position_def find d Let_def sink_send_def)
  qed
  ultimately have ne: "history_of (cn_server (cmd_redact [''#a'', ''m1''] demo_said)) \<noteq> history_of (cn_server demo_said)"
    by (simp add: redact_output)
  from redact_authorized [OF this] ne show ?thesis by (auto simp: d v prefix_default_def split: if_splits)
qed

end
