(* ===== verification/Operators.thy ===== *)
theory Operators
  imports Messaging
begin

text \<open>
  The commands of IRC operators (\<open>ferrixd/src/command.rs\<close>): becoming one, broadcasts, kills, server bans, hosts,
  links and the reload of the configuration. What the server keeps beside its shared state for them - the link
  configurations, the TLS material, the shutdown request and the tasks it starts - is the record \<open>runtime\<close>.
\<close>

subsection \<open>The runtime\<close>

datatype link_protocol = Ferrix | Ts6

record link_config =
  lk_name :: string
  lk_connect :: "string option"
  lk_fingerprint :: string
  lk_password :: string
  lk_protocol :: link_protocol

text \<open>Reading the configuration file and building TLS material are functions of the runtime: they stand for the
  file system, the TOML parser and the TLS library. \<open>rt_dials\<close> are the outbound attempts that were started.\<close>

record runtime =
  rt_config_path :: "string option"
  rt_load :: "string \<Rightarrow> string + config \<times> link_config list \<times> string"
  rt_build_server_tls :: "string \<Rightarrow> string + string"
  rt_build_link_tls :: "string \<Rightarrow> string + string"
  rt_hash_error :: string
  rt_server_tls :: "string option"
  rt_link_tls :: "string option"
  rt_link_configs :: "link_config list"
  rt_started_at :: nat
  rt_shutdown :: bool
  rt_dials :: "(link_config \<times> string) list"

definition link_config_by_name :: "runtime \<Rightarrow> string \<Rightarrow> link_config option" where
  "link_config_by_name rt name = find (\<lambda>l. eq_ignore_ascii_case (lk_name l) name) (rt_link_configs rt)"

definition request_shutdown :: "runtime \<Rightarrow> runtime" where
  "request_shutdown rt = rt\<lparr>rt_shutdown := True\<rparr>"

definition config_error_text :: "runtime \<Rightarrow> config_error \<Rightarrow> string" where
  "config_error_text rt e =
     (case e of
        HashFailed \<Rightarrow> rt_hash_error rt
      | MalformedScram name \<Rightarrow> ''account '' @ name @ '': malformed scram credential''
      | NoOperPassword name \<Rightarrow> ''operator '' @ name @ '' has no password'')"

definition rehash :: "runtime \<Rightarrow> conn \<Rightarrow> (string + unit) \<times> runtime \<times> conn" where
  "rehash rt c =
     (case rt_config_path rt of
        None \<Rightarrow> (Inl ''no config path recorded'', rt, c)
      | Some path \<Rightarrow>
          (case rt_load rt path of
             Inl e \<Rightarrow> (Inl e, rt, c)
           | Inr (cfg, lks, tls) \<Rightarrow>
               (let staged = (if rt_server_tls rt = None then Inr None else map_sum id Some (rt_build_server_tls rt tls))
                in case staged of
                     Inl e \<Rightarrow> (Inl (''reloading TLS material: '' @ e), rt, c)
                   | Inr staged \<Rightarrow>
                       (case rt_build_link_tls rt tls of
                          Inl e \<Rightarrow> (Inl (''building link client TLS: '' @ e), rt, c)
                        | Inr link_client \<Rightarrow>
                            (case apply_config cfg (cn_auth c, cn_server c) of
                               (Inl e, au, s) \<Rightarrow> (Inl (config_error_text rt e), rt, c\<lparr>cn_auth := au, cn_server := s\<rparr>)
                             | (Inr _, au, s) \<Rightarrow>
                                 (Inr (),
                                  rt\<lparr>rt_link_configs := lks, rt_link_tls := Some link_client,
                                     rt_server_tls := (case staged of Some _ \<Rightarrow> staged | None \<Rightarrow> rt_server_tls rt)\<rparr>,
                                  c\<lparr>cn_auth := au, cn_server := s\<rparr>))))))"

subsection \<open>Becoming an operator; broadcasts\<close>

definition cmd_oper :: "string list \<Rightarrow> conn \<Rightarrow> conn" where
  "cmd_oper params c =
     (case params of
        name # password # _ \<Rightarrow>
          if \<not> oper_host_allowed (cn_auth c) name (entry_hostmask (my_entry c)) (cd_real_ip (my_data c))
          then numeric ERR_NOOPERHOST [] (Some ''No O-lines for your host'') c
          else if verify_password (au_crypto (cn_auth c)) (au_opers (cn_auth c)) name password = None
          then numeric ERR_PASSWDMISMATCH [] (Some ''Password incorrect'') c
          else
            (let c = upd_me (\<lambda>d. d\<lparr>cd_oper := True\<rparr>) c;
                 c = send_to_me (line_param (line_param (line_command (line_server (server_name c)) ''MODE'') (my_nick c)) ''+o'') c;
                 c = numeric RPL_YOUREOPER [] (Some ''You are now an IRC operator'') c
             in upd_srv (propagate_umodes (my_id c) ''+o'') c)
      | _ \<Rightarrow> need_more_params ''OPER'' c)"

text \<open>The commands that are for operators only.\<close>

definition opers_only :: "(conn \<Rightarrow> conn) \<Rightarrow> conn \<Rightarrow> conn" where
  "opers_only handler c = (case require_oper c of (ok, c) \<Rightarrow> if ok then handler c else c)"

definition cmd_wallops :: "string list \<Rightarrow> conn \<Rightarrow> conn" where
  "cmd_wallops params = opers_only (\<lambda>c.
     case params of
       [] \<Rightarrow> need_more_params ''WALLOPS'' c
     | txt # _ \<Rightarrow>
         (let c = upd_srv (wallops (line_build (line_trailing (my_line c ''WALLOPS'') txt))) c
          in upd_srv (propagate_wallops (entry_hostmask (my_entry c)) txt) c))"

definition cmd_globops :: "string list \<Rightarrow> conn \<Rightarrow> conn" where
  "cmd_globops params = opers_only (\<lambda>c.
     case params of
       [] \<Rightarrow> need_more_params ''GLOBOPS'' c
     | txt # _ \<Rightarrow>
         (let source = entry_hostmask (my_entry c); body = ''[GLOBOPS] '' @ txt;
              c = upd_srv (wallops (line_build (line_trailing (line_command (line_server source) ''WALLOPS'') body))) c
          in upd_srv (propagate_wallops source body) c))"

subsection \<open>Kills\<close>

definition is_server_name :: "conn \<Rightarrow> string \<Rightarrow> bool" where
  "is_server_name c name \<longleftrightarrow>
     eq_ignore_ascii_case name (server_name c)
     \<or> (\<exists>l \<in> set (links (cn_server c)). eq_ignore_ascii_case (lh_name (snd l)) name)
     \<or> (\<exists>r \<in> set (remote_servers_snapshot (cn_server c)). eq_ignore_ascii_case (rs_name r) name)"

definition kill_one :: "string \<Rightarrow> string \<Rightarrow> conn \<Rightarrow> conn" where
  "kill_one reason target c =
     (if is_server_name c target then numeric ERR_CANTKILLSERVER [target] (Some ''You can't kill a server!'') c
      else
        (case find_client (cn_server c) (fold_c c target) of
           Some i \<Rightarrow> upd_srv (upd_client i (request_kill reason)) c
         | None \<Rightarrow>
             (case find_remote_user (cn_server c) (fold_c c target) of
                Some remote \<Rightarrow> notice (''KILL for '' @ target @ '' sent to its server'') (upd_srv (kill_remote remote reason) c)
              | None \<Rightarrow> numeric ERR_NOSUCHNICK [target] (Some ''No such nick/channel'') c)))"

definition nth_or :: "string list \<Rightarrow> nat \<Rightarrow> string \<Rightarrow> string" where
  "nth_or params n dflt = (if n < length params then params ! n else dflt)"

definition cmd_kill :: "string list \<Rightarrow> conn \<Rightarrow> conn" where
  "cmd_kill params = opers_only (\<lambda>c.
     case params of
       [] \<Rightarrow> need_more_params ''KILL'' c
     | names # _ \<Rightarrow>
         (let reason = ''Killed ('' @ my_nick c @ '': '' @ nth_or params 1 ''Killed'' @ '')''
          in fold (kill_one reason) (filter (\<lambda>t. t \<noteq> []) (split_on CHR '','' names)) c))"

subsection \<open>Server bans\<close>

definition cmd_kline :: "string list \<Rightarrow> conn \<Rightarrow> conn" where
  "cmd_kline params = opers_only (\<lambda>c.
     case params of
       [] \<Rightarrow> need_more_params ''KLINE'' c
     | raw_mask # _ \<Rightarrow>
         (let msk = normalize_ban_mask raw_mask; reason = nth_or params 1 ''K-Lined'';
              c = upd_srv (add_kline msk reason (my_nick c)) c;
              (affected, s) = kill_matching msk (''K-Lined: '' @ reason) (cn_server c)
          in notice (''Added K-Line for '' @ msk @ '' ('' @ dec affected @ '' user(s) affected)'') (c\<lparr>cn_server := s\<rparr>)))"

definition cmd_unkline :: "string list \<Rightarrow> conn \<Rightarrow> conn" where
  "cmd_unkline params = opers_only (\<lambda>c.
     case params of
       [] \<Rightarrow> need_more_params ''UNKLINE'' c
     | raw_mask # _ \<Rightarrow>
         (let msk = normalize_ban_mask raw_mask; (removed, s) = remove_kline msk (cn_server c); c = c\<lparr>cn_server := s\<rparr>
          in if removed then notice (''Removed K-Line for '' @ msk) c else notice (''No such K-Line: '' @ msk) c))"

definition cmd_gline :: "string list \<Rightarrow> conn \<Rightarrow> conn" where
  "cmd_gline params = opers_only (\<lambda>c.
     case params of
       [] \<Rightarrow> need_more_params ''GLINE'' c
     | raw_mask # _ \<Rightarrow>
         (let msk = normalize_ban_mask raw_mask; reason = nth_or params 1 ''G-Lined''; set_by = my_nick c;
              c = upd_srv (add_kline msk reason set_by) c;
              (affected, s) = kill_matching msk (''G-Lined: '' @ reason) (cn_server c);
              c = upd_srv (propagate_gline True msk set_by reason) (c\<lparr>cn_server := s\<rparr>)
          in notice (''Added G-Line for '' @ msk @ '' ('' @ dec affected @ '' local user(s) affected)'') c))"

definition cmd_ungline :: "string list \<Rightarrow> conn \<Rightarrow> conn" where
  "cmd_ungline params = opers_only (\<lambda>c.
     case params of
       [] \<Rightarrow> need_more_params ''UNGLINE'' c
     | raw_mask # _ \<Rightarrow>
         (let msk = normalize_ban_mask raw_mask; (removed, s) = remove_kline msk (cn_server c); c = c\<lparr>cn_server := s\<rparr>;
              c = upd_srv (propagate_gline False msk (my_nick c) []) c
          in if removed then notice (''Removed G-Line for '' @ msk) c
             else notice (''No such G-Line here: '' @ msk @ '' (removal propagated)'') c))"

definition cmd_dline :: "string list \<Rightarrow> conn \<Rightarrow> conn" where
  "cmd_dline params = opers_only (\<lambda>c.
     case params of
       [] \<Rightarrow> need_more_params ''DLINE'' c
     | msk # _ \<Rightarrow>
         (let reason = nth_or params 1 ''D-Lined'';
              c = upd_srv (add_dline msk reason (my_nick c)) c;
              (affected, s) = kill_matching_ip msk (''D-Lined: '' @ reason) (cn_server c)
          in notice (''Added D-Line for '' @ msk @ '' ('' @ dec affected @ '' user(s) affected)'') (c\<lparr>cn_server := s\<rparr>)))"

definition cmd_undline :: "string list \<Rightarrow> conn \<Rightarrow> conn" where
  "cmd_undline params = opers_only (\<lambda>c.
     case params of
       [] \<Rightarrow> need_more_params ''UNDLINE'' c
     | msk # _ \<Rightarrow>
         (let (removed, s) = remove_dline msk (cn_server c); c = c\<lparr>cn_server := s\<rparr>
          in if removed then notice (''Removed D-Line for '' @ msk) c else notice (''No such D-Line: '' @ msk) c))"

subsection \<open>Hosts\<close>

text \<open>The target hears of its new host first; then everybody who shares a channel with it, once each, and its
  watchers.\<close>

definition chghost_announce :: "nat \<Rightarrow> client_data \<Rightarrow> event \<Rightarrow> server \<Rightarrow> server" where
  "chghost_announce i d e s =
     (let s = (if has (entry_caps (entries s i)) ChgHost then to_client i e s else s);
          (seen, s) = fold (propagate_channel i e (Some ChgHost)) (cd_channels d) ([i], s)
      in notify_extended_monitors (fold_key s (cd_nick d)) e ChgHost seen s)"

definition cmd_chghost :: "string list \<Rightarrow> conn \<Rightarrow> conn" where
  "cmd_chghost params = opers_only (\<lambda>c.
     case params of
       who # new_host # _ \<Rightarrow>
         (case find_client (cn_server c) (fold_c c who) of
            None \<Rightarrow> numeric ERR_NOSUCHNICK [who] (Some ''No such nick/channel'') c
          | Some i \<Rightarrow>
              (let d = ce_data (entries (cn_server c) i);
                   c = upd_srv (upd_client_data i (\<lambda>d. d\<lparr>cd_host := new_host\<rparr>)) c;
                   body = line_body (line_param (line_param (line_command (line_user (cd_nick d) (cd_user d) (cd_host d)) ''CHGHOST'')
                     (cd_user d)) new_host);
                   c = upd_srv (chghost_announce i d (with_time (now_time c) (event_new body))) c;
                   c = notice (''Changed host of '' @ cd_nick d @ '' to '' @ new_host) c
               in upd_srv (propagate_chghost i new_host) c))
     | _ \<Rightarrow> need_more_params ''CHGHOST'' c)"

subsection \<open>Links, reload and shutdown\<close>

definition cmd_squit :: "string list \<Rightarrow> conn \<Rightarrow> conn" where
  "cmd_squit params = opers_only (\<lambda>c.
     case params of
       [] \<Rightarrow> need_more_params ''SQUIT'' c
     | target # _ \<Rightarrow>
         (let dflt = ''SQUIT requested by operator'';
              reason = (if nth_or params 1 [] = [] then dflt else nth_or params 1 []);
              (found, s) = squit_link target reason (cn_server c); c = c\<lparr>cn_server := s\<rparr>
          in case found of
               Some name \<Rightarrow> notice (''SQUIT: closing link to '' @ name) c
             | None \<Rightarrow> numeric ERR_NOSUCHSERVER [target] (Some ''No such directly-linked server'') c))"

definition with_runtime :: "(runtime \<times> conn \<Rightarrow> runtime \<times> conn) \<Rightarrow> runtime \<times> conn \<Rightarrow> runtime \<times> conn" where
  "with_runtime handler st =
     (case st of (rt, c) \<Rightarrow> (case require_oper c of (ok, c) \<Rightarrow> if ok then handler (rt, c) else (rt, c)))"

definition cmd_rehash :: "runtime \<times> conn \<Rightarrow> runtime \<times> conn" where
  "cmd_rehash = with_runtime (\<lambda>(rt, c).
     let c = numeric RPL_REHASHING [''config''] (Some ''Rehashing'') c; (result, rt, c) = rehash rt c
     in (rt, case result of
               Inr _ \<Rightarrow> notice ''Rehash complete'' c
             | Inl err \<Rightarrow> notice (''Rehash failed: '' @ err) c))"

definition cmd_connect :: "string list \<Rightarrow> runtime \<times> conn \<Rightarrow> runtime \<times> conn" where
  "cmd_connect params = with_runtime (\<lambda>(rt, c).
     case params of
       [] \<Rightarrow> (rt, need_more_params ''CONNECT'' c)
     | name # _ \<Rightarrow>
         (case link_config_by_name rt name of
            None \<Rightarrow> (rt, numeric ERR_NOSUCHSERVER [name] (Some ''No configured link by that name'') c)
          | Some peer \<Rightarrow>
              if lk_connect peer = None
              then (rt, notice (''CONNECT: '' @ lk_name peer @ '' is accept-only (no address)'') c)
              else if direct_link (cn_server c) (lk_name peer) \<noteq> None
              then (rt, notice (''CONNECT: '' @ lk_name peer @ '' is already linked'') c)
              else
                (case rt_link_tls rt of
                   None \<Rightarrow> (rt, notice ''CONNECT: link TLS is not configured'' c)
                 | Some tls \<Rightarrow>
                     (rt\<lparr>rt_dials := rt_dials rt @ [(peer, tls)]\<rparr>,
                      notice (''Connecting to '' @ lk_name peer @ ''...'') (upd_srv (clear_link_admin_down (lk_name peer)) c)))))"

definition cmd_die :: "runtime \<times> conn \<Rightarrow> runtime \<times> conn" where
  "cmd_die = with_runtime (\<lambda>(rt, c).
     (request_shutdown rt,
      upd_srv (wallops (line_build (line_trailing (line_command (line_server (server_name c)) ''WALLOPS'')
        (''Server shutting down (DIE by '' @ my_nick c @ '')'')))) c))"

subsection \<open>What the handlers keep\<close>

lemma kept_opers_only [kepts]: "kept c d \<Longrightarrow> (\<And>d. kept c d \<Longrightarrow> kept c (handler d)) \<Longrightarrow> kept c (opers_only handler d)"
  by (auto simp: opers_only_def require_oper_def kept_replies)

lemma kept_with_runtime:
  "kept c (snd st) \<Longrightarrow> (\<And>rt d. kept c d \<Longrightarrow> kept c (snd (handler (rt, d)))) \<Longrightarrow> kept c (snd (with_runtime handler st))"
  by (auto simp: with_runtime_def require_oper_def kept_replies split: prod.split)

lemma same_client_host [simp]: "same_client d (d\<lparr>cd_host := h\<rparr>)"
  by (simp_all add: same_client_def)

text \<open>\<open>OPER\<close> is the one command that makes an operator, so it is outside the frame.\<close>

lemma conn_ok_opered:
  assumes "conn_ok c"
  shows "conn_ok (upd_me (\<lambda>d. d\<lparr>cd_oper := True\<rparr>) c)" (is "conn_ok ?d")
proof -
  have srv: "cn_server ?d = upd_client_data (my_id c) (\<lambda>d. d\<lparr>cd_oper := True\<rparr>) (cn_server c)" by (simp add: upd_me_def)
  have "net_ok (cn_server ?d)"
    unfolding srv upd_client_data_def using assms by (subst net_ok_upd_client) (simp_all add: conn_ok_def)
  moreover have "client_ok (cn_server ?d)"
    unfolding srv by (rule client_ok_upd)
      (use assms in \<open>auto simp: conn_ok_def client_ok_def session_ok_def my_data_def my_entry_def\<close>)
  moreover have "session_ok ?d" using assms by (auto simp: conn_ok_def session_ok_def my_nick_data)
  ultimately show ?thesis by (simp add: conn_ok_def)
qed

lemma conn_ok_cmd_oper:
  assumes "conn_ok c"
  shows "conn_ok (cmd_oper ps c)"
proof -
  define d where "d = upd_me (\<lambda>d. d\<lparr>cd_oper := True\<rparr>) c"
  have "kept d (let c = send_to_me (line_param (line_param (line_command (line_server (server_name d)) ''MODE'') (my_nick d)) ''+o'') d;
      c = numeric RPL_YOUREOPER [] (Some ''You are now an IRC operator'') c
    in upd_srv (propagate_umodes (my_id c) ''+o'') c)"
    by (intro kepts) simp_all
  then show ?thesis
    using assms conn_ok_kept [OF conn_ok_opered [OF assms, folded d_def]]
    by (auto simp: cmd_oper_def Let_def d_def split: list.split)
qed

lemma kept_cmd_wallops [kepts]: "kept c d \<Longrightarrow> kept c (cmd_wallops ps d)"
  unfolding cmd_wallops_def by (intro kepts) simp_all

lemma kept_cmd_globops [kepts]: "kept c d \<Longrightarrow> kept c (cmd_globops ps d)"
  unfolding cmd_globops_def by (intro kepts) simp_all

lemma kept_kill_one [kepts]: "kept c d \<Longrightarrow> kept c (kill_one r t d)"
  unfolding kill_one_def by (intro kepts) (simp_all add: kill_remote_def)

lemma kept_cmd_kill [kepts]: "kept c d \<Longrightarrow> kept c (cmd_kill ps d)"
  unfolding cmd_kill_def by (intro kepts) simp_all

lemma safe_bans [simp]:
  "safe s (add_kline m r b s)" "safe s (snd (remove_kline m s))" "safe s (add_dline m r b s)" "safe s (snd (remove_dline m s))"
  "safe s (s\<lparr>server_bans := bs\<rparr>)" "safe s (clear_link_admin_down n s)"
  by (simp_all add: add_kline_def remove_kline_def add_dline_def remove_dline_def clear_link_admin_down_def Let_def safe_cong)

lemma kept_cmd_kline [kepts]: "kept c d \<Longrightarrow> kept c (cmd_kline ps d)"
  unfolding cmd_kline_def kill_matching_def Let_def split_beta by (intro kepts) simp_all

lemma kept_cmd_unkline [kepts]: "kept c d \<Longrightarrow> kept c (cmd_unkline ps d)"
  unfolding cmd_unkline_def Let_def split_beta by (intro kepts) simp_all

lemma kept_cmd_gline [kepts]: "kept c d \<Longrightarrow> kept c (cmd_gline ps d)"
  unfolding cmd_gline_def kill_matching_def Let_def split_beta by (intro kepts) simp_all

lemma kept_cmd_ungline [kepts]: "kept c d \<Longrightarrow> kept c (cmd_ungline ps d)"
  unfolding cmd_ungline_def Let_def split_beta by (intro kepts) simp_all

lemma kept_cmd_dline [kepts]: "kept c d \<Longrightarrow> kept c (cmd_dline ps d)"
  unfolding cmd_dline_def kill_matching_ip_def Let_def split_beta by (intro kepts) simp_all

lemma kept_cmd_undline [kepts]: "kept c d \<Longrightarrow> kept c (cmd_undline ps d)"
  unfolding cmd_undline_def Let_def split_beta by (intro kepts) simp_all

lemma quiet_chghost_announce [simp]: "quiet s (chghost_announce i d e s)"
proof -
  have "quiet s (snd (fold (propagate_channel i e k) fs ([i], if b then to_client i e s else s)))" for k fs b
    by (rule quiet_trans [OF _ quiet_propagate_event]) simp
  then show ?thesis
    unfolding chghost_announce_def Let_def split_beta by (rule quiet_trans) (rule quiet_extended_monitors)
qed

lemma kept_cmd_chghost [kepts]: "kept c d \<Longrightarrow> kept c (cmd_chghost ps d)"
  unfolding cmd_chghost_def by (intro kepts) (simp_all add: safe_quiet safe_upd_client_data)

lemma safe_squit_link [simp]: "safe s (snd (squit_link t r s))"
  by (simp add: squit_link_def safe_cong split: option.split)

lemma kept_cmd_squit [kepts]: "kept c d \<Longrightarrow> kept c (cmd_squit ps d)"
  unfolding cmd_squit_def Let_def split_beta by (intro kepts) simp_all

lemma safe_apply_config: "apply_config cfg (au, s) = (r, au', t) \<Longrightarrow> safe s t"
  by (auto simp: apply_config_def Let_def split: prod.splits sum.splits)

lemma kept_both: "kept c d \<Longrightarrow> safe (cn_server d) s \<Longrightarrow> kept c (d\<lparr>cn_auth := a, cn_server := s\<rparr>)"
  using kept_set_server [OF kept_set_auth] by simp

lemma kept_rehash: "kept c d \<Longrightarrow> kept c (snd (snd (rehash rt d)))"
  by (auto simp: rehash_def Let_def split: option.split sum.split prod.split intro!: kept_both dest: safe_apply_config)

lemma kept_runtime_commands [kepts]:
  assumes "kept c (snd st)"
  shows "kept c (snd (cmd_rehash st))" "kept c (snd (cmd_connect ps st))" "kept c (snd (cmd_die st))"
proof -
  show "kept c (snd (cmd_rehash st))"
    unfolding cmd_rehash_def using assms by (intro kept_with_runtime) (auto simp: Let_def split_beta intro!: kept.cases kept_replies kept_rehash)
  show "kept c (snd (cmd_connect ps st))"
    unfolding cmd_connect_def using assms
    by (intro kept_with_runtime) (auto simp: kept_replies kept_upd_srv split: list.split option.split)
  show "kept c (snd (cmd_die st))"
    unfolding cmd_die_def using assms by (intro kept_with_runtime) (auto simp: kept_upd_srv)
qed

subsection \<open>Bans take effect\<close>

lemma request_kill_idem [simp]: "request_kill r (request_kill q e) = request_kill q e"
  by (simp add: request_kill_def signal_kill_def split: option.split)

lemma kill_clients_entries:
  assumes P: "\<And>r e. P (request_kill r e) = P e"
  shows "entries (snd (kill_clients P reason s)) i =
    (if i \<in> snd ` set (clients s) \<and> P (entries s i) then request_kill reason (entries s i) else entries s i)"
proof -
  have "entries (snd (fold (\<lambda>(_, i) (count, s). if P (entries s i) then (count + 1, upd_client i (request_kill reason) s) else (count, s)) cs (n, s))) i =
      (if i \<in> snd ` set cs \<and> P (entries s i) then request_kill reason (entries s i) else entries s i)" for cs :: "(string \<times> nat) list" and n :: nat and s
    by (induction cs arbitrary: n s) (auto simp: upd_client_def P dest: image_eqI [of _ snd "(_, i)" for i, OF snd_conv [symmetric]])
  then show ?thesis by (simp add: kill_clients_def)
qed

lemma find_snoc: "find P (xs @ [x]) = (case find P xs of Some y \<Rightarrow> Some y | None \<Rightarrow> if P x then Some x else None)"
  by (induction xs) auto

lemma matches_kline_snoc:
  "server_bans t = server_bans s @ [b] \<Longrightarrow> matches_kline t hm =
     (case matches_kline s hm of Some r \<Rightarrow> Some r | None \<Rightarrow> if matches (sb_mask b) hm then Some (sb_reason b) else None)"
  by (auto simp: matches_kline_def find_snoc split: option.split)

text \<open>C18: a K-line is complete. After an operator's \<open>KLINE\<close>, every client of the server whose real host mask matches is told
  to go, and no other client is touched (the operator apart, who is answered); of the host masks that were not banned before, the
  ones refused at registration are exactly those that match; the list of the members of channels and all other registries are
  as they were; and \<open>UNKLINE\<close> with the same mask takes back every ban of that mask and no other.\<close>

theorem kline_exact:
  assumes "cd_oper (my_data c)" "msk = normalize_ban_mask m" "s = cn_server c" "t = cn_server (cmd_kline [m, reason] c)" "i \<noteq> my_id c"
  shows "entries t i = (if i \<in> snd ` set (clients s) \<and> matches msk (real_hostmask (entries s i))
      then request_kill (''K-Lined: '' @ reason) (entries s i) else entries s i)
    \<and> matches_kline t hm = (case matches_kline s hm of Some r \<Rightarrow> Some r | None \<Rightarrow> if matches msk hm then Some reason else None)
    \<and> quiet (s\<lparr>server_bans := server_bans t\<rparr>) t
    \<and> server_bans (cn_server (cmd_unkline [m] (cmd_kline [m, reason] c))) = filter (\<lambda>b. sb_mask b \<noteq> msk) (server_bans s)"
proof -
  define b where "b = \<lparr>sb_mask = msk, sb_reason = reason, sb_set_by = my_nick c, sb_set_at = now_unix s\<rparr>"
  define u where "u = s\<lparr>server_bans := server_bans s @ [b]\<rparr>"
  define v where "v = snd (kill_matching msk (''K-Lined: '' @ reason) u)"
  define x where "x = ''Added K-Line for '' @ msk @ '' ('' @ dec (fst (kill_matching msk (''K-Lined: '' @ reason) u)) @ '' user(s) affected)''"
  have d: "cmd_kline [m, reason] c = notice x (c\<lparr>cn_server := v\<rparr>)"
    using assms(1-3) by (simp add: cmd_kline_def opers_only_def require_oper_def nth_or_def Let_def split_beta upd_srv_def
      add_kline_def b_def u_def v_def x_def)
  have h: "hush (c\<lparr>cn_server := v\<rparr>) (notice x (c\<lparr>cn_server := v\<rparr>))" by (rule hushing.replies(5)) simp
  have uv: "quiet u v" by (simp add: v_def kill_matching_def)
  have ut: "quiet u t" using quiet_trans [OF uv] hush_fields(1) [OF h] assms(4) d by simp
  have bans: "server_bans t = server_bans s @ [b]" using quiet_fields(10) [OF ut] by (simp add: u_def)
  have "entries t i = entries v i" using assms(4,5) d emit_others(1) [of i "c\<lparr>cn_server := v\<rparr>"] by (simp add: my_id_def notice_def send_to_me_def)
  also have "\<dots> = (if i \<in> snd ` set (clients u) \<and> matches msk (real_hostmask (entries u i))
      then request_kill (''K-Lined: '' @ reason) (entries u i) else entries u i)"
    unfolding v_def kill_matching_def
    by (rule kill_clients_entries) (simp add: real_hostmask_def request_kill_def signal_kill_def)
  finally have e: "entries t i = (if i \<in> snd ` set (clients s) \<and> matches msk (real_hostmask (entries s i))
      then request_kill (''K-Lined: '' @ reason) (entries s i) else entries s i)" by (simp add: u_def)
  have fs: "cd_oper (my_data (cmd_kline [m, reason] c))"
    using assms(1) quiet_fields(23) [OF ut, of "my_id c"] hush_fields(3) [OF h] assms(3,4)
    by (simp add: my_data_def my_entry_def d u_def my_id_def)
  then have "server_bans (cn_server (cmd_unkline [m] (cmd_kline [m, reason] c))) = filter (\<lambda>b. sb_mask b \<noteq> msk) (server_bans t)"
    using hush_fields(1) [OF hushing.replies(5) [OF hush.frame_refl], THEN quiet_fields(10)] assms(2,4)
    by (simp add: cmd_unkline_def opers_only_def require_oper_def Let_def split_beta remove_kline_def)
  moreover have "sb_mask b = msk" "sb_reason b = reason" by (simp_all add: b_def)
  ultimately show ?thesis
    using e matches_kline_snoc [OF bans] ut bans unfolding u_def by (simp split: option.split)
qed

definition demo_oper :: conn where
  "demo_oper = upd_srv (upd_client_data 1 (\<lambda>d. d\<lparr>cd_oper := True\<rparr>)) demo_chat"

theorem kline_exact_witness:
  "matches_kline (cn_server (cmd_kline [''bad'', ''spam''] demo_oper)) ''bad!u@h'' = Some ''spam''
   \<and> ce_kill (entries (cn_server (cmd_kline [''bad'', ''spam''] demo_oper)) 2) = ce_kill (entries (cn_server demo_oper) 2)"
proof -
  have fs: "cd_oper (my_data demo_oper)" "my_id demo_oper = 1" "server_bans (cn_server demo_oper) = []" "clients (cn_server demo_oper) = [(''amy'', 1)]"
    using demo_chat_fields(1)
    by (simp_all add: demo_oper_def my_data_def my_entry_def upd_client_data_def upd_client_def my_id_def demo_chat_def demo_joiner_def
      demo_member_def Services.demo_server_def server_new_def upd_chan_def)
  have "matches (normalize_ban_mask ''bad'') ''bad!u@h''" by code_simp
  then show ?thesis
    using kline_exact [OF fs(1) refl refl refl, where i = 2 and m = "''bad''" and reason = "''spam''" and hm = "''bad!u@h''"] fs(2-4) by (simp add: matches_kline_def)
qed

end
