(* ===== verification/Queries.thy ===== *)
theory Queries
  imports Operators
begin

text \<open>
  The commands that ask (\<open>ferrixd/src/command.rs\<close>): who is on the network and on which channels, the list of channels,
  the servers of the network and how to use the server. Where the source walks a hash map, the model walks the table
  in its own order.
\<close>

definition split_once :: "char \<Rightarrow> string \<Rightarrow> (string \<times> string) option" where
  "split_once ch s = (if ch \<in> set s then Some (takeWhile (\<lambda>x. x \<noteq> ch) s, tl (dropWhile (\<lambda>x. x \<noteq> ch) s)) else None)"

subsection \<open>WHO\<close>

record whox_request =
  wx_fields :: string
  wx_querytype :: "string option"

record who_row =
  wr_nick :: string
  wr_user :: string
  wr_host :: string
  wr_ip :: "string option"
  wr_server :: string
  wr_realname :: string
  wr_away :: bool
  wr_oper :: bool
  wr_bot :: bool
  wr_account :: "string option"
  wr_idle :: nat
  wr_hops :: nat
  wr_prefix :: member_prefix

definition who_flags :: "who_row \<Rightarrow> bool \<Rightarrow> string" where
  "who_flags row multi =
     (if wr_away row then ''G'' else ''H'') @ (if wr_oper row then ''*'' else []) @ (if wr_bot row then BOT_UMODE else [])
     @ prefix_render (wr_prefix row) multi"

definition parse_whox :: "string \<Rightarrow> whox_request option" where
  "parse_whox flags =
     (case split_once CHR ''%'' flags of
        None \<Rightarrow> None
      | Some (_, spec) \<Rightarrow>
          (case split_once CHR '','' spec of
             Some (f, q) \<Rightarrow> Some \<lparr>wx_fields = f, wx_querytype = Some q\<rparr>
           | None \<Rightarrow> Some \<lparr>wx_fields = spec, wx_querytype = None\<rparr>))"

definition who_row_local :: "nat \<Rightarrow> member_prefix \<Rightarrow> conn \<Rightarrow> who_row" where
  "who_row_local i p c =
     (let d = ce_data (entries (cn_server c) i); can_see_ip = cd_oper (my_data c) \<or> i = my_id c
      in \<lparr>wr_nick = cd_nick d, wr_user = cd_user d, wr_host = cd_host d, wr_ip = (if can_see_ip then Some (cd_real_ip d) else None),
          wr_server = server_name c, wr_realname = cd_realname d, wr_away = cd_away d \<noteq> None, wr_oper = cd_oper d, wr_bot = cd_bot d,
          wr_account = cd_account d, wr_idle = now_unix (cn_server c) - cd_last_active d, wr_hops = 0, wr_prefix = p\<rparr>)"

definition who_row_remote :: "remote_user \<Rightarrow> member_prefix \<Rightarrow> who_row" where
  "who_row_remote u p =
     \<lparr>wr_nick = ru_nick u, wr_user = ru_user u, wr_host = ru_host u, wr_ip = None, wr_server = ru_server_sid u,
      wr_realname = ru_realname u, wr_away = ru_away u \<noteq> None, wr_oper = False, wr_bot = ru_bot u,
      wr_account = ru_account u, wr_idle = 0, wr_hops = 1, wr_prefix = p\<rparr>"

definition who_reply_x :: "string \<Rightarrow> who_row \<Rightarrow> whox_request \<Rightarrow> conn \<Rightarrow> conn" where
  "who_reply_x channel row req c =
     (let multi = has (my_caps c) MultiPrefix;
          field = (\<lambda>ch v. if ch \<in> set (wx_fields req) then [v] else []);
          fields =
            field CHR ''t'' (case wx_querytype req of Some q \<Rightarrow> q | None \<Rightarrow> ''0'') @ field CHR ''c'' channel
            @ field CHR ''u'' (wr_user row) @ field CHR ''i'' (case wr_ip row of Some ip \<Rightarrow> ip | None \<Rightarrow> ''255.255.255.255'')
            @ field CHR ''h'' (wr_host row) @ field CHR ''s'' (wr_server row) @ field CHR ''n'' (wr_nick row)
            @ field CHR ''f'' (who_flags row multi) @ field CHR ''d'' (dec (wr_hops row)) @ field CHR ''l'' (dec (wr_idle row))
            @ field CHR ''a'' (case wr_account row of Some a \<Rightarrow> a | None \<Rightarrow> ''0'')
            @ field CHR ''o'' (if mp_op (wr_prefix row) then ''999'' else ''n/a'')
      in numeric RPL_WHOSPCRPL fields (if CHR ''r'' \<in> set (wx_fields req) then Some (wr_realname row) else None) c)"

definition who_reply :: "string \<Rightarrow> who_row \<Rightarrow> conn \<Rightarrow> conn" where
  "who_reply channel row c =
     numeric RPL_WHOREPLY
       [channel, wr_user row, wr_host row, wr_server row, wr_nick row, who_flags row (has (my_caps c) MultiPrefix)]
       (Some (dec (wr_hops row) @ '' '' @ wr_realname row)) c"

text \<open>One row of the answer: \<open>second\<close> is the second parameter of the command.\<close>

definition who_answer :: "string \<Rightarrow> string \<Rightarrow> who_row \<Rightarrow> conn \<Rightarrow> conn" where
  "who_answer second channel row c =
     (if CHR ''o'' \<in> set (takeWhile (\<lambda>x. x \<noteq> CHR ''%'') second) \<and> \<not> wr_oper row then c
      else (case parse_whox second of Some req \<Rightarrow> who_reply_x channel row req c | None \<Rightarrow> who_reply channel row c))"

definition who_channel :: "string \<Rightarrow> nat \<Rightarrow> conn \<Rightarrow> conn" where
  "who_channel second h c =
     (let s = cn_server c; display = ch_name (cdata s h);
          c = fold (\<lambda>(i, p) c. who_answer second display (who_row_local i p c) c) (member_snapshot s h) c
      in fold (\<lambda>m c. case find_remote_user s (fold_key s (rm_nick m)) of
                       Some u \<Rightarrow> who_answer second display (who_row_remote u (rm_prefix m)) c
                     | None \<Rightarrow> c) (remote_member_snapshot s h) c)"

definition who_exact :: "string \<Rightarrow> string \<Rightarrow> conn \<Rightarrow> conn" where
  "who_exact second target c =
     (case find_client (cn_server c) (fold_c c target) of
        Some i \<Rightarrow> who_answer second ''*'' (who_row_local i prefix_default c) c
      | None \<Rightarrow>
          (case find_remote_user (cn_server c) (fold_c c target) of
             Some u \<Rightarrow> who_answer second ''*'' (who_row_remote u prefix_default) c
           | None \<Rightarrow> c))"

definition who_matches :: "string \<Rightarrow> string list \<Rightarrow> bool" where
  "who_matches msk names = list_ex (matches msk) names"

text \<open>A local client is shown in the answer to a mask when it is registered, matches, and is not hidden.\<close>

definition who_visible :: "string \<Rightarrow> conn \<Rightarrow> nat \<Rightarrow> bool" where
  "who_visible msk c i \<longleftrightarrow>
     (let d = ce_data (entries (cn_server c) i); me = my_data c
      in cd_registered d \<and> who_matches msk [cd_nick d, cd_user d, cd_host d, cd_realname d]
         \<and> (\<not> cd_invisible d \<or> cd_oper me \<or> i = my_id c \<or> list_ex (\<lambda>f. f \<in> set (cd_channels me)) (cd_channels d)))"

definition who_mask :: "string \<Rightarrow> string \<Rightarrow> conn \<Rightarrow> conn" where
  "who_mask second msk c =
     (let s = cn_server c;
          c = fold (\<lambda>(_, i) c. if who_visible msk c i then who_answer second ''*'' (who_row_local i prefix_default c) c else c) (clients s) c
      in fold (\<lambda>(_, u) c. if who_matches msk [ru_nick u, ru_user u, ru_host u, ru_realname u]
                           then who_answer second ''*'' (who_row_remote u prefix_default) c else c) (remote_users s) c)"

definition cmd_who :: "string list \<Rightarrow> conn \<Rightarrow> conn" where
  "cmd_who params c =
     (let target = nth_or params 0 ''0''; second = nth_or params 1 [];
          c = (if is_valid_channel target
               then (case find_channel (cn_server c) (fold_c c target) of
                       Some h \<Rightarrow> if may_list_channel h c then who_channel second h c else c
                     | None \<Rightarrow> c)
               else if CHR ''*'' \<notin> set target \<and> CHR ''?'' \<notin> set target \<and> target \<noteq> ''0'' then who_exact second target c
               else who_mask second (if target = ''0'' then ''*'' else target) c)
      in numeric RPL_ENDOFWHO [target] (Some ''End of /WHO list'') c)"

subsection \<open>WHOIS\<close>

definition tell_if :: "bool \<Rightarrow> (conn \<Rightarrow> conn) \<Rightarrow> conn \<Rightarrow> conn" where
  "tell_if b f c = (if b then f c else c)"

definition tell_some :: "'a option \<Rightarrow> ('a \<Rightarrow> conn \<Rightarrow> conn) \<Rightarrow> conn \<Rightarrow> conn" where
  "tell_some x f c = (case x of Some v \<Rightarrow> f v c | None \<Rightarrow> c)"

definition whois_remote :: "remote_user \<Rightarrow> conn \<Rightarrow> conn" where
  "whois_remote u c =
     (let nick = ru_nick u;
          c = numeric RPL_WHOISUSER [nick, ru_user u, ru_host u, ''*''] (Some (ru_realname u)) c;
          c = tell_if (ru_bot u) (numeric RPL_WHOISBOT [nick] (Some ''is a bot'')) c;
          c = numeric RPL_WHOISSERVER [nick, ru_server_sid u] (Some ''remote server'') c;
          c = tell_some (ru_account u) (\<lambda>account. numeric RPL_WHOISACCOUNT [nick, account] (Some ''is logged in as'')) c;
          c = tell_if (ru_oper u) (numeric RPL_WHOISOPERATOR [nick] (Some ''is an IRC operator'')) c;
          c = tell_some (ru_away u) (\<lambda>away. numeric RPL_AWAY [nick] (Some away)) c
      in numeric RPL_ENDOFWHOIS [nick] (Some ''End of /WHOIS list'') c)"

definition whois_channels :: "nat \<Rightarrow> client_data \<Rightarrow> conn \<Rightarrow> string list" where
  "whois_channels i d c =
     List.map_filter (\<lambda>folded.
       case find_channel (cn_server c) folded of
         None \<Rightarrow> None
       | Some h \<Rightarrow>
           (let cd = cdata (cn_server c) h
            in if secret (ch_modes cd) \<and> i \<noteq> my_id c \<and> \<not> cd_oper (my_data c) \<and> \<not> has_member cd (my_id c) then None
               else map_option (\<lambda>p. prefix_symbol p @ ch_name cd) (get (ch_members cd) i))) (cd_channels d)"

definition whois_local :: "nat \<Rightarrow> conn \<Rightarrow> conn" where
  "whois_local i c =
     (let d = ce_data (entries (cn_server c) i); nick = cd_nick d; chanlist = whois_channels i d c; now = now_unix (cn_server c);
          srv = info (cn_server c); requester_oper = cd_oper (my_data c); is_self = (i = my_id c);
          c = numeric RPL_WHOISUSER [nick, cd_user d, cd_host d, ''*''] (Some (cd_realname d)) c;
          c = tell_if (cd_bot d) (numeric RPL_WHOISBOT [nick] (Some ''is a bot'')) c;
          c = tell_if (requester_oper \<or> is_self)
            (numeric RPL_WHOISACTUALLY [nick, cd_user d @ ''@'' @ cd_real_ip d, cd_real_ip d] (Some ''Is actually using host'')) c;
          c = tell_if (chanlist \<noteq> []) (numeric RPL_WHOISCHANNELS [nick] (Some (join '' '' chanlist))) c;
          c = numeric RPL_WHOISSERVER [nick, si_name srv] (Some (si_version srv)) c;
          c = tell_if (cd_oper d) (numeric RPL_WHOISOPERATOR [nick] (Some ''is an IRC operator'')) c;
          c = tell_if (cd_secure d) (numeric RPL_WHOISSECURE [nick] (Some ''is using a secure connection'')) c;
          c = numeric RPL_WHOISIDLE [nick, dec (now - cd_last_active d), dec (cd_connected_at d)] (Some ''seconds idle, signon time'') c;
          c = tell_some (cd_account d) (\<lambda>account. numeric RPL_WHOISACCOUNT [nick, account] (Some ''is logged in as'')) c;
          c = tell_some (cd_away d) (\<lambda>away. numeric RPL_AWAY [nick] (Some away)) c
      in numeric RPL_ENDOFWHOIS [nick] (Some ''End of /WHOIS list'') c)"

definition whois_one :: "string \<Rightarrow> conn \<Rightarrow> conn" where
  "whois_one target c =
     (case find_client (cn_server c) (fold_c c target) of
        Some i \<Rightarrow> whois_local i c
      | None \<Rightarrow>
          (case find_remote_user (cn_server c) (fold_c c target) of
             Some u \<Rightarrow> whois_remote u c
           | None \<Rightarrow>
               numeric RPL_ENDOFWHOIS [target] (Some ''End of /WHOIS list'')
                 (numeric ERR_NOSUCHNICK [target] (Some ''No such nick/channel'') c)))"

definition cmd_whois :: "string list \<Rightarrow> conn \<Rightarrow> conn" where
  "cmd_whois params c =
     (if params = [] then numeric ERR_NONICKNAMEGIVEN [] (Some ''No nickname given'') c
      else fold whois_one (filter (\<lambda>n. n \<noteq> []) (split_on CHR '','' (last params))) c)"

definition cmd_whowas :: "string list \<Rightarrow> conn \<Rightarrow> conn" where
  "cmd_whowas params c =
     (case params of
        [] \<Rightarrow> numeric ERR_NONICKNAMEGIVEN [] (Some ''No nickname given'') c
      | target # rest \<Rightarrow>
          (let asked = (case rest of [] \<Rightarrow> None | n # _ \<Rightarrow> parse_u64 n);
               limit = min 10 (case asked of Some n \<Rightarrow> if 0 < n then n else 10 | None \<Rightarrow> 10);
               found = whowas_lookup (cn_server c) (fold_c c target) limit;
               c = tell_if (found = []) (numeric ERR_WASNOSUCHNICK [target] (Some ''There was no such nickname'')) c;
               c = fold (\<lambda>e c.
                     numeric RPL_WHOISSERVER [ww_nick e, server_name c] (Some (format_datetime (ww_departed_at e)))
                       (numeric RPL_WHOWASUSER [ww_nick e, ww_user e, ww_host e, ''*''] (Some (ww_realname e)) c)) found c
           in numeric RPL_ENDOFWHOWAS [target] (Some ''End of WHOWAS'') c))"

definition userhost_of :: "conn \<Rightarrow> string \<Rightarrow> string option" where
  "userhost_of c nick =
     map_option (\<lambda>i. let d = ce_data (entries (cn_server c) i)
         in cd_nick d @ (if cd_oper d then ''*'' else []) @ ''='' @ (if cd_away d \<noteq> None then ''-'' else ''+'') @ cd_user d @ ''@'' @ cd_host d)
       (find_client (cn_server c) (fold_c c nick))"

definition cmd_userhost :: "string list \<Rightarrow> conn \<Rightarrow> conn" where
  "cmd_userhost params c =
     (if params = [] then need_more_params ''USERHOST'' c
      else numeric RPL_USERHOST [] (Some (join '' '' (List.map_filter (userhost_of c) (take 5 params)))) c)"

definition ison_of :: "conn \<Rightarrow> string \<Rightarrow> string option" where
  "ison_of c nick =
     (case find_client (cn_server c) (fold_c c nick) of
        Some i \<Rightarrow> Some (entry_nick (entries (cn_server c) i))
      | None \<Rightarrow> map_option ru_nick (find_remote_user (cn_server c) (fold_c c nick)))"

definition cmd_ison :: "string list \<Rightarrow> conn \<Rightarrow> conn" where
  "cmd_ison params c =
     (if params = [] then need_more_params ''ISON'' c
      else numeric RPL_ISON [] (Some (join '' '' (List.map_filter (ison_of c) params))) c)"

subsection \<open>LIST\<close>

datatype list_filter =
  MinUsers nat | MaxUsers nat | CreatedWithin nat | CreatedBefore nat | TopicWithin nat | TopicBefore nat
  | NameMask string | NotMask string

text \<open>The comparators take machine words; a number that does not fit is no comparator, and the token a mask.\<close>

definition parse_list_filter :: "string \<Rightarrow> list_filter" where
  "parse_list_filter token =
     (let num = (\<lambda>k n. map_option k (parse_u64 n));
          aged = (\<lambda>young old rest.
            case rest of
              [] \<Rightarrow> None
            | ch # n \<Rightarrow> if ch = CHR ''<'' then num young n else if ch = CHR ''>'' then num old n else None);
          parsed =
            (case token of
               [] \<Rightarrow> None
             | ch # rest \<Rightarrow>
                 if ch = CHR ''>'' then num MinUsers rest
                 else if ch = CHR ''<'' then num MaxUsers rest
                 else if ch = CHR ''!'' then (if rest \<noteq> [] then Some (NotMask rest) else None)
                 else if ch = CHR ''C'' \<or> ch = CHR ''c'' then aged CreatedWithin CreatedBefore rest
                 else if ch = CHR ''T'' \<or> ch = CHR ''t'' then aged TopicWithin TopicBefore rest
                 else None)
      in case parsed of Some f \<Rightarrow> f | None \<Rightarrow> NameMask token)"

definition saturating_secs :: "nat \<Rightarrow> nat" where
  "saturating_secs mins = min (mins * 60) (2 ^ 64 - 1)"

definition list_count :: "channel_data \<Rightarrow> nat" where
  "list_count d = length (ch_members d) + length (ch_remote_members d)"

definition list_accepts :: "nat \<Rightarrow> channel_data \<Rightarrow> list_filter \<Rightarrow> bool" where
  "list_accepts now d f =
     (case f of
        MinUsers n \<Rightarrow> n < list_count d
      | MaxUsers n \<Rightarrow> list_count d < n
      | CreatedWithin mins \<Rightarrow> now - ch_created_at d < saturating_secs mins
      | CreatedBefore mins \<Rightarrow> saturating_secs mins < now - ch_created_at d
      | TopicWithin mins \<Rightarrow> (case ch_topic d of Some t \<Rightarrow> now - topic_set_at t < saturating_secs mins | None \<Rightarrow> False)
      | TopicBefore mins \<Rightarrow> (case ch_topic d of Some t \<Rightarrow> saturating_secs mins < now - topic_set_at t | None \<Rightarrow> False)
      | NameMask msk \<Rightarrow> matches msk (ch_name d)
      | NotMask msk \<Rightarrow> \<not> matches msk (ch_name d))"

definition list_one :: "list_filter list \<Rightarrow> nat \<Rightarrow> conn \<Rightarrow> conn" where
  "list_one filters h c =
     (let d = cdata (cn_server c) h
      in if secret (ch_modes d) \<and> \<not> has_member d (my_id c) then c
         else if \<not> list_all (list_accepts (now_unix (cn_server c)) d) filters then c
         else numeric RPL_LIST [ch_name d, dec (list_count d)] (Some (case ch_topic d of Some t \<Rightarrow> topic_text t | None \<Rightarrow> [])) c)"

definition cmd_list :: "string list \<Rightarrow> conn \<Rightarrow> conn" where
  "cmd_list params c =
     (let c = numeric RPL_LISTSTART [''Channel''] (Some ''Users  Name'') c;
          filters = (case params of
                       [] \<Rightarrow> []
                     | tokens # _ \<Rightarrow> map parse_list_filter (filter (\<lambda>t. t \<noteq> []) (split_on CHR '','' tokens)));
          c = fold (list_one filters) (map snd (channels (cn_server c))) c
      in numeric RPL_LISTEND [] (Some ''End of /LIST'') c)"

subsection \<open>The server and its network\<close>

definition cmd_version :: "conn \<Rightarrow> conn" where
  "cmd_version c =
     (let i = info (cn_server c)
      in send_isupport (numeric RPL_VERSION [si_version i @ '' '' @ si_name i]
           (Some (''ferrixd '' @ DASH @ '' a memory-safe, IRCv3 IRC daemon in Rust'')) c))"

definition cmd_time :: "conn \<Rightarrow> conn" where
  "cmd_time c = numeric RPL_TIME [server_name c] (Some (format_datetime (now_unix (cn_server c)))) c"

definition cmd_admin :: "conn \<Rightarrow> conn" where
  "cmd_admin c =
     (let i = info (cn_server c);
          c = numeric RPL_ADMINME [si_name i] (Some ''Administrative info about this server'') c;
          c = numeric RPL_ADMINLOC1 [] (Some (''Network: '' @ si_network i)) c;
          c = numeric RPL_ADMINLOC2 [] (Some (''Server: '' @ si_name i)) c
      in numeric RPL_ADMINEMAIL [] (Some ''Contact your network's operators'') c)"

definition cmd_info :: "conn \<Rightarrow> conn" where
  "cmd_info c =
     numeric RPL_ENDOFINFO [] (Some ''End of /INFO list'')
       (fold (\<lambda>l. numeric RPL_INFO [] (Some l))
         [si_version (info (cn_server c)) @ '' '' @ DASH @ '' the Ferrous IRC Daemon'',
          ''A from-scratch, memory-safe, IRCv3-complete IRC server in Rust.'',
          ''Zero unsafe code; TLS-first; horizontally shardable.''] c)"

text \<open>How far a server is: the walk up the tree, which the source breaks off after one step more than there are
  servers.\<close>

primrec hops :: "nat \<Rightarrow> (string, string) table \<Rightarrow> string \<Rightarrow> nat" where
  "hops 0 ups sid = 0"
| "hops (Suc n) ups sid = (case get ups sid of None \<Rightarrow> 0 | Some up \<Rightarrow> 1 + hops n ups up)"

definition server_names :: "server \<Rightarrow> (string, string) table" where
  "server_names s =
     fold (\<lambda>r. put (rs_sid r) (rs_name r)) (remote_servers_snapshot s)
       (fold (\<lambda>(_, l). put (lh_sid l) (lh_name l)) (links s) (put (si_sid (info s)) (si_name (info s)) []))"

definition server_uplinks :: "server \<Rightarrow> (string, string) table" where
  "server_uplinks s =
     fold (\<lambda>r. put (rs_sid r) (rs_uplink r)) (remote_servers_snapshot s)
       (fold (\<lambda>(_, l). put (lh_sid l) (si_sid (info s))) (links s) [])"

definition cmd_links :: "conn \<Rightarrow> conn" where
  "cmd_links c =
     (let s = cn_server c; our_name = si_name (info s); names = server_names s; ups = server_uplinks s;
          c = numeric RPL_LINKS [our_name, our_name] (Some (''0 '' @ si_network (info s))) c;
          c = fold (\<lambda>(_, l). numeric RPL_LINKS [lh_name l, our_name] (Some (''1 '' @ lh_description l))) (links s) c;
          c = fold (\<lambda>r. numeric RPL_LINKS [rs_name r, case get names (rs_uplink r) of Some n \<Rightarrow> n | None \<Rightarrow> []]
                (Some (dec (hops (length ups + 1) ups (rs_sid r)) @ '' '' @ rs_description r))) (remote_servers_snapshot s) c
      in numeric RPL_ENDOFLINKS [''*''] (Some ''End of /LINKS list'') c)"

text \<open>The tree is walked from this server outwards. The step over the children of one server stops at the caps on lines
  and depth.\<close>

fun map_kids :: "nat \<Rightarrow> (string \<times> string) list \<Rightarrow> nat \<times> (string \<times> nat) list \<times> string list \<Rightarrow> nat \<times> (string \<times> nat) list \<times> string list" where
  "map_kids depth [] st = st"
| "map_kids depth ((sid, name) # kids) (emitted, stack, out) =
     (if 256 < emitted + 1 \<or> 32 < depth then (emitted + 1, stack, out)
      else map_kids depth kids (emitted + 1, (sid, depth + 1) # stack, out @ [concat (replicate (depth + 1) ''  '') @ [CHR 0x60] @ ''- '' @ name]))"

lemma map_kids_measure:
  "map_kids depth kids (emitted, stack, out) = (emitted', stack', out') \<Longrightarrow>
     (257 - emitted') + length stack' \<le> (257 - emitted) + length stack"
  by (induction depth kids "(emitted, stack, out)" arbitrary: emitted stack out rule: map_kids.induct) (fastforce split: if_splits)+

function map_walk :: "(string, (string \<times> string) list) table \<Rightarrow> nat \<times> (string \<times> nat) list \<times> string list \<Rightarrow> string list" where
  "map_walk children (emitted, [], out) = out"
| "map_walk children (emitted, (sid, depth) # stack, out) =
     (case get children sid of
        None \<Rightarrow> map_walk children (emitted, stack, out)
      | Some kids \<Rightarrow> map_walk children (map_kids depth (rev kids) (emitted, stack, out)))"
  by pat_completeness auto
termination
proof (relation "measure (\<lambda>(_, emitted, stack, out). (257 - emitted) + length stack)", simp_all, goal_cases)
  case (1 children emitted sid depth stack out kids)
  then show ?case using map_kids_measure by (fastforce simp: le_imp_less_Suc split: prod.split)
qed

definition add_child :: "string \<Rightarrow> string \<times> string \<Rightarrow> (string, (string \<times> string) list) table \<Rightarrow> (string, (string \<times> string) list) table" where
  "add_child up kid m = put up ((case get m up of Some ks \<Rightarrow> ks | None \<Rightarrow> []) @ [kid]) m"

definition map_children :: "server \<Rightarrow> (string, (string \<times> string) list) table" where
  "map_children s =
     fold (\<lambda>r. add_child (rs_uplink r) (rs_sid r, rs_name r)) (remote_servers_snapshot s)
       (fold (\<lambda>(_, l). add_child (si_sid (info s)) (lh_sid l, lh_name l)) (links s) [])"

definition cmd_map :: "conn \<Rightarrow> conn" where
  "cmd_map c =
     (let s = cn_server c;
          c = numeric RPL_MAP [] (Some (si_name (info s) @ '' ['' @ dec (client_count s) @ '' users]'')) c;
          c = fold (\<lambda>l. numeric RPL_MAP [] (Some l)) (map_walk (map_children s) (0, [(si_sid (info s), 0)], [])) c
      in numeric RPL_MAPEND [] (Some ''End of /MAP'') c)"

subsection \<open>Help and statistics\<close>

definition help_topics_first :: "(string \<times> string list) list" where
  "help_topics_first =
     [(''CAP'', [''CAP LS|REQ|END [args]'', ''IRCv3 capability negotiation.'']),
      (''AUTHENTICATE'', [''AUTHENTICATE <mechanism|payload>'', ''SASL login (PLAIN, EXTERNAL, SCRAM-SHA-256).'']),
      (''PASS'', [''PASS <password>'', ''Connection password (before registration).'']),
      (''NICK'', [''NICK <nickname>'', ''Set or change your nickname.'']),
      (''USER'', [''USER <user> 0 * :<realname>'', ''Complete registration.'']),
      (''PING'', [''PING <token>'', ''Keepalive; the server replies with PONG.'']),
      (''QUIT'', [''QUIT [:<reason>]'', ''Disconnect from the server.'']),
      (''JOIN'', [''JOIN <#chan>[,<#chan>] [key[,key]]'', ''Join one or more channels.'']),
      (''PART'', [''PART <#chan>[,<#chan>] [:<reason>]'', ''Leave one or more channels.'']),
      (''PRIVMSG'', [''PRIVMSG <target>[,<target>] :<text>'', ''Send a message to a user or channel.'']),
      (''NOTICE'', [''NOTICE <target> :<text>'', ''Send a notice (never auto-replied).'']),
      (''TAGMSG'', [''TAGMSG <target>'', ''Send a tags-only message (message-tags).'']),
      (''NAMES'', [''NAMES <#chan>'', ''List the members of a channel.'']),
      (''WHO'', [''WHO <mask> [flags[%fields]]'', ''List users matching a mask (WHOX supported).'']),
      (''WHOIS'', [''WHOIS <nick>'', ''Details about a user.'']),
      (''WHOWAS'', [''WHOWAS <nick> [count]'', ''Recently-departed identities for a nick.'']),
      (''USERHOST'', [''USERHOST <nick> [nick ...]'', ''Compact user@host info for up to 5 nicks.'']),
      (''ISON'', [''ISON <nick> [nick ...]'', ''Which of the given nicks are online.'']),
      (''TOPIC'', [''TOPIC <#chan> [:<text>]'', ''Show or set a channel topic.'']),
      (''MODE'', [''MODE <target> [modes] [args]'', ''Show or change user/channel modes.'']),
      (''AWAY'', [''AWAY [:<message>]'', ''Set or clear your away status.'']),
      (''SETNAME'', [''SETNAME :<realname>'', ''Change your real name (IRCv3 setname).'']),
      (''KICK'', [''KICK <#chan> <nick> [:<reason>]'', ''Remove a user from a channel.'']),
      (''INVITE'', [''INVITE [<nick> <#chan>]'', ''Invite a user; no arguments lists your invitations.'']),
      (''KNOCK'', [''KNOCK <#chan>'', ''Ask the operators of an invite-only channel for an invite.'']),
      (''MONITOR'', [''MONITOR +|-|C|L|S [targets]'', ''Track when nicks come on/offline.'']),
      (''WATCH'', [''WATCH [+nick|-nick|C|L|S]...'', ''Presence notifications (the legacy spelling of MONITOR).'']),
      (''SILENCE'', [''SILENCE [+mask|-mask]'', ''Personal ignore list: private messages from a mask are dropped.'']),
      (''MAP'', [''MAP'', ''The network as a tree of servers.'']),
      (''MARKREAD'', [''MARKREAD <target> [timestamp=...]'', ''Get or set your read marker (draft/read-marker).''])]"

definition help_topics_second :: "(string \<times> string list) list" where
  "help_topics_second =
     [(''REDACT'', [''REDACT <target> <msgid> [:<reason>]'', ''Delete a sent message from history (draft/message-redaction).'']),
      (''RENAME'', [''RENAME <#old> <#new> [:<reason>]'', ''Rename a channel in place (draft/channel-rename).'']),
      (''LIST'', [''LIST [filters]'', ''List channels (ELIST: >n, <n, C/T comparators, masks).'']),
      (''LUSERS'', [''LUSERS'', ''User / channel / server counts.'']),
      (''MOTD'', [''MOTD'', ''The message of the day.'']),
      (''VERSION'', [''VERSION'', ''Server version and ISUPPORT tokens.'']),
      (''TIME'', [''TIME'', ''Server local time.'']),
      (''ADMIN'', [''ADMIN'', ''Administrative contact info.'']),
      (''INFO'', [''INFO'', ''About this server.'']),
      (''LINKS'', [''LINKS'', ''The servers of this network.'']),
      (''STATS'', [''STATS u|o|k|d'', ''Server statistics (most letters are operator-only).'']),
      (''HELP'', [''HELP [topic]'', ''This help.'']),
      (''BATCH'', [''BATCH +|-<ref> <type>'', ''Client-initiated batches (draft/multiline).'']),
      (''REGISTER'', [''REGISTER <account|#chan> ...'', ''Register an account or channel.'']),
      (''CHATHISTORY'', [''CHATHISTORY <subcmd> <target> ...'', ''Play back message history.'']),
      (''METADATA'', [''METADATA <target> GET|SET|LIST|CLEAR ...'', ''User/channel metadata.'']),
      (''OPER'', [''OPER <name> <password>'', ''Become an IRC operator.'']),
      (''WALLOPS'', [''WALLOPS :<text>'', ''Operator broadcast to +w users.'']),
      (''GLOBOPS'', [''GLOBOPS :<text>'', ''Operator broadcast, marked [GLOBOPS] (oper only).'']),
      (''KILL'', [''KILL <nick>[,<nick>] [:<reason>]'', ''Operator: forcibly disconnect users.'']),
      (''KLINE'', [''KLINE <mask> [:<reason>]'', ''Operator: ban a nick!user@host mask.'']),
      (''UNKLINE'', [''UNKLINE <mask>'', ''Operator: remove a K-Line.'']),
      (''GLINE'', [''GLINE <mask> [:<reason>]'', ''Operator: network-wide ban.'']),
      (''UNGLINE'', [''UNGLINE <mask>'', ''Operator: remove a G-Line.'']),
      (''DLINE'', [''DLINE <ip-mask> [:<reason>]'', ''Operator: ban connections by IP.'']),
      (''UNDLINE'', [''UNDLINE <ip-mask>'', ''Operator: remove a D-Line.'']),
      (''CHGHOST'', [''CHGHOST <nick> <newhost>'', ''Operator: change a user'' @ [CHR 0x27] @ ''s displayed host.'']),
      (''REHASH'', [''REHASH'', ''Operator: reload the configuration.'']),
      (''CONNECT'', [''CONNECT <name>'', ''Operator: link to a configured peer at runtime.'']),
      (''SQUIT'', [''SQUIT <server> [:reason]'', ''Operator: disconnect a directly-linked peer.'']),
      (''DIE'', [''DIE'', ''Operator: shut the server down.''])]"

definition HELP_TOPICS :: "(string \<times> string list) list" where
  "HELP_TOPICS = help_topics_first @ help_topics_second"

definition cmd_help :: "string list \<Rightarrow> conn \<Rightarrow> conn" where
  "cmd_help params c =
     (let subject = map to_ascii_uppercase (nth_or params 0 [])
      in if subject = []
         then
           (let c = numeric RPL_HELPSTART [''*''] (Some ''ferrixd help index'') c;
                c = numeric RPL_HELPTXT [''*''] (Some ''Use HELP <command> for usage. Available commands:'') c;
                c = fold (\<lambda>chunk. numeric RPL_HELPTXT [''*''] (Some (join '' '' chunk))) (chunks 8 (map fst HELP_TOPICS)) c
            in numeric RPL_ENDOFHELP [''*''] (Some ''End of /HELP'') c)
         else
           (case find (\<lambda>(name, _). name = subject) HELP_TOPICS of
              None \<Rightarrow> numeric ERR_HELPNOTFOUND [subject] (Some ''No help available on this topic'') c
            | Some (name, lines) \<Rightarrow>
                (let c = numeric RPL_HELPSTART [name] (Some (hd lines)) c;
                     c = fold (\<lambda>l. numeric RPL_HELPTXT [name] (Some l)) (tl lines) c
                 in numeric RPL_ENDOFHELP [name] (Some ''End of /HELP'') c)))"

definition uptime_secs :: "nat \<Rightarrow> conn \<Rightarrow> nat" where
  "uptime_secs started_at c = now_unix (cn_server c) - started_at"

definition uptime_text :: "nat \<Rightarrow> string" where
  "uptime_text up =
     (let rem = up mod 86400
      in ''Server Up '' @ dec (up div 86400) @ '' days '' @ pad0 2 (dec (rem div 3600)) @ '':'' @ pad0 2 (dec (rem mod 3600 div 60))
         @ '':'' @ pad0 2 (dec (rem mod 60)))"

definition stats_bans :: "nat \<Rightarrow> string \<Rightarrow> server_ban list \<Rightarrow> conn \<Rightarrow> conn" where
  "stats_bans code letter bans =
     fold (\<lambda>b. numeric code [letter, sb_mask b, ''*''] (Some (sb_reason b @ '' (set by '' @ sb_set_by b @ '')''))) bans"

text \<open>The reports for operators; a client that is not one gets the refusal and nothing else.\<close>

definition stats_oper :: "string \<Rightarrow> (conn \<Rightarrow> conn) \<Rightarrow> conn \<Rightarrow> conn" where
  "stats_oper letter report = opers_only (\<lambda>c. numeric RPL_ENDOFSTATS [letter] (Some ''End of /STATS report'') (report c))"

definition cmd_stats :: "nat \<Rightarrow> string list \<Rightarrow> conn \<Rightarrow> conn" where
  "cmd_stats started_at params c =
     (let letter = nth_or params 0 [];
          query = (case letter of [] \<Rightarrow> CHR ''*'' | ch # _ \<Rightarrow> to_ascii_lowercase ch);
          ending = numeric RPL_ENDOFSTATS [letter] (Some ''End of /STATS report'')
      in if query = CHR ''u'' then ending (numeric RPL_STATSUPTIME [] (Some (uptime_text (uptime_secs started_at c))) c)
         else if query = CHR ''o''
         then stats_oper letter (\<lambda>c. fold (\<lambda>(name, _). numeric RPL_STATSOLINE [''O'', ''*'', ''*'', name] None) (au_oper_hosts (cn_auth c)) c) c
         else if query = CHR ''k'' then stats_oper letter (\<lambda>c. stats_bans RPL_STATSKLINE ''K'' (server_bans (cn_server c)) c) c
         else if query = CHR ''d'' then stats_oper letter (\<lambda>c. stats_bans RPL_STATSDLINE ''D'' (ip_bans (cn_server c)) c) c
         else ending c)"

subsection \<open>The answers are all they do\<close>

lemma hush_who_answer: "hush c d \<Longrightarrow> hush c (who_answer x y r d)"
  unfolding who_answer_def who_reply_def who_reply_x_def Let_def by (intro hushing.intros; assumption)

lemma hush_who_channel: "hush c d \<Longrightarrow> hush c (who_channel x h d)"
  unfolding who_channel_def Let_def split_beta by (intro hushing.loop hushing.cases hush_who_answer; assumption)

lemma hush_who: "hush c d \<Longrightarrow> hush c (cmd_who ps d)"
  unfolding cmd_who_def who_exact_def who_mask_def Let_def split_beta
  by (intro hushing.replies hushing.loop hushing.cases hush_who_answer hush_who_channel; assumption)

lemma hush_tell: "hush c d \<Longrightarrow> (\<And>d. hush c d \<Longrightarrow> hush c (f d)) \<Longrightarrow> hush c (tell_if b f d)"
  "hush c d \<Longrightarrow> (\<And>v d. hush c d \<Longrightarrow> hush c (g v d)) \<Longrightarrow> hush c (tell_some x g d)"
  by (simp_all add: tell_if_def tell_some_def split: option.split)

lemma hush_whois: "hush c d \<Longrightarrow> hush c (cmd_whois ps d)"
proof -
  have one: "hush c d \<Longrightarrow> hush c (whois_remote u d)" "hush c d \<Longrightarrow> hush c (whois_local i d)" for u i c d
    unfolding whois_remote_def whois_local_def Let_def by (intro hushing.replies hush_tell; assumption)+
  show "hush c d \<Longrightarrow> ?thesis"
    unfolding cmd_whois_def whois_one_def by (intro hushing.replies hushing.loop hushing.cases one; assumption)
qed

lemma hush_asks:
  assumes "hush c d"
  shows "hush c (cmd_whowas ps d)" "hush c (cmd_userhost ps d)" "hush c (cmd_ison ps d)" "hush c (cmd_list ps d)"
    "hush c (cmd_version d)" "hush c (cmd_time d)" "hush c (cmd_admin d)" "hush c (cmd_info d)" "hush c (cmd_links d)"
    "hush c (cmd_map d)" "hush c (cmd_help ps d)" "hush c (cmd_stats n ps d)"
proof -
  have one: "hush c d \<Longrightarrow> hush c (list_one fs h d)" for fs h d
    unfolding list_one_def Let_def by (intro hushing.intros; assumption)
  show "hush c (cmd_list ps d)"
    unfolding cmd_list_def Let_def by (intro hushing.replies hushing.loop one assms)
  show "hush c (cmd_whowas ps d)"
    unfolding cmd_whowas_def Let_def by (intro hushing.replies hushing.loop hushing.cases hush_tell assms; assumption)
  have report: "(\<And>d. hush c d \<Longrightarrow> hush c (r d)) \<Longrightarrow> hush c (stats_oper l r d)" for l r
    using assms by (auto simp: stats_oper_def opers_only_def require_oper_def hushing.replies)
  show "hush c (cmd_stats n ps d)"
    unfolding cmd_stats_def stats_bans_def Let_def split_beta
    by (intro hushing.replies hushing.loop hushing.cases report assms; assumption)
qed (unfold cmd_userhost_def cmd_ison_def cmd_version_def cmd_time_def cmd_admin_def cmd_info_def cmd_links_def cmd_map_def
  cmd_help_def Let_def split_beta; intro hushing.replies hushing.loop hushing.cases assms; assumption)+

lemmas kept_asks [kepts] =
  kept_hush [OF _ hush_who [OF hush.frame_refl]] kept_hush [OF _ hush_whois [OF hush.frame_refl]]
  kept_hush [OF _ hush_asks(1) [OF hush.frame_refl]] kept_hush [OF _ hush_asks(2) [OF hush.frame_refl]]
  kept_hush [OF _ hush_asks(3) [OF hush.frame_refl]] kept_hush [OF _ hush_asks(4) [OF hush.frame_refl]]
  kept_hush [OF _ hush_asks(5) [OF hush.frame_refl]] kept_hush [OF _ hush_asks(6) [OF hush.frame_refl]]
  kept_hush [OF _ hush_asks(7) [OF hush.frame_refl]] kept_hush [OF _ hush_asks(8) [OF hush.frame_refl]]
  kept_hush [OF _ hush_asks(9) [OF hush.frame_refl]] kept_hush [OF _ hush_asks(10) [OF hush.frame_refl]]
  kept_hush [OF _ hush_asks(11) [OF hush.frame_refl]] kept_hush [OF _ hush_asks(12) [OF hush.frame_refl]]

subsection \<open>What a client may not see\<close>

text \<open>A change \<open>T\<close> of the state that leaves alone all that a client with property \<open>P\<close> may see: the identities of clients but
  for the addresses behind them, and the channels that are not hidden from the client.\<close>

definition hidden :: "conn \<Rightarrow> nat \<Rightarrow> bool" where
  "hidden c h \<longleftrightarrow> secret (ch_modes (cdata (cn_server c) h)) \<and> \<not> has_member (cdata (cn_server c) h) (my_id c)"

definition identity_of :: "conn \<Rightarrow> nat \<Rightarrow> client_data" where
  "identity_of c i = (ce_data (entries (cn_server c) i))\<lparr>cd_real_ip := []\<rparr>"

definition blind :: "(conn \<Rightarrow> conn) \<Rightarrow> (conn \<Rightarrow> bool) \<Rightarrow> (conn \<Rightarrow> conn) \<Rightarrow> bool" where
  "blind T P handler \<longleftrightarrow> (\<forall>c. P c \<longrightarrow> handler (T c) = T (handler c) \<and> P (handler c))"

lemma blind_eq: "blind T P handler \<Longrightarrow> P c \<Longrightarrow> handler (T c) = T (handler c)"
  by (simp add: blind_def)

locale unseen =
  fixes T :: "conn \<Rightarrow> conn" and P :: "conn \<Rightarrow> bool"
  assumes numeric_T: "P c \<Longrightarrow> numeric k ps t (T c) = T (numeric k ps t c)"
    and P_numeric: "P c \<Longrightarrow> P (numeric k ps t c)"
    and not_oper: "P c \<Longrightarrow> \<not> cd_oper (my_data c)"
    and mine: "P c \<Longrightarrow> my_entry (T c) = my_entry c \<and> my_id (T c) = my_id c"
    and others: "P c \<Longrightarrow> identity_of (T c) i = identity_of c i"
    and registries: "P c \<Longrightarrow> info (cn_server (T c)) = info (cn_server c) \<and> clock_ms (cn_server (T c)) = clock_ms (cn_server c)
      \<and> clients (cn_server (T c)) = clients (cn_server c) \<and> remote_users (cn_server (T c)) = remote_users (cn_server c)
      \<and> channels (cn_server (T c)) = channels (cn_server c) \<and> whowas (cn_server (T c)) = whowas (cn_server c)"
    and hidden_T: "P c \<Longrightarrow> hidden (T c) h = hidden c h"
    and cdata_T: "P c \<Longrightarrow> \<not> hidden c h \<Longrightarrow> cdata (cn_server (T c)) h = cdata (cn_server c) h"
begin

lemma others_fields:
  assumes "P c"
  shows "cd_nick (ce_data (entries (cn_server (T c)) i)) = cd_nick (ce_data (entries (cn_server c) i))"
    "cd_user (ce_data (entries (cn_server (T c)) i)) = cd_user (ce_data (entries (cn_server c) i))"
    "cd_host (ce_data (entries (cn_server (T c)) i)) = cd_host (ce_data (entries (cn_server c) i))"
    "cd_realname (ce_data (entries (cn_server (T c)) i)) = cd_realname (ce_data (entries (cn_server c) i))"
    "cd_registered (ce_data (entries (cn_server (T c)) i)) = cd_registered (ce_data (entries (cn_server c) i))"
    "cd_channels (ce_data (entries (cn_server (T c)) i)) = cd_channels (ce_data (entries (cn_server c) i))"
    "cd_away (ce_data (entries (cn_server (T c)) i)) = cd_away (ce_data (entries (cn_server c) i))"
    "cd_account (ce_data (entries (cn_server (T c)) i)) = cd_account (ce_data (entries (cn_server c) i))"
    "cd_oper (ce_data (entries (cn_server (T c)) i)) = cd_oper (ce_data (entries (cn_server c) i))"
    "cd_secure (ce_data (entries (cn_server (T c)) i)) = cd_secure (ce_data (entries (cn_server c) i))"
    "cd_invisible (ce_data (entries (cn_server (T c)) i)) = cd_invisible (ce_data (entries (cn_server c) i))"
    "cd_bot (ce_data (entries (cn_server (T c)) i)) = cd_bot (ce_data (entries (cn_server c) i))"
    "cd_connected_at (ce_data (entries (cn_server (T c)) i)) = cd_connected_at (ce_data (entries (cn_server c) i))"
    "cd_last_active (ce_data (entries (cn_server (T c)) i)) = cd_last_active (ce_data (entries (cn_server c) i))"
  using others [OF assms, of i] unfolding identity_of_def
  by (cases "ce_data (entries (cn_server (T c)) i)"; cases "ce_data (entries (cn_server c) i)"; simp)+

lemma views:
  assumes "P c"
  shows "my_data (T c) = my_data c" "my_caps (T c) = my_caps c" "my_id (T c) = my_id c" "my_nick (T c) = my_nick c" "fold_c (T c) = fold_c c"
    "server_name (T c) = server_name c" "find_client (cn_server (T c)) = find_client (cn_server c)"
    "find_remote_user (cn_server (T c)) = find_remote_user (cn_server c)" "find_channel (cn_server (T c)) = find_channel (cn_server c)"
    "now_unix (cn_server (T c)) = now_unix (cn_server c)" "whowas_lookup (cn_server (T c)) = whowas_lookup (cn_server c)"
    "fold_key (cn_server (T c)) = fold_key (cn_server c)" "info (cn_server (T c)) = info (cn_server c)"
    "clients (cn_server (T c)) = clients (cn_server c)" "remote_users (cn_server (T c)) = remote_users (cn_server c)"
    "channels (cn_server (T c)) = channels (cn_server c)"
  using mine [OF assms] registries [OF assms]
  by (simp_all add: my_data_def my_caps_def my_nick_def entry_nick_def fun_eq_iff fold_c_def server_name_def find_client_def
    find_remote_user_def find_channel_def now_unix_def whowas_lookup_def fold_key_def)

lemma blind_numeric: "blind T P (numeric k ps t)"
  by (simp add: blind_def numeric_T P_numeric)

lemma fold_T:
  assumes "\<And>x. blind T P (f x)" "P c"
  shows "fold f xs (T c) = T (fold f xs c)" "P (fold f xs c)"
proof -
  have "fold f xs (T c) = T (fold f xs c) \<and> P (fold f xs c)"
    using assms(2) by (induction xs arbitrary: c) (use assms(1) in \<open>auto simp: blind_def\<close>)
  then show "fold f xs (T c) = T (fold f xs c)" "P (fold f xs c)" by simp_all
qed

lemma tell_T:
  assumes "P c"
  shows "blind T P f \<Longrightarrow> tell_if b f (T c) = T (tell_if b f c)" "blind T P f \<Longrightarrow> P (tell_if b f c)"
    "(\<And>v. blind T P (g v)) \<Longrightarrow> tell_some x g (T c) = T (tell_some x g c)" "(\<And>v. blind T P (g v)) \<Longrightarrow> P (tell_some x g c)"
  using assms by (auto simp: tell_if_def tell_some_def blind_def split: option.split)

lemma blind_whois_remote: "blind T P (whois_remote u)"
  unfolding blind_def whois_remote_def Let_def by (simp add: tell_T numeric_T P_numeric blind_numeric)

lemma whois_channels_T: "P c \<Longrightarrow> whois_channels i (ce_data (entries (cn_server (T c)) i)) (T c) = whois_channels i (ce_data (entries (cn_server c) i)) c"
proof -
  assume c: "P c"
  have "(if secret (ch_modes (cdata (cn_server (T c)) h)) \<and> i \<noteq> my_id c \<and> \<not> has_member (cdata (cn_server (T c)) h) (my_id c) then None
      else map_option (\<lambda>p. prefix_symbol p @ ch_name (cdata (cn_server (T c)) h)) (get (ch_members (cdata (cn_server (T c)) h)) i))
    = (if secret (ch_modes (cdata (cn_server c) h)) \<and> i \<noteq> my_id c \<and> \<not> has_member (cdata (cn_server c) h) (my_id c) then None
      else map_option (\<lambda>p. prefix_symbol p @ ch_name (cdata (cn_server c) h)) (get (ch_members (cdata (cn_server c) h)) i))" for h
    using hidden_T [OF c, of h] cdata_T [OF c, of h] by (cases "hidden c h") (auto simp: hidden_def views [OF c] has_member_def)
  then show ?thesis
    unfolding whois_channels_def Let_def using not_oper [OF c]
    by (simp add: views [OF c] others_fields [OF c] cong: option.case_cong)
qed

lemma real_ip_T: "P c \<Longrightarrow> cd_real_ip (ce_data (entries (cn_server (T c)) (my_id c))) = cd_real_ip (ce_data (entries (cn_server c) (my_id c)))"
  using mine [of c] by (metis my_entry_def)

lemma blind_whois_local: "blind T P (whois_local i)"
  unfolding blind_def whois_local_def Let_def
  by (intro allI impI, case_tac "i = my_id c")
    (simp_all add: tell_T numeric_T P_numeric blind_numeric whois_channels_T views others_fields not_oper real_ip_T tell_if_def [of False])

lemma blind_whois: "blind T P (cmd_whois ps)"
proof -
  have "blind T P (whois_one n)" for n
    using blind_whois_remote blind_whois_local blind_numeric unfolding blind_def whois_one_def
    by (simp add: views numeric_T P_numeric split: option.split)
  note w = fold_T [OF this]
  show ?thesis unfolding blind_def cmd_whois_def by (simp add: w numeric_T P_numeric)
qed

lemma blind_whowas: "blind T P (cmd_whowas ps)"
proof -
  have "blind T P (\<lambda>c. numeric RPL_WHOISSERVER [ww_nick e, server_name c] (Some (format_datetime (ww_departed_at e)))
      (numeric RPL_WHOWASUSER [ww_nick e, ww_user e, ww_host e, ''*''] (Some (ww_realname e)) c))" for e :: whowas_entry
    by (simp add: blind_def views numeric_T P_numeric)
  note w = fold_T [OF this]
  show ?thesis
    unfolding blind_def cmd_whowas_def Let_def
    by (auto simp: w tell_T blind_numeric numeric_T P_numeric views split: list.split)
qed

lemma blind_userhost: "blind T P (cmd_userhost ps)"
proof -
  have "P c \<Longrightarrow> userhost_of (T c) = userhost_of c" for c
    by (simp add: fun_eq_iff userhost_of_def views others_fields Let_def)
  then show ?thesis by (simp add: blind_def cmd_userhost_def need_more_params_def numeric_T P_numeric)
qed

lemma blind_ison: "blind T P (cmd_ison ps)"
proof -
  have "P c \<Longrightarrow> ison_of (T c) = ison_of c" for c
    by (simp add: fun_eq_iff ison_of_def views others_fields entry_nick_def split: option.split)
  then show ?thesis by (simp add: blind_def cmd_ison_def need_more_params_def numeric_T P_numeric)
qed

lemma blind_list: "blind T P (cmd_list ps)"
proof -
  have "blind T P (list_one fs h)" for fs h
    unfolding blind_def
  proof (intro allI impI)
    fix c assume c: "P c"
    show "list_one fs h (T c) = T (list_one fs h c) \<and> P (list_one fs h c)"
      using hidden_T [OF c, of h] cdata_T [OF c, of h] c
      by (cases "hidden c h") (auto simp: list_one_def Let_def views hidden_def numeric_T P_numeric)
  qed
  note w = fold_T [OF this]
  show ?thesis by (simp add: blind_def cmd_list_def Let_def w numeric_T P_numeric views)
qed

lemma may_list_T: "P c \<Longrightarrow> may_list_channel h (T c) = may_list_channel h c"
  using hidden_T [of c h] not_oper [of c] by (auto simp: may_list_channel_def hidden_def views)

lemma listed_T:
  assumes "P c" "may_list_channel h c"
  shows "cdata (cn_server (T c)) h = cdata (cn_server c) h" "member_snapshot (cn_server (T c)) h = member_snapshot (cn_server c) h"
    "remote_member_snapshot (cn_server (T c)) h = remote_member_snapshot (cn_server c) h"
proof -
  show "cdata (cn_server (T c)) h = cdata (cn_server c) h"
    using cdata_T [OF assms(1), of h] not_oper [OF assms(1)] assms(2) by (auto simp: may_list_channel_def hidden_def)
  then show "member_snapshot (cn_server (T c)) h = member_snapshot (cn_server c) h"
    "remote_member_snapshot (cn_server (T c)) h = remote_member_snapshot (cn_server c) h"
    by (simp_all add: member_snapshot_def remote_member_snapshot_def)
qed

lemma who_row_T: "P c \<Longrightarrow> who_row_local i p (T c) = who_row_local i p c"
  by (simp add: who_row_local_def Let_def views others_fields not_oper real_ip_T)

lemma blind_who_answer: "blind T P (who_answer x y r)"
  by (auto simp: blind_def who_answer_def who_reply_def who_reply_x_def Let_def views numeric_T P_numeric split: option.split)

lemmas who_answer_T = blind_who_answer [unfolded blind_def, rule_format]

lemma blind_who_rows:
  "blind T P ((\<lambda>(i, p) c. who_answer x y (who_row_local i p c) c) ip)"
  "blind T P ((\<lambda>(_, i) c. if who_visible m c i then who_answer x y (who_row_local i p c) c else c) ni)"
  "blind T P (\<lambda>c. case o1 of Some u \<Rightarrow> who_answer x y (who_row_remote u p) c | None \<Rightarrow> c)"
  "blind T P ((\<lambda>(_, u) c. if g u then who_answer x y (r u) c else c) nu)"
  by (auto simp: blind_def who_row_T who_answer_T who_visible_def Let_def views others_fields split: option.split prod.split)

lemma who_channel_T:
  assumes "P c" "may_list_channel h c"
  shows "who_channel x h (T c) = T (who_channel x h c)" "P (who_channel x h c)"
  using fold_T [of "\<lambda>(i, p) c. who_answer x y (who_row_local i p c) c" for y, OF blind_who_rows(1)]
    fold_T [of "\<lambda>(m :: remote_member) d. case find_remote_user (cn_server c) (fold_key (cn_server c) (rm_nick m)) of Some u \<Rightarrow>
      who_answer x y (who_row_remote u (rm_prefix m)) d | None \<Rightarrow> d" for y, OF blind_who_rows(3)] assms(1)
  by (simp_all add: who_channel_def Let_def listed_T [OF assms] views cong: option.case_cong)

lemma who_exact_T: "P c \<Longrightarrow> who_exact x t (T c) = T (who_exact x t c)" "P c \<Longrightarrow> P (who_exact x t c)"
  by (simp_all add: who_exact_def views who_row_T who_answer_T split: option.split)

lemma who_mask_T: "P c \<Longrightarrow> who_mask x m (T c) = T (who_mask x m c)" "P c \<Longrightarrow> P (who_mask x m c)"
  using fold_T [of "\<lambda>(_ :: string, i) c. if who_visible m c i then who_answer x y (who_row_local i p c) c else c" for y p, OF blind_who_rows(2)]
    fold_T [of "\<lambda>(_ :: string, u :: remote_user) c. if who_matches m [ru_nick u, ru_user u, ru_host u, ru_realname u]
      then who_answer x y (who_row_remote u p) c else c" for y p, OF blind_who_rows(4)]
  by (simp_all add: who_mask_def Let_def views)

lemma blind_who: "blind T P (cmd_who ps)"
proof -
  have "(case o1 of Some h \<Rightarrow> if may_list_channel h (T c) then who_channel x h (T c) else T c | None \<Rightarrow> T c)
      = T (case o1 of Some h \<Rightarrow> if may_list_channel h c then who_channel x h c else c | None \<Rightarrow> c)
    \<and> P (case o1 of Some h \<Rightarrow> if may_list_channel h c then who_channel x h c else c | None \<Rightarrow> c)" if "P c" for o1 x c
    using that by (simp add: may_list_T who_channel_T split: option.split)
  then show ?thesis
    by (simp add: blind_def cmd_who_def Let_def views who_exact_T who_mask_T numeric_T P_numeric)
qed

lemma blind_names: "blind T P (cmd_names ps)"
proof -
  have names: "fold (names_step x y) ns (k, T c) = (fst (fold (names_step x y) ns (k, c)), T (snd (fold (names_step x y) ns (k, c))))
      \<and> P (snd (fold (names_step x y) ns (k, c)))" if "P c" for x y ns k c
    using that by (induction ns arbitrary: k c) (simp_all add: names_step_def Let_def numeric_T P_numeric)
  have local_name: "local_name b u (cn_server (T c)) = local_name b u (cn_server c)" if "P c" for b u c
    using that by (simp add: fun_eq_iff local_name_def Let_def others_fields)
  have "send_names h y (T c) = T (send_names h y c) \<and> P (send_names h y c)" if c: "P c" "may_list_channel h c" for h y c
    using names [OF c(1)] c(1) by (simp add: send_names_def Let_def listed_T [OF c] views local_name split_beta numeric_T P_numeric del: fold_append)
  then have "blind T P (names_one n)" for n
    by (simp add: blind_def names_one_def views may_list_T listed_T numeric_T P_numeric split: option.split)
  note w = fold_T [OF this]
  show ?thesis by (simp add: blind_def cmd_names_def w numeric_T P_numeric split: list.split)
qed

end

text \<open>Two changes that a client cannot see: of the addresses of other clients, and of a secret channel it is not on.\<close>

definition veil :: "(nat \<Rightarrow> string) \<Rightarrow> conn \<Rightarrow> conn" where
  "veil f c = upd_srv (\<lambda>s. s\<lparr>entries := (\<lambda>i. if i = my_id c then entries s i
     else (entries s i)\<lparr>ce_data := (ce_data (entries s i))\<lparr>cd_real_ip := f i\<rparr>\<rparr>)\<rparr>) c"

definition repaint :: "nat \<Rightarrow> (channel_data \<Rightarrow> channel_data) \<Rightarrow> conn \<Rightarrow> conn" where
  "repaint h g c = upd_srv (upd_chan h g) c"

definition outsider :: "nat \<Rightarrow> (channel_data \<Rightarrow> channel_data) \<Rightarrow> conn \<Rightarrow> bool" where
  "outsider h g c \<longleftrightarrow> \<not> cd_oper (my_data c) \<and> hidden c h \<and> hidden (repaint h g c) h"

lemma hush_numeric: "hush c (numeric k ps t c)"
  by (rule hushing.replies(4)) simp

lemma hidden_hush: "hush c d \<Longrightarrow> hidden d h = hidden c h"
  using quiet_cdata hush_fields(1,3) by (metis hidden_def)

interpretation addresses: unseen "veil f" "\<lambda>c. \<not> cd_oper (my_data c)" for f
proof (unfold_locales, goal_cases)
  case (1 c k ps t)
  then show ?case
    by (auto simp: numeric_def send_to_me_def emit_def veil_def upd_srv_def upd_ses_def send_client_def upd_client_def my_id_def my_nick_def
      nick_or_star_def server_name_def my_entry_def entry_nick_def Let_def fun_eq_iff split: option.split)
next
  case (2 c k ps t)
  then show ?case using hush_fields(4) [OF hush_numeric] by simp
qed (auto simp: veil_def my_entry_def my_id_def identity_of_def hidden_def cdata_def)

lemma repaint_others [simp]: "my_id (repaint h g c) = my_id c" "my_data (repaint h g c) = my_data c"
  by (simp_all add: repaint_def upd_srv_def upd_chan_def my_id_def my_data_def my_entry_def)

lemma numeric_repaint: "numeric k ps t (repaint h g c) = repaint h g (numeric k ps t c)"
  by (auto simp: numeric_def send_to_me_def emit_def repaint_def upd_srv_def upd_ses_def send_client_def upd_client_def upd_chan_def my_id_def my_nick_def
      nick_or_star_def server_name_def my_entry_def entry_nick_def Let_def split: option.split)

interpretation secrets: unseen "repaint h g" "outsider h g" for h g
proof (unfold_locales, goal_cases)
  case (1 c k ps t)
  show ?case by (rule numeric_repaint)
next
  case (2 c k ps t)
  then show ?case
    using hidden_hush [OF hush_numeric [of c k ps t], of h] hidden_hush [OF hush_numeric [of "repaint h g c" k ps t], of h]
      hush_fields(4) [OF hush_numeric]
    by (simp add: outsider_def numeric_repaint)
next
  case (7 c h')
  then show ?case by (cases "h' = h") (simp add: outsider_def, simp add: hidden_def repaint_def upd_srv_def cdata_upd_chan my_id_def)
next
  case (8 c h')
  then show ?case by (cases "h' = h") (auto simp: outsider_def repaint_def upd_srv_def cdata_upd_chan)
qed (auto simp: outsider_def repaint_def upd_srv_def upd_chan_def my_entry_def my_id_def identity_of_def)

text \<open>C16: the address behind a client's host is for operators and for the client itself. Whatever the addresses of the other clients
  are, a client that is not an operator gets the same answers, to the last octet, from \<open>WHO\<close> (with any fields), \<open>WHOIS\<close>, \<open>WHOWAS\<close>,
  \<open>USERHOST\<close>, \<open>ISON\<close>, \<open>NAMES\<close> and \<open>LIST\<close>: to change them before the command or after it is the same.\<close>

theorem addresses_private:
  assumes "\<not> cd_oper (my_data c)"
  shows "cmd_who ps (veil f c) = veil f (cmd_who ps c) \<and> cmd_whois ps (veil f c) = veil f (cmd_whois ps c)
    \<and> cmd_whowas ps (veil f c) = veil f (cmd_whowas ps c) \<and> cmd_userhost ps (veil f c) = veil f (cmd_userhost ps c)
    \<and> cmd_ison ps (veil f c) = veil f (cmd_ison ps c) \<and> cmd_names ps (veil f c) = veil f (cmd_names ps c)
    \<and> cmd_list ps (veil f c) = veil f (cmd_list ps c)"
  by (intro conjI addresses.blind_who [THEN blind_eq, OF assms] addresses.blind_whois [THEN blind_eq, OF assms]
    addresses.blind_whowas [THEN blind_eq, OF assms] addresses.blind_userhost [THEN blind_eq, OF assms] addresses.blind_ison [THEN blind_eq, OF assms]
    addresses.blind_names [THEN blind_eq, OF assms] addresses.blind_list [THEN blind_eq, OF assms])

theorem addresses_private_witness:
  "cmd_who [''*'', ''%nih''] (veil (\<lambda>_. ''6.6.6.6'') demo_chat) = veil (\<lambda>_. ''6.6.6.6'') (cmd_who [''*'', ''%nih''] demo_chat)"
proof -
  have "\<not> cd_oper (my_data demo_chat)"
    by (simp add: demo_chat_def demo_joiner_def session_new_def demo_member_def my_data_def my_entry_def my_id_def upd_chan_def client_data_new_def)
  from addresses_private [OF this] show ?thesis by blast
qed

text \<open>C17: a secret channel is invisible from outside. Whatever a secret channel that a client is not on holds - its name as displayed, its topic,
  members and modes - a client that is not an operator gets the same answers, to the last octet, from \<open>WHO\<close>, \<open>WHOIS\<close>, \<open>NAMES\<close> and
  \<open>LIST\<close>.\<close>

theorem secret_channels_invisible:
  assumes "\<not> cd_oper (my_data c)"
    and "secret (ch_modes (cdata (cn_server c) h))" "\<not> has_member (cdata (cn_server c) h) (my_id c)"
    and "secret (ch_modes (g (cdata (cn_server c) h)))" "\<not> has_member (g (cdata (cn_server c) h)) (my_id c)"
  shows "cmd_who ps (repaint h g c) = repaint h g (cmd_who ps c) \<and> cmd_whois ps (repaint h g c) = repaint h g (cmd_whois ps c)
    \<and> cmd_names ps (repaint h g c) = repaint h g (cmd_names ps c) \<and> cmd_list ps (repaint h g c) = repaint h g (cmd_list ps c)"
proof -
  have "outsider h g c"
    using assms by (simp add: outsider_def hidden_def) (simp add: repaint_def upd_srv_def cdata_upd_chan)
  note o1 = this
  show ?thesis
    by (intro conjI secrets.blind_who [THEN blind_eq, OF o1] secrets.blind_whois [THEN blind_eq, OF o1]
      secrets.blind_names [THEN blind_eq, OF o1] secrets.blind_list [THEN blind_eq, OF o1])
qed

definition demo_secret :: conn where
  "demo_secret = upd_srv (upd_chan 0 (\<lambda>d. d\<lparr>ch_modes := (ch_modes d)\<lparr>secret := True\<rparr>, ch_members := [(2, prefix_default)]\<rparr>)) demo_joiner"

theorem secret_channels_invisible_witness:
  "cmd_list [] (repaint 0 (\<lambda>d. d\<lparr>ch_topic := Some \<lparr>topic_text = ''plot'', topic_set_by = ''Bob'', topic_set_at = 1\<rparr>\<rparr>) demo_secret)
   = repaint 0 (\<lambda>d. d\<lparr>ch_topic := Some \<lparr>topic_text = ''plot'', topic_set_by = ''Bob'', topic_set_at = 1\<rparr>\<rparr>) (cmd_list [] demo_secret)"
proof -
  let ?g = "\<lambda>d :: channel_data. d\<lparr>ch_topic := Some \<lparr>topic_text = ''plot'', topic_set_by = ''Bob'', topic_set_at = 1\<rparr>\<rparr>"
  have "\<not> cd_oper (my_data demo_secret)" "secret (ch_modes (cdata (cn_server demo_secret) 0))" "\<not> has_member (cdata (cn_server demo_secret) 0) (my_id demo_secret)"
    "secret (ch_modes (?g (cdata (cn_server demo_secret) 0)))" "\<not> has_member (?g (cdata (cn_server demo_secret) 0)) (my_id demo_secret)"
    by (simp_all add: demo_secret_def demo_joiner_def session_new_def demo_member_def my_data_def my_entry_def my_id_def upd_chan_def client_data_new_def
      upd_srv_def cdata_def has_member_def)
  from secret_channels_invisible [where g = ?g, OF this] show ?thesis by blast
qed

text \<open>The tree of \<open>MAP\<close> can show a server in the wrong place. In a network where this server has the peers A and B and C is
  behind B, the three lines are B, A and C, in this order: C stands below A.\<close>

theorem map_misplaces_children:
  "map_walk (map_children (s\<lparr>info := (info s)\<lparr>si_sid := ''1''\<rparr>,
     links := [(''2'', \<lparr>lh_sid = ''2'', lh_name = ''A'', lh_description = d, lh_queue = [], lh_sendq = 1, lh_shutdown = False\<rparr>),
               (''3'', \<lparr>lh_sid = ''3'', lh_name = ''B'', lh_description = d, lh_queue = [], lh_sendq = 1, lh_shutdown = False\<rparr>)],
     remote_servers := [(''4'', \<lparr>rs_sid = ''4'', rs_name = ''C'', rs_uplink = ''3'', rs_description = d\<rparr>)]\<rparr>)) (0, [(''1'', 0)], [])
   = [''  '' @ [CHR 0x60] @ ''- B'', ''  '' @ [CHR 0x60] @ ''- A'', ''    '' @ [CHR 0x60] @ ''- C'']"
  by (simp add: map_children_def add_child_def remote_servers_snapshot_def)

end
