(* ===== verification/Personal.thy ===== *)
theory Personal
  imports Queries
begin

text \<open>
  What a client keeps with the server (\<open>ferrixd/src/command.rs\<close>): metadata and the keys it is subscribed to, the list of
  nicknames it watches, in both spellings of the command, and the list of masks it ignores.
\<close>

subsection \<open>Metadata\<close>

definition MAX_METADATA_KEYS :: nat where "MAX_METADATA_KEYS = 20"
definition MAX_METADATA_SUBS :: nat where "MAX_METADATA_SUBS = 20"
definition MAX_METADATA_KEY_LEN :: nat where "MAX_METADATA_KEY_LEN = 32"
definition MAX_METADATA_VALUE_LEN :: nat where "MAX_METADATA_VALUE_LEN = 300"

definition metadata_char :: "char \<Rightarrow> bool" where
  "metadata_char ch \<longleftrightarrow> is_ascii_alphanumeric ch \<or> ch \<in> set ''_-.:/''"

definition valid_metadata_key :: "string \<Rightarrow> bool" where
  "valid_metadata_key key \<longleftrightarrow> key \<noteq> [] \<and> length key \<le> MAX_METADATA_KEY_LEN \<and> list_all metadata_char key"

definition apply_metadata :: "string \<Rightarrow> string option \<Rightarrow> (string, string) table \<Rightarrow> (string, string) table" where
  "apply_metadata key v m =
     (case v of
        Some v \<Rightarrow> if length m < MAX_METADATA_KEYS \<or> get m key \<noteq> None then put key v m else m
      | None \<Rightarrow> del key m)"

definition is_self_target :: "string \<Rightarrow> conn \<Rightarrow> bool" where
  "is_self_target target c \<longleftrightarrow> target = ''*'' \<or> \<not> is_valid_channel target \<and> fold_c c target = fold_c c (my_nick c)"

definition metadata_snapshot :: "string \<Rightarrow> conn \<Rightarrow> (string, string) table option" where
  "metadata_snapshot target c =
     (if is_self_target target c then Some (cd_metadata (my_data c))
      else if is_valid_channel target
      then map_option (\<lambda>h. ch_metadata (cdata (cn_server c) h)) (find_channel (cn_server c) (fold_c c target))
      else map_option (\<lambda>i. cd_metadata (ce_data (entries (cn_server c) i))) (find_client (cn_server c) (fold_c c target)))"

text \<open>Who may write: the owner of the metadata. \<open>metadata_write\<close> answers whether the client may.\<close>

definition metadata_write :: "string \<Rightarrow> ((string, string) table \<Rightarrow> (string, string) table) \<Rightarrow> conn \<Rightarrow> bool \<times> conn" where
  "metadata_write target f c =
     (if is_self_target target c then (True, upd_me (\<lambda>d. d\<lparr>cd_metadata := f (cd_metadata d)\<rparr>) c)
      else if is_valid_channel target
      then
        (case find_channel (cn_server c) (fold_c c target) of
           None \<Rightarrow> (False, c)
         | Some h \<Rightarrow>
             (case get (ch_members (cdata (cn_server c) h)) (my_id c) of
                Some p \<Rightarrow> if mp_op p then (True, upd_srv (upd_chan h (\<lambda>d. d\<lparr>ch_metadata := f (ch_metadata d)\<rparr>)) c) else (False, c)
              | None \<Rightarrow> (False, c)))
      else (False, c))"

definition metadata_set :: "string \<Rightarrow> string \<Rightarrow> string option \<Rightarrow> conn \<Rightarrow> bool \<times> conn" where
  "metadata_set target key v = metadata_write target (apply_metadata key v)"

definition metadata_clear :: "string \<Rightarrow> conn \<Rightarrow> bool \<times> conn" where
  "metadata_clear target = metadata_write target (\<lambda>_. [])"

text \<open>A change is told to the subscribers of the key: the members of the channel, or those who share a channel with the user and
  the user itself, each once.\<close>

definition metadata_tell :: "string \<Rightarrow> string \<Rightarrow> nat \<Rightarrow> nat list \<times> server \<Rightarrow> nat list \<times> server" where
  "metadata_tell key bytes i st =
     (case st of (seen, s) \<Rightarrow>
        if i \<in> set seen then (seen, s)
        else (hs_insert i seen,
              if key \<in> set (cd_metadata_subs (ce_data (entries s i))) \<and> has (entry_caps (entries s i)) Metadata
              then send_client bytes i s else s))"

definition metadata_tell_channel :: "string \<Rightarrow> string \<Rightarrow> nat \<Rightarrow> nat list \<times> server \<Rightarrow> nat list \<times> server" where
  "metadata_tell_channel key bytes h st = fold (metadata_tell key bytes) (map fst (member_snapshot (snd st) h)) st"

definition tell_across :: "string \<Rightarrow> string \<Rightarrow> string list \<Rightarrow> server \<Rightarrow> nat list \<times> server" where
  "tell_across key bytes fs s =
     fold (\<lambda>folded st. case find_channel (snd st) folded of Some h \<Rightarrow> metadata_tell_channel key bytes h st | None \<Rightarrow> st) fs ([], s)"

definition metadata_display :: "string \<Rightarrow> conn \<Rightarrow> string option" where
  "metadata_display target c =
     (if is_valid_channel target
      then map_option (\<lambda>h. ch_name (cdata (cn_server c) h)) (find_channel (cn_server c) (fold_c c target))
      else if is_self_target target c then Some (my_nick c)
      else map_option (\<lambda>i. entry_nick (entries (cn_server c) i)) (find_client (cn_server c) (fold_c c target)))"

definition announce_metadata :: "string \<Rightarrow> string \<Rightarrow> string option \<Rightarrow> conn \<Rightarrow> conn" where
  "announce_metadata target key v c =
     (case metadata_display target c of
        None \<Rightarrow> c
      | Some display \<Rightarrow>
          (let l = line_param (line_param (line_param (line_command (line_server (server_name c)) ''METADATA'') display) key) ''*'';
               l = (case v of Some v \<Rightarrow> line_trailing l v | None \<Rightarrow> l);
               bytes = line_build l; s = cn_server c
           in if is_valid_channel target
              then (case find_channel s (fold_c c target) of
                      Some h \<Rightarrow> c\<lparr>cn_server := snd (metadata_tell_channel key bytes h ([], s))\<rparr>
                    | None \<Rightarrow> c)
              else
                (case if is_self_target target c then Some (my_id c) else find_client s (fold_c c target) of
                   None \<Rightarrow> c
                 | Some own \<Rightarrow>
                     c\<lparr>cn_server := snd (metadata_tell key bytes own (tell_across key bytes (cd_channels (ce_data (entries s own))) s))\<rparr>)))"

definition metadata_fail :: "string \<Rightarrow> string list \<Rightarrow> string \<Rightarrow> conn \<Rightarrow> conn" where
  "metadata_fail code context = fail_reply ''METADATA'' code context"

definition metadata_get :: "string \<Rightarrow> string list \<Rightarrow> conn \<Rightarrow> conn" where
  "metadata_get target keys c =
     (case metadata_snapshot target c of
        None \<Rightarrow> metadata_fail ''INVALID_TARGET'' [target] ''No such target'' c
      | Some m \<Rightarrow>
          fold (\<lambda>key c. case get m key of
                 Some v \<Rightarrow> numeric RPL_KEYVALUE [target, key, ''*''] (Some v) c
               | None \<Rightarrow> metadata_fail ''KEY_NOT_SET'' [target, key] ''Key not set'' c) keys c)"

definition metadata_list :: "string \<Rightarrow> conn \<Rightarrow> conn" where
  "metadata_list target c =
     (case metadata_snapshot target c of
        None \<Rightarrow> metadata_fail ''INVALID_TARGET'' [target] ''No such target'' c
      | Some m \<Rightarrow>
          numeric RPL_METADATAEND [] (Some ''End of metadata'')
            (fold (\<lambda>(key, v). numeric RPL_KEYVALUE [target, key, ''*''] (Some v)) m c))"

definition metadata_assign :: "string \<Rightarrow> string list \<Rightarrow> conn \<Rightarrow> conn" where
  "metadata_assign target args c =
     (case args of
        [] \<Rightarrow> metadata_fail ''INVALID_PARAMS'' [''SET''] ''Missing key'' c
      | key # rest \<Rightarrow>
          (let v = (case rest of [] \<Rightarrow> None | v # _ \<Rightarrow> if v = [] then None else Some v)
           in if \<not> valid_metadata_key key then metadata_fail ''KEY_INVALID'' [target, key] ''Invalid key'' c
              else if (case v of Some v \<Rightarrow> MAX_METADATA_VALUE_LEN < length v | None \<Rightarrow> False)
              then metadata_fail ''VALUE_INVALID'' [target, key] ''Value too long'' c
              else
                (case metadata_set target key v c of
                   (False, c) \<Rightarrow> metadata_fail ''KEY_NO_PERMISSION'' [target, key] ''Permission denied'' c
                 | (True, c) \<Rightarrow> announce_metadata target key v (numeric RPL_KEYVALUE [target, key, ''*''] v c))))"

definition metadata_erase :: "string \<Rightarrow> conn \<Rightarrow> conn" where
  "metadata_erase target c =
     (let keys = (case metadata_snapshot target c of Some m \<Rightarrow> map fst m | None \<Rightarrow> [])
      in case metadata_clear target c of
           (True, c) \<Rightarrow>
             numeric RPL_METADATAEND [] (Some ''End of metadata'') (fold (\<lambda>key. announce_metadata target key None) keys c)
         | (False, c) \<Rightarrow> metadata_fail ''KEY_NO_PERMISSION'' [target] ''Permission denied'' c)"

primrec metadata_sub :: "string list \<Rightarrow> conn \<Rightarrow> conn" where
  "metadata_sub [] c = c"
| "metadata_sub (key # keys) c =
     (let d = my_data c
      in if \<not> valid_metadata_key key then metadata_sub keys (metadata_fail ''KEY_INVALID'' [key] ''Invalid key'' c)
         else if MAX_METADATA_SUBS \<le> length (cd_metadata_subs d) \<and> key \<notin> set (cd_metadata_subs d)
         then metadata_fail ''TOO_MANY_SUBS'' [key] ''Too many subscriptions'' c
         else metadata_sub keys
           (numeric RPL_METADATASUBOK [key] None (upd_me (\<lambda>d. d\<lparr>cd_metadata_subs := hs_insert key (cd_metadata_subs d)\<rparr>) c)))"

definition metadata_unsub :: "string list \<Rightarrow> conn \<Rightarrow> conn" where
  "metadata_unsub keys c =
     fold (\<lambda>key c. numeric RPL_METADATAUNSUBOK [key] None
       (upd_me (\<lambda>d. d\<lparr>cd_metadata_subs := hs_remove key (cd_metadata_subs d)\<rparr>) c)) keys c"

definition metadata_subs :: "conn \<Rightarrow> conn" where
  "metadata_subs c =
     numeric RPL_METADATAEND [] (Some ''End of metadata subscriptions'')
       (fold (\<lambda>chunk. numeric RPL_METADATASUBS chunk None) (chunks 10 (cd_metadata_subs (my_data c))) c)"

definition cmd_metadata :: "string list \<Rightarrow> conn \<Rightarrow> conn" where
  "cmd_metadata params c =
     (case params of
        target # sub # args \<Rightarrow>
          (let verb = map to_ascii_uppercase sub
           in if verb = ''GET'' then metadata_get target args c
              else if verb = ''LIST'' then metadata_list target c
              else if verb = ''SET'' then metadata_assign target args c
              else if verb = ''CLEAR'' then metadata_erase target c
              else if verb = ''SUB''
              then (if args = [] then metadata_fail ''INVALID_PARAMS'' [''SUB''] ''Missing keys'' c else metadata_sub args c)
              else if verb = ''UNSUB''
              then (if args = [] then metadata_fail ''INVALID_PARAMS'' [''UNSUB''] ''Missing keys'' c else metadata_unsub args c)
              else if verb = ''SUBS'' then metadata_subs c
              else metadata_fail ''INVALID_PARAMS'' [verb] ''Unknown subcommand'' c)
      | _ \<Rightarrow> metadata_fail ''INVALID_PARAMS'' [] ''Not enough parameters'' c)"

subsection \<open>Watched nicknames\<close>

definition MONITOR_LIMIT :: nat where "MONITOR_LIMIT = 100"

definition watch_add :: "string \<Rightarrow> conn \<Rightarrow> conn" where
  "watch_add folded c = upd_srv (monitor_watch folded (my_id c)) (upd_me (\<lambda>d. d\<lparr>cd_monitor := hs_insert folded (cd_monitor d)\<rparr>) c)"

definition watch_drop :: "string \<Rightarrow> conn \<Rightarrow> conn" where
  "watch_drop folded c = upd_srv (monitor_unwatch folded (my_id c)) (upd_me (\<lambda>d. d\<lparr>cd_monitor := hs_remove folded (cd_monitor d)\<rparr>) c)"

definition watch_clear :: "conn \<Rightarrow> conn" where
  "watch_clear c =
     (let watched = cd_monitor (my_data c)
      in upd_srv (fold (\<lambda>folded. monitor_unwatch folded (my_id c)) watched) (upd_me (\<lambda>d. d\<lparr>cd_monitor := []\<rparr>) c))"

primrec monitor_add :: "string list \<Rightarrow> string list \<times> string list \<times> conn \<Rightarrow> string list \<times> string list \<times> conn" where
  "monitor_add [] st = st"
| "monitor_add (target # rest) st =
     (case st of (online, offline, c) \<Rightarrow>
        (let folded = fold_c c target; watched = cd_monitor (my_data c)
         in if folded \<notin> set watched \<and> MONITOR_LIMIT \<le> length watched
            then (online, offline, numeric ERR_MONLISTFULL [dec MONITOR_LIMIT, target] (Some ''Monitor list is full'') c)
            else
              (let c = watch_add folded c
               in monitor_add rest
                    (case presence_mask (cn_server c) folded of
                       Some msk \<Rightarrow> (online @ [msk], offline, c)
                     | None \<Rightarrow> (online, offline @ [target], c)))))"

definition monitor_report :: "string list \<times> string list \<times> conn \<Rightarrow> conn" where
  "monitor_report st =
     (case st of (online, offline, c) \<Rightarrow>
        (let c = tell_if (online \<noteq> []) (numeric RPL_MONONLINE [] (Some (join '','' online))) c
         in tell_if (offline \<noteq> []) (numeric RPL_MONOFFLINE [] (Some (join '','' offline))) c))"

definition monitor_status :: "conn \<Rightarrow> conn" where
  "monitor_status c =
     (let seen = (\<lambda>folded. presence_mask (cn_server c) folded); watched = cd_monitor (my_data c)
      in monitor_report (List.map_filter seen watched, filter (\<lambda>f. seen f = None) watched, c))"

definition cmd_monitor :: "string list \<Rightarrow> conn \<Rightarrow> conn" where
  "cmd_monitor params c =
     (case params of
        [] \<Rightarrow> need_more_params ''MONITOR'' c
      | sub # args \<Rightarrow>
          (let items = (\<lambda>l. filter (\<lambda>t. t \<noteq> []) (split_on CHR '','' l))
           in if sub = ''+''
              then (case args of
                      [] \<Rightarrow> need_more_params ''MONITOR'' c
                    | l # _ \<Rightarrow> monitor_report (monitor_add (items l) ([], [], c)))
              else if sub = ''-''
              then (case args of [] \<Rightarrow> c | l # _ \<Rightarrow> fold (\<lambda>target c. watch_drop (fold_c c target) c) (items l) c)
              else if sub = ''C'' \<or> sub = ''c'' then watch_clear c
              else if sub = ''L'' \<or> sub = ''l''
              then numeric RPL_ENDOFMONLIST [] (Some ''End of MONITOR list'')
                     (fold (\<lambda>chunk. numeric RPL_MONLIST [] (Some (join '','' chunk))) (chunks 10 (cd_monitor (my_data c))) c)
              else if sub = ''S'' \<or> sub = ''s'' then monitor_status c
              else c))"

definition or_pair :: "'a \<times> 'b \<Rightarrow> ('a \<times> 'b) option \<Rightarrow> 'a \<times> 'b" where
  "or_pair dflt p = (case p of Some q \<Rightarrow> q | None \<Rightarrow> dflt)"

definition watch_answer :: "nat \<Rightarrow> string option \<Rightarrow> string \<Rightarrow> string \<Rightarrow> conn \<Rightarrow> conn" where
  "watch_answer code trailing nick msk c =
     (let (n, rest) = or_pair (nick, ''*@*'') (split_once CHR ''!'' msk);
          (user, host) = or_pair (''*'', ''*'') (split_once CHR ''@'' rest)
      in numeric code [n, user, host, ''0''] trailing c)"

definition watch_one :: "string \<Rightarrow> conn \<Rightarrow> conn" where
  "watch_one token c =
     (case token of
        [] \<Rightarrow> c
      | ch # nick \<Rightarrow>
          if ch = CHR ''+''
          then (if nick = [] then c
                else
                  (let folded = fold_c c nick; c = watch_add folded c
                   in case presence_mask (cn_server c) folded of
                        Some msk \<Rightarrow> watch_answer RPL_NOWON (Some ''is online'') nick msk c
                      | None \<Rightarrow> numeric RPL_NOWOFF [nick, ''*'', ''*'', ''0''] (Some ''is offline'') c))
          else if ch = CHR ''-''
          then (if nick = [] then c
                else numeric RPL_WATCHOFF [nick, ''*'', ''*'', ''0''] (Some ''stopped watching'') (watch_drop (fold_c c nick) c))
          else if ch = CHR ''C'' \<or> ch = CHR ''c'' then cmd_monitor [''C''] c
          else if ch = CHR ''L'' \<or> ch = CHR ''l''
          then numeric RPL_ENDOFWATCHLIST [''L''] (Some ''End of WATCH list'')
                 (fold (\<lambda>folded c. case presence_mask (cn_server c) folded of
                          Some msk \<Rightarrow> watch_answer RPL_WATCHLIST None folded msk c
                        | None \<Rightarrow> numeric RPL_WATCHLIST [folded, ''*'', ''*'', ''0''] None c) (cd_monitor (my_data c)) c)
          else if ch = CHR ''S'' \<or> ch = CHR ''s'' then cmd_monitor [''S''] c
          else c)"

definition cmd_watch :: "string list \<Rightarrow> conn \<Rightarrow> conn" where
  "cmd_watch params c = (if params = [] then cmd_monitor [''L''] c else fold watch_one params c)"

subsection \<open>Ignored masks\<close>

definition silence_list :: "conn \<Rightarrow> conn" where
  "silence_list c =
     numeric RPL_ENDOFSILELIST [] (Some ''End of SILENCE list'')
       (fold (\<lambda>m. numeric RPL_SILELIST [m] None) (cd_silence (my_data c)) c)"

definition cmd_silence :: "string list \<Rightarrow> conn \<Rightarrow> conn" where
  "cmd_silence params c =
     (case params of
        (ch # m # ms) # _ \<Rightarrow>
          (let msk = normalize_ban_mask (m # ms)
           in if ch = CHR ''+''
              then (if MAX_SILENCE_ENTRIES \<le> length (cd_silence (my_data c))
                    then numeric ERR_SILELISTFULL [msk] (Some ''Silence list is full'') c
                    else numeric RPL_SILELIST [msk] None (upd_me (\<lambda>d. d\<lparr>cd_silence := hs_insert msk (cd_silence d)\<rparr>) c))
              else if ch = CHR ''-''
              then numeric RPL_SILELIST [msk] None (upd_me (\<lambda>d. d\<lparr>cd_silence := hs_remove msk (cd_silence d)\<rparr>) c)
              else silence_list c)
      | _ \<Rightarrow> silence_list c)"

subsection \<open>What the handlers keep\<close>

lemma same_client_personal [simp]:
  "same_client d (d\<lparr>cd_metadata := m\<rparr>)" "same_client d (d\<lparr>cd_metadata_subs := l\<rparr>)" "same_client d (d\<lparr>cd_silence := l\<rparr>)"
  by (simp_all add: same_client_def)

lemma kept_tell [kepts]: "kept c d \<Longrightarrow> (\<And>d. kept c d \<Longrightarrow> kept c (f d)) \<Longrightarrow> kept c (tell_if b f d)"
  by (simp add: tell_if_def)

lemma quiet_metadata_tell: "quiet (snd st) (snd (metadata_tell k b i st))"
  by (simp add: metadata_tell_def split: prod.split)

lemma quiet_metadata_tell_channel: "quiet (snd st) (snd (metadata_tell_channel k b h st))"
  unfolding metadata_tell_channel_def by (rule quiet_fold_snd) (metis quiet_metadata_tell snd_conv)

lemma quiet_tell_across: "quiet s (snd (metadata_tell key bytes i (tell_across key bytes fs s)))"
proof -
  have "quiet (snd st) (snd (case find_channel (snd st) f of Some h \<Rightarrow> metadata_tell_channel key bytes h st | None \<Rightarrow> st))" for f st
    by (simp add: quiet_metadata_tell_channel split: option.split)
  then have "quiet (snd ([] :: nat list, s)) (snd (tell_across key bytes fs s))"
    unfolding tell_across_def by (intro quiet_fold_snd) (metis snd_conv)
  then show ?thesis using quiet_metadata_tell quiet_trans by (metis snd_conv)
qed

lemma hush_announce_metadata: "hush c d \<Longrightarrow> hush c (announce_metadata t k v d)"
proof -
  have set: "hush c d \<Longrightarrow> quiet (cn_server d) s \<Longrightarrow> hush c (d\<lparr>cn_server := s\<rparr>)" for s
    by (rule hush.frame_trans, assumption) (simp add: hush_def)
  have channel: "quiet s (snd (metadata_tell_channel k b h ([], s)))" for b h s
    using quiet_metadata_tell_channel [of "([], s)"] by simp
  show "hush c d \<Longrightarrow> ?thesis"
    unfolding announce_metadata_def Let_def
    by (intro hushing.cases set channel quiet_tell_across; assumption)
qed

lemmas kept_announce_metadata [kepts] = kept_hush [OF _ hush_announce_metadata [OF hush.frame_refl]]

lemma kept_metadata_write: "kept c d \<Longrightarrow> kept c (snd (metadata_write t f d))"
  by (auto simp: metadata_write_def split: option.split intro!: kept_upd_me kept_upd_srv safe_upd_chan)
    (auto simp: remote_who_def local_who_def)

lemma kept_metadata_sub [kepts]: "kept c d \<Longrightarrow> kept c (metadata_sub ks d)"
proof (induction ks arbitrary: d)
  case (Cons key ks)
  show ?case
    unfolding metadata_sub.simps Let_def metadata_fail_def by (intro kept.cases Cons.IH kept_replies kept_upd_me Cons.prems) simp
qed simp

lemma kept_cmd_metadata [kepts]: "kept c d \<Longrightarrow> kept c (cmd_metadata ps d)"
proof -
  have fail: "kept c d \<Longrightarrow> kept c (metadata_fail x y z d)" for x y z d by (simp add: metadata_fail_def kept_replies)
  have get: "kept c d \<Longrightarrow> kept c (metadata_get t ks d)" for t ks d
    unfolding metadata_get_def by (intro kepts fail; assumption)
  have list: "kept c d \<Longrightarrow> kept c (metadata_list t d)" for t d
    unfolding metadata_list_def split_beta by (intro kepts fail; assumption)
  have assign: "kept c d \<Longrightarrow> kept c (metadata_assign t as d)" for t as d
    using kept_metadata_write [of c d]
    by (auto simp: metadata_assign_def metadata_set_def Let_def split: list.split prod.split bool.split intro!: fail kept_announce_metadata kept_replies)
      (metis snd_conv)+
  have erase: "kept c d \<Longrightarrow> kept c (metadata_erase t d)" for t d
    using kept_metadata_write [of c d]
    by (auto simp: metadata_erase_def metadata_clear_def Let_def split: prod.split bool.split intro!: fail kept_announce_metadata kept_replies kept.loop)
      (metis snd_conv)+
  have rest: "kept c d \<Longrightarrow> kept c (metadata_unsub ks d)" "kept c d \<Longrightarrow> kept c (metadata_subs d)" for ks d
    unfolding metadata_unsub_def metadata_subs_def by (intro kepts; simp)+
  show "kept c d \<Longrightarrow> ?thesis"
    unfolding cmd_metadata_def Let_def by (intro kept.cases fail get list assign erase rest kept_metadata_sub; assumption)
qed

lemma kept_cmd_silence [kepts]: "kept c d \<Longrightarrow> kept c (cmd_silence ps d)"
  unfolding cmd_silence_def silence_list_def Let_def by (intro kepts) simp_all

subsection \<open>The index of watchers\<close>

text \<open>The list of a client and the index of watchers change together.\<close>

lemma conn_ok_rewatch:
  assumes "conn_ok c" "t = upd_client_data (my_id c) (\<lambda>d. d\<lparr>cd_monitor := l\<rparr>) (cn_server c)"
    and "\<And>f w i. get m f = Some w \<Longrightarrow> i \<in> set w \<Longrightarrow>
      (if i = my_id c then f \<in> set l else (\<exists>w'. get (monitors (cn_server c)) f = Some w' \<and> i \<in> set w'))"
  shows "conn_ok (c\<lparr>cn_server := t\<lparr>monitors := m\<rparr>\<rparr>)"
proof -
  let ?u = "t\<lparr>monitors := m\<rparr>"
  have s: "net_ok (cn_server c)" "client_ok (cn_server c)" "session_ok c" using assms(1) by (simp_all add: conn_ok_def)
  have d: "ce_data (entries t i) = (if i = my_id c then (ce_data (entries (cn_server c) i))\<lparr>cd_monitor := l\<rparr> else ce_data (entries (cn_server c) i))" for i
    by (simp add: assms(2) upd_client_data_def upd_client_def)
  have same: "clients ?u = clients (cn_server c)" "by_id ?u = by_id (cn_server c)" "info ?u = info (cn_server c)" "monitors ?u = m"
    by (simp_all add: assms(2) upd_client_data_def upd_client_def)
  have e: "entries ?u = entries t" by simp
  have "net_ok t" unfolding assms(2) upd_client_data_def using s(1) by (subst net_ok_upd_client) simp_all
  then have "net_ok ?u" by (subst net_ok_cong [of _ t]) simp_all
  moreover have "nick_key ?u = nick_key (cn_server c)" by (simp add: fun_eq_iff nick_key_def fold_key_def same d)
  then have "client_ok ?u"
    using s(2) assms(3) unfolding client_ok_def same e d by (fastforce split: if_splits)
  moreover have "session_ok (c\<lparr>cn_server := ?u\<rparr>)"
    using s(3) d [of "my_id c"] same by (auto simp: session_ok_def my_data_def my_entry_def my_id_def my_nick_data)
  ultimately show ?thesis by (simp add: conn_ok_def)
qed

lemma unwatched_index:
  "monitors (fold (\<lambda>f. monitor_unwatch f i) fs s) = m \<Longrightarrow> get m f = Some w \<Longrightarrow> j \<in> set w \<Longrightarrow>
     (\<exists>w'. get (monitors s) f = Some w' \<and> j \<in> set w') \<and> (j = i \<longrightarrow> f \<notin> set fs)"
proof (induction fs arbitrary: s)
  case (Cons g fs)
  from Cons.IH [of "monitor_unwatch g i s"] Cons.prems show ?case
    by (auto simp: monitor_unwatch_def Let_def tbl split: option.splits if_splits)
qed auto

lemma unwatch_rest: "fold (\<lambda>f. monitor_unwatch f i) fs s = s\<lparr>monitors := monitors (fold (\<lambda>f. monitor_unwatch f i) fs s)\<rparr>"
proof -
  have "\<exists>m. fold (\<lambda>f. monitor_unwatch f i) fs s = s\<lparr>monitors := m\<rparr>"
  proof (induction fs arbitrary: s)
    case (Cons f fs)
    obtain m where "monitor_unwatch f i s = s\<lparr>monitors := m\<rparr>"
      by (cases "get (monitors s) f") (auto simp: monitor_unwatch_def Let_def intro: that that [of "monitors s"])
    then show ?case using Cons.IH [of "monitor_unwatch f i s"] by auto
  next
    case Nil
    show ?case by (rule exI [of _ "monitors s"]) simp
  qed
  then show ?thesis by auto
qed

lemma watching_me:
  assumes "conn_ok c" "get (monitors (cn_server c)) f = Some w" "my_id c \<in> set w"
  shows "f \<in> set (cd_monitor (my_data c))"
  using assms unfolding conn_ok_def client_ok_def my_data_def my_entry_def by blast

lemma conn_ok_watch_add: "conn_ok c \<Longrightarrow> conn_ok (watch_add folded c)"
proof -
  assume c: "conn_ok c"
  let ?t = "upd_client_data (my_id c) (\<lambda>d. d\<lparr>cd_monitor := hs_insert folded (cd_monitor (my_data c))\<rparr>) (cn_server c)"
  have w: "watch_add folded c = c\<lparr>cn_server := ?t\<lparr>monitors := monitors (monitor_watch folded (my_id c) (cn_server c))\<rparr>\<rparr>"
    by (simp add: watch_add_def upd_me_def upd_srv_def upd_client_data_def upd_client_def monitor_watch_def my_data_def my_entry_def my_id_def)
  show "conn_ok (watch_add folded c)"
    unfolding w by (rule conn_ok_rewatch [OF c refl])
      (auto simp: monitor_watch_def tbl dest: watching_me [OF c] split: if_splits option.splits)
qed

lemma conn_ok_unwatch:
  assumes "conn_ok c" "set l = set (cd_monitor (my_data c)) - set fs"
    and "d = upd_srv (fold (\<lambda>f. monitor_unwatch f (my_id c)) fs) (upd_me (\<lambda>d. d\<lparr>cd_monitor := l\<rparr>) c)"
  shows "conn_ok d"
proof -
  let ?t = "upd_client_data (my_id c) (\<lambda>d. d\<lparr>cd_monitor := l\<rparr>) (cn_server c)"
  have w: "d = c\<lparr>cn_server := ?t\<lparr>monitors := monitors (fold (\<lambda>f. monitor_unwatch f (my_id c)) fs ?t)\<rparr>\<rparr>"
    unfolding assms(3) by (subst upd_srv_def, subst unwatch_rest) (simp add: upd_me_def upd_srv_def)
  have "monitors ?t = monitors (cn_server c)" by (simp add: upd_client_data_def upd_client_def)
  then show ?thesis
    unfolding w using unwatched_index [of "my_id c" fs ?t, OF refl] watching_me [OF assms(1)] assms(2)
    by (intro conn_ok_rewatch [OF assms(1) refl]) (fastforce split: if_splits)
qed

lemma conn_ok_watch_drop: "conn_ok c \<Longrightarrow> conn_ok (watch_drop folded c)"
  by (rule conn_ok_unwatch [of c "hs_remove folded (cd_monitor (my_data c))" "[folded]"])
    (simp_all add: watch_drop_def upd_me_def upd_srv_def upd_client_data_def upd_client_def my_data_def my_entry_def my_id_def)

lemma conn_ok_watch_clear: "conn_ok c \<Longrightarrow> conn_ok (watch_clear c)"
  by (rule conn_ok_unwatch [of c "[]" "cd_monitor (my_data c)"]) (simp_all add: watch_clear_def Let_def)

lemma conn_ok_monitor_add: "conn_ok (snd (snd st)) \<Longrightarrow> conn_ok (snd (snd (monitor_add ts st)))"
proof (induction ts arbitrary: st)
  case (Cons t ts)
  obtain on off c where st: "st = (on, off, c)" by (cases st) auto
  show ?case
    using Cons.prems by (auto simp: st Let_def split: option.split intro!: Cons.IH conn_ok_reply conn_ok_watch_add)
qed simp

lemma conn_ok_fold: "conn_ok c \<Longrightarrow> (\<And>x c. conn_ok c \<Longrightarrow> conn_ok (f x c)) \<Longrightarrow> conn_ok (fold f xs c)"
  by (induction xs arbitrary: c) auto

lemma conn_ok_cases:
  "(b \<Longrightarrow> conn_ok x) \<Longrightarrow> (\<not> b \<Longrightarrow> conn_ok y) \<Longrightarrow> conn_ok (if b then x else y)"
  "(\<And>v. oo = Some v \<Longrightarrow> conn_ok (f v)) \<Longrightarrow> (oo = None \<Longrightarrow> conn_ok x) \<Longrightarrow> conn_ok (case oo of None \<Rightarrow> x | Some v \<Rightarrow> f v)"
  "(\<And>v vs. l = v # vs \<Longrightarrow> conn_ok (g v vs)) \<Longrightarrow> (l = [] \<Longrightarrow> conn_ok x) \<Longrightarrow> conn_ok (case l of [] \<Rightarrow> x | v # vs \<Rightarrow> g v vs)"
  by (simp_all split: option.split list.split)

lemma conn_ok_cmd_monitor: "conn_ok c \<Longrightarrow> conn_ok (cmd_monitor ps c)"
proof -
  have report: "conn_ok (snd (snd st)) \<Longrightarrow> conn_ok (monitor_report st)" for st
    by (auto simp: monitor_report_def tell_if_def split: prod.split)
  show "conn_ok c \<Longrightarrow> ?thesis"
    unfolding cmd_monitor_def Let_def monitor_status_def
    by (intro conn_ok_cases conn_ok_reply report conn_ok_monitor_add conn_ok_fold conn_ok_watch_drop conn_ok_watch_clear) simp_all
qed

lemma conn_ok_cmd_watch: "conn_ok c \<Longrightarrow> conn_ok (cmd_watch ps c)"
proof -
  have answer: "conn_ok c \<Longrightarrow> conn_ok (watch_answer k t n m c)" for k t n m c
    by (simp add: watch_answer_def split_beta Let_def)
  have "conn_ok c \<Longrightarrow> conn_ok (watch_one x c)" for x c
    unfolding watch_one_def Let_def
    by (intro conn_ok_cases conn_ok_reply(1) answer conn_ok_fold conn_ok_watch_add conn_ok_watch_drop conn_ok_cmd_monitor; assumption)
  then show "conn_ok c \<Longrightarrow> ?thesis" by (simp add: cmd_watch_def conn_ok_cmd_monitor conn_ok_fold)
qed

subsection \<open>Limits\<close>

lemma my_data_numeric [simp]: "my_data (numeric k ps t c) = my_data c" "fold_c (numeric k ps t c) = fold_c c" "my_id (numeric k ps t c) = my_id c"
  using hush_fields(3,4) [OF hush_numeric] quiet_fields(1) [OF hush_fields(1) [OF hush_numeric]]
  by (simp_all add: fun_eq_iff fold_c_def fold_key_def)

lemma watch_fields [simp]:
  "cd_monitor (my_data (watch_add f c)) = hs_insert f (cd_monitor (my_data c))" "fold_c (watch_add f c) = fold_c c"
  "cd_monitor (my_data (watch_drop f c)) = hs_remove f (cd_monitor (my_data c))" "cd_monitor (my_data (watch_clear c)) = []"
proof -
  have other: "entries (monitor_watch g i s) = entries s" "info (monitor_watch g i s) = info s" "entries (monitor_unwatch g i s) = entries s" for g i s
    by (auto simp: monitor_watch_def monitor_unwatch_def Let_def split: option.split)
  then have "entries (fold (\<lambda>f. monitor_unwatch f i) fs s) = entries s" for fs i s by (induction fs arbitrary: s) simp_all
  then show "cd_monitor (my_data (watch_add f c)) = hs_insert f (cd_monitor (my_data c))" "fold_c (watch_add f c) = fold_c c"
    "cd_monitor (my_data (watch_drop f c)) = hs_remove f (cd_monitor (my_data c))" "cd_monitor (my_data (watch_clear c)) = []"
    using other by (simp_all add: watch_add_def watch_drop_def watch_clear_def Let_def upd_srv_def upd_me_def upd_client_data_def upd_client_def my_data_def
      my_entry_def my_id_def fun_eq_iff fold_c_def fold_key_def)
qed

lemma watch_one_add: "nick \<noteq> [] \<Longrightarrow> cd_monitor (my_data (watch_one (CHR ''+'' # nick) c)) = hs_insert (fold_c c nick) (cd_monitor (my_data c))
    \<and> fold_c (watch_one (CHR ''+'' # nick) c) = fold_c c"
  by (simp add: watch_one_def Let_def watch_answer_def split_beta split: option.split)

lemma monitor_add_bounded:
  "length (cd_monitor (my_data (snd (snd st)))) \<le> MONITOR_LIMIT \<Longrightarrow>
     length (cd_monitor (my_data (snd (snd (monitor_add ts st))))) \<le> MONITOR_LIMIT"
proof (induction ts arbitrary: st)
  case (Cons t ts)
  obtain on off c where st: "st = (on, off, c)" by (cases st) auto
  then show ?case
    using Cons.prems by (auto simp: Let_def hs_insert_def split: option.split intro!: Cons.IH)
qed simp

text \<open>The limit on watched nicknames holds for one spelling of the command only. \<open>MONITOR\<close> never makes the list longer than the 100
  entries that the server advertises for both \<open>MONITOR\<close> and \<open>WATCH\<close>; \<open>WATCH\<close>, which shares the list, adds every nickname it is
  given, however long the list is.\<close>

theorem watch_unlimited:
  assumes "length (cd_monitor (my_data c)) \<le> MONITOR_LIMIT" "[] \<notin> set nicks"
  shows "length (cd_monitor (my_data (cmd_monitor ps c))) \<le> MONITOR_LIMIT
    \<and> set (cd_monitor (my_data (cmd_watch (map (\<lambda>n. CHR ''+'' # n) nicks) c))) = set (cd_monitor (my_data c)) \<union> fold_c c ` set nicks"
proof
  have report: "cd_monitor (my_data (monitor_report st)) = cd_monitor (my_data (snd (snd st)))" for st
    by (simp add: monitor_report_def tell_if_def Let_def split: prod.split)
  have drops: "length (cd_monitor (my_data (fold (\<lambda>t c. watch_drop (fold_c c t) c) ts c))) \<le> MONITOR_LIMIT" for ts
    using assms(1) by (induction ts arbitrary: c) (simp_all add: hs_remove_def le_trans [OF length_filter_le])
  have list: "my_data (fold (\<lambda>chunk. numeric k [] (Some (join '','' chunk))) ls c) = my_data c" for k ls
    by (induction ls arbitrary: c) simp_all
  show "length (cd_monitor (my_data (cmd_monitor ps c))) \<le> MONITOR_LIMIT"
    using assms(1) monitor_add_bounded [of "([], [], c)"]
    by (simp add: cmd_monitor_def Let_def monitor_status_def report drops list need_more_params_def split: list.split)
  have "set (cd_monitor (my_data (fold watch_one (map (\<lambda>n. CHR ''+'' # n) nicks) c))) = set (cd_monitor (my_data c)) \<union> fold_c c ` set nicks"
    using assms(2)
  proof (induction nicks arbitrary: c)
    case (Cons n nicks)
    then show ?case using watch_one_add [of n c] by auto
  qed simp
  then show "set (cd_monitor (my_data (cmd_watch (map (\<lambda>n. CHR ''+'' # n) nicks) c))) = set (cd_monitor (my_data c)) \<union> fold_c c ` set nicks"
    by (cases nicks) (simp_all add: cmd_watch_def cmd_monitor_def list)
qed

theorem watch_unlimited_witness:
  "cd_monitor (my_data demo_chat) = [''bob''] \<and> set (cd_monitor (my_data (cmd_watch [''+eve''] demo_chat))) = insert (fold_c demo_chat ''eve'') {''bob''}"
proof -
  have m: "cd_monitor (my_data demo_chat) = [''bob'']"
    by (simp add: demo_chat_def demo_joiner_def session_new_def demo_member_def my_data_def my_entry_def my_id_def upd_chan_def)
  then show ?thesis using watch_unlimited [of demo_chat "[''eve'']"] by (simp add: MONITOR_LIMIT_def)
qed

text \<open>A full set of metadata takes no new key, and says otherwise. When the client has the 20 keys it may have and sets one more, its
  metadata stays as it was, yet it is answered with the new value as if it were set, and the change is announced to the subscribers.\<close>

theorem metadata_full_lies:
  assumes "MAX_METADATA_KEYS \<le> length (cd_metadata (my_data c))" "get (cd_metadata (my_data c)) key = None"
    and "valid_metadata_key key" "v \<noteq> []" "length v \<le> MAX_METADATA_VALUE_LEN"
  shows "cmd_metadata [''*'', ''SET'', key, v] c =
      announce_metadata ''*'' key (Some v) (numeric RPL_KEYVALUE [''*'', key, ''*''] (Some v) c)
    \<and> cd_metadata (my_data (cmd_metadata [''*'', ''SET'', key, v] c)) = cd_metadata (my_data c)"
proof -
  have m: "apply_metadata key (Some v) (cd_metadata (my_data c)) = cd_metadata (my_data c)"
    using assms(1,2) by (simp add: apply_metadata_def)
  have same: "upd_me (\<lambda>d. d\<lparr>cd_metadata := apply_metadata key (Some v) (cd_metadata d)\<rparr>) c = c"
    using m by (simp add: upd_me_def upd_srv_def upd_client_data_def upd_client_def my_data_def my_entry_def my_id_def fun_upd_idem)
  have upper: "map to_ascii_uppercase ''SET'' = ''SET''" by code_simp
  have "cmd_metadata [''*'', ''SET'', key, v] c = metadata_assign ''*'' [key, v] c"
    unfolding cmd_metadata_def by (simp only: list.case Let_def upper) simp
  also have "\<dots> = announce_metadata ''*'' key (Some v) (numeric RPL_KEYVALUE [''*'', key, ''*''] (Some v) c)"
    using assms(3-5) by (simp add: metadata_assign_def metadata_set_def metadata_write_def is_self_target_def same Let_def)
  finally show ?thesis
    using hush_fields(4) [OF hush_announce_metadata [OF hush_numeric]] by simp
qed

definition demo_keys :: "(string \<times> string) list" where
  "demo_keys = map (\<lambda>n. (''k'' @ dec n, ''v'')) [0..<20]"

theorem metadata_full_lies_witness:
  "cd_metadata (my_data (cmd_metadata [''*'', ''SET'', ''new'', ''v''] (upd_me (\<lambda>d. d\<lparr>cd_metadata := demo_keys\<rparr>) demo_chat))) = demo_keys"
proof -
  have "length demo_keys = 20" "get demo_keys ''new'' = None" "valid_metadata_key ''new''" by code_simp+
  then show ?thesis
    using metadata_full_lies [of "upd_me (\<lambda>d. d\<lparr>cd_metadata := demo_keys\<rparr>) demo_chat" "''new''" "''v''", THEN conjunct2]
    by (simp add: MAX_METADATA_KEYS_def MAX_METADATA_VALUE_LEN_def)
qed

subsection \<open>Who may moderate\<close>

text \<open>C19: a live channel is moderated by its operators only. A client that is not an operator of the channel, or not
  even on it, can ask for its modes, set them, kick, rename or register the channel, change or clear its metadata, set the topic
  when the channel locks it, or invite when the channel is invite-only, in any way: no channel changes, in members, modes, lists,
  invitations, metadata, topic or name, no channel appears or goes, and no registration changes. All it gets is replies.\<close>

theorem only_operators_moderate:
  assumes "find_channel (cn_server c) (fold_c c name) = Some h"
    and "\<nexists>p. get (ch_members (cdata (cn_server c) h)) (my_id c) = Some p \<and> mp_op p"
    and "d = channel_mode name args c \<or> d = kick_one args name nick c \<or> d = cmd_rename (name # args) c
      \<or> d = register_channel_cmd name c \<or> d = cmd_topic (name # args) c \<and> topic_lock (ch_modes (cdata (cn_server c) h))
      \<or> d = cmd_invite (nick # name # args) c \<and> invite_only (ch_modes (cdata (cn_server c) h))
      \<or> (d = metadata_assign name args c \<or> d = metadata_erase name c) \<and> is_valid_channel name \<and> \<not> is_self_target name c"
  shows "chans (cn_server d) = chans (cn_server c) \<and> channels (cn_server d) = channels (cn_server c)
    \<and> registered_channels (cn_server d) = registered_channels (cn_server c) \<and> remote_channels (cn_server d) = remote_channels (cn_server c)
    \<and> (\<forall>i. cd_channels (ce_data (entries (cn_server d) i)) = cd_channels (ce_data (entries (cn_server c) i)))"
proof -
  let ?p = "get (ch_members (cdata (cn_server c) h)) (my_id c)"
  have p: "\<not> mp_op p" if "?p = Some p" for p using assms(2) that by blast
  have "hush c (channel_mode name args c)"
    using p by (auto simp: channel_mode_def Let_def assms(1) intro!: hushing.intros hush_queries split: option.split list.split)
  moreover have "hush c (kick_one args name nick c)"
    using p by (auto simp: kick_one_def Let_def assms(1) intro!: hushing.intros split: option.split)
  moreover have "hush c (cmd_rename (name # args) c)"
    using p by (auto simp: cmd_rename_def Let_def assms(1) intro!: hushing.intros split: option.split list.split)
  moreover have "hush c (register_channel_cmd name c)"
    using p by (auto simp: register_channel_cmd_def register_fail_def Let_def assms(1) intro!: hushing.intros split: option.split)
  moreover have "hush c (cmd_topic (name # args) c)" if "topic_lock (ch_modes (cdata (cn_server c) h))"
    using p that by (auto simp: cmd_topic_def Let_def assms(1) intro!: hushing.intros hush_queries split: option.split list.split)
  moreover have "hush c (cmd_invite (nick # name # args) c)" if "invite_only (ch_modes (cdata (cn_server c) h))"
  proof -
    have refuse: "\<exists>code text ps. may_invite h b shown c = Some (numeric code ps (Some text))" for b shown
      using p that by (cases "get (ch_members (cdata (cn_server c) h)) (my_id c)") (auto simp: may_invite_def Let_def simp del: list.inject)
    have reply: "hush c (numeric code ps t c)" for code ps t by (rule hush_replies(4) [OF hush.frame_refl])
    have "hush c (invite_local h i c)" for i
      using refuse [of "has_member (cdata (cn_server c) h) i" "entry_nick (entries (cn_server c) i)"] reply by (auto simp: invite_local_def Let_def)
    moreover have "hush c (invite_remote u name c)" for u
      using refuse [of "get (ch_remote_members (cdata (cn_server c) h)) (ru_uid u) \<noteq> None" "ru_nick u"] reply
      by (auto simp: invite_remote_def Let_def assms(1))
    ultimately show ?thesis using reply by (simp add: cmd_invite_def assms(1) split: option.split)
  qed
  moreover have "hush c (metadata_assign name args c)" "hush c (metadata_erase name c)" if "is_valid_channel name" "\<not> is_self_target name c"
  proof -
    have "metadata_write name g c = (False, c)" for g
      using p that by (auto simp: metadata_write_def assms(1) split: option.split)
    then show "hush c (metadata_assign name args c)" "hush c (metadata_erase name c)"
      by (auto simp: metadata_assign_def metadata_erase_def metadata_set_def metadata_clear_def metadata_fail_def Let_def
        intro!: hushing.intros split: list.split option.split)
  qed
  ultimately have "hush c d" using assms(3) by blast
  from quiet_fields [OF hush_fields(1) [OF this]] show ?thesis by simp
qed

theorem only_operators_moderate_witness:
  "chans (cn_server (channel_mode ''#a'' [''+k'', ''x''] demo_joiner)) = chans (cn_server demo_joiner)
   \<and> chans (cn_server (cmd_rename [''#a'', ''#b''] demo_joiner)) = chans (cn_server demo_joiner)"
proof -
  have "find_channel (cn_server demo_joiner) (fold_c demo_joiner ''#a'') = Some 0"
    using demo_member_keys(2) by (simp add: demo_joiner_def fold_c_def find_channel_def demo_member_def)
  moreover have "\<nexists>p. get (ch_members (cdata (cn_server demo_joiner) 0)) (my_id demo_joiner) = Some p \<and> mp_op p"
    by (simp add: demo_joiner_def demo_member_def my_id_def session_new_def prefix_default_def cdata_def)
  ultimately show ?thesis
    using only_operators_moderate [of demo_joiner "''#a''" 0 "channel_mode ''#a'' [''+k'', ''x''] demo_joiner" "[''+k'', ''x'']"]
      only_operators_moderate [of demo_joiner "''#a''" 0 "cmd_rename [''#a'', ''#b''] demo_joiner" "[''#b'']"] by simp
qed

end
