(* ===== verification/Dispatch.thy ===== *)
theory Dispatch
  imports Personal
begin

text \<open>
  The command dispatcher (\<open>ferrixd/src/command.rs\<close>): from a parsed message to its handler, with the commands that work
  before registration, the window for \<open>WEBIRC\<close>, and the gate for everything else.
\<close>

subsection \<open>Verbs\<close>

definition upper_verb :: "string \<Rightarrow> string option" where
  "upper_verb name = (if 32 < length name then None else Some (map to_ascii_uppercase name))"

definition METRIC_VERBS :: "string list" where
  "METRIC_VERBS =
     [''CAP'', ''AUTHENTICATE'', ''WEBIRC'', ''PASS'', ''NICK'', ''USER'', ''PING'', ''PONG'', ''QUIT'', ''AWAY'',
      ''BATCH'', ''REGISTER'', ''JOIN'', ''PART'', ''PRIVMSG'', ''NOTICE'', ''TAGMSG'', ''NAMES'', ''WHO'', ''WHOIS'',
      ''USERHOST'', ''ISON'', ''TOPIC'', ''MODE'', ''SETNAME'', ''KICK'', ''INVITE'', ''MONITOR'', ''WATCH'',
      ''SILENCE'', ''GLOBOPS'', ''OPERWALL'', ''MAP'', ''MARKREAD'', ''REDACT'', ''RENAME'', ''OPER'', ''WALLOPS'',
      ''KILL'', ''KLINE'', ''UNKLINE'', ''GLINE'', ''UNGLINE'', ''DLINE'', ''UNDLINE'', ''CHGHOST'', ''REHASH'',
      ''CONNECT'', ''SQUIT'', ''CHATHISTORY'', ''METADATA'', ''LIST'', ''LUSERS'', ''MOTD'', ''VERSION'', ''TIME'',
      ''ADMIN'', ''INFO'', ''LINKS'', ''HELP'', ''WHOWAS'', ''STATS'', ''KNOCK'', ''DIE'']"

definition metric_label :: "message \<Rightarrow> string" where
  "metric_label msg =
     (case mcommand msg of
        Numeric _ \<Rightarrow> ''other''
      | Named name \<Rightarrow>
          (case upper_verb name of
             None \<Rightarrow> ''other''
           | Some verb \<Rightarrow> if verb \<in> set METRIC_VERBS then verb else ''other''))"

subsection \<open>Dispatch\<close>

definition mark_first :: "conn \<Rightarrow> conn" where
  "mark_first = upd_ses (\<lambda>s. s\<lparr>ss_first_command := True\<rparr>)"

text \<open>The commands that work before registration as after it.\<close>

definition early_handlers :: "string list \<Rightarrow> (string \<times> (conn \<Rightarrow> conn)) list" where
  "early_handlers params =
     [(''CAP'', cmd_cap params), (''AUTHENTICATE'', cmd_authenticate params), (''PASS'', cmd_pass params), (''NICK'', cmd_nick params),
      (''USER'', cmd_user params), (''PING'', cmd_ping params), (''PONG'', \<lambda>c. c), (''QUIT'', cmd_quit params)]"

definition early_handler :: "string option \<Rightarrow> string list \<Rightarrow> conn \<Rightarrow> (conn \<Rightarrow> conn) option" where
  "early_handler verb params c =
     (case verb of
        None \<Rightarrow> None
      | Some v \<Rightarrow>
          (case map_of (early_handlers params) v of
             Some h \<Rightarrow> Some h
           | None \<Rightarrow> if v = ''AWAY'' \<and> has (my_caps c) PreAway then Some (cmd_away params) else None))"

text \<open>The commands of registered clients; three of them are about the process beside the shared state.\<close>

definition late_handlers :: "nat \<Rightarrow> message \<Rightarrow> string list \<Rightarrow> (string \<times> (conn \<Rightarrow> conn)) list" where
  "late_handlers started_at msg params =
     [(''BATCH'', cmd_batch params), (''REGISTER'', cmd_register params), (''JOIN'', cmd_join params), (''PART'', cmd_part params),
      (''PRIVMSG'', cmd_message params False (client_tag_string msg)), (''NOTICE'', cmd_message params True (client_tag_string msg)),
      (''TAGMSG'', cmd_tagmsg msg), (''NAMES'', cmd_names params), (''WHO'', cmd_who params), (''WHOIS'', cmd_whois params),
      (''USERHOST'', cmd_userhost params), (''ISON'', cmd_ison params), (''TOPIC'', cmd_topic params), (''MODE'', cmd_mode params),
      (''AWAY'', cmd_away params), (''SETNAME'', cmd_setname params), (''KICK'', cmd_kick params), (''INVITE'', cmd_invite params),
      (''MONITOR'', cmd_monitor params), (''WATCH'', cmd_watch params), (''SILENCE'', cmd_silence params),
      (''GLOBOPS'', cmd_globops params), (''OPERWALL'', cmd_globops params), (''MAP'', cmd_map), (''MARKREAD'', cmd_markread params),
      (''REDACT'', cmd_redact params), (''RENAME'', cmd_rename params), (''OPER'', cmd_oper params), (''WALLOPS'', cmd_wallops params),
      (''KILL'', cmd_kill params), (''KLINE'', cmd_kline params), (''UNKLINE'', cmd_unkline params), (''GLINE'', cmd_gline params),
      (''UNGLINE'', cmd_ungline params), (''DLINE'', cmd_dline params), (''UNDLINE'', cmd_undline params), (''CHGHOST'', cmd_chghost params),
      (''SQUIT'', cmd_squit params), (''CHATHISTORY'', cmd_chathistory params), (''METADATA'', cmd_metadata params),
      (''LIST'', cmd_list params), (''LUSERS'', send_lusers), (''MOTD'', send_motd), (''VERSION'', cmd_version), (''TIME'', cmd_time),
      (''ADMIN'', cmd_admin), (''INFO'', cmd_info), (''LINKS'', cmd_links), (''HELP'', cmd_help params), (''WHOWAS'', cmd_whowas params),
      (''STATS'', cmd_stats started_at params), (''KNOCK'', cmd_knock params)]"

definition runtime_handlers :: "string list \<Rightarrow> (string \<times> (runtime \<times> conn \<Rightarrow> runtime \<times> conn)) list" where
  "runtime_handlers params = [(''REHASH'', cmd_rehash), (''CONNECT'', cmd_connect params), (''DIE'', cmd_die)]"

definition dispatch_late :: "string option \<Rightarrow> string \<Rightarrow> message \<Rightarrow> runtime \<times> conn \<Rightarrow> runtime \<times> conn" where
  "dispatch_late verb name msg st =
     (case st of (rt, c) \<Rightarrow>
        (let unknown = (rt, numeric ERR_UNKNOWNCOMMAND [name] (Some ''Unknown command'') c)
         in case verb of
              None \<Rightarrow> unknown
            | Some v \<Rightarrow>
                (case map_of (late_handlers (rt_started_at rt) msg (mparams msg)) v of
                   Some h \<Rightarrow> (rt, h c)
                 | None \<Rightarrow>
                     (case map_of (runtime_handlers (mparams msg)) v of
                        Some h \<Rightarrow> h (rt, c)
                      | None \<Rightarrow> unknown))))"

definition dispatch :: "message \<Rightarrow> runtime \<times> conn \<Rightarrow> runtime \<times> conn" where
  "dispatch msg st =
     (case st of (rt, c) \<Rightarrow>
        (case mcommand msg of
           Numeric _ \<Rightarrow> (rt, mark_first c)
         | Named name \<Rightarrow>
             (let verb = upper_verb name; params = mparams msg
              in if verb = Some ''WEBIRC'' then (rt, cmd_webirc params c)
                 else
                   (let c = mark_first c
                    in case early_handler verb params c of
                         Some h \<Rightarrow> (rt, h c)
                       | None \<Rightarrow>
                           if \<not> ss_registered (cn_ses c)
                           then (rt, numeric ERR_NOTREGISTERED [] (Some ''You have not registered'') c)
                           else
                             (case try_multiline_accumulate msg c of
                                (True, c) \<Rightarrow> (rt, c)
                              | (False, c) \<Rightarrow> dispatch_late verb name msg (rt, c))))))"

subsection \<open>The invariant of connections\<close>

lemma kept_mark_first: "kept c (mark_first c)"
  unfolding mark_first_def by (rule kept_upd_ses) simp_all

lemma kept_accumulate: "kept c (snd (try_multiline_accumulate msg c))"
  unfolding try_multiline_accumulate_def Let_def split_beta
  by (auto intro!: kept_replies kept_upd_ses split: option.split command.split list.split)

text \<open>Each handler in the tables keeps the invariant of a registered connection.\<close>

lemma conn_ok_early:
  assumes "conn_ok c" "early_handler verb params c' = Some h"
  shows "conn_ok (h c)"
proof -
  have "h \<in> {cmd_cap params, cmd_authenticate params, cmd_pass params, cmd_nick params, cmd_user params, cmd_ping params, \<lambda>c. c, cmd_quit params, cmd_away params}"
    using assms(2) by (auto simp: early_handler_def early_handlers_def split: option.splits if_splits)
  then show ?thesis
    using assms(1) conn_ok_cmd_cap conn_ok_cmd_nick conn_ok_cmd_user
      conn_ok_kept [OF assms(1) kept_cmd_authenticate] conn_ok_kept [OF assms(1) kept_cmd_pass] conn_ok_kept [OF assms(1) kept_cmd_ping]
      conn_ok_kept [OF assms(1) kept_cmd_quit] conn_ok_kept [OF assms(1) kept_cmd_away] by auto
qed

lemma conn_ok_late:
  assumes "conn_ok c" "ss_registered (cn_ses c)"
  shows "list_all (\<lambda>(v, h). conn_ok (h c)) (late_handlers n msg params)"
proof -
  note k = assms(1) [THEN conn_ok_kept]
  show ?thesis
    unfolding late_handlers_def list.pred_inject prod.case
    by (intro conjI TrueI; (rule k, rule kepts, rule kept.frame_refl)?)
      (use assms in \<open>simp_all add: conn_ok_cmd_join conn_ok_cmd_part conn_ok_cmd_kick conn_ok_cmd_oper conn_ok_cmd_rename conn_ok_cmd_monitor conn_ok_cmd_watch\<close>)
qed

lemma conn_ok_dispatch_late:
  assumes "conn_ok c" "ss_registered (cn_ses c)"
  shows "conn_ok (snd (dispatch_late verb name msg (rt, c)))"
proof -
  have unknown: "conn_ok (numeric ERR_UNKNOWNCOMMAND [name] (Some ''Unknown command'') c)"
    using assms(1) by simp
  have run: "conn_ok (snd (h (rt, c)))" if "map_of (runtime_handlers ps) v = Some h" for ps v h
    using that conn_ok_kept [OF assms(1) kept_runtime_commands(1) [of c "(rt, c)"]]
      conn_ok_kept [OF assms(1) kept_runtime_commands(2) [of c "(rt, c)"]] conn_ok_kept [OF assms(1) kept_runtime_commands(3) [of c "(rt, c)"]]
    by (auto simp: runtime_handlers_def kept.frame_refl split: if_splits)
  have late: "conn_ok (h c)" if "map_of (late_handlers n msg ps) v = Some h" for n ps v h
    using conn_ok_late [OF assms, of n msg ps] map_of_SomeD [OF that] by (auto simp: list_all_iff)
  show ?thesis
    using unknown run late by (auto simp: dispatch_late_def Let_def split: option.split)
qed

text \<open>The dispatcher knows the verbs of the metric table and no others.\<close>

lemma metric_verbs_dispatched:
  "set METRIC_VERBS = insert ''WEBIRC'' (fst ` set (early_handlers ps) \<union> fst ` set (late_handlers n msg ps) \<union> fst ` set (runtime_handlers ps))"
  by (simp add: METRIC_VERBS_def early_handlers_def late_handlers_def runtime_handlers_def insert_commute)

text \<open>Whatever a client sends, its connection stays consistent.\<close>

lemma conn_ok_dispatch:
  assumes "conn_ok c"
  shows "conn_ok (snd (dispatch msg (rt, c)))"
proof -
  have m: "conn_ok (mark_first c)" "ss_registered (cn_ses (mark_first c)) = ss_registered (cn_ses c)"
    using conn_ok_kept [OF assms kept_mark_first] by (simp_all add: mark_first_def)
  have webirc: "conn_ok (cmd_webirc ps c)" for ps
    by (rule conn_ok_kept [OF assms]) (rule kepts, rule kept.frame_refl)
  have gate: "conn_ok (numeric ERR_NOTREGISTERED [] (Some ''You have not registered'') (mark_first c))"
    using m(1) by simp
  have acc: "conn_ok d" "ss_registered (cn_ses d) = ss_registered (cn_ses c)" if "try_multiline_accumulate msg (mark_first c) = (b, d)" for b d
    using conn_ok_kept [OF m(1) kept_accumulate [of _ msg]] kept_accumulate [of "mark_first c" msg] m(2) that by (auto dest: keptD)
  show ?thesis
    using m webirc gate acc conn_ok_early [OF m(1)] conn_ok_dispatch_late
    by (auto simp: dispatch_def Let_def split: command.split option.split prod.split bool.split)
qed

end
