(* ===== verification/Company.thy ===== *)
theory Company
  imports Dispatch
begin

text \<open>
  What the commands of one client leave alone of the others (\<open>ferrixd/src/command.rs\<close>, \<open>session.rs\<close>): many sessions
  share one server, and what a session knows of its own client must survive whatever the others do. Shown here for
  every message the dispatcher can be given, together with who becomes an operator.
\<close>

subsection \<open>Frames\<close>

text \<open>Other clients may be put out of channels, and operators may step down.\<close>

definition peer :: "client_data \<Rightarrow> client_data \<Rightarrow> bool" where
  "peer d e \<longleftrightarrow> cd_nick e = cd_nick d \<and> cd_registered e = cd_registered d \<and> cd_monitor e = cd_monitor d
     \<and> (cd_oper e \<longrightarrow> cd_oper d) \<and> (cd_channels d = [] \<longrightarrow> cd_channels e = [])"

definition others :: "nat \<Rightarrow> server \<Rightarrow> server \<Rightarrow> bool" where
  "others i s t \<longleftrightarrow> info t = info s \<and> next_id t = next_id s \<and> ip_conns t = ip_conns s
     \<and> (\<forall>j. j \<noteq> i \<longrightarrow> (j \<in> set (by_id t) \<longleftrightarrow> j \<in> set (by_id s)) \<and> peer (ce_data (entries s j)) (ce_data (entries t j)))"

definition modest :: "conn \<Rightarrow> conn \<Rightarrow> bool" where
  "modest c d \<longleftrightarrow> my_id d = my_id c \<and> others (my_id c) (cn_server c) (cn_server d) \<and> (cd_oper (my_data d) \<longrightarrow> cd_oper (my_data c))"

lemma peer_refl [simp]: "peer d d"
  by (simp add: peer_def)

lemma peer_trans: "peer d e \<Longrightarrow> peer e f \<Longrightarrow> peer d f"
  by (simp add: peer_def)

lemma peer_tame: "tame s t \<Longrightarrow> peer (ce_data (entries s j)) (ce_data (entries t j))"
  using tame_fields(9-11) [of s t j] tameD(3,4) [of s t j] by (auto simp: peer_def)

lemma others_refl [simp]: "others i s s"
  by (simp add: others_def)

lemma others_trans: "others i s t \<Longrightarrow> others i t u \<Longrightarrow> others i s u"
  unfolding others_def using peer_trans by (metis (no_types))

lemma others_tame: "tame s t \<Longrightarrow> others i s t"
  by (simp add: others_def peer_tame tame_fields)

lemma others_upd [simp]: "others i s (upd_client_data i f s)" "others i s (s\<lparr>monitors := m\<rparr>)" "others i s (s\<lparr>clients := k\<rparr>)"
  by (simp_all add: others_def upd_client_data_def upd_client_def)

interpretation modest: handler_frame modest
proof
  show "modest s s" for s by (simp add: modest_def)
  show "modest s t \<Longrightarrow> modest t u \<Longrightarrow> modest s u" for s t u by (auto simp: modest_def intro: others_trans)
  show "modest c d" if "hush c d" for c d
    using hush_fields(1,3,9) [OF that] tame_quiet [of "cn_server c" "cn_server d"] tameD(4) [of "cn_server c" "cn_server d"]
    by (auto simp: modest_def my_data_def my_entry_def intro: others_tame)
qed

declare modest.frame_refl [simp]

named_theorems modests \<open>how the frame around the others is built up\<close>

declare modest.intros [modests]

lemma modest_step: "kept d e \<Longrightarrow> modest d e"
  using keptD(1-3) [of d e] tameD(4) [of "cn_server d" "cn_server e"] by (auto simp: modest_def my_data_def my_entry_def intro: others_tame)

lemma modest_kept: "modest c d \<Longrightarrow> kept d e \<Longrightarrow> modest c e"
  by (rule modest.frame_trans [OF _ modest_step])

lemma modest_upd_ses [modests]: "modest c d \<Longrightarrow> ss_id (f (cn_ses d)) = ss_id (cn_ses d) \<Longrightarrow> modest c (upd_ses f d)"
  by (simp add: modest_def my_id_def my_data_def my_entry_def)

lemma modest_server:
  "modest c d \<Longrightarrow> others (my_id d) (cn_server d) s \<Longrightarrow> (cd_oper (ce_data (entries s (my_id d))) \<longrightarrow> cd_oper (my_data d)) \<Longrightarrow> modest c (d\<lparr>cn_server := s\<rparr>)"
  by (auto simp: modest_def my_id_def my_data_def my_entry_def intro: others_trans)

lemma modest_upd_srv:
  "modest c d \<Longrightarrow> others (my_id d) (cn_server d) (f (cn_server d)) \<Longrightarrow>
     (cd_oper (ce_data (entries (f (cn_server d)) (my_id d))) \<longrightarrow> cd_oper (my_data d)) \<Longrightarrow> modest c (upd_srv f d)"
  unfolding upd_srv_def by (rule modest_server)

lemma modest_upd_me [modests]: "modest c d \<Longrightarrow> (cd_oper (f (my_data d)) \<longrightarrow> cd_oper (my_data d)) \<Longrightarrow> modest c (upd_me f d)"
  unfolding upd_me_def by (rule modest_upd_srv, assumption, rule others_upd) (simp add: upd_client_data_def upd_client_def my_data_def my_entry_def)

lemma modest_tame_srv [modests]: "modest c d \<Longrightarrow> tame (cn_server d) (f (cn_server d)) \<Longrightarrow> modest c (upd_srv f d)"
  using tameD(4) [of "cn_server d" "f (cn_server d)" "my_id d"]
  by (intro modest_upd_srv) (simp_all add: others_tame my_data_def my_entry_def)

lemma modest_tame_server: "modest c d \<Longrightarrow> tame (cn_server d) s \<Longrightarrow> modest c (d\<lparr>cn_server := s\<rparr>)"
  using modest_tame_srv [of c d "\<lambda>_. s"] by (simp add: upd_srv_def)

lemma modest_safe_srv [modests]: "modest c d \<Longrightarrow> safe (cn_server d) (f (cn_server d)) \<Longrightarrow> modest c (upd_srv f d)"
  by (rule modest_tame_srv) (simp_all add: safe_def)

lemma modest_sub [modests]:
  assumes "modest c d"
  shows "modest c (apply_cloak d)" "modest c (welcome_burst d)" "modest c (observe hook d)" "modest c (snd (consult hk d))" "modest c (announce_nick a b d)"
  by (rule modest_kept [OF assms], intro kepts kept_consult; simp)+

subsection \<open>Registration and nicknames\<close>

lemma modest_maybe_register [modests]: "modest c d \<Longrightarrow> modest c (maybe_register d)"
  unfolding maybe_register_def complete_registration_def by (intro modests) simp_all

lemma modest_cmd_user: "modest c (cmd_user ps c)"
  unfolding cmd_user_def by (intro modests) simp_all

lemma modest_cmd_cap: "modest c (cmd_cap ps c)"
  unfolding cmd_cap_def by (intro modests) (auto simp: safe_set_caps intro!: modests split: req_parse.split)

lemma others_claim: "claim_nick folded i s = (b, t) \<Longrightarrow> others i s t \<and> entries t = entries s"
  by (auto simp: claim_nick_def others_def split: if_splits option.splits)

lemma modest_cmd_nick: "modest c (cmd_nick ps c)"
proof -
  have claim: "modest c (d\<lparr>cn_server := t\<rparr>)" if "modest c d" "claim_nick f i (cn_server d) = (b, t)" "i = my_id d" for d t f i b
    using that others_claim [OF that(2)] by (intro modest_server) (simp_all add: my_data_def my_entry_def)
  have free: "modest c ((if b then upd_srv (release_nick f) else id) d)" if "modest c d" for b f d
    using that by (auto simp: release_nick_def my_data_def my_entry_def intro!: modest_upd_srv)
  have adopt: "modest c (adopt_nick a b d)" if "modest c d" for a b d
    unfolding adopt_nick_def using that by (intro modests) simp_all
  have told: "modest c (broadcast_nick_change a b d)" if "modest c d" for a b d
    by (rule modest_kept [OF that], intro kepts; simp)
  show ?thesis
    unfolding cmd_nick_def Let_def split_beta
    by (intro modest.cases modests adopt free told; (simp_all add: prod_eq_iff)?) (auto intro!: modests claim simp: prod_eq_iff)
qed

subsection \<open>Channels\<close>

lemma modest_drop_member [modests]: "modest c d \<Longrightarrow> modest c (upd_srv (drop_member f h i) d)"
proof (rule modest_tame_srv)
  show "tame (cn_server d) (drop_member f h i (cn_server d))"
    unfolding drop_member_def by (intro tame.after_steps tame.chan_step) simp_all
qed

lemma modest_part_one: "modest c d \<Longrightarrow> modest c (part_one name r d)"
  unfolding part_one_def part_leave_def by (intro modests) (simp_all add: safe_reap)

lemma modest_cmd_part: "modest c (cmd_part ps c)"
  unfolding cmd_part_def by (intro modests modest_part_one) simp_all

lemma others_begin_join: "begin_join f n s = (p, t) \<Longrightarrow> others i s t \<and> entries t = entries s"
  by (auto simp: begin_join_def new_channel_def add_joining_def others_def Let_def split: option.splits)

lemma others_end_join: "others i s (end_join f h s) \<and> entries (end_join f h s) = entries s"
  by (simp add: end_join_def others_def reap_channel_reapable upd_history_def)

lemma modest_join_enter: "modest c d \<Longrightarrow> modest c (join_enter f h b d)"
proof -
  have add: "modest c (upd_srv (add_member f h (my_id d) p) d)" if "modest c d" for p d
    unfolding add_member_def
    by (rule modest_upd_srv [OF that], rule others_trans [OF others_tame [OF tame.chan_step] others_upd(1)])
      (simp_all add: upd_client_data_def upd_client_def my_data_def my_entry_def)
  show "modest c d \<Longrightarrow> ?thesis"
    unfolding join_enter_def Let_def by (rule modest_kept [OF add], assumption, rule kept_join_announce, rule kept.frame_refl)
qed

lemma modest_join_one: "modest c d \<Longrightarrow> modest c (join_one name key d)"
proof -
  have enter: "modest c d \<Longrightarrow> modest c (join_admit f n k h b d)" for f n k h b d
    unfolding join_admit_def by (intro modests modest_join_enter) (auto simp: safe_upd_chan local_who_def remote_who_def intro!: modests)
  have start: "modest c (d\<lparr>cn_server := t\<rparr>)" if "modest c d" "begin_join f n (cn_server d) = (p, t)" for d f n p t
    using that others_begin_join [OF that(2)] by (intro modest_server) (simp_all add: my_data_def my_entry_def)
  have stop: "modest c (upd_srv (end_join f h) d)" if "modest c d" for f h d
    using others_end_join by (intro modest_upd_srv that) (simp_all add: my_data_def my_entry_def)
  show "modest c d \<Longrightarrow> ?thesis"
    unfolding join_one_def Let_def by (auto intro!: modests stop enter start split: prod.split)
qed

lemma modest_cmd_join: "modest c (cmd_join ps c)"
proof -
  have mine: "modest c d \<Longrightarrow> modest c (part_mine f d)" for f d
    unfolding part_mine_def by (intro modests modest_part_one) simp_all
  show ?thesis unfolding cmd_join_def split_beta Let_def by (intro modest.cases modest.loop modests mine modest_join_one modest.frame_refl)
qed

lemma modest_cmd_kick: "modest c (cmd_kick ps c)"
proof -
  have out: "modest c (upd_srv (kick_target_out f h t) d)" if "modest c d" for f h t d
  proof (rule modest_tame_srv [OF that])
    show "tame (cn_server d) (kick_target_out f h t (cn_server d))"
      unfolding kick_target_out_def drop_member_def by (cases t) (auto intro!: tame.after_steps tame.chan_step)
  qed
  have one: "modest c d \<Longrightarrow> modest c (kick_one ps chan nick d)" for ps chan nick d
    unfolding kick_one_def kick_out_def by (intro modests out) (simp_all add: safe_reap)
  show ?thesis unfolding cmd_kick_def split_beta Let_def by (intro modest.cases modest.loop modests one modest.frame_refl)
qed

lemma rename_registries:
  "next_id (snd (rename_channel f n s)) = next_id s \<and> ip_conns (snd (rename_channel f n s)) = ip_conns s"
proof -
  have member: "next_id (rename_member f g i u) = next_id u \<and> ip_conns (rename_member f g i u) = ip_conns u" for f g i u
    by (simp add: rename_member_def upd_client_data_def upd_client_def split: option.split)
  have members: "next_id (rename_members f g ids u) = next_id u \<and> ip_conns (rename_members f g ids u) = ip_conns u" for f g ids u
    unfolding rename_members_fold using member by (induction ids arbitrary: u) simp_all
  show ?thesis
    by (simp add: rename_channel_def Let_def members identities upd_history_def rename_registration_def persist_registered_def store_send_def
      split: option.split)
qed

lemma modest_cmd_rename:
  assumes "conn_ok c"
  shows "modest c (cmd_rename ps c)"
proof -
  have "modest c (c\<lparr>cn_server := s\<rparr>)" if "rename_channel f n (cn_server c) = (r, s)" for f n r s
  proof -
    note e = rename_entries [OF _ refl, where s = "cn_server c" and f = f and n = n, unfolded that snd_conv]
    have ok: "net_ok (cn_server c)" using assms by (simp add: conn_ok_def)
    have "peer (ce_data (entries (cn_server c) j)) (ce_data (entries s j))" for j
      using e(5) [OF ok, of j, THEN arg_cong [of _ _ cd_nick]] e(5) [OF ok, of j, THEN arg_cong [of _ _ cd_registered]]
        e(5) [OF ok, of j, THEN arg_cong [of _ _ cd_monitor]] e(5) [OF ok, of j, THEN arg_cong [of _ _ cd_oper]] e(6) [OF ok, of j]
      by (simp add: peer_def)
    moreover have "next_id s = next_id (cn_server c) \<and> ip_conns s = ip_conns (cn_server c)"
      using rename_registries [of f n "cn_server c"] that by simp
    ultimately show ?thesis
      using e(1,3) [OF ok] by (intro modest_server) (auto simp: others_def peer_def my_data_def my_entry_def)
  qed
  moreover have "modest c (upd_srv (propagate_rename i o' n r) (upd_srv (broadcast_rename h o' m r) d))" if "modest c d" for d i o' n r h m
    by (rule modest_kept [OF that]) (intro kepts; simp)
  ultimately show ?thesis
    by (auto simp: cmd_rename_def Let_def intro!: modests split: list.split option.split sum.split rename_error.split prod.split)
qed

subsection \<open>Watch lists\<close>

lemma modest_monitors: "modest c d \<Longrightarrow> (\<And>s. \<exists>m. f s = s\<lparr>monitors := m\<rparr>) \<Longrightarrow> modest c (upd_srv f d)"
proof -
  assume d: "modest c d" and f: "\<And>s. \<exists>m. f s = s\<lparr>monitors := m\<rparr>"
  obtain m where "f (cn_server d) = (cn_server d)\<lparr>monitors := m\<rparr>" using f by blast
  then show "modest c (upd_srv f d)" by (intro modest_upd_srv d) (simp_all add: my_data_def my_entry_def)
qed

lemma modest_watch [modests]:
  assumes "modest c d"
  shows "modest c (watch_add f d)" "modest c (watch_drop f d)" "modest c (watch_clear d)"
proof -
  have watch: "\<exists>m. monitor_watch f i s = s\<lparr>monitors := m\<rparr>" for f i s by (auto simp: monitor_watch_def)
  have unwatch: "\<exists>m. fold (\<lambda>f. monitor_unwatch f i) fs s = s\<lparr>monitors := m\<rparr>" for fs i s by (metis unwatch_rest)
  have drop: "\<exists>m. monitor_unwatch f i s = s\<lparr>monitors := m\<rparr>" for f i s using unwatch [of i "[f]" s] by simp
  have mine: "modest c (upd_me (\<lambda>d. d\<lparr>cd_monitor := l d\<rparr>) d)" for l by (rule modest_upd_me [OF assms]) simp
  show "modest c (watch_add f d)" unfolding watch_add_def by (rule modest_monitors [OF mine watch])
  show "modest c (watch_drop f d)" unfolding watch_drop_def by (rule modest_monitors [OF mine drop])
  show "modest c (watch_clear d)" unfolding watch_clear_def Let_def by (rule modest_monitors [OF mine unwatch])
qed

lemma modest_monitor_add: "modest c (snd (snd st)) \<Longrightarrow> modest c (snd (snd (monitor_add ts st)))"
proof (induction ts arbitrary: st)
  case (Cons t ts)
  obtain on off d where st: "st = (on, off, d)" by (cases st) auto
  show ?case
    using Cons.prems by (auto simp: st Let_def split: option.split intro!: Cons.IH modests)
qed simp

lemma modest_tell: "modest c d \<Longrightarrow> (\<And>d. modest c d \<Longrightarrow> modest c (f d)) \<Longrightarrow> modest c (tell_if b f d)"
  by (simp add: tell_if_def)

lemma modest_cmd_monitor [modests]: "modest c d \<Longrightarrow> modest c (cmd_monitor ps d)"
proof -
  have report: "modest c (snd (snd st)) \<Longrightarrow> modest c (monitor_report st)" for st
    unfolding monitor_report_def Let_def split_beta by (intro modest_tell modests; assumption)
  show "modest c d \<Longrightarrow> ?thesis"
    unfolding cmd_monitor_def monitor_status_def Let_def split_beta
    by (intro modest.cases modest.loop modest_tell modests report modest_monitor_add) simp_all
qed

lemma modest_cmd_watch: "modest c (cmd_watch ps c)"
proof -
  have answer: "modest c d \<Longrightarrow> modest c (watch_answer k t n m d)" for k t n m d
    unfolding watch_answer_def split_beta Let_def by (intro modests)
  have "modest c d \<Longrightarrow> modest c (watch_one x d)" for x d
    unfolding watch_one_def Let_def by (intro modest.cases modest.loop modests answer; assumption)
  then show ?thesis unfolding cmd_watch_def by (intro modest.cases modest.loop modests; simp)
qed

subsection \<open>Every message\<close>

lemma modest_early: "early_handler verb params c' = Some h \<Longrightarrow> modest c (h c)"
proof -
  assume "early_handler verb params c' = Some h"
  then have "h \<in> {cmd_cap params, cmd_authenticate params, cmd_pass params, cmd_nick params, cmd_user params, cmd_ping params, \<lambda>c. c, cmd_quit params, cmd_away params}"
    by (auto simp: early_handler_def early_handlers_def split: option.splits if_splits)
  then show ?thesis
    using modest_cmd_cap modest_cmd_nick modest_cmd_user modest_step [OF kept_cmd_authenticate] modest_step [OF kept_cmd_pass] modest_step [OF kept_cmd_ping]
      modest_step [OF kept_cmd_quit] modest_step [OF kept_cmd_away] by auto
qed

lemma modest_late:
  assumes "conn_ok c"
  shows "list_all (\<lambda>(v, h). v \<noteq> ''OPER'' \<longrightarrow> modest c (h c)) (late_handlers n msg params)"
  unfolding late_handlers_def list.pred_inject prod.case
  by (intro conjI TrueI impI; (rule modest_step, rule kepts, rule kept.frame_refl)?)
    (use assms in \<open>simp_all add: modest_cmd_join modest_cmd_part modest_cmd_kick modest_cmd_rename modest_cmd_monitor modest_cmd_watch\<close>)

lemma modest_runtime: "map_of (runtime_handlers ps) v = Some h \<Longrightarrow> modest c (snd (h (rt, c)))"
  using kept_runtime_commands [of c "(rt, c)"] by (auto simp: runtime_handlers_def modest_step split: if_splits)

lemma modest_dispatch_late:
  assumes "conn_ok c" "verb \<noteq> Some ''OPER''"
  shows "modest c (snd (dispatch_late verb name msg (rt, c)))"
proof -
  have "modest c (h c)" if "map_of (late_handlers n msg ps) v = Some h" "v \<noteq> ''OPER''" for n ps v h
    using modest_late [OF assms(1), of n msg ps] map_of_SomeD [OF that(1)] that(2) by (auto simp: list_all_iff)
  then show ?thesis
    using assms(2) modest_runtime modests(2) by (auto simp: dispatch_late_def Let_def modests split: option.split)
qed

lemma accumulate_False: "try_multiline_accumulate msg c = (False, d) \<Longrightarrow> d = c"
  by (auto simp: try_multiline_accumulate_def Let_def split: option.splits command.splits list.splits if_splits)

text \<open>A message runs one handler: the shape of a dispatch.\<close>

lemma dispatch_shape:
  assumes "conn_ok c"
  obtains (modest) "modest c (snd (dispatch msg (rt, c)))"
    | (oper) name where "mcommand msg = Named name" "upper_verb name = Some ''OPER''" "ss_registered (cn_ses c)"
        "snd (dispatch msg (rt, c)) = cmd_oper (mparams msg) (mark_first c)"
proof -
  let ?m = "mark_first c"
  have m: "conn_ok ?m" "modest c ?m" using conn_ok_kept [OF assms kept_mark_first] modest_step [OF kept_mark_first] by simp_all
  have then_modest: "modest c d" if "modest ?m d" for d using modest.frame_trans [OF m(2) that] .
  have webirc: "modest c (cmd_webirc ps c)" for ps by (rule modest_step) (rule kepts, rule kept.frame_refl)
  have gate: "modest ?m (numeric ERR_NOTREGISTERED [] (Some ''You have not registered'') ?m)" by (intro modests) simp
  have acc: "modest ?m d" if "try_multiline_accumulate msg ?m = (True, d)" for d
    using modest_step [OF kept_accumulate [of ?m msg]] that by simp
  have reg: "ss_registered (cn_ses ?m) = ss_registered (cn_ses c)" by (simp add: mark_first_def)
  show thesis
  proof (cases "mcommand msg")
    case (Numeric k)
    show thesis by (rule modest) (simp add: dispatch_def Numeric m(2))
  next
    case (Named name)
    let ?v = "upper_verb name" and ?e = "early_handler (upper_verb name) (mparams msg) (mark_first c)"
    have run: "snd (dispatch msg (rt, c)) =
      (if ?v = Some ''WEBIRC'' then cmd_webirc (mparams msg) c
       else case ?e of Some h \<Rightarrow> h ?m
         | None \<Rightarrow> if \<not> ss_registered (cn_ses c) then numeric ERR_NOTREGISTERED [] (Some ''You have not registered'') ?m
             else case try_multiline_accumulate msg ?m of (b, d) \<Rightarrow> if b then d else snd (dispatch_late ?v name msg (rt, d)))"
      by (simp add: dispatch_def Let_def Named reg split: option.split prod.split bool.split)
    show thesis
    proof (cases "?v \<noteq> Some ''WEBIRC'' \<and> ?e = None \<and> ss_registered (cn_ses c) \<and> \<not> fst (try_multiline_accumulate msg ?m)")
      case False
      show thesis
        by (rule modest) (use False in \<open>auto simp: run webirc intro: then_modest gate acc modest_early split: option.split prod.split\<close>)
    next
      case True
      have "try_multiline_accumulate msg ?m = (False, ?m)" using True accumulate_False [of msg ?m] by (cases "try_multiline_accumulate msg ?m") simp
      then have late: "snd (dispatch msg (rt, c)) = snd (dispatch_late ?v name msg (rt, ?m))" using True by (simp add: run)
      have "snd (dispatch_late (Some ''OPER'') name msg (rt, ?m)) = cmd_oper (mparams msg) ?m"
        by (simp add: dispatch_late_def late_handlers_def)
      then show thesis
        using oper [OF Named] True late modest then_modest [OF modest_dispatch_late [OF m(1)]] by (cases "?v = Some ''OPER''") simp_all
    qed
  qed
qed

lemma dispatch_oper:
  assumes "mcommand msg = Named name" "upper_verb name = Some ''OPER''" "ss_registered (cn_ses c)" "message_tag msg ''batch'' = None"
  shows "snd (dispatch msg (rt, c)) = cmd_oper (mparams msg) (mark_first c)"
proof -
  have "early_handler (Some ''OPER'') ps d = None" for ps d by (simp add: early_handler_def early_handlers_def)
  moreover have "snd (dispatch_late (Some ''OPER'') name msg (rt, d)) = cmd_oper (mparams msg) d" for d
    by (simp add: dispatch_late_def late_handlers_def)
  moreover have "try_multiline_accumulate msg d = (False, d)" for d by (simp add: try_multiline_accumulate_def assms(4))
  moreover have "ss_registered (cn_ses (mark_first c))" using assms(3) by (simp add: mark_first_def)
  ultimately show ?thesis by (simp add: dispatch_def assms(1,2))
qed

lemma others_cmd_oper: "my_id (cmd_oper ps c) = my_id c \<and> others (my_id c) (cn_server c) (cn_server (cmd_oper ps c))"
proof -
  define d where "d = upd_me (\<lambda>d. d\<lparr>cd_oper := True\<rparr>) c"
  have d: "others (my_id c) (cn_server c) (cn_server d)" "my_id d = my_id c" by (simp_all add: d_def upd_me_def)
  have rest: "kept d (let c = send_to_me (line_param (line_param (line_command (line_server (server_name d)) ''MODE'') (my_nick d)) ''+o'') d;
      c = numeric RPL_YOUREOPER [] (Some ''You are now an IRC operator'') c
    in upd_srv (propagate_umodes (my_id c) ''+o'') c)" (is "kept d ?e")
    by (intro kepts) simp_all
  have e: "my_id ?e = my_id c \<and> others (my_id c) (cn_server c) (cn_server ?e)"
    using keptD(3) [OF rest] others_trans [OF d(1) others_tame [OF keptD(2) [OF rest]]] d(2) by simp
  have replies: "modest c (numeric n ps t c)" "modest c (need_more_params k c)" for n ps t k by (intro modests; simp)+
  then show ?thesis
    using e by (auto simp: cmd_oper_def Let_def d_def modest_def split: list.split)
qed

lemma others_dispatch:
  assumes "conn_ok c"
  shows "my_id (snd (dispatch msg (rt, c))) = my_id c \<and> others (my_id c) (cn_server c) (cn_server (snd (dispatch msg (rt, c))))"
proof (cases rule: dispatch_shape [OF assms, of msg rt])
  case 2
  then show ?thesis using others_cmd_oper [of "mparams msg" "mark_first c"] by (simp add: mark_first_def my_id_def)
qed (auto simp: modest_def)

subsection \<open>Who becomes an operator\<close>

text \<open>The checks of \<open>OPER\<close>.\<close>

definition oper_credentials :: "conn \<Rightarrow> string list \<Rightarrow> bool" where
  "oper_credentials c params \<longleftrightarrow>
     (case params of
        name # password # _ \<Rightarrow>
          oper_host_allowed (cn_auth c) name (entry_hostmask (my_entry c)) (cd_real_ip (my_data c))
          \<and> verify_password (au_crypto (cn_auth c)) (au_opers (cn_auth c)) name password \<noteq> None
      | _ \<Rightarrow> False)"

lemma oper_refused: "\<not> oper_credentials c ps \<Longrightarrow> modest c (cmd_oper ps c)"
  unfolding cmd_oper_def oper_credentials_def by (auto intro!: modests split: list.split)

lemma oper_accepted: "oper_credentials c ps \<Longrightarrow> cd_oper (my_data (cmd_oper ps c))"
proof -
  define d where "d = upd_me (\<lambda>d. d\<lparr>cd_oper := True\<rparr>) c"
  have d: "cd_oper (my_data d)" by (simp add: d_def)
  have "hush d (let c = send_to_me (line_param (line_param (line_command (line_server (server_name d)) ''MODE'') (my_nick d)) ''+o'') d
    in numeric RPL_YOUREOPER [] (Some ''You are now an IRC operator'') c)" (is "hush d ?e")
    by (intro hushing.intros) simp_all
  then have "my_data ?e = my_data d" by (rule hush_fields)
  moreover have "my_data (upd_srv (propagate_umodes i u) e) = my_data e" for i u e
    by (simp add: my_data_def my_entry_def my_id_def upd_srv_def propagate_umodes_def quiet_fields [OF quiet_propagate_msg])
  ultimately show "oper_credentials c ps \<Longrightarrow> ?thesis"
    using d by (auto simp: oper_credentials_def cmd_oper_def Let_def d_def split: list.splits)
qed

text \<open>C7: only a password makes an operator. If after a message from one client some local client is an operator who was
  none before, then it is the sender itself, it was registered, the message was an \<open>OPER\<close> command with a name and a
  password, the host of the sender passed the list of the operator block of that name, and the password verified
  against the stored hash. No other command, of whatever parameters, and no answer of a plugin to it gives the status.\<close>

theorem operators_have_passwords:
  assumes "conn_ok c" "cd_oper (ce_data (entries (cn_server (snd (dispatch msg (rt, c)))) j))" "\<not> cd_oper (ce_data (entries (cn_server c) j))"
  shows "j = my_id c \<and> ss_registered (cn_ses c) \<and> (\<exists>name. mcommand msg = Named name \<and> upper_verb name = Some ''OPER'') \<and> oper_credentials c (mparams msg)"
proof -
  have same: "j = my_id c" if "others (my_id c) (cn_server c) (cn_server d)" "cd_oper (ce_data (entries (cn_server d) j))" for d
    using that assms(3) by (auto simp: others_def peer_def)
  have none: False if "modest c d" "cd_oper (ce_data (entries (cn_server d) j))" for d
    using that same [of d] assms(3) by (auto simp: modest_def my_data_def my_entry_def)
  show ?thesis
  proof (cases rule: dispatch_shape [OF assms(1), of msg rt])
    case 1
    then show ?thesis using none assms(2) by blast
  next
    case (2 name)
    have m: "cn_server (mark_first c) = cn_server c" "my_id (mark_first c) = my_id c" "cn_auth (mark_first c) = cn_auth c"
      by (simp_all add: mark_first_def my_id_def)
    then have m: "cn_server (mark_first c) = cn_server c" "my_id (mark_first c) = my_id c" "oper_credentials (mark_first c) ps = oper_credentials c ps" for ps
      by (simp_all add: oper_credentials_def my_entry_def my_data_def cong: list.case_cong)
    have "j = my_id c" using same [of "cmd_oper (mparams msg) (mark_first c)"] others_cmd_oper [of "mparams msg" "mark_first c"] assms(2) 2(4) m by simp
    moreover have "oper_credentials c (mparams msg)"
    proof (rule ccontr)
      assume "\<not> oper_credentials c (mparams msg)"
      then have "modest c (cmd_oper (mparams msg) (mark_first c))"
        using oper_refused [of "mark_first c"] m modest.frame_trans [OF modest_step [OF kept_mark_first]] by simp
      then show False using none assms(2) 2(4) by simp
    qed
    ultimately show ?thesis using 2 by blast
  qed
qed

definition demo_root :: conn where
  "demo_root = demo_joiner\<lparr>cn_auth := demo_auth\<lparr>au_opers := upsert_password ''root'' ''pw'' (store_new Ascii)\<rparr>\<rparr>"

lemma demo_root_ok: "conn_ok demo_root" "\<not> cd_oper (my_data demo_root)"
  using demo_joiner_ok
  by (simp_all add: conn_ok_def session_ok_def demo_root_def my_nick_data my_data_def my_entry_def my_id_def demo_joiner_def session_new_def
    demo_member_def upd_client_data_def upd_client_def demo_server_def server_new_def client_entry_new_def client_data_new_def)

definition demo_runtime :: runtime where
  "demo_runtime =
     \<lparr>rt_config_path = None, rt_load = (\<lambda>p. Inl p), rt_build_server_tls = Inl, rt_build_link_tls = Inl, rt_hash_error = [],
      rt_server_tls = None, rt_link_tls = None, rt_link_configs = [], rt_started_at = 0, rt_shutdown = False, rt_dials = []\<rparr>"

theorem operators_have_passwords_witness:
  "\<exists>c d. conn_ok c \<and> \<not> cd_oper (my_data c) \<and> d = snd (dispatch \<lparr>mtags = [], msource = None, mcommand = Named ''oper'', mparams = [''root'', ''pw'']\<rparr> (demo_runtime, c))
     \<and> cd_oper (my_data d) \<and> oper_credentials c [''root'', ''pw'']"
proof -
  let ?msg = "\<lparr>mtags = [], msource = None, mcommand = Named ''oper'', mparams = [''root'', ''pw'']\<rparr>" and ?c = "mark_first demo_root"
  have verb: "upper_verb ''oper'' = Some ''OPER''" by code_simp
  have cred: "oper_credentials demo_root [''root'', ''pw'']" "oper_credentials ?c [''root'', ''pw'']"
    by (simp_all add: oper_credentials_def oper_host_allowed_def demo_root_def demo_auth_def mark_first_def verify_password_def upsert_password_def
      modify_or_insert_get store_new_def toy_crypto_def)
  have "snd (dispatch ?msg (demo_runtime, demo_root)) = cmd_oper [''root'', ''pw''] ?c"
    using dispatch_oper [of ?msg "''oper''" demo_root] verb by (simp add: message_tag_def demo_root_def demo_joiner_def)
  then have run: "cd_oper (my_data (snd (dispatch ?msg (demo_runtime, demo_root))))" using oper_accepted [OF cred(2)] by simp
  have me: "my_id (snd (dispatch ?msg (demo_runtime, demo_root))) = my_id demo_root" using others_dispatch [OF demo_root_ok(1)] by blast
  have "oper_credentials demo_root [''root'', ''pw'']"
    using operators_have_passwords [OF demo_root_ok(1), of ?msg demo_runtime "my_id demo_root"] run demo_root_ok(2) me by (simp add: my_data_def my_entry_def)
  then show ?thesis using demo_root_ok run by blast
qed

end
