(* ===== verification/Codec.thy ===== *)
theory Codec
  imports Prelude
begin

text \<open>
  Line framing (\<open>ferrixd/src/codec.rs\<close>). \<open>decode\<close> is one call of the codec: it returns a line
  and the rest of the buffer, or no line yet, or the error that drops the connection.
  \<open>drain\<close> is the reader that calls it until no complete line is left, as the framed stream
  around the codec does; it is the subject of the stream-level lemmas.
\<close>

datatype codec_error = LineTooLong nat

record irc_codec =
  max_line :: nat

definition decode :: "irc_codec \<Rightarrow> string \<Rightarrow> codec_error + (string option \<times> string)" where
  "decode c src =
     (case memchr LF src of
        None \<Rightarrow>
          if length src > max_line c then Inl (LineTooLong (max_line c)) else Inr (None, src)
      | Some newline \<Rightarrow>
          (let line = take (newline + 1) src; rest = drop (newline + 1) src;
               line = take (length line - 1) line;
               line = (if line \<noteq> [] \<and> last line = CR then take (length line - 1) line else line)
           in if length line > max_line c then Inl (LineTooLong (max_line c))
              else Inr (Some line, rest)))"

definition encode :: "string \<Rightarrow> string \<Rightarrow> string" where
  "encode item dst = dst @ item"

subsection \<open>One line\<close>

definition chomp :: "string \<Rightarrow> string" where
  "chomp line = (if line \<noteq> [] \<and> last line = CR then butlast line else line)"

lemma decode_line:
  assumes "LF \<notin> set line"
  shows "decode c (line @ LF # rest) =
    (if length (chomp line) > max_line c then Inl (LineTooLong (max_line c))
     else Inr (Some (chomp line), rest))"
  using assms memchr_append [OF assms] by (simp add: decode_def Let_def chomp_def butlast_conv_take)

lemma decode_partial:
  "LF \<notin> set s \<Longrightarrow> decode c s =
    (if length s > max_line c then Inl (LineTooLong (max_line c)) else Inr (None, s))"
  by (simp add: decode_def memchr_free)

lemma split_line:
  assumes "LF \<in> set s"
  obtains line rest where "s = line @ LF # rest" "LF \<notin> set line"
  using assms split_list_first [of LF s] by blast

lemma decode_shorter: "decode c s = Inr (Some l, r) \<Longrightarrow> length r < length s"
proof (cases "LF \<in> set s")
  case True
  then obtain line rest where "s = line @ LF # rest" "LF \<notin> set line" by (rule split_line)
  then show "decode c s = Inr (Some l, r) \<Longrightarrow> length r < length s"
    by (auto simp: decode_line split: if_splits)
qed (auto simp: decode_partial split: if_splits)

subsection \<open>A stream of reads\<close>

function drain :: "irc_codec \<Rightarrow> string \<Rightarrow> string list \<times> (codec_error + string)" where
  "drain c s =
     (case decode c s of
        Inl e \<Rightarrow> ([], Inl e)
      | Inr (None, r) \<Rightarrow> ([], Inr r)
      | Inr (Some l, r) \<Rightarrow> (case drain c r of (ls, x) \<Rightarrow> (l # ls, x)))"
  by pat_completeness auto
termination
  by (relation "measure (\<lambda>(c, s). length s)") (auto simp: decode_shorter)

declare drain.simps [simp del]

lemma drain_line_if:
  "LF \<notin> set line \<Longrightarrow> drain c (line @ LF # rest) =
     (if length (chomp line) > max_line c then ([], Inl (LineTooLong (max_line c)))
      else case drain c rest of (ls, x) \<Rightarrow> (chomp line # ls, x))"
  by (simp add: drain.simps [of c "line @ LF # rest"] decode_line)

lemma drain_line:
  "LF \<notin> set line \<Longrightarrow> length (chomp line) \<le> max_line c \<Longrightarrow>
   drain c (line @ LF # rest) = (case drain c rest of (ls, x) \<Rightarrow> (chomp line # ls, x))"
  by (simp add: drain.simps [of c "line @ LF # rest"] decode_line)

lemma drain_partial:
  "LF \<notin> set s \<Longrightarrow> length s \<le> max_line c \<Longrightarrow> drain c s = ([], Inr s)"
  by (simp add: drain.simps [of c s] decode_partial)

lemma drain_result:
  "drain c s = (ls, x) \<Longrightarrow>
   (\<forall>l \<in> set ls. LF \<notin> set l \<and> length l \<le> max_line c)
   \<and> (case x of Inl e \<Rightarrow> e = LineTooLong (max_line c) | Inr r \<Rightarrow> LF \<notin> set r \<and> length r \<le> max_line c)"
proof (induction "length s" arbitrary: s ls rule: less_induct)
  case less
  show ?case
  proof (cases "LF \<in> set s")
    case True
    then obtain line rest where s: "s = line @ LF # rest" "LF \<notin> set line" by (rule split_line)
    have "LF \<notin> set (chomp line)" using s(2) by (auto simp: chomp_def dest: in_set_butlastD)
    then show ?thesis
      using less.hyps [of rest] less.prems s
      by (cases "drain c rest") (auto simp: drain_line_if split: if_splits)
  next
    case False
    then show ?thesis using less.prems
      by (auto simp: drain.simps [of c s] decode_partial split: if_splits)
  qed
qed

lemma drain_append:
  "drain c s = (ls, Inr r) \<Longrightarrow> drain c (s @ t) = (case drain c (r @ t) of (ms, x) \<Rightarrow> (ls @ ms, x))"
proof (induction "length s" arbitrary: s ls rule: less_induct)
  case less
  show ?case
  proof (cases "LF \<in> set s")
    case True
    then obtain line rest where s: "s = line @ LF # rest" "LF \<notin> set line" by (rule split_line)
    then obtain ms where ms: "drain c rest = (ms, Inr r)" "ls = chomp line # ms"
      "length (chomp line) \<le> max_line c"
      using less.prems
      by (cases "drain c rest") (auto simp: drain_line_if split: if_splits)
    have "drain c (rest @ t) = (case drain c (r @ t) of (ns, x) \<Rightarrow> (ms @ ns, x))"
      using less.hyps [of rest ms] ms(1) s(1) by simp
    then show ?thesis using s ms drain_line [OF s(2) ms(3), of "rest @ t"]
      by (simp split: prod.splits)
  next
    case False
    then show ?thesis using less.prems
      by (auto simp: drain.simps [of c s] decode_partial split: if_splits prod.splits)
  qed
qed

lemma drain_lines:
  "(\<And>l. l \<in> set ls \<Longrightarrow> LF \<notin> set l \<and> CR \<notin> set l \<and> length l \<le> max_line c) \<Longrightarrow>
   LF \<notin> set tail \<Longrightarrow> length tail \<le> max_line c \<Longrightarrow>
   drain c (concat (map (\<lambda>l. l @ [CR, LF]) ls) @ tail) = (ls, Inr tail)"
proof (induction ls)
  case (Cons l ls)
  have l: "LF \<notin> set (l @ [CR])" using Cons.prems(1) [of l] by (auto simp: ctl_defs)
  have ch: "chomp (l @ [CR]) = l" by (simp add: chomp_def)
  have "drain c ((l @ [CR]) @ LF # concat (map (\<lambda>l. l @ [CR, LF]) ls) @ tail)
      = (case drain c (concat (map (\<lambda>l. l @ [CR, LF]) ls) @ tail) of (ms, x) \<Rightarrow> (l # ms, x))"
    using Cons.prems(1) [of l] drain_line [OF l] ch by simp
  also have "drain c (concat (map (\<lambda>l. l @ [CR, LF]) ls) @ tail) = (ls, Inr tail)"
    using Cons by simp
  finally show ?case by simp
qed (simp add: drain_partial)

subsection \<open>Properties\<close>

text \<open>Framing. Any sequence of lines within the length cap, each sent with its CRLF, is
  decoded to exactly these lines, and an unfinished line behind them stays in the buffer.\<close>

theorem codec_framing:
  assumes "\<And>l. l \<in> set ls \<Longrightarrow> LF \<notin> set l \<and> CR \<notin> set l \<and> length l \<le> max_line c"
    and "LF \<notin> set tail" "length tail \<le> max_line c"
  shows "drain c (foldl (\<lambda>dst l. encode (l @ [CR, LF]) dst) [] ls @ tail) = (ls, Inr tail)"
proof -
  have "foldl (\<lambda>dst l. encode (l @ [CR, LF]) dst) acc ls = acc @ concat (map (\<lambda>l. l @ [CR, LF]) ls)" for acc
    by (induction ls arbitrary: acc) (auto simp: encode_def)
  then show ?thesis using drain_lines [OF assms(1) assms(2,3)] by simp
qed

theorem codec_framing_witness:
  "drain \<lparr>max_line = 8\<rparr> (foldl (\<lambda>dst l. encode (l @ [CR, LF]) dst) [] [''PING one'', ''''] @ ''PART'')
     = ([''PING one'', ''''], Inr ''PART'')"
  by (rule codec_framing) (auto simp: ctl_defs)

text \<open>A read that is refused is refused with whatever follows it, but for one cut: between the CR and the LF of a line of
  exactly the permitted length.\<close>

lemma refused_append:
  "drain c s = (ls, Inl e) \<Longrightarrow> drain c (s @ t) = (ls, Inl e)
     \<or> (\<exists>pre line rest. s = pre @ line @ [CR] \<and> t = LF # rest \<and> LF \<notin> set line \<and> length line = max_line c)"
proof (induction "length s" arbitrary: s ls rule: less_induct)
  case less
  show ?case
  proof (cases "LF \<in> set s")
    case True
    then obtain line rest where s: "s = line @ LF # rest" "LF \<notin> set line" by (rule split_line)
    show ?thesis
    proof (cases "max_line c < length (chomp line)")
      case True
      then show ?thesis using less.prems s by (simp add: drain_line_if)
    next
      case False
      then obtain ms where ms: "drain c rest = (ms, Inl e)" "ls = chomp line # ms"
        using less.prems s by (cases "drain c rest") (auto simp: drain_line_if)
      then consider "drain c (rest @ t) = (ms, Inl e)"
        | pre l r where "rest = pre @ l @ [CR]" "t = LF # r" "LF \<notin> set l" "length l = max_line c"
        using less.hyps [of rest ms] s(1) by auto
      then show ?thesis
      proof cases
        case 1
        then show ?thesis using s False ms(2) by (simp add: drain_line)
      next
        case 2
        then have "s = (line @ LF # pre) @ l @ [CR]" using s(1) by simp
        then show ?thesis using 2 by blast
      qed
    qed
  next
    case False
    then have over: "max_line c < length s" "ls = []" "e = LineTooLong (max_line c)"
      using less.prems by (auto simp: drain.simps [of c s] decode_partial split: if_splits)
    show ?thesis
    proof (cases "LF \<in> set t")
      case True
      then obtain a b where t: "t = a @ LF # b" "LF \<notin> set a" by (rule split_line)
      have line: "LF \<notin> set (s @ a)" using False t(2) by simp
      show ?thesis
      proof (cases "max_line c < length (chomp (s @ a))")
        case True
        then show ?thesis using over t drain_line_if [OF line, of c b] by simp
      next
        case False
        then have le: "length (chomp (s @ a)) \<le> max_line c" by simp
        have ne: "s \<noteq> []" using over(1) by auto
        have cr: "last (s @ a) = CR" using le over(1) by (cases "last (s @ a) = CR") (auto simp: chomp_def split: if_splits)
        have "length (s @ a) - 1 \<le> max_line c" using le cr ne by (simp add: chomp_def split: if_splits)
        then have "length a = 0" "length s = Suc (max_line c)" using over(1) unfolding length_append by arith+
        then have "a = []" "length s = Suc (max_line c)" by simp_all
        moreover have "last s = CR" using cr \<open>a = []\<close> by simp
        ultimately have "a = []" "length s = Suc (max_line c)" "last s = CR" "s \<noteq> []" using ne by simp_all
        then have "s = [] @ butlast s @ [CR]" "LF \<notin> set (butlast s)" "length (butlast s) = max_line c" "t = LF # b"
          using t line by (auto simp: append_butlast_last_id dest: in_set_butlastD) (metis append_butlast_last_id)+
        then show ?thesis by blast
      qed
    next
      case False
      then show ?thesis using \<open>LF \<notin> set s\<close> over by (simp add: drain.simps [of c "s @ t"] decode_partial)
    qed
  qed
qed

text \<open>C32: every line handed to the parser is within the cap and free of line feeds, and the buffered rest is within the cap
  too (a peer that never sends a line feed cannot grow it). When a read is accepted, draining its rest with what the next read
  brings gives the lines of the whole. When a read is refused, the whole would have been refused at the same line, with one
  exception: the read ended between the CR and the LF of a line of exactly the permitted length (see
  \<open>codec_split_terminator\<close>).\<close>

theorem codec_bounded_and_incremental:
  "case drain c first of (ls, x) \<Rightarrow>
     (\<forall>l \<in> set ls. LF \<notin> set l \<and> length l \<le> max_line c)
     \<and> (case x of
          Inr buffered \<Rightarrow> LF \<notin> set buffered \<and> length buffered \<le> max_line c
            \<and> drain c (first @ second) = (case drain c (buffered @ second) of (ms, y) \<Rightarrow> (ls @ ms, y))
        | Inl e \<Rightarrow> drain c (first @ second) = (ls, Inl e)
            \<or> (\<exists>pre line rest. first = pre @ line @ [CR] \<and> second = LF # rest \<and> LF \<notin> set line \<and> length line = max_line c))"
proof -
  obtain ls x where d: "drain c first = (ls, x)" by fastforce
  show ?thesis
  proof (cases x)
    case (Inl e)
    then show ?thesis using drain_result [OF d] refused_append [OF d [unfolded Inl], of second] by (simp add: d)
  next
    case (Inr r)
    then show ?thesis using drain_result [OF d] drain_append [OF d [unfolded Inr], of second] by (simp add: d)
  qed
qed

theorem codec_bounded_and_incremental_witness:
  "drain \<lparr>max_line = 6\<rparr> [CHR ''A'', LF, CHR ''B''] = ([''A''], Inr ''B'')
   \<and> drain \<lparr>max_line = 6\<rparr> ([CHR ''A'', LF, CHR ''B''] @ [CHR ''C'', LF])
     = (case drain \<lparr>max_line = 6\<rparr> (''B'' @ [CHR ''C'', LF]) of (ms, x) \<Rightarrow> ([''A''] @ ms, x))"
proof -
  have h: "drain \<lparr>max_line = 6\<rparr> [CHR ''A'', LF, CHR ''B''] = ([''A''], Inr ''B'')" by code_simp
  show ?thesis
    using h codec_bounded_and_incremental [of "\<lparr>max_line = 6\<rparr>" "[CHR ''A'', LF, CHR ''B'']" "[CHR ''C'', LF]"] by simp
qed

text \<open>The cap on an unterminated buffer counts the carriage return of the terminator: a line
  of exactly the permitted length whose CR and LF arrive in different reads drops the
  connection, although the same octets in one read are a line.\<close>

theorem codec_split_terminator:
  "drain \<lparr>max_line = 4\<rparr> (''PING'' @ [CR, LF]) = ([''PING''], Inr [])
   \<and> drain \<lparr>max_line = 4\<rparr> (''PING'' @ [CR]) = ([], Inl (LineTooLong 4))"
  by code_simp

end
