(* ===== verification/F64.thy ===== *)
theory F64
  imports Complex_Main "HOL-Library.Log_Nat"
begin

text \<open>
  The numbers of \<open>f64\<close>: rationals whose significand has 53 bits. An operation of the source is the exact operation followed by
  \<open>f64_round\<close>, which rounds to the nearest such number and, half way, to the one whose significand is even. The code modelled here
  stays far within the range of the exponent, so neither infinities nor the loss of precision next to zero are part of the model.
\<close>

definition pow2 :: "int \<Rightarrow> rat" where
  "pow2 k = 2 powi k"

text \<open>The exponent \<open>k\<close> with \<open>2\<^sup>k \<le> x < 2\<^sup>k\<^sup>+\<^sup>1\<close>, for a positive \<open>x\<close>.\<close>

definition ilog2 :: "rat \<Rightarrow> int" where
  "ilog2 x = (let (p, q) = quotient_of x; k = bitlen p - bitlen q in if pow2 k \<le> x then k else k - 1)"

definition round_half_even :: "rat \<Rightarrow> int" where
  "round_half_even x =
     (let n = \<lfloor>x\<rfloor>; d = x - of_int n
      in if d < 1 / 2 then n else if 1 / 2 < d then n + 1 else if even n then n else n + 1)"

definition f64_round :: "rat \<Rightarrow> rat" where
  "f64_round x = (if x = 0 then 0 else (let u = pow2 (ilog2 \<bar>x\<bar> - 52) in of_int (round_half_even (x / u)) * u))"

lemma pow2_pos [simp]: "0 < pow2 k"
  by (simp add: pow2_def)

lemma pow2_nz [simp]: "pow2 k \<noteq> 0"
  using pow2_pos [of k] by linarith

lemma pow2_add: "pow2 (a + b) = pow2 a * pow2 b"
  by (simp add: pow2_def power_int_add)

lemma pow2_nat [simp]: "pow2 (int n) = 2 ^ n" "pow2 (- int n) = 1 / 2 ^ n"
  by (simp_all add: pow2_def power_int_minus divide_inverse)

lemma ilog2_bounds:
  assumes "0 < x"
  shows "pow2 (ilog2 x) \<le> x" "x < 2 * pow2 (ilog2 x)"
proof -
  obtain p q where pq: "quotient_of x = (p, q)" by fastforce
  have q: "0 < q" and x: "x = of_int p / of_int q" using quotient_of_denom_pos [OF pq] quotient_of_div [OF pq] by auto
  then have p: "0 < p" using assms by (simp add: zero_less_divide_iff)
  have bits: "pow2 (bitlen n - 1) \<le> of_int n" "of_int n < pow2 (bitlen n)" if "0 < n" for n
  proof -
    have "bitlen n \<noteq> 0" using that bitlen_bounds [OF that] by auto
    then obtain i where i: "bitlen n = int (Suc i)" using bitlen_nonneg [of n] by (metis nonneg_int_cases not0_implies_Suc of_nat_0)
    have "nat (bitlen n) = Suc i" "nat (bitlen n - 1) = i" using i by simp_all
    then have "2 ^ i \<le> n" "n < 2 ^ Suc i" using bitlen_bounds [OF that] by simp_all
    then have "(of_int (2 ^ i) :: rat) \<le> of_int n" "(of_int n :: rat) < of_int (2 ^ Suc i)" by (simp_all only: of_int_le_iff of_int_less_iff)
    moreover have "pow2 (bitlen n - 1) = 2 ^ i" "pow2 (bitlen n) = 2 ^ Suc i" using pow2_nat(1) [of i] pow2_nat(1) [of "Suc i"] i by simp_all
    ultimately show "pow2 (bitlen n - 1) \<le> of_int n" "of_int n < pow2 (bitlen n)" by simp_all
  qed
  let ?k = "bitlen p - bitlen q"
  have k: "pow2 ?k * pow2 (bitlen q) = pow2 (bitlen p)" using pow2_add [of ?k "bitlen q"] by simp
  have half: "2 * pow2 (b - 1) = pow2 b" for b using pow2_add [of 1 "b - 1"] pow2_nat(1) [of 1] by simp
  have xq: "x * of_int q = of_int p" using q x by simp
  have "x * pow2 (bitlen q) = 2 * (x * pow2 (bitlen q - 1))" using half [of "bitlen q"] by (simp add: algebra_simps)
  also have "\<dots> \<le> 2 * of_int p" using mult_left_mono [OF bits(1) [OF q], of x] assms xq by simp
  also have "\<dots> < 2 * pow2 ?k * pow2 (bitlen q)" using bits(2) [OF p] k by (simp add: mult.assoc)
  finally have up: "x < 2 * pow2 ?k" by (rule mult_right_less_imp_less) (simp add: less_imp_le)
  have "pow2 (?k - 1) * pow2 (bitlen q) = pow2 (bitlen p - 1)" using pow2_add [of "?k - 1" "bitlen q"] by simp
  also have "\<dots> \<le> x * of_int q" using bits(1) [OF p] xq by simp
  also have "\<dots> < x * pow2 (bitlen q)" by (rule mult_strict_left_mono [OF bits(2) [OF q] assms])
  finally have low: "pow2 (?k - 1) < x" by (rule mult_right_less_imp_less) (simp add: less_imp_le)
  show "pow2 (ilog2 x) \<le> x" "x < 2 * pow2 (ilog2 x)" using up low half [of ?k] by (auto simp: ilog2_def pq Let_def)
qed

lemma round_half_even_near: "\<bar>of_int (round_half_even x) - x\<bar> \<le> 1 / 2"
  using floor_correct [of x] by (auto simp: round_half_even_def Let_def)

lemma round_half_even_int [simp]: "round_half_even (of_int n) = n"
  by (simp add: round_half_even_def)

text \<open>The relative error of an operation.\<close>

lemma f64_near: "\<bar>f64_round x - x\<bar> \<le> \<bar>x\<bar> / 2 ^ 53"
proof (cases "x = 0")
  case False
  let ?u = "pow2 (ilog2 \<bar>x\<bar> - 52)"
  have u: "0 < ?u" "2 ^ 52 * ?u \<le> \<bar>x\<bar>"
    using ilog2_bounds(1) [of "\<bar>x\<bar>"] False pow2_add [of 52 "ilog2 \<bar>x\<bar> - 52"] pow2_nat(1) [of 52] by simp_all
  have "f64_round x - x = (of_int (round_half_even (x / ?u)) - x / ?u) * ?u"
    using False u(1) by (simp add: f64_round_def Let_def left_diff_distrib)
  then have "\<bar>f64_round x - x\<bar> = \<bar>of_int (round_half_even (x / ?u)) - x / ?u\<bar> * ?u" using u(1) by (simp only: abs_mult abs_of_pos)
  also have "\<dots> \<le> 1 / 2 * ?u" by (rule mult_right_mono [OF round_half_even_near less_imp_le [OF u(1)]])
  finally show ?thesis using u(2) by simp
qed (simp add: f64_round_def)

lemma f64_zero [simp]: "f64_round 0 = 0"
  by (simp add: f64_round_def)

text \<open>Integers of up to 53 bits are numbers of \<open>f64\<close>.\<close>

lemma f64_nat:
  assumes "n < 2 ^ 53"
  shows "f64_round (of_nat n) = of_nat n"
proof (cases "n = 0")
  case False
  let ?k = "ilog2 (of_nat n)"
  have b: "pow2 ?k \<le> of_nat n" using ilog2_bounds(1) [of "of_nat n"] False by simp
  have "\<exists>j. ?k - 52 = - int j"
  proof (cases "?k \<le> 52")
    case True
    then show ?thesis by (intro exI [of _ "nat (52 - ?k)"]) simp
  next
    case False
    then have j: "?k = int (nat ?k)" "53 \<le> nat ?k" by simp_all
    have "(2 :: rat) ^ 53 \<le> 2 ^ nat ?k" by (rule power_increasing [OF j(2)]) simp
    also have "\<dots> \<le> of_nat n" using b pow2_nat(1) [of "nat ?k"] j(1) by simp
    finally have "of_nat (2 ^ 53) \<le> (of_nat n :: rat)" by simp
    then show ?thesis using assms by (simp only: of_nat_le_iff)
  qed
  then obtain j where j: "?k - 52 = - int j" by blast
  have u: "pow2 (?k - 52) = 1 / 2 ^ j" unfolding j by (rule pow2_nat(2))
  have "of_nat n / pow2 (?k - 52) = of_int (int n * 2 ^ j)" unfolding u by simp
  then have "round_half_even (of_nat n / pow2 (?k - 52)) = int n * 2 ^ j" by (simp only: round_half_even_int)
  then show ?thesis using False by (simp add: f64_round_def Let_def u)
qed simp

end
