(* ===== verification/Connection.thy ===== *)
theory Connection
  imports Company Codec F64
begin

text \<open>
  The life of a connection (\<open>ferrixd/src/connection.rs\<close>): admission, the reader loop with its timers and its rate
  limit, and the teardown. The loop of the source waits for the first of four things to happen; here each is an
  event, and a connection is run by the events in the order they are taken. Timers and sockets are the
  environment: they decide which event comes next. Many connections share a server, so the state is a world of
  tasks. The counters of the metrics are left out. Tokens are numbers of \<open>f64\<close>, rounded after every operation as in
  \<open>F64\<close>; times are nanoseconds.
\<close>

subsection \<open>The rate limit\<close>

record token_bucket =
  tb_tokens :: rat
  tb_burst :: rat
  tb_rate :: rat
  tb_last :: nat

text \<open>\<open>f64::from\<close> of a 32-bit number is exact.\<close>

definition bucket_new :: "32 word \<Rightarrow> 32 word \<Rightarrow> nat \<Rightarrow> token_bucket" where
  "bucket_new burst rate now =
     \<lparr>tb_tokens = of_nat (unat burst), tb_burst = of_nat (unat burst), tb_rate = of_nat (unat (max rate 1)), tb_last = now\<rparr>"

text \<open>\<open>Duration::as_secs_f64\<close> of the time between two instants.\<close>

definition elapsed_secs :: "nat \<Rightarrow> nat \<Rightarrow> rat" where
  "elapsed_secs since now =
     (let d = now - since
      in f64_round (f64_round (of_nat (d div 1000000000)) + f64_round (of_nat (d mod 1000000000) / 1000000000)))"

definition try_consume :: "nat \<Rightarrow> token_bucket \<Rightarrow> bool \<times> token_bucket" where
  "try_consume now b =
     (let elapsed = elapsed_secs (tb_last b) now;
          b = b\<lparr>tb_last := now\<rparr>;
          b = b\<lparr>tb_tokens := min (f64_round (tb_tokens b + f64_round (elapsed * tb_rate b))) (tb_burst b)\<rparr>
      in if 1 \<le> tb_tokens b then (True, b\<lparr>tb_tokens := f64_round (tb_tokens b - 1)\<rparr>) else (False, b))"

subsection \<open>The reader loop\<close>

record conn_context =
  cx_limits :: limits
  cx_max_line :: nat
  cx_registration_timeout :: nat
  cx_max_clients_per_ip :: nat
  cx_sendq_lines :: nat
  cx_recv_burst :: "32 word"
  cx_recv_rate :: "32 word"
  cx_ping_interval :: nat

text \<open>What the loop can be woken by. A frame is a line, an error of the stream with its text, or nothing at the end
  of the stream; it comes with the time it is taken at.\<close>

datatype wakeup = RegDeadline | KillNotified | PingTick | Arrived nat "(string + string) option"

definition codec_error_text :: "codec_error \<Rightarrow> string" where
  "codec_error_text e = (case e of LineTooLong n \<Rightarrow> ''line exceeds '' @ dec n @ '' bytes'')"

record reader =
  rd_runtime :: runtime
  rd_conn :: conn
  rd_bucket :: token_bucket
  rd_awaiting_pong :: bool

definition serve_line :: "conn_context \<Rightarrow> string \<Rightarrow> runtime \<times> conn \<Rightarrow> runtime \<times> conn" where
  "serve_line ctx line st =
     (case parse line (cx_limits ctx) of
        Inl _ \<Rightarrow> st
      | Inr msg \<Rightarrow>
          (let (rt, c) = st;
               c = upd_me (\<lambda>d. d\<lparr>cd_last_active := now_unix (cn_server c)\<rparr>) c;
               c = begin_label msg c;
               (rt, c) = dispatch msg (rt, c)
           in (rt, end_label c)))"

definition take_quit :: "conn \<Rightarrow> string option \<times> conn" where
  "take_quit c = (ss_quit (cn_ses c), upd_ses (\<lambda>s. s\<lparr>ss_quit := None\<rparr>) c)"

definition serve_frame :: "conn_context \<Rightarrow> nat \<Rightarrow> string \<Rightarrow> reader \<Rightarrow> string option \<times> reader" where
  "serve_frame ctx now line r =
     (let r = r\<lparr>rd_awaiting_pong := False\<rparr>;
          (ok, b) = try_consume now (rd_bucket r);
          r = r\<lparr>rd_bucket := b\<rparr>
      in if \<not> ok then (Some ''Excess Flood'', r)
         else
           (let (rt, c) = serve_line ctx line (rd_runtime r, rd_conn r);
                (quit, c) = take_quit c
            in (quit, r\<lparr>rd_runtime := rt, rd_conn := c\<rparr>)))"

definition killed :: "conn \<Rightarrow> string \<times> conn" where
  "killed c =
     (let (reason, e) = take_kill_reason (my_entry c)
      in (case reason of Some r \<Rightarrow> r | None \<Rightarrow> ''Killed'', upd_srv (upd_client (my_id c) (\<lambda>_. e\<lparr>ce_kill := False\<rparr>)) c))"

definition ping_line :: "conn \<Rightarrow> line" where
  "ping_line c = line_trailing (line_command line_bare ''PING'') (si_name (info (cn_server c)))"

text \<open>One turn of the loop: the reason to end it, if there is one. A branch whose guard does not hold is not taken.\<close>

definition serve_turn :: "conn_context \<Rightarrow> wakeup \<Rightarrow> reader \<Rightarrow> string option \<times> reader" where
  "serve_turn ctx ev r =
     (let c = rd_conn r
      in case ev of
           RegDeadline \<Rightarrow> (if ss_registered (cn_ses c) then None else Some ''Registration timeout'', r)
         | KillNotified \<Rightarrow>
             if \<not> ce_kill (my_entry c) then (None, r)
             else (case killed c of (reason, c) \<Rightarrow> (Some reason, r\<lparr>rd_conn := c\<rparr>))
         | PingTick \<Rightarrow>
             if rd_awaiting_pong r then (Some ''Ping timeout'', r)
             else if ss_registered (cn_ses c)
             then (None, r\<lparr>rd_conn := upd_srv (upd_client (my_id c) (entry_send_line (ping_line c))) c, rd_awaiting_pong := True\<rparr>)
             else (None, r)
         | Arrived now frame \<Rightarrow>
             (case frame of
                None \<Rightarrow> (Some ''Connection closed'', r)
              | Some (Inl err) \<Rightarrow> (Some (''Input error: '' @ err), r)
              | Some (Inr line) \<Rightarrow> serve_frame ctx now line r))"

subsection \<open>Admission and teardown\<close>

definition error_line :: "string \<Rightarrow> string" where
  "error_line text = line_build (line_trailing (line_command line_bare ''ERROR'') text)"

record task =
  tk_session :: session
  tk_bucket :: token_bucket
  tk_awaiting_pong :: bool
  tk_peer :: string

text \<open>The part of \<open>serve\<close> before the loop: a refusal with the line it sends, or the task.\<close>

definition admit :: "conn_context \<Rightarrow> string \<Rightarrow> string option \<Rightarrow> bool \<Rightarrow> nat \<Rightarrow> server \<Rightarrow> (string + nat \<times> task) \<times> server" where
  "admit ctx ip cert secure now s =
     (case matches_dline s ip of
        Some reason \<Rightarrow> (Inl (error_line (''Closing Link: D-Lined: '' @ reason)), s)
      | None \<Rightarrow>
          (case try_add_connection ip (cx_max_clients_per_ip ctx) s of
             (False, s) \<Rightarrow> (Inl (error_line ''Too many connections from your IP''), s)
           | (True, s) \<Rightarrow>
               (let (i, s) = alloc_id s;
                    e = client_entry_new (now_unix s) i ip (cx_sendq_lines ctx);
                    e = e\<lparr>ce_data := (ce_data e)\<lparr>cd_secure := secure\<rparr>\<rparr>;
                    s = upd_client i (\<lambda>_. e) s
                in (Inr (i, \<lparr>tk_session = session_new i ip cert, tk_bucket = bucket_new (cx_recv_burst ctx) (cx_recv_rate ctx) now,
                             tk_awaiting_pong = False, tk_peer = ip\<rparr>), s))))"

definition teardown :: "nat \<Rightarrow> string \<Rightarrow> string \<Rightarrow> server \<Rightarrow> server" where
  "teardown i ip reason s =
     (let s = (if cd_registered (ce_data (entries s i)) then withdraw_local i reason s else s);
          s = disconnect i reason s;
          s = remove_connection ip s
      in upd_client i (entry_close (error_line (''Closing link: '' @ reason))) s)"

text \<open>The writer: it sends what is queued, in order, and ends with the farewell or when a write fails.\<close>

fun writer_loop :: "(string \<Rightarrow> bool) \<Rightarrow> outbound list \<Rightarrow> string list \<times> bool" where
  "writer_loop ok [] = ([], False)"
| "writer_loop ok (Line b # rest) = (if ok b then (case writer_loop ok rest of (sent, ended) \<Rightarrow> (b # sent, ended)) else ([], True))"
| "writer_loop ok (Close b # rest) = (if ok b then [b] else [], True)"

text \<open>The loop of one connection, among others: before each event other tasks may have left the shared state in any way.\<close>

type_synonym shared = "runtime \<times> server \<times> auth"

definition resume :: "shared \<Rightarrow> reader \<Rightarrow> reader" where
  "resume sh r = (case sh of (rt, s, au) \<Rightarrow> r\<lparr>rd_runtime := rt, rd_conn := (rd_conn r)\<lparr>cn_server := s, cn_auth := au\<rparr>\<rparr>)"

fun serve_loop :: "conn_context \<Rightarrow> (shared \<times> wakeup) list \<Rightarrow> reader \<Rightarrow> string option \<times> reader" where
  "serve_loop ctx [] r = (None, r)"
| "serve_loop ctx ((sh, ev) # evs) r =
     (case serve_turn ctx ev (resume sh r) of
        (Some reason, r) \<Rightarrow> (Some reason, r)
      | (None, r) \<Rightarrow> serve_loop ctx evs r)"

subsection \<open>Tokens\<close>

definition bucket_ok :: "token_bucket \<Rightarrow> bool" where
  "bucket_ok b \<longleftrightarrow> 0 \<le> tb_tokens b \<and> tb_tokens b \<le> tb_burst b \<and> tb_burst b \<le> 2 ^ 32 \<and> 1 \<le> tb_rate b"

lemma bucket_ok_new: "bucket_ok (bucket_new burst rate now)"
proof -
  have "unat burst < 2 ^ LENGTH(32)" by (rule unsigned_less)
  then have "unat burst \<le> 2 ^ 32" by simp
  then have "of_nat (unat burst) \<le> (of_nat (2 ^ 32) :: rat)" by (simp only: of_nat_le_iff)
  moreover have "1 \<le> unat (max rate 1)" by (simp add: max_def word_le_nat_alt)
  then have "of_nat 1 \<le> (of_nat (unat (max rate 1)) :: rat)" by (simp only: of_nat_le_iff)
  moreover have "0 \<le> (of_nat (unat burst) :: rat)" by (rule of_nat_0_le_iff)
  ultimately show ?thesis by (simp add: bucket_ok_def bucket_new_def)
qed

text \<open>The seconds between two times, exactly, and what the roundings make of them.\<close>

definition secs :: "nat \<Rightarrow> nat \<Rightarrow> rat" where
  "secs a b = of_nat (b - a) / 1000000000"

lemma secs_nonneg [simp]: "0 \<le> secs a b"
  by (simp add: secs_def)

lemma secs_add: "a \<le> b \<Longrightarrow> b \<le> c \<Longrightarrow> secs a b + secs b c = secs a c"
  by (simp add: secs_def of_nat_diff flip: add_divide_distrib)

lemma f64_up:
  assumes "0 \<le> x"
  shows "0 \<le> f64_round x" "f64_round x \<le> x * (1 + 1 / 2 ^ 53)"
proof -
  have n: "\<bar>f64_round x - x\<bar> \<le> x / 2 ^ 53" using f64_near [of x] assms by simp
  have "x / 2 ^ 53 \<le> x" using assms by simp
  then show "0 \<le> f64_round x" using n by linarith
  have "f64_round x - x \<le> x / 2 ^ 53" using n by linarith
  then show "f64_round x \<le> x * (1 + 1 / 2 ^ 53)" unfolding distrib_left mult_1_right times_divide_eq_right by linarith
qed

lemma elapsed_up: "0 \<le> elapsed_secs a b" "elapsed_secs a b \<le> secs a b * (1 + 1 / 2 ^ 53) ^ 2"
proof -
  let ?d = "b - a" and ?e = "1 + 1 / 2 ^ 53 :: rat"
  let ?x = "f64_round (of_nat (?d div 1000000000)) :: rat" and ?y = "f64_round (of_nat (?d mod 1000000000) / 1000000000) :: rat"
  have x: "0 \<le> ?x" "?x \<le> of_nat (?d div 1000000000) * ?e" by (rule f64_up, simp)+
  have y: "0 \<le> ?y" "?y \<le> of_nat (?d mod 1000000000) / 1000000000 * ?e" by (rule f64_up, simp)+
  have "(of_nat ?d :: rat) = of_nat (1000000000 * (?d div 1000000000) + ?d mod 1000000000)" by (simp only: mult_div_mod_eq)
  then have "(of_nat ?d :: rat) = 1000000000 * of_nat (?d div 1000000000) + of_nat (?d mod 1000000000)"
    by (simp only: of_nat_add of_nat_mult of_nat_numeral)
  then have "secs a b = of_nat (?d div 1000000000) + of_nat (?d mod 1000000000) / 1000000000" by (simp add: secs_def add_divide_distrib)
  then have le: "?x + ?y \<le> secs a b * ?e" using x(2) y(2) by (simp only: distrib_right)
  have e: "elapsed_secs a b = f64_round (?x + ?y)" by (simp add: elapsed_secs_def Let_def)
  have "0 \<le> ?x + ?y" using x(1) y(1) by simp
  note r = f64_up [OF this]
  show "0 \<le> elapsed_secs a b" using r(1) e by simp
  have "(?x + ?y) * ?e \<le> secs a b * ?e * ?e" by (rule mult_right_mono [OF le]) simp
  then show "elapsed_secs a b \<le> secs a b * ?e ^ 2" using r(2) e by (simp only: power2_eq_square mult.assoc)
qed

text \<open>A line that is let through costs a token, up to the roundings.\<close>

lemma try_consume_spec:
  assumes "bucket_ok b" "try_consume now b = (True, b')"
  shows "bucket_ok b'" "tb_last b' = now" "tb_rate b' = tb_rate b"
    "tb_tokens b' + (1 - 1 / 2 ^ 20) \<le> tb_tokens b + secs (tb_last b) now * tb_rate b * (1 + 1 / 2 ^ 50)"
proof -
  let ?T = "tb_tokens b" and ?e = "1 + 1 / 2 ^ 53 :: rat" and ?g = "secs (tb_last b) now * tb_rate b"
  let ?i = "f64_round (elapsed_secs (tb_last b) now * tb_rate b)"
  let ?t = "min (f64_round (?T + ?i)) (tb_burst b)"
  have ok: "0 \<le> ?T" "?T \<le> tb_burst b" "tb_burst b \<le> 2 ^ 32" "1 \<le> tb_rate b" using assms(1) by (simp_all add: bucket_ok_def)
  have b': "1 \<le> ?t" "b' = b\<lparr>tb_last := now, tb_tokens := f64_round (?t - 1)\<rparr>"
    using assms(2) by (auto simp: try_consume_def Let_def split: if_splits)
  have g: "0 \<le> ?g" using ok(4) by simp
  have er: "0 \<le> elapsed_secs (tb_last b) now * tb_rate b" "elapsed_secs (tb_last b) now * tb_rate b \<le> ?g * ?e ^ 2"
  proof -
    show "0 \<le> elapsed_secs (tb_last b) now * tb_rate b" using elapsed_up(1) ok(4) by simp
    have "elapsed_secs (tb_last b) now * tb_rate b \<le> secs (tb_last b) now * ?e ^ 2 * tb_rate b"
      by (rule mult_right_mono [OF elapsed_up(2)]) (use ok(4) in simp)
    then show "elapsed_secs (tb_last b) now * tb_rate b \<le> ?g * ?e ^ 2" by (simp only: mult.assoc mult.commute mult.left_commute)
  qed
  have i: "0 \<le> ?i" "?i \<le> ?g * ?e ^ 3"
  proof -
    show "0 \<le> ?i" by (rule f64_up(1) [OF er(1)])
    have "elapsed_secs (tb_last b) now * tb_rate b * ?e \<le> ?g * ?e ^ 2 * ?e" by (rule mult_right_mono [OF er(2)]) simp
    then show "?i \<le> ?g * ?e ^ 3" using f64_up(2) [OF er(1)] by (simp only: power3_eq_cube power2_eq_square mult.assoc)
  qed
  have "f64_round (?T + ?i) \<le> (?T + ?i) * ?e" by (rule f64_up(2)) (use ok(1) i(1) in simp)
  also have "\<dots> = ?T + ?T / 2 ^ 53 + ?i * ?e" by (simp add: distrib_left distrib_right)
  also have "\<dots> \<le> ?T + 1 / 2 ^ 21 + ?g * ?e ^ 4"
  proof -
    have "?i * ?e \<le> ?g * ?e ^ 3 * ?e" by (rule mult_right_mono [OF i(2)]) simp
    also have "\<dots> = ?g * ?e ^ 4"
    proof -
      have "x ^ 3 * x = x ^ 4" for x :: rat by (simp add: eval_nat_numeral)
      then show ?thesis by (simp only: mult.assoc)
    qed
    finally have "?i * ?e \<le> ?g * ?e ^ 4" .
    moreover have "?T / 2 ^ 53 \<le> 2 ^ 32 / 2 ^ 53" by (rule divide_right_mono) (use ok(2,3) in simp_all)
    ultimately show ?thesis by simp
  qed
  finally have t: "?t \<le> ?T + 1 / 2 ^ 21 + ?g * ?e ^ 4" by simp
  have "?t \<le> 2 ^ 32" using ok(3) by simp
  then have small: "(?t - 1) / 2 ^ 53 \<le> 1 / 2 ^ 21" by simp
  have r: "0 \<le> f64_round (?t - 1)" "f64_round (?t - 1) \<le> (?t - 1) * ?e" by (rule f64_up, use b'(1) in simp)+
  then have r2: "f64_round (?t - 1) \<le> ?t - 1 + 1 / 2 ^ 21" using small by (simp add: distrib_left)
  show "bucket_ok b'" using r(1) r2 ok by (simp add: bucket_ok_def b'(2))
  show "tb_last b' = now" "tb_rate b' = tb_rate b" by (simp_all add: b'(2))
  have "?g * ?e ^ 4 \<le> ?g * (1 + 1 / 2 ^ 50)" by (rule mult_left_mono [OF _ g]) (simp add: power4_eq_xxxx)
  then show "tb_tokens b' + (1 - 1 / 2 ^ 20) \<le> ?T + ?g * (1 + 1 / 2 ^ 50)" using r2 t by (simp add: b'(2))
qed

definition arrivals :: "(shared \<times> wakeup) list \<Rightarrow> nat list" where
  "arrivals evs = concat (map (\<lambda>(_, ev). case ev of Arrived now (Some (Inr _)) \<Rightarrow> [now] | _ \<Rightarrow> []) evs)"

lemma bucket_turn:
  "rd_bucket (snd (serve_turn ctx ev (resume sh r))) =
     (case ev of Arrived now (Some (Inr _)) \<Rightarrow> snd (try_consume now (rd_bucket r)) | _ \<Rightarrow> rd_bucket r)"
  "fst (serve_turn ctx (Arrived now (Some (Inr line))) (resume sh r)) = None \<Longrightarrow> fst (try_consume now (rd_bucket r))"
  by (auto simp: serve_turn_def serve_frame_def resume_def Let_def split: wakeup.split option.splits sum.splits prod.splits if_splits)

lemma flood_potential:
  assumes "serve_loop ctx evs r = (None, r')" "bucket_ok (rd_bucket r)" "sorted (tb_last (rd_bucket r) # arrivals evs)"
    "\<forall>t \<in> set (arrivals evs). t \<le> till" "tb_last (rd_bucket r) \<le> till"
  shows "of_nat (length (arrivals evs)) * (1 - 1 / 2 ^ 20)
    \<le> tb_tokens (rd_bucket r) + secs (tb_last (rd_bucket r)) till * tb_rate (rd_bucket r) * (1 + 1 / 2 ^ 50)"
  using assms
proof (induction evs arbitrary: r)
  case Nil
  have "0 \<le> secs (tb_last (rd_bucket r)) till * tb_rate (rd_bucket r)" using Nil.prems(2) by (simp add: bucket_ok_def)
  then show ?case using Nil.prems(2) by (simp add: arrivals_def bucket_ok_def)
next
  case (Cons e evs)
  obtain sh ev where e: "e = (sh, ev)" by (cases e)
  obtain r1 where turn: "serve_turn ctx ev (resume sh r) = (None, r1)" "serve_loop ctx evs r1 = (None, r')"
    using Cons.prems(1) by (auto simp: e split: prod.splits option.splits)
  show ?case
  proof (cases "\<exists>now line. ev = Arrived now (Some (Inr line))")
    case False
    then have "arrivals (e # evs) = arrivals evs"
      by (auto simp: arrivals_def e split: wakeup.split option.split sum.split)
    moreover have "rd_bucket r1 = rd_bucket r"
      using bucket_turn(1) [of ctx ev sh r] False turn(1) by (auto split: wakeup.splits option.splits sum.splits)
    ultimately show ?thesis using Cons.IH [OF turn(2)] Cons.prems(2-5) by simp
  next
    case True
    then obtain now line where ev: "ev = Arrived now (Some (Inr line))" by blast
    have arr: "arrivals (e # evs) = now # arrivals evs" by (simp add: arrivals_def e ev)
    let ?b = "rd_bucket r"
    have b1: "rd_bucket r1 = snd (try_consume now ?b)" using bucket_turn(1) [of ctx ev sh r] turn(1) by (simp add: ev)
    have ok: "fst (try_consume now ?b)" using bucket_turn(2) [of ctx now line sh r] turn(1) by (simp add: ev)
    obtain b' where c: "try_consume now ?b = (True, b')" using ok by (metis prod.collapse)
    note spec = try_consume_spec [OF Cons.prems(2) c]
    have le: "tb_last ?b \<le> now" "now \<le> till" using Cons.prems(3,4) by (auto simp: arr)
    let ?g = "1 + 1 / 2 ^ 50 :: rat"
    have "of_nat (length (arrivals evs)) * (1 - 1 / 2 ^ 20) \<le> tb_tokens b' + secs now till * tb_rate b' * ?g"
      using Cons.IH [OF turn(2)] Cons.prems(3,4) spec(1,2) le by (simp add: b1 c arr)
    moreover have "secs (tb_last ?b) now * tb_rate ?b * ?g + secs now till * tb_rate ?b * ?g = secs (tb_last ?b) till * tb_rate ?b * ?g"
      using secs_add [OF le] by (simp only: distrib_right [symmetric])
    moreover have "of_nat (length (arrivals (e # evs))) * (1 - 1 / 2 ^ 20) = of_nat (length (arrivals evs)) * (1 - 1 / 2 ^ 20) + (1 - 1 / 2 ^ 20 :: rat)"
      by (simp add: arr distrib_right)
    ultimately show ?thesis using spec(3,4) by (simp only:)
  qed
qed

subsection \<open>Silence\<close>

definition quiet_wakeup :: "wakeup \<Rightarrow> bool" where
  "quiet_wakeup ev \<longleftrightarrow> (case ev of Arrived _ _ \<Rightarrow> False | _ \<Rightarrow> True)"

lemma session_upd_srv [simp]: "cn_ses (upd_srv f c) = cn_ses c"
  by (simp add: upd_srv_def)

lemma quiet_turn:
  assumes "quiet_wakeup ev" "serve_turn ctx ev (resume sh r) = (None, r')"
  shows "ss_registered (cn_ses (rd_conn r')) = ss_registered (cn_ses (rd_conn r))"
    "rd_awaiting_pong r \<Longrightarrow> rd_awaiting_pong r' \<and> ev \<noteq> PingTick"
    "ev = PingTick \<Longrightarrow> ss_registered (cn_ses (rd_conn r)) \<Longrightarrow> rd_awaiting_pong r'"
    "ev = RegDeadline \<Longrightarrow> ss_registered (cn_ses (rd_conn r))"
  using assms by (auto simp: serve_turn_def quiet_wakeup_def resume_def Let_def split: wakeup.splits prod.splits if_splits)

lemma silence_registered:
  assumes "\<forall>(_, ev) \<in> set evs. quiet_wakeup ev" "serve_loop ctx evs r = (None, r')" "ss_registered (cn_ses (rd_conn r))"
  shows "length (filter (\<lambda>(_, ev). ev = PingTick) evs) \<le> (if rd_awaiting_pong r then 0 else 1)"
  using assms
proof (induction evs arbitrary: r)
  case (Cons e evs)
  obtain sh ev where e: "e = (sh, ev)" by (cases e)
  obtain r1 where turn: "serve_turn ctx ev (resume sh r) = (None, r1)" "serve_loop ctx evs r1 = (None, r')"
    using Cons.prems(2) by (auto simp: e split: prod.splits option.splits)
  note q = quiet_turn [OF _ turn(1)]
  have "quiet_wakeup ev" using Cons.prems(1) by (simp add: e)
  then show ?case
    using Cons.IH [OF _ turn(2)] Cons.prems(1,3) q by (auto simp: e split: if_splits)
qed simp

lemma silence_unregistered:
  assumes "\<forall>(_, ev) \<in> set evs. quiet_wakeup ev" "serve_loop ctx evs r = (None, r')" "\<not> ss_registered (cn_ses (rd_conn r))"
  shows "RegDeadline \<notin> snd ` set evs"
  using assms
proof (induction evs arbitrary: r)
  case (Cons e evs)
  obtain sh ev where e: "e = (sh, ev)" by (cases e)
  obtain r1 where turn: "serve_turn ctx ev (resume sh r) = (None, r1)" "serve_loop ctx evs r1 = (None, r')"
    using Cons.prems(2) by (auto simp: e split: prod.splits option.splits)
  have "quiet_wakeup ev" using Cons.prems(1) by (simp add: e)
  note q = quiet_turn [OF this turn(1)]
  show ?case using Cons.IH [OF _ turn(2)] Cons.prems(1,3) q by (auto simp: e)
qed simp

subsection \<open>Properties\<close>

text \<open>C25: no client floods the server. However the other tasks interfere, a connection that is still served has had at
  most as many lines dispatched as the burst plus the rate times the seconds since it was admitted (a configured rate of
  zero counts as one), up to one line in a million that the rounding of floating point may let through; times are read from
  a clock that does not go back.\<close>

theorem flood_bounded:
  assumes "serve_loop ctx evs (\<lparr>rd_runtime = rt, rd_conn = c, rd_bucket = bucket_new burst rate start, rd_awaiting_pong = False\<rparr>) = (None, r')"
    and "sorted (start # arrivals evs)" "\<forall>t \<in> set (arrivals evs). t \<le> till" "start \<le> till"
  shows "of_nat (length (arrivals evs)) * (1 - 1 / 2 ^ 20) \<le> of_nat (unat burst) + secs start till * of_nat (unat (max rate 1)) * (1 + 1 / 2 ^ 50)"
  using flood_potential [OF assms(1)] assms(2-4) bucket_ok_new by (simp add: bucket_new_def)

definition demo_context :: conn_context where
  "demo_context = \<lparr>cx_limits = ircv3, cx_max_line = 8704, cx_registration_timeout = 30, cx_max_clients_per_ip = 2, cx_sendq_lines = 10,
     cx_recv_burst = 1, cx_recv_rate = 0, cx_ping_interval = 60\<rparr>"

definition demo_reader :: reader where
  "demo_reader = \<lparr>rd_runtime = demo_runtime, rd_conn = demo_joiner, rd_bucket = bucket_new 1 0 0, rd_awaiting_pong = False\<rparr>"

definition demo_shared :: shared where
  "demo_shared = (demo_runtime, demo_member, demo_auth)"

text \<open>An empty line is no message, but costs a token.\<close>

lemma demo_line:
  "serve_turn ctx (Arrived now (Some (Inr []))) (demo_reader\<lparr>rd_bucket := b\<rparr>) =
     (if fst (try_consume now b) then (None, demo_reader\<lparr>rd_bucket := snd (try_consume now b)\<rparr>)
      else (Some ''Excess Flood'', demo_reader\<lparr>rd_bucket := snd (try_consume now b)\<rparr>))"
  "resume demo_shared (demo_reader\<lparr>rd_bucket := b\<rparr>) = demo_reader\<lparr>rd_bucket := b\<rparr>"
  by (simp_all add: serve_turn_def serve_frame_def serve_line_def parse_def strip_line_terminators_def take_quit_def demo_reader_def
    demo_joiner_def session_new_def upd_ses_def resume_def demo_shared_def split: prod.split)

theorem flood_bounded_witness:
  "length (arrivals [(demo_shared, Arrived 0 (Some (Inr [])))]) = 1
   \<and> of_nat 1 * (1 - 1 / 2 ^ 20) \<le> of_nat (unat (1 :: 32 word)) + secs 0 5 * of_nat (unat (max 0 1 :: 32 word)) * (1 + 1 / 2 ^ 50 :: rat)
   \<and> fst (serve_loop demo_context [(demo_shared, Arrived 0 (Some (Inr []))), (demo_shared, Arrived 5 (Some (Inr [])))] demo_reader) = Some ''Excess Flood''"
proof -
  define b where "b = bucket_new 1 0 0"
  have r: "demo_reader = demo_reader\<lparr>rd_bucket := b\<rparr>" by (simp add: demo_reader_def b_def)
  let ?e = "[(demo_shared, Arrived 0 (Some (Inr [])))]"
  have "f64_round (5 / 10 ^ 9) < 1" "f64_round 1 = 1" by code_simp+
  moreover have "f64_round (f64_round (f64_round (f64_round (5 / 10 ^ 9)))) < 1" by code_simp
  ultimately have b: "try_consume 0 b = (True, b\<lparr>tb_tokens := 0\<rparr>)" "\<not> fst (try_consume 5 (b\<lparr>tb_tokens := 0\<rparr>))"
    by (simp_all add: try_consume_def b_def bucket_new_def elapsed_secs_def Let_def)
  have one: "serve_loop demo_context ?e demo_reader = (None, demo_reader\<lparr>rd_bucket := b\<lparr>tb_tokens := 0\<rparr>\<rparr>)"
    by (subst r) (simp add: demo_line b)
  have two: "fst (serve_loop demo_context (?e @ [(demo_shared, Arrived 5 (Some (Inr [])))]) demo_reader) = Some ''Excess Flood''"
    by (subst r) (simp add: demo_line b)
  have "of_nat (length (arrivals ?e)) * (1 - 1 / 2 ^ 20) \<le> of_nat (unat (1 :: 32 word)) + secs 0 5 * of_nat (unat (max 0 1 :: 32 word)) * (1 + 1 / 2 ^ 50 :: rat)"
    by (rule flood_bounded [OF one [unfolded demo_reader_def]]) (simp_all add: arrivals_def)
  then show ?thesis using two by (simp add: arrivals_def)
qed

text \<open>C8: no connection lingers in silence. If nothing arrives on a connection any more, it ends, whatever else happens on
  the server: by its registration deadline when it is not registered, and by the second tick of the ping timer when it is.\<close>

theorem silent_connection_ends:
  assumes "\<forall>(_, ev) \<in> set evs. quiet_wakeup ev"
    and "RegDeadline \<in> snd ` set evs" "2 \<le> length (filter (\<lambda>(_, ev). ev = PingTick) evs)"
  shows "fst (serve_loop ctx evs r) \<noteq> None"
proof (cases "fst (serve_loop ctx evs r)")
  case None
  then have run: "serve_loop ctx evs r = (None, snd (serve_loop ctx evs r))" by (metis prod.collapse)
  show ?thesis
    using silence_registered [OF assms(1) run] silence_unregistered [OF assms(1) run] assms(2,3)
    by (cases "ss_registered (cn_ses (rd_conn r))"; cases "rd_awaiting_pong r") auto
qed simp

theorem silent_connection_ends_witness:
  "fst (serve_loop demo_context [(demo_shared, PingTick), (demo_shared, RegDeadline), (demo_shared, KillNotified), (demo_shared, PingTick)] demo_reader) \<noteq> None"
  by (rule silent_connection_ends) (simp_all add: quiet_wakeup_def)

end
