(* ===== verification/World.thy ===== *)
theory World
  imports Connection
begin

text \<open>
  A server and its connections (\<open>ferrixd/src/connection.rs\<close>, with everything below it): connections are admitted, woken
  in any order, and torn down, and all of them work on the same state. The invariant of this system of tasks holds
  in every state it can reach. Links to other servers are not part of this system.
\<close>

subsection \<open>The system\<close>

record world =
  wd_runtime :: runtime
  wd_server :: server
  wd_auth :: auth
  wd_tasks :: "(nat, task) table"
  wd_refused :: "(string \<times> string) list"

datatype world_event = Connect string "string option" bool nat | Wake nat wakeup | Clock nat

definition reader_of :: "world \<Rightarrow> task \<Rightarrow> reader" where
  "reader_of w t =
     \<lparr>rd_runtime = wd_runtime w, rd_conn = \<lparr>cn_server = wd_server w, cn_auth = wd_auth w, cn_ses = tk_session t\<rparr>,
      rd_bucket = tk_bucket t, rd_awaiting_pong = tk_awaiting_pong t\<rparr>"

definition task_of :: "reader \<Rightarrow> string \<Rightarrow> task" where
  "task_of r peer_ip =
     \<lparr>tk_session = cn_ses (rd_conn r), tk_bucket = rd_bucket r, tk_awaiting_pong = rd_awaiting_pong r, tk_peer = peer_ip\<rparr>"

definition world_step :: "conn_context \<Rightarrow> world_event \<Rightarrow> world \<Rightarrow> world" where
  "world_step ctx ev w =
     (case ev of
        Connect ip cert secure now \<Rightarrow>
          (case admit ctx ip cert secure now (wd_server w) of
             (Inl refusal, s) \<Rightarrow> w\<lparr>wd_server := s, wd_refused := wd_refused w @ [(ip, refusal)]\<rparr>
           | (Inr (i, t), s) \<Rightarrow> w\<lparr>wd_server := s, wd_tasks := put i t (wd_tasks w)\<rparr>)
      | Wake i k \<Rightarrow>
          (case get (wd_tasks w) i of
             None \<Rightarrow> w
           | Some t \<Rightarrow>
               (case serve_turn ctx k (reader_of w t) of
                  (None, r) \<Rightarrow>
                    w\<lparr>wd_runtime := rd_runtime r, wd_server := cn_server (rd_conn r), wd_auth := cn_auth (rd_conn r),
                      wd_tasks := put i (task_of r (tk_peer t)) (wd_tasks w)\<rparr>
                | (Some reason, r) \<Rightarrow>
                    w\<lparr>wd_runtime := rd_runtime r, wd_server := teardown i (tk_peer t) reason (cn_server (rd_conn r)),
                      wd_auth := cn_auth (rd_conn r), wd_tasks := del i (wd_tasks w)\<rparr>))
      | Clock ms \<Rightarrow> w\<lparr>wd_server := (wd_server w)\<lparr>clock_ms := ms\<rparr>\<rparr>)"

definition world_start :: "runtime \<Rightarrow> nat \<Rightarrow> server_info \<Rightarrow> auth \<Rightarrow> world" where
  "world_start rt now i au = \<lparr>wd_runtime = rt, wd_server = server_new now i, wd_auth = au, wd_tasks = [], wd_refused = []\<rparr>"

subsection \<open>The invariant\<close>

definition ip_count :: "server \<Rightarrow> string \<Rightarrow> nat" where
  "ip_count s ip = (case get (ip_conns s) ip of Some n \<Rightarrow> n | None \<Rightarrow> 0)"

definition from_ip :: "(nat, task) table \<Rightarrow> string \<Rightarrow> nat" where
  "from_ip ts ip = length (filter (\<lambda>(_, t). tk_peer t = ip) ts)"

text \<open>An identifier that was never given out has a blank record.\<close>

definition blank :: "client_data \<Rightarrow> bool" where
  "blank d \<longleftrightarrow> \<not> cd_registered d \<and> cd_channels d = [] \<and> cd_monitor d = []"

definition world_ok :: "conn_context \<Rightarrow> world \<Rightarrow> bool" where
  "world_ok ctx w \<longleftrightarrow> net_ok (wd_server w) \<and> client_ok (wd_server w) \<and> table_ok (wd_tasks w)
     \<and> (\<forall>i t. get (wd_tasks w) i = Some t \<longrightarrow>
          ss_id (tk_session t) = i \<and> i < next_id (wd_server w) \<and> session_ok (rd_conn (reader_of w t)))
     \<and> (\<forall>i \<in> set (by_id (wd_server w)). get (wd_tasks w) i \<noteq> None)
     \<and> (\<forall>i \<ge> next_id (wd_server w). blank (ce_data (entries (wd_server w) i)))
     \<and> (\<forall>ip. ip_count (wd_server w) ip = from_ip (wd_tasks w) ip) \<and> (\<forall>ip. from_ip (wd_tasks w) ip \<le> cx_max_clients_per_ip ctx)"

subsection \<open>One turn\<close>

definition moves :: "conn \<Rightarrow> conn \<Rightarrow> bool" where
  "moves c d \<longleftrightarrow> conn_ok d \<and> my_id d = my_id c \<and> others (my_id c) (cn_server c) (cn_server d)"

lemma moves_trans: "moves c d \<Longrightarrow> moves d e \<Longrightarrow> moves c e"
  by (auto simp: moves_def intro: others_trans)

lemma moves_kept: "conn_ok c \<Longrightarrow> kept c d \<Longrightarrow> moves c d"
  by (simp add: moves_def conn_ok_kept keptD others_tame)

lemma moves_after: "moves c d \<Longrightarrow> kept d e \<Longrightarrow> moves c e"
  using moves_trans [OF _ moves_kept] by (metis moves_def)

lemma kept_begin_label: "kept c (begin_label msg c)"
  by (auto simp: begin_label_def intro!: kept_upd_ses split: option.split)

lemma kept_send_all: "kept c d \<Longrightarrow> kept c (send_all bs d)"
  unfolding send_all_def by (erule kept_upd_srv) (rule safe.frame_fold, rule safe_quiet, simp)

lemma kept_minted: "kept c d \<Longrightarrow> server_next_msgid (cn_server d) = (m, s) \<Longrightarrow> kept c (d\<lparr>cn_server := s\<rparr>)"
  using kept_set_server [of c d s] safe_quiet [OF quiet_next_msgid [of "cn_server d"]] by simp

lemma kept_end_label: "kept c (end_label c)"
proof (cases "ss_label (cn_ses c)")
  case (Some label)
  define d where "d = upd_ses (\<lambda>s. s\<lparr>ss_label := None\<rparr>) c"
  define e where "e = upd_ses (\<lambda>s. s\<lparr>ss_label_buffer := None\<rparr>) d"
  have d: "kept c d" by (simp add: d_def kept_upd_ses)
  then have e: "kept c e" by (simp add: e_def kept_upd_ses)
  obtain m s where m: "server_next_msgid (cn_server e) = (m, s)" by fastforce
  note sent = kept_send_all [OF e] kept_send_all [OF kept_minted [OF e m]]
  show ?thesis
    unfolding end_label_def Some option.case Let_def d_def [symmetric] e_def [symmetric] m prod.case
    by (intro kept.cases sent d)
qed (simp add: end_label_def)

lemma moves_serve_line:
  assumes "conn_ok c"
  shows "moves c (snd (serve_line ctx line (rt, c)))"
proof (cases "parse line (cx_limits ctx)")
  case (Inl e)
  then show ?thesis using moves_kept [OF assms kept.frame_refl] by (simp add: serve_line_def)
next
  case (Inr msg)
  define d where "d = begin_label msg (upd_me (\<lambda>d. d\<lparr>cd_last_active := now_unix (cn_server c)\<rparr>) c)"
  define e where "e = upd_me (\<lambda>d. d\<lparr>cd_last_active := now_unix (cn_server c)\<rparr>) c"
  have "kept c e" unfolding e_def by (rule kept_upd_me) (simp_all add: same_client_def)
  then have "kept c d" unfolding d_def e_def [symmetric] by (rule kept.frame_trans [OF _ kept_begin_label])
  then have d: "moves c d" by (rule moves_kept [OF assms])
  then have ok: "conn_ok d" by (simp add: moves_def)
  have "moves d (snd (dispatch msg (rt, d)))"
    unfolding moves_def by (intro conjI conn_ok_dispatch [OF ok] others_dispatch [OF ok, THEN conjunct1] others_dispatch [OF ok, THEN conjunct2])
  then have "moves c (end_label (snd (dispatch msg (rt, d))))" by (rule moves_after [OF moves_trans [OF d] kept_end_label])
  moreover have "snd (serve_line ctx line (rt, c)) = end_label (snd (dispatch msg (rt, d)))"
    unfolding serve_line_def Inr sum.case Let_def d_def split_beta by simp
  ultimately show ?thesis by simp
qed

lemma moves_turn:
  assumes "conn_ok (rd_conn r)"
  shows "moves (rd_conn r) (rd_conn (snd (serve_turn ctx k r)))"
proof -
  let ?c = "rd_conn r"
  have stay: "moves ?c ?c" by (rule moves_kept [OF assms]) simp
  have kill: "moves ?c (snd (killed ?c))"
    by (rule moves_kept [OF assms])
      (auto simp: killed_def take_kill_reason_def my_entry_def same_client_def intro!: kept_upd_srv safe_upd_client)
  have ping: "moves ?c (upd_srv (upd_client (my_id ?c) (entry_send_line l)) ?c)" for l
    by (rule moves_kept [OF assms])
      (auto simp: entry_send_line_def entry_send_def signal_kill_def same_client_def intro!: kept_upd_srv safe_upd_client)
  have quit: "moves ?c (snd (take_quit d))" if "moves ?c d" for d
    by (rule moves_after [OF that]) (simp add: take_quit_def kept_upd_ses)
  have line: "moves ?c (snd (take_quit (snd (serve_line ctx l (rt, ?c)))))" for l rt
    by (rule quit [OF moves_serve_line [OF assms]])
  show ?thesis
    using stay kill ping line
    by (auto simp: serve_turn_def serve_frame_def Let_def split_beta split: wakeup.split option.split sum.split prod.split)
qed

subsection \<open>Departures\<close>

lemma others_quiet: "quiet s t \<Longrightarrow> others i s t"
  by (rule others_tame [OF tame_quiet])

lemma others_disconnect:
  assumes "net_ok s"
  shows "others i s (disconnect i reason s)"
proof -
  define d where "d = ce_data (entries s i)"
  define u where "u = (if cd_registered d then leave_all i reason d s else s)"
  define v where "v = u\<lparr>by_id := hs_remove i (by_id u)\<rparr>"
  define w where "w = (if cd_registered d \<and> cd_nick d \<noteq> [] \<and> cd_nick d \<noteq> ''*'' then monitor_offline (cd_nick d) v else v)"
  define x where "x = fold (\<lambda>folded. monitor_unwatch folded i) (cd_monitor (ce_data (entries w i))) w"
  have "others i s u" using leave_all_ok(2) [OF assms d_def refl] by (simp add: u_def others_tame)
  moreover have "others i u v" by (simp add: v_def others_def hs_remove_def)
  moreover have "others i v w" by (simp add: w_def others_quiet)
  moreover have "others i w x" unfolding x_def by (subst unwatch_rest) simp
  moreover have "others i x (disconnect i reason s)"
    unfolding disconnect_def Let_def d_def [symmetric] u_def [symmetric] v_def [symmetric] w_def [symmetric] x_def [symmetric]
    by (simp add: release_nick_def)
  ultimately show ?thesis using others_trans by blast
qed

text \<open>A connection that never took a nickname leaves nothing but its entries in the index of watchers.\<close>

lemma disconnect_unnamed:
  assumes "net_ok s" "client_ok s" "i \<notin> set (by_id s)" "cd_nick (ce_data (entries s i)) = ''*''" "\<not> cd_registered (ce_data (entries s i))"
    and "t = disconnect i reason s"
  shows "net_ok t" "client_ok t" "by_id t = by_id s" "clients t = clients s"
    "get (monitors t) f = Some w \<Longrightarrow> i \<notin> set w"
proof -
  have byid: "hs_remove i (by_id s) = by_id s" using assms(3) by (auto simp: hs_remove_def filter_id_conv)
  define m where "m = monitors (fold (\<lambda>folded. monitor_unwatch folded i) (cd_monitor (ce_data (entries s i))) s)"
  have same: "s\<lparr>by_id := by_id s\<rparr> = s" by simp
  have t: "t = s\<lparr>monitors := m\<rparr>"
    using unwatch_rest [of i "cd_monitor (ce_data (entries s i))" s] by (simp add: assms(6) disconnect_def assms(4,5) byid m_def same)
  show "net_ok t" using assms(1) by (subst net_ok_cong [of _ s]) (simp_all add: t)
  show "by_id t = by_id s" "clients t = clients s" by (simp_all add: t)
  have watch: "(\<exists>w'. get (monitors s) f = Some w' \<and> j \<in> set w') \<and> (j = i \<longrightarrow> f \<notin> set (cd_monitor (ce_data (entries s i))))"
    if "get m f = Some w" "j \<in> set w" for f w j
    using unwatched_index [OF m_def [symmetric] that] .
  have own: "f \<in> set (cd_monitor (ce_data (entries s j)))" if "get (monitors s) f = Some w" "j \<in> set w" for f w j
    using assms(2) that unfolding client_ok_def by blast
  show "i \<notin> set w" if "get (monitors t) f = Some w" using watch [of f w i] own that by (auto simp: t)
  have "nick_key t = nick_key s" by (simp add: t fun_eq_iff nick_key_def fold_key_def)
  then show "client_ok t" using assms(2) watch own unfolding client_ok_def by (simp add: t) blast
qed

lemma disconnect_ok:
  assumes "conn_ok c" "i = my_id c" "t = disconnect i reason (cn_server c)"
  shows "net_ok t" "client_ok t" "i \<notin> set (by_id t)" "\<not> (\<exists>f. get (clients t) f = Some i)"
    "\<not> (\<exists>f h. get (channels t) f = Some h \<and> has_member (cdata t h) i)" "\<not> (\<exists>f w. get (monitors t) f = Some w \<and> i \<in> set w)"
proof -
  let ?s = "cn_server c"
  have ok: "net_ok ?s" "client_ok ?s" "session_ok c" using assms(1) by (simp_all add: conn_ok_def)
  have all: "net_ok t \<and> client_ok t \<and> i \<notin> set (by_id t) \<and> \<not> (\<exists>f w. get (monitors t) f = Some w \<and> i \<in> set w)"
  proof (cases "i \<in> set (by_id ?s)")
    case True
    then show ?thesis using disconnect_complete [OF ok(1,2) True assms(3)] by blast
  next
    case False
    then have "cd_nick (ce_data (entries ?s i)) = ''*''" "\<not> cd_registered (ce_data (entries ?s i))"
      using ok(3) by (auto simp: session_ok_def my_nick_data my_data_def my_entry_def assms(2))
    then show ?thesis using disconnect_unnamed [OF ok(1,2) False _ _ assms(3)] False by (metis (no_types))
  qed
  then show "net_ok t" "client_ok t" "i \<notin> set (by_id t)" "\<not> (\<exists>f w. get (monitors t) f = Some w \<and> i \<in> set w)" by blast+
  show "\<not> (\<exists>f. get (clients t) f = Some i)" using all unfolding client_ok_def by blast
  have "locals.agree t (local_index t)" using all by (simp add: net_ok_def members_ok_def)
  then show "\<not> (\<exists>f h. get (channels t) f = Some h \<and> has_member (cdata t h) i)"
    using all locals.agree_iff by (fastforce simp: local_index_def local_who_def has_member_def)
qed

lemma disconnect_registry: "net_ok s \<Longrightarrow> next_id (disconnect i reason s) = next_id s \<and> ip_conns (disconnect i reason s) = ip_conns s"
  using others_disconnect [of s i reason] by (simp add: others_def)

lemma ip_count_remove: "ip_count (remove_connection ip s) ip' = (if ip' = ip then ip_count s ip' - 1 else ip_count s ip')"
  by (auto simp: ip_count_def remove_connection_def Let_def tbl split: option.split)

text \<open>The teardown: what it makes of the tables, of the others, and of the counts.\<close>

lemma teardown_ok:
  assumes "conn_ok c" "i = my_id c" "t = teardown i ip reason (cn_server c)"
  shows "net_ok t" "client_ok t" "i \<notin> set (by_id t)" "\<not> (\<exists>f. get (clients t) f = Some i)"
    "\<not> (\<exists>f h. get (channels t) f = Some h \<and> has_member (cdata t h) i)" "\<not> (\<exists>f w. get (monitors t) f = Some w \<and> i \<in> set w)"
    "next_id t = next_id (cn_server c)" "ip_count t ip' = (if ip' = ip then ip_count (cn_server c) ip' - 1 else ip_count (cn_server c) ip')"
    "j \<noteq> i \<Longrightarrow> (j \<in> set (by_id t) \<longleftrightarrow> j \<in> set (by_id (cn_server c))) \<and> peer (ce_data (entries (cn_server c) j)) (ce_data (entries t j))"
proof -
  define d where "d = (if cd_registered (my_data c) then upd_srv (withdraw_local i reason) c else c)"
  have "kept c d" by (auto simp: d_def withdraw_local_def intro!: kept_upd_srv safe_quiet)
  then have d: "conn_ok d" "my_id d = i" "others i (cn_server c) (cn_server d)"
    using conn_ok_kept [OF assms(1)] keptD(2,3) others_tame assms(2) by auto
  define u where "u = disconnect i reason (cn_server d)"
  note du = disconnect_ok [OF d(1) d(2) [symmetric] u_def]
  have ou: "others i (cn_server c) u"
    using others_trans [OF d(3)] others_disconnect [of "cn_server d" i reason] d(1) by (simp add: u_def conn_ok_def)
  have t: "t = upd_client i (entry_close (error_line (''Closing link: '' @ reason))) (remove_connection ip u)"
    by (simp add: assms(3) teardown_def Let_def u_def d_def upd_srv_def my_data_def my_entry_def assms(2))
  have f: "clients t = clients u" "by_id t = by_id u" "channels t = channels u" "cdata t = cdata u" "monitors t = monitors u" "next_id t = next_id u"
    "ip_conns t = ip_conns (remove_connection ip u)" "info t = info u" "ce_data (entries t j) = ce_data (entries u j)"
    "local_index t = local_index u" "net_with (local_index u) t = net_with (local_index u) u" for j
  proof -
    show e: "ce_data (entries t j) = ce_data (entries u j)" for j
      by (simp add: t upd_client_def remove_connection_def Let_def entry_close_def)
    show "clients t = clients u" "by_id t = by_id u" "channels t = channels u" "cdata t = cdata u" "monitors t = monitors u" "next_id t = next_id u"
      "ip_conns t = ip_conns (remove_connection ip u)" "info t = info u"
      by (simp_all add: t upd_client_def remove_connection_def Let_def cdata_def fun_eq_iff)
    then show "local_index t = local_index u" by (simp add: fun_eq_iff local_index_def e)
    show "net_with (local_index u) t = net_with (local_index u) u"
      by (rule net_with_cong) (simp_all add: t upd_client_def remove_connection_def Let_def cdata_def)
  qed
  show "net_ok t" using du(1) net_with_local [of t] net_with_local [of u] f(10,11) by simp
  have "nick_key t = nick_key u" by (simp add: fun_eq_iff nick_key_def fold_key_def f(8,9))
  then show "client_ok t" using du(2) unfolding client_ok_def by (simp add: f)
  show "i \<notin> set (by_id t)" "\<not> (\<exists>f. get (clients t) f = Some i)"
    "\<not> (\<exists>f h. get (channels t) f = Some h \<and> has_member (cdata t h) i)" "\<not> (\<exists>f w. get (monitors t) f = Some w \<and> i \<in> set w)"
    using du(3-6) by (simp_all add: f)
  show "next_id t = next_id (cn_server c)" using ou by (simp add: f others_def)
  show "ip_count t ip' = (if ip' = ip then ip_count (cn_server c) ip' - 1 else ip_count (cn_server c) ip')"
    using ip_count_remove [of ip u ip'] ou by (simp add: ip_count_def f others_def)
  show "j \<noteq> i \<Longrightarrow> (j \<in> set (by_id t) \<longleftrightarrow> j \<in> set (by_id (cn_server c))) \<and> peer (ce_data (entries (cn_server c) j)) (ce_data (entries t j))"
    using ou by (simp add: f others_def)
qed

subsection \<open>Admissions\<close>

lemma blank_peer: "blank d \<Longrightarrow> peer d e \<Longrightarrow> blank e"
  by (simp add: blank_def peer_def)

text \<open>A fresh identifier is given a fresh record.\<close>

lemma fresh_client:
  assumes "net_ok s" "client_ok s" "i \<notin> set (by_id s)" "blank (ce_data (entries s i))" "cd_channels (ce_data e) = []"
    and "t = upd_client i (\<lambda>_. e) s"
  shows "net_ok t" "client_ok t"
proof -
  show "net_ok t" using assms(1,4,5) net_ok_upd_client [of "\<lambda>_. e" s i] by (simp add: assms(6) blank_def)
  have f: "clients t = clients s" "by_id t = by_id s" "monitors t = monitors s" "j \<noteq> i \<Longrightarrow> entries t j = entries s j" for j
    by (simp_all add: assms(6) upd_client_def)
  have key: "nick_key t j = nick_key s j" if "j \<noteq> i" for j using that by (simp add: assms(6) upd_client_def nick_key_def fold_key_def)
  have watch: "j \<noteq> i" if "get (monitors s) f = Some w" "j \<in> set w" for f w j
    using that assms(2,4) unfolding client_ok_def blank_def by force
  have other: "j \<noteq> i" if "j \<in> set (by_id s)" for j using that assms(3) by auto
  have "(get (clients t) f = Some j) = (j \<in> set (by_id t) \<and> f = nick_key t j)" for f j
    using assms(2) key other unfolding client_ok_def f by metis
  moreover have "\<forall>j \<in> set (by_id t). cd_nick (ce_data (entries t j)) \<notin> {[], ''*''}"
    "\<forall>j \<in> set (by_id t). \<not> cd_registered (ce_data (entries t j)) \<longrightarrow> cd_channels (ce_data (entries t j)) = []"
    using assms(2) other f(4) unfolding client_ok_def f(2) by auto
  moreover have "\<forall>f w j. get (monitors t) f = Some w \<longrightarrow> j \<in> set w \<longrightarrow> f \<in> set (cd_monitor (ce_data (entries t j)))"
    using assms(2) watch f(4) unfolding client_ok_def f(3) by metis
  ultimately show "client_ok t" unfolding client_ok_def by blast
qed

lemma ip_count_add:
  assumes "try_add_connection ip m s = (b, t)"
  shows "t = s\<lparr>ip_conns := ip_conns t\<rparr>" "b \<longleftrightarrow> ip_count s ip < m"
    "ip_count t ip' = (if b \<and> ip' = ip then Suc (ip_count s ip') else ip_count s ip')"
  using assms by (auto simp: try_add_connection_def ip_count_def Let_def tbl split: if_splits option.split)

lemma ip_conns_ok:
  "net_ok (s\<lparr>ip_conns := k, next_id := n\<rparr>) = net_ok s" "client_ok (s\<lparr>ip_conns := k, next_id := n\<rparr>) = client_ok s"
  "net_ok (s\<lparr>ip_conns := k\<rparr>) = net_ok s" "client_ok (s\<lparr>ip_conns := k\<rparr>) = client_ok s"
proof -
  show "net_ok (s\<lparr>ip_conns := k, next_id := n\<rparr>) = net_ok s" "net_ok (s\<lparr>ip_conns := k\<rparr>) = net_ok s"
    by (rule net_ok_cong; simp)+
  show "client_ok (s\<lparr>ip_conns := k, next_id := n\<rparr>) = client_ok s" "client_ok (s\<lparr>ip_conns := k\<rparr>) = client_ok s"
    by (simp_all add: client_ok_def nick_key_def fold_key_def)
qed

lemma from_ip_put:
  "get ts i = None \<Longrightarrow> from_ip (put i t ts) ip = from_ip ts ip + (if tk_peer t = ip then 1 else 0)"
  "get ts i = Some t' \<Longrightarrow> tk_peer t = tk_peer t' \<Longrightarrow> from_ip (put i t ts) ip = from_ip ts ip"
  by (induction ts) (auto simp: from_ip_def split: if_splits)

lemma from_ip_del:
  assumes "table_ok ts" "get ts i = Some t"
  shows "from_ip (del i ts) ip + (if tk_peer t = ip then 1 else 0) = from_ip ts ip"
  using assms
proof (induction ts)
  case (Cons p ts)
  show ?case
  proof (cases "fst p = i")
    case True
    then have "get ts i = None" using Cons.prems(1) by (auto simp: table_ok_def map_of_eq_None_iff)
    then have "del i (p # ts) = ts" using True by (simp add: AList.delete_eq map_of_eq_None_iff) (metis (mono_tags, lifting) case_prod_conv filter_True image_eqI prod.collapse prod.sel(1))
    then show ?thesis using True Cons.prems(2) by (cases p) (auto simp: from_ip_def)
  next
    case False
    then show ?thesis using Cons by (cases p) (auto simp: from_ip_def table_ok_def)
  qed
qed simp

subsection \<open>Every event keeps the invariant\<close>

lemma world_okD:
  assumes "world_ok ctx w"
  shows "net_ok (wd_server w)" "client_ok (wd_server w)" "table_ok (wd_tasks w)"
    "get (wd_tasks w) i = Some t \<Longrightarrow> ss_id (tk_session t) = i" "get (wd_tasks w) i = Some t \<Longrightarrow> i < next_id (wd_server w)"
    "get (wd_tasks w) i = Some t \<Longrightarrow> conn_ok (rd_conn (reader_of w t))"
    "i \<in> set (by_id (wd_server w)) \<Longrightarrow> get (wd_tasks w) i \<noteq> None"
    "next_id (wd_server w) \<le> i \<Longrightarrow> blank (ce_data (entries (wd_server w) i))"
    "ip_count (wd_server w) ip = from_ip (wd_tasks w) ip" "from_ip (wd_tasks w) ip \<le> cx_max_clients_per_ip ctx"
  using assms by (auto simp: world_ok_def conn_ok_def reader_of_def)

text \<open>A session of another client survives.\<close>

lemma session_ok_peer:
  assumes "session_ok \<lparr>cn_server = s, cn_auth = a, cn_ses = ss\<rparr>" "ss_id ss = j"
    "j \<in> set (by_id t) \<longleftrightarrow> j \<in> set (by_id s)" "peer (ce_data (entries s j)) (ce_data (entries t j))"
  shows "session_ok \<lparr>cn_server = t, cn_auth = b, cn_ses = ss\<rparr>"
  using assms by (auto simp: session_ok_def my_nick_data my_data_def my_entry_def my_id_def peer_def)

lemma conn_collapse: "\<lparr>cn_server = cn_server c, cn_auth = cn_auth c, cn_ses = cn_ses c\<rparr> = c"
  by simp

lemma world_ok_update:
  assumes w: "world_ok ctx w" and t: "get (wd_tasks w) i = Some t" and ok: "net_ok s" "client_ok s" and ids: "next_id s = next_id (wd_server w)"
    and peers: "\<And>j. j \<noteq> i \<Longrightarrow> (j \<in> set (by_id s) \<longleftrightarrow> j \<in> set (by_id (wd_server w))) \<and> peer (ce_data (entries (wd_server w) j)) (ce_data (entries s j))"
    and v: "v = w\<lparr>wd_runtime := rt, wd_server := s, wd_auth := au, wd_tasks := ts\<rparr>"
    and live: "table_ok ts" "\<And>j. j \<noteq> i \<Longrightarrow> get ts j = get (wd_tasks w) j" "i \<in> set (by_id s) \<Longrightarrow> get ts i \<noteq> None"
    and mine: "\<And>t'. get ts i = Some t' \<Longrightarrow> ss_id (tk_session t') = i \<and> session_ok (rd_conn (reader_of v t'))"
    and ips: "\<And>ip. ip_count s ip = from_ip ts ip" "\<And>ip. from_ip ts ip \<le> from_ip (wd_tasks w) ip"
  shows "world_ok ctx v"
proof -
  note d = world_okD [OF w]
  have ses: "session_ok (rd_conn (reader_of v t'))" if "get ts j = Some t'" "j \<noteq> i" for j t'
  proof -
    have "session_ok \<lparr>cn_server = wd_server w, cn_auth = wd_auth w, cn_ses = tk_session t'\<rparr>"
      using d(6) [of j t'] that live(2) by (simp add: conn_ok_def reader_of_def)
    then show ?thesis
      using session_ok_peer [of "wd_server w" "wd_auth w" "tk_session t'" j s au] d(4) [of j t'] peers [OF that(2)] that live(2)
      by (simp add: reader_of_def v)
  qed
  have "blank (ce_data (entries s j))" if "next_id s \<le> j" for j
    using blank_peer [OF d(8)] peers [of j] d(5) [OF t] that ids by (metis not_le)
  moreover have "get ts j \<noteq> None" if "j \<in> set (by_id s)" for j
    using that live(2,3) peers [of j] d(7) [of j] by (cases "j = i") auto
  moreover have "ss_id (tk_session t') = j \<and> j < next_id s \<and> session_ok (rd_conn (reader_of v t'))" if "get ts j = Some t'" for j t'
    using that ses mine d(4,5) [of j t'] d(5) [OF t] live(2) ids by (cases "j = i") auto
  moreover have "from_ip ts ip \<le> cx_max_clients_per_ip ctx" for ip using ips(2) [of ip] d(10) [of ip] by simp
  ultimately show ?thesis
    using ok live(1) ips(1) unfolding world_ok_def by (simp add: v)
qed

lemma world_ok_wake:
  assumes w: "world_ok ctx w"
  shows "world_ok ctx (world_step ctx (Wake i k) w)"
proof (cases "get (wd_tasks w) i")
  case (Some t)
  note d = world_okD [OF w]
  let ?c = "rd_conn (reader_of w t)"
  obtain reason r where turn: "serve_turn ctx k (reader_of w t) = (reason, r)" by fastforce
  have c: "conn_ok ?c" "my_id ?c = i" "cn_server ?c = wd_server w"
    using d(4,6) [OF Some] by (simp_all add: reader_of_def my_id_def)
  have m: "conn_ok (rd_conn r)" "my_id (rd_conn r) = i" "others i (wd_server w) (cn_server (rd_conn r))"
    using moves_turn [OF c(1), of ctx k] c turn by (simp_all add: moves_def)
  let ?s = "cn_server (rd_conn r)"
  show ?thesis
  proof (cases reason)
    case None
    let ?ts = "put i (task_of r (tk_peer t)) (wd_tasks w)"
    have v: "world_step ctx (Wake i k) w = w\<lparr>wd_runtime := rd_runtime r, wd_server := ?s, wd_auth := cn_auth (rd_conn r), wd_tasks := ?ts\<rparr>"
      by (simp add: world_step_def Some turn None)
    show ?thesis
    proof (rule world_ok_update [OF w Some _ _ _ _ v])
      show "net_ok ?s" "client_ok ?s" using m(1) by (simp_all add: conn_ok_def)
      show "next_id ?s = next_id (wd_server w)" using m(3) by (simp add: others_def)
      show "(j \<in> set (by_id ?s) \<longleftrightarrow> j \<in> set (by_id (wd_server w))) \<and> peer (ce_data (entries (wd_server w) j)) (ce_data (entries ?s j))" if "j \<noteq> i" for j
        using m(3) that by (simp add: others_def)
      show "table_ok ?ts" using d(3) by simp
      show "ss_id (tk_session t') = i \<and> session_ok (rd_conn (reader_of (world_step ctx (Wake i k) w) t'))" if "get ?ts i = Some t'" for t'
        using that m(1,2) by (auto simp: tbl v reader_of_def task_of_def conn_ok_def my_id_def conn_collapse)
      show "ip_count ?s ip = from_ip ?ts ip" "from_ip ?ts ip \<le> from_ip (wd_tasks w) ip" for ip
        using m(3) d(9) [of ip] from_ip_put(2) [OF Some, of "task_of r (tk_peer t)" ip] by (simp_all add: ip_count_def others_def task_of_def)
    qed (simp_all add: tbl)
  next
    case (Some rs)
    let ?u = "teardown i (tk_peer t) rs ?s" and ?ts = "del i (wd_tasks w)"
    have v: "world_step ctx (Wake i k) w = w\<lparr>wd_runtime := rd_runtime r, wd_server := ?u, wd_auth := cn_auth (rd_conn r), wd_tasks := ?ts\<rparr>"
      by (simp add: world_step_def \<open>get (wd_tasks w) i = Some t\<close> turn Some)
    note u = teardown_ok [OF m(1) m(2) [symmetric] refl, where ip = "tk_peer t" and reason = rs]
    have ips: "ip_count ?s ip = ip_count (wd_server w) ip" for ip using m(3) by (simp add: ip_count_def others_def)
    show ?thesis
    proof (rule world_ok_update [OF w \<open>get (wd_tasks w) i = Some t\<close> _ _ _ _ v])
      show "net_ok ?u" "client_ok ?u" by (rule u(1,2))+
      show "next_id ?u = next_id (wd_server w)" using m(3) u(7) by (simp add: others_def)
      show "(j \<in> set (by_id ?u) \<longleftrightarrow> j \<in> set (by_id (wd_server w))) \<and> peer (ce_data (entries (wd_server w) j)) (ce_data (entries ?u j))" if "j \<noteq> i" for j
        using m(3) u(9) [OF that] that peer_trans by (auto simp: others_def)
      show "table_ok ?ts" using d(3) by simp
      show "get ?ts i \<noteq> None" if "i \<in> set (by_id ?u)" using that u(3) by simp
      show "ss_id (tk_session t') = i \<and> session_ok (rd_conn (reader_of (world_step ctx (Wake i k) w) t'))" if "get ?ts i = Some t'" for t'
        using that by (simp add: tbl)
      show "ip_count ?u ip = from_ip ?ts ip" "from_ip ?ts ip \<le> from_ip (wd_tasks w) ip" for ip
        using u(8) [of ip] ips [of ip] d(9) [of ip] from_ip_del [OF d(3) \<open>get (wd_tasks w) i = Some t\<close>, of ip] by (auto split: if_splits)
    qed (simp_all add: tbl)
  qed
qed (simp add: world_step_def w)

lemma world_ok_connect:
  assumes w: "world_ok ctx w" and room: "next_id (wd_server w) + 1 < 2 ^ 64"
  shows "world_ok ctx (world_step ctx (Connect ip cert secure now) w)"
proof -
  note d = world_okD [OF w]
  let ?s = "wd_server w" and ?i = "next_id (wd_server w)"
  obtain b s1 where add: "try_add_connection ip (cx_max_clients_per_ip ctx) ?s = (b, s1)" by fastforce
  note a = ip_count_add [OF add]
  have ses: "session_ok \<lparr>cn_server = ?s, cn_auth = wd_auth w, cn_ses = tk_session t\<rparr>" if "get (wd_tasks w) j = Some t" for j t
    using d(6) [OF that] by (simp add: conn_ok_def reader_of_def)
  consider (dline) reason where "matches_dline ?s ip = Some reason" | (full) "matches_dline ?s ip = None" "\<not> b" | (admitted) "matches_dline ?s ip = None" b
    by (cases "matches_dline ?s ip") auto
  then show ?thesis
  proof cases
    case dline
    then have "world_step ctx (Connect ip cert secure now) w =
        w\<lparr>wd_refused := wd_refused w @ [(ip, error_line (''Closing Link: D-Lined: '' @ reason))]\<rparr>"
      by (simp add: world_step_def admit_def)
    then show ?thesis using w by (simp add: world_ok_def reader_of_def)
  next
    case full
    then have v: "world_step ctx (Connect ip cert secure now) w =
        w\<lparr>wd_server := s1, wd_refused := wd_refused w @ [(ip, error_line ''Too many connections from your IP'')]\<rparr>"
      by (simp add: world_step_def admit_def add)
    have s1: "s1 = ?s\<lparr>ip_conns := ip_conns s1\<rparr>" by (rule a(1))
    have f: "by_id s1 = by_id ?s" "entries s1 = entries ?s" "next_id s1 = next_id ?s" "net_ok s1" "client_ok s1"
      by (subst s1, simp add: ip_conns_ok d(1,2))+
    have "session_ok \<lparr>cn_server = s1, cn_auth = wd_auth w, cn_ses = tk_session t\<rparr>" if "get (wd_tasks w) j = Some t" for j t
      using session_ok_peer [OF ses [OF that] refl, of s1] f by simp
    then show ?thesis
      using d(3-5,7-10) full a(3) f unfolding world_ok_def v by (auto simp: reader_of_def)
  next
    case admitted
    define e where "e = (client_entry_new (now_unix s1) ?i ip (cx_sendq_lines ctx))
      \<lparr>ce_data := (ce_data (client_entry_new (now_unix s1) ?i ip (cx_sendq_lines ctx)))\<lparr>cd_secure := secure\<rparr>\<rparr>"
    define t0 where "t0 = \<lparr>tk_session = session_new ?i ip cert, tk_bucket = bucket_new (cx_recv_burst ctx) (cx_recv_rate ctx) now,
      tk_awaiting_pong = False, tk_peer = ip\<rparr>"
    define s2 where "s2 = s1\<lparr>next_id := ?i + 1\<rparr>"
    define s3 where "s3 = upd_client ?i (\<lambda>_. e) s2"
    have s2: "s2 = ?s\<lparr>ip_conns := ip_conns s1, next_id := ?i + 1\<rparr>" unfolding s2_def by (subst a(1)) simp
    have f2: "by_id s2 = by_id ?s" "entries s2 = entries ?s" "next_id s2 = ?i + 1" "ip_conns s2 = ip_conns s1" "net_ok s2" "client_ok s2"
      by (simp_all add: s2 ip_conns_ok d(1,2))
    have "next_id s1 = ?i" by (subst a(1)) simp
    then have alloc: "alloc_id s1 = (?i, s2)" using room by (simp add: alloc_id_def s2_def)
    have "now_unix s2 = now_unix s1" by (simp add: s2_def now_unix_def)
    then have v: "world_step ctx (Connect ip cert secure now) w = w\<lparr>wd_server := s3, wd_tasks := put ?i t0 (wd_tasks w)\<rparr>"
      using admitted by (simp add: world_step_def admit_def add alloc Let_def s3_def e_def t0_def)
    have fresh: "get (wd_tasks w) ?i = None" using d(5) [of ?i] by (cases "get (wd_tasks w) ?i") auto
    then have out: "?i \<notin> set (by_id ?s)" using d(7) [of ?i] by auto
    have e: "cd_channels (ce_data e) = []" "cd_nick (ce_data e) = ''*''" "\<not> cd_registered (ce_data e)"
      by (simp_all add: e_def client_entry_new_def client_data_new_def)
    note ok = fresh_client [OF f2(5,6) _ _ e(1) s3_def, unfolded f2(1,2), OF out d(8)]
    have f3: "by_id s3 = by_id ?s" "next_id s3 = ?i + 1" "entries s3 j = (if j = ?i then e else entries ?s j)" "ip_conns s3 = ip_conns s1" for j
      by (simp_all add: s3_def upd_client_def f2)
    show ?thesis
      unfolding world_ok_def v
    proof (intro conjI allI impI ballI; (elim conjE)?)
      fix j t assume "get (wd_tasks (w\<lparr>wd_server := s3, wd_tasks := put ?i t0 (wd_tasks w)\<rparr>)) j = Some t"
      then have j: "if j = ?i then t = t0 else get (wd_tasks w) j = Some t" by (auto simp: tbl split: if_splits)
      then show "ss_id (tk_session t) = j" "j < next_id (wd_server (w\<lparr>wd_server := s3, wd_tasks := put ?i t0 (wd_tasks w)\<rparr>))"
        using d(4,5) [of j t] by (auto simp: t0_def session_new_def f3 split: if_splits)
      show "session_ok (rd_conn (reader_of (w\<lparr>wd_server := s3, wd_tasks := put ?i t0 (wd_tasks w)\<rparr>) t))"
      proof (cases "j = ?i")
        case True
        then show ?thesis
          using j e out by (simp add: reader_of_def t0_def session_ok_def my_nick_data my_data_def my_entry_def my_id_def session_new_def f3)
      next
        case False
        then have tj: "get (wd_tasks w) j = Some t" using j by simp
        show ?thesis
          using session_ok_peer [OF ses [OF tj] refl, of s3] d(4) [OF tj] False by (simp add: reader_of_def f3)
      qed
    next
      have s3: "ip_count s3 x = ip_count s1 x" for x by (simp add: ip_count_def f3)
      have count: "from_ip (put ?i t0 (wd_tasks w)) x = from_ip (wd_tasks w) x + (if ip = x then 1 else 0)" for x
        using from_ip_put(1) [OF fresh, of t0 x] by (simp add: t0_def)
      show "ip_count (wd_server (w\<lparr>wd_server := s3, wd_tasks := put ?i t0 (wd_tasks w)\<rparr>)) x
          = from_ip (wd_tasks (w\<lparr>wd_server := s3, wd_tasks := put ?i t0 (wd_tasks w)\<rparr>)) x" for x
        using a(3) [of x] admitted(2) d(9) [of x] count [of x] s3 [of x] by auto
      show "from_ip (wd_tasks (w\<lparr>wd_server := s3, wd_tasks := put ?i t0 (wd_tasks w)\<rparr>)) x \<le> cx_max_clients_per_ip ctx" for x
        using a(2) admitted(2) d(9) [of ip] d(10) [of x] count [of x] by (cases "x = ip") auto
    qed (use ok d(3,7,8) in \<open>auto simp: f3 tbl\<close>)
  qed
qed

lemma world_ok_clock: "world_ok ctx w \<Longrightarrow> world_ok ctx (world_step ctx (Clock ms) w)"
proof -
  assume w: "world_ok ctx w"
  let ?t = "(wd_server w)\<lparr>clock_ms := ms\<rparr>"
  have "net_ok ?t = net_ok (wd_server w)" by (rule net_ok_cong) simp_all
  moreover have "client_ok ?t = client_ok (wd_server w)" by (simp add: client_ok_def nick_key_def fold_key_def)
  moreover have "session_ok \<lparr>cn_server = ?t, cn_auth = wd_auth w, cn_ses = ss\<rparr> = session_ok \<lparr>cn_server = wd_server w, cn_auth = wd_auth w, cn_ses = ss\<rparr>" for ss
    by (simp add: session_ok_def my_nick_data my_data_def my_entry_def my_id_def)
  ultimately show ?thesis using w by (simp add: world_ok_def world_step_def reader_of_def ip_count_def)
qed

text \<open>Identifiers are handed out one by one.\<close>

lemma next_id_step:
  assumes "world_ok ctx w" "next_id (wd_server w) + 1 < 2 ^ 64"
  shows "next_id (wd_server (world_step ctx ev w)) \<le> Suc (next_id (wd_server w))"
proof (cases ev)
  case (Connect ip cert secure now)
  obtain b s1 where add: "try_add_connection ip (cx_max_clients_per_ip ctx) (wd_server w) = (b, s1)" by fastforce
  have "next_id s1 = next_id (wd_server w)" by (subst ip_count_add(1) [OF add]) simp
  then show ?thesis
    using assms(2) by (auto simp: Connect world_step_def admit_def add alloc_id_def Let_def upd_client_def split: option.split bool.split)
next
  case (Wake i k)
  show ?thesis
  proof (cases "get (wd_tasks w) i")
    case (Some t)
    obtain reason r where turn: "serve_turn ctx k (reader_of w t) = (reason, r)" by fastforce
    have c: "conn_ok (rd_conn (reader_of w t))" "cn_server (rd_conn (reader_of w t)) = wd_server w"
      using world_okD(6) [OF assms(1) Some] by (simp_all add: reader_of_def)
    have m: "conn_ok (rd_conn r)" "next_id (cn_server (rd_conn r)) = next_id (wd_server w)" "my_id (rd_conn r) = i"
      using moves_turn [OF c(1), of ctx k] c(2) turn world_okD(4) [OF assms(1) Some] by (simp_all add: moves_def others_def reader_of_def my_id_def)
    have "next_id (teardown i ip rs (cn_server (rd_conn r))) = next_id (wd_server w)" for ip rs
      using teardown_ok(7) [OF m(1) m(3) [symmetric] refl] m(2) by simp
    then show ?thesis using m(2) by (auto simp: Wake world_step_def Some turn split: option.split)
  qed (simp add: Wake world_step_def)
qed (simp add: world_step_def)

lemma world_ok_step:
  assumes "world_ok ctx w" "next_id (wd_server w) + 1 < 2 ^ 64"
  shows "world_ok ctx (world_step ctx ev w)"
  using world_ok_connect [OF assms] world_ok_wake [OF assms(1)] world_ok_clock [OF assms(1)] by (cases ev) simp_all

lemma world_ok_run:
  assumes "world_ok ctx w" "next_id (wd_server w) + length evs < 2 ^ 64"
  shows "world_ok ctx (fold (world_step ctx) evs w)"
  using assms
proof (induction evs arbitrary: w)
  case (Cons ev evs)
  have room: "next_id (wd_server w) + 1 < 2 ^ 64" using Cons.prems(2) by simp
  show ?case
    using Cons.IH [OF world_ok_step [OF Cons.prems(1) room]] next_id_step [OF Cons.prems(1) room, of ev] Cons.prems(2) by simp
qed simp

lemma world_ok_start: "world_ok ctx (world_start rt now i au)"
proof -
  have f: "channels (server_new now i) = []" "by_id (server_new now i) = []" "remote_users (server_new now i) = []" "remote_by_uid (server_new now i) = []"
    "remote_channels (server_new now i) = []" "clients (server_new now i) = []" "monitors (server_new now i) = []" "ip_conns (server_new now i) = []"
    "entries (server_new now i) k = client_entry_new 0 k [] 1" for k
    by (simp_all add: server_new_def)
  have "net_ok (server_new now i)"
    by (auto simp: net_ok_def members_ok_def chan_ok_def remotes.agree_def locals.agree_def reg_ok_def known_ok_def remote_index_def local_index_def f)
  moreover have "client_ok (server_new now i)" by (simp add: client_ok_def f)
  ultimately show ?thesis
    by (simp add: world_ok_def world_start_def f ip_count_def from_ip_def blank_def client_entry_new_def client_data_new_def)
qed

subsection \<open>Channels left empty\<close>








subsection \<open>Properties\<close>

text \<open>C2: the server stays consistent however its clients behave. From its start, after any sequence of admissions, refusals,
  wake-ups of any connection (lines of any content, timers, kills, errors and ends of streams) and changes of the clock,
  short of exhausting the 64-bit identifiers: the tables agree with each other, every session is filed as it believes to
  be, every filed client has a live connection, no two clients hold the same nickname under the case mapping, and no
  address has more connections than configured.\<close>

theorem every_world_consistent:
  assumes "length evs + 1 < 2 ^ 64" "w = fold (world_step ctx) evs (world_start rt now i au)"
  shows "world_ok ctx w
    \<and> (\<forall>j k. j \<in> set (by_id (wd_server w)) \<and> k \<in> set (by_id (wd_server w)) \<and> nick_key (wd_server w) j = nick_key (wd_server w) k \<longrightarrow> j = k)
    \<and> (\<forall>j t. get (wd_tasks w) j = Some t \<longrightarrow> (ss_registered (tk_session t) \<longleftrightarrow> cd_registered (ce_data (entries (wd_server w) j))))
    \<and> (\<forall>ip. from_ip (wd_tasks w) ip \<le> cx_max_clients_per_ip ctx)"
proof -
  have "next_id (wd_server (world_start rt now i au)) = 1" by (simp add: world_start_def server_new_def)
  then have w: "world_ok ctx w" using world_ok_run [OF world_ok_start] assms by simp
  have "j = k" if "j \<in> set (by_id (wd_server w))" "k \<in> set (by_id (wd_server w))" "nick_key (wd_server w) j = nick_key (wd_server w) k" for j k
    using that world_okD(2) [OF w] unfolding client_ok_def by (metis option.inject)
  moreover have "ss_registered (tk_session t) \<longleftrightarrow> cd_registered (ce_data (entries (wd_server w) j))" if "get (wd_tasks w) j = Some t" for j t
    using world_okD(4,6) [OF w that] by (simp add: conn_ok_def session_ok_def reader_of_def my_data_def my_entry_def my_id_def)
  ultimately show ?thesis using w world_okD(10) [OF w] by blast
qed

definition demo_start :: world where
  "demo_start = world_start demo_runtime 0 (info demo_server) demo_auth"

theorem every_world_consistent_witness:
  "from_ip (wd_tasks (fold (world_step demo_context) [Connect ''9.9.9.9'' None True 5, Wake 1 (Arrived 7 (Some (Inr ''NICK amy''))),
      Connect ''9.9.9.9'' None False 8, Connect ''9.9.9.9'' None False 9, Wake 2 RegDeadline] demo_start)) ''9.9.9.9'' \<le> 2"
proof -
  let ?evs = "[Connect ''9.9.9.9'' None True 5, Wake 1 (Arrived 7 (Some (Inr ''NICK amy''))),
    Connect ''9.9.9.9'' None False 8, Connect ''9.9.9.9'' None False 9, Wake 2 RegDeadline]"
  define evs where "evs = ?evs"
  have "length evs + 1 < 2 ^ 64" by (simp add: evs_def)
  from every_world_consistent [OF this refl, of demo_context demo_runtime 0 "info demo_server" demo_auth]
  have "from_ip (wd_tasks (fold (world_step demo_context) evs demo_start)) ''9.9.9.9'' \<le> cx_max_clients_per_ip demo_context"
    by (simp add: demo_start_def)
  moreover have "cx_max_clients_per_ip demo_context = 2" by (simp add: demo_context_def)
  ultimately show ?thesis unfolding evs_def by metis
qed



end
