(* ===== verification/Websocket.thy ===== *)
theory Websocket
  imports Account Codec
begin

unbundle bit_operations_syntax

text \<open>
  IRC over WebSocket (\<open>ferrixd/src/websocket.rs\<close>): the upgrade handshake, RFC 6455 framing in the role of the server, and
  the byte stream the connection reads and writes in its place. The socket below is the environment: a script of what its
  reads return and of how much its writes take.
\<close>

subsection \<open>The handshake\<close>

definition TEXT_SUBPROTOCOL :: string where "TEXT_SUBPROTOCOL = ''text.ircv3.net''"
definition BINARY_SUBPROTOCOL :: string where "BINARY_SUBPROTOCOL = ''binary.ircv3.net''"
definition WS_GUID :: string where "WS_GUID = ''258EAFA5-E914-47DA-95CA-C5AB0DC85B11''"
definition MAX_HANDSHAKE_BYTES :: nat where "MAX_HANDSHAKE_BYTES = 8 * 1024"
definition READ_CHUNK :: nat where "READ_CHUNK = 8 * 1024"
definition MAX_TX_BUFFER :: nat where "MAX_TX_BUFFER = 1024 * 1024"

definition OP_CONTINUATION :: nat where "OP_CONTINUATION = 0x0"
definition OP_TEXT :: nat where "OP_TEXT = 0x1"
definition OP_BINARY :: nat where "OP_BINARY = 0x2"
definition OP_CLOSE :: nat where "OP_CLOSE = 0x8"
definition OP_PING :: nat where "OP_PING = 0x9"
definition OP_PONG :: nat where "OP_PONG = 0xA"

lemmas op_defs = OP_CONTINUATION_def OP_TEXT_def OP_BINARY_def OP_CLOSE_def OP_PING_def OP_PONG_def

record upgrade_request =
  ur_is_get :: bool
  ur_upgrade_ok :: bool
  ur_connection_ok :: bool
  ur_key :: string
  ur_version :: string
  ur_protocols :: "string list"

fun split_crlf :: "string \<Rightarrow> string list" where
  "split_crlf (a # b # rest) =
     (if a = CR \<and> b = LF then [] # split_crlf rest
      else case split_crlf (b # rest) of p # ps \<Rightarrow> (a # p) # ps | [] \<Rightarrow> [a # []])"
| "split_crlf s = [s]"

definition names_token :: "string \<Rightarrow> string \<Rightarrow> bool" where
  "names_token tok value = list_ex (\<lambda>v. eq_ignore_ascii_case (trim v) tok) (split_on CHR '','' value)"

definition request_header :: "string \<Rightarrow> string \<Rightarrow> upgrade_request \<Rightarrow> upgrade_request" where
  "request_header name value req =
     (if eq_ignore_ascii_case name ''sec-websocket-key'' then req\<lparr>ur_key := value\<rparr>
      else if eq_ignore_ascii_case name ''sec-websocket-version'' then req\<lparr>ur_version := value\<rparr>
      else if eq_ignore_ascii_case name ''sec-websocket-protocol''
      then req\<lparr>ur_protocols := ur_protocols req @ filter (\<lambda>p. p \<noteq> []) (map trim (split_on CHR '','' value))\<rparr>
      else if eq_ignore_ascii_case name ''upgrade'' \<and> names_token ''websocket'' value then req\<lparr>ur_upgrade_ok := True\<rparr>
      else if eq_ignore_ascii_case name ''connection'' \<and> names_token ''upgrade'' value then req\<lparr>ur_connection_ok := True\<rparr>
      else req)"

fun request_lines :: "string list \<Rightarrow> upgrade_request \<Rightarrow> upgrade_request option" where
  "request_lines [] req = Some req"
| "request_lines (line # rest) req =
     (if line = [] then request_lines rest req
      else case memchr CHR '':'' line of
             None \<Rightarrow> None
           | Some i \<Rightarrow> request_lines rest (request_header (trim (take i line)) (trim (drop (i + 1) line)) req))"

definition parse_request :: "string \<Rightarrow> upgrade_request option" where
  "parse_request bytes =
     (if \<not> utf8_valid bytes then None
      else case split_crlf bytes of
             [] \<Rightarrow> None
           | request_line # rest \<Rightarrow>
               request_lines rest \<lparr>ur_is_get = (strip_prefix ''GET '' request_line \<noteq> None), ur_upgrade_ok = False, ur_connection_ok = False,
                 ur_key = [], ur_version = [], ur_protocols = []\<rparr>)"

text \<open>SHA-1 and Base64 are third-party code: \<open>digest\<close> is the encoded digest of its argument.\<close>

definition compute_accept :: "(string \<Rightarrow> string) \<Rightarrow> string \<Rightarrow> string" where
  "compute_accept digest key = digest (key @ WS_GUID)"

definition select_subprotocol :: "string list \<Rightarrow> string option" where
  "select_subprotocol offered = find (\<lambda>p. p = TEXT_SUBPROTOCOL \<or> p = BINARY_SUBPROTOCOL) offered"

fun find_crlf_crlf :: "string \<Rightarrow> nat option" where
  "find_crlf_crlf [] = None"
| "find_crlf_crlf (c # rest) =
     (if take 4 (c # rest) = [CR, LF, CR, LF] then Some 0 else map_option Suc (find_crlf_crlf rest))"

datatype handshake_error = TooLarge | UnexpectedEof | Malformed | NotUpgrade | ReadFailed | WriteFailed

text \<open>The upgrade request is read until its blank line; what follows it belongs to the stream.\<close>

datatype read_result = Chunk string | ReadErr | ReadPending

fun read_request :: "string \<Rightarrow> read_result list \<Rightarrow> (handshake_error + string \<times> string) option" where
  "read_request buf reads =
     (case find_crlf_crlf buf of
        Some pos \<Rightarrow> Some (Inr (take (pos + 4) buf, drop (pos + 4) buf))
      | None \<Rightarrow>
          if MAX_HANDSHAKE_BYTES < length buf then Some (Inl TooLarge)
          else case reads of
                 [] \<Rightarrow> None
               | ReadPending # rest \<Rightarrow> read_request buf rest
               | ReadErr # _ \<Rightarrow> Some (Inl ReadFailed)
               | Chunk c # rest \<Rightarrow> if c = [] then Some (Inl UnexpectedEof) else read_request (buf @ c) rest)"

declare read_request.simps [simp del]

definition BAD_REQUEST :: string where
  "BAD_REQUEST = ''HTTP/1.1 400 Bad Request'' @ [CR, LF] @ ''Connection: close'' @ [CR, LF] @ ''Content-Length: 0'' @ [CR, LF, CR, LF]"

definition upgrade_response :: "string \<Rightarrow> string option \<Rightarrow> string" where
  "upgrade_response accept_key subprotocol =
     ''HTTP/1.1 101 Switching Protocols'' @ [CR, LF] @ ''Upgrade: websocket'' @ [CR, LF] @ ''Connection: Upgrade'' @ [CR, LF]
     @ ''Sec-WebSocket-Accept: '' @ accept_key @ [CR, LF]
     @ (case subprotocol of Some proto \<Rightarrow> ''Sec-WebSocket-Protocol: '' @ proto @ [CR, LF] | None \<Rightarrow> []) @ [CR, LF]"

subsection \<open>Frames\<close>

datatype frame_status = NeedMore | Protocol | Frame bool nat string
datatype action = Continue | Eof | Error

record ws_stream =
  ws_binary :: bool
  ws_max_message :: nat
  ws_rx_raw :: string
  ws_read_buf :: string
  ws_read_eof :: bool
  ws_frag_opcode :: "nat option"
  ws_frag_buf :: string
  ws_write_buf :: string
  ws_tx_raw :: string
  ws_close_sent :: bool

definition ws_new :: "bool \<Rightarrow> nat \<Rightarrow> ws_stream" where
  "ws_new binary max_message =
     \<lparr>ws_binary = binary, ws_max_message = max_message, ws_rx_raw = [], ws_read_buf = [], ws_read_eof = False,
      ws_frag_opcode = None, ws_frag_buf = [], ws_write_buf = [], ws_tx_raw = [], ws_close_sent = False\<rparr>"

definition be_value :: "string \<Rightarrow> nat" where
  "be_value bs = foldl (\<lambda>n b. 256 * n + octet b) 0 bs"

definition be_bytes :: "nat \<Rightarrow> nat \<Rightarrow> string" where
  "be_bytes k n = map (\<lambda>i. char_of (n div 256 ^ i)) (rev [0..<k])"

definition unmask :: "string \<Rightarrow> string \<Rightarrow> string" where
  "unmask key payload = map (\<lambda>(i, b). char_of (octet b XOR octet (key ! (i mod 4)))) (enumerate 0 payload)"

text \<open>The length of the header before the mask, and the length of the payload.\<close>

definition frame_length :: "nat \<Rightarrow> string \<Rightarrow> nat \<Rightarrow> frame_status + nat \<times> nat" where
  "frame_length max_message rx len7 =
     (if len7 < 126 then Inr (2, len7)
      else if len7 = 126 then (if length rx < 4 then Inl NeedMore else Inr (4, be_value (take 2 (drop 2 rx))))
      else if length rx < 10 then Inl NeedMore
      else
        (let len = be_value (take 8 (drop 2 rx))
         in if max_message < len then Inl Protocol else Inr (10, len)))"

definition take_frame :: "ws_stream \<Rightarrow> frame_status \<times> ws_stream" where
  "take_frame ws =
     (let rx = ws_rx_raw ws
      in if length rx < 2 then (NeedMore, ws)
         else
           (let b0 = octet (rx ! 0); b1 = octet (rx ! 1)
            in if b0 AND 0x70 \<noteq> 0 then (Protocol, ws)
               else
                 (let fin = (b0 AND 0x80 \<noteq> 0); opcode = b0 AND 0x0F; masked = (b1 AND 0x80 \<noteq> 0); len7 = b1 AND 0x7F
                  in case frame_length (ws_max_message ws) rx len7 of
                       Inl st \<Rightarrow> (st, ws)
                     | Inr (offset, payload_len) \<Rightarrow>
                         if ws_max_message ws < payload_len then (Protocol, ws)
                         else if \<not> masked then (Protocol, ws)
                         else if length rx < offset + 4 then (NeedMore, ws)
                         else
                           (let key = take 4 (drop offset rx); offset = offset + 4; total = offset + payload_len
                            in if length rx < total then (NeedMore, ws)
                               else (Frame fin opcode (unmask key (take payload_len (drop offset rx))), ws\<lparr>ws_rx_raw := drop total rx\<rparr>)))))"

definition deliver_message :: "string \<Rightarrow> ws_stream \<Rightarrow> ws_stream" where
  "deliver_message message ws = ws\<lparr>ws_read_buf := ws_read_buf ws @ message @ [CR, LF]\<rparr>"

definition frame_bytes :: "nat \<Rightarrow> string \<Rightarrow> string" where
  "frame_bytes opcode payload =
     (let len = length payload
      in [char_of (0x80 OR opcode)]
         @ (if len < 126 then [char_of len] else if len \<le> 0xFFFF then char_of (126 :: nat) # be_bytes 2 len else char_of (127 :: nat) # be_bytes 8 len)
         @ payload)"

definition push_frame :: "nat \<Rightarrow> string \<Rightarrow> ws_stream \<Rightarrow> ws_stream" where
  "push_frame opcode payload ws = ws\<lparr>ws_tx_raw := ws_tx_raw ws @ frame_bytes opcode payload\<rparr>"

definition begin_close :: "nat \<Rightarrow> ws_stream \<Rightarrow> ws_stream" where
  "begin_close code ws = (if ws_close_sent ws then ws else push_frame OP_CLOSE (be_bytes 2 code) (ws\<lparr>ws_close_sent := True\<rparr>))"

definition handle_frame :: "bool \<Rightarrow> nat \<Rightarrow> string \<Rightarrow> ws_stream \<Rightarrow> action \<times> ws_stream" where
  "handle_frame fin opcode payload ws =
     (if opcode = OP_CONTINUATION then
        (if ws_frag_opcode ws = None then (Error, ws)
         else if ws_max_message ws < length (ws_frag_buf ws) + length payload then (Error, ws)
         else
           (let ws = ws\<lparr>ws_frag_buf := ws_frag_buf ws @ payload\<rparr>
            in if fin then (Continue, deliver_message (ws_frag_buf ws) (ws\<lparr>ws_frag_opcode := None, ws_frag_buf := []\<rparr>))
               else (Continue, ws)))
      else if opcode = OP_TEXT \<or> opcode = OP_BINARY then
        (if ws_frag_opcode ws \<noteq> None then (Error, ws)
         else if fin then (Continue, deliver_message payload ws)
         else (Continue, ws\<lparr>ws_frag_opcode := Some opcode, ws_frag_buf := payload\<rparr>))
      else if opcode = OP_PING then
        (if \<not> fin \<or> 125 < length payload then (Error, ws) else (Continue, push_frame OP_PONG payload ws))
      else if opcode = OP_PONG then
        (if \<not> fin \<or> 125 < length payload then (Error, ws) else (Continue, ws))
      else if opcode = OP_CLOSE then (Eof, begin_close 1000 ws)
      else (Error, ws))"

subsection \<open>Accepting an upgrade\<close>

text \<open>What is written to the socket, and the stream or the error. \<open>write_ok\<close> tells whether the response can be written; a
  refusal is written as far as it goes. No result while the request is incomplete.\<close>

definition ws_accept :: "(string \<Rightarrow> string) \<Rightarrow> nat \<Rightarrow> bool \<Rightarrow> read_result list \<Rightarrow> (string \<times> (handshake_error + ws_stream)) option" where
  "ws_accept digest limit write_ok reads =
     (case read_request [] reads of
        None \<Rightarrow> None
      | Some (Inl e) \<Rightarrow> Some (if e = TooLarge then BAD_REQUEST else [], Inl e)
      | Some (Inr (head, leftover)) \<Rightarrow>
          (case parse_request head of
             None \<Rightarrow> Some (BAD_REQUEST, Inl Malformed)
           | Some req \<Rightarrow>
               if \<not> ur_is_get req \<or> \<not> ur_upgrade_ok req \<or> \<not> ur_connection_ok req \<or> ur_version req \<noteq> ''13'' \<or> ur_key req = []
               then Some (BAD_REQUEST, Inl NotUpgrade)
               else
                 (let subprotocol = select_subprotocol (ur_protocols req);
                      response = upgrade_response (compute_accept digest (ur_key req)) subprotocol
                  in if \<not> write_ok then Some ([], Inl WriteFailed)
                     else Some (response, Inr ((ws_new (subprotocol = Some BINARY_SUBPROTOCOL) limit)\<lparr>ws_rx_raw := leftover\<rparr>)))))"

subsection \<open>Outbound lines\<close>

text \<open>Every complete line of the write buffer becomes one frame; blank lines become none.\<close>

function queue_out_lines :: "ws_stream \<Rightarrow> ws_stream" where
  "queue_out_lines ws =
     (case memchr LF (ws_write_buf ws) of
        None \<Rightarrow> ws
      | Some nl \<Rightarrow>
          (let opcode = (if ws_binary ws then OP_BINARY else OP_TEXT);
               line = take nl (ws_write_buf ws);
               body = (if line \<noteq> [] \<and> last line = CR then butlast line else line);
               ws = ws\<lparr>ws_write_buf := drop (nl + 1) (ws_write_buf ws)\<rparr>
           in queue_out_lines (if body = [] then ws else push_frame opcode body ws)))"
  by pat_completeness auto
termination
  by (relation "measure (\<lambda>ws. length (ws_write_buf ws))") (auto simp: push_frame_def Let_def dest!: memchr_SomeD(3))

declare queue_out_lines.simps [simp del]

subsection \<open>Polling\<close>

datatype write_result = Wrote nat | WriteErr | WritePending
datatype drain_result = Drained | DrainErr | DrainPending

record socket =
  so_reads :: "read_result list"
  so_writes :: "write_result list"
  so_sent :: string

text \<open>\<open>poll_drain\<close>: the queued bytes, as far as the socket takes them; a socket takes no more than it is offered.\<close>

fun drain_bytes :: "write_result list \<Rightarrow> string \<Rightarrow> string \<Rightarrow> drain_result \<times> write_result list \<times> string \<times> string" where
  "drain_bytes ws sent [] = (Drained, ws, sent, [])"
| "drain_bytes [] sent tx = (DrainPending, [], sent, tx)"
| "drain_bytes (Wrote n # ws) sent tx = (if n = 0 then (DrainErr, ws, sent, tx) else drain_bytes ws (sent @ take n tx) (drop n tx))"
| "drain_bytes (WriteErr # ws) sent tx = (DrainErr, ws, sent, tx)"
| "drain_bytes (WritePending # ws) sent tx = (DrainPending, ws, sent, tx)"

definition poll_drain :: "socket \<times> ws_stream \<Rightarrow> drain_result \<times> socket \<times> ws_stream" where
  "poll_drain st =
     (case st of (so, ws) \<Rightarrow>
        (case drain_bytes (so_writes so) (so_sent so) (ws_tx_raw ws) of
           (r, writes, sent, tx) \<Rightarrow> (r, so\<lparr>so_writes := writes, so_sent := sent\<rparr>, ws\<lparr>ws_tx_raw := tx\<rparr>)))"

datatype poll_result = Served string | PollErr | PollPending

definition end_stream :: "ws_stream \<Rightarrow> ws_stream" where
  "end_stream ws = ws\<lparr>ws_read_eof := True\<rparr>"

text \<open>One turn of the loop of \<open>poll_read\<close>: a result, or another turn. \<open>room\<close> is the space the caller offers; \<open>decode_turn\<close> is
  the part that takes a frame or reads more of the socket.\<close>

definition decode_turn :: "socket \<times> ws_stream \<Rightarrow> poll_result option \<times> socket \<times> ws_stream" where
  "decode_turn st =
     (case st of (so, ws) \<Rightarrow>
        (case take_frame ws of
           (Frame fin opcode payload, ws) \<Rightarrow>
             (case handle_frame fin opcode payload ws of
                (Continue, ws) \<Rightarrow> (None, so, ws)
              | (Eof, ws) \<Rightarrow> (Some (Served []), so, end_stream ws)
              | (Error, ws) \<Rightarrow> (Some (Served []), so, end_stream (begin_close 1002 ws)))
         | (Protocol, ws) \<Rightarrow> (Some (Served []), so, end_stream (begin_close 1002 ws))
         | (NeedMore, ws) \<Rightarrow>
             (case so_reads so of
                [] \<Rightarrow> (Some PollPending, so, ws)
              | ReadPending # rest \<Rightarrow> (Some PollPending, so\<lparr>so_reads := rest\<rparr>, ws)
              | ReadErr # rest \<Rightarrow> (Some PollErr, so\<lparr>so_reads := rest\<rparr>, ws)
              | Chunk c # rest \<Rightarrow>
                  if c = [] then (Some (Served []), so\<lparr>so_reads := rest\<rparr>, end_stream ws)
                  else (None, so\<lparr>so_reads := rest\<rparr>, ws\<lparr>ws_rx_raw := ws_rx_raw ws @ c\<rparr>))))"

definition read_turn :: "nat \<Rightarrow> socket \<times> ws_stream \<Rightarrow> poll_result option \<times> socket \<times> ws_stream" where
  "read_turn room st =
     (case st of (so, ws) \<Rightarrow>
        (let n = min (length (ws_read_buf ws)) room
         in if n \<noteq> 0 then (Some (Served (take n (ws_read_buf ws))), so, ws\<lparr>ws_read_buf := drop n (ws_read_buf ws)\<rparr>)
            else if ws_read_eof ws then (Some (Served []), so, ws)
            else
              (let (so, ws) = (if ws_tx_raw ws \<noteq> [] then snd (poll_drain (so, ws)) else (so, ws))
               in if MAX_TX_BUFFER < length (ws_tx_raw ws) then (Some PollErr, so, end_stream ws) else decode_turn (so, ws))))"

lemma read_turn_serves:
  assumes "ws_read_buf ws \<noteq> []" "0 < room"
  shows "read_turn room (so, ws)
    = (Some (Served (take (min (length (ws_read_buf ws)) room) (ws_read_buf ws))), so, ws\<lparr>ws_read_buf := drop (min (length (ws_read_buf ws)) room) (ws_read_buf ws)\<rparr>)"
  using assms by (simp add: read_turn_def Let_def)

lemma read_turn_decodes:
  assumes "min (length (ws_read_buf ws)) room = 0" "\<not> ws_read_eof ws" "(if ws_tx_raw ws \<noteq> [] then snd (poll_drain (so, ws)) else (so, ws)) = (so1, ws1)"
  shows "read_turn room (so, ws) = (if MAX_TX_BUFFER < length (ws_tx_raw ws1) then (Some PollErr, so1, end_stream ws1) else decode_turn (so1, ws1))"
  unfolding read_turn_def Let_def prod.case assms(3) using assms(1,2) by simp

definition poll_write :: "string \<Rightarrow> socket \<times> ws_stream \<Rightarrow> nat \<times> socket \<times> ws_stream" where
  "poll_write bytes st =
     (case st of (so, ws) \<Rightarrow>
        (let ws = queue_out_lines (ws\<lparr>ws_write_buf := ws_write_buf ws @ bytes\<rparr>)
         in (length bytes, snd (poll_drain (so, ws)))))"

definition poll_shutdown :: "socket \<times> ws_stream \<Rightarrow> drain_result \<times> socket \<times> ws_stream" where
  "poll_shutdown st = (case st of (so, ws) \<Rightarrow> poll_drain (so, begin_close 1000 ws))"

subsection \<open>Cutting off a frame\<close>

text \<open>A frame is cut off the buffered bytes; nothing else of the stream matters to it.\<close>

definition cut :: "nat \<Rightarrow> string \<Rightarrow> frame_status \<times> string" where
  "cut m rx = (case take_frame ((ws_new False m)\<lparr>ws_rx_raw := rx\<rparr>) of (st, ws) \<Rightarrow> (st, ws_rx_raw ws))"

lemma take_frame_cut:
  "take_frame ws = (fst (cut (ws_max_message ws) (ws_rx_raw ws)), ws\<lparr>ws_rx_raw := snd (cut (ws_max_message ws) (ws_rx_raw ws))\<rparr>)"
  by (simp add: cut_def take_frame_def Let_def ws_new_def split: sum.split prod.split)

definition header :: "nat \<Rightarrow> string \<Rightarrow> frame_status + nat \<times> nat" where
  "header m rx =
     (if length rx < 2 then Inl NeedMore
      else if octet (rx ! 0) AND 0x70 \<noteq> 0 then Inl Protocol
      else case frame_length m rx (octet (rx ! 1) AND 0x7F) of
             Inl st \<Rightarrow> Inl st
           | Inr (offset, len) \<Rightarrow>
               if m < len \<or> octet (rx ! 1) AND 0x80 = 0 then Inl Protocol
               else if length rx < offset + 4 + len then Inl NeedMore else Inr (offset, len))"

lemma cut_header:
  "cut m rx =
     (case header m rx of
        Inl st \<Rightarrow> (st, rx)
      | Inr (offset, len) \<Rightarrow>
          (Frame (octet (rx ! 0) AND 0x80 \<noteq> 0) (octet (rx ! 0) AND 0x0F) (unmask (take 4 (drop offset rx)) (take len (drop (offset + 4) rx))),
           drop (offset + 4 + len) rx))"
  by (simp add: cut_def take_frame_def header_def Let_def ws_new_def split: sum.split prod.split)

lemma frame_length_more:
  "frame_length m rx l = Inr p \<Longrightarrow> frame_length m (rx @ b) l = Inr p"
  "frame_length m rx l = Inl Protocol \<Longrightarrow> frame_length m (rx @ b) l = Inl Protocol"
  "frame_length m rx l = Inl st \<Longrightarrow> st = NeedMore \<or> st = Protocol"
  by (auto simp: frame_length_def Let_def split: if_splits)

lemma header_cases:
  "header m rx = Inl st \<Longrightarrow> st = NeedMore \<or> st = Protocol"
  "header m rx = Inr (offset, len) \<Longrightarrow> 2 \<le> length rx \<and> offset + 4 + len \<le> length rx \<and> len \<le> m \<and> 2 \<le> offset \<and> offset \<le> 10"
  "header m rx = Inl NeedMore \<Longrightarrow> length rx < 14 + m"
  by (auto simp: header_def frame_length_def Let_def split: if_splits sum.splits)

lemma header_more:
  "header m rx = Inr p \<Longrightarrow> header m (rx @ b) = Inr p"
  "header m rx = Inl Protocol \<Longrightarrow> header m (rx @ b) = Inl Protocol"
  by (auto simp: header_def nth_append frame_length_more split: if_splits sum.splits dest: frame_length_more)

lemma cut_frame:
  assumes "cut m rx = (Frame f op p, rest)"
  shows "cut m (rx @ b) = (Frame f op p, rest @ b)" "length rest < length rx" "length p \<le> m"
proof -
  obtain offset len where h: "header m rx = Inr (offset, len)"
    using assms header_cases(1) [of m rx] by (cases "header m rx") (auto simp: cut_header)
  note c = header_cases(2) [OF h]
  then have "rx \<noteq> []" by auto
  then have "cut m (rx @ b) = (fst (cut m rx), snd (cut m rx) @ b)"
    using c by (simp add: cut_header h header_more(1) [OF h] nth_append)
  then show "cut m (rx @ b) = (Frame f op p, rest @ b)" using assms by simp
  show "length rest < length rx" "length p \<le> m"
    using assms c by (auto simp: cut_header h unmask_def)
qed

lemma cut_other:
  "cut m rx = (Protocol, rest) \<Longrightarrow> cut m (rx @ b) = (Protocol, rx @ b)"
  "cut m rx = (NeedMore, rest) \<Longrightarrow> length rx < 14 + m"
  "cut m rx = (NeedMore, rest) \<or> cut m rx = (Protocol, rest) \<Longrightarrow> rest = rx"
proof -
  have "header m rx = Inl st \<and> rest = rx" if "cut m rx = (st, rest)" "st = NeedMore \<or> st = Protocol" for st
    using that header_cases(1) [of m rx] by (cases "header m rx") (auto simp: cut_header)
  note h = this
  show "cut m rx = (Protocol, rest) \<Longrightarrow> cut m (rx @ b) = (Protocol, rx @ b)"
    using h [of Protocol] header_more(2) [of m rx b] by (simp add: cut_header)
  show "cut m rx = (NeedMore, rest) \<Longrightarrow> length rx < 14 + m" using h [of NeedMore] header_cases(3) [of m rx] by simp
  show "cut m rx = (NeedMore, rest) \<or> cut m rx = (Protocol, rest) \<Longrightarrow> rest = rx" using h by blast
qed

subsection \<open>What a stream of frames says\<close>

text \<open>The specification of the reading side: from the bytes of the peer to the lines handed on, given the fragments of a
  message already seen. Reading stops at an incomplete frame, at a violation of the protocol and at a close frame.\<close>

function stream_lines :: "nat \<Rightarrow> string option \<Rightarrow> string \<Rightarrow> string" where
  "stream_lines m frag rx =
     (case cut m rx of
        (Frame fin opcode p, rest) \<Rightarrow>
          if opcode = OP_CONTINUATION then
            (case frag of
               None \<Rightarrow> []
             | Some f \<Rightarrow>
                 if m < length f + length p then []
                 else if fin then f @ p @ [CR, LF] @ stream_lines m None rest
                 else stream_lines m (Some (f @ p)) rest)
          else if opcode = OP_TEXT \<or> opcode = OP_BINARY then
            (if frag \<noteq> None then []
             else if fin then p @ [CR, LF] @ stream_lines m None rest
             else stream_lines m (Some p) rest)
          else if opcode = OP_PING \<or> opcode = OP_PONG then
            (if \<not> fin \<or> 125 < length p then [] else stream_lines m frag rest)
          else []
      | _ \<Rightarrow> [])"
  by pat_completeness auto
termination
  by (relation "measure (\<lambda>(_, _, rx). length rx)") (auto dest: cut_frame(2) [OF sym])

declare stream_lines.simps [simp del]

definition fragments :: "ws_stream \<Rightarrow> string option" where
  "fragments ws = (if ws_frag_opcode ws = None then None else Some (ws_frag_buf ws))"

text \<open>The bytes the socket is going to return before it ends or fails.\<close>

fun incoming :: "read_result list \<Rightarrow> string" where
  "incoming [] = []"
| "incoming (Chunk c # rest) = (if c = [] then [] else c @ incoming rest)"
| "incoming (ReadErr # rest) = []"
| "incoming (ReadPending # rest) = incoming rest"

definition yet_to_read :: "socket \<times> ws_stream \<Rightarrow> string" where
  "yet_to_read st =
     (case st of (so, ws) \<Rightarrow>
        ws_read_buf ws
        @ (if ws_read_eof ws then []
           else stream_lines (ws_max_message ws) (fragments ws) (ws_rx_raw ws @ incoming (so_reads so))))"

definition served :: "poll_result option \<Rightarrow> string" where
  "served r = (case r of Some (Served b) \<Rightarrow> b | _ \<Rightarrow> [])"

lemma begin_close_fields [simp]:
  "ws_read_buf (begin_close c ws) = ws_read_buf ws" "ws_max_message (begin_close c ws) = ws_max_message ws" "ws_rx_raw (begin_close c ws) = ws_rx_raw ws"
  "ws_frag_opcode (begin_close c ws) = ws_frag_opcode ws" "ws_frag_buf (begin_close c ws) = ws_frag_buf ws" "ws_read_eof (begin_close c ws) = ws_read_eof ws"
  by (simp_all add: begin_close_def push_frame_def)

lemma drained:
  assumes "snd (poll_drain (so, ws)) = (so', ws')"
  shows "so_reads so' = so_reads so" "\<exists>tx. ws' = ws\<lparr>ws_tx_raw := tx\<rparr> \<and> length tx \<le> length (ws_tx_raw ws)"
proof -
  have "length (snd (snd (snd (drain_bytes w s tx)))) \<le> length tx" for w s tx
    by (induction w s tx rule: drain_bytes.induct) (auto split: if_splits)
  then have "length tx' \<le> length (ws_tx_raw ws)" if "drain_bytes (so_writes so) (so_sent so) (ws_tx_raw ws) = (r, w, s, tx')" for r w s tx'
    by (metis that snd_conv)
  then show "so_reads so' = so_reads so" "\<exists>tx. ws' = ws\<lparr>ws_tx_raw := tx\<rparr> \<and> length tx \<le> length (ws_tx_raw ws)"
    using assms by (auto simp: poll_drain_def split: prod.splits)
qed

subsection \<open>Reads end\<close>

lemma read_turn_less:
  assumes "read_turn room (so, ws) = (None, so', ws')"
  shows "length (so_reads so') < length (so_reads so) \<or> so_reads so' = so_reads so \<and> length (ws_rx_raw ws') < length (ws_rx_raw ws)"
proof -
  have h: "ws_rx_raw w' = ws_rx_raw w" if "handle_frame f op p w = (act, w')" for f op p w act w'
    using that by (auto simp: handle_frame_def deliver_message_def push_frame_def begin_close_def Let_def split: if_splits)
  have d: "so_reads (fst x) = so_reads so \<and> ws_rx_raw (snd x) = ws_rx_raw ws" if "x = (if b then snd (poll_drain (so, ws)) else (so, ws))" for x b
    using that drained [of so ws "fst x" "snd x"] by (auto split: if_splits)
  have c: "length (snd (cut m rx)) < length rx" if "fst (cut m rx) = Frame f op p" for m rx f op p
    using cut_frame(2) [of m rx f op p "snd (cut m rx)"] that by (metis prod.collapse)
  show ?thesis
    using assms d [OF refl, of "ws_tx_raw ws \<noteq> []"]
    unfolding read_turn_def decode_turn_def Let_def prod.case take_frame_cut
    by (auto split: if_splits prod.splits frame_status.splits action.splits list.splits read_result.splits dest!: h dest: c)
qed

text \<open>\<open>poll_read\<close>: turns until there is a result.\<close>

function poll_read :: "nat \<Rightarrow> socket \<times> ws_stream \<Rightarrow> poll_result \<times> socket \<times> ws_stream" where
  "poll_read room st =
     (case read_turn room st of
        (Some r, st) \<Rightarrow> (r, st)
      | (None, st) \<Rightarrow> poll_read room st)"
  by pat_completeness auto
termination
  by (relation "measures [\<lambda>(_, so, _). length (so_reads so), \<lambda>(_, _, ws). length (ws_rx_raw ws)]") (auto dest: read_turn_less [OF sym])

declare poll_read.simps [simp del]

text \<open>One frame, on the stream and in the specification.\<close>

lemma handle_frame_lines:
  assumes "cut (ws_max_message ws) (ws_rx_raw ws @ b) = (Frame fin opcode p, rest @ b)" "handle_frame fin opcode p (ws\<lparr>ws_rx_raw := rest\<rparr>) = (act, ws')"
  shows "ws_read_eof ws' = ws_read_eof ws" "ws_max_message ws' = ws_max_message ws" "ws_rx_raw ws' = rest"
    "ws_read_buf ws @ stream_lines (ws_max_message ws) (fragments ws) (ws_rx_raw ws @ b)
       = ws_read_buf ws' @ (if act = Continue then stream_lines (ws_max_message ws) (fragments ws') (rest @ b) else [])"
proof -
  have fields: "ws_read_eof ws' = ws_read_eof ws \<and> ws_max_message ws' = ws_max_message ws \<and> ws_rx_raw ws' = rest"
    using assms(2) by (auto simp: handle_frame_def deliver_message_def push_frame_def Let_def split: if_splits)
  then show "ws_read_eof ws' = ws_read_eof ws" "ws_max_message ws' = ws_max_message ws" "ws_rx_raw ws' = rest" by simp_all
  note unfold = stream_lines.simps [of _ _ "ws_rx_raw ws @ b"]
  consider "opcode = OP_CONTINUATION" | "opcode = OP_TEXT \<or> opcode = OP_BINARY" | "opcode = OP_PING" | "opcode = OP_PONG" | "opcode = OP_CLOSE"
    | "opcode \<notin> {OP_CONTINUATION, OP_TEXT, OP_BINARY, OP_PING, OP_PONG, OP_CLOSE}" by auto
  then show "ws_read_buf ws @ stream_lines (ws_max_message ws) (fragments ws) (ws_rx_raw ws @ b)
       = ws_read_buf ws' @ (if act = Continue then stream_lines (ws_max_message ws) (fragments ws') (rest @ b) else [])"
    by cases (use assms(2) in \<open>auto simp: unfold assms(1) handle_frame_def deliver_message_def push_frame_def fragments_def op_defs Let_def split: if_splits\<close>)
qed

lemma read_turn_lines:
  assumes "read_turn room st = (r, st')" "r \<noteq> Some PollErr"
  shows "yet_to_read st = served r @ yet_to_read st'"
proof -
  obtain so ws where st: "st = (so, ws)" by (cases st)
  show ?thesis
  proof (cases "min (length (ws_read_buf ws)) room \<noteq> 0 \<or> ws_read_eof ws")
    case True
    then show ?thesis
      using assms(1) by (auto simp: st read_turn_def Let_def yet_to_read_def served_def fragments_def simp flip: append_assoc split: if_splits)
  next
    case False
    obtain so1 ws1 where d: "(if ws_tx_raw ws \<noteq> [] then snd (poll_drain (so, ws)) else (so, ws)) = (so1, ws1)" by fastforce
    have reads: "so_reads so1 = so_reads so" and same: "\<exists>tx. ws1 = ws\<lparr>ws_tx_raw := tx\<rparr>"
    proof -
      show "so_reads so1 = so_reads so" "\<exists>tx. ws1 = ws\<lparr>ws_tx_raw := tx\<rparr>"
        using d drained [of so ws so1 ws1] by (auto split: if_splits) (metis ws_stream.surjective ws_stream.update_convs(9))
    qed
    have y: "yet_to_read st = yet_to_read (so1, ws1)" using reads same by (auto simp: st yet_to_read_def fragments_def)
    have eof: "\<not> ws_read_eof ws1" using False same by auto
    have "min (length (ws_read_buf ws)) room = 0" "\<not> ws_read_eof ws" using False by auto
    note turn0 = read_turn_decodes [OF this d]
    have turn: "(r, st') = decode_turn (so1, ws1)"
      using assms turn0 unfolding st by (auto split: if_splits)
    let ?in = "incoming (so_reads so1)"
    obtain status rest where c: "cut (ws_max_message ws1) (ws_rx_raw ws1) = (status, rest)" by fastforce
    show ?thesis
    proof (cases status)
      case (Frame fin opcode p)
      obtain act ws2 where h: "handle_frame fin opcode p (ws1\<lparr>ws_rx_raw := rest\<rparr>) = (act, ws2)" by fastforce
      note hl = handle_frame_lines [OF cut_frame(1) [OF c [unfolded Frame], of ?in] h]
      show ?thesis
        using turn hl eof unfolding y decode_turn_def prod.case take_frame_cut c Frame
        by (cases act) (auto simp: h yet_to_read_def served_def end_stream_def)
    next
      case Protocol
      then have "stream_lines (ws_max_message ws1) fr (ws_rx_raw ws1 @ b) = []" for fr b
        using cut_other(1) [of "ws_max_message ws1" "ws_rx_raw ws1" rest b] c by (simp add: stream_lines.simps)
      then show ?thesis
        using turn eof unfolding y decode_turn_def prod.case take_frame_cut c Protocol by (auto simp: yet_to_read_def served_def end_stream_def)
    next
      case NeedMore
      then have rest: "rest = ws_rx_raw ws1" using cut_other(3) c by blast
      have dry: "stream_lines (ws_max_message ws1) fr (ws_rx_raw ws1) = []" for fr
        using c NeedMore by (simp add: stream_lines.simps)
      show ?thesis
        using turn eof assms(2) unfolding y decode_turn_def prod.case take_frame_cut c NeedMore rest
        by (auto simp: yet_to_read_def served_def end_stream_def fragments_def dry split: list.splits read_result.splits if_splits)
    qed
  qed
qed

lemma poll_read_lines:
  "poll_read room st = (r, st') \<Longrightarrow> r \<noteq> PollErr \<Longrightarrow> yet_to_read st = served (Some r) @ yet_to_read st'"
proof (induction room st rule: poll_read.induct)
  case (1 room st)
  obtain ro st1 where t: "read_turn room st = (ro, st1)" by (cases "read_turn room st")
  show ?case
  proof (cases ro)
    case None
    then have "poll_read room st1 = (r, st')" using 1(2) t by (simp add: poll_read.simps [of room st])
    then show ?thesis using 1(1) [OF t [symmetric] None] 1(3) read_turn_lines [OF t] None by (cases st1) (simp add: served_def)
  next
    case (Some x)
    then show ?thesis using 1(2,3) t read_turn_lines [OF t] by (simp add: poll_read.simps [of room st])
  qed
qed

text \<open>A caller that keeps reading, until the stream is pending or has ended.\<close>

fun read_all :: "nat list \<Rightarrow> socket \<times> ws_stream \<Rightarrow> string \<times> poll_result option \<times> socket \<times> ws_stream" where
  "read_all [] st = ([], None, st)"
| "read_all (room # rooms) st =
     (case poll_read room st of
        (Served b, st) \<Rightarrow>
          if b = [] then ([], Some (Served []), st)
          else (case read_all rooms st of (out, r) \<Rightarrow> (b @ out, r))
      | (r, st) \<Rightarrow> ([], Some r, st))"

lemma read_all_lines:
  "read_all rooms st = (out, r, st') \<Longrightarrow> r \<noteq> Some PollErr \<Longrightarrow> yet_to_read st = out @ yet_to_read st'"
proof (induction rooms arbitrary: st out)
  case (Cons room rooms)
  obtain x st1 where t: "poll_read room st = (x, st1)" by (cases "poll_read room st")
  show ?case
  proof (cases "x = PollErr \<or> x = PollPending \<or> x = Served []")
    case True
    then show ?thesis using Cons.prems t poll_read_lines [OF t] by (auto simp: served_def)
  next
    case False
    then obtain b where b: "x = Served b" "b \<noteq> []" by (cases x) auto
    obtain out' where "read_all rooms st1 = (out', r, st')" "out = b @ out'" using Cons.prems(1) t b by (auto split: prod.splits)
    then show ?thesis using Cons.IH Cons.prems(2) poll_read_lines [OF t] b by (simp add: served_def)
  qed
qed simp

subsection \<open>The frames of a client\<close>

text \<open>A frame as RFC 6455 has a client write it: masked, with the shortest form of its length.\<close>

definition client_frame :: "bool \<Rightarrow> nat \<Rightarrow> string \<Rightarrow> string \<Rightarrow> string" where
  "client_frame fin opcode key payload =
     (let len = length payload
      in [char_of ((if fin then 128 else 0) + opcode)]
         @ (if len < 126 then [char_of (128 + len)]
            else if len < 2 ^ 16 then char_of (254 :: nat) # be_bytes 2 len else char_of (255 :: nat) # be_bytes 8 len)
         @ key @ unmask key payload)"

lemma be_value_bytes: "foldl (\<lambda>n b. 256 * n + octet b) a (be_bytes k n) = a * 256 ^ k + n mod 256 ^ k"
proof (induction k arbitrary: a)
  case (Suc k)
  have b: "be_bytes (Suc k) n = char_of (n div 256 ^ k) # be_bytes k n" by (simp add: be_bytes_def)
  have m: "n mod 256 ^ Suc k = 256 ^ k * (n div 256 ^ k mod 256) + n mod 256 ^ k"
    using mod_mult2_eq [of n "256 ^ k" 256] by (simp add: mult.commute)
  show ?case unfolding b foldl.simps Suc.IH m by (simp add: distrib_right)
qed (simp add: be_bytes_def)

lemma be_roundtrip: "n < 256 ^ k \<Longrightarrow> be_value (be_bytes k n) = n" "length (be_bytes k n) = k"
  using be_value_bytes [of 0 k n] by (simp_all add: be_value_def be_bytes_def)

lemma unmask_involution: "length key = 4 \<Longrightarrow> unmask key (unmask key p) = p"
proof (rule nth_equalityI)
  have x: "(a XOR b) mod 256 = a XOR b" if "a < 256" "b < 256" for a b :: nat
  proof -
    have "take_bit 8 (a XOR b) = a XOR b" using that by (simp add: take_bit_xor take_bit_nat_eq_self)
    then show ?thesis by (simp add: take_bit_eq_mod)
  qed
  show "unmask key (unmask key p) ! i = p ! i" if "i < length (unmask key (unmask key p))" for i
    using that by (simp add: unmask_def nth_enumerate_eq x xor.assoc)
qed (simp add: unmask_def)

lemma length_unmask [simp]: "length (unmask key p) = length p"
  by (simp add: unmask_def)

definition opcodes :: "nat set" where
  "opcodes = {OP_CONTINUATION, OP_TEXT, OP_BINARY, OP_CLOSE, OP_PING, OP_PONG}"

lemma first_octet:
  assumes "op \<in> opcodes"
  shows "((if fin then 128 else 0) + op) mod 256 AND 0x70 = (0 :: nat)" "(((if fin then 128 else 0) + op) mod 256 AND 0x80 \<noteq> (0 :: nat)) = fin"
    "((if fin then 128 else 0) + op) mod 256 AND 0x0F = op"
  using assms by (cases fin; auto simp: opcodes_def op_defs)+

lemma second_octet:
  assumes "l < 128"
  shows "(128 + l) mod 256 AND 0x7F = (l :: nat)" "(128 + l) mod 256 AND 0x80 \<noteq> (0 :: nat)"
proof -
  have "(128 + l) mod 256 AND mask 7 = l"
    unfolding take_bit_eq_mask [symmetric] using assms by (simp add: take_bit_eq_mod)
  then show "(128 + l) mod 256 AND 0x7F = l" by (simp add: mask_eq_exp_minus_1)
  have "(128 + l) div 128 = 1" using assms by (simp add: div_add_self1)
  then have "bit ((128 + l) mod 256) 7" using assms by (simp add: bit_iff_odd)
  then show "(128 + l) mod 256 AND 0x80 \<noteq> 0" using and_exp_eq_0_iff_not_bit [of "(128 + l) mod 256" 7] by simp
qed

lemma cut_out:
  assumes "length k = 4"
  shows "take 4 (drop (length h) (h @ k @ p @ r)) = k" "take (length p) (drop (length h + 4) (h @ k @ p @ r)) = p"
    "drop (length h + 4 + length p) (h @ k @ p @ r) = r"
  using assms by simp_all

lemma cut_client_frame:
  assumes "op \<in> opcodes" "length key = 4" "length p \<le> m" "length p < 2 ^ 64"
  shows "cut m (client_frame fin op key p @ rest) = (Frame fin op p, rest)"
proof -
  let ?l = "length p"
  let ?h = "if ?l < 126 then (2 :: nat, 128 + ?l, [] :: string) else if ?l < 2 ^ 16 then (4, 254, be_bytes 2 ?l) else (10, 255, be_bytes 8 ?l)"
  obtain n b1 ext where h: "?h = (n, b1, ext)" by (cases ?h)
  have ext: "length ext + 2 = n" "n = 2 \<or> n = 4 \<or> n = 10" using h by (auto simp: be_roundtrip split: if_splits)
  let ?b0 = "char_of ((if fin then 128 else 0) + op) :: char"
  let ?rx = "?b0 # char_of b1 # ext @ key @ unmask key p @ rest"
  have rx: "client_frame fin op key p @ rest = ?rx" using h by (auto simp: client_frame_def Let_def split: if_splits)
  have b1: "b1 mod 256 AND 0x80 \<noteq> 0" "frame_length m ?rx (b1 mod 256 AND 0x7F) = Inr (n, ?l)"
    using h second_octet [of ?l] assms(3,4) be_roundtrip(1) [of ?l 2] be_roundtrip(1) [of ?l 8]
    by (auto simp: frame_length_def be_roundtrip(2) split: if_splits)
  have "header m ?rx = Inr (n, ?l)"
    using b1 ext(1) assms first_octet(1) [OF assms(1), of fin] by (simp add: header_def)
  then have "cut m ?rx = (Frame fin op (unmask (take 4 (drop n ?rx)) (take ?l (drop (n + 4) ?rx))), drop (n + 4 + ?l) ?rx)"
    using first_octet [OF assms(1), of fin] by (simp add: cut_header)
  moreover have len: "length (?b0 # char_of b1 # ext) = n" using ext(1) by simp
  have "take 4 (drop n ?rx) = key" "take ?l (drop (n + 4) ?rx) = unmask key p" "drop (n + 4 + ?l) ?rx = rest"
    using cut_out [OF assms(2), where h = "?b0 # char_of b1 # ext" and p = "unmask key p" and r = rest] unfolding len append_Cons length_unmask .
  ultimately show ?thesis using unmask_involution [OF assms(2)] by (simp add: rx)
qed

text \<open>A message in one or more fragments, each with its own mask.\<close>

fun client_fragments :: "nat \<Rightarrow> (string \<times> string) list \<Rightarrow> string" where
  "client_fragments op [] = []"
| "client_fragments op [(key, p)] = client_frame True op key p"
| "client_fragments op ((key, p) # q # rest) = client_frame False op key p @ client_fragments OP_CONTINUATION (q # rest)"

definition message_ok :: "nat \<Rightarrow> nat \<times> (string \<times> string) list \<Rightarrow> bool" where
  "message_ok m msg \<longleftrightarrow>
     (case msg of (op, frags) \<Rightarrow> (op = OP_TEXT \<or> op = OP_BINARY) \<and> frags \<noteq> [] \<and> list_all (\<lambda>(key, _). length key = 4) frags
        \<and> length (concat (map snd frags)) \<le> m \<and> m < 2 ^ 64)"

lemma stream_rest:
  assumes "frags \<noteq> []" "list_all (\<lambda>(key, _). length key = 4) frags" "length f + length (concat (map snd frags)) \<le> m" "m < 2 ^ 64"
  shows "stream_lines m (Some f) (client_fragments OP_CONTINUATION frags @ rest) = f @ concat (map snd frags) @ [CR, LF] @ stream_lines m None rest"
  using assms
proof (induction frags arbitrary: f rule: list_nonempty_induct)
  case (single q)
  obtain key p where q: "q = (key, p)" by (cases q)
  have "cut m (client_frame True OP_CONTINUATION key p @ rest) = (Frame True OP_CONTINUATION p, rest)"
    by (rule cut_client_frame) (use single q in \<open>auto simp: opcodes_def\<close>)
  then show ?case using single by (subst stream_lines.simps) (simp add: q)
next
  case (cons q frags)
  obtain key p where q: "q = (key, p)" by (cases q)
  obtain q' qs where f: "frags = q' # qs" using cons(1) by (cases frags) auto
  let ?tail = "client_fragments OP_CONTINUATION frags @ rest"
  have "cut m (client_frame False OP_CONTINUATION key p @ ?tail) = (Frame False OP_CONTINUATION p, ?tail)"
    by (rule cut_client_frame) (use cons.prems q in \<open>auto simp: opcodes_def\<close>)
  moreover have "client_fragments OP_CONTINUATION (q # frags) @ rest = client_frame False OP_CONTINUATION key p @ ?tail" by (simp add: q f)
  moreover have "stream_lines m (Some (f @ p)) ?tail = (f @ p) @ concat (map snd frags) @ [CR, LF] @ stream_lines m None rest"
    using cons.IH [of "f @ p"] cons.prems by (simp add: q)
  ultimately show ?case using cons.prems by (subst stream_lines.simps) (simp add: q)
qed

lemma stream_message:
  assumes "message_ok m (op, frags)"
  shows "stream_lines m None (client_fragments op frags @ rest) = concat (map snd frags) @ [CR, LF] @ stream_lines m None rest"
proof -
  obtain key p qs where f: "frags = (key, p) # qs" using assms by (cases frags) (auto simp: message_ok_def)
  have op: "op \<in> opcodes" "op \<noteq> OP_CONTINUATION" "op = OP_TEXT \<or> op = OP_BINARY" using assms by (auto simp: message_ok_def opcodes_def op_defs)
  have k: "length key = 4" "length p \<le> m" "length p < 2 ^ 64" using assms by (auto simp: message_ok_def f)
  show ?thesis
  proof (cases qs)
    case Nil
    have "cut m (client_frame True op key p @ rest) = (Frame True op p, rest)" by (rule cut_client_frame [OF op(1) k])
    then show ?thesis using op by (subst stream_lines.simps) (simp add: f Nil)
  next
    case (Cons q qs')
    let ?tail = "client_fragments OP_CONTINUATION qs @ rest"
    have "cut m (client_frame False op key p @ ?tail) = (Frame False op p, ?tail)" by (rule cut_client_frame [OF op(1) k])
    moreover have "stream_lines m (Some p) ?tail = p @ concat (map snd qs) @ [CR, LF] @ stream_lines m None rest"
      by (rule stream_rest) (use assms in \<open>auto simp: message_ok_def f Cons\<close>)
    ultimately show ?thesis using op by (subst stream_lines.simps) (simp add: f Cons)
  qed
qed

lemma stream_messages:
  assumes "list_all (message_ok m) msgs"
  shows "stream_lines m None (concat (map (\<lambda>(op, frags). client_fragments op frags) msgs))
    = concat (map (\<lambda>(op, frags). concat (map snd frags) @ [CR, LF]) msgs)"
  using assms
proof (induction msgs)
  case Nil
  have "cut m [] = (NeedMore, [])" by (simp add: cut_header header_def)
  then show ?case by (subst stream_lines.simps) simp
next
  case (Cons msg msgs)
  then show ?case using stream_message by (cases msg) simp
qed

end
