(* ===== verification/Framing.thy ===== *)
theory Framing
  imports Websocket
begin

text \<open>
  What the WebSocket stream promises the connection (\<open>ferrixd/src/websocket.rs\<close>): the messages of a client arrive whole and
  in order however the network cuts them up, what is written goes out as the same frames however it is written, and a peer
  that does not behave cannot make the buffers of the reading side grow.
\<close>

subsection \<open>Streams of data frames\<close>

text \<open>The bytes of a peer that sends nothing but data frames, in order and within the size limit.\<close>

function data_stream :: "nat \<Rightarrow> string option \<Rightarrow> string \<Rightarrow> bool" where
  "data_stream m frag rx =
     (case cut m rx of
        (NeedMore, _) \<Rightarrow> True
      | (Protocol, _) \<Rightarrow> False
      | (Frame fin opcode p, rest) \<Rightarrow>
          if opcode = OP_CONTINUATION then
            (case frag of
               None \<Rightarrow> False
             | Some f \<Rightarrow> length f + length p \<le> m \<and> data_stream m (if fin then None else Some (f @ p)) rest)
          else (opcode = OP_TEXT \<or> opcode = OP_BINARY) \<and> frag = None \<and> data_stream m (if fin then None else Some p) rest)"
  by pat_completeness auto
termination
  by (relation "measure (\<lambda>(_, _, rx). length rx)") (auto dest: cut_frame(2) [OF sym])

declare data_stream.simps [simp del]

lemma data_rest:
  assumes "frags \<noteq> []" "list_all (\<lambda>(key, _). length key = 4) frags" "length f + length (concat (map snd frags)) \<le> m" "m < 2 ^ 64"
  shows "data_stream m (Some f) (client_fragments OP_CONTINUATION frags @ rest) = data_stream m None rest"
  using assms
proof (induction frags arbitrary: f rule: list_nonempty_induct)
  case (single q)
  obtain key p where q: "q = (key, p)" by (cases q)
  have "cut m (client_frame True OP_CONTINUATION key p @ rest) = (Frame True OP_CONTINUATION p, rest)"
    by (rule cut_client_frame) (use single q in \<open>auto simp: opcodes_def\<close>)
  then show ?case using single by (subst data_stream.simps) (simp add: q)
next
  case (cons q frags)
  obtain key p where q: "q = (key, p)" by (cases q)
  obtain q' qs where f: "frags = q' # qs" using cons(1) by (cases frags) auto
  let ?tail = "client_fragments OP_CONTINUATION frags @ rest"
  have "cut m (client_frame False OP_CONTINUATION key p @ ?tail) = (Frame False OP_CONTINUATION p, ?tail)"
    by (rule cut_client_frame) (use cons.prems q in \<open>auto simp: opcodes_def\<close>)
  moreover have "client_fragments OP_CONTINUATION (q # frags) @ rest = client_frame False OP_CONTINUATION key p @ ?tail" by (simp add: q f)
  moreover have "data_stream m (Some (f @ p)) ?tail = data_stream m None rest"
    using cons.IH [of "f @ p"] cons.prems by (simp add: q)
  ultimately show ?case using cons.prems by (subst data_stream.simps) (simp add: q)
qed

lemma data_message:
  assumes "message_ok m (op, frags)"
  shows "data_stream m None (client_fragments op frags @ rest) = data_stream m None rest"
proof -
  obtain key p qs where f: "frags = (key, p) # qs" using assms by (cases frags) (auto simp: message_ok_def)
  have op: "op \<in> opcodes" "op \<noteq> OP_CONTINUATION" "op = OP_TEXT \<or> op = OP_BINARY" using assms by (auto simp: message_ok_def opcodes_def op_defs)
  have k: "length key = 4" "length p \<le> m" "length p < 2 ^ 64" using assms by (auto simp: message_ok_def f)
  show ?thesis
  proof (cases qs)
    case Nil
    have "cut m (client_frame True op key p @ rest) = (Frame True op p, rest)" by (rule cut_client_frame [OF op(1) k])
    then show ?thesis using op by (subst data_stream.simps) (simp add: f Nil)
  next
    case (Cons q qs')
    let ?tail = "client_fragments OP_CONTINUATION qs @ rest"
    have "cut m (client_frame False op key p @ ?tail) = (Frame False op p, ?tail)" by (rule cut_client_frame [OF op(1) k])
    moreover have "data_stream m (Some p) ?tail = data_stream m None rest"
      by (rule data_rest) (use assms in \<open>auto simp: message_ok_def f Cons\<close>)
    ultimately show ?thesis using op by (subst data_stream.simps) (simp add: f Cons)
  qed
qed

lemma data_messages:
  assumes "list_all (message_ok m) msgs"
  shows "data_stream m None (concat (map (\<lambda>(op, frags). client_fragments op frags) msgs))"
  using assms
proof (induction msgs)
  case Nil
  have "cut m [] = (NeedMore, [])" by (simp add: cut_header header_def)
  then show ?case by (subst data_stream.simps) simp
next
  case (Cons msg msgs)
  then show ?case using data_message by (cases msg) simp
qed

subsection \<open>Such a stream is read to its end\<close>

text \<open>What stays so while the reads of the socket deliver the stream.\<close>

definition flowing :: "socket \<times> ws_stream \<Rightarrow> bool" where
  "flowing st \<longleftrightarrow>
     (case st of (so, ws) \<Rightarrow>
        ws_tx_raw ws = [] \<and> \<not> ws_read_eof ws \<and> list_all (\<lambda>r. \<exists>c. r = Chunk c \<and> c \<noteq> []) (so_reads so)
        \<and> data_stream (ws_max_message ws) (fragments ws) (ws_rx_raw ws @ incoming (so_reads so)))"

lemma fragments_fields [simp]:
  "fragments (ws\<lparr>ws_read_buf := b\<rparr>) = fragments ws" "fragments (ws\<lparr>ws_rx_raw := b\<rparr>) = fragments ws" "fragments (ws\<lparr>ws_tx_raw := b\<rparr>) = fragments ws"
  by (simp_all add: fragments_def)

lemma handle_data_frame:
  assumes "data_stream (ws_max_message ws) (fragments ws) (ws_rx_raw ws @ b)"
    "cut (ws_max_message ws) (ws_rx_raw ws @ b) = (Frame fin opcode p, rest @ b)" "handle_frame fin opcode p (ws\<lparr>ws_rx_raw := rest\<rparr>) = (act, ws')"
  shows "act = Continue" "ws_tx_raw ws' = ws_tx_raw ws" "data_stream (ws_max_message ws) (fragments ws') (rest @ b)"
proof -
  have d: "if opcode = OP_CONTINUATION then
            (case fragments ws of
               None \<Rightarrow> False
             | Some f \<Rightarrow> length f + length p \<le> ws_max_message ws \<and> data_stream (ws_max_message ws) (if fin then None else Some (f @ p)) (rest @ b))
          else (opcode = OP_TEXT \<or> opcode = OP_BINARY) \<and> fragments ws = None \<and> data_stream (ws_max_message ws) (if fin then None else Some p) (rest @ b)"
    using assms(1) unfolding data_stream.simps [of _ _ "ws_rx_raw ws @ b"] assms(2) prod.case frame_status.case .
  have "act = Continue \<and> ws_tx_raw ws' = ws_tx_raw ws \<and> data_stream (ws_max_message ws) (fragments ws') (rest @ b)"
  proof (cases "opcode = OP_CONTINUATION")
    case True
    then obtain f where "fragments ws = Some f" "length f + length p \<le> ws_max_message ws"
      "data_stream (ws_max_message ws) (if fin then None else Some (f @ p)) (rest @ b)" using d by (auto split: option.splits)
    then show ?thesis
      using assms(3) True by (auto simp: handle_frame_def deliver_message_def fragments_def Let_def split: if_splits)
  next
    case False
    then have "opcode = OP_TEXT \<or> opcode = OP_BINARY" "fragments ws = None" "data_stream (ws_max_message ws) (if fin then None else Some p) (rest @ b)"
      using d by auto
    then show ?thesis
      using assms(3) False by (auto simp: handle_frame_def deliver_message_def fragments_def Let_def split: if_splits)
  qed
  then show "act = Continue" "ws_tx_raw ws' = ws_tx_raw ws" "data_stream (ws_max_message ws) (fragments ws') (rest @ b)" by simp_all
qed

lemma read_turn_flowing:
  assumes "read_turn room st = (r, st')" "flowing st" "0 < room"
  shows "flowing st'" "r = None \<or> r = Some PollPending \<and> yet_to_read st' = [] \<or> (\<exists>b. r = Some (Served b) \<and> b \<noteq> [])"
proof -
  obtain so ws where st: "st = (so, ws)" by (cases st)
  have fl: "ws_tx_raw ws = []" "\<not> ws_read_eof ws" "list_all (\<lambda>r. \<exists>c. r = Chunk c \<and> c \<noteq> []) (so_reads so)"
    "data_stream (ws_max_message ws) (fragments ws) (ws_rx_raw ws @ incoming (so_reads so))" using assms(2) by (auto simp: flowing_def st)
  have "flowing st' \<and> (r = None \<or> r = Some PollPending \<and> yet_to_read st' = [] \<or> (\<exists>b. r = Some (Served b) \<and> b \<noteq> []))"
  proof (cases "ws_read_buf ws = []")
    case False
    then have "take (min (length (ws_read_buf ws)) room) (ws_read_buf ws) \<noteq> []" using assms(3) by simp
    moreover have "r = Some (Served (take (min (length (ws_read_buf ws)) room) (ws_read_buf ws)))"
      "st' = (so, ws\<lparr>ws_read_buf := drop (min (length (ws_read_buf ws)) room) (ws_read_buf ws)\<rparr>)"
      using assms(1) unfolding st read_turn_serves [OF False assms(3)] by simp_all
    ultimately show ?thesis using fl by (simp add: flowing_def)
  next
    case True
    have "(if ws_tx_raw ws \<noteq> [] then snd (poll_drain (so, ws)) else (so, ws)) = (so, ws)" using fl(1) by simp
    then have turn: "(r, st') = decode_turn (so, ws)"
      using assms(1) read_turn_decodes [of ws room so so ws] True fl by (simp add: st)
    let ?in = "incoming (so_reads so)"
    obtain status rest where c: "cut (ws_max_message ws) (ws_rx_raw ws) = (status, rest)" by fastforce
    show ?thesis
    proof (cases status)
      case (Frame fin opcode p)
      obtain act ws2 where h: "handle_frame fin opcode p (ws\<lparr>ws_rx_raw := rest\<rparr>) = (act, ws2)" by fastforce
      note cc = cut_frame(1) [OF c [unfolded Frame], of ?in]
      note hd = handle_data_frame [OF fl(4) cc h] and hl = handle_frame_lines(1-3) [OF cc h]
      show ?thesis using turn hd hl fl unfolding decode_turn_def prod.case take_frame_cut c Frame by (simp add: h flowing_def)
    next
      case Protocol
      then have "\<not> data_stream (ws_max_message ws) fr (ws_rx_raw ws @ b)" for fr b
        using cut_other(1) [of "ws_max_message ws" "ws_rx_raw ws" rest b] c by (simp add: data_stream.simps)
      then show ?thesis using fl(4) by simp
    next
      case NeedMore
      then have rest: "rest = ws_rx_raw ws" using cut_other(3) c by blast
      have dry: "stream_lines (ws_max_message ws) fr (ws_rx_raw ws) = []" for fr
        using c NeedMore by (simp add: stream_lines.simps)
      show ?thesis
      proof (cases "so_reads so")
        case Nil
        then show ?thesis
          using turn fl True dry unfolding decode_turn_def prod.case take_frame_cut c NeedMore rest by (simp add: flowing_def yet_to_read_def)
      next
        case (Cons x xs)
        then obtain b where b: "x = Chunk b" "b \<noteq> []" using fl(3) by auto
        then show ?thesis
          using turn fl Cons unfolding decode_turn_def prod.case take_frame_cut c NeedMore rest by (simp add: flowing_def)
      qed
    qed
  qed
  then show "flowing st'" "r = None \<or> r = Some PollPending \<and> yet_to_read st' = [] \<or> (\<exists>b. r = Some (Served b) \<and> b \<noteq> [])" by simp_all
qed

lemma poll_read_flowing:
  "poll_read room st = (r, st') \<Longrightarrow> flowing st \<Longrightarrow> 0 < room \<Longrightarrow>
     flowing st' \<and> (r = PollPending \<and> yet_to_read st' = [] \<or> (\<exists>b. r = Served b \<and> b \<noteq> []))"
proof (induction room st rule: poll_read.induct)
  case (1 room st)
  obtain ro st1 where t: "read_turn room st = (ro, st1)" by (cases "read_turn room st")
  note tf = read_turn_flowing [OF t 1(3,4)]
  show ?case
  proof (cases ro)
    case None
    then have "poll_read room st1 = (r, st')" using 1(2) t by (simp add: poll_read.simps [of room st])
    then show ?thesis using 1(1) [OF t [symmetric] None] 1(4) tf(1) by simp
  next
    case (Some x)
    then show ?thesis using 1(2) t tf by (simp add: poll_read.simps [of room st])
  qed
qed

lemma read_all_flowing:
  "flowing st \<Longrightarrow> list_all ((<) 0) rooms \<Longrightarrow> length (yet_to_read st) < length rooms \<Longrightarrow>
     \<exists>st'. read_all rooms st = (yet_to_read st, Some PollPending, st')"
proof (induction rooms arbitrary: st)
  case (Cons room rooms)
  obtain x st1 where t: "poll_read room st = (x, st1)" by (cases "poll_read room st")
  note f = poll_read_flowing [OF t Cons.prems(1)]
  show ?case
  proof (cases "x = PollPending")
    case True
    then show ?thesis using t f Cons.prems(2) poll_read_lines [OF t] by (simp add: served_def)
  next
    case False
    then obtain b where b: "x = Served b" "b \<noteq> []" "flowing st1" using f Cons.prems(2) by auto
    then have y: "yet_to_read st = b @ yet_to_read st1" using poll_read_lines [OF t] by (simp add: served_def)
    then have "length (yet_to_read st1) < length rooms" using Cons.prems(3) b(2) by (cases b) auto
    then obtain st' where "read_all rooms st1 = (yet_to_read st1, Some PollPending, st')" using Cons.IH [OF b(3)] Cons.prems(2) by auto
    then show ?thesis using t b y by simp
  qed
qed simp

text \<open>C33: messages of a WebSocket client arrive whole, in order and each as one line, whatever their fragmentation, however
  the network cuts the bytes and whatever space the reader offers: after enough reads the reader has them all and waits.\<close>

theorem ws_transparent:
  assumes "list_all (message_ok m) msgs" "list_all (\<lambda>c. c \<noteq> []) chunks" "list_all ((<) 0) rooms"
    "concat chunks = concat (map (\<lambda>(op, frags). client_fragments op frags) msgs)"
    "length (concat (map (\<lambda>(op, frags). concat (map snd frags) @ [CR, LF]) msgs)) < length rooms"
  shows "\<exists>so ws. read_all rooms (\<lparr>so_reads = map Chunk chunks, so_writes = writes, so_sent = sent\<rparr>, ws_new binary m)
    = (concat (map (\<lambda>(op, frags). concat (map snd frags) @ [CR, LF]) msgs), Some PollPending, so, ws)"
proof -
  let ?st = "(\<lparr>so_reads = map Chunk chunks, so_writes = writes, so_sent = sent\<rparr>, ws_new binary m)"
  have inc: "incoming (map Chunk chunks) = concat chunks" using assms(2) by (induction chunks) auto
  have y: "yet_to_read ?st = concat (map (\<lambda>(op, frags). concat (map snd frags) @ [CR, LF]) msgs)"
    by (simp add: yet_to_read_def ws_new_def fragments_def inc assms(4) stream_messages [OF assms(1)])
  have "flowing ?st"
    using assms(2) data_messages [OF assms(1)] by (auto simp: flowing_def ws_new_def fragments_def inc assms(4) list_all_iff)
  from read_all_flowing [OF this assms(3)] show ?thesis using assms(5) unfolding y by (metis prod.collapse)
qed

subsection \<open>Memory\<close>

text \<open>What the reading side holds at most: \<open>READ_CHUNK\<close> bytes beyond an incomplete frame (and what came along with the
  upgrade request), a message that is being put together, and one message that is handed on.\<close>

definition read_bounds :: "socket \<times> ws_stream \<Rightarrow> bool" where
  "read_bounds st \<longleftrightarrow>
     (case st of (so, ws) \<Rightarrow>
        length (ws_rx_raw ws) \<le> 14 + ws_max_message ws + READ_CHUNK + 1024 \<and> length (ws_frag_buf ws) \<le> ws_max_message ws
        \<and> length (ws_read_buf ws) \<le> ws_max_message ws + 2 \<and> list_all (\<lambda>r. \<forall>c. r = Chunk c \<longrightarrow> length c \<le> READ_CHUNK) (so_reads so))"

lemma handle_frame_bounds:
  assumes "handle_frame fin opcode p ws = (act, ws')" "length p \<le> ws_max_message ws" "length (ws_frag_buf ws) \<le> ws_max_message ws" "ws_read_buf ws = []"
  shows "length (ws_frag_buf ws') \<le> ws_max_message ws' \<and> length (ws_read_buf ws') \<le> ws_max_message ws' + 2 \<and> ws_rx_raw ws' = ws_rx_raw ws
    \<and> ws_max_message ws' = ws_max_message ws \<and> length (ws_tx_raw ws') \<le> length (ws_tx_raw ws) + 127"
  using assms by (auto simp: handle_frame_def deliver_message_def push_frame_def begin_close_def frame_bytes_def be_roundtrip Let_def split: if_splits)

lemma begin_close_bounds: "length (ws_tx_raw (begin_close c ws)) \<le> length (ws_tx_raw ws) + 4"
  by (auto simp: begin_close_def push_frame_def frame_bytes_def be_roundtrip)

lemma read_turn_bounds:
  assumes "read_turn room st = (r, st')" "read_bounds st" "0 < room"
  shows "read_bounds st'" "length (ws_tx_raw (snd st')) \<le> max (length (ws_tx_raw (snd st))) (MAX_TX_BUFFER + 127)"
    "ws_max_message (snd st') = ws_max_message (snd st)"
proof -
  obtain so ws where st: "st = (so, ws)" by (cases st)
  have "read_bounds st' \<and> length (ws_tx_raw (snd st')) \<le> max (length (ws_tx_raw ws)) (MAX_TX_BUFFER + 127) \<and> ws_max_message (snd st') = ws_max_message ws"
  proof (cases "ws_read_buf ws = []")
    case False
    then show ?thesis using assms(1,2) read_turn_serves [OF False assms(3), of so] by (auto simp: read_bounds_def st)
  next
    case True
    have empty: "min (length (ws_read_buf ws)) room = 0" using True by simp
    obtain so1 ws1 where d: "(if ws_tx_raw ws \<noteq> [] then snd (poll_drain (so, ws)) else (so, ws)) = (so1, ws1)" by fastforce
    have reads: "so_reads so1 = so_reads so" and "\<exists>tx. ws1 = ws\<lparr>ws_tx_raw := tx\<rparr> \<and> length tx \<le> length (ws_tx_raw ws)"
      using d drained [of so ws so1 ws1] by (auto split: if_splits intro!: exI [of _ "ws_tx_raw ws"])
    then obtain tx where same: "ws1 = ws\<lparr>ws_tx_raw := tx\<rparr>" "length tx \<le> length (ws_tx_raw ws)" by blast
    have b1: "read_bounds (so1, ws1)" using assms(2) reads same by (simp add: read_bounds_def st)
    consider "ws_read_eof ws" | "\<not> ws_read_eof ws" "MAX_TX_BUFFER < length (ws_tx_raw ws1)" | "\<not> ws_read_eof ws" "length (ws_tx_raw ws1) \<le> MAX_TX_BUFFER"
      by linarith
    then show ?thesis
    proof cases
      case 1
      then have "st' = (so, ws)" using assms(1) True by (simp add: st read_turn_def)
      then show ?thesis using assms(2) st by simp
    next
      case 2
      have "(r, st') = (Some PollErr, so1, end_stream ws1)"
        using assms(1) 2 read_turn_decodes [OF empty 2(1) d] by (simp add: st)
      then show ?thesis using b1 same by (simp add: read_bounds_def end_stream_def)
    next
      case 3
      then have turn: "(r, st') = decode_turn (so1, ws1)" using assms(1) read_turn_decodes [OF empty 3(1) d] by (simp add: st)
      obtain status rest where c: "cut (ws_max_message ws1) (ws_rx_raw ws1) = (status, rest)" by fastforce
      show ?thesis
      proof (cases status)
        case (Frame fin opcode p)
        obtain act ws2 where h: "handle_frame fin opcode p (ws1\<lparr>ws_rx_raw := rest\<rparr>) = (act, ws2)" by fastforce
        note cf = cut_frame(2,3) [OF c [unfolded Frame]]
        have hb: "length (ws_frag_buf ws2) \<le> ws_max_message ws2 \<and> length (ws_read_buf ws2) \<le> ws_max_message ws2 + 2 \<and> ws_rx_raw ws2 = rest
            \<and> ws_max_message ws2 = ws_max_message ws \<and> length (ws_tx_raw ws2) \<le> length (ws_tx_raw ws1) + 127"
          using handle_frame_bounds [OF h] cf b1 same True by (simp add: read_bounds_def)
        have rx: "length rest \<le> 14 + ws_max_message ws + READ_CHUNK + 1024" using b1 cf same by (simp add: read_bounds_def)
        have "act = Error \<Longrightarrow> ws_tx_raw ws2 = ws_tx_raw ws1"
          using h by (auto simp: handle_frame_def Let_def split: if_splits)
        then have "length (ws_tx_raw (if act = Error then begin_close 1002 ws2 else ws2)) \<le> MAX_TX_BUFFER + 127"
          using hb 3(2) begin_close_bounds [of 1002 ws2] by (auto split: if_splits)
        then show ?thesis
          using turn hb rx b1 unfolding decode_turn_def prod.case take_frame_cut c Frame
          by (cases act) (auto simp: h read_bounds_def end_stream_def)
      next
        case Protocol
        then have rest: "rest = ws_rx_raw ws1" using cut_other(3) c by blast
        show ?thesis
          using turn b1 same begin_close_bounds [of 1002 ws1] 3(2) unfolding decode_turn_def prod.case take_frame_cut c Protocol rest by (simp add: read_bounds_def end_stream_def)
      next
        case NeedMore
        then have rest: "rest = ws_rx_raw ws1" and len: "length (ws_rx_raw ws1) < 14 + ws_max_message ws1" using cut_other(2,3) c by blast+
        show ?thesis
          using turn b1 same len unfolding decode_turn_def prod.case take_frame_cut c NeedMore rest
          by (auto simp: read_bounds_def end_stream_def split: list.splits read_result.splits if_splits)
      qed
    qed
  qed
  then show "read_bounds st'" "length (ws_tx_raw (snd st')) \<le> max (length (ws_tx_raw (snd st))) (MAX_TX_BUFFER + 127)"
    "ws_max_message (snd st') = ws_max_message (snd st)" by (simp_all add: st)
qed

lemma poll_read_bounds:
  "poll_read room st = (r, st') \<Longrightarrow> read_bounds st \<Longrightarrow> 0 < room \<Longrightarrow>
     read_bounds st' \<and> length (ws_tx_raw (snd st')) \<le> max (length (ws_tx_raw (snd st))) (MAX_TX_BUFFER + 127) \<and> ws_max_message (snd st') = ws_max_message (snd st)"
proof (induction room st rule: poll_read.induct)
  case (1 room st)
  obtain ro st1 where t: "read_turn room st = (ro, st1)" by (cases "read_turn room st")
  note tb = read_turn_bounds [OF t 1(3,4)]
  show ?case
  proof (cases ro)
    case None
    then have "poll_read room st1 = (r, st')" using 1(2) t by (simp add: poll_read.simps [of room st])
    then show ?thesis using 1(1) [OF t [symmetric] None] 1(4) tb by fastforce
  next
    case (Some x)
    then show ?thesis using 1(2) t tb by (simp add: poll_read.simps [of room st])
  qed
qed

subsection \<open>A stream in use\<close>

text \<open>What is handed to the socket and what waits for it.\<close>

definition wire_out :: "socket \<times> ws_stream \<Rightarrow> string" where
  "wire_out st = (case st of (so, ws) \<Rightarrow> so_sent so @ ws_tx_raw ws)"

lemma poll_drain_wire:
  "wire_out (snd (poll_drain st)) = wire_out st"
  "ws_write_buf (snd (snd (poll_drain st))) = ws_write_buf (snd st)" "ws_binary (snd (snd (poll_drain st))) = ws_binary (snd st)"
proof -
  have "(case drain_bytes w s tx of (_, _, s', tx') \<Rightarrow> s' @ tx') = s @ tx" for w s tx
    by (induction w s tx rule: drain_bytes.induct) auto
  then have "s' @ tx' = so_sent so @ ws_tx_raw ws" if "drain_bytes (so_writes so) (so_sent so) (ws_tx_raw ws) = (r, w, s', tx')" for so ws r w s' tx'
    using that by (metis (mono_tags, lifting) prod.case)
  then show "wire_out (snd (poll_drain st)) = wire_out st"
    "ws_write_buf (snd (snd (poll_drain st))) = ws_write_buf (snd st)" "ws_binary (snd (snd (poll_drain st))) = ws_binary (snd st)"
    by (auto simp: poll_drain_def wire_out_def split: prod.splits)
qed

text \<open>The specification of the writing side, byte by byte: the frames of the lines that are complete, and the line that is not.\<close>

definition line_frame :: "nat \<Rightarrow> string \<Rightarrow> string" where
  "line_frame opcode line =
     (let body = (if line \<noteq> [] \<and> last line = CR then butlast line else line) in if body = [] then [] else frame_bytes opcode body)"

fun out_frames :: "nat \<Rightarrow> string \<Rightarrow> string \<Rightarrow> string \<times> string" where
  "out_frames opcode line [] = ([], line)"
| "out_frames opcode line (c # cs) =
     (if c = LF then (case out_frames opcode [] cs of (frames, rest) \<Rightarrow> (line_frame opcode line @ frames, rest))
      else out_frames opcode (line @ [c]) cs)"

lemma out_frames_append:
  "out_frames opcode line (a @ b) =
     (case out_frames opcode line a of (f, r) \<Rightarrow> (case out_frames opcode r b of (g, s) \<Rightarrow> (f @ g, s)))"
  by (induction opcode line a rule: out_frames.induct) (auto split: prod.splits)

lemma out_frames_open:
  "LF \<notin> set a \<Longrightarrow> out_frames opcode line a = ([], line @ a)"
  by (induction a arbitrary: line) auto

lemma out_frames_rest:
  "LF \<notin> set line \<Longrightarrow> LF \<notin> set (snd (out_frames opcode line a))"
  by (induction opcode line a rule: out_frames.induct) (auto split: prod.splits)

definition data_opcode :: "ws_stream \<Rightarrow> nat" where
  "data_opcode ws = (if ws_binary ws then OP_BINARY else OP_TEXT)"

lemma queue_out_frames:
  "wire_out (so, queue_out_lines ws) = wire_out (so, ws) @ fst (out_frames (data_opcode ws) [] (ws_write_buf ws))
   \<and> ws_write_buf (queue_out_lines ws) = snd (out_frames (data_opcode ws) [] (ws_write_buf ws)) \<and> ws_binary (queue_out_lines ws) = ws_binary ws"
proof (induction ws rule: queue_out_lines.induct)
  case (1 ws)
  show ?case
  proof (cases "memchr LF (ws_write_buf ws)")
    case None
    have "queue_out_lines ws = ws" by (subst queue_out_lines.simps) (simp only: None option.case)
    then show ?thesis using None by (simp add: out_frames_open)
  next
    case (Some nl)
    let ?line = "take nl (ws_write_buf ws)" and ?rest = "drop (nl + 1) (ws_write_buf ws)"
    let ?body = "if ?line \<noteq> [] \<and> last ?line = CR then butlast ?line else ?line"
    let ?ws = "if ?body = [] then ws\<lparr>ws_write_buf := ?rest\<rparr> else push_frame (data_opcode ws) ?body (ws\<lparr>ws_write_buf := ?rest\<rparr>)"
    have q: "queue_out_lines ws = queue_out_lines ?ws"
      by (subst queue_out_lines.simps) (simp only: Some option.case Let_def data_opcode_def)
    have buf: "ws_write_buf ws = ?line @ LF # ?rest" "LF \<notin> set ?line" using memchr_SomeD [OF Some] by (simp_all add: id_take_nth_drop [symmetric])
    have w: "wire_out (so, ?ws) = wire_out (so, ws) @ line_frame (data_opcode ws) ?line" "ws_write_buf ?ws = ?rest" "ws_binary ?ws = ws_binary ws"
      by (simp_all add: wire_out_def line_frame_def push_frame_def Let_def)
    have o: "out_frames (data_opcode ws) [] (ws_write_buf ws)
        = (line_frame (data_opcode ws) ?line @ fst (out_frames (data_opcode ws) [] ?rest), snd (out_frames (data_opcode ws) [] ?rest))"
      by (subst buf(1)) (simp add: out_frames_append out_frames_open [OF buf(2)] split: prod.split)
    have ih: "wire_out (so, queue_out_lines ?ws) = wire_out (so, ?ws) @ fst (out_frames (data_opcode ?ws) [] (ws_write_buf ?ws))
       \<and> ws_write_buf (queue_out_lines ?ws) = snd (out_frames (data_opcode ?ws) [] (ws_write_buf ?ws)) \<and> ws_binary (queue_out_lines ?ws) = ws_binary ?ws"
      using 1 [OF Some refl refl refl refl] by (simp only: data_opcode_def)
    have "data_opcode ?ws = data_opcode ws" using w(3) by (simp only: data_opcode_def)
    then show ?thesis unfolding q using ih unfolding w o by simp
  qed
qed

text \<open>Successive writes.\<close>

definition write_all :: "string list \<Rightarrow> socket \<times> ws_stream \<Rightarrow> socket \<times> ws_stream" where
  "write_all pieces st = fold (\<lambda>b st. snd (poll_write b st)) pieces st"

lemma poll_write_frames:
  assumes "LF \<notin> set (ws_write_buf (snd st))"
  shows "wire_out (snd (poll_write b st)) = wire_out st @ fst (out_frames (data_opcode (snd st)) (ws_write_buf (snd st)) b)"
    "ws_write_buf (snd (snd (poll_write b st))) = snd (out_frames (data_opcode (snd st)) (ws_write_buf (snd st)) b)"
    "data_opcode (snd (snd (poll_write b st))) = data_opcode (snd st)"
proof -
  obtain so ws where st: "st = (so, ws)" by (cases st)
  let ?ws = "ws\<lparr>ws_write_buf := ws_write_buf ws @ b\<rparr>"
  have p: "snd (poll_write b st) = snd (poll_drain (so, queue_out_lines ?ws))" by (simp add: poll_write_def st Let_def)
  have o: "out_frames (data_opcode ws) [] (ws_write_buf ws @ b) = out_frames (data_opcode ws) (ws_write_buf ws) b"
    using assms by (simp add: st out_frames_append out_frames_open)
  have d: "data_opcode ?ws = data_opcode ws" "wire_out (so, ?ws) = wire_out (so, ws)" by (simp_all add: data_opcode_def wire_out_def)
  note q = queue_out_frames [of so ?ws]
  show "wire_out (snd (poll_write b st)) = wire_out st @ fst (out_frames (data_opcode (snd st)) (ws_write_buf (snd st)) b)"
    "ws_write_buf (snd (snd (poll_write b st))) = snd (out_frames (data_opcode (snd st)) (ws_write_buf (snd st)) b)"
    using q unfolding p poll_drain_wire by (simp_all add: st d o)
  show "data_opcode (snd (snd (poll_write b st))) = data_opcode (snd st)"
    using q unfolding p by (simp add: data_opcode_def poll_drain_wire st)
qed

lemma write_all_frames:
  "LF \<notin> set (ws_write_buf (snd st)) \<Longrightarrow>
     wire_out (write_all pieces st) = wire_out st @ fst (out_frames (data_opcode (snd st)) (ws_write_buf (snd st)) (concat pieces))
     \<and> ws_write_buf (snd (write_all pieces st)) = snd (out_frames (data_opcode (snd st)) (ws_write_buf (snd st)) (concat pieces))"
proof (induction pieces arbitrary: st)
  case (Cons b pieces)
  note w = poll_write_frames [OF Cons.prems, of b]
  have "LF \<notin> set (ws_write_buf (snd (snd (poll_write b st))))" unfolding w by (rule out_frames_rest [OF Cons.prems])
  then show ?case
    using Cons.IH [of "snd (poll_write b st)"] by (simp add: write_all_def w out_frames_append split: prod.split)
qed (simp add: write_all_def)

lemma out_frames_lines:
  assumes "list_all (\<lambda>l. l \<noteq> [] \<and> LF \<notin> set l) lines"
  shows "out_frames opcode [] (concat (map (\<lambda>l. l @ [CR, LF]) lines)) = (concat (map (frame_bytes opcode) lines), [])"
  using assms by (induction lines) (auto simp: out_frames_append out_frames_open line_frame_def Let_def CR_def LF_def split: prod.splits)

text \<open>C34: whatever pieces the lines for a client are written in, and whatever the socket takes of them each time, each line
  goes out as exactly one frame, in order, without its line ending; what the socket has not taken yet is kept.\<close>

theorem one_frame_per_line:
  assumes "list_all (\<lambda>l. l \<noteq> [] \<and> LF \<notin> set l) lines" "concat pieces = concat (map (\<lambda>l. l @ [CR, LF]) lines)" "ws_write_buf ws = []"
  shows "wire_out (write_all pieces (so, ws))
    = wire_out (so, ws) @ concat (map (frame_bytes (if ws_binary ws then OP_BINARY else OP_TEXT)) lines)"
  using write_all_frames [of "(so, ws)" pieces] assms(2,3) by (simp add: out_frames_lines [OF assms(1)] data_opcode_def)

lemma one_frame_per_line_witness:
  "wire_out (write_all [''PI'', ''NG a'' @ [CR], [LF] @ ''BY'', ''E'' @ [CR, LF]] (\<lparr>so_reads = [], so_writes = [Wrote 3, WritePending], so_sent = []\<rparr>, ws_new False 512))
    = concat (map (frame_bytes OP_TEXT) [''PING a'', ''BYE''])"
  using one_frame_per_line
    [where lines = "[''PING a'', ''BYE'']" and pieces = "[''PI'', ''NG a'' @ [CR], [LF] @ ''BY'', ''E'' @ [CR, LF]]" and ws = "ws_new False 512"
      and so = "\<lparr>so_reads = [], so_writes = [Wrote 3, WritePending], so_sent = []\<rparr>"]
  by (simp add: ws_new_def wire_out_def LF_def)

lemma ws_transparent_witness:
  "\<exists>so ws. read_all ([1, 1, 1, 1, 1, 1])
     (\<lparr>so_reads = map Chunk [take 5 (client_frame True OP_TEXT ''abcd'' ''HI''), drop 5 (client_frame True OP_TEXT ''abcd'' ''HI'')],
       so_writes = [], so_sent = []\<rparr>, ws_new False 512) = (''HI'' @ [CR, LF], Some PollPending, so, ws)"
proof -
  have "length (client_frame True OP_TEXT ''abcd'' ''HI'') = 8" by (simp add: client_frame_def)
  then have "list_all (\<lambda>c. c \<noteq> []) [take 5 (client_frame True OP_TEXT ''abcd'' ''HI''), drop 5 (client_frame True OP_TEXT ''abcd'' ''HI'')]"
    by (simp flip: length_greater_0_conv)
  then show ?thesis
    using ws_transparent [where m = 512 and msgs = "[(OP_TEXT, [(''abcd'', ''HI'')])]" and rooms = "[1, 1, 1, 1, 1, 1]" and sent = "[]"
        and chunks = "[take 5 (client_frame True OP_TEXT ''abcd'' ''HI''), drop 5 (client_frame True OP_TEXT ''abcd'' ''HI'')]"
        and writes = "[]" and binary = False]
    by (simp add: message_ok_def)
qed

subsection \<open>A connection over its lifetime\<close>

lemma read_request_length:
  "read_request buf reads = Some (Inr (head, leftover)) \<Longrightarrow> length buf \<le> MAX_HANDSHAKE_BYTES + 1024 \<Longrightarrow>
     list_all (\<lambda>r. \<forall>c. r = Chunk c \<longrightarrow> length c \<le> 1024) reads \<Longrightarrow> length leftover \<le> MAX_HANDSHAKE_BYTES + 1024"
proof (induction buf reads rule: read_request.induct)
  case (1 buf reads)
  show ?case
  proof (cases "find_crlf_crlf buf")
    case None
    then have small: "\<not> MAX_HANDSHAKE_BYTES < length buf" using 1(3) by (auto simp: read_request.simps [of buf reads])
    show ?thesis
    proof (cases reads)
      case Nil
      then show ?thesis using 1(3) None small by (simp add: read_request.simps [of buf "[]"])
    next
      case (Cons x rest)
      then have r: "Some (Inr (head, leftover))
          = (case x of ReadPending \<Rightarrow> read_request buf rest | ReadErr \<Rightarrow> Some (Inl ReadFailed)
             | Chunk c \<Rightarrow> if c = [] then Some (Inl UnexpectedEof) else read_request (buf @ c) rest)"
        using 1(3) None small by (subst (asm) read_request.simps) (simp split: read_result.splits)
      show ?thesis
      proof (cases x)
        case (Chunk c)
        then have "c \<noteq> []" "read_request (buf @ c) rest = Some (Inr (head, leftover))" using r by (auto split: if_splits)
        then show ?thesis using 1(1) [OF None small Cons Chunk \<open>c \<noteq> []\<close>] 1(5) Cons Chunk small by simp
      next
        case ReadPending
        then show ?thesis using 1(2) [OF None small Cons ReadPending] r 1(4,5) Cons by simp
      qed (use r in simp)
    qed
  next
    case (Some pos)
    then show ?thesis using 1(3,4) by (auto simp: read_request.simps [of buf reads])
  qed
qed

lemma accept_bounds:
  assumes "ws_accept digest limit ok reads = Some (out, Inr ws)" "list_all (\<lambda>r. \<forall>c. r = Chunk c \<longrightarrow> length c \<le> 1024) reads"
    "list_all (\<lambda>r. \<forall>c. r = Chunk c \<longrightarrow> length c \<le> READ_CHUNK) (so_reads so)"
  shows "read_bounds (so, ws)" "ws_max_message ws = limit"
proof -
  obtain head leftover b where r: "read_request [] reads = Some (Inr (head, leftover))" "ws = (ws_new b limit)\<lparr>ws_rx_raw := leftover\<rparr>"
    using assms(1) by (auto simp: ws_accept_def Let_def split: option.splits sum.splits if_splits)
  then show "read_bounds (so, ws)" "ws_max_message ws = limit"
    using read_request_length [OF r(1) _ assms(2)] assms(3)
    by (auto simp: read_bounds_def ws_new_def MAX_HANDSHAKE_BYTES_def READ_CHUNK_def)
qed

text \<open>What happens to a stream: it is read and written, it is shut down, and the network goes on.\<close>

inductive ws_step :: "socket \<times> ws_stream \<Rightarrow> socket \<times> ws_stream \<Rightarrow> bool" where
  step_read: "0 < room \<Longrightarrow> poll_read room st = (r, st') \<Longrightarrow> ws_step st st'"
| step_write: "ws_step st (snd (poll_write b st))"
| step_shutdown: "ws_step st (snd (poll_shutdown st))"
| step_network: "list_all (\<lambda>r. \<forall>c. r = Chunk c \<longrightarrow> length c \<le> READ_CHUNK) reads \<Longrightarrow>
    ws_step (so, ws) (so\<lparr>so_reads := reads, so_writes := writes\<rparr>, ws)"

lemma queue_out_fields [simp]:
  "ws_rx_raw (queue_out_lines ws) = ws_rx_raw ws \<and> ws_frag_buf (queue_out_lines ws) = ws_frag_buf ws \<and> ws_read_buf (queue_out_lines ws) = ws_read_buf ws
   \<and> ws_max_message (queue_out_lines ws) = ws_max_message ws"
proof (induction ws rule: queue_out_lines.induct)
  case (1 ws)
  show ?case
    using 1 by (subst (1 2 3 4) queue_out_lines.simps) (auto simp: Let_def push_frame_def split: option.splits)
qed

lemma step_bounds:
  "ws_step st st' \<Longrightarrow> read_bounds st \<Longrightarrow> read_bounds st' \<and> ws_max_message (snd st') = ws_max_message (snd st)"
proof (induction rule: ws_step.induct)
  case (step_read room st r st')
  then show ?case using poll_read_bounds by blast
next
  case (step_write st b)
  obtain so ws where st: "st = (so, ws)" by (cases st)
  let ?ws = "queue_out_lines (ws\<lparr>ws_write_buf := ws_write_buf ws @ b\<rparr>)"
  obtain so1 ws1 where d: "snd (poll_drain (so, ?ws)) = (so1, ws1)" by (cases "snd (poll_drain (so, ?ws))")
  show ?case using step_write drained [OF d] queue_out_fields [of "ws\<lparr>ws_write_buf := ws_write_buf ws @ b\<rparr>"]
    by (auto simp: st poll_write_def Let_def d read_bounds_def)
next
  case (step_shutdown st)
  obtain so ws where st: "st = (so, ws)" by (cases st)
  obtain so1 ws1 where d: "snd (poll_drain (so, begin_close 1000 ws)) = (so1, ws1)" by (cases "snd (poll_drain (so, begin_close 1000 ws))")
  show ?case using step_shutdown drained [OF d] by (auto simp: st poll_shutdown_def d read_bounds_def)
qed (simp add: read_bounds_def)

lemma run_bounds:
  "ws_step\<^sup>*\<^sup>* st st' \<Longrightarrow> read_bounds st \<Longrightarrow> read_bounds st' \<and> ws_max_message (snd st') = ws_max_message (snd st)"
  by (induction rule: rtranclp_induct) (auto dest: step_bounds)

text \<open>C35: from its upgrade to its end a WebSocket connection buffers a bounded amount of what its peer sends, whatever the
  peer sends and however it is read and written.\<close>

theorem ws_reads_bounded:
  assumes "ws_accept digest limit ok reads = Some (out, Inr ws)" "list_all (\<lambda>r. \<forall>c. r = Chunk c \<longrightarrow> length c \<le> 1024) reads"
    "list_all (\<lambda>r. \<forall>c. r = Chunk c \<longrightarrow> length c \<le> READ_CHUNK) (so_reads so)" "ws_step\<^sup>*\<^sup>* (so, ws) (so', ws')"
  shows "length (ws_rx_raw ws') + length (ws_frag_buf ws') + length (ws_read_buf ws') \<le> 3 * limit + 16 + READ_CHUNK + 1024"
  using run_bounds [OF assms(4)] accept_bounds [OF assms(1-3)] by (simp add: read_bounds_def)

definition demo_upgrade :: string where
  "demo_upgrade = ''GET / HTTP/1.1'' @ [CR, LF] @ ''Upgrade: websocket'' @ [CR, LF] @ ''Connection: Upgrade'' @ [CR, LF]
     @ ''Sec-WebSocket-Key: k'' @ [CR, LF] @ ''Sec-WebSocket-Version: 13'' @ [CR, LF, CR, LF]"

lemma demo_accept:
  "ws_accept (\<lambda>_. ''d'') 512 True [Chunk demo_upgrade] = Some (upgrade_response ''d'' None, Inr (ws_new False 512))"
  by code_simp

lemma ws_reads_bounded_witness:
  "ws_accept (\<lambda>_. ''d'') 512 True [Chunk demo_upgrade] = Some (upgrade_response ''d'' None, Inr (ws_new False 512))
   \<and> length (ws_rx_raw (ws_new False 512)) + length (ws_frag_buf (ws_new False 512)) + length (ws_read_buf (ws_new False 512)) \<le> 3 * 512 + 16 + READ_CHUNK + 1024"
proof -
  have "length demo_upgrade \<le> 1024" by (simp add: demo_upgrade_def)
  then have "list_all (\<lambda>r. \<forall>c. r = Chunk c \<longrightarrow> length c \<le> 1024) [Chunk demo_upgrade]" by simp
  from ws_reads_bounded [OF demo_accept this, where so = "\<lparr>so_reads = [], so_writes = [], so_sent = []\<rparr>", OF _ rtranclp.rtrancl_refl] demo_accept
  show ?thesis by simp
qed

end
