(* ===== verification/Ts6.thy ===== *)
theory Ts6
  imports LinkLoop Account
begin

text \<open>
  The TS6 bridge (\<open>ferrixd/src/ts6.rs\<close>): identifiers, the aliases under which the users of this network are known on a TS6
  link, the events of a TS6 peer and their parser, and the writer that says a native frame in TS6. A \<open>None\<close> of the operations
  on identifiers is a panic: \<open>valid_uid\<close> slices its argument at a byte index.
\<close>

subsection \<open>Identifiers\<close>

definition OUR_CAPAB :: string where "OUR_CAPAB = ''QS EX IE EUID ENCAP TB''"

definition upper_or_digit :: "char \<Rightarrow> bool" where
  "upper_or_digit c \<longleftrightarrow> is_ascii_upper c \<or> is_ascii_digit c"

definition valid_sid :: "string \<Rightarrow> bool" where
  "valid_sid s \<longleftrightarrow> length s = 3 \<and> is_ascii_digit (s ! 0) \<and> list_all upper_or_digit (drop 1 s)"

definition valid_uid :: "string \<Rightarrow> bool option" where
  "valid_uid s =
     (if length s \<noteq> 9 then Some False
      else case str_get s 0 3 of
             None \<Rightarrow> None
           | Some sid \<Rightarrow> Some (valid_sid sid \<and> list_all upper_or_digit (drop 3 s)))"

text \<open>The suffix of the \<open>n\<close>-th alias.\<close>

definition ALPHA :: string where "ALPHA = ''ABCDEFGHIJKLMNOPQRSTUVWXYZ0123456789''"

definition encode_id :: "nat \<Rightarrow> string" where
  "encode_id n =
     ALPHA ! (n div 36 ^ 5 mod 26) # map (\<lambda>i. ALPHA ! (n mod 36 ^ 5 div 36 ^ i mod 36)) [4, 3, 2, 1, 0]"

record uid_mapper =
  um_to_ts6 :: "(string, string) table"
  um_to_ferrix :: "(string, string) table"
  um_next :: nat

definition mapper_new :: uid_mapper where
  "mapper_new = \<lparr>um_to_ts6 = [], um_to_ferrix = [], um_next = 0\<rparr>"

definition to_ts6 :: "string \<Rightarrow> uid_mapper \<Rightarrow> (string option \<times> uid_mapper) option" where
  "to_ts6 ferrix_uid m =
     (case valid_uid ferrix_uid of
        None \<Rightarrow> None
      | Some True \<Rightarrow> Some (Some ferrix_uid, m)
      | Some False \<Rightarrow>
          (case get (um_to_ts6 m) ferrix_uid of
             Some alias \<Rightarrow> Some (Some alias, m)
           | None \<Rightarrow>
               (case str_get ferrix_uid 0 3 of
                  None \<Rightarrow> Some (None, m)
                | Some sid \<Rightarrow>
                    if \<not> valid_sid sid then Some (None, m)
                    else
                      (let alias = sid @ encode_id (um_next m)
                       in Some (Some alias,
                            m\<lparr>um_next := um_next m + 1, um_to_ts6 := put ferrix_uid alias (um_to_ts6 m),
                              um_to_ferrix := put alias ferrix_uid (um_to_ferrix m)\<rparr>)))))"

definition to_ferrix :: "uid_mapper \<Rightarrow> string \<Rightarrow> string" where
  "to_ferrix m ts6_uid = (case get (um_to_ferrix m) ts6_uid of Some u \<Rightarrow> u | None \<Rightarrow> ts6_uid)"

subsection \<open>Events of a TS6 peer\<close>

datatype ts6_in =
    Ts6Pass (tp_password: string) (tp_sid: string)
  | Ts6Capab "string list"
  | Ts6Server string string
  | Ts6Svinfo nat nat
  | Ts6Sid string string "string option" string
  | Ts6Euid "string option" string string string string "string option" string
  | Ts6Nick string string
  | Ts6Quit string string
  | Ts6Sjoin string nat "(string \<times> member_prefix) list" string "string list"
  | Ts6Join string string nat
  | Ts6Part string string string
  | Ts6Msg string string bool string
  | Ts6Tmode string string nat string "string list"
  | Ts6Kick string string string string
  | Ts6Topic string string string
  | Ts6Tb string nat string string
  | Ts6Away string "string option"
  | Ts6Kill string string
  | Ts6Squit string string
  | Ts6Ping string
  | Ts6Login string "string option"
  | Ts6Wallops string string
  | Ts6ChgHost string string
  | Ts6Invite string string string
  | Ts6Save string
  | Ts6Error string
  | Ts6Ignore
  | Ts6Unknown string

definition or_ignore :: "ts6_in option \<Rightarrow> ts6_in" where
  "or_ignore e = (case e of Some e \<Rightarrow> e | None \<Rightarrow> Ts6Ignore)"

definition or_empty :: "string option \<Rightarrow> string" where
  "or_empty v = (case v of Some s \<Rightarrow> s | None \<Rightarrow> [])"

definition peer_ts :: "string list \<Rightarrow> nat" where
  "peer_ts p = (case Option.bind (arg p 0) parse_u64 of Some t \<Rightarrow> t | None \<Rightarrow> 0)"

definition last_arg :: "string list \<Rightarrow> string option" where
  "last_arg p = (if p = [] then None else Some (last p))"

definition sjoin_member :: "string \<Rightarrow> string \<times> member_prefix" where
  "sjoin_member m = (trim_sigils m, \<lparr>mp_op = (CHR ''@'' \<in> set m), mp_voice = (CHR ''+'' \<in> set m)\<rparr>)"

definition parse_encap :: "string \<Rightarrow> string list \<Rightarrow> ts6_in" where
  "parse_encap src p =
     (case map_option (map to_ascii_uppercase) (arg p 1) of
        None \<Rightarrow> Ts6Ignore
      | Some sub \<Rightarrow>
          if sub = ''LOGIN'' then Ts6Login src (arg p 2)
          else if sub = ''SU'' then
            or_ignore (do { uid \<leftarrow> arg p 2; Some (Ts6Login uid (Option.bind (arg p 3) (\<lambda>a. if a \<noteq> [] \<and> a \<noteq> ''*'' then Some a else None))) })
          else if sub = ''CHGHOST'' then or_ignore (do { uid \<leftarrow> arg p 2; host \<leftarrow> arg p 3; Some (Ts6ChgHost uid host) })
          else Ts6Ignore)"

definition IGNORED_VERBS :: "string list" where
  "IGNORED_VERBS =
     [''PONG'', ''MODE'', ''SVINFO2'', ''RESV'', ''UNRESV'', ''XLINE'', ''UNXLINE'', ''BAN'', ''ETB'', ''EOB'', ''SNOTE'', ''CONNECT'',
      ''ADMIN'', ''INFO'', ''LINKS'', ''MOTD'', ''STATS'', ''TIME'', ''TRACE'', ''USERS'', ''VERSION'', ''WHOIS'', ''LOCOPS'', ''SIGNON'',
      ''REHASH'', ''DLINE'', ''UNDLINE'', ''KLINE'', ''UNKLINE'', ''NICKDELAY'', ''KNOCK'', ''CERTFP'']"

definition parse_named :: "string option \<Rightarrow> string \<Rightarrow> string list \<Rightarrow> ts6_in" where
  "parse_named source name p =
     (let s = arg p; src = or_empty source
      in if name = ''PASS'' then
        (if (case s 1 of Some v \<Rightarrow> eq_ignore_ascii_case v ''TS'' | None \<Rightarrow> False) \<and> s 2 = Some ''6''
         then or_ignore (do { password \<leftarrow> s 0; sid \<leftarrow> s 3; Some (Ts6Pass password sid) }) else Ts6Ignore)
      else if name = ''CAPAB'' then Ts6Capab (case last_arg p of Some v \<Rightarrow> split_whitespace v | None \<Rightarrow> [])
      else if name = ''SERVER'' then or_ignore (do { name \<leftarrow> s 0; description \<leftarrow> s 2; Some (Ts6Server name description) })
      else if name = ''SVINFO'' then
        or_ignore (do { a \<leftarrow> s 0; b \<leftarrow> s 1; mx \<leftarrow> parse_u32 a; mn \<leftarrow> parse_u32 b; Some (Ts6Svinfo mx mn) })
      else if name = ''SID'' then
        or_ignore (do { name \<leftarrow> s 0; sid \<leftarrow> s 2; description \<leftarrow> s 3; Some (Ts6Sid name sid source description) })
      else if name = ''EUID'' then
        or_ignore (do { nick \<leftarrow> s 0; user \<leftarrow> s 4; host \<leftarrow> s 5; uid \<leftarrow> s 7; account \<leftarrow> s 9; realname \<leftarrow> s 10;
          Some (Ts6Euid source uid nick user host (if account \<noteq> ''*'' then Some account else None) realname) })
      else if name = ''UID'' then
        or_ignore (do { nick \<leftarrow> s 0; user \<leftarrow> s 4; host \<leftarrow> s 5; uid \<leftarrow> s 7; realname \<leftarrow> s 8;
          Some (Ts6Euid source uid nick user host None realname) })
      else if name = ''NICK'' then or_ignore (do { nick \<leftarrow> s 0; Some (Ts6Nick src nick) })
      else if name = ''QUIT'' then Ts6Quit src (or_empty (s 0))
      else if name = ''SJOIN'' then
        or_ignore (do { channel \<leftarrow> s 1; flags \<leftarrow> s 2; members \<leftarrow> last_arg p;
          Some (Ts6Sjoin channel (peer_ts p) (map sjoin_member (split_whitespace members)) flags (butlast (drop 3 p))) })
      else if name = ''JOIN'' then or_ignore (do { channel \<leftarrow> s 1; Some (Ts6Join src channel (peer_ts p)) })
      else if name = ''PART'' then or_ignore (do { channels \<leftarrow> s 0; Some (Ts6Part src channels (or_empty (s 1))) })
      else if name = ''PRIVMSG'' \<or> name = ''NOTICE'' then
        or_ignore (do { target \<leftarrow> s 0; txt \<leftarrow> s 1; Some (Ts6Msg src target (name = ''NOTICE'') txt) })
      else if name = ''TMODE'' then
        or_ignore (do { channel \<leftarrow> s 1; flags \<leftarrow> s 2; Some (Ts6Tmode src channel (peer_ts p) flags (drop 3 p)) })
      else if name = ''KICK'' then
        or_ignore (do { channel \<leftarrow> s 0; target \<leftarrow> s 1; Some (Ts6Kick src channel target (or_empty (s 2))) })
      else if name = ''TOPIC'' then or_ignore (do { channel \<leftarrow> s 0; Some (Ts6Topic src channel (or_empty (s 1))) })
      else if name = ''TB'' then
        or_ignore (do { channel \<leftarrow> s 0; a \<leftarrow> s 1; set_at \<leftarrow> parse_u64 a; txt \<leftarrow> last_arg p;
          Some (Ts6Tb channel set_at (if 4 \<le> length p then or_empty (s 2) else ''*'') txt) })
      else if name = ''AWAY'' then Ts6Away src (s 0)
      else if name = ''KILL'' then
        or_ignore (do { target \<leftarrow> s 0; Some (Ts6Kill target (case s 1 of Some r \<Rightarrow> r | None \<Rightarrow> ''Killed'')) })
      else if name = ''SQUIT'' then or_ignore (do { sid \<leftarrow> s 0; Some (Ts6Squit sid (or_empty (s 1))) })
      else if name = ''PING'' then Ts6Ping (case s 0 of Some origin \<Rightarrow> origin | None \<Rightarrow> src)
      else if name = ''ENCAP'' then parse_encap src p
      else if name = ''WALLOPS'' \<or> name = ''OPERWALL'' \<or> name = ''GLOBOPS'' then or_ignore (do { txt \<leftarrow> s 0; Some (Ts6Wallops src txt) })
      else if name = ''CHGHOST'' then or_ignore (do { uid \<leftarrow> s 0; host \<leftarrow> s 1; Some (Ts6ChgHost uid host) })
      else if name = ''INVITE'' then or_ignore (do { target \<leftarrow> s 0; channel \<leftarrow> s 1; Some (Ts6Invite src target channel) })
      else if name = ''SAVE'' then or_ignore (do { uid \<leftarrow> s 0; Some (Ts6Save uid) })
      else if name = ''ERROR'' then Ts6Error (or_empty (s 0))
      else if name \<in> set IGNORED_VERBS then Ts6Ignore
      else Ts6Unknown name)"

definition parse_ts6 :: "message \<Rightarrow> ts6_in" where
  "parse_ts6 msg =
     (case mcommand msg of
        Numeric _ \<Rightarrow> Ts6Ignore
      | Named name \<Rightarrow> parse_named (map_option sname (msource msg)) (map to_ascii_uppercase name) (mparams msg))"

subsection \<open>Mode arguments\<close>

text \<open>The arguments that go with a string of flags, from one dialect to the other. \<open>map_uid\<close> may change the state it works on, or
  panic.\<close>

fun translate_mode_args ::
  "bool \<Rightarrow> (string \<Rightarrow> 'm \<Rightarrow> (string option \<times> 'm) option) \<Rightarrow> rchar list \<Rightarrow> bool \<Rightarrow> string list \<Rightarrow> 'm \<Rightarrow> (string list \<times> 'm) option" where
  "translate_mode_args key_arg map_uid [] adding rest m = Some ([], m)"
| "translate_mode_args key_arg map_uid (c # cs) adding rest m =
     (let next_arg = (case rest of a # rest \<Rightarrow> map_option (apfst ((#) a)) (translate_mode_args key_arg map_uid cs adding rest m)
                      | [] \<Rightarrow> translate_mode_args key_arg map_uid cs adding [] m)
      in if c = ''+'' then translate_mode_args key_arg map_uid cs True rest m
         else if c = ''-'' then translate_mode_args key_arg map_uid cs False rest m
         else if c = ''o'' \<or> c = ''v'' then
           (case rest of
              [] \<Rightarrow> translate_mode_args key_arg map_uid cs adding [] m
            | a # rest \<Rightarrow>
                (case map_uid a m of
                   None \<Rightarrow> None
                 | Some (mapped, m) \<Rightarrow>
                     map_option (apfst ((#) (case mapped of Some u \<Rightarrow> u | None \<Rightarrow> a))) (translate_mode_args key_arg map_uid cs adding rest m)))
         else if c = ''k'' then
           (if adding then next_arg
            else if \<not> key_arg then translate_mode_args key_arg map_uid cs adding (drop 1 rest) m
            else map_option (apfst ((#) ''*'')) (translate_mode_args key_arg map_uid cs adding rest m))
         else if c = ''l'' then (if adding then next_arg else translate_mode_args key_arg map_uid cs adding rest m)
         else if c = ''b'' \<or> c = ''e'' \<or> c = ''I'' then next_arg
         else translate_mode_args key_arg map_uid cs adding rest m)"

definition mode_args_to_ferrix :: "string \<Rightarrow> string list \<Rightarrow> uid_mapper \<Rightarrow> string list" where
  "mode_args_to_ferrix flags args m =
     (case translate_mode_args False (\<lambda>uid (). Some (Some (to_ferrix m uid), ())) (chars flags) True args () of
        Some (out, _) \<Rightarrow> out | None \<Rightarrow> [])"

definition member_prefix_str :: "member_prefix \<Rightarrow> string" where
  "member_prefix_str p = (if mp_op p then (if mp_voice p then ''@+'' else ''@'') else if mp_voice p then ''+'' else [])"

subsection \<open>Native frames in TS6\<close>

definition ts6_line :: "string \<Rightarrow> string \<Rightarrow> string list \<Rightarrow> string option \<Rightarrow> string" where
  "ts6_line src verb ps t =
     (let line = foldl line_param (line_command (line_server src) verb) ps
      in line_build (case t of Some t \<Rightarrow> line_trailing line t | None \<Rightarrow> line))"

definition with_alias :: "string \<Rightarrow> uid_mapper \<Rightarrow> (string \<Rightarrow> string list) \<Rightarrow> (string list \<times> uid_mapper) option" where
  "with_alias uid m lines =
     do { (alias, m) \<leftarrow> to_ts6 uid m; Some (case alias of Some alias \<Rightarrow> lines alias | None \<Rightarrow> [], m) }"

definition with_aliases ::
  "(uid_mapper \<Rightarrow> (string option \<times> uid_mapper) option) \<Rightarrow> (uid_mapper \<Rightarrow> (string option \<times> uid_mapper) option)
     \<Rightarrow> uid_mapper \<Rightarrow> (string \<Rightarrow> string \<Rightarrow> string list) \<Rightarrow> (string list \<times> uid_mapper) option" where
  "with_aliases f g m lines =
     do { (a, m) \<leftarrow> f m; (b, m) \<leftarrow> g m;
       Some (case (a, b) of (Some a, Some b) \<Rightarrow> lines a b | _ \<Rightarrow> [], m) }"

definition uid_for_source :: "server \<Rightarrow> string \<Rightarrow> uid_mapper \<Rightarrow> (string option \<times> uid_mapper) option" where
  "uid_for_source s source m =
     (let folded = fold_key s (source_nick_of source)
      in case find_client s folded of
           Some i \<Rightarrow> to_ts6 (local_uid s i) m
         | None \<Rightarrow>
             (case find_remote_user s folded of
                Some u \<Rightarrow> to_ts6 (ru_uid u) m
              | None \<Rightarrow> Some (None, m)))"

definition bridge_channel_ts :: "server \<Rightarrow> string \<Rightarrow> nat" where
  "bridge_channel_ts s channel =
     (case find_channel s (fold_key s channel) of Some h \<Rightarrow> ch_created_at (cdata s h) | None \<Rightarrow> now_unix s)"

definition frame_ts :: "server \<Rightarrow> string \<Rightarrow> nat \<Rightarrow> string" where
  "frame_ts s channel ts = dec (if 0 < ts then ts else bridge_channel_ts s channel)"

text \<open>A source that is an acting user, or the network itself.\<close>

definition state_source :: "server \<Rightarrow> string \<Rightarrow> uid_mapper \<Rightarrow> (string option \<times> uid_mapper) option" where
  "state_source s source m = (if source = ''*'' then Some (Some (si_sid (info s)), m) else to_ts6 source m)"

definition encode_uid :: "server \<Rightarrow> string list \<Rightarrow> string \<Rightarrow> string \<Rightarrow> string \<Rightarrow> string \<Rightarrow> string \<Rightarrow> string \<Rightarrow> string \<Rightarrow> string list" where
  "encode_uid s peer_caps sid nick user host account realname alias =
     (let ts = dec (now_unix s)
      in if ''EUID'' \<in> set peer_caps
         then [ts6_line sid ''EUID'' [nick, ''2'', ts, ''+i'', user, host, ''0'', alias, host, account] (Some realname)]
         else ts6_line sid ''UID'' [nick, ''2'', ts, ''+i'', user, host, ''0'', alias] (Some realname)
              # (if account \<noteq> ''*'' then [ts6_line (si_sid (info s)) ''ENCAP'' [''*'', ''SU'', alias, account] None] else []))"

definition encode_topic :: "string \<Rightarrow> string \<Rightarrow> nat \<Rightarrow> string \<Rightarrow> string \<Rightarrow> server \<Rightarrow> uid_mapper \<Rightarrow> string list \<Rightarrow> (string list \<times> uid_mapper) option" where
  "encode_topic channel source set_at set_by txt s m peer_caps =
     (if source = ''*'' then
        Some (if ''TB'' \<notin> set peer_caps \<or> txt = [] then []
              else [ts6_line (si_sid (info s)) ''TB'' [channel, dec set_at, set_by] (Some txt)], m)
      else with_alias source m (\<lambda>src. [ts6_line src ''TOPIC'' [channel] (Some txt)]))"

definition encode_modes :: "string \<Rightarrow> string \<Rightarrow> nat \<Rightarrow> string \<Rightarrow> string list \<Rightarrow> server \<Rightarrow> uid_mapper \<Rightarrow> (string list \<times> uid_mapper) option" where
  "encode_modes channel source ts flags args s m =
     do { (src, m) \<leftarrow> state_source s source m;
       case src of
         None \<Rightarrow> Some ([], m)
       | Some src \<Rightarrow>
           do { (args, m) \<leftarrow> translate_mode_args True to_ts6 (chars flags) True args m;
             Some ([ts6_line src ''TMODE'' ([frame_ts s channel ts, channel, flags] @ args) None], m) } }"

definition encode_outbound :: "link_message \<Rightarrow> server \<Rightarrow> uid_mapper \<Rightarrow> string list \<Rightarrow> (string list \<times> uid_mapper) option" where
  "encode_outbound msg s m peer_caps =
     (let our_sid = si_sid (info s); our_name = si_name (info s)
      in case msg of
        Uid sid uid lamport nick user host account realname \<Rightarrow>
          with_alias uid m (encode_uid s peer_caps sid nick user host account realname)
      | link_message.Nick uid nick \<Rightarrow> with_alias uid m (\<lambda>a. [ts6_line a ''NICK'' [nick] (Some (dec (now_unix s)))])
      | link_message.Quit uid reason \<Rightarrow> with_alias uid m (\<lambda>a. [ts6_line a ''QUIT'' [] (Some reason)])
      | UserMessage source target notice msgid time_ms tags txt \<Rightarrow>
          with_aliases (uid_for_source s source) (uid_for_source s target) m
            (\<lambda>src dst. [ts6_line src (if notice then ''NOTICE'' else ''PRIVMSG'') [dst] (Some txt)])
      | ChanMessage source channel notice msgid time_ms tags txt \<Rightarrow>
          do { (src, m) \<leftarrow> uid_for_source s source m;
            Some (case src of Some src \<Rightarrow> [ts6_line src (if notice then ''NOTICE'' else ''PRIVMSG'') [channel] (Some txt)] | None \<Rightarrow> [], m) }
      | Sjoin channel uid op voice ts \<Rightarrow>
          with_alias uid m (\<lambda>a. [ts6_line our_sid ''SJOIN'' [frame_ts s channel ts, channel, ''+'']
            (Some (member_prefix_str \<lparr>mp_op = op, mp_voice = voice\<rparr> @ a))])
      | Spart channel uid reason \<Rightarrow> with_alias uid m (\<lambda>a. [ts6_line a ''PART'' [channel] (Some reason)])
      | Stopic channel source set_by set_at txt \<Rightarrow> encode_topic channel source set_at set_by txt s m peer_caps
      | Smode channel source ts flags args \<Rightarrow> encode_modes channel source ts flags args s m
      | Skick channel source target reason \<Rightarrow>
          with_aliases (state_source s source) (to_ts6 target) m (\<lambda>src dst. [ts6_line src ''KICK'' [channel, dst] (Some reason)])
      | Saway uid reason \<Rightarrow> with_alias uid m (\<lambda>a. [ts6_line a ''AWAY'' [] reason])
      | Saccount uid account \<Rightarrow>
          with_alias uid m (\<lambda>a. [ts6_line our_sid ''ENCAP'' ([''*'', ''SU'', a] @ (if account = ''*'' then [] else [account])) None])
      | Kill uid reason \<Rightarrow> with_alias uid m (\<lambda>a. [ts6_line our_sid ''KILL'' [a] (Some (our_name @ '' ('' @ reason @ '')''))])
      | Ssetname uid realname \<Rightarrow> Some ([], m)
      | Sumode uid flags \<Rightarrow>
          with_alias uid m (\<lambda>a. if CHR ''o'' \<in> set flags
            then [ts6_line a ''MODE'' [a, if strip_prefix ''-'' flags \<noteq> None then ''-o'' else ''+o''] None] else [])
      | Sknock source channel msk \<Rightarrow> with_alias source m (\<lambda>a. [ts6_line a ''KNOCK'' [channel] None])
      | Sredact source target msgid reason \<Rightarrow> Some ([], m)
      | Srename source old new reason \<Rightarrow> Some ([], m)
      | TagMessage source target tags \<Rightarrow> Some ([], m)
      | Schghost uid host \<Rightarrow> with_alias uid m (\<lambda>a. [ts6_line our_sid ''ENCAP'' [''*'', ''CHGHOST'', a, host] None])
      | Swallops source txt \<Rightarrow> Some ([ts6_line source ''WALLOPS'' [] (Some txt)], m)
      | Sinvite source target channel \<Rightarrow>
          with_aliases (to_ts6 source) (to_ts6 target) m (\<lambda>src tgt. [ts6_line src ''INVITE'' [tgt, channel, dec (bridge_channel_ts s channel)] None])
      | Sban add msk set_by reason \<Rightarrow> Some ([], m)
      | Sserver name sid uplink description \<Rightarrow> Some ([ts6_line uplink ''SID'' [name, ''2'', sid] (Some description)], m)
      | Squit sid reason \<Rightarrow> Some ([ts6_line our_sid ''SQUIT'' [sid] (Some reason)], m)
      | Ping token \<Rightarrow> Some ([ts6_line our_sid ''PING'' [] (Some token)], m)
      | Pong token \<Rightarrow> Some ([ts6_line our_sid ''PONG'' [our_name] (Some token)], m)
      | Error reason \<Rightarrow> Some ([line_build (line_trailing (line_command line_bare ''ERROR'') reason)], m)
      | Pass token \<Rightarrow> Some ([], m)
      | Server name sid description \<Rightarrow> Some ([], m))"

subsection \<open>Aliases\<close>

lemma alpha: "k < 36 \<Longrightarrow> upper_or_digit (ALPHA ! k)"
proof -
  have "list_all upper_or_digit ALPHA" "length ALPHA = 36" by code_simp+
  then show "k < 36 \<Longrightarrow> upper_or_digit (ALPHA ! k)" by (simp add: list_all_length)
qed

lemma alpha_distinct: "distinct ALPHA" "length ALPHA = 36" "list_all is_ascii_upper (take 26 ALPHA)"
  by code_simp+

lemma digits_mod:
  "(\<And>i. i < k \<Longrightarrow> (a :: nat) div b ^ i mod b = c div b ^ i mod b) \<Longrightarrow> a mod b ^ k = c mod b ^ k"
proof (induction k)
  case (Suc k)
  have "x mod b ^ Suc k = b ^ k * (x div b ^ k mod b) + x mod b ^ k" for x
    using mod_mult2_eq [of x "b ^ k" b] by (simp add: mult.commute)
  then show ?case using Suc by simp
qed simp

lemma encode_id_inject:
  assumes "encode_id a = encode_id b" "a < 26 * 36 ^ 5" "b < 26 * 36 ^ 5"
  shows "a = b"
proof -
  have nth: "ALPHA ! i = ALPHA ! j \<longleftrightarrow> i = j" if "i < 36" "j < 36" for i j
    using that alpha_distinct by (simp add: nth_eq_iff_index_eq)
  have hd: "a div 36 ^ 5 mod 26 = b div 36 ^ 5 mod 26"
    using assms(1) nth [of "a div 36 ^ 5 mod 26" "b div 36 ^ 5 mod 26"] by (simp add: encode_id_def)
  have "\<forall>i \<in> set [4, 3, 2, 1, 0]. ALPHA ! (a mod 36 ^ 5 div 36 ^ i mod 36) = ALPHA ! (b mod 36 ^ 5 div 36 ^ i mod 36)"
    using assms(1) unfolding encode_id_def list.inject map_eq_conv by blast
  then have dig: "\<forall>i \<in> set [4, 3, 2, 1, 0]. a mod 36 ^ 5 div 36 ^ i mod 36 = b mod 36 ^ 5 div 36 ^ i mod 36"
    using nth by (simp only: nth mod_less_divisor)
  have "a mod 36 ^ 5 mod 36 ^ 5 = b mod 36 ^ 5 mod 36 ^ 5"
  proof (rule digits_mod)
    fix i :: nat assume "i < 5"
    then have "i \<in> set [4, 3, 2, 1, 0]" by auto
    then show "a mod 36 ^ 5 div 36 ^ i mod 36 = b mod 36 ^ 5 div 36 ^ i mod 36" using dig by blast
  qed
  moreover have "a div 36 ^ 5 < 26" "b div 36 ^ 5 < 26" using assms(2,3) by (simp_all add: less_mult_imp_div_less)
  ultimately have "a div 36 ^ 5 = b div 36 ^ 5" "a mod 36 ^ 5 = b mod 36 ^ 5" using hd by simp_all
  then show "a = b" by (metis div_mult_mod_eq)
qed

lemma encode_id_shape: "length (encode_id n) = 6" "list_all upper_or_digit (encode_id n)" "is_ascii_upper (encode_id n ! 0)"
proof -
  have "is_ascii_upper (ALPHA ! k)" if "k < 26" for k
    using alpha_distinct(2,3) that by (simp add: list_all_length)
  then show "length (encode_id n) = 6" "list_all upper_or_digit (encode_id n)" "is_ascii_upper (encode_id n ! 0)"
    by (simp_all add: encode_id_def alpha del: mod_mod_trivial)
qed

lemma upper_no_cont: "upper_or_digit c \<Longrightarrow> \<not> is_cont c"
  by (auto simp: upper_or_digit_def is_cont_def ascii_class_defs)

lemma alias_valid:
  assumes "valid_sid sid"
  shows "valid_uid (sid @ encode_id n) = Some True" "\<not> is_ascii_digit ((sid @ encode_id n) ! 3)"
proof -
  have l: "length sid = 3" using assms by (simp add: valid_sid_def)
  have "\<not> is_cont ((sid @ encode_id n) ! 3)"
    using l encode_id_shape upper_no_cont by (simp add: nth_append list_all_length)
  then have "str_get (sid @ encode_id n) 0 3 = Some sid" using l by (simp add: str_get_def char_boundary_def encode_id_shape)
  then show "valid_uid (sid @ encode_id n) = Some True" using assms l encode_id_shape(1,2) [of n] by (simp add: valid_uid_def)
  show "\<not> is_ascii_digit ((sid @ encode_id n) ! 3)"
    using l encode_id_shape(3) [of n] by (simp add: nth_append is_ascii_digit_def is_ascii_upper_def)
qed

text \<open>The two tables of a mapper are each other's inverse, and its aliases are those handed out so far.\<close>

definition mapper_ok :: "uid_mapper \<Rightarrow> bool" where
  "mapper_ok m \<longleftrightarrow>
     (\<forall>u a. get (um_to_ts6 m) u = Some a \<longleftrightarrow> get (um_to_ferrix m) a = Some u)
     \<and> (\<forall>u a. get (um_to_ts6 m) u = Some a \<longrightarrow>
          valid_uid u = Some False \<and> (\<exists>sid k. valid_sid sid \<and> a = sid @ encode_id k \<and> k < um_next m))"

lemma mapper_ok_new: "mapper_ok mapper_new"
  by (simp add: mapper_ok_def mapper_new_def)

text \<open>An identifier that cannot equal an alias: one that is not in TS6 shape, or one in TS6 shape with a digit after the server id.\<close>

definition own_shape :: "string \<Rightarrow> bool" where
  "own_shape u \<longleftrightarrow> valid_uid u = Some False \<or> valid_uid u = Some True \<and> is_ascii_digit (u ! 3)"

lemma to_ts6_alias:
  assumes "mapper_ok m" "to_ts6 u m = Some (Some a, m')" "um_next m < 26 * 36 ^ 5"
  shows "mapper_ok m'" "valid_uid a = Some True" "own_shape u \<Longrightarrow> to_ferrix m' a = u"
    "to_ts6 v m = Some (Some b, m) \<Longrightarrow> to_ts6 v m' = Some (Some b, m')"
proof -
  have inv: "get (um_to_ts6 m) u = Some a \<longleftrightarrow> get (um_to_ferrix m) a = Some u" for u a using assms(1) by (simp add: mapper_ok_def)
  have old: "valid_uid u = Some False \<and> (\<exists>sid k. valid_sid sid \<and> a = sid @ encode_id k \<and> k < um_next m)" if "get (um_to_ts6 m) u = Some a" for u a
    using assms(1) that by (auto simp: mapper_ok_def)
  have na: "get (um_to_ferrix m) x = None" if "is_ascii_digit (x ! 3)" for x
    using old inv that alias_valid(2) by (metis not_None_eq)
  consider (pass) "valid_uid u = Some True" "a = u" "m' = m"
    | (known) "valid_uid u = Some False" "get (um_to_ts6 m) u = Some a" "m' = m"
    | (new) sid where "valid_uid u = Some False" "get (um_to_ts6 m) u = None" "valid_sid sid" "a = sid @ encode_id (um_next m)"
        "m' = m\<lparr>um_next := um_next m + 1, um_to_ts6 := put u a (um_to_ts6 m), um_to_ferrix := put a u (um_to_ferrix m)\<rparr>"
    using assms(2) by (auto simp: to_ts6_def Let_def split: option.splits bool.splits if_splits)
  then have "mapper_ok m' \<and> valid_uid a = Some True \<and> (own_shape u \<longrightarrow> to_ferrix m' a = u)
      \<and> (to_ts6 v m = Some (Some b, m) \<longrightarrow> to_ts6 v m' = Some (Some b, m'))"
  proof cases
    case pass
    then show ?thesis using assms(1) na by (auto simp: own_shape_def to_ferrix_def split: option.split)
  next
    case known
    then obtain sid k where "valid_sid sid" "a = sid @ encode_id k" using old by blast
    then show ?thesis using known assms(1) inv alias_valid(1) by (simp add: to_ferrix_def)
  next
    case new
    have fresh: "get (um_to_ferrix m) a = None"
    proof (rule ccontr)
      assume "get (um_to_ferrix m) a \<noteq> None"
      then obtain w where "get (um_to_ts6 m) w = Some a" using inv by blast
      then obtain sid' k where k: "valid_sid sid'" "a = sid' @ encode_id k" "k < um_next m" using old by blast
      then have "encode_id k = encode_id (um_next m)" using new(3,4) by (simp add: valid_sid_def)
      then have "k = um_next m" by (rule encode_id_inject) (use k(3) assms(3) in simp_all)
      then show False using k(3) by simp
    qed
    have "mapper_ok m'"
      unfolding mapper_ok_def
    proof (intro conjI allI impI)
      show "get (um_to_ts6 m') x = Some y \<longleftrightarrow> get (um_to_ferrix m') y = Some x" for x y
        using inv [of x y] inv [of u y] inv [of x a] fresh new(2) by (auto simp: new(5) tbl split: if_splits)
      fix x y assume "get (um_to_ts6 m') x = Some y"
      then show "valid_uid x = Some False" using old new(1) by (auto simp: new(5) tbl split: if_splits)
      show "\<exists>sid k. valid_sid sid \<and> y = sid @ encode_id k \<and> k < um_next m'"
        using \<open>get (um_to_ts6 m') x = Some y\<close> old new(3,4) by (fastforce simp: new(5) tbl split: if_splits)
    qed
    moreover have "to_ferrix m' a = u" by (simp add: to_ferrix_def new(5) tbl)
    moreover have "to_ts6 v m' = Some (Some b, m')" if "to_ts6 v m = Some (Some b, m)"
    proof -
      have "valid_uid v = Some True \<and> b = v \<or> valid_uid v = Some False \<and> get (um_to_ts6 m) v = Some b"
        using that by (auto simp: to_ts6_def Let_def split: option.splits bool.splits if_splits) (metis n_not_Suc_n uid_mapper.select_convs(3) uid_mapper.surjective uid_mapper.update_convs)+
      then show ?thesis using new(2) by (auto simp: to_ts6_def new(5) tbl)
    qed
    ultimately show ?thesis using alias_valid(1) [OF new(3)] new(4) by simp
  qed
  then show "mapper_ok m'" "valid_uid a = Some True" "own_shape u \<Longrightarrow> to_ferrix m' a = u"
    "to_ts6 v m = Some (Some b, m) \<Longrightarrow> to_ts6 v m' = Some (Some b, m')" by blast+
qed

text \<open>A link's writer asks for one identifier after another.\<close>

fun allocate :: "string list \<Rightarrow> uid_mapper \<Rightarrow> (string option list \<times> uid_mapper) option" where
  "allocate [] m = Some ([], m)"
| "allocate (u # us) m = do { (a, m) \<leftarrow> to_ts6 u m; (as, m) \<leftarrow> allocate us m; Some (a # as, m) }"

lemma to_ts6_next: "to_ts6 u m = Some (a, m') \<Longrightarrow> um_next m \<le> um_next m' \<and> um_next m' \<le> um_next m + 1 \<and> (a = None \<longrightarrow> m' = m)"
  by (auto simp: to_ts6_def Let_def split: option.splits bool.splits if_splits)

lemma to_ts6_again: "mapper_ok m \<Longrightarrow> to_ts6 u m = Some (Some a, m') \<Longrightarrow> to_ts6 u m' = Some (Some a, m')"
  by (auto simp: to_ts6_def Let_def tbl split: option.splits bool.splits if_splits)

lemma to_ts6_known:
  assumes "mapper_ok m" "to_ts6 u m = Some (Some b, m)" "own_shape u"
  shows "to_ferrix m b = u"
proof -
  have ne: "m\<lparr>um_next := um_next m + 1, um_to_ts6 := x, um_to_ferrix := y\<rparr> \<noteq> m" for x y
    by (metis n_not_Suc_n Suc_eq_plus1 uid_mapper.select_convs(3) uid_mapper.surjective uid_mapper.update_convs)
  consider (pass) "valid_uid u = Some True" "b = u" | (known) "get (um_to_ts6 m) u = Some b"
    using assms(2) ne by (auto simp: to_ts6_def Let_def split: option.splits bool.splits if_splits)
  then show ?thesis
  proof cases
    case pass
    have "get (um_to_ferrix m) u = None"
    proof (rule ccontr)
      assume "get (um_to_ferrix m) u \<noteq> None"
      then obtain w sid k where "valid_sid sid" "u = sid @ encode_id k" using assms(1) unfolding mapper_ok_def by blast
      then show False using pass(1) assms(3) alias_valid(2) by (simp add: own_shape_def)
    qed
    then show ?thesis using pass by (simp add: to_ferrix_def)
  next
    case known
    then show ?thesis using assms(1) by (simp add: mapper_ok_def to_ferrix_def)
  qed
qed

lemma allocate_ok:
  "allocate us m = Some (as, m') \<Longrightarrow> mapper_ok m \<Longrightarrow> um_next m + length us \<le> 26 * 36 ^ 5 \<Longrightarrow>
     mapper_ok m' \<and> um_next m' \<le> um_next m + length us \<and> (\<forall>v b. to_ts6 v m = Some (Some b, m) \<longrightarrow> to_ts6 v m' = Some (Some b, m'))
     \<and> list_all2 (\<lambda>u a. \<forall>b. a = Some b \<longrightarrow> to_ts6 u m' = Some (Some b, m') \<and> (own_shape u \<longrightarrow> to_ferrix m' b = u) \<and> valid_uid b = Some True) us as"
proof (induction us arbitrary: m as)
  case (Cons u us)
  obtain a m1 as' where s: "to_ts6 u m = Some (a, m1)" "allocate us m1 = Some (as', m')" "as = a # as'"
    using Cons.prems(1) by (auto simp: bind_eq_Some_conv split: prod.splits)
  note n = to_ts6_next [OF s(1)]
  have lt: "um_next m < 26 * 36 ^ 5" using Cons.prems(3) by simp
  have ok: "mapper_ok m1"
  proof (cases a)
    case None
    then have "m1 = m" using n by blast
    then show ?thesis using Cons.prems(2) by (rule ssubst)
  next
    case (Some b)
    show ?thesis by (rule to_ts6_alias(1) [OF Cons.prems(2) s(1) [unfolded Some] lt])
  qed
  have le: "um_next m1 + length us \<le> 26 * 36 ^ 5" using conjunct1 [OF conjunct2 [OF n]] Cons.prems(3) by simp
  note ih = Cons.IH [OF s(2) ok le]
  have keep: "to_ts6 v m1 = Some (Some b, m1)" if "to_ts6 v m = Some (Some b, m)" for v b
  proof (cases a)
    case None
    then have "m1 = m" using n by blast
    then show ?thesis using that by (rule ssubst)
  next
    case (Some x)
    show ?thesis by (rule to_ts6_alias(4) [OF Cons.prems(2) s(1) [unfolded Some] lt that])
  qed
  have hd: "to_ts6 u m' = Some (Some b, m') \<and> (own_shape u \<longrightarrow> to_ferrix m' b = u) \<and> valid_uid b = Some True" if "a = Some b" for b
  proof -
    have a: "to_ts6 u m = Some (Some b, m1)" using s(1) that by simp
    have again: "to_ts6 u m' = Some (Some b, m')" using ih to_ts6_again [OF Cons.prems(2) a] by blast
    have v: "valid_uid b = Some True" by (rule to_ts6_alias(2) [OF Cons.prems(2) a lt])
    have "own_shape u \<Longrightarrow> to_ferrix m' b = u" using to_ts6_known [OF _ again] ih by blast
    then show ?thesis using again v by blast
  qed
  have "um_next m' \<le> um_next m + length (u # us)" using conjunct1 [OF conjunct2 [OF ih]] conjunct1 [OF conjunct2 [OF n]] by simp
  moreover have "\<forall>v b. to_ts6 v m = Some (Some b, m) \<longrightarrow> to_ts6 v m' = Some (Some b, m')" using ih keep by blast
  moreover have "list_all2 (\<lambda>u a. \<forall>b. a = Some b \<longrightarrow> to_ts6 u m' = Some (Some b, m') \<and> (own_shape u \<longrightarrow> to_ferrix m' b = u) \<and> valid_uid b = Some True) (u # us) as"
    unfolding s(3) list_all2_Cons using ih hd by blast
  ultimately show ?case using ih by blast
qed simp

text \<open>C38: the aliases of a link lead back. Whatever identifiers are said to a TS6 peer and in whatever order, as long as they are
  no more than there are aliases, each one it is given is a proper TS6 identifier, and when the peer sends it back it is
  translated to the identifier it was given for, also after all the others were handed out. This is for identifiers that are not
  in the shape of TS6, as those of a native server, and for those that are with a digit after the server id; one with a letter
  there may equal an alias.\<close>

theorem aliases_lead_back:
  assumes "allocate us mapper_new = Some (as, m)" "length us \<le> 26 * 36 ^ 5" "i < length us" "as ! i = Some a" "own_shape (us ! i)"
  shows "to_ferrix m a = us ! i \<and> valid_uid a = Some True"
  using allocate_ok [OF assms(1) mapper_ok_new] assms(2-5) by (simp add: mapper_new_def list_all2_conv_all_nth)

lemma aliases_lead_back_witness:
  "\<exists>m. allocate [''0AB17'', ''0AB123456'', ''xyz1''] mapper_new = Some ([Some ''0ABAAAAAA'', Some ''0AB123456'', None], m) \<and> to_ferrix m ''0ABAAAAAA'' = ''0AB17''"
proof -
  have v: "valid_uid ''0AB17'' = Some False" "valid_uid ''0AB123456'' = Some True" "valid_uid ''xyz1'' = Some False"
    "str_get ''0AB17'' 0 3 = Some ''0AB''" "str_get ''xyz1'' 0 3 = Some ''xyz''" "valid_sid ''0AB''" "\<not> valid_sid ''xyz''" by code_simp+
  have e: "encode_id 0 = ''AAAAAA''" by (simp add: encode_id_def ALPHA_def)
  have a: "allocate [''0AB17'', ''0AB123456'', ''xyz1''] mapper_new
     = Some ([Some ''0ABAAAAAA'', Some ''0AB123456'', None], \<lparr>um_to_ts6 = [(''0AB17'', ''0ABAAAAAA'')], um_to_ferrix = [(''0ABAAAAAA'', ''0AB17'')], um_next = 1\<rparr>)"
    by (simp add: to_ts6_def v e mapper_new_def Let_def)
  have "own_shape ''0AB17''" by (simp add: own_shape_def v)
  then show ?thesis using aliases_lead_back [OF a, of 0 "''0ABAAAAAA''"] a by simp
qed

text \<open>An identifier of nine octets with a character across its third octet stops the task that meets it.\<close>

lemma valid_uid_panics: "valid_uid (''0B'' @ [CHR 0xC3, CHR 0xA9] @ ''12345'') = None"
  by code_simp

end
