(* ===== verification/Bridge.thy ===== *)
theory Bridge
  imports Ts6 Origin
begin

text \<open>
  The TS6 side of a link (\<open>ferrixd/src/link.rs\<close>): the handshake, the handler of every event, the read loop and the writer. The
  alias table belongs to the writer and the reader of a link together; the reader only looks names up in it.
\<close>

subsection \<open>The handshake\<close>

definition TS6_HANDSHAKE_MAX_LINES :: nat where "TS6_HANDSHAKE_MAX_LINES = 32"

definition ts6_bare :: "string \<Rightarrow> string list \<Rightarrow> string \<Rightarrow> string" where
  "ts6_bare verb ps t = line_build (line_trailing (foldl line_param (line_command line_bare verb) ps) t)"

definition ts6_sends :: "string \<Rightarrow> server \<Rightarrow> string list" where
  "ts6_sends token s =
     [ts6_bare ''PASS'' [token, ''TS'', ''6''] (si_sid (info s)), ts6_bare ''CAPAB'' [] OUR_CAPAB,
      ts6_bare ''SERVER'' [si_name (info s), ''1''] (si_network (info s))]"

record ts6_peer =
  tp_caps :: "string list"
  tp_peer_sid :: "string option"
  tp_peer_name :: "string option"
  tp_peer_desc :: string

definition ts6_nobody :: ts6_peer where
  "ts6_nobody = \<lparr>tp_caps = [], tp_peer_sid = None, tp_peer_name = None, tp_peer_desc = []\<rparr>"

datatype ts6_failure = NeverCompleted | LinkClosed | PasswordMismatch | MalformedSid | UnexpectedName | TooOld | PeerError

text \<open>One event of the handshake.\<close>

definition ts6_greet :: "string \<Rightarrow> string \<Rightarrow> ts6_in \<Rightarrow> ts6_peer \<Rightarrow> ts6_failure + ts6_peer" where
  "ts6_greet token expected_peer ev p =
     (case ev of
        Ts6Pass password sid \<Rightarrow>
          if \<not> tokens_match password token then Inl PasswordMismatch
          else if \<not> valid_sid sid then Inl MalformedSid
          else Inr (p\<lparr>tp_peer_sid := Some sid\<rparr>)
      | Ts6Capab caps \<Rightarrow> Inr (p\<lparr>tp_caps := tp_caps p @ caps\<rparr>)
      | Ts6Server name description \<Rightarrow>
          if name \<noteq> expected_peer then Inl UnexpectedName
          else Inr (p\<lparr>tp_peer_desc := description, tp_peer_name := Some name\<rparr>)
      | Ts6Svinfo mx mn \<Rightarrow> if mx < 6 then Inl TooOld else Inr p
      | Ts6Error reason \<Rightarrow> Inl PeerError
      | _ \<Rightarrow> Inr p)"

text \<open>The lines read until the peer is known, and those that are left. \<open>n\<close> counts the lines.\<close>

fun ts6_handshake :: "string \<Rightarrow> string \<Rightarrow> nat \<Rightarrow> string list \<Rightarrow> ts6_peer \<Rightarrow> ts6_failure + ts6_peer \<times> string list" where
  "ts6_handshake token expected_peer n frames p =
     (if tp_peer_sid p \<noteq> None \<and> tp_peer_name p \<noteq> None then Inr (p, frames)
      else if TS6_HANDSHAKE_MAX_LINES < n + 1 then Inl NeverCompleted
      else case frames of
             [] \<Rightarrow> Inl LinkClosed
           | frame # rest \<Rightarrow>
               (case message_parse frame of
                  Inl _ \<Rightarrow> ts6_handshake token expected_peer (n + 1) rest p
                | Inr parsed \<Rightarrow>
                    (case ts6_greet token expected_peer (parse_ts6 parsed) p of
                       Inl e \<Rightarrow> Inl e
                     | Inr p \<Rightarrow> ts6_handshake token expected_peer (n + 1) rest p)))"

declare ts6_handshake.simps [simp del]

subsection \<open>The handler\<close>

text \<open>Who acts: a server of the peer acts as the network, a user as itself.\<close>

definition ts6_actor :: "server \<Rightarrow> string \<Rightarrow> string \<Rightarrow> bool \<times> string" where
  "ts6_actor s peer_sid source =
     (if valid_sid source then (source = peer_sid \<or> route_owner s source = Some peer_sid, ''*'')
      else (remote_uid_authorized s peer_sid source, source))"

definition ts6_sjoin_member :: "string \<Rightarrow> string \<Rightarrow> nat \<Rightarrow> string \<times> member_prefix \<Rightarrow> server \<Rightarrow> server" where
  "ts6_sjoin_member peer_sid channel ts mem s =
     (case mem of (uid, mp) \<Rightarrow>
        snd (from_user peer_sid uid (Sjoin channel uid (mp_op mp) (mp_voice mp) ts) (remote_join channel uid mp ts) s))"

definition ts6_sjoin :: "string \<Rightarrow> uid_mapper \<Rightarrow> string \<Rightarrow> nat \<Rightarrow> (string \<times> member_prefix) list \<Rightarrow> string \<Rightarrow> string list \<Rightarrow> server \<Rightarrow> outcome" where
  "ts6_sjoin peer_sid m channel ts members flags args s =
     (let s = fold (ts6_sjoin_member peer_sid channel ts) members s
      in if 1 < length flags then
           (let args = mode_args_to_ferrix flags args m
            in forwarded peer_sid (Smode channel ''*'' ts flags args) (remote_mode channel ''*'' ts flags args s))
         else (True, s))"

definition ts6_part :: "string \<Rightarrow> string \<Rightarrow> string \<Rightarrow> string \<Rightarrow> server \<Rightarrow> outcome" where
  "ts6_part peer_sid uid chs reason s =
     (True,
      if remote_uid_authorized s peer_sid uid then
        fold (\<lambda>channel s. snd (forwarded peer_sid (Spart channel uid reason) (remote_part channel uid reason s)))
          (filter (\<lambda>c. c \<noteq> []) (split_on CHR '',''  chs)) s
      else s)"

definition is_channel_target :: "string \<Rightarrow> bool" where
  "is_channel_target target \<longleftrightarrow> target \<noteq> [] \<and> (hd target = CHR ''#'' \<or> hd target = CHR ''&'')"

definition ts6_msg :: "string \<Rightarrow> uid_mapper \<Rightarrow> string \<Rightarrow> string \<Rightarrow> bool \<Rightarrow> string \<Rightarrow> server \<Rightarrow> outcome" where
  "ts6_msg peer_sid m source target notice txt s =
     (True,
      if \<not> remote_uid_authorized s peer_sid source then s
      else
        (let msk = remote_source_mask s source
         in if is_channel_target target then deliver_channel_message peer_sid msk target notice None None None txt s
            else deliver_remote_message msk (case nick_of_uid s (to_ferrix m target) of Some nick \<Rightarrow> nick | None \<Rightarrow> target)
                   notice None None None txt s))"

definition ts6_tmode :: "string \<Rightarrow> uid_mapper \<Rightarrow> string \<Rightarrow> string \<Rightarrow> nat \<Rightarrow> string \<Rightarrow> string list \<Rightarrow> server \<Rightarrow> outcome" where
  "ts6_tmode peer_sid m source channel ts flags args s =
     (let (authorized, source) = ts6_actor s peer_sid source
      in if \<not> authorized then (True, s)
         else
           (let args = mode_args_to_ferrix flags args m
            in forwarded peer_sid (Smode channel source ts flags args) (remote_mode channel source ts flags args s)))"

definition ts6_kick :: "string \<Rightarrow> uid_mapper \<Rightarrow> string \<Rightarrow> string \<Rightarrow> string \<Rightarrow> string \<Rightarrow> server \<Rightarrow> outcome" where
  "ts6_kick peer_sid m source channel target reason s =
     (let (authorized, source) = ts6_actor s peer_sid source
      in if \<not> authorized then (True, s)
         else
           (let target = to_ferrix m target
            in forwarded peer_sid (Skick channel source target reason) (remote_kick channel source target reason s)))"

definition ts6_topic :: "string \<Rightarrow> string \<Rightarrow> string \<Rightarrow> string \<Rightarrow> server \<Rightarrow> outcome" where
  "ts6_topic peer_sid source channel txt s =
     (if \<not> remote_uid_authorized s peer_sid source then (True, s)
      else
        (let set_by = (case nick_of_uid s source of Some nick \<Rightarrow> nick | None \<Rightarrow> source); set_at = now_unix s
         in forwarded peer_sid (Stopic channel source set_by set_at txt) (remote_topic channel source set_by set_at txt s)))"

definition ts6_kill :: "string \<Rightarrow> string \<Rightarrow> string \<Rightarrow> server \<Rightarrow> outcome" where
  "ts6_kill peer_sid uid reason s =
     (if owns_local_uid s uid then (True, kill_by_uid uid reason s)
      else if remote_uid_authorized s peer_sid uid then forwarded peer_sid (Kill uid reason) (kill_by_uid uid reason s)
      else (True, s))"

definition ts6_wallops :: "string \<Rightarrow> string \<Rightarrow> string \<Rightarrow> server \<Rightarrow> outcome" where
  "ts6_wallops peer_sid source txt s =
     (let msk = remote_source_mask s source in forwarded peer_sid (Swallops msk txt) (remote_wallops msk txt s))"

definition ts6_invite :: "string \<Rightarrow> string \<Rightarrow> string \<Rightarrow> string \<Rightarrow> server \<Rightarrow> outcome" where
  "ts6_invite peer_sid source target channel s =
     (if \<not> remote_uid_authorized s peer_sid source then (True, s)
      else if owns_local_uid s target then (True, remote_invite source target channel s)
      else case remote_user_by_uid s target of
             Some user \<Rightarrow> (True, snd (send_towards (ru_server_sid user) (to_line (Sinvite source target channel)) s))
           | None \<Rightarrow> (True, s))"

definition ts6_save :: "string \<Rightarrow> string \<Rightarrow> server \<Rightarrow> outcome" where
  "ts6_save peer_sid uid s =
     (if remote_uid_authorized s peer_sid uid then
        (case remote_nick_change uid uid s of
           (None, s) \<Rightarrow> forwarded peer_sid (link_message.Nick uid uid) s
         | (Some _, s) \<Rightarrow> (True, s))
      else (True, s))"

definition account_or_star :: "string option \<Rightarrow> string" where
  "account_or_star account = (case account of Some a \<Rightarrow> a | None \<Rightarrow> ''*'')"

definition ts6_handle :: "string \<Rightarrow> uid_mapper \<Rightarrow> ts6_in \<Rightarrow> server \<Rightarrow> outcome" where
  "ts6_handle peer_sid m ev s =
     (case ev of
        Ts6Sid name sid uplink description \<Rightarrow>
          (let uplink = (case uplink of Some u \<Rightarrow> u | None \<Rightarrow> peer_sid)
           in handle_sserver peer_sid (Sserver name sid uplink description)
                \<lparr>rs_sid = sid, rs_name = name, rs_uplink = uplink, rs_description = description\<rparr> s)
      | Ts6Euid sid uid nick user host account realname \<Rightarrow>
          (let sid = (case sid of Some x \<Rightarrow> x | None \<Rightarrow> peer_sid)
           in handle_uid peer_sid (Uid sid uid 0 nick user host (account_or_star account) realname) sid uid
                \<lparr>ru_server_sid = sid, ru_uid = uid, ru_nick = nick, ru_user = user, ru_host = host,
                 ru_account = account, ru_realname = realname, ru_away = None, ru_oper = False,
                 ru_invisible = False, ru_bot = False\<rparr> s)
      | Ts6Nick uid nick \<Rightarrow> handle_nick peer_sid uid nick s
      | Ts6Quit uid reason \<Rightarrow> from_user peer_sid uid (link_message.Quit uid reason) (remote_quit uid reason) s
      | Ts6Sjoin channel ts members flags args \<Rightarrow> ts6_sjoin peer_sid m channel ts members flags args s
      | Ts6Join uid channel ts \<Rightarrow>
          from_user peer_sid uid (Sjoin channel uid False False ts) (remote_join channel uid prefix_default ts) s
      | Ts6Part uid chs reason \<Rightarrow> ts6_part peer_sid uid chs reason s
      | Ts6Msg source target notice txt \<Rightarrow> ts6_msg peer_sid m source target notice txt s
      | Ts6Tmode source channel ts flags args \<Rightarrow> ts6_tmode peer_sid m source channel ts flags args s
      | Ts6Kick source channel target reason \<Rightarrow> ts6_kick peer_sid m source channel target reason s
      | Ts6Topic source channel txt \<Rightarrow> ts6_topic peer_sid source channel txt s
      | Ts6Tb channel set_at set_by txt \<Rightarrow>
          forwarded peer_sid (Stopic channel ''*'' set_by set_at txt) (remote_topic channel ''*'' set_by set_at txt s)
      | Ts6Away uid reason \<Rightarrow> from_user peer_sid uid (Saway uid reason) (remote_away uid reason) s
      | Ts6Kill target reason \<Rightarrow> ts6_kill peer_sid (to_ferrix m target) reason s
      | Ts6Login uid account \<Rightarrow> from_user peer_sid uid (Saccount uid (account_or_star account)) (remote_account uid account) s
      | Ts6Wallops source txt \<Rightarrow> ts6_wallops peer_sid source txt s
      | Ts6ChgHost uid host \<Rightarrow>
          (let uid = to_ferrix m uid in from_user peer_sid uid (Schghost uid host) (remote_chghost uid host) s)
      | Ts6Invite source target channel \<Rightarrow> ts6_invite peer_sid (to_ferrix m source) (to_ferrix m target) channel s
      | Ts6Save uid \<Rightarrow> ts6_save peer_sid (to_ferrix m uid) s
      | Ts6Ping origin \<Rightarrow> (True, snd (send_to_link peer_sid (to_line (Pong origin)) s))
      | Ts6Squit sid reason \<Rightarrow> handle_squit peer_sid sid reason s
      | Ts6Error reason \<Rightarrow> (False, s)
      | Ts6Unknown cmd \<Rightarrow> (True, s)
      | Ts6Pass password sid \<Rightarrow> (True, s)
      | Ts6Capab caps \<Rightarrow> (True, s)
      | Ts6Server name description \<Rightarrow> (True, s)
      | Ts6Svinfo mx mn \<Rightarrow> (True, s)
      | Ts6Ignore \<Rightarrow> (True, s))"

subsection \<open>The loop, the writer and the life of a link\<close>

definition ts6_handle_frame :: "string \<Rightarrow> uid_mapper \<Rightarrow> string \<Rightarrow> server \<Rightarrow> outcome" where
  "ts6_handle_frame peer_sid m frame s =
     (case message_parse frame of
        Inl _ \<Rightarrow> (True, s)
      | Inr parsed \<Rightarrow> ts6_handle peer_sid m (parse_ts6 parsed) s)"

text \<open>The frames of a peer, each with the alias table as the writer has left it by then.\<close>

primrec ts6_read_loop :: "string \<Rightarrow> (uid_mapper \<times> string) list \<Rightarrow> server \<Rightarrow> server" where
  "ts6_read_loop peer_sid [] s = s"
| "ts6_read_loop peer_sid (x # xs) s =
     (case x of (m, frame) \<Rightarrow>
        (case ts6_handle_frame peer_sid m frame s of
           (True, s) \<Rightarrow> ts6_read_loop peer_sid xs s
         | (False, s) \<Rightarrow> s))"

text \<open>The writer: what one queued frame becomes. The last two octets of a queued frame are its line ending.\<close>

definition ts6_write :: "server \<Rightarrow> string list \<Rightarrow> string \<Rightarrow> uid_mapper \<Rightarrow> (string list \<times> uid_mapper) option" where
  "ts6_write s caps bytes m =
     (case message_parse (take (length bytes - 2) bytes) of
        Inl _ \<Rightarrow> Some ([], m)
      | Inr parsed \<Rightarrow>
          (case from_message parsed of
             None \<Rightarrow> Some ([], m)
           | Some msg \<Rightarrow> encode_outbound msg s m caps))"

definition establish_ts6 :: "string \<Rightarrow> string \<Rightarrow> string list \<Rightarrow> (nat \<Rightarrow> uid_mapper) \<Rightarrow> server \<Rightarrow> server" where
  "establish_ts6 token expected_peer frames mappers s =
     (if \<not> valid_sid (si_sid (info s)) then s
      else case ts6_handshake token expected_peer 0 frames ts6_nobody of
             Inl _ \<Rightarrow> s
           | Inr (p, rest) \<Rightarrow>
               (let sid = the (tp_peer_sid p); name = the (tp_peer_name p)
                in case link_up sid name (tp_peer_desc p) s of
                     (Inl _, s) \<Rightarrow> s
                   | (Inr _, s) \<Rightarrow>
                       (let s = snd (send_to_link sid (to_line (Ping (si_name (info s)))) s)
                        in drop_link sid (ts6_read_loop sid (zip (map mappers [0..<length rest]) rest) s))))"

subsection \<open>The handshake admits only the configured peer\<close>

text \<open>What a finished handshake has heard: \<open>P\<close> holds of some event among the lines read.\<close>

definition heard :: "string list \<Rightarrow> (ts6_in \<Rightarrow> bool) \<Rightarrow> bool" where
  "heard frames P \<longleftrightarrow> (\<exists>frame \<in> set frames. \<exists>parsed. message_parse frame = Inr parsed \<and> P (parse_ts6 parsed))"

lemma heard_mono: "heard fs P \<Longrightarrow> set fs \<subseteq> set gs \<Longrightarrow> heard gs P"
  by (auto simp: heard_def)

lemma heard_hd: "message_parse f = Inr q \<Longrightarrow> P (parse_ts6 q) \<Longrightarrow> heard (f # fs) P"
  by (auto simp: heard_def)

lemma ts6_greet_heard:
  assumes "ts6_greet token expected ev p = Inr q"
  shows "tp_peer_sid q = tp_peer_sid p \<or> (\<exists>pw sid. ev = Ts6Pass pw sid \<and> tokens_match pw token \<and> valid_sid sid \<and> tp_peer_sid q = Some sid)"
    "(tp_peer_name q = tp_peer_name p \<and> tp_peer_desc q = tp_peer_desc p) \<or> (\<exists>desc. ev = Ts6Server expected desc \<and> tp_peer_name q = Some expected \<and> tp_peer_desc q = desc)"
  using assms by (auto simp: ts6_greet_def split: ts6_in.splits if_splits)

lemma ts6_handshake_Cons:
  assumes "ts6_handshake token expected n (f # fs) p = Inr r" "\<not> (tp_peer_sid p \<noteq> None \<and> tp_peer_name p \<noteq> None)"
  shows "n + 1 \<le> TS6_HANDSHAKE_MAX_LINES"
    "message_parse f = Inl e \<Longrightarrow> ts6_handshake token expected (n + 1) fs p = Inr r"
    "message_parse f = Inr q \<Longrightarrow> \<exists>p'. ts6_greet token expected (parse_ts6 q) p = Inr p' \<and> ts6_handshake token expected (n + 1) fs p' = Inr r"
proof -
  have n: "\<not> TS6_HANDSHAKE_MAX_LINES < n + 1"
    and eq: "(case message_parse f of Inl _ \<Rightarrow> ts6_handshake token expected (n + 1) fs p
       | Inr parsed \<Rightarrow> (case ts6_greet token expected (parse_ts6 parsed) p of
            Inl e \<Rightarrow> Inl e | Inr p \<Rightarrow> ts6_handshake token expected (n + 1) fs p)) = Inr r"
    using assms by (subst (asm) ts6_handshake.simps, simp only: if_False list.case split: if_splits; simp)+
  show "n + 1 \<le> TS6_HANDSHAKE_MAX_LINES" using n by simp
  show "ts6_handshake token expected (n + 1) fs p = Inr r" if "message_parse f = Inl e" using eq that by simp
  show "\<exists>p'. ts6_greet token expected (parse_ts6 q) p = Inr p' \<and> ts6_handshake token expected (n + 1) fs p' = Inr r"
    if "message_parse f = Inr q" using eq that by (simp split: sum.splits)
qed

lemma ts6_handshake_heard:
  "ts6_handshake token expected n frames p = Inr (q, rest) \<Longrightarrow>
     \<exists>used. frames = used @ rest \<and> n + length used \<le> max n TS6_HANDSHAKE_MAX_LINES
     \<and> tp_peer_sid q \<noteq> None \<and> tp_peer_name q \<noteq> None
     \<and> (tp_peer_sid q = tp_peer_sid p \<or> heard used (\<lambda>ev. \<exists>pw. ev = Ts6Pass pw (the (tp_peer_sid q)) \<and> tokens_match pw token \<and> valid_sid (the (tp_peer_sid q))))
     \<and> (tp_peer_name q = tp_peer_name p \<or> tp_peer_name q = Some expected \<and> heard used (\<lambda>ev. \<exists>d. ev = Ts6Server expected d))"
proof (induction frames arbitrary: n p)
  case Nil
  then show ?case by (auto simp: ts6_handshake.simps [of token expected n "[]"] split: if_splits)
next
  case (Cons f fs)
  show ?case
  proof (cases "tp_peer_sid p \<noteq> None \<and> tp_peer_name p \<noteq> None")
    case True
    then show ?thesis using Cons.prems by (auto simp: ts6_handshake.simps [of token expected n])
  next
    case False
    note step = ts6_handshake_Cons [OF Cons.prems False]
    note n = step(1)
    show ?thesis
    proof (cases "message_parse f")
      case (Inl e)
      then have "ts6_handshake token expected (n + 1) fs p = Inr (q, rest)"
        by (rule step(2))
      from Cons.IH [OF this] obtain used where u: "fs = used @ rest" "n + 1 + length used \<le> max (n + 1) TS6_HANDSHAKE_MAX_LINES"
        "tp_peer_sid q \<noteq> None" "tp_peer_name q \<noteq> None"
        "tp_peer_sid q = tp_peer_sid p \<or> heard used (\<lambda>ev. \<exists>pw. ev = Ts6Pass pw (the (tp_peer_sid q)) \<and> tokens_match pw token \<and> valid_sid (the (tp_peer_sid q)))"
        "tp_peer_name q = tp_peer_name p \<or> tp_peer_name q = Some expected \<and> heard used (\<lambda>ev. \<exists>d. ev = Ts6Server expected d)" by blast
      then show ?thesis using n by (intro exI [of _ "f # used"]) (auto intro: heard_mono)
    next
      case (Inr parsed)
      then obtain p' where g: "ts6_greet token expected (parse_ts6 parsed) p = Inr p'"
        and rec: "ts6_handshake token expected (n + 1) fs p' = Inr (q, rest)"
        using step(3) by blast
      from Cons.IH [OF rec] obtain used where u: "fs = used @ rest" "n + 1 + length used \<le> max (n + 1) TS6_HANDSHAKE_MAX_LINES"
        "tp_peer_sid q \<noteq> None" "tp_peer_name q \<noteq> None"
        "tp_peer_sid q = tp_peer_sid p' \<or> heard used (\<lambda>ev. \<exists>pw. ev = Ts6Pass pw (the (tp_peer_sid q)) \<and> tokens_match pw token \<and> valid_sid (the (tp_peer_sid q)))"
        "tp_peer_name q = tp_peer_name p' \<or> tp_peer_name q = Some expected \<and> heard used (\<lambda>ev. \<exists>d. ev = Ts6Server expected d)" by blast
      have "tp_peer_sid q = tp_peer_sid p \<or> heard (f # used) (\<lambda>ev. \<exists>pw. ev = Ts6Pass pw (the (tp_peer_sid q)) \<and> tokens_match pw token \<and> valid_sid (the (tp_peer_sid q)))"
        using u(5) ts6_greet_heard(1) [OF g] heard_mono [of used _ "f # used"] heard_hd [OF Inr] by fastforce
      moreover have "tp_peer_name q = tp_peer_name p \<or> tp_peer_name q = Some expected \<and> heard (f # used) (\<lambda>ev. \<exists>d. ev = Ts6Server expected d)"
        using u(6) ts6_greet_heard(2) [OF g] heard_mono [of used _ "f # used"] heard_hd [OF Inr] by fastforce
      ultimately show ?thesis using u n by (intro exI [of _ "f # used"]) simp
    qed
  qed
qed

text \<open>C21: a TS6 peer is admitted only when, among the first 32 lines it sent, one line gave the configured link password with
  the server id the link is then registered under, that id is well formed, and one line gave the configured server name.\<close>

theorem ts6_handshake_authenticates:
  assumes "ts6_handshake token expected_peer 0 frames ts6_nobody = Inr (peer, rest)"
  shows "\<exists>used sid. frames = used @ rest \<and> length used \<le> 32 \<and> tp_peer_sid peer = Some sid \<and> valid_sid sid
     \<and> tp_peer_name peer = Some expected_peer
     \<and> heard used (\<lambda>ev. ev = Ts6Pass token sid) \<and> heard used (\<lambda>ev. \<exists>desc. ev = Ts6Server expected_peer desc)"
proof -
  have pass: "heard used (\<lambda>ev. \<exists>pw. ev = Ts6Pass pw sid \<and> tokens_match pw token \<and> valid_sid sid) \<Longrightarrow>
      valid_sid sid \<and> heard used (\<lambda>ev. ev = Ts6Pass token sid)" for used sid
    by (auto simp: heard_def tokens_match_def)
  show ?thesis
    using ts6_handshake_heard [OF assms] pass by (fastforce simp: ts6_nobody_def TS6_HANDSHAKE_MAX_LINES_def)
qed

lemma ts6_handshake_authenticates_witness:
  "\<exists>peer. ts6_handshake ''sesame'' ''hub.example'' 0 [''PASS sesame TS 6 :0BB'', ''CAPAB :QS EX'', ''SERVER hub.example 1 :Hub'', ''PING :x''] ts6_nobody
      = Inr (peer, [''PING :x''])
    \<and> heard [''PASS sesame TS 6 :0BB'', ''CAPAB :QS EX'', ''SERVER hub.example 1 :Hub''] (\<lambda>ev. ev = Ts6Pass ''sesame'' ''0BB'')"
proof -
  have h: "ts6_handshake ''sesame'' ''hub.example'' 0 [''PASS sesame TS 6 :0BB'', ''CAPAB :QS EX'', ''SERVER hub.example 1 :Hub'', ''PING :x''] ts6_nobody
    = Inr (\<lparr>tp_caps = [''QS'', ''EX''], tp_peer_sid = Some ''0BB'', tp_peer_name = Some ''hub.example'', tp_peer_desc = ''Hub''\<rparr>, [''PING :x''])"
    by code_simp
  have "used = [''PASS sesame TS 6 :0BB'', ''CAPAB :QS EX'', ''SERVER hub.example 1 :Hub'']"
    if "[''PASS sesame TS 6 :0BB'', ''CAPAB :QS EX'', ''SERVER hub.example 1 :Hub'', ''PING :x''] = used @ [''PING :x'']" for used
    using that by (metis append1_eq_conv append_Cons append_Nil)
  then have "heard [''PASS sesame TS 6 :0BB'', ''CAPAB :QS EX'', ''SERVER hub.example 1 :Hub''] (\<lambda>ev. ev = Ts6Pass ''sesame'' ''0BB'')"
    using ts6_handshake_authenticates [OF h] by (elim exE conjE) simp
  then show ?thesis using h by (intro exI conjI)
qed

text \<open>The handshake stops as soon as the id and the name are known, so the version of a peer that sends its SVINFO last, as
  the protocol has it, is never looked at: not by the handshake, and not by the handler.\<close>

lemma ts6_version_unchecked:
  "ts6_handshake ''sesame'' ''hub.example'' 0 [''PASS sesame TS 6 :0BB'', ''SERVER hub.example 1 :Hub'', ''SVINFO 3 3 0 :0''] ts6_nobody
     = Inr (\<lparr>tp_caps = [], tp_peer_sid = Some ''0BB'', tp_peer_name = Some ''hub.example'', tp_peer_desc = ''Hub''\<rparr>, [''SVINFO 3 3 0 :0''])
   \<and> ts6_handle ''0BB'' mapper_new (Ts6Svinfo 3 3) s = (True, s)
   \<and> ts6_greet ''sesame'' ''hub.example'' (Ts6Svinfo 3 3) ts6_nobody = Inl TooOld"
proof (intro conjI)
  show "ts6_handle ''0BB'' mapper_new (Ts6Svinfo 3 3) s = (True, s)" by (simp add: ts6_handle_def)
  show "ts6_greet ''sesame'' ''hub.example'' (Ts6Svinfo 3 3) ts6_nobody = Inl TooOld" by (simp add: ts6_greet_def)
qed code_simp

subsection \<open>What the events of a TS6 peer do to the state\<close>

definition ts6_in_order :: "string \<Rightarrow> uid_mapper \<Rightarrow> ts6_in \<Rightarrow> server \<Rightarrow> bool" where
  "ts6_in_order p m ev s =
     (case ev of
        Ts6Euid sid uid nick user host account realname \<Rightarrow>
          in_order (Uid (case sid of Some x \<Rightarrow> x | None \<Rightarrow> p) uid 0 nick user host (account_or_star account) realname) s
      | Ts6Nick uid nick \<Rightarrow> nick_available nick s
      | Ts6Save uid \<Rightarrow> nick_available (to_ferrix m uid) s
      | _ \<Rightarrow> True)"

lemma net_ok_sjoin_members: "net_ok s \<Longrightarrow> net_ok (fold (ts6_sjoin_member p c ts) ms s)"
  by (induction ms arbitrary: s) (auto simp: ts6_sjoin_member_def net_ok_from net_ok_handlers split: prod.split)

lemma net_ok_part_fold:
  "net_ok s \<Longrightarrow> net_ok (fold (\<lambda>channel s. snd (forwarded p (Spart channel uid r) (remote_part channel uid r s))) cs s)"
  by (induction cs arbitrary: s) (simp_all add: net_ok_handlers)

lemma net_ok_nick_result: "net_ok s \<Longrightarrow> nick_available nick s \<Longrightarrow> remote_nick_change uid nick s = (r, t) \<Longrightarrow> net_ok t"
  using net_ok_nick_change [of s nick uid] by simp

lemma net_ok_ts6_parts:
  assumes "net_ok s"
  shows "net_ok (snd (ts6_sjoin p m c ts ms fl ar s))" "net_ok (snd (ts6_part p u cs r s))" "net_ok (snd (ts6_msg p m a b nt tx s))"
    "net_ok (snd (ts6_tmode p m a c ts fl ar s))" "net_ok (snd (ts6_kick p m a c b r s))" "net_ok (snd (ts6_topic p a c tx s))"
    "net_ok (snd (ts6_kill p u r s))" "net_ok (snd (ts6_wallops p a tx s))" "net_ok (snd (ts6_invite p a b c s))"
  using assms net_ok_sjoin_members net_ok_part_fold net_ok_kill
  by (simp_all add: ts6_sjoin_def ts6_part_def ts6_msg_def ts6_tmode_def ts6_kick_def ts6_topic_def ts6_kill_def ts6_wallops_def
    ts6_invite_def Let_def net_ok_handlers split: prod.split option.split)

text \<open>Events of a TS6 peer keep the network state sound, whatever they carry and whatever the alias table holds. A EUID is
  asked to be in order as a native UID is (\<open>in_order\<close>), and the nickname a NICK or a SAVE gives must not be held by both a
  local and a remote user.\<close>

lemma ts6_handle_sound:
  assumes "net_ok s" "ts6_in_order peer_sid m ev s"
  shows "net_ok (snd (ts6_handle peer_sid m ev s))"
proof (cases ev)
  case (Ts6Sid name sid uplink description)
  then show ?thesis using assms(1) net_ok_accept_server
    by (auto simp: ts6_handle_def handle_sserver_def Let_def split: prod.split sum.split)
next
  case (Ts6Euid sid uid nick user host account realname)
  then show ?thesis using assms(2) net_ok_handle_uid [OF assms(1)]
    by (simp add: ts6_handle_def ts6_in_order_def in_order_def introducible_def Let_def)
next
  case (Ts6Nick uid nick)
  then show ?thesis using assms net_ok_nick_result [OF assms(1)]
    by (auto simp: ts6_handle_def ts6_in_order_def handle_nick_def split: prod.split option.split)
next
  case (Ts6Save uid)
  then show ?thesis using assms net_ok_nick_result [OF assms(1)]
    by (auto simp: ts6_handle_def ts6_in_order_def ts6_save_def split: prod.split option.split)
next
  case (Ts6Squit sid reason)
  then show ?thesis using assms(1) net_ok_split [OF assms(1)] by (simp add: ts6_handle_def handle_squit_def)
qed (simp_all add: ts6_handle_def assms(1) net_ok_from net_ok_handlers net_ok_ts6_parts Let_def)

text \<open>Events that leave users and routes alone.\<close>

lemma netframe_forwarded [simp]: "netframe s (snd (forwarded p m t)) = netframe s t"
proof -
  have q: "quiet t (snd (forwarded p m t))" "quiet t (snd (forwarded p m t)) \<Longrightarrow> netframe t (snd (forwarded p m t))"
    by (simp_all add: netframe_quiet)
  then have f: "netframe t (snd (forwarded p m t))" by blast
  then have "netframe s t" if "netframe s (snd (forwarded p m t))" using that by (simp add: netframe_def)
  then show ?thesis using f netframe_trans by blast
qed








end
