(* ===== verification/Spec2Isabelle.thy ===== *)
theory Spec2Isabelle
  imports Wire Mask Origin ModeSync World Framing Bridge
begin

text \<open>
  A verification development of \<^emph>\<open>ferrixd\<close>, an IRC daemon in Rust with native server linking. The
  crate \<open>ferrix-protocol\<close> parses and renders messages; the crate \<open>ferrixd\<close> is the daemon: one reader
  task per client and one per link, which share a \<open>Server\<close> (\<open>state.rs\<close>) of registries guarded by
  locks. A line read from a client goes through the codec, the parser and the command dispatcher;
  a line read from a peer goes through the parser, the frame reader of \<open>s2s.rs\<close> and the handler of
  \<open>link.rs\<close>. Both change the shared state, deliver rendered lines into bounded client mailboxes and
  queue frames for the other links.

  \<^bold>\<open>Theories and sources.\<close>
  \<^item> \<open>Prelude\<close>: bytes, strings and the operations of Rust's standard library the code uses; the lemma
    collections. Strings and byte slices are lists of 8-bit characters, so lengths count octets.
  \<^item> \<open>Message\<close>, \<open>Parser\<close>, \<open>Encode\<close> (\<open>ferrix-protocol\<close>: \<open>limits.rs\<close>, \<open>message.rs\<close>, \<open>tags.rs\<close>, \<open>parser.rs\<close>,
    \<open>encode.rs\<close>): the message model, its parser with every error, the renderer. A rendered message
    parses back to itself; what parsed fields can and cannot carry is stated; the budgets are exact.
  \<^item> \<open>Wire\<close> (\<open>wire.rs\<close>), \<open>Codec\<close> (\<open>codec.rs\<close>): outbound lines and inbound framing, with the bound of the
    codec's buffer and the one way in which its result depends on how the input is cut into reads.
  \<^item> \<open>Casemap\<close> (\<open>casemap.rs\<close>), \<open>Mask\<close> (\<open>mask.rs\<close>): name folding and validation, glob matching against a
    declarative specification. The locale \<open>name_folding\<close> is what the registries rely on.
  \<^item> \<open>Cap\<close> (\<open>cap.rs\<close>): capability sets on 32-bit words, \<open>CAP REQ\<close>; the locale \<open>cap_set\<close>.
  \<^item> \<open>Time\<close> (\<open>state.rs\<close>, the calendar functions), \<open>History\<close> (\<open>history.rs\<close>), \<open>Tables\<close> (hash tables as the
    locale \<open>table\<close>).
  \<^item> \<open>S2S\<close> (\<open>s2s.rs\<close>): the frames between servers, their reader and writer, the handshake.
  \<^item> \<open>State\<close> (\<open>state.rs\<close>): the server record. Reference-counted client and channel entries are cells of
    two stores, so that aliasing is explicit. \<open>Deliver\<close> (\<open>deliver.rs\<close>, \<open>ChannelEntry::broadcast\<close>): delivery
    per recipient, with its cache (locale \<open>memo\<close>). \<open>Presence\<close>: connection counts, bans, \<open>WHOWAS\<close>,
    monitors, read markers. \<open>Modes\<close>: the mode table, list modes, registration records (\<open>chanreg.rs\<close>).
  \<^item> \<open>Links\<close>, \<open>Channels\<close>, \<open>Remote\<close>, \<open>Changes\<close>, \<open>Relay\<close>, \<open>Burst\<close> (\<open>state.rs\<close>): routes and authorisation, the
    channel registry with join guards, the registry of remote users with nickname collisions and
    netsplits, every \<open>remote_\<close> and \<open>propagate_\<close> operation, relayed messages and plugin actions, the
    burst. \<open>LinkLoop\<close> (\<open>link.rs\<close>): the handler of every link message, the read loop, the handshake.
  \<^item> \<open>Membership\<close>, \<open>Network\<close>, \<open>Netsplit\<close>, \<open>Rename\<close>, \<open>LinkInv\<close>, \<open>Origin\<close>: the invariant of the network state
    and what the operations above guarantee. The locale \<open>membership\<close> states the agreement of a
    channel's members with the index of a member's channels once, and is interpreted for local and
    for remote members. The hypotheses of \<open>LinkInv\<close> and \<open>Origin\<close> say which messages of a peer are outside of the
    guarantees; \<open>Departure\<close> shows what one of them does.
  \<^item> \<open>Ts6\<close> (\<open>ts6.rs\<close>), \<open>Bridge\<close> (\<open>link.rs\<close>): links to TS6 servers. Aliases of network ids, the parser of TS6 lines, native
    frames said in TS6; the handshake, the handler of every event, the loop and the writer. The aliases lead back, only the
    configured peer is admitted, and the soundness and origin theorems of native links hold for the events of a TS6 peer
    too. A panic of \<open>valid_uid\<close> is the value \<open>None\<close>. The table of aliases is shared with the writer task, so the
    loop takes it with every frame, and the theorems hold for any table.
  \<^item> \<open>Account\<close> (\<open>account.rs\<close>, \<open>scram.rs\<close>), \<open>Sasl\<close> (\<open>sasl.rs\<close>), \<open>Services\<close> (\<open>state.rs\<close>, \<open>config.rs\<close>, \<open>cloak.rs\<close>): accounts and
    their verifiers, the SCRAM-SHA-256 exchange, chunked SASL payloads, the checks of credentials and the
    application of a configuration. Digests, Base64 and password hashes are parameters (\<open>auth\<close>).
  \<^item> \<open>Numerics\<close> (\<open>numeric.rs\<close>), \<open>Ip\<close> (the parts of \<open>std::net\<close> the host rules use), \<open>Session\<close> (\<open>session.rs\<close>): reply
    codes, the session of a client (\<open>conn\<close> pairs it with the shared state), replies, labeled responses,
    multiline batches, the completion of a registration.
  \<^item> \<open>Clients\<close>, \<open>Departure\<close>, \<open>Frames\<close>: the registry of local clients, \<open>Server::disconnect\<close>, and the frames the
    proofs about handlers use: \<open>quiet\<close> (output only), \<open>tame\<close> and \<open>safe\<close> (clients may lose channels), \<open>hush\<close>
    and \<open>kept\<close> for connections, the latter two carried through control structures by the locale
    \<open>handler_frame\<close>.
  \<^item> \<open>Handshake\<close>, \<open>Joining\<close>, \<open>Moderation\<close>, \<open>ModeSync\<close>, \<open>Messaging\<close>, \<open>Operators\<close>, \<open>Queries\<close>, \<open>Personal\<close>
    (\<open>command.rs\<close>): one definition per command handler, and for each the proof that it keeps
    \<open>conn_ok\<close>; joining, messages, moderation, bans and queries have their functional theorems there. The
    locale \<open>unseen\<close> of \<open>Queries\<close> states once that a query does not depend on what it must not show.
  \<^item> \<open>Dispatch\<close> (\<open>command.rs\<close>): the dispatcher with all its arms, and the invariant for every message. \<open>Company\<close>: what
    the commands of one client leave alone of the others, and who becomes an operator.
  \<^item> \<open>F64\<close>: the rounding of IEEE double arithmetic on rationals, with its error bound, for the token bucket.
  \<^item> \<open>Connection\<close> (\<open>connection.rs\<close>): admission, the reader loop with its timers and rate limit as a function of the
    events that wake it, the teardown, the writer. \<open>World\<close>: all connections of a server on one state, in any
    interleaving of whole turns; the invariant of everything this system can reach.
  \<^item> \<open>Websocket\<close>, \<open>Framing\<close> (\<open>websocket.rs\<close>): the upgrade handshake, frames, and the byte stream that stands in for the
    socket of a WebSocket client. The reading side refines \<open>stream_lines\<close>, from the bytes of the peer to the lines handed
    on; the writing side refines \<open>out_frames\<close>. Messages arrive whole and in order, each line goes out as one frame, and
    what a peer sends is buffered within a bound. The socket is a script of the results of its reads and writes.

  \<^bold>\<open>State and time.\<close> Each operation is a function on the server record and is taken as atomic; the
  source holds the locks of the entries it changes, not one global lock, so interleavings inside an
  operation are not modelled. The clock is a field that the environment moves. Hash tables iterate
  in the order of their association list: a theorem that does not fix a table holds for each order.

  \<^bold>\<open>Termination.\<close> Every recursive definition is total: the parser and the glob matcher by measures on
  the input, the loop that collects a split subtree by the number of servers not yet collected, the
  read loop by structural recursion on the frames received. No fuel is used except where the
  source has a counter of its own.

  \<^bold>\<open>Not modelled.\<close> Sockets, TLS and the timers themselves (\<open>listener.rs\<close>, \<open>tls.rs\<close>), the command
  line and the reading of the configuration file (\<open>cli.rs\<close>, \<open>main.rs\<close>), the metrics endpoint (\<open>metrics.rs\<close>), the SQLite
  stores (\<open>persist.rs\<close>, \<open>account.rs\<close>, \<open>chanreg.rs\<close> apart from the record type), the WebAssembly host
  (\<open>plugin.rs\<close>): these are input/output or calls into third-party crates. The answers of plugins are a
  parameter of the state (\<open>plugin_host\<close>). The server record leaves out the fields only these parts
  read.
\<close>

end
